(* ===== verification/Prelude.thy ===== *)
theory Prelude
  imports Main "HOL-Library.Signed_Division"
begin

text \<open>
  Shared material of the development: the error values of the repository and service
  packages (\<^verbatim>\<open>internal/repository/errors.go\<close>, \<^verbatim>\<open>internal/service/service.go\<close>), Go's
  64-bit integers with their wrap-around, and the transaction monad in which every
  database operation of the repository is written, with its rules.
\<close>

named_theorems tx_run "how a transaction step ends in a value"
named_theorems tx_err "how a transaction step ends in an error"
named_theorems no_commit_rules "steps that leave the committed database alone"
named_theorems atomic_rules "steps whose errors leave the committed database alone"

section \<open>Errors\<close>

text \<open>
  PostgreSQL failures are told apart by the SQLSTATE codes the code inspects: 40001, 40P01,
  55P03, 23505 (with the constraint's name) and anything else.
\<close>

datatype pg_error =
    Serialization_failure
  | Deadlock_detected
  | Lock_not_available
  | Unique_violation string
  | Other_pg string

text \<open>
  The sentinel errors of the repository package and those of the service package; two
  sentinels of the same name in the two packages are different values. \<open>GoError\<close> is an error
  built on the spot, \<open>Panic\<close> a run-time panic.
\<close>

datatype repo_error =
    ErrGoogleLinkRequired | ErrGoogleIdentityConflict | ErrNotFound | ErrEmailExists
  | ErrIdempotencyConflict | ErrIdempotencyInProgress | ErrPreviewExpired | ErrPreviewConsumed
  | ErrPreviewChanged | ErrInsufficientBalance | ErrInvalidRequest | ErrReferralCodeInvalid
  | ErrForbidden | ErrSessionReuse | ErrPreconditionFailed | ErrConflict
  | ErrSubscriptionChangeRequired | ErrProgramTypeImmutable | ErrProgramTypeHasBenefits
  | ErrSelfRoleChangeForbidden | ErrAccountModeConflict | ErrSignupDisabled
  | ErrQuoteExpired | ErrQuoteChanged | ErrCampaignOverlap | ErrCampaignChanged

datatype svc_error =
    InvalidCredentials | InvalidRequest | RegistrationProfileRequired | AccountTypeRequired
  | Forbidden | DemoDisabled | EmailUnverified | EmailChangeUnavailable | IdentityToken
  | RecentAuthRequired | MediaTooLarge | MediaType | MediaUnavailable | BillingUnavailable
  | BillingInProgress | TrialStartUnknown | BillingRejected | BillingProviderFailure
  | SubscriptionExists

datatype err =
    Repo repo_error | Svc svc_error | PgErr pg_error | GoError string | CtxCanceled | Panic

definition normalize :: "err \<Rightarrow> err" where
  "normalize e =
     (case e of
        PgErr (Unique_violation c) \<Rightarrow>
          if c = ''usuarios_email_key'' then Repo ErrEmailExists
          else if c = ''invitaciones_marca_email_pendiente_uk'' then Repo ErrConflict
          else e
      | _ \<Rightarrow> e)"

definition is_retryable :: "err \<Rightarrow> bool" where
  "is_retryable e = (e = PgErr Serialization_failure \<or> e = PgErr Deadlock_detected)"

definition is_unique_violation :: "err \<Rightarrow> bool" where
  "is_unique_violation e = (case e of PgErr (Unique_violation _) \<Rightarrow> True | _ \<Rightarrow> False)"

lemma normalize_retryable: "is_retryable (normalize e) = is_retryable e"
  by (auto simp: normalize_def is_retryable_def split: err.splits pg_error.splits)

section \<open>Go's int64\<close>

text \<open>
  An \<open>int64\<close> is an \<open>int\<close> kept in range by \<open>wrap64\<close>; Go's integer division truncates towards
  zero (\<open>sdiv\<close> of HOL-Library.Signed_Division).
\<close>

definition wrap64 :: "int \<Rightarrow> int" where
  "wrap64 x = (x + 2 ^ 63) mod 2 ^ 64 - 2 ^ 63"

definition in_int64 :: "int \<Rightarrow> bool" where
  "in_int64 x \<longleftrightarrow> - (2 ^ 63) \<le> x \<and> x < 2 ^ 63"

abbreviation max_int64 :: int where
  "max_int64 \<equiv> 9223372036854775807"

definition add64 :: "int \<Rightarrow> int \<Rightarrow> int" where
  "add64 a b = wrap64 (a + b)"

definition sub64 :: "int \<Rightarrow> int \<Rightarrow> int" where
  "sub64 a b = wrap64 (a - b)"

definition mul64 :: "int \<Rightarrow> int \<Rightarrow> int" where
  "mul64 a b = wrap64 (a * b)"

definition quo64 :: "int \<Rightarrow> int \<Rightarrow> int" where
  "quo64 a b = wrap64 (a sdiv b)"

definition rem64 :: "int \<Rightarrow> int \<Rightarrow> int" where
  "rem64 a b = a smod b"

lemma wrap64_id [simp]: "in_int64 x \<Longrightarrow> wrap64 x = x"
  by (simp add: wrap64_def in_int64_def)

lemma in_int64_zero [simp]: "in_int64 0"
  by (simp add: in_int64_def)

lemma in_int64_wrap64: "in_int64 (wrap64 x)"
proof -
  have "0 \<le> (x + 2 ^ 63) mod 2 ^ 64" "(x + 2 ^ 63) mod 2 ^ 64 < 2 ^ 64" by simp_all
  then show ?thesis by (simp add: wrap64_def in_int64_def)
qed

lemma wrap64_overflow:
  assumes "2 ^ 63 \<le> x" and "x < 2 ^ 64 + 2 ^ 63"
  shows "wrap64 x = x - 2 ^ 64"
proof -
  have "(x + 2 ^ 63) mod 2 ^ 64 = (x + 2 ^ 63 - 2 ^ 64) mod 2 ^ 64"
    by (rule minus_mod_self2 [symmetric])
  also have "\<dots> = x + 2 ^ 63 - 2 ^ 64"
    using assms by (intro mod_pos_pos_trivial) simp_all
  finally show ?thesis by (simp add: wrap64_def)
qed

lemma in_int64_ops [simp]:
  "in_int64 (add64 a b)" "in_int64 (sub64 a b)" "in_int64 (mul64 a b)"
  by (simp_all add: add64_def sub64_def mul64_def in_int64_wrap64)

text \<open>A sum of two non-negative int64 that wraps is negative.\<close>

lemma add64_exact:
  assumes "in_int64 a" "in_int64 b" "0 \<le> a" "0 \<le> b" "0 \<le> add64 a b"
  shows "add64 a b = a + b"
proof (rule ccontr)
  assume "add64 a b \<noteq> a + b"
  then have "\<not> in_int64 (a + b)" by (auto simp: add64_def)
  with assms(1-4) have "2 ^ 63 \<le> a + b" "a + b < 2 ^ 64 + 2 ^ 63" by (simp_all add: in_int64_def)
  with assms have "add64 a b < 0" by (simp add: add64_def wrap64_overflow in_int64_def)
  with assms(5) show False by simp
qed

lemma sub64_exact:
  "in_int64 a \<Longrightarrow> 0 \<le> b \<Longrightarrow> b \<le> a \<Longrightarrow> sub64 a b = a - b"
  by (simp add: sub64_def in_int64_def)

lemma in_int64_nonneg: "0 \<le> x \<Longrightarrow> x \<le> max_int64 \<Longrightarrow> in_int64 x"
  by (simp add: in_int64_def)

lemma sdiv_nonneg: "0 \<le> a \<Longrightarrow> 0 < b \<Longrightarrow> a sdiv b = (a::int) div b"
  by (cases "a = 0") (simp_all add: signed_divide_int_def)

lemma smod_nonneg: "0 \<le> a \<Longrightarrow> 0 < b \<Longrightarrow> a smod b = (a::int) mod b"
  by (cases "a = 0") (simp_all add: signed_modulo_int_def)

section \<open>The transaction monad\<close>

text \<open>
  A process sees a \<open>world\<close>: the committed database, the working copy of the open transaction,
  the two clocks the code reads (its own \<open>Now\<close> and PostgreSQL's \<open>now()\<close>), and the failures
  the database will report; \<open>sent\<close> lists the requests made to other services (operation,
  resource or key, amount), which no rollback takes back. Each statement sent to the database consumes one entry of
  \<open>faults\<close>: \<open>Some f\<close> makes it fail with \<open>f\<close>, \<open>None\<close> (or no entry left) lets it run. A fault
  schedule is the environment's choice, so a theorem over all schedules covers a failure of
  any statement, the commit included.
\<close>

record 'd world =
  committed :: 'd
  working :: 'd
  faults :: "pg_error option list"
  app_now :: int
  db_now :: int
  sent :: "(string \<times> string \<times> int) list"

type_synonym ('d, 'a) tx = "'d world \<Rightarrow> (err + 'a) \<times> 'd world"

definition ret :: "'a \<Rightarrow> ('d, 'a) tx" where
  "ret a w = (Inr a, w)"

definition throw :: "err \<Rightarrow> ('d, 'a) tx" where
  "throw e w = (Inl e, w)"

definition seq :: "('d, 'a) tx \<Rightarrow> ('a \<Rightarrow> ('d, 'b) tx) \<Rightarrow> ('d, 'b) tx" where
  "seq m f w = (case m w of (Inl e, w1) \<Rightarrow> (Inl e, w1) | (Inr a, w1) \<Rightarrow> f a w1)"

text \<open>\<open>if cond \{ return err \}\<close> and \<open>if errors.Is(err, pgx.ErrNoRows) \{ return err \}\<close>.\<close>

definition reject_if :: "bool \<Rightarrow> err \<Rightarrow> ('d, unit) tx" where
  "reject_if b e = (if b then throw e else ret ())"

definition require :: "'a option \<Rightarrow> err \<Rightarrow> ('d, 'a) tx" where
  "require r e = (case r of None \<Rightarrow> throw e | Some a \<Rightarrow> ret a)"

definition tick :: "('d, unit) tx" where
  "tick w =
     (case faults w of
        [] \<Rightarrow> (Inr (), w)
      | f # fs \<Rightarrow>
          (case f of
             None \<Rightarrow> (Inr (), w\<lparr>faults := fs\<rparr>)
           | Some pe \<Rightarrow> (Inl (PgErr pe), w\<lparr>faults := fs\<rparr>)))"

text \<open>A statement that reads, one that writes, and one that may violate a constraint.\<close>

definition query :: "('d world \<Rightarrow> 'a) \<Rightarrow> ('d, 'a) tx" where
  "query g = seq tick (\<lambda>_ w. (Inr (g w), w))"

definition exec :: "('d world \<Rightarrow> 'd) \<Rightarrow> ('d, unit) tx" where
  "exec g = seq tick (\<lambda>_ w. (Inr (), w\<lparr>working := g w\<rparr>))"

definition exec_ret :: "('d world \<Rightarrow> err + ('a \<times> 'd)) \<Rightarrow> ('d, 'a) tx" where
  "exec_ret g = seq tick (\<lambda>_ w.
     case g w of Inl e \<Rightarrow> (Inl e, w) | Inr (a, d) \<Rightarrow> (Inr a, w\<lparr>working := d\<rparr>))"

definition now_app :: "('d, int) tx" where
  "now_app w = (Inr (app_now w), w)"

text \<open>A request to another service: it is sent, and its answer comes from outside.\<close>

definition call_out :: "string \<times> string \<times> int \<Rightarrow> 'a \<Rightarrow> ('d, 'a) tx" where
  "call_out c answer w = (Inr answer, w\<lparr>sent := sent w @ [c]\<rparr>)"

definition commit :: "('d, unit) tx" where
  "commit = seq tick (\<lambda>_ w. (Inr (), w\<lparr>committed := working w\<rparr>))"

text \<open>\<open>catch m h\<close>: the caller looks at the error of \<open>m\<close> before it returns one.\<close>

definition catch :: "('d, 'a) tx \<Rightarrow> (err \<Rightarrow> ('d, 'a) tx) \<Rightarrow> ('d, 'a) tx" where
  "catch m h w = (case m w of (Inl e, w1) \<Rightarrow> h e w1 | (Inr a, w1) \<Rightarrow> (Inr a, w1))"

text \<open>\<open>a, err := m\<close>, where the caller goes on with the error in hand.\<close>

definition outcome_of :: "('d, 'a) tx \<Rightarrow> ('d, err + 'a) tx" where
  "outcome_of m w = (case m w of (r, w1) \<Rightarrow> (Inr r, w1))"

text \<open>
  \<open>Begin\<close>, the body, and the deferred \<open>Rollback\<close>, which discards whatever was not committed.
  A statement outside a transaction (\<open>r.Pool.Exec\<close>) is a transaction of its own.
\<close>

definition in_tx :: "('d, 'a) tx \<Rightarrow> ('d, 'a) tx" where
  "in_tx m = seq tick (\<lambda>_ w.
     case m (w\<lparr>working := committed w\<rparr>) of (r, w1) \<Rightarrow> (r, w1\<lparr>working := committed w1\<rparr>))"

definition pool_exec :: "('d world \<Rightarrow> err + ('a \<times> 'd)) \<Rightarrow> ('d, 'a) tx" where
  "pool_exec g = seq tick (\<lambda>_ w.
     case g (w\<lparr>working := committed w\<rparr>) of
       Inl e \<Rightarrow> (Inl e, w)
     | Inr (a, d) \<Rightarrow> (Inr a, w\<lparr>working := d, committed := d\<rparr>))"

subsection \<open>How steps end\<close>

definition ok_next :: "'d world \<Rightarrow> bool" where
  "ok_next w \<longleftrightarrow> (case faults w of Some _ # _ \<Rightarrow> False | _ \<Rightarrow> True)"

definition ticked :: "'d world \<Rightarrow> 'd world" where
  "ticked w = w\<lparr>faults := tl (faults w)\<rparr>"

lemma ticked_sel [simp]:
  "committed (ticked w) = committed w" "working (ticked w) = working w"
  "app_now (ticked w) = app_now w" "db_now (ticked w) = db_now w" "sent (ticked w) = sent w"
  "faults (ticked w) = tl (faults w)"
  by (simp_all add: ticked_def)

lemma ok_next_no_faults [simp]: "faults w = [] \<Longrightarrow> ok_next w"
  by (simp add: ok_next_def)

lemma ticked_no_faults: "faults w = [] \<Longrightarrow> ticked w = w"
  by (simp add: ticked_def)

lemma tick_Inr [tx_run]: "tick w = (Inr u, w1) \<longleftrightarrow> ok_next w \<and> w1 = ticked w"
  by (auto simp: tick_def ok_next_def ticked_def split: list.splits option.splits)

lemma tick_Inl: "tick w = (Inl e, w1) \<Longrightarrow> \<not> ok_next w \<and> w1 = ticked w"
  by (auto simp: tick_def ok_next_def ticked_def split: list.splits option.splits)

lemma tick_ok: "ok_next w \<Longrightarrow> tick w = (Inr (), ticked w)"
  by (simp add: tick_Inr)

lemma ret_Inr [tx_run]: "ret a w = (Inr b, w1) \<longleftrightarrow> b = a \<and> w1 = w"
  by (auto simp: ret_def)

lemma throw_Inr [tx_run]: "throw e w = (Inr b, w1) \<longleftrightarrow> False"
  by (simp add: throw_def)

lemma seq_Inr [tx_run]:
  "seq m f w = (Inr b, w2) \<longleftrightarrow> (\<exists>a w1. m w = (Inr a, w1) \<and> f a w1 = (Inr b, w2))"
  by (auto simp: seq_def split: prod.splits sum.splits)

lemma reject_if_Inr [tx_run]: "reject_if b e w = (Inr u, w1) \<longleftrightarrow> \<not> b \<and> w1 = w"
  by (auto simp: reject_if_def throw_def ret_def)

lemma require_Inr [tx_run]: "require r e w = (Inr a, w1) \<longleftrightarrow> r = Some a \<and> w1 = w"
  by (auto simp: require_def throw_def ret_def split: option.splits)

lemma query_Inr [tx_run]:
  "query g w = (Inr a, w1) \<longleftrightarrow> ok_next w \<and> a = g (ticked w) \<and> w1 = ticked w"
  by (auto simp: query_def tx_run)

lemma exec_Inr [tx_run]:
  "exec g w = (Inr u, w1) \<longleftrightarrow> ok_next w \<and> w1 = (ticked w)\<lparr>working := g (ticked w)\<rparr>"
  by (auto simp: exec_def tx_run)

lemma exec_ret_Inr [tx_run]:
  "exec_ret g w = (Inr a, w1) \<longleftrightarrow>
     ok_next w \<and> (\<exists>d. g (ticked w) = Inr (a, d) \<and> w1 = (ticked w)\<lparr>working := d\<rparr>)"
  by (auto simp: exec_ret_def tx_run split: sum.splits)

lemma now_app_Inr [tx_run]: "now_app w = (Inr t, w1) \<longleftrightarrow> t = app_now w \<and> w1 = w"
  by (auto simp: now_app_def)

lemma call_out_Inr [tx_run]:
  "call_out c a w = (Inr b, w1) \<longleftrightarrow> b = a \<and> w1 = w\<lparr>sent := sent w @ [c]\<rparr>"
  by (auto simp: call_out_def)

lemma commit_Inr [tx_run]:
  "commit w = (Inr u, w1) \<longleftrightarrow> ok_next w \<and> w1 = (ticked w)\<lparr>committed := working w\<rparr>"
  by (auto simp: commit_def tx_run)

lemma catch_Inr [tx_run]:
  "catch m h w = (Inr a, w2) \<longleftrightarrow>
     m w = (Inr a, w2) \<or> (\<exists>e w1. m w = (Inl e, w1) \<and> h e w1 = (Inr a, w2))"
  by (auto simp: catch_def split: prod.splits sum.splits)

lemma outcome_of_Inr [tx_run]: "outcome_of m w = (Inr r, w1) \<longleftrightarrow> m w = (r, w1)"
  by (auto simp: outcome_of_def split: prod.splits)

lemma in_tx_Inr [tx_run]:
  "in_tx m w = (Inr a, w2) \<longleftrightarrow>
     ok_next w \<and> (\<exists>w1. m ((ticked w)\<lparr>working := committed w\<rparr>) = (Inr a, w1)
       \<and> w2 = w1\<lparr>working := committed w1\<rparr>)"
  by (auto simp: in_tx_def tx_run split: prod.splits)

lemma pool_exec_Inr [tx_run]:
  "pool_exec g w = (Inr a, w1) \<longleftrightarrow>
     ok_next w \<and> (\<exists>d. g ((ticked w)\<lparr>working := committed w\<rparr>) = Inr (a, d)
       \<and> w1 = (ticked w)\<lparr>working := d, committed := d\<rparr>)"
  by (auto simp: pool_exec_def tx_run split: sum.splits)

text \<open>A successful run, statement by statement.\<close>

lemma seq_query_Inr: "seq (query g) f w = (Inr b, w1) \<longleftrightarrow> ok_next w \<and> f (g (ticked w)) (ticked w) = (Inr b, w1)"
  by (auto simp: seq_Inr query_Inr)

lemma seq_require_Inr: "seq (require x e) f w = (Inr b, w1) \<longleftrightarrow> (\<exists>a. x = Some a \<and> f a w = (Inr b, w1))"
  by (auto simp: seq_Inr require_Inr)

lemma seq_reject_Inr: "seq (reject_if b e) f w = (Inr a, w1) \<longleftrightarrow> \<not> b \<and> f () w = (Inr a, w1)"
  by (auto simp: seq_Inr reject_if_Inr)

lemma seq_exec_Inr: "seq (exec g) f w = (Inr a, w1) \<longleftrightarrow> ok_next w \<and> f () ((ticked w)\<lparr>working := g (ticked w)\<rparr>) = (Inr a, w1)"
  by (auto simp: seq_Inr exec_Inr)

lemma seq_now_Inr: "seq now_app f w = (Inr a, w1) \<longleftrightarrow> f (app_now w) w = (Inr a, w1)"
  by (auto simp: seq_Inr now_app_Inr)

lemmas seq_run = seq_query_Inr seq_require_Inr seq_reject_Inr seq_exec_Inr seq_now_Inr

text \<open>Without faults a step is evaluated by rewriting.\<close>

lemma seq_ok: "m w = (Inr a, w1) \<Longrightarrow> seq m f w = f a w1"
  by (simp add: seq_def)

lemma seq_fail: "m w = (Inl e, w1) \<Longrightarrow> seq m f w = (Inl e, w1)"
  by (simp add: seq_def)

text \<open>A step that changed nothing but the fault schedule.\<close>

definition quiet :: "'d world \<Rightarrow> 'd world \<Rightarrow> bool" where
  "quiet w w1 \<longleftrightarrow> committed w1 = committed w \<and> working w1 = working w
     \<and> app_now w1 = app_now w \<and> db_now w1 = db_now w"

lemma quietD:
  assumes "quiet w w1"
  shows "committed w1 = committed w" "working w1 = working w" "app_now w1 = app_now w"
    "db_now w1 = db_now w"
  using assms by (simp_all add: quiet_def)

lemma quiet_refl [simp]: "quiet w w"
  by (simp add: quiet_def)

lemma quiet_ticked [simp]: "quiet w (ticked w)"
  by (simp add: quiet_def)

lemma quiet_trans [trans]: "quiet w w1 \<Longrightarrow> quiet w1 w2 \<Longrightarrow> quiet w w2"
  by (simp add: quiet_def)

subsection \<open>Atomicity\<close>

definition no_commit :: "('d, 'a) tx \<Rightarrow> bool" where
  "no_commit m \<longleftrightarrow> (\<forall>w. committed (snd (m w)) = committed w)"

definition atomic :: "('d, 'a) tx \<Rightarrow> bool" where
  "atomic m \<longleftrightarrow> (\<forall>w e w1. m w = (Inl e, w1) \<longrightarrow> committed w1 = committed w)"

lemma no_commitD: "no_commit m \<Longrightarrow> m w = (r, w1) \<Longrightarrow> committed w1 = committed w"
  by (metis no_commit_def snd_conv)

lemma no_commitI: "(\<And>w r w1. m w = (r, w1) \<Longrightarrow> committed w1 = committed w) \<Longrightarrow> no_commit m"
  by (simp add: no_commit_def) (metis prod.collapse)

lemma atomicD: "atomic m \<Longrightarrow> m w = (Inl e, w1) \<Longrightarrow> committed w1 = committed w"
  by (simp add: atomic_def)

lemma no_commit_tick [no_commit_rules]: "no_commit tick"
  by (auto simp: no_commit_def tick_def split: list.splits option.splits)

lemma no_commit_ret [no_commit_rules]: "no_commit (ret a)"
  by (simp add: no_commit_def ret_def)

lemma no_commit_throw [no_commit_rules]: "no_commit (throw e)"
  by (simp add: no_commit_def throw_def)

lemma no_commit_seq [no_commit_rules]:
  assumes m: "no_commit m" and f: "\<And>a. no_commit (f a)"
  shows "no_commit (seq m f)"
proof (rule no_commitI)
  fix w r w1
  assume run: "seq m f w = (r, w1)"
  obtain r2 w2 where mw: "m w = (r2, w2)" by (cases "m w")
  note keep = no_commitD [OF m mw]
  show "committed w1 = committed w"
  proof (cases r2)
    case (Inl e)
    with run mw keep show ?thesis by (simp add: seq_def)
  next
    case (Inr a)
    with run mw have "f a w2 = (r, w1)" by (simp add: seq_def)
    with keep show ?thesis by (simp add: no_commitD [OF f])
  qed
qed

lemma no_commit_reject_if [no_commit_rules]: "no_commit (reject_if b e)"
  by (simp add: reject_if_def no_commit_rules)

lemma no_commit_require [no_commit_rules]: "no_commit (require r e)"
  by (simp add: require_def no_commit_rules split: option.splits)

lemma no_commit_query [no_commit_rules]: "no_commit (query g)"
  unfolding query_def by (rule no_commit_seq [OF no_commit_tick]) (simp add: no_commit_def)

lemma no_commit_exec [no_commit_rules]: "no_commit (exec g)"
  unfolding exec_def by (rule no_commit_seq [OF no_commit_tick]) (simp add: no_commit_def)

lemma no_commit_exec_ret [no_commit_rules]: "no_commit (exec_ret g)"
  unfolding exec_ret_def
  by (rule no_commit_seq [OF no_commit_tick]) (simp add: no_commit_def split: sum.splits)

lemma no_commit_now_app [no_commit_rules]: "no_commit now_app"
  by (simp add: no_commit_def now_app_def)

lemma no_commit_call_out [no_commit_rules]: "no_commit (call_out c a)"
  by (simp add: no_commit_def call_out_def)

lemma no_commit_catch [no_commit_rules]:
  assumes m: "no_commit m" and h: "\<And>e. no_commit (h e)"
  shows "no_commit (catch m h)"
proof (rule no_commitI)
  fix w r w1
  assume run: "catch m h w = (r, w1)"
  obtain r2 w2 where mw: "m w = (r2, w2)" by (cases "m w")
  note keep = no_commitD [OF m mw]
  show "committed w1 = committed w"
  proof (cases r2)
    case (Inl e)
    with run mw have "h e w2 = (r, w1)" by (simp add: catch_def)
    with keep show ?thesis by (simp add: no_commitD [OF h])
  next
    case (Inr a)
    with run mw keep show ?thesis by (simp add: catch_def)
  qed
qed

lemma no_commit_outcome_of [no_commit_rules]: "no_commit m \<Longrightarrow> no_commit (outcome_of m)"
  by (auto simp: no_commit_def outcome_of_def split: prod.splits) (metis snd_conv)

lemma no_commit_if [no_commit_rules]:
  "(b \<Longrightarrow> no_commit m) \<Longrightarrow> (\<not> b \<Longrightarrow> no_commit n) \<Longrightarrow> no_commit (if b then m else n)"
  by simp

lemma no_commit_option [no_commit_rules]:
  "(x = None \<Longrightarrow> no_commit m) \<Longrightarrow> (\<And>a. x = Some a \<Longrightarrow> no_commit (f a)) \<Longrightarrow>
   no_commit (case x of None \<Rightarrow> m | Some a \<Rightarrow> f a)"
  by (cases x) simp_all

lemma no_commit_prod [no_commit_rules]:
  "(\<And>a b. x = (a, b) \<Longrightarrow> no_commit (f a b)) \<Longrightarrow> no_commit (case x of (a, b) \<Rightarrow> f a b)"
  by (cases x) simp

lemma no_commit_let [no_commit_rules]: "no_commit (f t) \<Longrightarrow> no_commit (let x = t in f x)"
  by simp

lemma atomic_no_commit: "no_commit m \<Longrightarrow> atomic m"
  by (simp add: atomic_def no_commitD)

lemma atomic_seq [atomic_rules]:
  assumes m: "no_commit m" and f: "\<And>a. atomic (f a)"
  shows "atomic (seq m f)"
  unfolding atomic_def
proof (intro allI impI)
  fix w e w1
  assume "seq m f w = (Inl e, w1)"
  then consider "m w = (Inl e, w1)" | a w2 where "m w = (Inr a, w2)" "f a w2 = (Inl e, w1)"
    by (auto simp: seq_def split: prod.splits sum.splits)
  then show "committed w1 = committed w"
  proof cases
    case 1
    then show ?thesis by (rule no_commitD [OF m])
  next
    case 2
    then show ?thesis using no_commitD [OF m] atomicD [OF f] by simp
  qed
qed

lemma atomic_commit_ret [atomic_rules]: "atomic (seq commit (\<lambda>_. ret a))"
  by (auto simp: atomic_def seq_def commit_def ret_def tick_def ticked_def
      split: prod.splits sum.splits list.splits option.splits)

lemma atomic_commit [atomic_rules]: "atomic commit"
  by (auto simp: atomic_def seq_def commit_def ret_def tick_def ticked_def
      split: prod.splits sum.splits list.splits option.splits)

lemma atomic_then_total:
  assumes "atomic m" and "\<And>a w. \<exists>b. f a w = (Inr b, w)"
  shows "atomic (seq m f)"
  unfolding atomic_def
proof (intro allI impI)
  fix w e w1
  assume run: "seq m f w = (Inl e, w1)"
  show "committed w1 = committed w"
  proof (cases "m w")
    case (Pair r w2)
    show ?thesis
    proof (cases r)
      case (Inl e2)
      with run Pair show ?thesis using atomicD [OF assms(1)] by (auto simp: seq_def)
    next
      case (Inr a)
      with run Pair obtain b where "f a w2 = (Inr b, w2)" using assms(2) by blast
      with run Pair Inr show ?thesis by (simp add: seq_def)
    qed
  qed
qed

lemma atomic_leaf [atomic_rules]: "atomic (ret a)" "atomic (throw e)"
  by (simp_all add: atomic_no_commit no_commit_rules)

lemma atomic_if [atomic_rules]:
  "(b \<Longrightarrow> atomic m) \<Longrightarrow> (\<not> b \<Longrightarrow> atomic n) \<Longrightarrow> atomic (if b then m else n)"
  by simp

lemma atomic_option [atomic_rules]:
  "(x = None \<Longrightarrow> atomic m) \<Longrightarrow> (\<And>a. x = Some a \<Longrightarrow> atomic (f a)) \<Longrightarrow>
   atomic (case x of None \<Rightarrow> m | Some a \<Rightarrow> f a)"
  by (cases x) simp_all

lemma atomic_prod [atomic_rules]:
  "(\<And>a b. x = (a, b) \<Longrightarrow> atomic (f a b)) \<Longrightarrow> atomic (case x of (a, b) \<Rightarrow> f a b)"
  by (cases x) simp

lemma atomic_let [atomic_rules]: "atomic (f t) \<Longrightarrow> atomic (let x = t in f x)"
  by simp

lemma atomic_in_tx [atomic_rules]:
  assumes "atomic m"
  shows "atomic (in_tx m)"
  unfolding atomic_def
proof (intro allI impI)
  fix w e w1
  assume run: "in_tx m w = (Inl e, w1)"
  show "committed w1 = committed w"
  proof (cases "ok_next w")
    case True
    with run obtain w2 where "m ((ticked w)\<lparr>working := committed w\<rparr>) = (Inl e, w2)"
      and "committed w1 = committed w2"
      by (auto simp: in_tx_def seq_def tick_ok split: prod.splits)
    then show ?thesis using atomicD [OF assms] by fastforce
  next
    case False
    with run show ?thesis
      by (auto simp: in_tx_def seq_def tick_def ok_next_def split: list.splits option.splits)
  qed
qed

lemma atomic_pool_exec [atomic_rules]: "atomic (pool_exec g)"
  by (auto simp: atomic_def pool_exec_def seq_def tick_def
      split: prod.splits sum.splits list.splits option.splits)

text \<open>
  After a transaction the working copy is the committed database again, whatever happened.
\<close>

lemma in_tx_rolled_back:
  "ok_next w \<Longrightarrow> working (snd (in_tx m w)) = committed (snd (in_tx m w))"
  by (simp add: in_tx_def seq_def tick_ok split: prod.splits)

end
