(* ===== verification/Schema.thy ===== *)
theory Schema
  imports Prelude
begin

text \<open>
  The tables that every component reads (users, brands, memberships, branches and programs;
  \<^verbatim>\<open>migrations/0001_demo_sellos.up.sql\<close> with the columns of the later migrations that the Go
  code names), the decimal and trimming functions of the SQL and Go code, and the reading of
  a query's first row. A table is the list of its rows.
\<close>

section \<open>Rows\<close>

definition first_row :: "'a list \<Rightarrow> 'a option" where
  "first_row rows = (case rows of [] \<Rightarrow> None | r # _ \<Rightarrow> Some r)"

lemma first_row_None [simp]: "first_row rows = None \<longleftrightarrow> rows = []"
  by (simp add: first_row_def split: list.splits)

lemma first_row_SomeD: "first_row rows = Some r \<Longrightarrow> r \<in> set rows"
  by (auto simp: first_row_def split: list.splits)

text \<open>\<open>COALESCE(x, a)\<close>\<close>

definition coalesce :: "'a option \<Rightarrow> 'a \<Rightarrow> 'a" where
  "coalesce x a = (case x of None \<Rightarrow> a | Some b \<Rightarrow> b)"

lemma coalesce_simps [simp]: "coalesce None a = a" "coalesce (Some b) a = b"
  by (simp_all add: coalesce_def)

text \<open>\<open>UPDATE t SET ... WHERE cond\<close> and its number of affected rows.\<close>

definition update_where :: "('r \<Rightarrow> bool) \<Rightarrow> ('r \<Rightarrow> 'r) \<Rightarrow> 'r list \<Rightarrow> 'r list" where
  "update_where p f rows = map (\<lambda>r. if p r then f r else r) rows"

definition rows_affected :: "('r \<Rightarrow> bool) \<Rightarrow> 'r list \<Rightarrow> nat" where
  "rows_affected p rows = length (filter p rows)"

lemma length_update_where [simp]: "length (update_where p f rows) = length rows"
  by (simp add: update_where_def)

lemma update_where_Nil [simp]: "update_where p f [] = []"
  by (simp add: update_where_def)

lemma update_where_Cons [simp]:
  "update_where p f (r # rows) = (if p r then f r else r) # update_where p f rows"
  by (simp add: update_where_def)

lemma map_update_where:
  "(\<And>r. p r \<Longrightarrow> g (f r) = g r) \<Longrightarrow> map g (update_where p f rows) = map g rows"
  by (simp add: update_where_def)

lemma set_update_where:
  "x \<in> set (update_where p f rows) \<longleftrightarrow> (\<exists>r \<in> set rows. x = (if p r then f r else r))"
  by (auto simp: update_where_def)

lemma update_where_none: "(\<And>r. r \<in> set rows \<Longrightarrow> \<not> p r) \<Longrightarrow> update_where p f rows = rows"
  by (induction rows) (auto simp: update_where_def)

text \<open>A key column has at most one row per value.\<close>

lemma distinct_key_unique:
  "distinct (map k rows) \<Longrightarrow> r \<in> set rows \<Longrightarrow> s \<in> set rows \<Longrightarrow> k r = k s \<Longrightarrow> r = s"
  by (meson distinct_map inj_onD)

lemma find_key:
  assumes "distinct (map k rows)" and "r \<in> set rows"
  shows "List.find (\<lambda>s. k s = k r) rows = Some r"
  using assms by (induction rows) (auto simp: image_iff)

lemma find_member: "List.find p xs = Some x \<Longrightarrow> x \<in> set xs \<and> p x"
  by (auto simp: find_Some_iff)

text \<open>An identity column takes a value no row has.\<close>

definition next_id :: "int list \<Rightarrow> int" where
  "next_id ids = fold max ids 0 + 1"

lemma fold_max_ge: "(m::int) \<le> fold max ids m"
proof (induction ids arbitrary: m)
  case (Cons a ids)
  show ?case using Cons [of "max a m"] by simp
qed simp

lemma fold_max_member: "i \<in> set ids \<Longrightarrow> (i::int) \<le> fold max ids m"
proof (induction ids arbitrary: m)
  case (Cons j js)
  then show ?case using fold_max_ge [of "max j m" js] by (auto intro: order_trans)
qed simp

lemma next_id_pos: "0 < next_id ids"
  using fold_max_ge [of 0 ids] by (simp add: next_id_def)

lemma next_id_greater: "i \<in> set ids \<Longrightarrow> i < next_id ids"
  using fold_max_member [of i ids 0] by (simp add: next_id_def)

lemma next_id_fresh: "next_id ids \<notin> set ids"
  using next_id_greater by blast

section \<open>Text\<close>

fun trim_left :: "(char \<Rightarrow> bool) \<Rightarrow> string \<Rightarrow> string" where
  "trim_left p [] = []"
| "trim_left p (c # cs) = (if p c then trim_left p cs else c # cs)"

definition trim :: "(char \<Rightarrow> bool) \<Rightarrow> string \<Rightarrow> string" where
  "trim p s = rev (trim_left p (rev (trim_left p s)))"

text \<open>
  \<open>btrim\<close> of SQL removes spaces; \<open>strings.TrimSpace\<close> of Go removes the ASCII white space
  (the strings it is applied to here are compared as bytes; white space outside ASCII is not
  modelled).
\<close>

definition btrim :: "string \<Rightarrow> string" where
  "btrim = trim (\<lambda>c. c = CHR '' '')"

definition is_space :: "char \<Rightarrow> bool" where
  "is_space c = (of_char c \<in> {9, 10, 11, 12, 13, 32 :: nat})"

definition trim_space :: "string \<Rightarrow> string" where
  "trim_space = trim is_space"

lemma trim_left_head: "trim_left p s = c # cs \<Longrightarrow> \<not> p c"
  by (induction s) (auto split: if_splits)

lemma trim_left_idem [simp]: "trim_left p (trim_left p s) = trim_left p s"
  by (induction s) auto

lemma trim_left_suffix: "\<exists>pre. s = pre @ trim_left p s \<and> (\<forall>c \<in> set pre. p c)"
proof (induction s)
  case (Cons c cs)
  then obtain pre where "cs = pre @ trim_left p cs" "\<forall>c \<in> set pre. p c" by blast
  then show ?case by (cases "p c") (auto intro!: exI [of _ "c # pre"])
qed simp

lemma trim_left_fixed: "s = [] \<or> \<not> p (hd s) \<Longrightarrow> trim_left p s = s"
  by (cases s) auto

lemma trim_idem: "trim p (trim p s) = trim p s"
proof -
  let ?l = "trim_left p s"
  let ?r = "rev (trim_left p (rev ?l))"
  obtain pre where pre: "rev ?l = pre @ trim_left p (rev ?l)"
    using trim_left_suffix by metis
  then have l: "?l = ?r @ rev pre" by (metis rev_append rev_rev_ident)
  have "?r = [] \<or> \<not> p (hd ?r)"
  proof (cases "?r = []")
    case False
    with l have "hd ?r = hd ?l" by (metis hd_append2)
    moreover have "?l \<noteq> []" using False l by auto
    ultimately show ?thesis by (metis list.exhaust_sel trim_left_head)
  qed simp
  then have "trim_left p ?r = ?r" by (rule trim_left_fixed)
  then show ?thesis by (simp add: trim_def)
qed

definition to_upper :: "string \<Rightarrow> string" where
  "to_upper = map (\<lambda>c. let n = of_char c :: nat in
     if 97 \<le> n \<and> n \<le> 122 then char_of (n - 32) else c)"

definition is_digit :: "char \<Rightarrow> bool" where
  "is_digit c = (48 \<le> (of_char c :: nat) \<and> (of_char c :: nat) \<le> 57)"

definition digit_value :: "char \<Rightarrow> nat" where
  "digit_value c = of_char c - 48"

definition has_prefix :: "string \<Rightarrow> string \<Rightarrow> bool" where
  "has_prefix s pre = (take (length pre) s = pre)"

definition trim_prefix :: "string \<Rightarrow> string \<Rightarrow> string" where
  "trim_prefix s pre = (if has_prefix s pre then drop (length pre) s else s)"

text \<open>Decimal notation: \<open>%d\<close>, and \<open>strconv.ParseInt(s, 10, 64)\<close> on a string of digits.\<close>

fun show_nat :: "nat \<Rightarrow> string" where
  "show_nat n =
     (if n < 10 then [char_of (48 + n)] else show_nat (n div 10) @ [char_of (48 + n mod 10)])"

declare show_nat.simps [simp del]

definition show_int :: "int \<Rightarrow> string" where
  "show_int i = (if i < 0 then CHR ''-'' # show_nat (nat (- i)) else show_nat (nat i))"

definition read_nat :: "string \<Rightarrow> nat" where
  "read_nat s = foldl (\<lambda>n c. 10 * n + digit_value c) 0 s"

definition parse_int64 :: "string \<Rightarrow> int option" where
  "parse_int64 s =
     (if s \<noteq> [] \<and> list_all is_digit s \<and> read_nat s < 2 ^ 63 then Some (int (read_nat s)) else None)"

lemma digit_char: "d < 10 \<Longrightarrow> is_digit (char_of (48 + d)) \<and> digit_value (char_of (48 + d)) = d"
  by (simp add: is_digit_def digit_value_def)

lemma show_nat_digits: "list_all is_digit (show_nat n) \<and> show_nat n \<noteq> []"
proof (induction n rule: show_nat.induct)
  case (1 n)
  then show ?case
    by (cases "n < 10") (auto simp: show_nat.simps [of n] digit_char)
qed

lemma read_nat_snoc: "read_nat (s @ [c]) = 10 * read_nat s + digit_value c"
  by (simp add: read_nat_def)

lemma read_show_nat: "read_nat (show_nat n) = n"
proof (induction n rule: show_nat.induct)
  case (1 n)
  show ?case
  proof (cases "n < 10")
    case True
    then show ?thesis by (simp add: show_nat.simps [of n] read_nat_def digit_char)
  next
    case False
    with 1 have "read_nat (show_nat (n div 10)) = n div 10" by simp
    with False show ?thesis
      by (simp add: show_nat.simps [of n] read_nat_snoc digit_char)
  qed
qed

lemma show_nat_inject: "show_nat m = show_nat n \<longleftrightarrow> m = n"
  by (metis read_show_nat)

lemma show_nat_no_minus: "hd (show_nat n) \<noteq> CHR ''-''"
proof -
  have "is_digit (hd (show_nat n))"
    using show_nat_digits [of n] by (cases "show_nat n") simp_all
  then show ?thesis by (auto simp: is_digit_def)
qed

lemma show_int_inject: "show_int i = show_int j \<longleftrightarrow> i = j"
proof -
  have "CHR ''-'' # s \<noteq> show_nat n" for s n
    using show_nat_no_minus [of n] by (metis list.sel(1))
  then show ?thesis
    by (auto simp: show_int_def show_nat_inject split: if_splits) (metis)+
qed

lemma parse_show_int: "0 \<le> i \<Longrightarrow> i < 2 ^ 63 \<Longrightarrow> parse_int64 (show_int i) = Some i"
  using show_nat_digits [of "nat i"]
  by (auto simp: parse_int64_def show_int_def read_show_nat nat_less_iff)

lemma show_nat_length: "n < 10 ^ k \<Longrightarrow> 0 < k \<Longrightarrow> length (show_nat n) \<le> k"
proof (induction n arbitrary: k rule: show_nat.induct)
  case (1 n)
  show ?case
  proof (cases "n < 10")
    case True
    with 1 show ?thesis by (simp add: show_nat.simps [of n])
  next
    case False
    from 1(3) obtain j where k: "k = Suc j" by (cases k) auto
    with False 1(2) have "0 < j" by (cases j) auto
    with k have j: "k = Suc j" "0 < j" by auto
    with 1(2) have "n div 10 < 10 ^ j" by (simp add: div_less_iff_less_mult mult.commute)
    with 1(1) [OF False this j(2)] False j show ?thesis by (simp add: show_nat.simps [of n])
  qed
qed

section \<open>Tables shared by all components\<close>

text \<open>
  A coordinate is a \<open>float64\<close>, given by its value in units of \<open>2 ^ -1074\<close>, in which every finite
  one is an integer; \<open>degrees n\<close> is the constant \<open>n\<close>.
\<close>

definition degrees :: "int \<Rightarrow> int" where
  "degrees n = n * 2 ^ 1074"

record usuario =
  u_id :: int
  u_email :: string
  u_nombre :: string
  u_apellido :: "string option"
  u_tipo :: string
  u_activo :: bool
  u_deleted_at :: "int option"
  u_qr_hash :: "string option"
  u_codigo :: "string option"
  u_verified_at :: "int option"

record marca =
  m_id :: int
  m_nombre :: string
  m_activo :: bool
  m_deleted_at :: "int option"
  m_zona :: string
  m_trial_started :: "int option"
  m_trial_estimated :: bool

record membresia =
  mm_id :: int
  mm_usuario :: int
  mm_marca :: int
  mm_rol :: string
  mm_activo :: bool
  mm_version :: int

record membresia_sucursal =
  ms_membresia :: int
  ms_marca :: int
  ms_sucursal :: int
  ms_activo :: bool

record sucursal =
  s_id :: int
  s_marca :: int
  s_nombre :: string
  s_activo :: bool
  s_deleted_at :: "int option"
  s_direccion :: "string option"
  s_localidad :: "string option"
  s_provincia :: "string option"
  s_codigo_postal :: "string option"
  s_latitud :: "int option"
  s_longitud :: "int option"
  s_principal :: bool
  s_version :: int

record programa =
  p_id :: int
  p_marca :: int
  p_tipo :: string
  p_activo :: bool
  p_created :: int

record core_db =
  usuarios :: "usuario list"
  marcas :: "marca list"
  membresias :: "membresia list"
  membresias_sucursales :: "membresia_sucursal list"
  sucursales :: "sucursal list"
  programas :: "programa list"

text \<open>
  \<open>btrim(concat_ws(' ',nombre,apellido))\<close>, and
  \<open>COALESCE(codigo_usuario,'#USER-'||lpad(id::text,greatest(4,length(id::text)),'0'))\<close>.
\<close>

definition full_name :: "usuario \<Rightarrow> string" where
  "full_name u = btrim (case u_apellido u of None \<Rightarrow> u_nombre u | Some a \<Rightarrow> u_nombre u @ '' '' @ a)"

definition lpad0 :: "nat \<Rightarrow> string \<Rightarrow> string" where
  "lpad0 n s = replicate (n - length s) (CHR ''0'') @ s"

definition user_code :: "usuario \<Rightarrow> string" where
  "user_code u = (case u_codigo u of Some c \<Rightarrow> c
     | None \<Rightarrow> ''#USER-'' @ lpad0 4 (show_int (u_id u)))"

text \<open>
  The join every movement statement starts from: the actor's active membership of the
  branch's brand, with a role that covers every branch or a grant for this one.
\<close>

definition covers_branch :: "'a core_db_scheme \<Rightarrow> membresia \<Rightarrow> int \<Rightarrow> bool" where
  "covers_branch d mm branch \<longleftrightarrow>
     mm_rol mm \<in> {''PROPIETARIO'', ''ADMINISTRADOR''} \<or>
     list_ex (\<lambda>ms. ms_membresia ms = mm_id mm \<and> ms_marca ms = mm_marca mm
       \<and> ms_sucursal ms = branch \<and> ms_activo ms) (membresias_sucursales d)"

end
