(* ===== verification/GoText.thy ===== *)
theory GoText
  imports Schema
begin

text \<open>
  Functions of Go's \<^verbatim>\<open>strings\<close>, \<^verbatim>\<open>strconv\<close> and \<^verbatim>\<open>encoding/hex\<close> packages that several components
  use: \<open>Split\<close> at a one-character separator, \<open>SplitN\<close> in two at the first \<open>=\<close>, \<open>ParseInt\<close> with
  its optional sign, \<open>ToLower\<close> on ASCII text and \<open>DecodeString\<close>.
\<close>

fun split_on :: "char \<Rightarrow> string \<Rightarrow> string list" where
  "split_on sep [] = [[]]"
| "split_on sep (c # s) =
     (if c = sep then [] # split_on sep s
      else (c # hd (split_on sep s)) # tl (split_on sep s))"

fun split_pair :: "string \<Rightarrow> (string \<times> string) option" where
  "split_pair [] = None"
| "split_pair (c # cs) =
     (if c = CHR ''='' then Some ('''', cs) else map_option (\<lambda>(k, v). (c # k, v)) (split_pair cs))"

definition parse_signed :: "string \<Rightarrow> int option" where
  "parse_signed s =
     (case s of
        [] \<Rightarrow> None
      | c # t \<Rightarrow>
          if c = CHR ''+'' then parse_int64 t
          else if c = CHR ''-'' then
            (if t \<noteq> [] \<and> list_all is_digit t \<and> read_nat t \<le> 2 ^ 63 then Some (- int (read_nat t)) else None)
          else parse_int64 s)"

definition to_lower :: "string \<Rightarrow> string" where
  "to_lower = map (\<lambda>c. let n = of_char c :: nat in if 65 \<le> n \<and> n \<le> 90 then char_of (n + 32) else c)"

definition hex_value :: "char \<Rightarrow> nat option" where
  "hex_value c = (let n = of_char c :: nat in
     if 48 \<le> n \<and> n \<le> 57 then Some (n - 48)
     else if 97 \<le> n \<and> n \<le> 102 then Some (n - 87)
     else if 65 \<le> n \<and> n \<le> 70 then Some (n - 55) else None)"

fun hex_decode :: "string \<Rightarrow> nat list option" where
  "hex_decode [] = Some []"
| "hex_decode [c] = None"
| "hex_decode (a # b # cs) =
     (case (hex_value a, hex_value b, hex_decode cs) of
        (Some x, Some y, Some bs) \<Rightarrow> Some ((16 * x + y) # bs)
      | _ \<Rightarrow> None)"

lemma split_on_none: "sep \<notin> set s \<Longrightarrow> split_on sep s = [s]"
  by (induction s) auto

lemma split_on_one: "sep \<notin> set a \<Longrightarrow> sep \<notin> set b \<Longrightarrow> split_on sep (a @ sep # b) = [a, b]"
  by (induction a) (auto simp: split_on_none)

text \<open>On text that starts with a digit the sign plays no part.\<close>

lemma parse_signed_digits:
  assumes "list_all is_digit s" and "s \<noteq> []"
  shows "parse_signed s = parse_int64 s"
  using assms by (cases s) (auto simp: parse_signed_def is_digit_def)

lemma parse_signed_show_int: "0 \<le> i \<Longrightarrow> i < 2 ^ 63 \<Longrightarrow> parse_signed (show_int i) = Some i"
  using show_nat_digits [of "nat i"] parse_show_int [of i] by (simp add: parse_signed_digits show_int_def)

end
