(* ===== verification/Idempotency.thy ===== *)
theory Idempotency
  imports Schema
begin

text \<open>
  The reservation of an idempotency key (\<^verbatim>\<open>internal/repository/idempotency.go\<close>) and the retry
  loop of the service (\<^verbatim>\<open>internal/service/retry.go\<close>). A reservation is made inside the
  transaction of the operation it protects, so it commits or disappears with it.
\<close>

section \<open>The table and the result\<close>

record solicitud =
  so_key :: string
  so_scope :: string
  so_operacion :: string
  so_fingerprint :: string
  so_estado :: string
  so_status :: "int option"
  so_body :: "string option"
  so_completed :: "int option"

record idem_db = core_db +
  solicitudes :: "solicitud list"

record idempotent_result =
  ir_status :: int
  ir_body :: string
  ir_replayed :: bool

definition pending_row :: "string \<Rightarrow> string \<Rightarrow> string \<Rightarrow> string \<Rightarrow> solicitud" where
  "pending_row key scope oper fp =
     \<lparr>so_key = key, so_scope = scope, so_operacion = oper, so_fingerprint = fp,
      so_estado = ''PENDING'', so_status = None, so_body = None, so_completed = None\<rparr>"

definition find_solicitud :: "string \<Rightarrow> 'a idem_db_scheme \<Rightarrow> solicitud option" where
  "find_solicitud key d = List.find (\<lambda>s. so_key s = key) (solicitudes d)"

text \<open>\<open>INSERT ... ON CONFLICT DO NOTHING\<close>: the flag is \<open>RowsAffected() == 1\<close>.\<close>

definition insert_solicitud ::
  "solicitud \<Rightarrow> ('a idem_db_scheme, bool) tx" where
  "insert_solicitud row = exec_ret (\<lambda>w. let d = working w in
     if find_solicitud (so_key row) d \<noteq> None then Inr (False, d)
     else Inr (True, d\<lparr>solicitudes := solicitudes d @ [row]\<rparr>))"

definition claim_idempotency ::
  "string \<Rightarrow> string \<Rightarrow> string \<Rightarrow> string \<Rightarrow> ('a idem_db_scheme, idempotent_result option) tx" where
  "claim_idempotency key actor_scope oper fp =
     seq (query (\<lambda>_. ())) (\<lambda>_. \<comment> \<open>SET LOCAL lock_timeout='150ms'\<close>
     seq (catch (insert_solicitud (pending_row key actor_scope oper fp))
       (\<lambda>e. if e = PgErr Lock_not_available then throw (Repo ErrIdempotencyInProgress)
            else throw e)) (\<lambda>inserted.
     seq (query (\<lambda>_. ())) (\<lambda>_. \<comment> \<open>SET LOCAL lock_timeout='0'\<close>
     if inserted then ret None
     else
       seq (query (\<lambda>w. find_solicitud key (working w))) (\<lambda>row.
       seq (require row (GoError ''no rows in result set'')) (\<lambda>s.
       seq (reject_if (so_scope s \<noteq> actor_scope \<or> so_operacion s \<noteq> oper \<or> so_fingerprint s \<noteq> fp)
              (Repo ErrIdempotencyConflict)) (\<lambda>_.
       seq (reject_if (so_estado s \<noteq> ''COMPLETED'' \<or> so_status s = None)
              (Repo ErrIdempotencyInProgress)) (\<lambda>_.
       ret (Some \<lparr>ir_status = the (so_status s),
                  ir_body = (case so_body s of None \<Rightarrow> '''' | Some b \<Rightarrow> b),
                  ir_replayed = True\<rparr>))))))))"

text \<open>\<open>UPDATE solicitudes_idempotentes SET estado='COMPLETED',...,completed_at=now()\<close>\<close>

definition complete_row :: "int \<Rightarrow> int \<Rightarrow> string \<Rightarrow> solicitud \<Rightarrow> solicitud" where
  "complete_row now status body s =
     s\<lparr>so_estado := ''COMPLETED'', so_status := Some status, so_body := Some body, so_completed := Some now\<rparr>"

definition complete_idempotency :: "string \<Rightarrow> int \<Rightarrow> string \<Rightarrow> ('a idem_db_scheme, unit) tx" where
  "complete_idempotency key status body = exec (\<lambda>w. let d = working w in
     d\<lparr>solicitudes := update_where (\<lambda>s. so_key s = key) (complete_row (db_now w) status body) (solicitudes d)\<rparr>)"

section \<open>What a reservation does\<close>

lemma no_commit_claim [no_commit_rules]: "no_commit (claim_idempotency key scope oper fp)"
  unfolding claim_idempotency_def insert_solicitud_def
  by (intro no_commit_rules)

lemma no_commit_complete [no_commit_rules]: "no_commit (complete_idempotency key status body)"
  unfolding complete_idempotency_def by (rule no_commit_rules)

lemma insert_solicitud_Inr:
  "insert_solicitud row w = (Inr b, w1) \<longleftrightarrow>
     ok_next w \<and> b = (find_solicitud (so_key row) (working w) = None) \<and>
     w1 = (ticked w)\<lparr>working := (if b then (working w)\<lparr>solicitudes := solicitudes (working w) @ [row]\<rparr>
                                  else working w)\<rparr>"
  by (auto simp: insert_solicitud_def tx_run Let_def)

text \<open>A fresh key is reserved; the rest of the database is untouched.\<close>

lemma claim_fresh:
  assumes "claim_idempotency key scope oper fp w = (Inr None, w1)"
  shows "find_solicitud key (working w) = None"
    and "working w1 = (working w)\<lparr>solicitudes := solicitudes (working w) @ [pending_row key scope oper fp]\<rparr>"
    and "app_now w1 = app_now w" "db_now w1 = db_now w" "committed w1 = committed w"
  using assms
  by (auto simp: claim_idempotency_def tx_run insert_solicitud_Inr pending_row_def split: if_splits)

text \<open>A known key returns the stored answer and changes nothing.\<close>

lemma claim_replay:
  assumes "claim_idempotency key scope oper fp w = (Inr (Some r), w1)"
  shows "working w1 = working w" "committed w1 = committed w"
    and "\<exists>s. find_solicitud key (working w) = Some s \<and> so_scope s = scope \<and> so_operacion s = oper
           \<and> so_fingerprint s = fp \<and> so_estado s = ''COMPLETED'' \<and> so_status s = Some (ir_status r)
           \<and> ir_replayed r"
  using assms
  by (auto simp: claim_idempotency_def tx_run insert_solicitud_Inr pending_row_def split: if_splits)

lemma claim_known:
  assumes "claim_idempotency key scope oper fp w = (Inr cl, w1)" and "find_solicitud key (working w) = Some s"
  shows "cl = Some \<lparr>ir_status = the (so_status s),
     ir_body = (case so_body s of None \<Rightarrow> '''' | Some b \<Rightarrow> b), ir_replayed = True\<rparr>"
  using assms
  by (auto simp: claim_idempotency_def tx_run insert_solicitud_Inr pending_row_def split: if_splits)

section \<open>Retry\<close>

text \<open>
  \<open>retry\<close> runs the function up to \<open>attempts\<close> times (3 for movements); it stops at the first
  success, at the first error that is not retryable, or when the context is done while it
  waits. \<open>cancelled k\<close> says that the context ended during the wait after attempt \<open>k\<close>.
\<close>

fun retry_from :: "(nat \<Rightarrow> bool) \<Rightarrow> nat \<Rightarrow> nat \<Rightarrow> ('d, 'a) tx \<Rightarrow> err \<Rightarrow> ('d, 'a) tx" where
  "retry_from cancelled attempt 0 fn prev w = (Inl prev, w)"
| "retry_from cancelled attempt (Suc left) fn prev w =
     (case fn w of
        (Inr a, w1) \<Rightarrow> (Inr a, w1)
      | (Inl e, w1) \<Rightarrow>
          if \<not> is_retryable e then (Inl e, w1)
          else if cancelled attempt then (Inl CtxCanceled, w1)
          else retry_from cancelled (Suc attempt) left fn e w1)"

definition retry :: "(nat \<Rightarrow> bool) \<Rightarrow> ('d, 'a) tx \<Rightarrow> ('d, 'a) tx" where
  "retry cancelled fn = retry_from cancelled 0 3 fn CtxCanceled"

lemma retry_from_Inr:
  assumes "atomic fn" and "retry_from c k n fn e w = (Inr a, w2)"
  shows "\<exists>w1. fn w1 = (Inr a, w2) \<and> committed w1 = committed w"
  using assms(2)
proof (induction n arbitrary: k e w)
  case (Suc n)
  obtain r w1 where fn: "fn w = (r, w1)" by (cases "fn w")
  show ?case
  proof (cases r)
    case (Inl e')
    with Suc.prems fn have "retry_from c (Suc k) n fn e' w1 = (Inr a, w2)"
      by (simp split: if_splits)
    from Suc.IH [OF this] show ?thesis using atomicD [OF assms(1)] fn Inl by metis
  next
    case (Inr b)
    with Suc.prems fn show ?thesis by auto
  qed
qed simp

lemma atomic_retry_from:
  assumes "atomic fn"
  shows "atomic (retry_from c k n fn e)"
proof -
  have "committed w2 = committed w" if "retry_from c k n fn e w = (Inl e', w2)" for w w2 e'
    using that
  proof (induction n arbitrary: k e w)
    case (Suc n)
    obtain r w1 where fn: "fn w = (r, w1)" by (cases "fn w")
    with Suc.prems show ?case
      using Suc.IH [of "Suc k" _ w1] atomicD [OF assms, of w _ w1]
      by (cases r) (auto split: if_splits)
  qed simp
  then show ?thesis by (auto simp: atomic_def)
qed

lemma atomic_retry [atomic_rules]: "atomic fn \<Longrightarrow> atomic (retry c fn)"
  by (simp add: retry_def atomic_retry_from)

lemma retry_Inr:
  "atomic fn \<Longrightarrow> retry c fn w = (Inr a, w2) \<Longrightarrow> \<exists>w1. fn w1 = (Inr a, w2) \<and> committed w1 = committed w"
  by (simp add: retry_def retry_from_Inr)

text \<open>The number of runs of \<open>fn\<close>: at most three, and exactly one unless the error is retryable.\<close>

fun retry_runs :: "(nat \<Rightarrow> bool) \<Rightarrow> nat \<Rightarrow> nat \<Rightarrow> ('d, 'a) tx \<Rightarrow> 'd world \<Rightarrow> nat" where
  "retry_runs cancelled attempt 0 fn w = 0"
| "retry_runs cancelled attempt (Suc left) fn w =
     (case fn w of
        (Inr a, w1) \<Rightarrow> 1
      | (Inl e, w1) \<Rightarrow>
          if \<not> is_retryable e \<or> cancelled attempt then 1
          else Suc (retry_runs cancelled (Suc attempt) left fn w1))"

lemma retry_runs_bound: "retry_runs c k n fn w \<le> n"
  by (induction n arbitrary: k w) (auto split: prod.splits sum.splits)

end
