(* ===== verification/CustomerIdentity.thy ===== *)
theory CustomerIdentity
  imports GoText Idempotency "HOL-Library.Char_ord"
begin

text \<open>
  How a customer is named at the counter: the QR token derived from the customer's id
  (\<^verbatim>\<open>internal/service/qr.go\<close>), the code printed under it
  (\<^verbatim>\<open>internal/identitycode/code.go\<close>, \<^verbatim>\<open>internal/repository/user_code.go\<close>), and the resolution of
  either to a token and its hash. Strings are lists of 8-bit characters; \<open>unicode.ToUpper\<close>,
  \<open>IsLetter\<close> and \<open>Mn\<close> are those of ASCII. SHA-256, HMAC, base64, the Unicode normal forms of
  golang.org/x/text and google/uuid's parser are parameters, the fields of a \<open>platform\<close>.
\<close>

record platform =
  sha256 :: "string \<Rightarrow> string"
  hmac_sha256 :: "string \<Rightarrow> string \<Rightarrow> string"
  base64url :: "string \<Rightarrow> string"
  nfd :: "string \<Rightarrow> string"
  nfc :: "string \<Rightarrow> string"
  uuid_ok :: "string \<Rightarrow> bool"

section \<open>Identity codes\<close>

definition is_letter :: "char \<Rightarrow> bool" where
  "is_letter c = (let n = of_char c :: nat in 65 \<le> n \<and> n \<le> 90 \<or> 97 \<le> n \<and> n \<le> 122)"

definition letters :: "platform \<Rightarrow> string \<Rightarrow> string" where
  "letters pf v = nfc pf (to_upper (nfd pf v))"

definition initial :: "platform \<Rightarrow> string \<Rightarrow> string" where
  "initial pf v = (case List.find is_letter (letters pf v) of None \<Rightarrow> '''' | Some r \<Rightarrow> [r])"

definition code_prefix :: "platform \<Rightarrow> string \<Rightarrow> string \<Rightarrow> string \<times> bool" where
  "code_prefix pf name last_name =
     (let a = initial pf name; b = initial pf last_name in (a @ b, a \<noteq> '''' \<and> b \<noteq> ''''))"

definition normalize_code :: "platform \<Rightarrow> string \<Rightarrow> string option" where
  "normalize_code pf v =
     (let v = letters pf (trim_prefix (trim_space v) ''#'') in
      case split_on CHR ''-'' v of
        [l, ds] \<Rightarrow>
          if length l \<noteq> 2 \<or> \<not> list_all is_letter l then None
          else if \<not> list_all is_digit ds then None
          else (case parse_int64 ds of
                  None \<Rightarrow> None
                | Some n \<Rightarrow> if n < 1 then None else Some (l @ ''-'' @ show_int n))
      | _ \<Rightarrow> None)"

definition effective_code :: "int \<Rightarrow> string \<Rightarrow> string" where
  "effective_code i stored = (if stored \<noteq> '''' then stored else ''#USER-'' @ lpad0 4 (show_int i))"

text \<open>
  \<open>allocateUserCode\<close>: one counter row per prefix, upserted inside the transaction of the
  registration.
\<close>

record counter_db = idem_db +
  contadores :: "(string \<times> int) list"

definition next_number :: "string \<Rightarrow> (string \<times> int) list \<Rightarrow> int \<times> (string \<times> int) list" where
  "next_number p cs = (case map_of cs p of
       None \<Rightarrow> (1, cs @ [(p, 1)])
     | Some n \<Rightarrow> (n + 1, update_where (\<lambda>c. fst c = p) (\<lambda>c. (fst c, snd c + 1)) cs))"

definition allocate_user_code :: "platform \<Rightarrow> string \<Rightarrow> string \<Rightarrow> ('a counter_db_scheme, string) tx" where
  "allocate_user_code pf name last_name =
     (let (prefix, ok) = code_prefix pf name last_name in
      seq (reject_if (\<not> ok) (Repo ErrInvalidRequest)) (\<lambda>_.
      seq (exec_ret (\<lambda>w. let d = working w; (n, cs) = next_number prefix (contadores d) in
             Inr (n, d\<lparr>contadores := cs\<rparr>))) (\<lambda>number.
      ret (prefix @ ''-'' @ show_int number))))"

section \<open>QR tokens\<close>

definition qr_hash :: "platform \<Rightarrow> string \<Rightarrow> string \<Rightarrow> string" where
  "qr_hash pf pepper token = sha256 pf (pepper @ token)"

definition qr_for_user :: "platform \<Rightarrow> string \<Rightarrow> int \<Rightarrow> string \<times> string" where
  "qr_for_user pf pepper uid =
     (let token = base64url pf (hmac_sha256 pf pepper (''puntazo:customer:'' @ show_int uid))
      in (token, sha256 pf (pepper @ token)))"

definition customer_row :: "usuario \<Rightarrow> bool" where
  "customer_row u \<longleftrightarrow> u_tipo u = ''CLIENTE_FINAL'' \<and> u_activo u \<and> u_deleted_at u = None"

definition customer_id_by_code :: "string \<Rightarrow> ('a core_db_scheme, int) tx" where
  "customer_id_by_code code =
     seq (query (\<lambda>w. List.find (\<lambda>u. u_codigo u = Some code \<and> customer_row u) (usuarios (committed w)))) (\<lambda>row.
     seq (require row (Repo ErrNotFound)) (\<lambda>u. ret (u_id u)))"

text \<open>A null hash scans into an empty byte slice.\<close>

definition customer_qr_hash_by_id :: "int \<Rightarrow> ('a core_db_scheme, string) tx" where
  "customer_qr_hash_by_id uid =
     seq (query (\<lambda>w. List.find (\<lambda>u. u_id u = uid \<and> customer_row u) (usuarios (committed w)))) (\<lambda>row.
     seq (require row (Repo ErrNotFound)) (\<lambda>u.
     ret (case u_qr_hash u of None \<Rightarrow> '''' | Some h \<Rightarrow> h)))"

definition resolve_customer_code_id :: "platform \<Rightarrow> string \<Rightarrow> ('a core_db_scheme, int) tx" where
  "resolve_customer_code_id pf code =
     (let code = trim_space code;
          normalized = to_upper (trim_prefix code ''#'') in
      if \<not> has_prefix normalized ''USER-'' then
        seq (require (normalize_code pf code) (Svc InvalidRequest)) customer_id_by_code
      else
        let digits = trim_prefix normalized ''USER-'' in
        seq (reject_if (length digits < 4 \<or> 19 < length digits) (Svc InvalidRequest)) (\<lambda>_.
        seq (reject_if (\<not> list_all is_digit digits) (Svc InvalidRequest)) (\<lambda>_.
        seq (require (parse_int64 digits) (Svc InvalidRequest)) (\<lambda>i.
        seq (reject_if (i < 1) (Svc InvalidRequest)) (\<lambda>_.
        ret i)))))"

definition resolve_movement_identity ::
  "platform \<Rightarrow> string \<Rightarrow> string \<Rightarrow> string \<Rightarrow> ('a core_db_scheme, string) tx" where
  "resolve_movement_identity pf pepper qr code =
     (let qr = trim_space qr; code = trim_space code in
      seq (reject_if ((qr = '''') = (code = '''')) (Svc InvalidRequest)) (\<lambda>_.
      if qr \<noteq> '''' then
        seq (reject_if (length qr < 32 \<or> 256 < length qr) (Svc InvalidRequest)) (\<lambda>_. ret qr)
      else
        seq (resolve_customer_code_id pf code) (\<lambda>uid.
        ret (fst (qr_for_user pf pepper uid)))))"

definition resolve_movement_identity_hash ::
  "platform \<Rightarrow> string \<Rightarrow> string \<Rightarrow> string \<Rightarrow> ('a core_db_scheme, string \<times> string) tx" where
  "resolve_movement_identity_hash pf pepper qr code =
     (let qr = trim_space qr; code = trim_space code in
      seq (reject_if ((qr = '''') = (code = '''')) (Svc InvalidRequest)) (\<lambda>_.
      if qr \<noteq> '''' then
        seq (reject_if (length qr < 32 \<or> 256 < length qr) (Svc InvalidRequest)) (\<lambda>_.
        ret (qr, qr_hash pf pepper qr))
      else
        seq (resolve_customer_code_id pf code) (\<lambda>uid.
        seq (customer_qr_hash_by_id uid) (\<lambda>stored.
        ret (fst (qr_for_user pf pepper uid), stored)))))"

section \<open>Codes read back\<close>

lemma digits_no_dash: "list_all is_digit s \<Longrightarrow> CHR ''-'' \<notin> set s"
  by (auto simp: list_all_iff is_digit_def)

lemma letters_no_dash: "list_all is_letter s \<Longrightarrow> CHR ''-'' \<notin> set s"
  by (auto simp: list_all_iff is_letter_def Let_def)

lemma to_upper_digits: "list_all is_digit s \<Longrightarrow> to_upper s = s"
  by (auto simp: to_upper_def list_all_iff is_digit_def Let_def intro!: map_idI)

lemma to_upper_append [simp]: "to_upper (a @ b) = to_upper a @ to_upper b"
  by (simp add: to_upper_def)

lemma to_upper_Nil [simp]: "to_upper [] = []"
  by (simp add: to_upper_def)

lemma to_upper_idem [simp]: "to_upper (to_upper s) = to_upper s"
proof -
  have "(of_char (char_of (n - 32) :: char) :: nat) = n - 32" if "n \<le> 122" for n :: nat
    using that by simp
  then show ?thesis by (auto simp: to_upper_def Let_def)
qed

lemma list_all_digit_lpad: "list_all is_digit s \<Longrightarrow> list_all is_digit (lpad0 n s)"
  by (auto simp: lpad0_def list_all_iff is_digit_def)

lemma read_nat_zeros: "read_nat (replicate k (CHR ''0'') @ s) = read_nat s"
proof -
  have "foldl (\<lambda>n c. 10 * n + digit_value c) 0 (replicate k (CHR ''0'')) = 0"
    by (induction k) (simp_all add: digit_value_def)
  then show ?thesis by (simp add: read_nat_def)
qed

lemma parse_lpad:
  "0 \<le> i \<Longrightarrow> i < 2 ^ 63 \<Longrightarrow> parse_int64 (lpad0 n (show_int i)) = Some i"
  using show_nat_digits [of "nat i"] list_all_digit_lpad [of "show_nat (nat i)" n]
  by (auto simp: parse_int64_def lpad0_def show_int_def read_nat_zeros read_show_nat nat_less_iff)

text \<open>The code a registration allocates is the normal form of itself.\<close>

definition ascii_norm :: "platform \<Rightarrow> bool" where
  "ascii_norm pf \<longleftrightarrow> (\<forall>s. list_all (\<lambda>c. (of_char c :: nat) < 128) s \<longrightarrow> nfd pf s = s \<and> nfc pf s = s)"

definition upper_letters :: "string \<Rightarrow> bool" where
  "upper_letters l \<longleftrightarrow> list_all (\<lambda>c. 65 \<le> (of_char c :: nat) \<and> (of_char c :: nat) \<le> 90) l"

lemma trim_left_hd: "s \<noteq> [] \<Longrightarrow> \<not> p (hd s) \<Longrightarrow> trim_left p s = s"
  by (cases s) auto

lemma trim_ends: "s \<noteq> [] \<Longrightarrow> \<not> p (hd s) \<Longrightarrow> \<not> p (last s) \<Longrightarrow> trim p s = s"
  by (simp add: trim_def trim_left_hd hd_rev)

lemma upper_to_upper: "upper_letters l \<Longrightarrow> to_upper l = l"
  by (auto simp: to_upper_def upper_letters_def list_all_iff Let_def intro!: map_idI)

lemma upper_is_letter: "upper_letters l \<Longrightarrow> list_all is_letter l"
  by (auto simp: upper_letters_def is_letter_def list_all_iff Let_def)

lemma space_nums: "is_space c \<Longrightarrow> (of_char c :: nat) \<le> 32"
  by (auto simp: is_space_def)

lemma show_int_digits: "0 \<le> i \<Longrightarrow> list_all is_digit (show_int i) \<and> show_int i \<noteq> []"
  using show_nat_digits by (simp add: show_int_def)

lemma digit_not_space: "is_digit c \<Longrightarrow> \<not> is_space c"
  using space_nums by (fastforce simp: is_digit_def)

lemma code_shape:
  assumes "upper_letters l" "length l = 2" "0 \<le> n"
  shows "trim_space (l @ ''-'' @ show_int n) = l @ ''-'' @ show_int n"
    and "trim_prefix (l @ ''-'' @ show_int n) ''#'' = l @ ''-'' @ show_int n"
    and "list_all (\<lambda>c. (of_char c :: nat) < 128) (l @ ''-'' @ show_int n)"
    and "to_upper (l @ ''-'' @ show_int n) = l @ ''-'' @ show_int n"
    and "\<not> has_prefix (l @ ''-'' @ show_int n) ''USER-''"
proof -
  obtain a b where l: "l = [a, b]" "65 \<le> (of_char a :: nat)" "(of_char a :: nat) \<le> 90"
    using assms by (auto simp: upper_letters_def length_Suc_conv numeral_2_eq_2)
  have d: "is_digit (last (show_int n))" "show_int n \<noteq> []" "list_all is_digit (show_int n)"
    using show_int_digits [OF assms(3)] by (auto simp: list_all_iff)
  have "\<not> is_space a" using space_nums [of a] l by auto
  moreover have "\<not> is_space (last (show_int n))" using d digit_not_space by blast
  ultimately show "trim_space (l @ ''-'' @ show_int n) = l @ ''-'' @ show_int n"
    using d unfolding trim_space_def l by (intro trim_ends) auto
  have "a \<noteq> CHR ''#''" using l by auto
  then show "trim_prefix (l @ ''-'' @ show_int n) ''#'' = l @ ''-'' @ show_int n"
    by (simp add: trim_prefix_def has_prefix_def l)
  show "list_all (\<lambda>c. (of_char c :: nat) < 128) (l @ ''-'' @ show_int n)"
    using assms(1) d by (auto simp: upper_letters_def list_all_iff is_digit_def)
  show "to_upper (l @ ''-'' @ show_int n) = l @ ''-'' @ show_int n"
    using upper_to_upper [OF assms(1)] to_upper_digits [OF d(3)] by (simp add: to_upper_def)
  show "\<not> has_prefix (l @ ''-'' @ show_int n) ''USER-''" by (simp add: has_prefix_def l)
qed

lemma normalize_code_fixed:
  assumes "ascii_norm pf" "upper_letters l" "length l = 2" "1 \<le> n" "n < 2 ^ 63"
  shows "normalize_code pf (l @ ''-'' @ show_int n) = Some (l @ ''-'' @ show_int n)"
proof -
  note sh = code_shape [OF assms(2,3), of n]
  have d: "list_all is_digit (show_int n)" "show_int n \<noteq> []" using show_int_digits [of n] assms(4) by auto
  have "letters pf (l @ ''-'' @ show_int n) = l @ ''-'' @ show_int n"
    using assms(1,4) sh by (simp add: letters_def ascii_norm_def)
  moreover have "split_on CHR ''-'' (l @ ''-'' @ show_int n) = [l, show_int n]"
    using split_on_one [OF letters_no_dash digits_no_dash] upper_is_letter [OF assms(2)] d by simp
  ultimately show ?thesis
    using sh(1,2) assms d upper_is_letter [OF assms(2)] parse_show_int [of n]
    by (simp add: normalize_code_def Let_def)
qed

lemma user_code_digits:
  assumes "0 < i" "i < 2 ^ 63"
  shows "4 \<le> length (lpad0 4 (show_int i))" "length (lpad0 4 (show_int i)) \<le> 19"
    "list_all is_digit (lpad0 4 (show_int i))"
proof -
  have "nat i < 10 ^ 19" using assms by simp
  then have "length (show_nat (nat i)) \<le> 19" by (rule show_nat_length) simp
  then show "length (lpad0 4 (show_int i)) \<le> 19" using assms by (simp add: lpad0_def show_int_def)
  show "4 \<le> length (lpad0 4 (show_int i))" by (simp add: lpad0_def)
  show "list_all is_digit (lpad0 4 (show_int i))"
    using list_all_digit_lpad show_int_digits assms by simp
qed

end
