(* ===== verification/Movement.thy ===== *)
theory Movement
  imports Idempotency
begin

text \<open>
  The movement ledger: previews and confirmations of stamps and points
  (\<^verbatim>\<open>internal/repository/movement.go\<close>) and the reversal of a confirmed movement
  (\<^verbatim>\<open>internal/repository/movement_reversal.go\<close>), each as one transaction, statement by
  statement. Instants are nanoseconds; days of the calendar are numbers. The civil date of an
  instant in a brand's time zone (\<open>(now() AT TIME ZONE m.zona_horaria)::date\<close>) is the
  parameter \<open>civil\<close>, since the time zone database is not part of the repository. The CHECK
  and UNIQUE constraints on amounts and keys are those of the migrations 0001, 0002 and 0037;
  the triggers that feed other queues are not modelled.
\<close>

section \<open>Tables\<close>

record beneficio =
  b_id :: int
  b_programa :: int
  b_nombre :: string
  b_req_sellos :: "int option"
  b_req_puntos :: "int option"
  b_activo :: bool
  b_version :: int
  b_deleted_at :: "int option"
  b_expires_on :: "int option"

record acceso_demo =
  a_marca :: int
  a_activo :: bool

record tarjeta =
  t_id :: int
  t_usuario :: int
  t_marca :: int
  t_sellos :: int
  t_puntos :: int
  t_version :: int
  t_activo :: bool
  t_deleted_at :: "int option"

record preview_row =
  pv_id :: string
  pv_actor :: int
  pv_sucursal :: int
  pv_marca :: int
  pv_cliente :: int
  pv_tarjeta :: "int option"
  pv_operacion :: string
  pv_beneficio :: "int option"
  pv_qr_hash :: string
  pv_before :: int
  pv_amount :: int
  pv_after :: int
  pv_fingerprint :: string
  pv_expires :: int
  pv_consumed :: "int option"
  pv_programa_tipo :: string

record historial =
  h_id :: int
  h_operation_id :: string
  h_tarjeta :: int
  h_marca :: int
  h_sucursal :: int
  h_operador :: "int option"
  h_beneficio :: "int option"
  h_operacion :: string
  h_sentido :: string
  h_cantidad :: int
  h_before :: int
  h_after :: int
  h_ben_nombre :: "string option"
  h_ben_sellos :: "int option"
  h_ben_puntos :: "int option"
  h_programa_tipo :: string
  h_marca_nombre :: string
  h_sucursal_nombre :: string
  h_programa_id :: int
  h_occurred :: int

record reversion =
  rv_operation_id :: string
  rv_movimiento :: int
  rv_operador :: int
  rv_before :: int
  rv_after :: int
  rv_occurred :: int

record web_push_notification =
  wn_subscription :: int
  wn_operation :: string
  wn_card :: int

record ledger_db = idem_db +
  beneficios :: "beneficio list"
  accesos :: "acceso_demo list"
  tarjetas :: "tarjeta list"
  previews :: "preview_row list"
  historiales :: "historial list"
  reversiones :: "reversion list"
  push_subscriptions :: "(int \<times> int) list" \<comment> \<open>subscription, user\<close>
  push_notifications :: "web_push_notification list"
  card_events :: "int list" \<comment> \<open>\<open>pg_notify('puntazo_customer_cards', customer)\<close>\<close>

section \<open>Requests and answers\<close>

record movement_preview_request =
  mp_operation :: string
  mp_qr_token :: string
  mp_customer_code :: string
  mp_branch :: int
  mp_benefit :: "int option"
  mp_points :: "int option"

record preview_customer =
  pc_user_code :: string
  pc_id :: int
  pc_name :: string
  pc_email :: string

record preview =
  pr_id :: string
  pr_expires_at :: int
  pr_operation :: string
  pr_program_type :: string
  pr_customer :: preview_customer
  pr_card_id :: int
  pr_before :: int
  pr_amount :: int
  pr_after :: int
  pr_benefit :: "beneficio option"

record confirm_input =
  ci_actor :: int
  ci_key :: string
  ci_fingerprint :: string
  ci_preview :: string
  ci_qr_hash :: string
  ci_branch :: int
  ci_benefit :: "int option"
  ci_operation :: string

record movement =
  mv_id :: int
  mv_operation_id :: string
  mv_card :: int
  mv_brand :: int
  mv_brand_name :: string
  mv_branch :: int
  mv_branch_name :: string
  mv_operation :: string
  mv_program_type :: string
  mv_program_id :: int
  mv_direction :: string
  mv_amount :: int
  mv_before :: int
  mv_after :: int
  mv_benefit_name :: "string option"
  mv_benefit_stamps :: "int option"
  mv_benefit_points :: "int option"
  mv_occurred :: int

record movement_reversal =
  mr_operation_id :: string
  mr_movement :: int
  mr_before :: int
  mr_after :: int
  mr_occurred :: int

definition minute_ns :: int where
  "minute_ns = 60000000000"

section \<open>Statements\<close>

text \<open>
  The join of the two movement statements; the preview adds the existence of a usable benefit,
  the confirmation the brand of the preview.
\<close>

definition branch_program_rows ::
  "'a ledger_db_scheme \<Rightarrow> int \<Rightarrow> int \<Rightarrow> (sucursal \<times> marca \<times> programa) list" where
  "branch_program_rows d actor branch =
     [(s, m, p). mm \<leftarrow> membresias d, s \<leftarrow> sucursales d, m \<leftarrow> marcas d, p \<leftarrow> programas d,
        a \<leftarrow> accesos d,
        mm_usuario mm = actor \<and> mm_activo mm \<and> s_id s = branch \<and> s_marca s = mm_marca mm \<and> s_activo s
        \<and> m_id m = s_marca s \<and> m_activo m \<and> p_marca p = m_id m \<and> p_activo p
        \<and> a_marca a = m_id m \<and> a_activo a \<and> covers_branch d mm (s_id s)]"

definition usable_benefit :: "(string \<Rightarrow> int \<Rightarrow> int) \<Rightarrow> int \<Rightarrow> marca \<Rightarrow> beneficio \<Rightarrow> bool" where
  "usable_benefit civil now m b \<longleftrightarrow> b_activo b \<and> b_deleted_at b = None \<and>
     (case b_expires_on b of None \<Rightarrow> True | Some e \<Rightarrow> civil (m_zona m) now \<le> e)"

definition find_benefit ::
  "(string \<Rightarrow> int \<Rightarrow> int) \<Rightarrow> int \<Rightarrow> 'a ledger_db_scheme \<Rightarrow> int \<Rightarrow> int \<Rightarrow> beneficio option" where
  "find_benefit civil now d bid pid = first_row
     [b. b \<leftarrow> beneficios d, p \<leftarrow> programas d, m \<leftarrow> marcas d,
        p_id p = b_programa b \<and> m_id m = p_marca p \<and> b_id b = bid \<and> b_programa b = pid
        \<and> usable_benefit civil now m b]"

definition find_customer :: "'a ledger_db_scheme \<Rightarrow> string \<Rightarrow> usuario option" where
  "find_customer d qr = List.find (\<lambda>u. u_qr_hash u = Some qr \<and> u_tipo u = ''CLIENTE_FINAL''
     \<and> u_activo u \<and> u_deleted_at u = None) (usuarios d)"

definition find_card :: "'a ledger_db_scheme \<Rightarrow> int \<Rightarrow> int \<Rightarrow> tarjeta option" where
  "find_card d customer brand =
     List.find (\<lambda>t. t_usuario t = customer \<and> t_marca t = brand \<and> t_activo t) (tarjetas d)"

text \<open>\<open>CASE WHEN $3='PUNTOS' THEN saldo_puntos ELSE saldo_sellos END\<close>, and the same choice of
  the benefit's requirement and of the column the update writes.\<close>

definition program_balance :: "string \<Rightarrow> tarjeta \<Rightarrow> int" where
  "program_balance ptype t = (if ptype = ''PUNTOS'' then t_puntos t else t_sellos t)"

definition set_balance :: "string \<Rightarrow> int \<Rightarrow> tarjeta \<Rightarrow> tarjeta" where
  "set_balance ptype v t =
     (if ptype = ''PUNTOS'' then t\<lparr>t_puntos := v, t_version := t_version t + 1\<rparr>
      else t\<lparr>t_sellos := v, t_version := t_version t + 1\<rparr>)"

definition benefit_cost :: "string \<Rightarrow> beneficio \<Rightarrow> int option" where
  "benefit_cost ptype b = (if ptype = ''PUNTOS'' then b_req_puntos b else b_req_sellos b)"

definition check_violation :: err where
  "check_violation = PgErr (Other_pg ''23514'')"

definition update_balance :: "string \<Rightarrow> int \<Rightarrow> int \<Rightarrow> ('a ledger_db_scheme, unit) tx" where
  "update_balance ptype v cid = exec_ret (\<lambda>w. let d = working w in
     if list_ex (\<lambda>t. t_id t = cid) (tarjetas d) \<and> v < 0 then Inl check_violation
     else Inr ((), d\<lparr>tarjetas := update_where (\<lambda>t. t_id t = cid) (set_balance ptype v) (tarjetas d)\<rparr>))"

definition notify_card :: "int \<Rightarrow> ('a ledger_db_scheme, unit) tx" where
  "notify_card customer = exec (\<lambda>w. let d = working w in d\<lparr>card_events := card_events d @ [customer]\<rparr>)"

section \<open>CreatePreview\<close>

definition preview_credit :: "string \<Rightarrow> movement_preview_request \<Rightarrow> ('d, int) tx" where
  "preview_credit ptype req =
     (if ptype = ''PUNTOS'' \<and> mp_operation req = ''ACUMULACION'' then
        (case mp_points req of
           None \<Rightarrow> throw (Repo ErrInvalidRequest)
         | Some k \<Rightarrow> seq (reject_if (k < 1 \<or> 100000 < k) (Repo ErrInvalidRequest)) (\<lambda>_. ret k))
      else if mp_points req \<noteq> None then throw (Repo ErrInvalidRequest)
      else ret 1)"

text \<open>The amount, the balance after and the benefit of a preview. A benefit without the requirement
  of its program's type would be a nil dereference in Go.\<close>

definition preview_amounts ::
  "(string \<Rightarrow> int \<Rightarrow> int) \<Rightarrow> movement_preview_request \<Rightarrow> string \<Rightarrow> int \<Rightarrow> int \<Rightarrow> int \<Rightarrow>
   ('a ledger_db_scheme, int \<times> int \<times> beneficio option) tx" where
  "preview_amounts civil req ptype pid balance credit =
     (if mp_operation req = ''CANJE'' then
        (case mp_benefit req of
           None \<Rightarrow> throw (Repo ErrPreviewChanged)
         | Some bid \<Rightarrow>
             seq (query (\<lambda>w. find_benefit civil (db_now w) (working w) bid pid)) (\<lambda>row.
             seq (require row (Repo ErrNotFound)) (\<lambda>b.
             seq (require (benefit_cost ptype b) Panic) (\<lambda>cost.
             seq (reject_if (balance < cost) (Repo ErrInsufficientBalance)) (\<lambda>_.
             ret (cost, sub64 balance cost, Some b))))))
      else seq (reject_if (mp_operation req \<noteq> ''ACUMULACION'') (Repo ErrPreviewChanged)) (\<lambda>_.
        ret (credit, add64 balance credit, None)))"

definition preview_ok :: "preview_row \<Rightarrow> bool" where
  "preview_ok v \<longleftrightarrow> 0 \<le> pv_before v \<and> 0 < pv_amount v \<and> 0 \<le> pv_after v \<and>
     (pv_operacion v = ''ACUMULACION'' \<and> pv_beneficio v = None \<and> pv_after v = pv_before v + pv_amount v
      \<or> pv_operacion v = ''CANJE'' \<and> pv_beneficio v \<noteq> None \<and> pv_after v = pv_before v - pv_amount v)"

definition insert_preview :: "preview_row \<Rightarrow> ('a ledger_db_scheme, unit) tx" where
  "insert_preview v = exec_ret (\<lambda>w. let d = working w in
     if list_ex (\<lambda>x. pv_id x = pv_id v) (previews d) then Inl (PgErr (Unique_violation ''previews_movimiento_pkey''))
     else if \<not> preview_ok v then Inl check_violation
     else Inr ((), d\<lparr>previews := previews d @ [v]\<rparr>))"

text \<open>The row, the commit and the answer.\<close>

definition preview_answer :: "preview_row \<Rightarrow> usuario \<Rightarrow> beneficio option \<Rightarrow> preview" where
  "preview_answer v u benefit =
     \<lparr>pr_id = pv_id v, pr_expires_at = pv_expires v, pr_operation = pv_operacion v,
      pr_program_type = pv_programa_tipo v,
      pr_customer = \<lparr>pc_user_code = user_code u, pc_id = u_id u, pc_name = full_name u,
                     pc_email = u_email u\<rparr>,
      pr_card_id = (case pv_tarjeta v of None \<Rightarrow> 0 | Some c \<Rightarrow> c), pr_before = pv_before v,
      pr_amount = pv_amount v, pr_after = pv_after v, pr_benefit = benefit\<rparr>"

definition store_preview ::
  "preview_row \<Rightarrow> usuario \<Rightarrow> beneficio option \<Rightarrow> ('a ledger_db_scheme, preview) tx" where
  "store_preview v u benefit =
     seq now_app (\<lambda>now.
     let v = v\<lparr>pv_expires := now + 5 * minute_ns\<rparr> in
     seq (insert_preview v) (\<lambda>_.
     seq commit (\<lambda>_.
     ret (preview_answer v u benefit))))"

definition preview_for ::
  "(string \<Rightarrow> int \<Rightarrow> int) \<Rightarrow> string \<Rightarrow> int \<Rightarrow> movement_preview_request \<Rightarrow> string \<Rightarrow> string \<Rightarrow>
   sucursal \<Rightarrow> programa \<Rightarrow> usuario \<Rightarrow> tarjeta option \<Rightarrow> ('a ledger_db_scheme, preview) tx" where
  "preview_for civil uuid actor req qr_hash fp s p u crow =
     (let balance = (case crow of None \<Rightarrow> 0 | Some t \<Rightarrow> program_balance (p_tipo p) t) in
     seq (preview_credit (p_tipo p) req) (\<lambda>credit.
     seq (preview_amounts civil req (p_tipo p) (p_id p) balance credit) (\<lambda>(amount, after, benefit).
     store_preview
       \<lparr>pv_id = uuid, pv_actor = actor, pv_sucursal = mp_branch req, pv_marca = s_marca s,
        pv_cliente = u_id u, pv_tarjeta = map_option t_id crow, pv_operacion = mp_operation req,
        pv_beneficio = mp_benefit req, pv_qr_hash = qr_hash, pv_before = balance,
        pv_amount = amount, pv_after = after, pv_fingerprint = fp, pv_expires = 0,
        pv_consumed = None, pv_programa_tipo = p_tipo p\<rparr> u benefit)))"

definition create_preview ::
  "(string \<Rightarrow> int \<Rightarrow> int) \<Rightarrow> string \<Rightarrow> int \<Rightarrow> movement_preview_request \<Rightarrow> string \<Rightarrow> string \<Rightarrow>
   ('a ledger_db_scheme, preview) tx" where
  "create_preview civil uuid actor req qr_hash fp = in_tx (
     seq (query (\<lambda>w. let d = working w in first_row
       [(s, m, p). (s, m, p) \<leftarrow> branch_program_rows d actor (mp_branch req),
          list_ex (\<lambda>b. b_programa b = p_id p \<and> usable_benefit civil (db_now w) m b) (beneficios d)])) (\<lambda>row.
     seq (require row (Repo ErrNotFound)) (\<lambda>(s, m, p).
     seq (query (\<lambda>w. find_customer (working w) qr_hash)) (\<lambda>urow.
     seq (require urow (Repo ErrNotFound)) (\<lambda>u.
     seq (query (\<lambda>w. find_card (working w) (u_id u) (s_marca s))) (\<lambda>crow.
     preview_for civil uuid actor req qr_hash fp s p u crow))))))"

section \<open>ConfirmMovement\<close>

definition same_optional_id :: "int option \<Rightarrow> int option \<Rightarrow> bool" where
  "same_optional_id a b =
     (case (a, b) of
        (Some x, Some y) \<Rightarrow> x = y
      | _ \<Rightarrow> a = None \<and> b = None)"

lemma same_optional_id [simp]: "same_optional_id a b \<longleftrightarrow> a = b"
  by (auto simp: same_optional_id_def split: option.splits)

text \<open>The checks of a confirmation against its preview: the row belongs to this operation, is not
  consumed and has not expired; the actor still operates the branch, the program's type and the
  customer of the QR are those of the preview.\<close>

definition confirm_checks ::
  "confirm_input \<Rightarrow> ('a ledger_db_scheme, preview_row \<times> sucursal \<times> marca \<times> programa) tx" where
  "confirm_checks ci =
     seq (query (\<lambda>w. List.find (\<lambda>v. pv_id v = ci_preview ci) (previews (working w)))) (\<lambda>prow.
     seq (require prow (Repo ErrNotFound)) (\<lambda>p.
     seq (reject_if (pv_actor p \<noteq> ci_actor ci \<or> pv_sucursal p \<noteq> ci_branch ci
            \<or> pv_operacion p \<noteq> ci_operation ci \<or> pv_qr_hash p \<noteq> ci_qr_hash ci
            \<or> \<not> same_optional_id (pv_beneficio p) (ci_benefit ci)) (Repo ErrPreviewChanged)) (\<lambda>_.
     seq (reject_if (pv_consumed p \<noteq> None) (Repo ErrPreviewConsumed)) (\<lambda>_.
     seq now_app (\<lambda>now.
     seq (reject_if (\<not> now < pv_expires p) (Repo ErrPreviewExpired)) (\<lambda>_.
     seq (query (\<lambda>w. first_row [(s, m, g). (s, m, g) \<leftarrow> branch_program_rows (working w) (ci_actor ci) (ci_branch ci),
            m_id m = pv_marca p])) (\<lambda>row.
     seq (require row (Repo ErrNotFound)) (\<lambda>(s, m, g).
     seq (reject_if (p_tipo g \<noteq> pv_programa_tipo p) (Repo ErrPreviewChanged)) (\<lambda>_.
     seq (query (\<lambda>w. find_customer (working w) (ci_qr_hash ci))) (\<lambda>urow.
     seq (require urow (Repo ErrNotFound)) (\<lambda>u.
     seq (reject_if (u_id u \<noteq> pv_cliente p) (Repo ErrPreviewChanged)) (\<lambda>_.
     ret (p, s, m, g)))))))))))))"

text \<open>\<open>INSERT INTO tarjetas ... ON CONFLICT(usuario_id,marca_id) DO NOTHING\<close>.\<close>

definition new_card :: "int \<Rightarrow> int \<Rightarrow> int \<Rightarrow> tarjeta" where
  "new_card i customer brand =
     \<lparr>t_id = i, t_usuario = customer, t_marca = brand, t_sellos = 0, t_puntos = 0, t_version = 1,
      t_activo = True, t_deleted_at = None\<rparr>"

definition ensure_card :: "int \<Rightarrow> int \<Rightarrow> ('a ledger_db_scheme, unit) tx" where
  "ensure_card customer brand = exec (\<lambda>w. let d = working w in
     if list_ex (\<lambda>t. t_usuario t = customer \<and> t_marca t = brand) (tarjetas d) then d
     else d\<lparr>tarjetas := tarjetas d @ [new_card (next_id (map t_id (tarjetas d))) customer brand]\<rparr>)"

text \<open>The benefit of a redemption: its name and requirement, which must be the preview's amount.\<close>

definition confirm_benefit ::
  "(string \<Rightarrow> int \<Rightarrow> int) \<Rightarrow> confirm_input \<Rightarrow> preview_row \<Rightarrow> programa \<Rightarrow>
   ('a ledger_db_scheme, string option \<times> int option) tx" where
  "confirm_benefit civil ci p g =
     (if ci_operation ci = ''CANJE'' then
        seq (require (ci_benefit ci) Panic) (\<lambda>bid.
        seq (query (\<lambda>w. find_benefit civil (db_now w) (working w) bid (p_id g))) (\<lambda>row.
        seq (require row (Repo ErrNotFound)) (\<lambda>b.
        seq (require (benefit_cost (p_tipo g) b) (GoError ''cannot scan NULL'')) (\<lambda>required.
        seq (reject_if (required \<noteq> pv_amount p) (Repo ErrPreviewChanged)) (\<lambda>_.
        ret (Some (b_nombre b), Some required))))))
      else ret (None, None))"

definition historial_ok :: "historial \<Rightarrow> bool" where
  "historial_ok h \<longleftrightarrow> 0 < h_cantidad h \<and> 0 \<le> h_before h \<and> 0 \<le> h_after h \<and>
     (h_operacion h = ''ACUMULACION'' \<and> h_sentido h = ''CREDITO'' \<and> h_after h = h_before h + h_cantidad h
      \<or> h_operacion h = ''CANJE'' \<and> h_sentido h = ''DEBITO'' \<and> h_after h = h_before h - h_cantidad h)"

definition insert_historial :: "historial \<Rightarrow> ('a ledger_db_scheme, int \<times> int) tx" where
  "insert_historial h = exec_ret (\<lambda>w. let d = working w; i = next_id (map h_id (historiales d)) in
     if list_ex (\<lambda>x. h_operation_id x = h_operation_id h) (historiales d)
     then Inl (PgErr (Unique_violation ''historial_movimientos_operation_id_key''))
     else if \<not> historial_ok h then Inl check_violation
     else Inr ((i, db_now w),
       d\<lparr>historiales := historiales d @ [h\<lparr>h_id := i, h_occurred := db_now w\<rparr>]\<rparr>))"

text \<open>The amounts of the ledger entry, then the four writes: balance, history, preview, answer.\<close>

definition movement_of :: "historial \<Rightarrow> movement" where
  "movement_of h =
     \<lparr>mv_id = h_id h, mv_operation_id = h_operation_id h, mv_card = h_tarjeta h,
      mv_brand = h_marca h, mv_brand_name = h_marca_nombre h, mv_branch = h_sucursal h,
      mv_branch_name = h_sucursal_nombre h, mv_operation = h_operacion h,
      mv_program_type = h_programa_tipo h, mv_program_id = h_programa_id h,
      mv_direction = h_sentido h, mv_amount = h_cantidad h, mv_before = h_before h,
      mv_after = h_after h, mv_benefit_name = h_ben_nombre h, mv_benefit_stamps = h_ben_sellos h,
      mv_benefit_points = h_ben_puntos h, mv_occurred = h_occurred h\<rparr>"

definition ledger_entry ::
  "string \<Rightarrow> confirm_input \<Rightarrow> preview_row \<Rightarrow> sucursal \<Rightarrow> marca \<Rightarrow> programa \<Rightarrow> int \<Rightarrow> int \<Rightarrow>
   string option \<times> int option \<Rightarrow> historial" where
  "ledger_entry op_id ci p s m g cid balance ben =
     \<lparr>h_id = 0, h_operation_id = op_id, h_tarjeta = cid, h_marca = pv_marca p,
      h_sucursal = ci_branch ci, h_operador = Some (ci_actor ci), h_beneficio = ci_benefit ci,
      h_operacion = ci_operation ci,
      h_sentido = (if ci_operation ci = ''CANJE'' then ''DEBITO'' else ''CREDITO''),
      h_cantidad = pv_amount p, h_before = balance,
      h_after = (if ci_operation ci = ''CANJE'' then sub64 balance (pv_amount p)
                 else add64 balance (pv_amount p)),
      h_ben_nombre = fst ben,
      h_ben_sellos = (if p_tipo g = ''PUNTOS'' then None else snd ben),
      h_ben_puntos = (if p_tipo g = ''PUNTOS'' then snd ben else None),
      h_programa_tipo = p_tipo g, h_marca_nombre = m_nombre m, h_sucursal_nombre = s_nombre s,
      h_programa_id = p_id g, h_occurred = 0\<rparr>"

definition consume_preview :: "string \<Rightarrow> ('a ledger_db_scheme, unit) tx" where
  "consume_preview pid = exec (\<lambda>w. let d = working w in
     d\<lparr>previews := update_where (\<lambda>v. pv_id v = pid) (\<lambda>v. v\<lparr>pv_consumed := Some (db_now w)\<rparr>) (previews d)\<rparr>)"

definition enqueue_push :: "int \<Rightarrow> string \<Rightarrow> int \<Rightarrow> ('a ledger_db_scheme, unit) tx" where
  "enqueue_push customer op_id cid = exec (\<lambda>w. let d = working w in
     d\<lparr>push_notifications := push_notifications d @
        [\<lparr>wn_subscription = fst s, wn_operation = op_id, wn_card = cid\<rparr>.
           s \<leftarrow> push_subscriptions d, snd s = customer \<and>
           \<not> list_ex (\<lambda>n. wn_subscription n = fst s \<and> wn_operation n = op_id) (push_notifications d)]\<rparr>)"

definition confirm_writes ::
  "string \<Rightarrow> confirm_input \<Rightarrow> (movement \<Rightarrow> err + string) \<Rightarrow> preview_row \<Rightarrow> sucursal \<Rightarrow> marca \<Rightarrow>
   programa \<Rightarrow> int \<Rightarrow> int \<Rightarrow> string option \<times> int option \<Rightarrow>
   ('a ledger_db_scheme, idempotent_result) tx" where
  "confirm_writes op_id ci build p s m g cid balance ben =
     (let h = ledger_entry op_id ci p s m g cid balance ben in
     seq (update_balance (p_tipo g) (h_after h) cid) (\<lambda>_.
     seq (insert_historial h) (\<lambda>(i, ts).
     seq (consume_preview (ci_preview ci)) (\<lambda>_.
     seq (\<lambda>w. (build (movement_of (h\<lparr>h_id := i, h_occurred := ts\<rparr>)), w)) (\<lambda>body.
     seq (complete_idempotency (ci_key ci) 201 body) (\<lambda>_.
     seq (notify_card (pv_cliente p)) (\<lambda>_.
     seq (enqueue_push (pv_cliente p) op_id cid) (\<lambda>_.
     seq (catch commit (\<lambda>e. throw (normalize e))) (\<lambda>_.
     ret \<lparr>ir_status = 201, ir_body = body, ir_replayed = False\<rparr>)))))))))"

definition actor_scope :: "int \<Rightarrow> string" where
  "actor_scope actor = ''user:'' @ show_int actor"

definition confirm_fresh ::
  "(string \<Rightarrow> int \<Rightarrow> int) \<Rightarrow> string \<Rightarrow> confirm_input \<Rightarrow> (movement \<Rightarrow> err + string) \<Rightarrow>
   ('a ledger_db_scheme, idempotent_result) tx" where
  "confirm_fresh civil op_id ci build =
     seq (confirm_checks ci) (\<lambda>(p, s, m, g).
     seq (if ci_operation ci = ''ACUMULACION'' then ensure_card (pv_cliente p) (pv_marca p) else ret ()) (\<lambda>_.
     seq (query (\<lambda>w. find_card (working w) (pv_cliente p) (pv_marca p))) (\<lambda>crow.
     seq (require crow (Repo ErrInsufficientBalance)) (\<lambda>t.
     seq (confirm_benefit civil ci p g) (\<lambda>ben.
     let balance = program_balance (p_tipo g) t in
     seq (reject_if (balance \<noteq> pv_before p) (Repo ErrPreviewChanged)) (\<lambda>_.
     seq (reject_if (ci_operation ci = ''CANJE'' \<and> balance < pv_amount p) (Repo ErrInsufficientBalance)) (\<lambda>_.
     confirm_writes op_id ci build p s m g (t_id t) balance ben)))))))"

definition confirm_movement ::
  "(string \<Rightarrow> int \<Rightarrow> int) \<Rightarrow> string \<Rightarrow> confirm_input \<Rightarrow> (movement \<Rightarrow> err + string) \<Rightarrow>
   ('a ledger_db_scheme, idempotent_result) tx" where
  "confirm_movement civil op_id ci build = in_tx (
     seq (claim_idempotency (ci_key ci) (actor_scope (ci_actor ci)) (''CONFIRM_'' @ ci_operation ci)
            (ci_fingerprint ci)) (\<lambda>claimed.
     case claimed of
       Some r \<Rightarrow> ret r
     | None \<Rightarrow> confirm_fresh civil op_id ci build))"

definition get_movement_idempotency :: "int \<Rightarrow> string \<Rightarrow> ('a ledger_db_scheme, string) tx" where
  "get_movement_idempotency actor key =
     seq (query (\<lambda>w. List.find (\<lambda>s. so_key s = key \<and> so_scope s = actor_scope actor
            \<and> so_operacion s \<in> {''CONFIRM_ACUMULACION'', ''CONFIRM_CANJE''}) (solicitudes (committed w)))) (\<lambda>row.
     seq (require row (Repo ErrNotFound)) (\<lambda>s.
     seq (reject_if (so_estado s \<noteq> ''COMPLETED'') (Repo ErrIdempotencyInProgress)) (\<lambda>_.
     ret (case so_body s of None \<Rightarrow> '''' | Some b \<Rightarrow> b))))"

section \<open>ReverseBrandMovement\<close>

definition reversible_rows ::
  "'a ledger_db_scheme \<Rightarrow> int \<Rightarrow> int \<Rightarrow> string \<Rightarrow> (historial \<times> tarjeta) list" where
  "reversible_rows d actor brand op_id =
     [(h, t). h \<leftarrow> historiales d, t \<leftarrow> tarjetas d,
        t_id t = h_tarjeta h \<and> t_activo t \<and> t_deleted_at t = None \<and> h_marca h = brand
        \<and> h_operation_id h = op_id \<and>
        list_ex (\<lambda>mm. mm_usuario mm = actor \<and> mm_marca mm = brand \<and> mm_activo mm
          \<and> covers_branch d mm (h_sucursal h)) (membresias d)]"

definition insert_reversion :: "reversion \<Rightarrow> ('a ledger_db_scheme, int) tx" where
  "insert_reversion r = exec_ret (\<lambda>w. let d = working w in
     if list_ex (\<lambda>x. rv_movimiento x = rv_movimiento r) (reversiones d)
     then Inl (PgErr (Unique_violation ''reversiones_movimiento_movimiento_id_key''))
     else if list_ex (\<lambda>x. rv_operation_id x = rv_operation_id r) (reversiones d)
     then Inl (PgErr (Unique_violation ''reversiones_movimiento_operation_id_key''))
     else if rv_before r < 0 \<or> rv_after r < 0 then Inl check_violation
     else Inr (db_now w, d\<lparr>reversiones := reversiones d @ [r\<lparr>rv_occurred := db_now w\<rparr>]\<rparr>))"

definition reversal_after :: "string \<Rightarrow> int \<Rightarrow> int \<Rightarrow> ('d, int) tx" where
  "reversal_after oper balance amount =
     (if oper = ''ACUMULACION'' then
        seq (reject_if (balance < amount) (Repo ErrInsufficientBalance)) (\<lambda>_. ret (sub64 balance amount))
      else if oper = ''CANJE'' then ret (add64 balance amount)
      else throw (Repo ErrConflict))"

text \<open>The answer for an entry already reversed, and the writes for one that is not.\<close>

definition reversal_of :: "reversion \<Rightarrow> movement_reversal" where
  "reversal_of r = \<lparr>mr_operation_id = rv_operation_id r, mr_movement = rv_movimiento r,
     mr_before = rv_before r, mr_after = rv_after r, mr_occurred = rv_occurred r\<rparr>"

definition reverse_fresh ::
  "string \<Rightarrow> int \<Rightarrow> historial \<Rightarrow> tarjeta \<Rightarrow> int \<Rightarrow> ('a ledger_db_scheme, movement_reversal) tx" where
  "reverse_fresh new_op actor h t balance =
     seq (reject_if (h_programa_tipo h \<noteq> ''SELLOS'' \<and> h_programa_tipo h \<noteq> ''PUNTOS'') (Repo ErrConflict)) (\<lambda>_.
     seq (reversal_after (h_operacion h) balance (h_cantidad h)) (\<lambda>after.
     seq (update_balance (h_programa_tipo h) after (t_id t)) (\<lambda>_.
     let r = \<lparr>rv_operation_id = new_op, rv_movimiento = h_id h, rv_operador = actor,
              rv_before = balance, rv_after = after, rv_occurred = 0\<rparr> in
     seq (catch (insert_reversion r) (\<lambda>e. throw (normalize e))) (\<lambda>ts.
     seq (notify_card (t_usuario t)) (\<lambda>_.
     seq (catch commit (\<lambda>e. throw (normalize e))) (\<lambda>_.
     ret (reversal_of (r\<lparr>rv_occurred := ts\<rparr>))))))))"

definition reverse_brand_movement ::
  "string \<Rightarrow> int \<Rightarrow> int \<Rightarrow> string \<Rightarrow> ('a ledger_db_scheme, movement_reversal) tx" where
  "reverse_brand_movement new_op actor brand original = in_tx (
     seq (query (\<lambda>w. first_row (reversible_rows (working w) actor brand original))) (\<lambda>row.
     seq (require row (Repo ErrNotFound)) (\<lambda>(h, t).
     let balance = program_balance (h_programa_tipo h) t in
     seq (query (\<lambda>w. List.find (\<lambda>r. rv_movimiento r = h_id h) (reversiones (working w)))) (\<lambda>existing.
     case existing of
       Some r \<Rightarrow>
         seq (catch commit (\<lambda>e. throw (normalize e))) (\<lambda>_. ret (reversal_of r))
     | None \<Rightarrow> reverse_fresh new_op actor h t balance))))"

end
