(* ===== verification/Ledger.thy ===== *)
theory Ledger
  imports Movement
begin

text \<open>
  The ledger's invariant: every balance of a card is the sum of the entries recorded for it,
  reversed entries left out. The theory says how each operation of Movement changes the
  database when it commits, and lifts the invariant to every reachable database.
\<close>

section \<open>What a committed operation did\<close>

lemma confirm_checks_Inr:
  assumes "confirm_checks ci w = (Inr (p, s, m, g), w1)"
  shows "quiet w w1"
    and "List.find (\<lambda>v. pv_id v = ci_preview ci) (previews (working w)) = Some p"
    and "pv_actor p = ci_actor ci" "pv_sucursal p = ci_branch ci" "pv_operacion p = ci_operation ci"
      "pv_qr_hash p = ci_qr_hash ci" "pv_beneficio p = ci_benefit ci"
    and "pv_consumed p = None" "app_now w < pv_expires p"
    and "(s, m, g) \<in> set (branch_program_rows (working w) (ci_actor ci) (ci_branch ci))"
      "m_id m = pv_marca p" "p_tipo g = pv_programa_tipo p"
    and "\<exists>u. find_customer (working w) (ci_qr_hash ci) = Some u \<and> u_id u = pv_cliente p"
  using assms
  by (auto simp: confirm_checks_def tx_run quiet_def dest: first_row_SomeD)

lemma confirm_benefit_Inr:
  assumes "confirm_benefit civil ci p g w = (Inr ben, w1)"
  shows "quiet w w1"
    and "ci_operation ci = ''CANJE'' \<Longrightarrow> \<exists>bid b. ci_benefit ci = Some bid
           \<and> find_benefit civil (db_now w) (working w) bid (p_id g) = Some b
           \<and> benefit_cost (p_tipo g) b = Some (pv_amount p)
           \<and> ben = (Some (b_nombre b), Some (pv_amount p))"
    and "ci_operation ci \<noteq> ''CANJE'' \<Longrightarrow> ben = (None, None)"
  using assms
  by (auto simp: confirm_benefit_def tx_run quiet_def split: if_splits)

lemma update_balance_Inr:
  "update_balance pt v cid w = (Inr u, w1) \<longleftrightarrow> ok_next w \<and>
     \<not> (list_ex (\<lambda>t. t_id t = cid) (tarjetas (working w)) \<and> v < 0) \<and>
     w1 = (ticked w)\<lparr>working := (working w)\<lparr>tarjetas :=
             update_where (\<lambda>t. t_id t = cid) (set_balance pt v) (tarjetas (working w))\<rparr>\<rparr>"
  by (auto simp: update_balance_def tx_run Let_def split: if_splits)

lemma insert_historial_Inr:
  "insert_historial h w = (Inr (i, ts), w1) \<longleftrightarrow> ok_next w \<and>
     (\<forall>x \<in> set (historiales (working w)). h_operation_id x \<noteq> h_operation_id h) \<and> historial_ok h \<and>
     i = next_id (map h_id (historiales (working w))) \<and> ts = db_now w \<and>
     w1 = (ticked w)\<lparr>working := (working w)\<lparr>historiales :=
             historiales (working w) @ [h\<lparr>h_id := i, h_occurred := ts\<rparr>]\<rparr>\<rparr>"
  by (auto simp: insert_historial_def tx_run Let_def list_ex_iff split: if_splits)

lemma catch_commit_normalize:
  "catch commit (\<lambda>e. throw (normalize e)) w = (Inr u, w1) \<longleftrightarrow>
     ok_next w \<and> w1 = (ticked w)\<lparr>committed := working w\<rparr>"
  by (auto simp: tx_run)

text \<open>The rows of the ledger after the writes of a confirmation.\<close>

definition posted :: "string \<Rightarrow> historial \<Rightarrow> 'a ledger_db_scheme \<Rightarrow> 'a ledger_db_scheme \<Rightarrow> bool" where
  "posted pt h d d' \<longleftrightarrow>
     h_id h = next_id (map h_id (historiales d)) \<and> historial_ok h \<and> in_int64 (h_after h) \<and>
     (\<forall>x \<in> set (historiales d). h_operation_id x \<noteq> h_operation_id h) \<and>
     tarjetas d' = update_where (\<lambda>t. t_id t = h_tarjeta h) (set_balance pt (h_after h)) (tarjetas d) \<and>
     historiales d' = historiales d @ [h] \<and> reversiones d' = reversiones d"

lemma confirm_writes_Inr:
  fixes w :: "('a ledger_db_scheme) world"
  assumes run: "confirm_writes op_id ci build p s m g cid balance ben w = (Inr r, w2)"
  defines "h \<equiv> (ledger_entry op_id ci p s m g cid balance ben)
     \<lparr>h_id := next_id (map h_id (historiales (working w))), h_occurred := db_now w\<rparr>"
  shows "posted (p_tipo g) h (working w) (committed w2)"
    and "previews (committed w2) = update_where (\<lambda>v. pv_id v = ci_preview ci)
           (\<lambda>v. v\<lparr>pv_consumed := Some (db_now w)\<rparr>) (previews (working w))"
    and "\<exists>body. build (movement_of h) = Inr body \<and>
           r = \<lparr>ir_status = 201, ir_body = body, ir_replayed = False\<rparr> \<and>
           solicitudes (committed w2) = update_where (\<lambda>s. so_key s = ci_key ci)
             (complete_row (db_now w) 201 body) (solicitudes (working w))"
    and "card_events (committed w2) = card_events (working w) @ [pv_cliente p]"
proof -
  have hid: "h_after h = h_after (ledger_entry op_id ci p s m g cid balance ben)"
    "h_operation_id h = op_id" "h_tarjeta h = cid" "h_id h = next_id (map h_id (historiales (working w)))"
    "h_operation_id (ledger_entry op_id ci p s m g cid balance ben) = op_id"
    by (simp_all add: h_def ledger_entry_def)
  have r64: "in_int64 (h_after (ledger_entry op_id ci p s m g cid balance ben))"
    by (simp add: ledger_entry_def)
  have ok: "historial_ok (ledger_entry op_id ci p s m g cid balance ben) = historial_ok h"
    by (simp add: h_def historial_ok_def)
  show "posted (p_tipo g) h (working w) (committed w2)"
    "previews (committed w2) = update_where (\<lambda>v. pv_id v = ci_preview ci)
       (\<lambda>v. v\<lparr>pv_consumed := Some (db_now w)\<rparr>) (previews (working w))"
    "\<exists>body. build (movement_of h) = Inr body \<and>
       r = \<lparr>ir_status = 201, ir_body = body, ir_replayed = False\<rparr> \<and>
       solicitudes (committed w2) = update_where (\<lambda>s. so_key s = ci_key ci)
         (complete_row (db_now w) 201 body) (solicitudes (working w))"
    "card_events (committed w2) = card_events (working w) @ [pv_cliente p]"
    using run
    by (auto simp: confirm_writes_def Let_def tx_run update_balance_Inr insert_historial_Inr
        complete_idempotency_def notify_card_def enqueue_push_def consume_preview_def
        posted_def hid ok r64 simp flip: h_def)
qed

text \<open>
  A confirmation that returns either replays a stored answer, or ran every check and posted
  exactly one entry; an error leaves the committed database as it was.
\<close>

lemma atomic_confirm_movement [atomic_rules]: "atomic (confirm_movement civil op_id ci build)"
proof -
  have c: "atomic (seq (catch commit (\<lambda>e. throw (normalize e))) (\<lambda>_. ret x))" for x :: idempotent_result
    by (auto simp: atomic_def seq_def catch_def commit_def throw_def ret_def tick_def
        split: prod.splits sum.splits list.splits option.splits)
  have b: "no_commit (\<lambda>w. (build x, w))" for x
    by (simp add: no_commit_def)
  show ?thesis
    unfolding confirm_movement_def confirm_fresh_def confirm_checks_def ensure_card_def
      confirm_benefit_def confirm_writes_def update_balance_def insert_historial_def
      consume_preview_def notify_card_def enqueue_push_def
    by (intro atomic_rules no_commit_rules b c)
qed

definition with_card :: "int \<Rightarrow> int \<Rightarrow> 'a ledger_db_scheme \<Rightarrow> 'a ledger_db_scheme" where
  "with_card customer brand d =
     (if list_ex (\<lambda>t. t_usuario t = customer \<and> t_marca t = brand) (tarjetas d) then d
      else d\<lparr>tarjetas := tarjetas d @ [new_card (next_id (map t_id (tarjetas d))) customer brand]\<rparr>)"

lemma ensure_card_Inr:
  "ensure_card customer brand w = (Inr u, w1) \<longleftrightarrow>
     ok_next w \<and> w1 = (ticked w)\<lparr>working := with_card customer brand (working w)\<rparr>"
  by (simp add: ensure_card_def with_card_def tx_run Let_def)

lemma with_card_frame [simp]:
  "historiales (with_card c b d) = historiales d" "reversiones (with_card c b d) = reversiones d"
  "previews (with_card c b d) = previews d" "solicitudes (with_card c b d) = solicitudes d"
  "card_events (with_card c b d) = card_events d"
  by (simp_all add: with_card_def)

text \<open>
  \<open>confirmed ci now d0 d2 p g t h body\<close>: the transaction found preview \<open>p\<close>, program \<open>g\<close> and
  card \<open>t\<close> in the database \<open>d0\<close> it started from, and committed \<open>d2\<close> with the entry \<open>h\<close>.
\<close>

definition base_db :: "confirm_input \<Rightarrow> preview_row \<Rightarrow> 'a ledger_db_scheme \<Rightarrow> 'a ledger_db_scheme" where
  "base_db ci p d = (if ci_operation ci = ''ACUMULACION'' then with_card (pv_cliente p) (pv_marca p) d else d)"

definition confirmed ::
  "confirm_input \<Rightarrow> int \<Rightarrow> int \<Rightarrow> 'a ledger_db_scheme \<Rightarrow> 'a ledger_db_scheme \<Rightarrow>
   preview_row \<Rightarrow> programa \<Rightarrow> tarjeta \<Rightarrow> historial \<Rightarrow> string \<Rightarrow> bool" where
  "confirmed ci tnow dnow d0 d2 p g t h body \<longleftrightarrow>
     List.find (\<lambda>v. pv_id v = ci_preview ci) (previews d0) = Some p \<and>
     pv_actor p = ci_actor ci \<and> pv_operacion p = ci_operation ci \<and> pv_qr_hash p = ci_qr_hash ci \<and>
     pv_sucursal p = ci_branch ci \<and> pv_beneficio p = ci_benefit ci \<and>
     pv_consumed p = None \<and> tnow < pv_expires p \<and> p_tipo g = pv_programa_tipo p \<and>
     (\<exists>s m. (s, m, g) \<in> set (branch_program_rows d0 (ci_actor ci) (ci_branch ci)) \<and> m_id m = pv_marca p) \<and>
     find_card (base_db ci p d0) (pv_cliente p) (pv_marca p) = Some t \<and>
     program_balance (p_tipo g) t = pv_before p \<and>
     h_before h = pv_before p \<and> h_cantidad h = pv_amount p \<and> h_tarjeta h = t_id t \<and>
     h_operacion h = ci_operation ci \<and> h_programa_tipo h = p_tipo g \<and> h_operador h = Some (ci_actor ci) \<and>
     h_sentido h = (if ci_operation ci = ''CANJE'' then ''DEBITO'' else ''CREDITO'') \<and>
     posted (p_tipo g) h (base_db ci p d0) d2 \<and>
     previews d2 = update_where (\<lambda>v. pv_id v = ci_preview ci)
       (\<lambda>v. v\<lparr>pv_consumed := Some dnow\<rparr>) (previews d0) \<and>
     solicitudes d2 = update_where (\<lambda>s. so_key s = ci_key ci) (complete_row dnow 201 body) (solicitudes d0) \<and>
     card_events d2 = card_events d0 @ [pv_cliente p]"

lemma confirm_fresh_Inr:
  assumes run: "confirm_fresh civil op_id ci build w = (Inr r, w2)"
  shows "\<exists>p g t h body. confirmed ci (app_now w) (db_now w) (working w) (committed w2) p g t h body
           \<and> h_operation_id h = op_id \<and> build (movement_of h) = Inr body
           \<and> r = \<lparr>ir_status = 201, ir_body = body, ir_replayed = False\<rparr>"
proof -
  from run obtain p s m g w1 t ben w3 w4 where
    c: "confirm_checks ci w = (Inr (p, s, m, g), w1)"
    and e: "(if ci_operation ci = ''ACUMULACION'' then ensure_card (pv_cliente p) (pv_marca p) else ret ()) w1
              = (Inr (), w3)"
    and t: "find_card (working w3) (pv_cliente p) (pv_marca p) = Some t"
    and b: "confirm_benefit civil ci p g (ticked w3) = (Inr ben, w4)"
    and bal: "program_balance (p_tipo g) t = pv_before p"
    and wr: "confirm_writes op_id ci build p s m g (t_id t) (program_balance (p_tipo g) t) ben w4 = (Inr r, w2)"
    by (auto simp: confirm_fresh_def tx_run Let_def)
  note cc = confirm_checks_Inr [OF c]
  from e cc(1) have w3: "working w3 = base_db ci p (working w)" "db_now w3 = db_now w"
    by (auto simp: base_db_def ensure_card_Inr ret_def quiet_def split: if_splits)
  with quietD [OF confirm_benefit_Inr(1) [OF b]]
  have w4: "working w4 = base_db ci p (working w)" "db_now w4 = db_now w" by simp_all
  have fr: "previews (base_db ci p d) = previews d" "solicitudes (base_db ci p d) = solicitudes d"
    "card_events (base_db ci p d) = card_events d" for d :: "'a ledger_db_scheme"
    by (simp_all add: base_db_def)
  let ?h = "(ledger_entry op_id ci p s m g (t_id t) (program_balance (p_tipo g) t) ben)
     \<lparr>h_id := next_id (map h_id (historiales (working w4))), h_occurred := db_now w4\<rparr>"
  note wf = confirm_writes_Inr [OF wr]
  from wf(3) obtain body where body: "build (movement_of ?h) = Inr body"
    "r = \<lparr>ir_status = 201, ir_body = body, ir_replayed = False\<rparr>"
    "solicitudes (committed w2) = update_where (\<lambda>s. so_key s = ci_key ci)
             (complete_row (db_now w4) 201 body) (solicitudes (working w4))" by blast
  have "confirmed ci (app_now w) (db_now w) (working w) (committed w2) p g t ?h body"
    unfolding confirmed_def
    using cc t bal wf(1,2,4) body(3) w4 w3 fr
    by (auto simp: ledger_entry_def)
  moreover have "h_operation_id ?h = op_id" by (simp add: ledger_entry_def)
  ultimately show ?thesis using body by blast
qed

lemma confirm_movement_Inr:
  assumes "confirm_movement civil op_id ci build w = (Inr r, w2)"
  shows "ir_replayed r \<and> committed w2 = committed w \<or>
    \<not> ir_replayed r \<and> find_solicitud (ci_key ci) (committed w) = None \<and>
    (\<exists>p g t h body. h_operation_id h = op_id \<and> build (movement_of h) = Inr body
      \<and> r = \<lparr>ir_status = 201, ir_body = body, ir_replayed = False\<rparr>
      \<and> confirmed ci (app_now w) (db_now w)
         ((committed w)\<lparr>solicitudes := solicitudes (committed w) @ [pending_row (ci_key ci)
           (actor_scope (ci_actor ci)) (''CONFIRM_'' @ ci_operation ci) (ci_fingerprint ci)]\<rparr>)
         (committed w2) p g t h body)"
proof -
  from assms obtain cl w1 w3 where
    cl: "claim_idempotency (ci_key ci) (actor_scope (ci_actor ci)) (''CONFIRM_'' @ ci_operation ci)
           (ci_fingerprint ci) ((ticked w)\<lparr>working := committed w\<rparr>) = (Inr cl, w1)"
    and rest: "(case cl of Some r \<Rightarrow> ret r | None \<Rightarrow> confirm_fresh civil op_id ci build) w1 = (Inr r, w3)"
    and w2: "w2 = w3\<lparr>working := committed w3\<rparr>"
    by (auto simp: confirm_movement_def tx_run)
  show ?thesis
  proof (cases cl)
    case None
    note cf = claim_fresh [OF cl [unfolded None]]
    from rest None have "confirm_fresh civil op_id ci build w1 = (Inr r, w3)" by simp
    from confirm_fresh_Inr [OF this] cf w2 show ?thesis by fastforce
  next
    case (Some a)
    with rest have "r = a" "w3 = w1" by (simp_all add: ret_def)
    with claim_replay [OF cl [unfolded Some]] w2 show ?thesis by auto
  qed
qed

section \<open>The invariant\<close>

definition signed_amount :: "historial \<Rightarrow> int" where
  "signed_amount h = (if h_sentido h = ''CREDITO'' then h_cantidad h else - h_cantidad h)"

definition is_reversed :: "reversion list \<Rightarrow> historial \<Rightarrow> bool" where
  "is_reversed rs h = list_ex (\<lambda>r. rv_movimiento r = h_id h) rs"

definition entry_effect :: "reversion list \<Rightarrow> bool \<Rightarrow> int \<Rightarrow> historial \<Rightarrow> int" where
  "entry_effect rs pts cid h =
     (if h_tarjeta h = cid \<and> (h_programa_tipo h = ''PUNTOS'') = pts \<and> \<not> is_reversed rs h
      then signed_amount h else 0)"

text \<open>The balance of a card that its entries account for.\<close>

definition ledger_balance :: "'a ledger_db_scheme \<Rightarrow> bool \<Rightarrow> int \<Rightarrow> int" where
  "ledger_balance d pts cid = sum_list (map (entry_effect (reversiones d) pts cid) (historiales d))"

definition ledger_keys :: "'a ledger_db_scheme \<Rightarrow> bool" where
  "ledger_keys d \<longleftrightarrow> distinct (map t_id (tarjetas d)) \<and> distinct (map h_id (historiales d)) \<and>
     distinct (map h_operation_id (historiales d)) \<and> distinct (map rv_movimiento (reversiones d)) \<and>
     (\<forall>r \<in> set (reversiones d). rv_movimiento r \<in> h_id ` set (historiales d)) \<and>
     (\<forall>h \<in> set (historiales d). historial_ok h \<and> in_int64 (h_before h) \<and> in_int64 (h_after h) \<and>
        h_tarjeta h \<in> t_id ` set (tarjetas d))"

definition card_balanced :: "'a ledger_db_scheme \<Rightarrow> tarjeta \<Rightarrow> bool" where
  "card_balanced d t \<longleftrightarrow> t_puntos t = ledger_balance d True (t_id t) \<and>
     t_sellos t = ledger_balance d False (t_id t) \<and> 0 \<le> t_puntos t \<and> 0 \<le> t_sellos t \<and>
     in_int64 (t_puntos t) \<and> in_int64 (t_sellos t)"

definition ledger_inv :: "'a ledger_db_scheme \<Rightarrow> bool" where
  "ledger_inv d \<longleftrightarrow> ledger_keys d \<and> (\<forall>t \<in> set (tarjetas d). card_balanced d t)"

lemma set_balance_sel [simp]:
  "t_id (set_balance pt v t) = t_id t" "t_usuario (set_balance pt v t) = t_usuario t"
  "t_marca (set_balance pt v t) = t_marca t" "t_activo (set_balance pt v t) = t_activo t"
  "t_puntos (set_balance pt v t) = (if pt = ''PUNTOS'' then v else t_puntos t)"
  "t_sellos (set_balance pt v t) = (if pt = ''PUNTOS'' then t_sellos t else v)"
  "t_version (set_balance pt v t) = t_version t + 1"
  by (simp_all add: set_balance_def)

lemma map_t_id_update [simp]: "map t_id (update_where p (set_balance pt v) ts) = map t_id ts"
  by (rule map_update_where) simp

lemma image_t_id_update [simp]:
  "t_id ` set (update_where p (set_balance pt v) ts) = t_id ` set ts"
  by (metis map_t_id_update set_map)

text \<open>Only the columns the invariant reads matter.\<close>

lemma ledger_inv_cong:
  "tarjetas d' = tarjetas d \<Longrightarrow> historiales d' = historiales d \<Longrightarrow> reversiones d' = reversiones d \<Longrightarrow>
   ledger_inv d' = ledger_inv d"
  by (simp add: ledger_inv_def ledger_keys_def card_balanced_def ledger_balance_def)

lemma fresh_not_reversed:
  "ledger_keys d \<Longrightarrow> h_id h = next_id (map h_id (historiales d)) \<Longrightarrow> \<not> is_reversed (reversiones d) h"
  using next_id_fresh [of "map h_id (historiales d)"]
  unfolding is_reversed_def list_ex_iff ledger_keys_def by (metis set_map)

lemma no_entries_no_balance:
  assumes "\<forall>h \<in> set (historiales d). h_tarjeta h \<noteq> cid"
  shows "ledger_balance d pts cid = 0"
proof -
  have "sum_list (map (entry_effect rs pts cid) hs) = 0" if "\<forall>h \<in> set hs. h_tarjeta h \<noteq> cid" for rs hs
    using that by (induction hs) (auto simp: entry_effect_def)
  with assms show ?thesis by (simp add: ledger_balance_def)
qed

lemma with_card_inv:
  assumes "ledger_inv d"
  shows "ledger_inv (with_card c b d)"
proof (cases "list_ex (\<lambda>t. t_usuario t = c \<and> t_marca t = b) (tarjetas d)")
  case True
  with assms show ?thesis by (simp add: with_card_def)
next
  case False
  let ?i = "next_id (map t_id (tarjetas d))"
  have fresh: "?i \<notin> t_id ` set (tarjetas d)" using next_id_fresh [of "map t_id (tarjetas d)"] by simp
  have bal: "ledger_balance (with_card c b d) pts cid = ledger_balance d pts cid" for pts cid
    by (simp add: ledger_balance_def)
  have z: "ledger_balance d pts ?i = 0" for pts
    using assms fresh by (intro no_entries_no_balance) (metis ledger_inv_def ledger_keys_def)
  from False have ts: "tarjetas (with_card c b d) = tarjetas d @ [new_card ?i c b]"
    by (simp add: with_card_def)
  have "ledger_keys (with_card c b d)"
    using assms fresh ts by (auto simp: ledger_inv_def ledger_keys_def new_card_def)
  moreover have "card_balanced (with_card c b d) t" if "t \<in> set (tarjetas (with_card c b d))" for t
    using that assms ts z by (auto simp: ledger_inv_def card_balanced_def bal new_card_def)
  ultimately show ?thesis by (simp add: ledger_inv_def)
qed

lemma posted_balance:
  assumes "ledger_keys d" and "posted pt h d d'"
  shows "ledger_balance d' pts cid = ledger_balance d pts cid +
     (if h_tarjeta h = cid \<and> (h_programa_tipo h = ''PUNTOS'') = pts then signed_amount h else 0)"
  using assms fresh_not_reversed [of d h]
  by (simp add: ledger_balance_def posted_def entry_effect_def)

lemma signed_amount_ok: "historial_ok h \<Longrightarrow> h_after h = h_before h + signed_amount h"
  by (auto simp: historial_ok_def signed_amount_def)

text \<open>Posting an entry that starts from the card's balance keeps the invariant.\<close>

lemma posted_inv:
  assumes inv: "ledger_inv d" and t: "t \<in> set (tarjetas d)" "h_tarjeta h = t_id t"
    and before: "h_before h = program_balance pt t" and pt: "h_programa_tipo h = pt"
    and post: "posted pt h d d'"
  shows "ledger_inv d'"
proof -
  have keys: "ledger_keys d" using inv by (simp add: ledger_inv_def)
  note bal = posted_balance [OF keys post]
  have ok: "historial_ok h" using post by (simp add: posted_def)
  note after = signed_amount_ok [OF ok]
  have "card_balanced d t" using inv t by (simp add: ledger_inv_def)
  with before have "in_int64 (h_before h)" by (auto simp: card_balanced_def program_balance_def)
  with keys post t next_id_fresh [of "map h_id (historiales d)"] have "ledger_keys d'"
    by (auto simp: ledger_keys_def posted_def)
  moreover have "card_balanced d' x" if x: "x \<in> set (tarjetas d')" for x
  proof -
    from x post obtain r where r: "r \<in> set (tarjetas d)"
      "x = (if t_id r = h_tarjeta h then set_balance pt (h_after h) r else r)"
      by (auto simp: posted_def set_update_where)
    have rb: "card_balanced d r" using inv r by (simp add: ledger_inv_def)
    show ?thesis
    proof (cases "t_id r = h_tarjeta h")
      case True
      with t r keys have "r = t" by (auto simp: ledger_keys_def dest: distinct_key_unique)
      with True r rb before after pt t ok post show ?thesis
        by (auto simp: card_balanced_def bal program_balance_def historial_ok_def posted_def)
    next
      case False
      with r rb show ?thesis by (auto simp: card_balanced_def bal)
    qed
  qed
  ultimately show ?thesis by (simp add: ledger_inv_def)
qed

lemma find_card_member: "find_card d c b = Some t \<Longrightarrow> t \<in> set (tarjetas d)"
  by (auto simp: find_card_def find_Some_iff)

lemma confirmed_inv:
  assumes "ledger_inv d0" and "confirmed ci tnow dnow d0 d2 p g t h body"
  shows "ledger_inv d2"
proof -
  have inv: "ledger_inv (base_db ci p d0)" using assms(1) by (simp add: base_db_def with_card_inv)
  have "find_card (base_db ci p d0) (pv_cliente p) (pv_marca p) = Some t"
    and h: "h_tarjeta h = t_id t" "h_before h = program_balance (p_tipo g) t"
      "h_programa_tipo h = p_tipo g" "posted (p_tipo g) h (base_db ci p d0) d2"
    using assms(2) by (auto simp: confirmed_def)
  from find_card_member [OF this(1)] show ?thesis by (rule posted_inv [OF inv _ h])
qed

section \<open>Reversals\<close>

text \<open>\<open>reversed_to d d' h t r\<close>: the entry \<open>h\<close> of card \<open>t\<close> was compensated by the row \<open>r\<close>.\<close>

definition reversed_to ::
  "'a ledger_db_scheme \<Rightarrow> 'a ledger_db_scheme \<Rightarrow> historial \<Rightarrow> tarjeta \<Rightarrow> reversion \<Rightarrow> bool" where
  "reversed_to d d' h t r \<longleftrightarrow> h \<in> set (historiales d) \<and> t \<in> set (tarjetas d) \<and> t_id t = h_tarjeta h \<and>
     \<not> is_reversed (reversiones d) h \<and> rv_movimiento r = h_id h \<and>
     rv_before r = program_balance (h_programa_tipo h) t \<and>
     rv_after r = rv_before r - signed_amount h \<and> 0 \<le> rv_after r \<and> in_int64 (rv_after r) \<and>
     tarjetas d' = update_where (\<lambda>x. t_id x = t_id t) (set_balance (h_programa_tipo h) (rv_after r)) (tarjetas d) \<and>
     historiales d' = historiales d \<and> reversiones d' = reversiones d @ [r] \<and>
     previews d' = previews d \<and> solicitudes d' = solicitudes d \<and>
     card_events d' = card_events d @ [t_usuario t]"

lemma sum_list_drop_one:
  fixes f g :: "'x \<Rightarrow> int"
  assumes "distinct (map k xs)" and "x \<in> set xs" and "g x = 0"
    and "\<And>y. y \<in> set xs \<Longrightarrow> k y \<noteq> k x \<Longrightarrow> g y = f y"
  shows "sum_list (map g xs) = sum_list (map f xs) - f x"
  using assms
proof (induction xs)
  case (Cons y ys)
  show ?case
  proof (cases "x = y")
    case True
    with Cons.prems have "sum_list (map g ys) = sum_list (map f ys)"
      by (intro arg_cong [where f = sum_list] map_cong) (auto simp: image_iff)
    with True Cons.prems show ?thesis by simp
  next
    case False
    with Cons show ?thesis by (auto simp: image_iff)
  qed
qed simp

lemma reversed_balance:
  assumes "ledger_keys d" and "reversed_to d d' h t r"
  shows "ledger_balance d' pts cid = ledger_balance d pts cid -
     (if h_tarjeta h = cid \<and> (h_programa_tipo h = ''PUNTOS'') = pts then signed_amount h else 0)"
proof -
  have r: "reversiones d' = reversiones d @ [r]" "historiales d' = historiales d" "rv_movimiento r = h_id h"
    "h \<in> set (historiales d)" "\<not> is_reversed (reversiones d) h"
    using assms(2) by (simp_all add: reversed_to_def)
  have "sum_list (map (entry_effect (reversiones d @ [r]) pts cid) (historiales d)) =
        sum_list (map (entry_effect (reversiones d) pts cid) (historiales d)) - entry_effect (reversiones d) pts cid h"
    using assms(1) r
    by (intro sum_list_drop_one [where k = h_id])
       (auto simp: ledger_keys_def entry_effect_def is_reversed_def)
  with r show ?thesis by (simp add: ledger_balance_def entry_effect_def)
qed

lemma reversed_inv:
  assumes inv: "ledger_inv d" and rev: "reversed_to d d' h t r"
  shows "ledger_inv d'"
proof -
  have keys: "ledger_keys d" using inv by (simp add: ledger_inv_def)
  note bal = reversed_balance [OF keys rev]
  have "rv_movimiento r \<notin> rv_movimiento ` set (reversiones d)"
    using rev by (auto simp: reversed_to_def is_reversed_def list_ex_iff)
  with keys rev have "ledger_keys d'"
    by (auto simp: ledger_keys_def reversed_to_def)
  moreover have "card_balanced d' x" if x: "x \<in> set (tarjetas d')" for x
  proof -
    from x rev obtain y where y: "y \<in> set (tarjetas d)"
      "x = (if t_id y = t_id t then set_balance (h_programa_tipo h) (rv_after r) y else y)"
      by (auto simp: reversed_to_def set_update_where)
    have yb: "card_balanced d y" using inv y by (simp add: ledger_inv_def)
    show ?thesis
    proof (cases "t_id y = t_id t")
      case True
      with y rev keys have "y = t" by (auto simp: ledger_keys_def reversed_to_def dest: distinct_key_unique)
      with True y yb rev show ?thesis
        by (auto simp: card_balanced_def bal program_balance_def reversed_to_def)
    next
      case False
      with y yb rev show ?thesis by (auto simp: card_balanced_def bal reversed_to_def)
    qed
  qed
  ultimately show ?thesis by (simp add: ledger_inv_def)
qed

lemma insert_reversion_Inr:
  "insert_reversion r w = (Inr ts, w1) \<longleftrightarrow> ok_next w \<and>
     (\<forall>x \<in> set (reversiones (working w)). rv_movimiento x \<noteq> rv_movimiento r) \<and>
     (\<forall>x \<in> set (reversiones (working w)). rv_operation_id x \<noteq> rv_operation_id r) \<and>
     0 \<le> rv_before r \<and> 0 \<le> rv_after r \<and> ts = db_now w \<and>
     w1 = (ticked w)\<lparr>working := (working w)\<lparr>reversiones := reversiones (working w) @ [r\<lparr>rv_occurred := ts\<rparr>]\<rparr>\<rparr>"
  by (auto simp: insert_reversion_def tx_run Let_def list_ex_iff split: if_splits)

lemma atomic_reverse [atomic_rules]: "atomic (reverse_brand_movement new_op actor brand original)"
proof -
  have c: "atomic (seq (catch commit (\<lambda>e. throw (normalize e))) (\<lambda>_. ret x))" for x :: movement_reversal
    by (auto simp: atomic_def seq_def catch_def commit_def throw_def ret_def tick_def
        split: prod.splits sum.splits list.splits option.splits)
  show ?thesis
    unfolding reverse_brand_movement_def reverse_fresh_def reversal_after_def update_balance_def insert_reversion_def
      notify_card_def
    by (intro atomic_rules no_commit_rules c)
qed

text \<open>
  The amount a reversal writes is the balance less the entry's signed amount; an addition that
  overflowed would be negative and fail the column's check, so no wrapped value is stored.
\<close>

lemma reversal_after_same: "reversal_after oper balance amount w = (Inr v, w1) \<Longrightarrow> w1 = w"
  by (auto simp: reversal_after_def tx_run split: if_splits)

lemma reversal_after_Inr:
  assumes run: "reversal_after oper balance amount w = (Inr v, w1)"
    and "0 \<le> balance" "0 < amount" "in_int64 balance" "in_int64 amount" "0 \<le> v"
  shows "w1 = w" "in_int64 v"
    "oper = ''ACUMULACION'' \<and> v = balance - amount \<or> oper = ''CANJE'' \<and> v = balance + amount"
proof -
  from run have v: "oper = ''ACUMULACION'' \<and> amount \<le> balance \<and> v = sub64 balance amount \<or>
      oper = ''CANJE'' \<and> v = add64 balance amount" "w1 = w"
    by (auto simp: reversal_after_def tx_run split: if_splits)
  then show "w1 = w" "in_int64 v" by auto
  show "oper = ''ACUMULACION'' \<and> v = balance - amount \<or> oper = ''CANJE'' \<and> v = balance + amount"
    using v(1) assms add64_exact [of balance amount] sub64_exact [of balance amount] by auto
qed

lemma entry_amount_int64: "historial_ok h \<Longrightarrow> in_int64 (h_before h) \<Longrightarrow> in_int64 (h_after h) \<Longrightarrow> in_int64 (h_cantidad h)"
  by (auto simp: historial_ok_def in_int64_def)

lemma reverse_fresh_Inr:
  assumes run: "reverse_fresh new_op actor h t (program_balance (h_programa_tipo h) t) w = (Inr a, w2)"
    and inv: "ledger_inv (working w)"
    and h: "h \<in> set (historiales (working w))" and t: "t \<in> set (tarjetas (working w))" "t_id t = h_tarjeta h"
  shows "\<exists>r. reversed_to (working w) (committed w2) h t r \<and> rv_occurred r = db_now w \<and>
           rv_operation_id r = new_op \<and> rv_operador r = actor \<and> a = reversal_of r"
proof -
  let ?b = "program_balance (h_programa_tipo h) t"
  have hk: "historial_ok h" "in_int64 (h_cantidad h)"
    using inv h entry_amount_int64 by (auto simp: ledger_inv_def ledger_keys_def)
  have tb: "0 \<le> ?b" "in_int64 ?b"
    using inv t by (auto simp: ledger_inv_def card_balanced_def program_balance_def)
  from run obtain after w1 w3 where
    ra: "reversal_after (h_operacion h) ?b (h_cantidad h) w = (Inr after, w1)"
    and up: "update_balance (h_programa_tipo h) after (t_id t) w1 = (Inr (), w3)"
    and rest: "seq (catch (insert_reversion \<lparr>rv_operation_id = new_op, rv_movimiento = h_id h, rv_operador = actor,
              rv_before = ?b, rv_after = after, rv_occurred = 0\<rparr>) (\<lambda>e. throw (normalize e))) (\<lambda>ts.
        seq (notify_card (t_usuario t)) (\<lambda>_. seq (catch commit (\<lambda>e. throw (normalize e))) (\<lambda>_.
        ret (reversal_of \<lparr>rv_operation_id = new_op, rv_movimiento = h_id h, rv_operador = actor,
              rv_before = ?b, rv_after = after, rv_occurred = ts\<rparr>)))) w3 = (Inr a, w2)"
    by (auto simp: reverse_fresh_def seq_Inr reject_if_Inr Let_def)
  have pos: "0 \<le> after"
    using up t(1) reversal_after_same [OF ra] by (auto simp: update_balance_Inr list_ex_iff)
  note rv = reversal_after_Inr [OF ra tb(1) _ tb(2) hk(2) pos]
  have amt: "0 < h_cantidad h" using hk(1) by (simp add: historial_ok_def)
  have after: "after = ?b - signed_amount h"
    using rv(3) [OF amt] hk(1) by (auto simp: signed_amount_def historial_ok_def)
  let ?r = "\<lparr>rv_operation_id = new_op, rv_movimiento = h_id h, rv_operador = actor,
              rv_before = ?b, rv_after = after, rv_occurred = db_now w\<rparr>"
  have "reversed_to (working w) (committed w2) h t ?r \<and> a = reversal_of ?r"
    using rest up rv(1,2) [OF amt] after pos h t
    by (auto simp: tx_run update_balance_Inr insert_reversion_Inr notify_card_def reversed_to_def
        is_reversed_def list_ex_iff)
  then show ?thesis by (intro exI [of _ ?r]) simp
qed

text \<open>A reversal that returns either found the entry already reversed, or reversed it once.\<close>

lemma reverse_Inr:
  assumes run: "reverse_brand_movement new_op actor brand original w = (Inr a, w2)"
    and inv: "ledger_inv (committed w)"
  shows "(\<exists>r \<in> set (reversiones (committed w)). a = reversal_of r) \<and> committed w2 = committed w \<or>
         (\<exists>h t r. (h, t) \<in> set (reversible_rows (committed w) actor brand original) \<and>
            reversed_to (committed w) (committed w2) h t r \<and> rv_occurred r = db_now w \<and>
            rv_operation_id r = new_op \<and> a = reversal_of r)"
proof -
  let ?d = "committed w"
  from run obtain h t w1 w3 where row: "first_row (reversible_rows ?d actor brand original) = Some (h, t)"
    and rest: "(case List.find (\<lambda>r. rv_movimiento r = h_id h) (reversiones ?d) of
         Some r \<Rightarrow> seq (catch commit (\<lambda>e. throw (normalize e))) (\<lambda>_. ret (reversal_of r))
       | None \<Rightarrow> reverse_fresh new_op actor h t (program_balance (h_programa_tipo h) t)) w1 = (Inr a, w3)"
    and w1: "working w1 = ?d" "db_now w1 = db_now w" and w3: "committed w2 = committed w3"
    by (auto simp: reverse_brand_movement_def seq_Inr require_Inr query_Inr in_tx_Inr Let_def)
  from first_row_SomeD [OF row] have mem: "(h, t) \<in> set (reversible_rows ?d actor brand original)" .
  then have ht: "h \<in> set (historiales ?d)" "t \<in> set (tarjetas ?d)" "t_id t = h_tarjeta h"
    by (auto simp: reversible_rows_def)
  show ?thesis
  proof (cases "List.find (\<lambda>r. rv_movimiento r = h_id h) (reversiones ?d)")
    case None
    with rest have "reverse_fresh new_op actor h t (program_balance (h_programa_tipo h) t) w1 = (Inr a, w3)"
      by simp
    from reverse_fresh_Inr [OF this] inv ht w1 w3 mem show ?thesis by auto
  next
    case (Some r)
    with rest w1 w3 have "a = reversal_of r" "committed w2 = ?d" by (auto simp: tx_run)
    moreover from Some have "r \<in> set (reversiones ?d)" by (auto simp: find_Some_iff)
    ultimately show ?thesis by blast
  qed
qed

end
