(* ===== verification/LedgerSteps.thy ===== *)
theory LedgerSteps
  imports Ledger
begin

text \<open>
  The ledger as a state machine: its steps are the three operations of Movement, run with any
  arguments, clocks and database failures, and the changes other parts of the system make to
  the tables the ledger only reads. Here are the invariants of its reachable states.
\<close>

section \<open>Previews\<close>

lemma preview_credit_Inr:
  assumes "preview_credit pt req w = (Inr k, w1)"
  shows "w1 = w" "1 \<le> k \<and> k \<le> 100000"
    "pt = ''PUNTOS'' \<Longrightarrow> mp_operation req = ''ACUMULACION'' \<Longrightarrow> mp_points req = Some k"
    "\<not> (pt = ''PUNTOS'' \<and> mp_operation req = ''ACUMULACION'') \<Longrightarrow> mp_points req = None \<and> k = 1"
  using assms by (auto simp: preview_credit_def tx_run split: if_splits option.splits)

lemma preview_amounts_Inr:
  assumes "preview_amounts civil req pt pid balance credit w = (Inr (amount, after, ben), w1)"
  shows "quiet w w1"
    "mp_operation req = ''CANJE'' \<and> (\<exists>bid b. mp_benefit req = Some bid
        \<and> find_benefit civil (db_now w) (working w) bid pid = Some b \<and> ben = Some b
        \<and> benefit_cost pt b = Some amount \<and> amount \<le> balance \<and> after = sub64 balance amount) \<or>
     mp_operation req = ''ACUMULACION'' \<and> ben = None \<and> amount = credit \<and> after = add64 balance credit"
  using assms
  by (auto simp: preview_amounts_def tx_run quiet_def split: if_splits option.splits)

lemma insert_preview_Inr:
  "insert_preview v w = (Inr u, w1) \<longleftrightarrow> ok_next w \<and>
     (\<forall>x \<in> set (previews (working w)). pv_id x \<noteq> pv_id v) \<and> preview_ok v \<and>
     w1 = (ticked w)\<lparr>working := (working w)\<lparr>previews := previews (working w) @ [v]\<rparr>\<rparr>"
  by (auto simp: insert_preview_def tx_run Let_def list_ex_iff split: if_splits)

lemma atomic_create_preview [atomic_rules]: "atomic (create_preview civil uuid actor req qr fp)"
  unfolding create_preview_def preview_for_def store_preview_def preview_credit_def
    preview_amounts_def insert_preview_def
  by (intro atomic_rules no_commit_rules)

text \<open>The row a preview commits, and what it was computed from.\<close>

definition preview_source ::
  "(string \<Rightarrow> int \<Rightarrow> int) \<Rightarrow> movement_preview_request \<Rightarrow> string \<Rightarrow> int \<Rightarrow>
   'a ledger_db_scheme \<Rightarrow> preview_row \<Rightarrow> preview \<Rightarrow> sucursal \<Rightarrow> programa \<Rightarrow> usuario \<Rightarrow> bool" where
  "preview_source civil req qr dnow d v a s p u \<longleftrightarrow>
     find_customer d qr = Some u \<and> pv_cliente v = u_id u \<and> pv_marca v = s_marca s \<and>
     pv_programa_tipo v = p_tipo p \<and>
     pv_before v = (case find_card d (u_id u) (s_marca s) of None \<Rightarrow> 0
                    | Some t \<Rightarrow> program_balance (p_tipo p) t) \<and>
     (mp_operation req = ''CANJE'' \<longrightarrow> (\<exists>bid b. mp_benefit req = Some bid \<and>
        find_benefit civil dnow d bid (p_id p) = Some b \<and> benefit_cost (p_tipo p) b = Some (pv_amount v) \<and>
        pr_benefit a = Some b \<and> pv_amount v \<le> pv_before v)) \<and>
     (mp_operation req = ''ACUMULACION'' \<longrightarrow>
        pv_amount v = (if p_tipo p = ''PUNTOS'' then the (mp_points req) else 1) \<and> pv_amount v \<le> 100000)"

definition previewed ::
  "(string \<Rightarrow> int \<Rightarrow> int) \<Rightarrow> string \<Rightarrow> int \<Rightarrow> movement_preview_request \<Rightarrow> string \<Rightarrow> int \<Rightarrow> int \<Rightarrow>
   'a ledger_db_scheme \<Rightarrow> 'a ledger_db_scheme \<Rightarrow> preview_row \<Rightarrow> preview \<Rightarrow> bool" where
  "previewed civil uuid actor req qr tnow dnow d d2 v a \<longleftrightarrow>
     d2 = d\<lparr>previews := previews d @ [v]\<rparr> \<and> preview_ok v \<and>
     (\<forall>x \<in> set (previews d). pv_id x \<noteq> uuid) \<and>
     (\<exists>s m p u. (s, m, p) \<in> set (branch_program_rows d actor (mp_branch req)) \<and>
        preview_source civil req qr dnow d v a s p u) \<and>
     pv_id v = uuid \<and> pv_actor v = actor \<and> pv_sucursal v = mp_branch req \<and>
     pv_operacion v = mp_operation req \<and> pv_beneficio v = mp_benefit req \<and> pv_qr_hash v = qr \<and>
     pv_expires v = tnow + 5 * minute_ns \<and> pv_consumed v = None \<and>
     pr_id a = uuid \<and> pr_before a = pv_before v \<and> pr_amount a = pv_amount v \<and>
     pr_after a = pv_after v \<and> pr_expires_at a = pv_expires v"

lemma store_preview_Inr:
  "store_preview v u b w = (Inr a, w2) \<Longrightarrow>
     (\<forall>x \<in> set (previews (working w)). pv_id x \<noteq> pv_id v) \<and>
     preview_ok v \<and> a = preview_answer (v\<lparr>pv_expires := app_now w + 5 * minute_ns\<rparr>) u b \<and>
     committed w2 = (working w)\<lparr>previews := previews (working w) @ [v\<lparr>pv_expires := app_now w + 5 * minute_ns\<rparr>]\<rparr>"
  by (auto simp: store_preview_def tx_run insert_preview_Inr Let_def preview_ok_def)

lemma preview_for_Inr:
  assumes run: "preview_for civil uuid actor req qr fp s p u crow w = (Inr a, w2)"
    and mem: "(s, m, p) \<in> set (branch_program_rows (working w) actor (mp_branch req))"
    and u: "find_customer (working w) qr = Some u" and crow: "crow = find_card (working w) (u_id u) (s_marca s)"
  shows "\<exists>v. previewed civil uuid actor req qr (app_now w) (db_now w) (working w) (committed w2) v a"
proof -
  let ?b = "case crow of None \<Rightarrow> 0 | Some t \<Rightarrow> program_balance (p_tipo p) t"
  from run obtain credit w3 amount after ben w4 where
    cr: "preview_credit (p_tipo p) req w = (Inr credit, w3)"
    and am: "preview_amounts civil req (p_tipo p) (p_id p) ?b credit w3 = (Inr (amount, after, ben), w4)"
    and st: "store_preview
       \<lparr>pv_id = uuid, pv_actor = actor, pv_sucursal = mp_branch req, pv_marca = s_marca s,
        pv_cliente = u_id u, pv_tarjeta = map_option t_id crow, pv_operacion = mp_operation req,
        pv_beneficio = mp_benefit req, pv_qr_hash = qr, pv_before = ?b,
        pv_amount = amount, pv_after = after, pv_fingerprint = fp, pv_expires = 0,
        pv_consumed = None, pv_programa_tipo = p_tipo p\<rparr> u ben w4 = (Inr a, w2)"
    by (auto simp: preview_for_def seq_Inr Let_def)
  note c = preview_credit_Inr [OF cr] and q = preview_amounts_Inr [OF am]
  have w4: "working w4 = working w" "app_now w4 = app_now w" "db_now w4 = db_now w" "w3 = w"
    using quietD [OF q(1)] c(1) by simp_all
  note sp = store_preview_Inr [OF st, unfolded w4]
  let ?v = "\<lparr>pv_id = uuid, pv_actor = actor, pv_sucursal = mp_branch req, pv_marca = s_marca s,
        pv_cliente = u_id u, pv_tarjeta = map_option t_id crow, pv_operacion = mp_operation req,
        pv_beneficio = mp_benefit req, pv_qr_hash = qr, pv_before = ?b,
        pv_amount = amount, pv_after = after, pv_fingerprint = fp, pv_expires = app_now w + 5 * minute_ns,
        pv_consumed = None, pv_programa_tipo = p_tipo p\<rparr>"
  have "previewed civil uuid actor req qr (app_now w) (db_now w) (working w) (committed w2) ?v a"
    unfolding previewed_def
  proof (intro conjI)
    have "preview_source civil req qr (db_now w) (working w) ?v a s p u"
      using u q(2) c(2-4) w4 crow sp by (auto simp: preview_source_def preview_answer_def)
    with mem show "\<exists>s m p u. (s, m, p) \<in> set (branch_program_rows (working w) actor (mp_branch req)) \<and>
        preview_source civil req qr (db_now w) (working w) ?v a s p u" by blast
  qed (use sp in \<open>auto simp: preview_answer_def preview_ok_def\<close>)
  then show ?thesis ..
qed

lemma create_preview_Inr:
  assumes "create_preview civil uuid actor req qr fp w = (Inr a, w2)"
  shows "\<exists>v. previewed civil uuid actor req qr (app_now w) (db_now w) (committed w) (committed w2) v a"
proof -
  let ?d = "committed w"
  from assms obtain s m p u w1 w5 where
    row: "first_row [(s, m, p). (s, m, p) \<leftarrow> branch_program_rows ?d actor (mp_branch req),
        list_ex (\<lambda>b. b_programa b = p_id p \<and> usable_benefit civil (db_now w) m b) (beneficios ?d)] = Some (s, m, p)"
    and u: "find_customer ?d qr = Some u"
    and pf: "preview_for civil uuid actor req qr fp s p u (find_card ?d (u_id u) (s_marca s)) w1 = (Inr a, w5)"
    and w1: "quiet (w\<lparr>working := ?d\<rparr>) w1" and w2: "w2 = w5\<lparr>working := committed w5\<rparr>"
    by (fastforce simp: quiet_def create_preview_def seq_Inr require_Inr query_Inr in_tx_Inr Let_def)
  have "(s, m, p) \<in> set (branch_program_rows ?d actor (mp_branch req))"
    using first_row_SomeD [OF row] by auto
  with preview_for_Inr [OF pf, of m] quietD [OF w1] u w2 show ?thesis by simp
qed

section \<open>The contract of a ledger operation\<close>

text \<open>
  What the service relies on when it calls a repository operation, alone or through \<open>retry\<close>:
  an error changes nothing, and a result keeps the ledger's invariant.
\<close>

locale ledger_operation =
  fixes oper :: "'i \<Rightarrow> ('a ledger_db_scheme, 'r) tx"
  assumes oper_atomic: "atomic (oper i)"
    and oper_inv: "oper i w = (Inr r, w1) \<Longrightarrow> ledger_inv (committed w) \<Longrightarrow> ledger_inv (committed w1)"
begin

lemma run_inv:
  assumes "oper i w = (r, w1)" and "ledger_inv (committed w)"
  shows "ledger_inv (committed w1)"
proof (cases r)
  case (Inl e)
  with assms(1) have "committed w1 = committed w" by (auto intro: atomicD [OF oper_atomic])
  with assms(2) show ?thesis by simp
next
  case (Inr a)
  with assms show ?thesis by (auto intro: oper_inv)
qed

lemma retry_run_inv:
  assumes "retry c (oper i) w = (r, w1)" and "ledger_inv (committed w)"
  shows "ledger_inv (committed w1)"
proof (cases r)
  case (Inl e)
  with assms(1) have "committed w1 = committed w" by (auto intro: atomicD [OF atomic_retry [OF oper_atomic]])
  with assms(2) show ?thesis by simp
next
  case (Inr a)
  with assms obtain w0 where w0: "oper i w0 = (Inr a, w1)" "committed w0 = committed w"
    using retry_Inr [OF oper_atomic] by blast
  with assms(2) show ?thesis by (intro oper_inv [OF w0(1)]) simp
qed

end

interpretation preview_op: ledger_operation
  "\<lambda>(civil, uuid, actor, req, qr, fp). create_preview civil uuid actor req qr fp"
proof unfold_locales
  fix i and w w1 :: "'a ledger_db_scheme world" and r
  assume run: "(case i of (civil, uuid, actor, req, qr, fp) \<Rightarrow> create_preview civil uuid actor req qr fp) w
      = (Inr r, w1)" and inv: "ledger_inv (committed w)"
  obtain civil uuid actor req qr fp where i: "i = (civil, uuid, actor, req, qr, fp)" by (cases i) auto
  from run i obtain v where "previewed civil uuid actor req qr (app_now w) (db_now w) (committed w) (committed w1) v r"
    using create_preview_Inr by fastforce
  then show "ledger_inv (committed w1)"
    using inv by (subst ledger_inv_cong [of _ "committed w"]) (auto simp: previewed_def)
qed (auto intro: atomic_rules split: prod.splits)

interpretation confirm_op: ledger_operation
  "\<lambda>(civil, op_id, ci, build). confirm_movement civil op_id ci build"
proof unfold_locales
  fix i and w w1 :: "'a ledger_db_scheme world" and r
  assume run: "(case i of (civil, op_id, ci, build) \<Rightarrow> confirm_movement civil op_id ci build) w
      = (Inr r, w1)" and inv: "ledger_inv (committed w)"
  obtain civil op_id ci build where "i = (civil, op_id, ci, build)" by (cases i) auto
  with run have "confirm_movement civil op_id ci build w = (Inr r, w1)" by simp
  from confirm_movement_Inr [OF this] show "ledger_inv (committed w1)"
  proof (elim disjE conjE exE)
    assume "committed w1 = committed w"
    with inv show ?thesis by simp
  next
    fix p g t h body
    let ?d0 = "(committed w)\<lparr>solicitudes := solicitudes (committed w) @ [pending_row (ci_key ci)
           (actor_scope (ci_actor ci)) (''CONFIRM_'' @ ci_operation ci) (ci_fingerprint ci)]\<rparr>"
    assume "confirmed ci (app_now w) (db_now w) ?d0 (committed w1) p g t h body"
    moreover have "ledger_inv ?d0" using inv ledger_inv_cong [of ?d0 "committed w"] by simp
    ultimately show ?thesis by (rule confirmed_inv [rotated])
  qed
qed (auto intro: atomic_rules split: prod.splits)

interpretation reverse_op: ledger_operation
  "\<lambda>(new_op, actor, brand, original). reverse_brand_movement new_op actor brand original"
proof unfold_locales
  fix i and w w1 :: "'a ledger_db_scheme world" and r
  assume run: "(case i of (new_op, actor, brand, original) \<Rightarrow>
      reverse_brand_movement new_op actor brand original) w = (Inr r, w1)"
    and inv: "ledger_inv (committed w)"
  obtain new_op actor brand original where "i = (new_op, actor, brand, original)" by (cases i) auto
  with run have "reverse_brand_movement new_op actor brand original w = (Inr r, w1)" by simp
  from reverse_Inr [OF this inv] inv show "ledger_inv (committed w1)"
    by (auto intro: reversed_inv)
qed (auto intro: atomic_rules split: prod.splits)

lemma confirm_run_inv:
  "confirm_movement civil op_id ci build w = (r, w1) \<Longrightarrow> ledger_inv (committed w) \<Longrightarrow> ledger_inv (committed w1)"
  using confirm_op.run_inv [of "(civil, op_id, ci, build)"] by simp

section \<open>Steps and reachable states\<close>

text \<open>
  The frame of the other requests. They change the catalogue; deleting a brand
  (\<^verbatim>\<open>internal/repository/commercial.go\<close>) deactivates its cards, and registrations and
  invitations (\<^verbatim>\<open>merchant_registration.go\<close>, \<^verbatim>\<open>staff.go\<close>) reserve idempotency keys of their own.
  None moves a balance, rewrites the history, reopens a consumed preview or touches the row of a
  key that exists. Two operations of the program do not stay in this frame, the retention job and
  the deletion of an account: they are no ledger steps but are modelled in Retention, and
  LedgerHistory says what survives them.
\<close>

definition card_money :: "tarjeta \<Rightarrow> int \<times> int \<times> int \<times> int \<times> int" where
  "card_money t = (t_id t, t_usuario t, t_marca t, t_sellos t, t_puntos t)"

definition unique_keys :: "'a idem_db_scheme \<Rightarrow> bool" where
  "unique_keys d \<longleftrightarrow> distinct (map so_key (solicitudes d))" \<comment> \<open>the primary key of the table\<close>

definition ledger_frame :: "'a ledger_db_scheme \<Rightarrow> 'a ledger_db_scheme \<Rightarrow> bool" where
  "ledger_frame d d' \<longleftrightarrow> map card_money (tarjetas d') = map card_money (tarjetas d) \<and>
     historiales d' = historiales d \<and> reversiones d' = reversiones d \<and>
     (\<forall>pid v. List.find (\<lambda>v. pv_id v = pid) (previews d) = Some v \<and> pv_consumed v \<noteq> None \<longrightarrow>
        List.find (\<lambda>v. pv_id v = pid) (previews d') = Some v) \<and>
     (\<forall>k s. find_solicitud k d = Some s \<longrightarrow> find_solicitud k d' = Some s) \<and> unique_keys d'"

lemma card_money_inv:
  assumes cards: "map card_money (tarjetas d') = map card_money (tarjetas d)"
    and same: "historiales d' = historiales d" "reversiones d' = reversiones d" and inv: "ledger_inv d"
  shows "ledger_inv d'"
proof -
  have ids: "map t_id (tarjetas d') = map t_id (tarjetas d)"
    using arg_cong [OF cards, of "map fst"] by (simp add: card_money_def comp_def)
  then have img: "t_id ` set (tarjetas d') = t_id ` set (tarjetas d)" by (metis set_map)
  have bal: "ledger_balance d' pts cid = ledger_balance d pts cid" for pts cid
    using same by (simp add: ledger_balance_def)
  have "ledger_keys d'"
    using inv same ids img by (simp add: ledger_inv_def ledger_keys_def)
  moreover have "card_balanced d' t" if t: "t \<in> set (tarjetas d')" for t
  proof -
    have "card_money t \<in> set (map card_money (tarjetas d))" using t cards by (metis image_eqI set_map)
    then obtain x where "x \<in> set (tarjetas d)" "card_money x = card_money t" by auto
    with inv show ?thesis by (auto simp: ledger_inv_def card_balanced_def bal card_money_def)
  qed
  ultimately show ?thesis by (simp add: ledger_inv_def)
qed

inductive ledger_step :: "'a ledger_db_scheme \<Rightarrow> 'a ledger_db_scheme \<Rightarrow> bool" where
  preview_step: "create_preview civil uuid actor req qr fp w = (r, w1) \<Longrightarrow>
     ledger_step (committed w) (committed w1)"
| confirm_step: "confirm_movement civil op_id ci build w = (r, w1) \<Longrightarrow>
     ledger_step (committed w) (committed w1)"
| reverse_step: "reverse_brand_movement new_op actor brand original w = (r, w1) \<Longrightarrow>
     ledger_step (committed w) (committed w1)"
| other_step: "ledger_frame d d' \<Longrightarrow> ledger_step d d'"

definition ledger_empty :: "'a ledger_db_scheme \<Rightarrow> bool" where
  "ledger_empty d \<longleftrightarrow> tarjetas d = [] \<and> historiales d = [] \<and> reversiones d = [] \<and> previews d = []
     \<and> solicitudes d = []"

inductive ledger_reachable :: "'a ledger_db_scheme \<Rightarrow> bool" where
  start: "ledger_empty d \<Longrightarrow> ledger_reachable d"
| step: "ledger_reachable d \<Longrightarrow> ledger_step d d' \<Longrightarrow> ledger_reachable d'"

lemma ledger_step_inv: "ledger_step d d' \<Longrightarrow> ledger_inv d \<Longrightarrow> ledger_inv d'"
proof (induction rule: ledger_step.induct)
  case (preview_step civil uuid actor req qr fp w r w1)
  then show ?case using preview_op.run_inv [of "(civil, uuid, actor, req, qr, fp)"] by simp
next
  case (confirm_step civil op_id ci build w r w1)
  then show ?case by (rule confirm_run_inv)
next
  case (reverse_step new_op actor brand original w r w1)
  then show ?case using reverse_op.run_inv [of "(new_op, actor, brand, original)"] by simp
next
  case (other_step d d')
  then show ?case using card_money_inv [of d' d] by (simp add: ledger_frame_def)
qed

lemma ledger_reachable_inv: "ledger_reachable d \<Longrightarrow> ledger_inv d"
proof (induction rule: ledger_reachable.induct)
  case (start d)
  then show ?case by (simp add: ledger_empty_def ledger_inv_def ledger_keys_def)
next
  case (step d d')
  then show ?case by (blast intro: ledger_step_inv)
qed

end
