(* ===== verification/LedgerTheorems.thy ===== *)
theory LedgerTheorems
  imports LedgerSteps
begin

text \<open>
  What no ledger step undoes (the answer of a key, the consumption of a preview), and two
  properties of the ledger: transactions that are all or nothing and one posting per preview.
  Each is applied to a small concrete database, which the other theories of the ledger share.
\<close>

section \<open>What no step undoes\<close>

lemma find_update_where_other:
  assumes "\<And>r. q r \<Longrightarrow> k (f r) = k r" and "\<And>r. q r \<Longrightarrow> k r \<noteq> x"
  shows "List.find (\<lambda>r. k r = x) (update_where q f rows) = List.find (\<lambda>r. k r = x) rows"
  using assms by (induction rows) auto

lemma find_append:
  "List.find p (xs @ ys) = (case List.find p xs of None \<Rightarrow> List.find p ys | Some x \<Rightarrow> Some x)"
  by (induction xs) auto

lemma find_update_where_same:
  assumes "\<And>r. k (f r) = k r"
  shows "List.find (\<lambda>r. k r = x) (update_where (\<lambda>r. k r = x) f rows) =
         map_option f (List.find (\<lambda>r. k r = x) rows)"
  using assms by (induction rows) auto

definition settled :: "'a ledger_db_scheme \<Rightarrow> string \<Rightarrow> solicitud \<Rightarrow> bool" where
  "settled d k s \<longleftrightarrow> find_solicitud k d = Some s \<and> so_estado s = ''COMPLETED'' \<and> so_status s \<noteq> None"

definition consumed :: "'a ledger_db_scheme \<Rightarrow> string \<Rightarrow> bool" where
  "consumed d pid \<longleftrightarrow> (\<exists>p. List.find (\<lambda>v. pv_id v = pid) (previews d) = Some p \<and> pv_consumed p \<noteq> None)"

lemma complete_row_key [simp]: "so_key (complete_row n st body s) = so_key s"
  by (simp add: complete_row_def)

text \<open>After a posting the key is settled with the answer, and the preview is consumed.\<close>

lemma confirmed_settles:
  assumes c: "confirmed ci tn dn (d\<lparr>solicitudes := solicitudes d @ [pending_row (ci_key ci) sc oper fp]\<rparr>) d2 p g t h body"
    and fresh: "find_solicitud (ci_key ci) d = None"
  shows "settled d2 (ci_key ci) (complete_row dn 201 body (pending_row (ci_key ci) sc oper fp))"
    and "consumed d2 (ci_preview ci)"
    and "k \<noteq> ci_key ci \<Longrightarrow> find_solicitud k d2 = find_solicitud k d"
    and "pid \<noteq> ci_preview ci \<Longrightarrow> List.find (\<lambda>v. pv_id v = pid) (previews d2) = List.find (\<lambda>v. pv_id v = pid) (previews d)"
proof -
  have s: "solicitudes d2 = update_where (\<lambda>s. so_key s = ci_key ci) (complete_row dn 201 body)
      (solicitudes d @ [pending_row (ci_key ci) sc oper fp])"
    and p: "previews d2 = update_where (\<lambda>v. pv_id v = ci_preview ci) (\<lambda>v. v\<lparr>pv_consumed := Some dn\<rparr>) (previews d)"
    "List.find (\<lambda>v. pv_id v = ci_preview ci) (previews d) = Some p"
    using c by (simp_all add: confirmed_def)
  show "settled d2 (ci_key ci) (complete_row dn 201 body (pending_row (ci_key ci) sc oper fp))"
    using fresh
    by (simp add: settled_def find_solicitud_def s find_update_where_same find_append)
       (simp add: complete_row_def pending_row_def)
  show "consumed d2 (ci_preview ci)"
    using p(2) by (simp add: consumed_def p(1) find_update_where_same)
  show "k \<noteq> ci_key ci \<Longrightarrow> find_solicitud k d2 = find_solicitud k d"
    unfolding find_solicitud_def s
    by (subst find_update_where_other) (auto simp: find_append pending_row_def split: option.splits)
  show "pid \<noteq> ci_preview ci \<Longrightarrow> List.find (\<lambda>v. pv_id v = pid) (previews d2) = List.find (\<lambda>v. pv_id v = pid) (previews d)"
    unfolding p(1) by (subst find_update_where_other) auto
qed

lemma confirm_run_cases:
  assumes "confirm_movement civil op_id ci build w = (r, w1)"
  obtains "committed w1 = committed w"
  | p g t h body tn dn where "find_solicitud (ci_key ci) (committed w) = None"
      "confirmed ci tn dn ((committed w)\<lparr>solicitudes := solicitudes (committed w) @ [pending_row (ci_key ci)
           (actor_scope (ci_actor ci)) (''CONFIRM_'' @ ci_operation ci) (ci_fingerprint ci)]\<rparr>)
         (committed w1) p g t h body"
proof (cases r)
  case (Inl e)
  with assms show ?thesis using that(1) by (auto intro: atomicD [OF atomic_confirm_movement])
next
  case (Inr a)
  from confirm_movement_Inr [OF assms [unfolded Inr]] show ?thesis using that by blast
qed

lemma reverse_frame:
  assumes "reverse_brand_movement new_op actor brand original w = (r, w1)" and "ledger_inv (committed w)"
  shows "previews (committed w1) = previews (committed w)" "solicitudes (committed w1) = solicitudes (committed w)"
proof (atomize (full), cases r)
  case (Inl e)
  with assms(1) have "committed w1 = committed w" by (auto intro: atomicD [OF atomic_reverse])
  then show "previews (committed w1) = previews (committed w) \<and> solicitudes (committed w1) = solicitudes (committed w)"
    by simp
next
  case (Inr a)
  from reverse_Inr [OF assms(1) [unfolded Inr] assms(2)]
  show "previews (committed w1) = previews (committed w) \<and> solicitudes (committed w1) = solicitudes (committed w)"
    by (auto simp: reversed_to_def)
qed

lemma preview_frame:
  assumes "create_preview civil uuid actor req qr fp w = (r, w1)"
  shows "solicitudes (committed w1) = solicitudes (committed w)"
    "\<exists>vs. previews (committed w1) = previews (committed w) @ vs"
proof (atomize (full), cases r)
  case (Inl e)
  with assms(1) have "committed w1 = committed w" by (auto intro: atomicD [OF atomic_create_preview])
  then show "solicitudes (committed w1) = solicitudes (committed w) \<and>
      (\<exists>vs. previews (committed w1) = previews (committed w) @ vs)" by simp
next
  case (Inr a)
  from create_preview_Inr [OF assms(1) [unfolded Inr]]
  show "solicitudes (committed w1) = solicitudes (committed w) \<and>
      (\<exists>vs. previews (committed w1) = previews (committed w) @ vs)"
    by (auto simp: previewed_def)
qed

lemma step_settled:
  assumes "ledger_step d d'" and "ledger_inv d" and "settled d k s"
  shows "settled d' k s"
  using assms
proof (induction rule: ledger_step.induct)
  case (preview_step civil uuid actor req qr fp w r w1)
  then show ?case using preview_frame(1) by (fastforce simp: settled_def find_solicitud_def)
next
  case (confirm_step civil op_id ci build w r w1)
  from confirm_step(1) show ?case
  proof (cases rule: confirm_run_cases)
    case (2 p g t h body tn dn)
    with confirm_step(3) have "k \<noteq> ci_key ci" by (auto simp: settled_def)
    from confirmed_settles(3) [OF 2(2,1) this] confirm_step(3) show ?thesis by (simp add: settled_def)
  qed (use confirm_step in simp)
next
  case (reverse_step new_op actor brand original w r w1)
  then show ?case using reverse_frame(2) by (fastforce simp: settled_def find_solicitud_def)
next
  case (other_step d d')
  then show ?case by (simp add: settled_def ledger_frame_def)
qed

lemma step_consumed:
  assumes "ledger_step d d'" and "ledger_inv d" and "consumed d pid"
  shows "consumed d' pid"
  using assms
proof (induction rule: ledger_step.induct)
  case (preview_step civil uuid actor req qr fp w r w1)
  then show ?case using preview_frame(2) [OF preview_step(1)] by (auto simp: consumed_def find_append)
next
  case (confirm_step civil op_id ci build w r w1)
  from confirm_step(1) show ?case
  proof (cases rule: confirm_run_cases)
    case (2 p g t h body tn dn)
    from confirmed_settles(2,4) [OF 2(2,1)] confirm_step(3) show ?thesis
      by (cases "pid = ci_preview ci") (auto simp: consumed_def)
  qed (use confirm_step in simp)
next
  case (reverse_step new_op actor brand original w r w1)
  then show ?case using reverse_frame(1) by (fastforce simp: consumed_def)
next
  case (other_step d d')
  then show ?case by (auto simp: consumed_def ledger_frame_def)
qed

lemma steps_keep:
  assumes "ledger_step\<^sup>*\<^sup>* d d'" and "ledger_inv d"
  shows "ledger_inv d' \<and> (settled d k s \<longrightarrow> settled d' k s) \<and> (consumed d pid \<longrightarrow> consumed d' pid)"
  using assms
proof (induction rule: rtranclp_induct)
  case (step y z)
  then show ?case using ledger_step_inv step_settled step_consumed by blast
qed simp

section \<open>A small database\<close>

text \<open>One points program with one branch, its owner, one customer and one benefit.\<close>

definition demo_db :: ledger_db where
  "demo_db =
     \<lparr>usuarios =
        [\<lparr>u_id = 1, u_email = ''op@x'', u_nombre = ''Ana'', u_apellido = None, u_tipo = ''PERSONAL_MARCA'',
          u_activo = True, u_deleted_at = None, u_qr_hash = None, u_codigo = None, u_verified_at = None\<rparr>,
         \<lparr>u_id = 2, u_email = ''cl@x'', u_nombre = ''Luz'', u_apellido = None, u_tipo = ''CLIENTE_FINAL'',
          u_activo = True, u_deleted_at = None, u_qr_hash = Some ''Q'', u_codigo = None, u_verified_at = None\<rparr>],
      marcas = [\<lparr>m_id = 10, m_nombre = ''Cafe'', m_activo = True, m_deleted_at = None, m_zona = ''UTC'',
          m_trial_started = None, m_trial_estimated = False\<rparr>],
      membresias = [\<lparr>mm_id = 1, mm_usuario = 1, mm_marca = 10, mm_rol = ''PROPIETARIO'', mm_activo = True, mm_version = 1\<rparr>],
      membresias_sucursales = [],
      sucursales = [\<lparr>s_id = 20, s_marca = 10, s_nombre = ''Centro'', s_activo = True, s_deleted_at = None,
          s_direccion = None, s_localidad = None, s_provincia = None, s_codigo_postal = None,
          s_latitud = None, s_longitud = None, s_principal = True, s_version = 1\<rparr>],
      programas = [\<lparr>p_id = 30, p_marca = 10, p_tipo = ''PUNTOS'', p_activo = True, p_created = 0\<rparr>],
      solicitudes = [],
      beneficios = [\<lparr>b_id = 40, b_programa = 30, b_nombre = ''Taza'', b_req_sellos = None,
          b_req_puntos = Some 50, b_activo = True, b_version = 1, b_deleted_at = None, b_expires_on = None\<rparr>],
      accesos = [\<lparr>a_marca = 10, a_activo = True\<rparr>],
      tarjetas = [], previews = [], historiales = [], reversiones = [],
      push_subscriptions = [(7, 2)], push_notifications = [], card_events = []\<rparr>"

definition demo_world :: "ledger_db world" where
  "demo_world = \<lparr>committed = demo_db, working = demo_db, faults = [], app_now = 0, db_now = 0,
     sent = []\<rparr>"

definition demo_request :: movement_preview_request where
  "demo_request = \<lparr>mp_operation = ''ACUMULACION'', mp_qr_token = ''q'', mp_customer_code = '''',
     mp_branch = 20, mp_benefit = None, mp_points = Some 80\<rparr>"

definition demo_previewed :: "ledger_db world" where
  "demo_previewed = snd (create_preview (\<lambda>_ _. 0) ''P1'' 1 demo_request ''Q'' ''fp'' demo_world)"

definition demo_confirm :: confirm_input where
  "demo_confirm = \<lparr>ci_actor = 1, ci_key = ''K1'', ci_fingerprint = ''F'', ci_preview = ''P1'',
     ci_qr_hash = ''Q'', ci_branch = 20, ci_benefit = None, ci_operation = ''ACUMULACION''\<rparr>"

definition demo_build :: "movement \<Rightarrow> err + string" where
  "demo_build mv = Inr ''body''"

definition demo_confirmed :: "ledger_db world" where
  "demo_confirmed = snd (confirm_movement (\<lambda>_ _. 0) ''O1'' demo_confirm demo_build demo_previewed)"

lemma demo_confirmed_run:
  "confirm_movement (\<lambda>_ _. 0) ''O1'' demo_confirm demo_build demo_previewed =
     (Inr \<lparr>ir_status = 201, ir_body = ''body'', ir_replayed = False\<rparr>, demo_confirmed)"
proof -
  have "fst (confirm_movement (\<lambda>_ _. 0) ''O1'' demo_confirm demo_build demo_previewed) =
     Inr \<lparr>ir_status = 201, ir_body = ''body'', ir_replayed = False\<rparr>" by code_simp
  then show ?thesis by (simp add: demo_confirmed_def prod_eq_iff)
qed

lemma demo_reachable: "ledger_reachable (committed demo_previewed)" "ledger_reachable (committed demo_confirmed)"
proof -
  have "ledger_reachable (committed demo_world)"
    by (rule ledger_reachable.start) (simp add: ledger_empty_def demo_world_def demo_db_def)
  then show pre: "ledger_reachable (committed demo_previewed)"
    unfolding demo_previewed_def
    by (rule ledger_reachable.step) (rule ledger_step.preview_step [OF surjective_pairing])
  show "ledger_reachable (committed demo_confirmed)"
    by (rule ledger_reachable.step [OF pre]) (rule ledger_step.confirm_step [OF demo_confirmed_run])
qed

lemma demo_confirmed_card:
  "map t_id (tarjetas (committed demo_confirmed)) = [1]"
  "map t_puntos (tarjetas (committed demo_confirmed)) = [80]"
  by code_simp+

section \<open>All or nothing\<close>

text \<open>
  C6. Whatever statement fails, the commit included, and however often the service retries, a
  preview, a confirmation or a reversal that ends in an error leaves the committed database
  as it was.
\<close>

theorem movement_all_or_nothing:
  "(retry c (confirm_movement civil op_id ci build) w = (Inl e, w1) \<longrightarrow> committed w1 = committed w) \<and>
   (create_preview civil uuid actor req qr fp v = (Inl e, v1) \<longrightarrow> committed v1 = committed v) \<and>
   (reverse_brand_movement new_op actor brand original x = (Inl e, x1) \<longrightarrow> committed x1 = committed x)"
  by (auto intro: atomicD [OF atomic_retry [OF atomic_confirm_movement]] atomicD [OF atomic_create_preview]
      atomicD [OF atomic_reverse])

text \<open>The connection is lost at the commit.\<close>

definition demo_faulty :: "ledger_db world" where
  "demo_faulty = demo_previewed\<lparr>faults := replicate 15 None @ [Some (Other_pg ''08006'')]\<rparr>"

theorem movement_all_or_nothing_witness:
  "committed (snd (retry (\<lambda>_. False) (confirm_movement (\<lambda>_ _. 0) ''O1'' demo_confirm demo_build) demo_faulty))
     = committed demo_faulty"
proof -
  let ?run = "retry (\<lambda>_. False) (confirm_movement (\<lambda>_ _. 0) ''O1'' demo_confirm demo_build) demo_faulty"
  have "fst ?run = Inl (PgErr (Other_pg ''08006''))" by code_simp
  then have "?run = (Inl (PgErr (Other_pg ''08006'')), snd ?run)" by (simp add: prod_eq_iff)
  then show ?thesis by (rule movement_all_or_nothing [THEN conjunct1, THEN mp])
qed

section \<open>One posting per preview\<close>

text \<open>
  C5. A preview is confirmed at most once: after a confirmation that posted, a confirmation of
  the same preview under any other idempotency key changes nothing, whatever ledger steps
  happened in between and whatever it answers.
\<close>

theorem preview_confirmed_once:
  assumes inv: "ledger_inv (committed w)"
    and first: "confirm_movement civil op_id ci build w = (Inr r, w1)" "\<not> ir_replayed r"
    and between: "ledger_step\<^sup>*\<^sup>* (committed w1) (committed w2)"
    and again: "confirm_movement civil' op_id' ci' build' w2 = (r', w3)" "ci_preview ci' = ci_preview ci"
  shows "committed w3 = committed w2"
proof -
  from confirm_movement_Inr [OF first(1)] first(2) obtain p g t h body where
    fresh: "find_solicitud (ci_key ci) (committed w) = None"
    and c: "confirmed ci (app_now w) (db_now w)
         ((committed w)\<lparr>solicitudes := solicitudes (committed w) @ [pending_row (ci_key ci)
           (actor_scope (ci_actor ci)) (''CONFIRM_'' @ ci_operation ci) (ci_fingerprint ci)]\<rparr>)
         (committed w1) p g t h body" by auto
  have inv1: "ledger_inv (committed w1)"
    by (rule confirm_run_inv [OF first(1) inv])
  have "consumed (committed w2) (ci_preview ci)"
    using steps_keep [OF between inv1] confirmed_settles(2) [OF c fresh] by blast
  with again show ?thesis
    by (cases rule: confirm_run_cases) (auto simp: consumed_def confirmed_def)
qed

theorem preview_confirmed_once_witness:
  "committed (snd (confirm_movement (\<lambda>_ _. 0) ''O2'' (demo_confirm\<lparr>ci_key := ''K2''\<rparr>) demo_build demo_confirmed))
     = committed demo_confirmed"
  by (rule preview_confirmed_once [OF _ demo_confirmed_run _ rtranclp.rtrancl_refl surjective_pairing])
     (simp_all add: ledger_reachable_inv [OF demo_reachable(1)])

end
