(* ===== verification/LedgerEffects.thy ===== *)
theory LedgerEffects
  imports LedgerTheorems
begin

text \<open>
  What each operation of the ledger does when it succeeds: that a live preview is
  confirmed, the entry a confirmation posts, the
  amounts a preview may carry, the compensation of a reversal, and the refusal of an
  idempotency key that was used for another request.
\<close>

section \<open>Confirmations\<close>

text \<open>Without failures a confirmation whose preview is live and unchanged goes through.\<close>

lemma claim_fresh_ok:
  assumes "faults w = []" "find_solicitud key (working w) = None"
  shows "claim_idempotency key scope oper fp w =
    (Inr None, w\<lparr>working := (working w)\<lparr>solicitudes := solicitudes (working w) @ [pending_row key scope oper fp]\<rparr>\<rparr>)"
proof -
  let ?w = "w\<lparr>working := (working w)\<lparr>solicitudes := solicitudes (working w) @ [pending_row key scope oper fp]\<rparr>\<rparr>"
  have "insert_solicitud (pending_row key scope oper fp) w = (Inr True, ?w)"
    using assms by (simp add: insert_solicitud_Inr ticked_no_faults pending_row_def)
  moreover have "query (\<lambda>_. ()) w = (Inr (), w)" "query (\<lambda>_. ()) ?w = (Inr (), ?w)"
    using assms(1) by (simp_all add: query_Inr ticked_no_faults)
  ultimately show ?thesis by (simp add: claim_idempotency_def seq_def catch_def ret_def)
qed

lemma confirm_checks_ok:
  assumes "faults w = []" "List.find (\<lambda>v. pv_id v = ci_preview ci) (previews (working w)) = Some p"
    and "pv_actor p = ci_actor ci" "pv_sucursal p = ci_branch ci" "pv_operacion p = ci_operation ci"
      "pv_qr_hash p = ci_qr_hash ci" "pv_beneficio p = ci_benefit ci" "pv_consumed p = None" "app_now w < pv_expires p"
    and "first_row [(s, m, g). (s, m, g) \<leftarrow> branch_program_rows (working w) (ci_actor ci) (ci_branch ci), m_id m = pv_marca p] = Some (s, m, g)"
      "p_tipo g = pv_programa_tipo p" "find_customer (working w) (ci_qr_hash ci) = Some u" "u_id u = pv_cliente p"
  shows "confirm_checks ci w = (Inr (p, s, m, g), w)"
  using assms by (simp add: confirm_checks_def tx_run ticked_no_faults)

lemma confirm_benefit_ok:
  assumes "faults w = []"
    and "ci_operation ci = ''CANJE'' \<Longrightarrow> \<exists>bid b. ci_benefit ci = Some bid \<and>
       find_benefit civil (db_now w) (working w) bid (p_id g) = Some b \<and> benefit_cost (p_tipo g) b = Some (pv_amount p)"
  shows "\<exists>ben. confirm_benefit civil ci p g w = (Inr ben, w)"
  using assms by (cases "ci_operation ci = ''CANJE''") (auto simp: confirm_benefit_def tx_run ticked_no_faults)

lemma confirm_writes_ok:
  assumes "faults w = []" and ok: "historial_ok (ledger_entry op_id ci p s m g cid balance ben)"
    and "list_all (\<lambda>h. h_operation_id h \<noteq> op_id) (historiales (working w))" and build: "\<And>mv. \<exists>body. build mv = Inr body"
  shows "\<exists>r w1. confirm_writes op_id ci build p s m g cid balance ben w = (Inr r, w1) \<and> \<not> ir_replayed r"
proof -
  let ?h = "ledger_entry op_id ci p s m g cid balance ben"
  have "0 \<le> h_after ?h" "h_operation_id ?h = op_id" using ok by (simp_all add: historial_ok_def ledger_entry_def)
  moreover obtain body where
    "build (movement_of (?h\<lparr>h_id := next_id (map h_id (historiales (working w))), h_occurred := db_now w\<rparr>)) = Inr body"
    using build by blast
  ultimately show ?thesis
    using assms(1-3)
    by (auto simp: confirm_writes_def Let_def tx_run update_balance_Inr insert_historial_Inr complete_idempotency_def
        notify_card_def enqueue_push_def consume_preview_def ticked_no_faults list_all_iff)
qed

lemma request_frame:
  "branch_program_rows (d\<lparr>solicitudes := ss\<rparr>) a b = branch_program_rows d a b"
  "find_customer (d\<lparr>solicitudes := ss\<rparr>) q = find_customer d q"
  "find_card (d\<lparr>solicitudes := ss\<rparr>) c b = find_card d c b"
  "find_benefit civil n (d\<lparr>solicitudes := ss\<rparr>) bid pid = find_benefit civil n d bid pid"
  by (simp_all add: branch_program_rows_def covers_branch_def find_customer_def find_card_def find_benefit_def)

lemma with_card_benefit: "find_benefit civil n (with_card c b d) bid pid = find_benefit civil n d bid pid"
  by (simp add: find_benefit_def with_card_def)

text \<open>The card a confirmation works on: the one there is, or for an accumulation a new one.\<close>

definition card_ready :: "confirm_input \<Rightarrow> preview_row \<Rightarrow> programa \<Rightarrow> 'a ledger_db_scheme \<Rightarrow> bool" where
  "card_ready ci p g d \<longleftrightarrow>
     (case find_card d (pv_cliente p) (pv_marca p) of
        Some t \<Rightarrow> program_balance (p_tipo g) t = pv_before p
      | None \<Rightarrow> ci_operation ci = ''ACUMULACION'' \<and> pv_before p = 0 \<and>
          list_all (\<lambda>t. t_usuario t \<noteq> pv_cliente p \<or> t_marca t \<noteq> pv_marca p) (tarjetas d))"

lemma card_ready_base:
  assumes "card_ready ci p g d"
  shows "\<exists>t. find_card (base_db ci p d) (pv_cliente p) (pv_marca p) = Some t \<and> program_balance (p_tipo g) t = pv_before p"
proof (cases "find_card d (pv_cliente p) (pv_marca p)")
  case None
  with assms have c: "ci_operation ci = ''ACUMULACION''" "pv_before p = 0"
    "list_all (\<lambda>t. t_usuario t \<noteq> pv_cliente p \<or> t_marca t \<noteq> pv_marca p) (tarjetas d)"
    by (simp_all add: card_ready_def)
  then have "\<not> list_ex (\<lambda>t. t_usuario t = pv_cliente p \<and> t_marca t = pv_marca p) (tarjetas d)"
    by (auto simp: list_all_iff list_ex_iff)
  with c(1,2) None show ?thesis
    by (auto simp: base_db_def with_card_def find_card_def find_append new_card_def program_balance_def)
next
  case (Some t)
  then have "t \<in> set (tarjetas d)" "t_usuario t = pv_cliente p" "t_marca t = pv_marca p"
    by (auto simp: find_card_def dest: find_member)
  then have "list_ex (\<lambda>t. t_usuario t = pv_cliente p \<and> t_marca t = pv_marca p) (tarjetas d)"
    by (auto simp: list_ex_iff)
  with Some assms show ?thesis by (simp add: base_db_def with_card_def card_ready_def)
qed

lemma confirm_fresh_ok:
  assumes nf: "faults w = []"
    and checks: "confirm_checks ci w = (Inr (p, s, m, g), w)"
    and card: "card_ready ci p g (working w)"
    and p: "preview_ok p" "pv_operacion p = ci_operation ci" "in_int64 (pv_after p)"
    and benefit: "ci_operation ci = ''CANJE'' \<Longrightarrow> \<exists>bid b. ci_benefit ci = Some bid \<and>
       find_benefit civil (db_now w) (working w) bid (p_id g) = Some b \<and> benefit_cost (p_tipo g) b = Some (pv_amount p)"
    and fresh: "list_all (\<lambda>h. h_operation_id h \<noteq> op_id) (historiales (working w))"
    and build: "\<And>mv. \<exists>body. build mv = Inr body"
  shows "\<exists>r w1. confirm_fresh civil op_id ci build w = (Inr r, w1) \<and> \<not> ir_replayed r"
proof -
  let ?w = "w\<lparr>working := base_db ci p (working w)\<rparr>"
  from card_ready_base [OF card] obtain t where
    t: "find_card (base_db ci p (working w)) (pv_cliente p) (pv_marca p) = Some t" "program_balance (p_tipo g) t = pv_before p"
    by blast
  have ensured: "(if ci_operation ci = ''ACUMULACION'' then ensure_card (pv_cliente p) (pv_marca p) else ret ()) w = (Inr (), ?w)"
    using nf by (simp add: ensure_card_Inr base_db_def ret_def ticked_no_faults)
  have "find_benefit civil n (base_db ci p d) bid pid = find_benefit civil n d bid pid" for n bid pid and d :: "'a ledger_db_scheme"
    by (simp add: base_db_def with_card_benefit)
  then obtain ben where ben: "confirm_benefit civil ci p g ?w = (Inr ben, ?w)"
    using confirm_benefit_ok [of ?w ci civil g p] nf benefit by auto
  have entry: "historial_ok (ledger_entry op_id ci p s m g (t_id t) (pv_before p) ben)"
    using p by (auto simp: historial_ok_def ledger_entry_def preview_ok_def add64_def sub64_def)
  have bal: "(ci_operation ci = ''CANJE'' \<and> pv_before p < pv_amount p) = False" using p by (auto simp: preview_ok_def)
  have "list_all (\<lambda>h. h_operation_id h \<noteq> op_id) (historiales (working ?w))" using fresh by (simp add: base_db_def)
  from confirm_writes_ok [OF _ entry this, where build = build] nf build obtain r w1 where
    wr: "confirm_writes op_id ci build p s m g (t_id t) (pv_before p) ben ?w = (Inr r, w1)" "\<not> ir_replayed r" by auto
  have "query (\<lambda>w. find_card (working w) (pv_cliente p) (pv_marca p)) ?w = (Inr (Some t), ?w)"
    using nf t(1) by (simp add: query_Inr ticked_no_faults)
  then have "confirm_fresh civil op_id ci build w = (Inr r, w1)"
    using checks ensured ben wr(1) t(2)
    by (simp only: confirm_fresh_def seq_def require_def reject_if_def ret_def Let_def bal prod.case sum.case option.case if_False refl not_True_eq_False)
  with wr(2) show ?thesis by blast
qed

lemma confirmation_posts:
  assumes inv: "ledger_inv (committed w)"
    and run: "confirm_movement civil op_id ci build w = (Inr r, w1)" "\<not> ir_replayed r"
  shows "\<exists>p h t. List.find (\<lambda>v. pv_id v = ci_preview ci) (previews (committed w)) = Some p \<and>
      pv_actor p = ci_actor ci \<and> pv_sucursal p = ci_branch ci \<and> pv_qr_hash p = ci_qr_hash ci \<and>
      pv_beneficio p = ci_benefit ci \<and> pv_consumed p = None \<and> app_now w < pv_expires p \<and>
      historiales (committed w1) = historiales (committed w) @ [h] \<and>
      build (movement_of h) = Inr (ir_body r) \<and> h_operation_id h = op_id \<and>
      h_operacion h = ci_operation ci \<and> h_cantidad h = pv_amount p \<and> h_before h = pv_before p \<and>
      h_after h = (if ci_operation ci = ''CANJE'' then pv_before p - pv_amount p
                   else pv_before p + pv_amount p) \<and>
      t \<in> set (tarjetas (committed w1)) \<and> t_usuario t = pv_cliente p \<and> t_marca t = pv_marca p \<and>
      program_balance (pv_programa_tipo p) t = h_after h \<and>
      (\<forall>x \<in> set (tarjetas (committed w)). t_id x \<noteq> t_id t \<longrightarrow> x \<in> set (tarjetas (committed w1)))"
proof -
  let ?d0 = "(committed w)\<lparr>solicitudes := solicitudes (committed w) @ [pending_row (ci_key ci)
           (actor_scope (ci_actor ci)) (''CONFIRM_'' @ ci_operation ci) (ci_fingerprint ci)]\<rparr>"
  from confirm_movement_Inr [OF run(1)] run(2) obtain p g t h body where
    h: "h_operation_id h = op_id" "build (movement_of h) = Inr body"
    and r: "r = \<lparr>ir_status = 201, ir_body = body, ir_replayed = False\<rparr>"
    and c: "confirmed ci (app_now w) (db_now w) ?d0 (committed w1) p g t h body" by blast
  have post: "posted (p_tipo g) h (base_db ci p ?d0) (committed w1)" and
    t: "find_card (base_db ci p ?d0) (pv_cliente p) (pv_marca p) = Some t" "h_tarjeta h = t_id t"
    using c unfolding confirmed_def by blast+
  have frame: "historiales (base_db ci p ?d0) = historiales (committed w)"
    "set (tarjetas (committed w)) \<subseteq> set (tarjetas (base_db ci p ?d0))"
    by (auto simp: base_db_def with_card_def)
  let ?t = "set_balance (p_tipo g) (h_after h) t"
  from t(1) have tm: "t \<in> set (tarjetas (base_db ci p ?d0))" "t_usuario t = pv_cliente p" "t_marca t = pv_marca p"
    by (auto simp: find_card_def find_Some_iff)
  have cards: "tarjetas (committed w1) =
      update_where (\<lambda>x. t_id x = t_id t) (set_balance (p_tipo g) (h_after h)) (tarjetas (base_db ci p ?d0))"
    using post t(2) by (simp add: posted_def)
  have "?t \<in> set (tarjetas (committed w1))"
    "\<forall>x \<in> set (tarjetas (committed w)). t_id x \<noteq> t_id ?t \<longrightarrow> x \<in> set (tarjetas (committed w1))"
    using tm(1) frame(2) by (auto simp: cards set_update_where)
  moreover have "h_after h = (if ci_operation ci = ''CANJE'' then pv_before p - pv_amount p
                   else pv_before p + pv_amount p)"
    using c post by (auto simp: confirmed_def posted_def historial_ok_def)
  moreover have "program_balance (pv_programa_tipo p) ?t = h_after h"
    using c by (simp add: confirmed_def program_balance_def)
  moreover have "historiales (committed w1) = historiales (committed w) @ [h]"
    using post frame(1) by (simp add: posted_def)
  ultimately show ?thesis
    using c h r tm by (intro exI [of _ p] exI [of _ h] exI [of _ ?t]) (auto simp: confirmed_def)
qed

lemma confirmation_succeeds:
  assumes nf: "faults w = []" and key: "find_solicitud (ci_key ci) (committed w) = None"
    and p: "List.find (\<lambda>v. pv_id v = ci_preview ci) (previews (committed w)) = Some p" "preview_ok p" "in_int64 (pv_after p)"
      "pv_actor p = ci_actor ci" "pv_sucursal p = ci_branch ci" "pv_operacion p = ci_operation ci"
      "pv_qr_hash p = ci_qr_hash ci" "pv_beneficio p = ci_benefit ci" "pv_consumed p = None" "app_now w < pv_expires p"
    and row: "first_row [(s, m, g). (s, m, g) \<leftarrow> branch_program_rows (committed w) (ci_actor ci) (ci_branch ci), m_id m = pv_marca p] = Some (s, m, g)"
      "p_tipo g = pv_programa_tipo p" "find_customer (committed w) (ci_qr_hash ci) = Some u" "u_id u = pv_cliente p"
    and card: "card_ready ci p g (committed w)"
    and benefit: "ci_operation ci = ''CANJE'' \<longrightarrow> (\<exists>bid b. ci_benefit ci = Some bid \<and>
       find_benefit civil (db_now w) (committed w) bid (p_id g) = Some b \<and> benefit_cost (p_tipo g) b = Some (pv_amount p))"
    and fresh: "list_all (\<lambda>h. h_operation_id h \<noteq> op_id) (historiales (committed w))"
    and build: "\<forall>mv. \<exists>body. build mv = Inr body"
  shows "\<exists>r2 w2. confirm_movement civil op_id ci build w = (Inr r2, w2) \<and> \<not> ir_replayed r2"
proof -
  let ?row = "pending_row (ci_key ci) (actor_scope (ci_actor ci)) (''CONFIRM_'' @ ci_operation ci) (ci_fingerprint ci)"
  let ?w = "w\<lparr>working := (committed w)\<lparr>solicitudes := solicitudes (committed w) @ [?row]\<rparr>\<rparr>"
  have checks: "confirm_checks ci ?w = (Inr (p, s, m, g), ?w)"
    by (rule confirm_checks_ok) (use nf p row in \<open>simp_all add: request_frame\<close>)
  have "card_ready ci p g (working ?w)" using card by (auto simp: card_ready_def request_frame split: option.splits)
  from confirm_fresh_ok [OF _ checks this p(2,6,3), of civil op_id build] nf benefit fresh build
  obtain r2 w2 where run: "confirm_fresh civil op_id ci build ?w = (Inr r2, w2)" "\<not> ir_replayed r2"
    by (auto simp: request_frame)
  have "claim_idempotency (ci_key ci) (actor_scope (ci_actor ci)) (''CONFIRM_'' @ ci_operation ci) (ci_fingerprint ci)
      (w\<lparr>working := committed w\<rparr>) = (Inr None, ?w)"
    using claim_fresh_ok [of "w\<lparr>working := committed w\<rparr>"] nf key by simp
  then have "confirm_movement civil op_id ci build w = (Inr r2, w2\<lparr>working := committed w2\<rparr>)"
    using nf run(1) by (simp add: confirm_movement_def in_tx_Inr ticked_no_faults seq_Inr)
  with run(2) show ?thesis by blast
qed

text \<open>
  C3. A confirmation that posts appends exactly one history entry, the one its answer is
  rendered from. The entry carries the amount and the balance of the preview, which was live,
  unexpired and of the same actor, branch, QR and benefit; the customer's card of the brand
  ends with the preview's balance plus the amount (a redemption: minus), and no other card
  changes. And it does post: when the key is new, no statement fails, the preview is live and
  matches the request, the actor still operates the branch, the card still has the preview's
  balance, a redemption's benefit still costs the preview's amount and the operation id is new,
  the confirmation succeeds, an accumulation as well as a redemption.
\<close>

theorem confirmation_effect:
  assumes inv: "ledger_inv (committed w)"
  shows "(confirm_movement civil op_id ci build w = (Inr r, w1) \<and> \<not> ir_replayed r \<longrightarrow>
    (\<exists>p h t. List.find (\<lambda>v. pv_id v = ci_preview ci) (previews (committed w)) = Some p \<and>
      pv_actor p = ci_actor ci \<and> pv_sucursal p = ci_branch ci \<and> pv_qr_hash p = ci_qr_hash ci \<and>
      pv_beneficio p = ci_benefit ci \<and> pv_consumed p = None \<and> app_now w < pv_expires p \<and>
      historiales (committed w1) = historiales (committed w) @ [h] \<and>
      build (movement_of h) = Inr (ir_body r) \<and> h_operation_id h = op_id \<and>
      h_operacion h = ci_operation ci \<and> h_cantidad h = pv_amount p \<and> h_before h = pv_before p \<and>
      h_after h = (if ci_operation ci = ''CANJE'' then pv_before p - pv_amount p
                   else pv_before p + pv_amount p) \<and>
      t \<in> set (tarjetas (committed w1)) \<and> t_usuario t = pv_cliente p \<and> t_marca t = pv_marca p \<and>
      program_balance (pv_programa_tipo p) t = h_after h \<and>
      (\<forall>x \<in> set (tarjetas (committed w)). t_id x \<noteq> t_id t \<longrightarrow> x \<in> set (tarjetas (committed w1))))) \<and>
   (faults w = [] \<and> find_solicitud (ci_key ci) (committed w) = None \<and>
    List.find (\<lambda>v. pv_id v = ci_preview ci) (previews (committed w)) = Some p \<and> preview_ok p \<and> in_int64 (pv_after p) \<and>
    pv_actor p = ci_actor ci \<and> pv_sucursal p = ci_branch ci \<and> pv_operacion p = ci_operation ci \<and>
    pv_qr_hash p = ci_qr_hash ci \<and> pv_beneficio p = ci_benefit ci \<and> pv_consumed p = None \<and> app_now w < pv_expires p \<and>
    first_row [(s, m, g). (s, m, g) \<leftarrow> branch_program_rows (committed w) (ci_actor ci) (ci_branch ci), m_id m = pv_marca p] = Some (s, m, g) \<and>
    p_tipo g = pv_programa_tipo p \<and> find_customer (committed w) (ci_qr_hash ci) = Some u \<and> u_id u = pv_cliente p \<and>
    card_ready ci p g (committed w) \<and>
    (ci_operation ci = ''CANJE'' \<longrightarrow> (\<exists>bid b. ci_benefit ci = Some bid \<and>
       find_benefit civil (db_now w) (committed w) bid (p_id g) = Some b \<and> benefit_cost (p_tipo g) b = Some (pv_amount p))) \<and>
    list_all (\<lambda>h. h_operation_id h \<noteq> op_id) (historiales (committed w)) \<and> (\<forall>mv. \<exists>body. build mv = Inr body) \<longrightarrow>
    (\<exists>r2 w2. confirm_movement civil op_id ci build w = (Inr r2, w2) \<and> \<not> ir_replayed r2))"
proof (intro conjI impI)
  assume "confirm_movement civil op_id ci build w = (Inr r, w1) \<and> \<not> ir_replayed r"
  then show "\<exists>p h t. List.find (\<lambda>v. pv_id v = ci_preview ci) (previews (committed w)) = Some p \<and>
      pv_actor p = ci_actor ci \<and> pv_sucursal p = ci_branch ci \<and> pv_qr_hash p = ci_qr_hash ci \<and>
      pv_beneficio p = ci_benefit ci \<and> pv_consumed p = None \<and> app_now w < pv_expires p \<and>
      historiales (committed w1) = historiales (committed w) @ [h] \<and>
      build (movement_of h) = Inr (ir_body r) \<and> h_operation_id h = op_id \<and>
      h_operacion h = ci_operation ci \<and> h_cantidad h = pv_amount p \<and> h_before h = pv_before p \<and>
      h_after h = (if ci_operation ci = ''CANJE'' then pv_before p - pv_amount p
                   else pv_before p + pv_amount p) \<and>
      t \<in> set (tarjetas (committed w1)) \<and> t_usuario t = pv_cliente p \<and> t_marca t = pv_marca p \<and>
      program_balance (pv_programa_tipo p) t = h_after h \<and>
      (\<forall>x \<in> set (tarjetas (committed w)). t_id x \<noteq> t_id t \<longrightarrow> x \<in> set (tarjetas (committed w1)))"
    by (elim conjE) (rule confirmation_posts [OF inv])
qed (elim conjE, rule confirmation_succeeds)

text \<open>
  Eighty points are posted; then fifty of them are redeemed, which the theorem lets through, and
  thirty are left.
\<close>

definition demo_redeem_request :: movement_preview_request where
  "demo_redeem_request = \<lparr>mp_operation = ''CANJE'', mp_qr_token = ''q'', mp_customer_code = '''',
     mp_branch = 20, mp_benefit = Some 40, mp_points = None\<rparr>"

definition demo_redeeming :: "ledger_db world" where
  "demo_redeeming = snd (create_preview (\<lambda>_ _. 0) ''P2'' 1 demo_redeem_request ''Q'' ''fp'' demo_confirmed)"

definition demo_redeem :: confirm_input where
  "demo_redeem = \<lparr>ci_actor = 1, ci_key = ''K2'', ci_fingerprint = ''F'', ci_preview = ''P2'',
     ci_qr_hash = ''Q'', ci_branch = 20, ci_benefit = Some 40, ci_operation = ''CANJE''\<rparr>"

definition demo_redeemed :: "ledger_db world" where
  "demo_redeemed = snd (confirm_movement (\<lambda>_ _. 0) ''O2'' demo_redeem demo_build demo_redeeming)"

lemma demo_redeeming_reachable: "ledger_reachable (committed demo_redeeming)"
  unfolding demo_redeeming_def
  by (rule ledger_reachable.step [OF demo_reachable(2)]) (rule ledger_step.preview_step [OF surjective_pairing])

text \<open>What the second half of the theorem asks of that world, as one predicate that evaluates.\<close>

definition redeem_ready :: "ledger_db world \<Rightarrow> bool" where
  "redeem_ready w \<longleftrightarrow> (let d = committed w; p = previews d ! 1; g = programas d ! 0; b = beneficios d ! 0 in
     faults w = [] \<and> find_solicitud (ci_key demo_redeem) d = None \<and>
     List.find (\<lambda>v. pv_id v = ci_preview demo_redeem) (previews d) = Some p \<and> pv_before p = 80 \<and> pv_amount p = 50 \<and>
     pv_cliente p = 2 \<and> pv_programa_tipo p = ''PUNTOS'' \<and> preview_ok p \<and> in_int64 (pv_after p) \<and>
     pv_actor p = ci_actor demo_redeem \<and> pv_sucursal p = ci_branch demo_redeem \<and> pv_operacion p = ci_operation demo_redeem \<and>
     pv_qr_hash p = ci_qr_hash demo_redeem \<and> pv_beneficio p = ci_benefit demo_redeem \<and> pv_consumed p = None \<and>
     app_now w < pv_expires p \<and>
     first_row [(s, m, g). (s, m, g) \<leftarrow> branch_program_rows d (ci_actor demo_redeem) (ci_branch demo_redeem), m_id m = pv_marca p]
       = Some (sucursales d ! 0, marcas d ! 0, g) \<and>
     p_tipo g = pv_programa_tipo p \<and> find_customer d (ci_qr_hash demo_redeem) = Some (usuarios d ! 1) \<and>
     u_id (usuarios d ! 1) = pv_cliente p \<and> card_ready demo_redeem p g d \<and> ci_benefit demo_redeem = Some 40 \<and>
     find_benefit (\<lambda>_ _. 0) (db_now w) d 40 (p_id g) = Some b \<and> benefit_cost (p_tipo g) b = Some (pv_amount p) \<and>
     list_all (\<lambda>h. h_operation_id h \<noteq> ''O2'') (historiales d))"

lemma demo_redeem_ready: "redeem_ready demo_redeeming"
  by code_simp

theorem confirmation_effect_witness:
  "\<exists>h t. historiales (committed demo_redeemed) = historiales (committed demo_redeeming) @ [h] \<and> h_operation_id h = ''O2'' \<and>
     h_before h = 80 \<and> h_cantidad h = 50 \<and> h_after h = 30 \<and> t \<in> set (tarjetas (committed demo_redeemed)) \<and>
     t_usuario t = 2 \<and> t_puntos t = 30"
proof -
  let ?d = "committed demo_redeeming"
  let ?run = "confirm_movement (\<lambda>_ _. 0) ''O2'' demo_redeem demo_build demo_redeeming"
  let ?p = "previews ?d ! 1"
  note effect = confirmation_effect [OF ledger_reachable_inv [OF demo_redeeming_reachable], where ci = demo_redeem
      and civil = "\<lambda>_ _. 0" and build = demo_build and op_id = "''O2''"]
  note ready = demo_redeem_ready [unfolded redeem_ready_def Let_def]
  have "\<forall>mv. \<exists>body. demo_build mv = Inr body" by (simp add: demo_build_def)
  with ready have "\<exists>r2 w2. ?run = (Inr r2, w2) \<and> \<not> ir_replayed r2"
    by (intro effect [THEN conjunct2, THEN mp, of ?p]) blast
  then obtain r where run: "?run = (Inr r, demo_redeemed)" "\<not> ir_replayed r" by (auto simp: demo_redeemed_def)
  from effect [THEN conjunct1, THEN mp, OF conjI [OF run]] obtain q h t where
    "List.find (\<lambda>v. pv_id v = ci_preview demo_redeem) (previews ?d) = Some q" and
    rest: "historiales (committed demo_redeemed) = historiales ?d @ [h]" "h_operation_id h = ''O2''" "h_before h = pv_before q"
      "h_cantidad h = pv_amount q" "h_after h = (if ci_operation demo_redeem = ''CANJE'' then pv_before q - pv_amount q else pv_before q + pv_amount q)"
      "t \<in> set (tarjetas (committed demo_redeemed))" "t_usuario t = pv_cliente q" "program_balance (pv_programa_tipo q) t = h_after h"
    by blast
  moreover have p: "List.find (\<lambda>v. pv_id v = ci_preview demo_redeem) (previews ?d) = Some ?p" "pv_before ?p = 80"
    "pv_amount ?p = 50" "pv_cliente ?p = 2" "pv_programa_tipo ?p = ''PUNTOS''" using ready by blast+
  ultimately have "q = ?p" by simp
  with rest p show ?thesis by (auto simp: demo_redeem_def program_balance_def)
qed

section \<open>Previews\<close>

text \<open>
  A preview moves no balance: it adds one unconsumed row that lives five minutes. The
  amount is positive, at most 100000 for an accumulation (1 outside a points program) and the
  benefit's requirement for a redemption, which the balance covers; the balance before is
  that of the customer's card, or 0 without one, and the balance after is exact.
\<close>

lemma preview_bounds:
  assumes run: "create_preview civil uuid actor req qr fp w = (Inr a, w1)"
  shows "\<exists>v. committed w1 = (committed w)\<lparr>previews := previews (committed w) @ [v]\<rparr> \<and>
      pv_id v = uuid \<and> pv_consumed v = None \<and> pv_expires v = app_now w + 5 * minute_ns \<and>
      pr_before a = pv_before v \<and> pr_amount a = pv_amount v \<and> pr_after a = pv_after v \<and>
      0 \<le> pv_before v \<and> 0 < pv_amount v \<and> 0 \<le> pv_after v \<and>
      (mp_operation req = ''ACUMULACION'' \<and> pv_amount v \<le> 100000 \<and> pv_after v = pv_before v + pv_amount v \<and>
         (pv_programa_tipo v \<noteq> ''PUNTOS'' \<longrightarrow> pv_amount v = 1) \<or>
       mp_operation req = ''CANJE'' \<and> pv_amount v \<le> pv_before v \<and> pv_after v = pv_before v - pv_amount v \<and>
         (\<exists>b. pr_benefit a = Some b \<and> benefit_cost (pv_programa_tipo v) b = Some (pv_amount v))) \<and>
      (\<exists>u. find_customer (committed w) qr = Some u \<and>
         pv_before v = (case find_card (committed w) (u_id u) (pv_marca v) of None \<Rightarrow> 0
                        | Some t \<Rightarrow> program_balance (pv_programa_tipo v) t))"
proof -
  from create_preview_Inr [OF run] obtain v where
    v: "previewed civil uuid actor req qr (app_now w) (db_now w) (committed w) (committed w1) v a" ..
  then obtain s p u where src: "preview_source civil req qr (db_now w) (committed w) v a s p u"
    by (auto simp: previewed_def)
  have row: "committed w1 = (committed w)\<lparr>previews := previews (committed w) @ [v]\<rparr>" "pv_id v = uuid"
    "pv_consumed v = None" "pv_expires v = app_now w + 5 * minute_ns" "pr_before a = pv_before v"
    "pr_amount a = pv_amount v" "pr_after a = pv_after v" and ok: "preview_ok v" "pv_operacion v = mp_operation req"
    using v unfolding previewed_def by blast+
  have bounds: "0 \<le> pv_before v" "0 < pv_amount v" "0 \<le> pv_after v" using ok(1) by (simp_all add: preview_ok_def)
  have kinds: "mp_operation req = ''ACUMULACION'' \<and> pv_after v = pv_before v + pv_amount v \<or>
      mp_operation req = ''CANJE'' \<and> pv_after v = pv_before v - pv_amount v"
    using ok by (auto simp: preview_ok_def)
  have pt: "pv_marca v = s_marca s" "pv_programa_tipo v = p_tipo p" using src by (simp_all add: preview_source_def)
  have "find_customer (committed w) qr = Some u" "pv_before v = (case find_card (committed w) (u_id u) (pv_marca v) of
      None \<Rightarrow> 0 | Some t \<Rightarrow> program_balance (pv_programa_tipo v) t)"
    "mp_operation req = ''CANJE'' \<Longrightarrow> pv_amount v \<le> pv_before v \<and>
       (\<exists>b. pr_benefit a = Some b \<and> benefit_cost (pv_programa_tipo v) b = Some (pv_amount v))"
    "mp_operation req = ''ACUMULACION'' \<Longrightarrow> pv_amount v \<le> 100000 \<and> (pv_programa_tipo v \<noteq> ''PUNTOS'' \<longrightarrow> pv_amount v = 1)"
    using src unfolding preview_source_def pt by (auto split: if_splits)
  with row bounds kinds show ?thesis by (intro exI [of _ v]) blast
qed

lemma preview_bounds_example:
  "\<exists>v. committed demo_previewed = (committed demo_world)\<lparr>previews := previews (committed demo_world) @ [v]\<rparr> \<and> pv_after v = pv_before v + pv_amount v"
proof -
  let ?run = "create_preview (\<lambda>_ _. 0) ''P1'' 1 demo_request ''Q'' ''fp'' demo_world"
  have "case fst ?run of Inr _ \<Rightarrow> True | Inl _ \<Rightarrow> False" by code_simp
  then obtain a where "?run = (Inr a, demo_previewed)"
    by (auto simp: demo_previewed_def prod_eq_iff split: sum.splits)
  from preview_bounds [OF this] show ?thesis by (auto simp: demo_request_def)
qed

section \<open>Reversals\<close>

lemma step_history:
  assumes "ledger_step d d'" and "ledger_inv d"
  shows "(\<exists>hs. historiales d' = historiales d @ hs) \<and> (\<exists>rs. reversiones d' = reversiones d @ rs)"
  using assms
proof (induction rule: ledger_step.induct)
  case (preview_step civil uuid actor req qr fp w r w1)
  show ?case
  proof (cases r)
    case (Inl e)
    with preview_step(1) have "committed w1 = committed w" by (auto intro: atomicD [OF atomic_create_preview])
    then show ?thesis by simp
  next
    case (Inr a)
    from create_preview_Inr [OF preview_step(1) [unfolded Inr]] show ?thesis by (auto simp: previewed_def)
  qed
next
  case (confirm_step civil op_id ci build w r w1)
  from confirm_step(1) show ?case
    by (cases rule: confirm_run_cases) (auto simp: confirmed_def posted_def base_db_def)
next
  case (reverse_step new_op actor brand original w r w1)
  show ?case
  proof (cases r)
    case (Inl e)
    with reverse_step(1) have "committed w1 = committed w" by (auto intro: atomicD [OF atomic_reverse])
    then show ?thesis by simp
  next
    case (Inr a)
    from reverse_Inr [OF reverse_step(1) [unfolded Inr] reverse_step(2)] show ?thesis
      by (auto simp: reversed_to_def)
  qed
qed (simp add: ledger_frame_def)

lemma steps_history:
  assumes "ledger_step\<^sup>*\<^sup>* d d'" and "ledger_inv d"
  shows "(\<exists>hs. historiales d' = historiales d @ hs) \<and> (\<exists>rs. reversiones d' = reversiones d @ rs) \<and> ledger_inv d'"
  using assms
proof (induction rule: rtranclp_induct)
  case (step y z)
  then obtain hs rs where "historiales y = historiales d @ hs" "reversiones y = reversiones d @ rs" "ledger_inv y"
    by blast
  with step_history [OF step(2)] ledger_step_inv [OF step(2)] show ?case by auto
qed simp

text \<open>The answer of a reversal is the row its entry now has.\<close>

lemma reverse_answer:
  assumes run: "reverse_brand_movement new_op actor brand original w = (Inr a, w1)"
    and inv: "ledger_inv (committed w)"
  shows "\<exists>h t r. h \<in> set (historiales (committed w)) \<and> h_operation_id h = original \<and> h_marca h = brand \<and>
    t \<in> set (tarjetas (committed w)) \<and> t_id t = h_tarjeta h \<and>
    List.find (\<lambda>r. rv_movimiento r = h_id h) (reversiones (committed w1)) = Some r \<and> a = reversal_of r \<and>
    (List.find (\<lambda>r. rv_movimiento r = h_id h) (reversiones (committed w)) = Some r \<and> committed w1 = committed w \<or>
     List.find (\<lambda>r. rv_movimiento r = h_id h) (reversiones (committed w)) = None \<and>
     reversed_to (committed w) (committed w1) h t r \<and> rv_operation_id r = new_op \<and> rv_operador r = actor \<and>
     rv_occurred r = db_now w)"
proof -
  let ?d = "committed w"
  from run obtain h t w2 w3 where row: "first_row (reversible_rows ?d actor brand original) = Some (h, t)"
    and rest: "(case List.find (\<lambda>r. rv_movimiento r = h_id h) (reversiones ?d) of
         Some r \<Rightarrow> seq (catch commit (\<lambda>e. throw (normalize e))) (\<lambda>_. ret (reversal_of r))
       | None \<Rightarrow> reverse_fresh new_op actor h t (program_balance (h_programa_tipo h) t)) w2 = (Inr a, w3)"
    and w2: "working w2 = ?d" "db_now w2 = db_now w" and w3: "committed w1 = committed w3"
    by (auto simp: reverse_brand_movement_def seq_Inr require_Inr query_Inr in_tx_Inr Let_def)
  from first_row_SomeD [OF row] have ht: "h \<in> set (historiales ?d)" "t \<in> set (tarjetas ?d)"
    "t_id t = h_tarjeta h" "h_operation_id h = original" "h_marca h = brand"
    by (auto simp: reversible_rows_def)
  show ?thesis
  proof (cases "List.find (\<lambda>r. rv_movimiento r = h_id h) (reversiones ?d)")
    case None
    with rest have "reverse_fresh new_op actor h t (program_balance (h_programa_tipo h) t) w2 = (Inr a, w3)"
      by simp
    from reverse_fresh_Inr [OF this] inv ht w2 w3 obtain r where
      r: "reversed_to ?d (committed w1) h t r" "a = reversal_of r" "rv_operation_id r = new_op" "rv_operador r = actor"
        "rv_occurred r = db_now w" by auto
    moreover from r(1) None have "List.find (\<lambda>r. rv_movimiento r = h_id h) (reversiones (committed w1)) = Some r"
      by (simp add: reversed_to_def find_append)
    ultimately show ?thesis using ht None by blast
  next
    case (Some r)
    with rest w2 w3 have "a = reversal_of r" "committed w1 = ?d" by (auto simp: tx_run)
    with Some ht show ?thesis by auto
  qed
qed

text \<open>What the first reversal of an entry writes.\<close>

definition compensated :: "historial \<Rightarrow> int \<Rightarrow> int" where
  "compensated h balance = (if h_operacion h = ''ACUMULACION'' then balance - h_cantidad h else balance + h_cantidad h)"

lemma reversed_to_compensates:
  assumes inv: "ledger_inv d" and rev: "reversed_to d d' h t r"
  shows "rv_after r = compensated h (program_balance (h_programa_tipo h) t)"
proof -
  have "historial_ok h" using assms by (simp add: ledger_inv_def ledger_keys_def reversed_to_def)
  then show ?thesis using rev by (auto simp: reversed_to_def compensated_def historial_ok_def signed_amount_def)
qed

lemma reversal_effect:
  assumes run: "reverse_brand_movement new_op actor brand original w = (Inr a, w1)"
    and inv: "ledger_inv (committed w)"
  shows "\<exists>h t. h \<in> set (historiales (committed w)) \<and> h_operation_id h = original \<and> h_marca h = brand \<and>
      t \<in> set (tarjetas (committed w)) \<and> t_id t = h_tarjeta h \<and>
      (if list_ex (\<lambda>r. rv_movimiento r = h_id h) (reversiones (committed w)) then committed w1 = committed w
       else let old = (if h_programa_tipo h = ''PUNTOS'' then t_puntos t else t_sellos t);
              new = (if h_operacion h = ''ACUMULACION'' then old - h_cantidad h else old + h_cantidad h) in
         reversiones (committed w1) = reversiones (committed w) @
           [\<lparr>rv_operation_id = new_op, rv_movimiento = h_id h, rv_operador = actor, rv_before = old, rv_after = new,
             rv_occurred = db_now w\<rparr>] \<and>
         a = \<lparr>mr_operation_id = new_op, mr_movement = h_id h, mr_before = old, mr_after = new, mr_occurred = db_now w\<rparr> \<and>
         0 \<le> new \<and>
         (\<exists>t' \<in> set (tarjetas (committed w1)). t_id t' = t_id t \<and>
            t_puntos t' = (if h_programa_tipo h = ''PUNTOS'' then new else t_puntos t) \<and>
            t_sellos t' = (if h_programa_tipo h = ''PUNTOS'' then t_sellos t else new)) \<and>
         (\<forall>x \<in> set (tarjetas (committed w)). t_id x \<noteq> t_id t \<longrightarrow> x \<in> set (tarjetas (committed w1))))"
proof -
  from reverse_answer [OF run inv] obtain h t r where
    ht: "h \<in> set (historiales (committed w))" "h_operation_id h = original" "h_marca h = brand"
      "t \<in> set (tarjetas (committed w))" "t_id t = h_tarjeta h" and a: "a = reversal_of r" and
    alt: "List.find (\<lambda>r. rv_movimiento r = h_id h) (reversiones (committed w)) = Some r \<and> committed w1 = committed w \<or>
     List.find (\<lambda>r. rv_movimiento r = h_id h) (reversiones (committed w)) = None \<and>
     reversed_to (committed w) (committed w1) h t r \<and> rv_operation_id r = new_op \<and> rv_operador r = actor \<and>
     rv_occurred r = db_now w" by blast
  show ?thesis
  proof (cases "list_ex (\<lambda>r. rv_movimiento r = h_id h) (reversiones (committed w))")
    case True
    then have "List.find (\<lambda>r. rv_movimiento r = h_id h) (reversiones (committed w)) \<noteq> None"
      by (auto simp: find_None_iff list_ex_iff)
    with alt have "committed w1 = committed w" by auto
    with True ht show ?thesis by (intro exI [of _ h] exI [of _ t]) simp
  next
    case False
    then have "List.find (\<lambda>r. rv_movimiento r = h_id h) (reversiones (committed w)) = None"
      by (auto simp: find_None_iff list_ex_iff)
    with alt have rev: "reversed_to (committed w) (committed w1) h t r" and
      row: "rv_operation_id r = new_op" "rv_operador r = actor" "rv_occurred r = db_now w" by auto
    let ?old = "program_balance (h_programa_tipo h) t"
    let ?t = "set_balance (h_programa_tipo h) (compensated h ?old) t"
    note new = reversed_to_compensates [OF inv rev]
    have r: "r = \<lparr>rv_operation_id = new_op, rv_movimiento = h_id h, rv_operador = actor, rv_before = ?old,
        rv_after = compensated h ?old, rv_occurred = db_now w\<rparr>"
      using rev row new by (intro reversion.equality) (simp_all add: reversed_to_def)
    have cards: "tarjetas (committed w1) = update_where (\<lambda>x. t_id x = t_id t) (set_balance (h_programa_tipo h) (compensated h ?old)) (tarjetas (committed w))"
      "reversiones (committed w1) = reversiones (committed w) @ [r]" "0 \<le> compensated h ?old"
      using rev new by (simp_all add: reversed_to_def)
    have "?t \<in> set (tarjetas (committed w1))"
      "\<forall>x \<in> set (tarjetas (committed w)). t_id x \<noteq> t_id t \<longrightarrow> x \<in> set (tarjetas (committed w1))"
      using ht(4) by (auto simp: cards set_update_where)
    moreover have "t_puntos ?t = (if h_programa_tipo h = ''PUNTOS'' then compensated h ?old else t_puntos t)"
      "t_sellos ?t = (if h_programa_tipo h = ''PUNTOS'' then t_sellos t else compensated h ?old)"
      by simp_all
    moreover have "a = \<lparr>mr_operation_id = new_op, mr_movement = h_id h, mr_before = ?old, mr_after = compensated h ?old,
        mr_occurred = db_now w\<rparr>" by (simp add: a reversal_of_def r)
    moreover have "t_id ?t = t_id t" by simp
    ultimately have "reversiones (committed w1) = reversiones (committed w) @ [r] \<and>
         a = \<lparr>mr_operation_id = new_op, mr_movement = h_id h, mr_before = ?old, mr_after = compensated h ?old, mr_occurred = db_now w\<rparr> \<and>
         0 \<le> compensated h ?old \<and>
         (\<exists>t' \<in> set (tarjetas (committed w1)). t_id t' = t_id t \<and>
            t_puntos t' = (if h_programa_tipo h = ''PUNTOS'' then compensated h ?old else t_puntos t) \<and>
            t_sellos t' = (if h_programa_tipo h = ''PUNTOS'' then t_sellos t else compensated h ?old)) \<and>
         (\<forall>x \<in> set (tarjetas (committed w)). t_id x \<noteq> t_id t \<longrightarrow> x \<in> set (tarjetas (committed w1)))"
      using cards(2,3) by blast
    with False ht show ?thesis
      unfolding r compensated_def program_balance_def by (intro exI [of _ h] exI [of _ t]) (simp only: Let_def if_False simp_thms, blast)
  qed
qed

text \<open>
  C4. A reversal compensates an entry exactly once. The first one finds the entry of that
  operation id in the brand and the card it belongs to, gives the balance of the entry's program
  back without the entry's amount (with it, for a redemption), leaves every other balance and
  every history entry in place and appends one row with the balances before and after, which it
  answers; for an entry already reversed it changes nothing. Every later reversal of that
  operation id, by anyone and whatever ledger steps happened in between, that answers gives the
  same answer and changes nothing.
\<close>

theorem reversal_once:
  assumes inv: "ledger_inv (committed w)"
    and first: "reverse_brand_movement new_op actor brand original w = (Inr a, w1)"
  shows "historiales (committed w1) = historiales (committed w) \<and>
    (\<exists>h t. h \<in> set (historiales (committed w)) \<and> h_operation_id h = original \<and> h_marca h = brand \<and>
      t \<in> set (tarjetas (committed w)) \<and> t_id t = h_tarjeta h \<and>
      (if list_ex (\<lambda>r. rv_movimiento r = h_id h) (reversiones (committed w)) then committed w1 = committed w
       else let old = (if h_programa_tipo h = ''PUNTOS'' then t_puntos t else t_sellos t);
              new = (if h_operacion h = ''ACUMULACION'' then old - h_cantidad h else old + h_cantidad h) in
         reversiones (committed w1) = reversiones (committed w) @
           [\<lparr>rv_operation_id = new_op, rv_movimiento = h_id h, rv_operador = actor, rv_before = old, rv_after = new,
             rv_occurred = db_now w\<rparr>] \<and>
         a = \<lparr>mr_operation_id = new_op, mr_movement = h_id h, mr_before = old, mr_after = new, mr_occurred = db_now w\<rparr> \<and>
         0 \<le> new \<and>
         (\<exists>t' \<in> set (tarjetas (committed w1)). t_id t' = t_id t \<and>
            t_puntos t' = (if h_programa_tipo h = ''PUNTOS'' then new else t_puntos t) \<and>
            t_sellos t' = (if h_programa_tipo h = ''PUNTOS'' then t_sellos t else new)) \<and>
         (\<forall>x \<in> set (tarjetas (committed w)). t_id x \<noteq> t_id t \<longrightarrow> x \<in> set (tarjetas (committed w1))))) \<and>
    (ledger_step\<^sup>*\<^sup>* (committed w1) (committed w2) \<and>
     reverse_brand_movement new_op' actor' brand' original w2 = (Inr b, w3) \<longrightarrow> committed w3 = committed w2 \<and> b = a)"
proof (intro conjI impI)
  from reverse_answer [OF first inv] obtain h r where
    h: "h \<in> set (historiales (committed w))" "h_operation_id h = original"
    and r: "List.find (\<lambda>r. rv_movimiento r = h_id h) (reversiones (committed w1)) = Some r" "a = reversal_of r"
    and d: "committed w1 = committed w \<or> (\<exists>t. reversed_to (committed w) (committed w1) h t r)" by blast
  show hist: "historiales (committed w1) = historiales (committed w)" using d by (auto simp: reversed_to_def)
  assume "ledger_step\<^sup>*\<^sup>* (committed w1) (committed w2) \<and>
     reverse_brand_movement new_op' actor' brand' original w2 = (Inr b, w3)"
  then have between: "ledger_step\<^sup>*\<^sup>* (committed w1) (committed w2)"
    and again: "reverse_brand_movement new_op' actor' brand' original w2 = (Inr b, w3)" by blast+
  have inv1: "ledger_inv (committed w1)"
    using reverse_op.run_inv [of "(new_op, actor, brand, original)"] first inv by simp
  from steps_history [OF between inv1] obtain hs rs where
    later: "historiales (committed w2) = historiales (committed w1) @ hs"
      "reversiones (committed w2) = reversiones (committed w1) @ rs" "ledger_inv (committed w2)" by blast
  from reverse_answer [OF again later(3)] obtain h' r' where
    h': "h' \<in> set (historiales (committed w2))" "h_operation_id h' = original"
    and r': "List.find (\<lambda>r. rv_movimiento r = h_id h') (reversiones (committed w3)) = Some r'" "b = reversal_of r'"
    and d': "List.find (\<lambda>r. rv_movimiento r = h_id h') (reversiones (committed w2)) = Some r' \<and> committed w3 = committed w2 \<or>
      List.find (\<lambda>r. rv_movimiento r = h_id h') (reversiones (committed w2)) = None" by blast
  have "h \<in> set (historiales (committed w2))" using h(1) hist later(1) by simp
  moreover have "distinct (map h_operation_id (historiales (committed w2)))"
    using later(3) by (simp add: ledger_inv_def ledger_keys_def)
  ultimately have "h' = h" using h'(1,2) h(2) by (metis distinct_key_unique)
  with r(1) later(2) have "List.find (\<lambda>r. rv_movimiento r = h_id h') (reversiones (committed w2)) = Some r"
    by (simp add: find_append)
  with d' r(2) r'(2) show "committed w3 = committed w2" "b = a" by auto
qed (rule reversal_effect [OF first inv])

definition demo_reversed :: "ledger_db world" where
  "demo_reversed = snd (reverse_brand_movement ''R1'' 1 10 ''O1'' demo_confirmed)"

theorem reversal_once_witness:
  "committed (snd (reverse_brand_movement ''R2'' 1 10 ''O1'' demo_reversed)) = committed demo_reversed \<and>
   (\<exists>r t. reversiones (committed demo_reversed) = [r] \<and> rv_before r = 80 \<and> rv_after r = 0 \<and>
      t \<in> set (tarjetas (committed demo_reversed)) \<and> t_puntos t = 0)"
proof -
  let ?run = "reverse_brand_movement ''R1'' 1 10 ''O1'' demo_confirmed"
  let ?again = "reverse_brand_movement ''R2'' 1 10 ''O1'' demo_reversed"
  have "case fst ?run of Inr _ \<Rightarrow> True | Inl _ \<Rightarrow> False" "case fst ?again of Inr _ \<Rightarrow> True | Inl _ \<Rightarrow> False"
    by code_simp+
  then obtain a b where run: "?run = (Inr a, demo_reversed)" "?again = (Inr b, snd ?again)"
    by (auto simp: demo_reversed_def prod_eq_iff split: sum.splits)
  note once = reversal_once [OF ledger_reachable_inv [OF demo_reachable(2)] run(1)]
  have same: "committed (snd ?again) = committed demo_reversed"
    using once [THEN conjunct2, THEN conjunct2, THEN mp, OF conjI [OF rtranclp.rtrancl_refl run(2)]] by blast
  have old: "reversiones (committed demo_confirmed) = []" "map t_puntos (tarjetas (committed demo_confirmed)) = [80]"
    "map h_cantidad (historiales (committed demo_confirmed)) = [80]"
    "list_all (\<lambda>h. h_programa_tipo h = ''PUNTOS'' \<and> h_operacion h = ''ACUMULACION'') (historiales (committed demo_confirmed))"
    by code_simp+
  obtain x y where xy: "tarjetas (committed demo_confirmed) = [x]" "historiales (committed demo_confirmed) = [y]"
    using old(2,3) by auto
  from once [THEN conjunct2, THEN conjunct1] old show ?thesis
    unfolding xy old(1) same by (auto simp: Let_def)
qed

section \<open>Reused keys\<close>

text \<open>
  A confirmation whose idempotency key was already used by another actor, for another
  operation or with another request is refused with \<open>ErrIdempotencyConflict\<close>.
\<close>

lemma reused_key_refused:
  assumes "find_solicitud (ci_key ci) (committed w) = Some s" and "faults w = []"
    and "so_scope s \<noteq> actor_scope (ci_actor ci) \<or> so_operacion s \<noteq> ''CONFIRM_'' @ ci_operation ci
         \<or> so_fingerprint s \<noteq> ci_fingerprint ci"
  shows "fst (confirm_movement civil op_id ci build w) = Inl (Repo ErrIdempotencyConflict)"
  using assms
  by (auto simp: confirm_movement_def in_tx_def claim_idempotency_def seq_def tick_def query_def catch_def
      insert_solicitud_def exec_ret_def pending_row_def require_def ret_def reject_if_def throw_def Let_def)

lemma reused_key_refused_example:
  "fst (confirm_movement (\<lambda>_ _. 0) ''O2'' (demo_confirm\<lparr>ci_fingerprint := ''G''\<rparr>) demo_build demo_confirmed)
     = Inl (Repo ErrIdempotencyConflict)"
proof -
  let ?find = "find_solicitud ''K1'' (committed demo_confirmed)"
  have "map_option so_fingerprint ?find = Some ''F''" "faults demo_confirmed = []" by code_simp+
  then obtain s where "?find = Some s" "so_fingerprint s = ''F''" by auto
  then show ?thesis
    by (intro reused_key_refused [of _ _ s]) (simp_all add: demo_confirm_def \<open>faults demo_confirmed = []\<close>)
qed

end
