(* ===== verification/MovementService.thy ===== *)
theory MovementService
  imports CustomerIdentity LedgerEffects
begin

text \<open>
  The service in front of the ledger (\<^verbatim>\<open>internal/service/movement.go\<close>,
  \<^verbatim>\<open>internal/service/idempotency.go\<close>): it validates a request, resolves the customer, clears
  the customer's code from the request before it takes the fingerprint, and retries the
  confirmation. JSON encoding is the parameter \<open>encoder\<close>. Each attempt of a confirmation draws
  a fresh operation id; only that of the attempt which commits is ever stored, so the model
  takes one id per call.
\<close>

record confirm_accumulation_request =
  ca_preview :: string
  ca_qr_token :: string
  ca_customer_code :: string
  ca_branch :: int

record confirm_redemption_request =
  cr_preview :: string
  cr_qr_token :: string
  cr_customer_code :: string
  cr_branch :: int
  cr_benefit :: int

record encoder =
  enc_preview :: "movement_preview_request \<Rightarrow> string"
  enc_accumulation :: "confirm_accumulation_request \<Rightarrow> string"
  enc_redemption :: "confirm_redemption_request \<Rightarrow> string"
  enc_movement :: "string \<Rightarrow> movement \<Rightarrow> err + string"

definition fingerprint :: "platform \<Rightarrow> string \<Rightarrow> string" where
  "fingerprint pf b = sha256 pf b"

definition preview_request_ok :: "movement_preview_request \<Rightarrow> bool" where
  "preview_request_ok req \<longleftrightarrow>
     \<not> (mp_operation req \<noteq> ''ACUMULACION'' \<and> mp_operation req \<noteq> ''CANJE'' \<or> mp_branch req < 1) \<and>
     \<not> (mp_operation req = ''ACUMULACION'' \<and> mp_benefit req \<noteq> None) \<and>
     \<not> (mp_operation req = ''CANJE'' \<and> (case mp_benefit req of None \<Rightarrow> True | Some b \<Rightarrow> b < 1)) \<and>
     \<not> (mp_operation req = ''CANJE'' \<and> mp_points req \<noteq> None)"

definition preview_movement ::
  "platform \<Rightarrow> string \<Rightarrow> encoder \<Rightarrow> (string \<Rightarrow> int \<Rightarrow> int) \<Rightarrow> string \<Rightarrow> int \<Rightarrow> movement_preview_request \<Rightarrow>
   ('a ledger_db_scheme, preview) tx" where
  "preview_movement pf pepper enc civil uuid actor req =
     seq (reject_if (\<not> preview_request_ok req) (Svc InvalidRequest)) (\<lambda>_.
     seq (resolve_movement_identity_hash pf pepper (mp_qr_token req) (mp_customer_code req)) (\<lambda>(token, hash).
     let req = req\<lparr>mp_qr_token := token, mp_customer_code := ''''\<rparr> in
     create_preview civil uuid actor req hash (fingerprint pf (enc_preview enc req))))"

definition confirm_service ::
  "platform \<Rightarrow> encoder \<Rightarrow> (nat \<Rightarrow> bool) \<Rightarrow> (string \<Rightarrow> int \<Rightarrow> int) \<Rightarrow> string \<Rightarrow> confirm_input \<Rightarrow> string \<Rightarrow>
   ('a ledger_db_scheme, idempotent_result) tx" where
  "confirm_service pf enc cancelled civil op_id ci request_id =
     seq (reject_if (\<not> uuid_ok pf (ci_key ci)) (Svc InvalidRequest)) (\<lambda>_.
     retry cancelled (confirm_movement civil op_id ci (enc_movement enc request_id)))"

definition confirm_accumulation ::
  "platform \<Rightarrow> string \<Rightarrow> encoder \<Rightarrow> (nat \<Rightarrow> bool) \<Rightarrow> (string \<Rightarrow> int \<Rightarrow> int) \<Rightarrow> string \<Rightarrow> int \<Rightarrow> string \<Rightarrow>
   string \<Rightarrow> confirm_accumulation_request \<Rightarrow> ('a ledger_db_scheme, idempotent_result) tx" where
  "confirm_accumulation pf pepper enc cancelled civil op_id actor key request_id req =
     seq (reject_if (ca_branch req < 1) (Svc InvalidRequest)) (\<lambda>_.
     seq (reject_if (\<not> uuid_ok pf (ca_preview req)) (Svc InvalidRequest)) (\<lambda>_.
     seq (resolve_movement_identity_hash pf pepper (ca_qr_token req) (ca_customer_code req)) (\<lambda>(token, hash).
     let req = req\<lparr>ca_qr_token := token, ca_customer_code := ''''\<rparr> in
     confirm_service pf enc cancelled civil op_id
       \<lparr>ci_actor = actor, ci_key = key, ci_fingerprint = fingerprint pf (enc_accumulation enc req),
        ci_preview = ca_preview req, ci_qr_hash = hash, ci_branch = ca_branch req, ci_benefit = None,
        ci_operation = ''ACUMULACION''\<rparr> request_id)))"

definition confirm_redemption ::
  "platform \<Rightarrow> string \<Rightarrow> encoder \<Rightarrow> (nat \<Rightarrow> bool) \<Rightarrow> (string \<Rightarrow> int \<Rightarrow> int) \<Rightarrow> string \<Rightarrow> int \<Rightarrow> string \<Rightarrow>
   string \<Rightarrow> confirm_redemption_request \<Rightarrow> ('a ledger_db_scheme, idempotent_result) tx" where
  "confirm_redemption pf pepper enc cancelled civil op_id actor key request_id req =
     seq (reject_if (cr_branch req < 1 \<or> cr_benefit req < 1) (Svc InvalidRequest)) (\<lambda>_.
     seq (reject_if (\<not> uuid_ok pf (cr_preview req)) (Svc InvalidRequest)) (\<lambda>_.
     seq (resolve_movement_identity_hash pf pepper (cr_qr_token req) (cr_customer_code req)) (\<lambda>(token, hash).
     let req = req\<lparr>cr_qr_token := token, cr_customer_code := ''''\<rparr> in
     confirm_service pf enc cancelled civil op_id
       \<lparr>ci_actor = actor, ci_key = key, ci_fingerprint = fingerprint pf (enc_redemption enc req),
        ci_preview = cr_preview req, ci_qr_hash = hash, ci_branch = cr_branch req,
        ci_benefit = Some (cr_benefit req), ci_operation = ''CANJE''\<rparr> request_id)))"

definition idempotent_movement :: "platform \<Rightarrow> int \<Rightarrow> string \<Rightarrow> ('a ledger_db_scheme, string) tx" where
  "idempotent_movement pf actor key =
     seq (reject_if (\<not> uuid_ok pf key) (Svc InvalidRequest)) (\<lambda>_. get_movement_idempotency actor key)"

section \<open>Resolving a customer\<close>

lemma query_clear: "faults w = [] \<Longrightarrow> query g w = (Inr (g w), w)"
  by (simp add: query_def seq_def tick_def)

lemma tx_clear:
  "reject_if b e w = (if b then (Inl e, w) else (Inr (), w))"
  "require r e w = (case r of None \<Rightarrow> (Inl e, w) | Some a \<Rightarrow> (Inr a, w))"
  "ret a w = (Inr a, w)" "throw e w = (Inl e, w)"
  by (simp_all add: reject_if_def require_def ret_def throw_def split: option.splits)

definition code_keys :: "'a core_db_scheme \<Rightarrow> bool" where
  "code_keys d \<longleftrightarrow> distinct (map u_id (usuarios d)) \<and>
     (\<forall>u \<in> set (usuarios d). \<forall>v \<in> set (usuarios d). u_codigo u \<noteq> None \<and> u_codigo u = u_codigo v \<longrightarrow> u = v)"

definition allocated_code :: "string option \<Rightarrow> bool" where
  "allocated_code c \<longleftrightarrow> (case c of None \<Rightarrow> True | Some s \<Rightarrow>
     (\<exists>l n. s = l @ ''-'' @ show_int n \<and> upper_letters l \<and> length l = 2 \<and> 1 \<le> n \<and> n < 2 ^ 63))"

lemma trim_code: "trim_space (''#USER-'' @ lpad0 4 (show_int i)) = ''#USER-'' @ lpad0 4 (show_int i)"
  if "0 < i" "i < 2 ^ 63"
proof -
  have d: "lpad0 4 (show_int i) \<noteq> []" "list_all is_digit (lpad0 4 (show_int i))"
    using user_code_digits [OF that] by auto
  then have "is_digit (last (lpad0 4 (show_int i)))" by (auto simp: list_all_iff)
  with d(1) digit_not_space have "\<not> is_space (last (''#USER-'' @ lpad0 4 (show_int i)))" by simp
  moreover have "\<not> is_space (hd (''#USER-'' @ lpad0 4 (show_int i)))" by (simp add: is_space_def)
  ultimately show ?thesis unfolding trim_space_def by (intro trim_ends) simp_all
qed

lemma find_by_key:
  assumes "u \<in> set xs" "P u" "\<And>v. v \<in> set xs \<Longrightarrow> P v \<Longrightarrow> v = u"
  shows "List.find P xs = Some u"
  using assms
proof (induction xs)
  case (Cons x xs)
  show ?case
  proof (cases "P x")
    case True
    with Cons.prems(3) [of x] show ?thesis by simp
  next
    case False
    with Cons.prems(1,2) have "u \<in> set xs" by auto
    then have "List.find P xs = Some u" by (rule Cons.IH) (rule Cons.prems(2), rule Cons.prems(3), simp)
    with False show ?thesis by simp
  qed
qed simp

lemma code_resolves:
  assumes pf: "ascii_norm pf" and keys: "code_keys (committed w)" and nf: "faults w = []"
    and u: "u \<in> set (usuarios (committed w))" "customer_row u" "0 < u_id u" "u_id u < 2 ^ 63"
    and c: "allocated_code (u_codigo u)"
  shows "resolve_customer_code_id pf (user_code u) w = (Inr (u_id u), w)"
proof (cases "u_codigo u")
  case None
  let ?d = "lpad0 4 (show_int (u_id u))"
  have code: "user_code u = ''#USER-'' @ ?d" by (simp add: user_code_def None)
  note d = user_code_digits [OF u(3,4)]
  have "to_upper (trim_prefix (''#USER-'' @ ?d) ''#'') = ''USER-'' @ ?d"
    using to_upper_digits [OF d(3)] by (simp add: trim_prefix_def has_prefix_def) (simp add: to_upper_def)
  with d show ?thesis
    using trim_code [OF u(3,4)] parse_lpad [of "u_id u" 4] u
    by (simp add: resolve_customer_code_id_def code Let_def seq_def tx_clear has_prefix_def trim_prefix_def)
next
  case (Some s)
  with c obtain l n where s: "s = l @ ''-'' @ show_int n" "upper_letters l" "length l = 2" "1 \<le> n" "n < 2 ^ 63"
    by (auto simp: allocated_code_def)
  note sh = code_shape [OF s(2,3), of n]
  have code: "user_code u = s" by (simp add: user_code_def Some)
  have "to_upper (trim_prefix s ''#'') = s" "trim_space s = s" "\<not> has_prefix s ''USER-''"
    using sh s(1,4) by simp_all
  moreover have "normalize_code pf s = Some s" using normalize_code_fixed [OF pf s(2-5)] s(1) by simp
  moreover have "List.find (\<lambda>x. u_codigo x = Some s \<and> customer_row x) (usuarios (committed w)) = Some u"
    using u keys Some by (intro find_by_key) (auto simp: code_keys_def)
  ultimately show ?thesis
    by (simp add: resolve_customer_code_id_def code Let_def seq_def tx_clear customer_id_by_code_def query_clear nf)
qed

lemma printed_code_trim:
  assumes "0 < u_id u" "u_id u < 2 ^ 63" "allocated_code (u_codigo u)"
  shows "trim_space (user_code u) = user_code u" "user_code u \<noteq> ''''"
proof -
  have "trim_space (user_code u) = user_code u \<and> user_code u \<noteq> ''''"
  proof (cases "u_codigo u")
    case None
    then show ?thesis using trim_code [OF assms(1,2)] by (simp add: user_code_def)
  next
    case (Some s)
    with assms(3) obtain l n where "s = l @ ''-'' @ show_int n" "upper_letters l" "length l = 2" "1 \<le> n"
      by (auto simp: allocated_code_def)
    with code_shape(1) [of l n] Some show ?thesis by (simp add: user_code_def)
  qed
  then show "trim_space (user_code u) = user_code u" "user_code u \<noteq> ''''" by simp_all
qed

definition token_ok :: "platform \<Rightarrow> bool" where
  "token_ok pf \<longleftrightarrow> (\<forall>k m. let t = base64url pf (hmac_sha256 pf k m) in
     32 \<le> length t \<and> length t \<le> 256 \<and> trim_space t = t)"

lemma resolve_by_token:
  assumes "token_ok pf"
  shows "resolve_movement_identity_hash pf pepper (fst (qr_for_user pf pepper i)) '''' w = (Inr (qr_for_user pf pepper i), w)"
proof -
  let ?t = "base64url pf (hmac_sha256 pf pepper (''puntazo:customer:'' @ show_int i))"
  have "32 \<le> length ?t" "length ?t \<le> 256" "trim_space ?t = ?t"
    using assms by (simp_all add: token_ok_def Let_def)
  moreover from this(1) have "?t \<noteq> ''''" by auto
  ultimately show ?thesis
    by (simp add: resolve_movement_identity_hash_def Let_def seq_def tx_clear qr_for_user_def qr_hash_def
        trim_space_def trim_def)
qed

lemma resolve_by_code:
  assumes pf: "ascii_norm pf" and keys: "code_keys (committed w)" and nf: "faults w = []"
    and u: "u \<in> set (usuarios (committed w))" "customer_row u" "0 < u_id u" "u_id u < 2 ^ 63"
    and c: "allocated_code (u_codigo u)" and h: "u_qr_hash u = Some (snd (qr_for_user pf pepper (u_id u)))"
  shows "resolve_movement_identity_hash pf pepper '''' (user_code u) w = (Inr (qr_for_user pf pepper (u_id u)), w)"
proof -
  note t = printed_code_trim [OF u(3,4) c]
  have "List.find (\<lambda>x. u_id x = u_id u \<and> customer_row x) (usuarios (committed w)) = Some u"
    using u keys by (intro find_by_key) (auto simp: code_keys_def dest: distinct_key_unique)
  then show ?thesis
    using t code_resolves [OF pf keys nf u c] h nf
    by (simp add: resolve_movement_identity_hash_def Let_def seq_def tx_clear customer_qr_hash_by_id_def query_clear
        trim_space_def trim_def)
qed

text \<open>
  The code printed for a customer, the one stored at registration or \<open>#USER-0042\<close> made
  from the id, resolves to that customer's id.
\<close>

lemma printed_code_resolves:
  assumes pf: "ascii_norm pf" and keys: "code_keys (committed w)" and nf: "faults w = []"
    and u: "u \<in> set (usuarios (committed w))" "customer_row u" "0 < u_id u" "u_id u < 2 ^ 63"
    and c: "allocated_code (u_codigo u)"
  shows "resolve_customer_code_id pf (user_code u) w = (Inr (u_id u), w)"
  by (rule code_resolves [OF assms])

definition demo_platform :: platform where
  "demo_platform = \<lparr>sha256 = \<lambda>s. ''h'' @ s, hmac_sha256 = \<lambda>k m. replicate 43 CHR ''t'', base64url = \<lambda>s. s,
     nfd = \<lambda>s. s, nfc = \<lambda>s. s, uuid_ok = \<lambda>s. s \<noteq> ''''\<rparr>"

lemma printed_code_resolves_example:
  "\<exists>u. u_id u = 2 \<and> resolve_customer_code_id demo_platform (user_code u) demo_world = (Inr 2, demo_world)"
proof -
  let ?u = "usuarios demo_db ! 1"
  have "resolve_customer_code_id demo_platform (user_code ?u) demo_world = (Inr (u_id ?u), demo_world)"
    by (rule printed_code_resolves)
       (auto simp: ascii_norm_def demo_platform_def code_keys_def demo_world_def demo_db_def customer_row_def
         allocated_code_def)
  moreover have "u_id ?u = 2" by (simp add: demo_db_def)
  ultimately show ?thesis by metis
qed

text \<open>
  The two ways of naming a customer agree: the QR token and the printed code resolve to the
  same token and the same hash, when the stored hash is the one registration stores, that of
  the customer's own token.
\<close>

lemma identity_paths_agree:
  assumes "ascii_norm pf" and "token_ok pf" and "code_keys (committed w)" and "faults w = []"
    and "u \<in> set (usuarios (committed w))" "customer_row u" "0 < u_id u" "u_id u < 2 ^ 63"
    and "allocated_code (u_codigo u)" and "u_qr_hash u = Some (snd (qr_for_user pf pepper (u_id u)))"
  shows "resolve_movement_identity_hash pf pepper (fst (qr_for_user pf pepper (u_id u))) '''' w
       = resolve_movement_identity_hash pf pepper '''' (user_code u) w"
  using resolve_by_token resolve_by_code assms by metis

definition demo_customer :: usuario where
  "demo_customer = \<lparr>u_id = 2, u_email = ''cl@x'', u_nombre = ''Luz'', u_apellido = None,
     u_tipo = ''CLIENTE_FINAL'', u_activo = True, u_deleted_at = None,
     u_qr_hash = Some (snd (qr_for_user demo_platform ''p'' 2)), u_codigo = Some ''LZ-7'', u_verified_at = None\<rparr>"

definition demo_shop :: "ledger_db world" where
  "demo_shop = (let d = demo_db\<lparr>usuarios := [usuarios demo_db ! 0, demo_customer]\<rparr>
     in demo_world\<lparr>committed := d, working := d\<rparr>)"

lemma demo_shop_ok:
  "ascii_norm demo_platform" "token_ok demo_platform" "code_keys (committed demo_shop)" "faults demo_shop = []"
  "demo_customer \<in> set (usuarios (committed demo_shop))" "customer_row demo_customer" "0 < u_id demo_customer"
  "u_id demo_customer < 2 ^ 63" "allocated_code (u_codigo demo_customer)"
  "u_qr_hash demo_customer = Some (snd (qr_for_user demo_platform ''p'' (u_id demo_customer)))"
proof -
  show "token_ok demo_platform"
    by (auto simp: token_ok_def demo_platform_def Let_def trim_space_def is_space_def intro!: trim_ends)
  have "''LZ-7'' = ''LZ'' @ ''-'' @ show_int 7" by code_simp
  then show "allocated_code (u_codigo demo_customer)"
    by (auto simp: allocated_code_def demo_customer_def upper_letters_def
        intro!: exI [of _ "''LZ''"] exI [of _ 7])
qed (auto simp: ascii_norm_def demo_platform_def code_keys_def demo_shop_def demo_world_def demo_db_def
       customer_row_def demo_customer_def Let_def)

lemma identity_paths_agree_example:
  "resolve_movement_identity_hash demo_platform ''p'' (fst (qr_for_user demo_platform ''p'' (u_id demo_customer))) '''' demo_shop
     = resolve_movement_identity_hash demo_platform ''p'' '''' (user_code demo_customer) demo_shop"
  by (rule identity_paths_agree [OF demo_shop_ok])

section \<open>Replays through the service\<close>

lemma settled_replay:
  assumes "settled (committed w) (ci_key ci) s" and "faults w = []"
    and "so_scope s = actor_scope (ci_actor ci)" "so_operacion s = ''CONFIRM_'' @ ci_operation ci"
      "so_fingerprint s = ci_fingerprint ci"
  shows "fst (confirm_movement civil op_id ci build w) =
      Inr \<lparr>ir_status = the (so_status s), ir_body = (case so_body s of None \<Rightarrow> '''' | Some b \<Rightarrow> b), ir_replayed = True\<rparr>"
    and "committed (snd (confirm_movement civil op_id ci build w)) = committed w"
  using assms
  by (auto simp: settled_def confirm_movement_def in_tx_def claim_idempotency_def seq_def tick_def query_def catch_def
      insert_solicitud_def exec_ret_def pending_row_def require_def ret_def reject_if_def throw_def Let_def)

lemma retry_first: "fn w = (Inr a, w1) \<Longrightarrow> retry c fn w = (Inr a, w1)"
  by (simp add: retry_def numeral_3_eq_3)

lemma confirm_accumulation_run:
  assumes "resolve_movement_identity_hash pf pepper (ca_qr_token req) (ca_customer_code req) w = (Inr (token, hash), w)"
  shows "confirm_accumulation pf pepper enc c civil op_id actor key rid req w =
    (if ca_branch req < 1 \<or> \<not> uuid_ok pf (ca_preview req) \<or> \<not> uuid_ok pf key then (Inl (Svc InvalidRequest), w)
     else retry c (confirm_movement civil op_id
       \<lparr>ci_actor = actor, ci_key = key,
        ci_fingerprint = fingerprint pf (enc_accumulation enc (req\<lparr>ca_qr_token := token, ca_customer_code := ''''\<rparr>)),
        ci_preview = ca_preview req, ci_qr_hash = hash, ci_branch = ca_branch req, ci_benefit = None,
        ci_operation = ''ACUMULACION''\<rparr> (enc_movement enc rid)) w)"
  using assms by (simp add: confirm_accumulation_def confirm_service_def seq_def tx_clear Let_def)

text \<open>
  C7. An operator who repeats an accumulation under the same idempotency key gets the first
  answer back, marked as a replay, and nothing is posted again: also when the customer was
  named by the QR the first time and by the printed code the second, and whatever ledger steps
  happened in between (the row of the key is kept for its retention period, see LedgerHistory).
\<close>

theorem accumulation_replays_for_either_identity:
  assumes inv: "ledger_inv (committed w)" and tok: "token_ok pf" and asc: "ascii_norm pf"
    and first: "confirm_accumulation pf pepper enc c civil op_id actor key rid
        \<lparr>ca_preview = pid, ca_qr_token = fst (qr_for_user pf pepper (u_id u)), ca_customer_code = '''',
         ca_branch = b\<rparr> w = (Inr r, w1)" "\<not> ir_replayed r"
    and between: "ledger_step\<^sup>*\<^sup>* (committed w1) (committed w2)" "faults w2 = []"
    and u: "code_keys (committed w2)" "u \<in> set (usuarios (committed w2))" "customer_row u" "0 < u_id u"
      "u_id u < 2 ^ 63" "allocated_code (u_codigo u)" "u_qr_hash u = Some (snd (qr_for_user pf pepper (u_id u)))"
  shows "fst (confirm_accumulation pf pepper enc c' civil op_id' actor key rid'
        \<lparr>ca_preview = pid, ca_qr_token = '''', ca_customer_code = user_code u, ca_branch = b\<rparr> w2)
       = Inr (r\<lparr>ir_replayed := True\<rparr>) \<and>
    committed (snd (confirm_accumulation pf pepper enc c' civil op_id' actor key rid'
        \<lparr>ca_preview = pid, ca_qr_token = '''', ca_customer_code = user_code u, ca_branch = b\<rparr> w2)) = committed w2"
proof -
  obtain token hash where th: "qr_for_user pf pepper (u_id u) = (token, hash)" by (cases "qr_for_user pf pepper (u_id u)")
  let ?ci = "\<lparr>ci_actor = actor, ci_key = key, ci_fingerprint = fingerprint pf (enc_accumulation enc
       \<lparr>ca_preview = pid, ca_qr_token = token, ca_customer_code = '''', ca_branch = b\<rparr>),
     ci_preview = pid, ci_qr_hash = hash, ci_branch = b, ci_benefit = None, ci_operation = ''ACUMULACION''\<rparr>"
  from first(1) confirm_accumulation_run [of pf pepper "\<lparr>ca_preview = pid, ca_qr_token = token, ca_customer_code = '''',
      ca_branch = b\<rparr>" w token hash] resolve_by_token [OF tok, of pepper "u_id u" w]
  have guards: "\<not> (b < 1 \<or> \<not> uuid_ok pf pid \<or> \<not> uuid_ok pf key)"
    and run: "retry c (confirm_movement civil op_id ?ci (enc_movement enc rid)) w = (Inr r, w1)"
    by (auto simp: th split: if_splits)
  from retry_Inr [OF atomic_confirm_movement run] obtain w0 where
    run0: "confirm_movement civil op_id ?ci (enc_movement enc rid) w0 = (Inr r, w1)" "committed w0 = committed w" by blast
  from confirm_movement_Inr [OF run0(1)] first(2) obtain p g t h body where
    fresh: "find_solicitud (ci_key ?ci) (committed w0) = None"
    and r: "r = \<lparr>ir_status = 201, ir_body = body, ir_replayed = False\<rparr>"
    and cf: "confirmed ?ci (app_now w0) (db_now w0)
         ((committed w0)\<lparr>solicitudes := solicitudes (committed w0) @ [pending_row (ci_key ?ci)
           (actor_scope (ci_actor ?ci)) (''CONFIRM_'' @ ci_operation ?ci) (ci_fingerprint ?ci)]\<rparr>)
         (committed w1) p g t h body" by blast
  have "ledger_inv (committed w1)"
    by (rule confirm_run_inv [OF run0(1)]) (simp add: run0(2) inv)
  from steps_keep [OF between(1) this] confirmed_settles(1) [OF cf fresh]
  have set2: "settled (committed w2) (ci_key ?ci) (complete_row (db_now w0) 201 body (pending_row (ci_key ?ci)
      (actor_scope (ci_actor ?ci)) (''CONFIRM_'' @ ci_operation ?ci) (ci_fingerprint ?ci)))" by blast
  let ?run2 = "confirm_movement civil op_id' ?ci (enc_movement enc rid') w2"
  have rep: "fst ?run2 = Inr (r\<lparr>ir_replayed := True\<rparr>)" "committed (snd ?run2) = committed w2"
    using settled_replay [OF set2 between(2)] by (simp_all add: r complete_row_def pending_row_def)
  then have "?run2 = (Inr (r\<lparr>ir_replayed := True\<rparr>), snd ?run2)" by (simp add: prod_eq_iff)
  note second = retry_first [of "confirm_movement civil op_id' ?ci (enc_movement enc rid')", OF this, of c']
  from confirm_accumulation_run [of pf pepper "\<lparr>ca_preview = pid, ca_qr_token = '''', ca_customer_code = user_code u,
      ca_branch = b\<rparr>" w2 token hash] resolve_by_code [OF asc u(1) between(2) u(2-7)] guards second
  have "confirm_accumulation pf pepper enc c' civil op_id' actor key rid'
        \<lparr>ca_preview = pid, ca_qr_token = '''', ca_customer_code = user_code u, ca_branch = b\<rparr> w2
      = (Inr (r\<lparr>ir_replayed := True\<rparr>), snd ?run2)" by (simp add: th)
  then show "fst (confirm_accumulation pf pepper enc c' civil op_id' actor key rid'
        \<lparr>ca_preview = pid, ca_qr_token = '''', ca_customer_code = user_code u, ca_branch = b\<rparr> w2)
       = Inr (r\<lparr>ir_replayed := True\<rparr>) \<and>
    committed (snd (confirm_accumulation pf pepper enc c' civil op_id' actor key rid'
        \<lparr>ca_preview = pid, ca_qr_token = '''', ca_customer_code = user_code u, ca_branch = b\<rparr> w2)) = committed w2"
    using rep(2) by simp
qed

definition demo_encoder :: encoder where
  "demo_encoder = \<lparr>enc_preview = mp_operation, enc_accumulation = ca_preview, enc_redemption = cr_preview,
     enc_movement = (\<lambda>rid mv. Inr rid)\<rparr>"

definition demo_shop_previewed :: "ledger_db world" where
  "demo_shop_previewed = snd (create_preview (\<lambda>_ _. 0) ''P1'' 1 demo_request
     (snd (qr_for_user demo_platform ''p'' 2)) ''fp'' demo_shop)"

definition demo_shop_request :: confirm_accumulation_request where
  "demo_shop_request = \<lparr>ca_preview = ''P1'', ca_qr_token = fst (qr_for_user demo_platform ''p'' (u_id demo_customer)),
     ca_customer_code = '''', ca_branch = 20\<rparr>"

definition demo_shop_confirmed :: "ledger_db world" where
  "demo_shop_confirmed = snd (confirm_accumulation demo_platform ''p'' demo_encoder (\<lambda>_. False) (\<lambda>_ _. 0) ''O1'' 1
     ''K1'' ''R1'' demo_shop_request demo_shop_previewed)"

lemma demo_shop_confirmed_run:
  "confirm_accumulation demo_platform ''p'' demo_encoder (\<lambda>_. False) (\<lambda>_ _. 0) ''O1'' 1 ''K1'' ''R1''
     demo_shop_request demo_shop_previewed
   = (Inr \<lparr>ir_status = 201, ir_body = ''R1'', ir_replayed = False\<rparr>, demo_shop_confirmed)"
proof -
  have "fst (confirm_accumulation demo_platform ''p'' demo_encoder (\<lambda>_. False) (\<lambda>_ _. 0) ''O1'' 1 ''K1'' ''R1''
     demo_shop_request demo_shop_previewed) = Inr \<lparr>ir_status = 201, ir_body = ''R1'', ir_replayed = False\<rparr>"
    by code_simp
  then show ?thesis by (simp add: demo_shop_confirmed_def prod_eq_iff)
qed

lemma demo_shop_inv: "ledger_inv (committed demo_shop_previewed)"
proof (rule ledger_reachable_inv)
  have "ledger_reachable (committed demo_shop)"
    by (rule ledger_reachable.start) (simp add: ledger_empty_def demo_shop_def demo_world_def demo_db_def Let_def)
  then show "ledger_reachable (committed demo_shop_previewed)"
    unfolding demo_shop_previewed_def
    by (rule ledger_reachable.step) (rule ledger_step.preview_step [OF surjective_pairing])
qed

theorem accumulation_replays_for_either_identity_witness:
  "fst (confirm_accumulation demo_platform ''p'' demo_encoder (\<lambda>_. False) (\<lambda>_ _. 0) ''O2'' 1 ''K1'' ''R2''
        \<lparr>ca_preview = ''P1'', ca_qr_token = '''', ca_customer_code = user_code demo_customer, ca_branch = 20\<rparr>
        demo_shop_confirmed)
       = Inr \<lparr>ir_status = 201, ir_body = ''R1'', ir_replayed = True\<rparr>"
proof -
  have us: "usuarios (committed demo_shop_confirmed) = usuarios (committed demo_shop)"
    and nf: "faults demo_shop_confirmed = []" by code_simp+
  from demo_shop_ok(3,5) have u: "code_keys (committed demo_shop_confirmed)"
    "demo_customer \<in> set (usuarios (committed demo_shop_confirmed))"
    unfolding code_keys_def us by blast+
  from accumulation_replays_for_either_identity [THEN conjunct1, OF demo_shop_inv demo_shop_ok(2,1)
      demo_shop_confirmed_run [unfolded demo_shop_request_def] _ rtranclp.rtrancl_refl nf u demo_shop_ok(6-10)]
  show ?thesis by simp
qed

end
