(* ===== verification/Retention.thy ===== *)
theory Retention
  imports Ledger "HOL-Library.Char_ord" "HOL-Library.List_Lexorder"
begin

text \<open>
  The two operations that remove rows of the ledger: the retention job
  (\<^verbatim>\<open>internal/repository/retention.go\<close>) and the deletion of an account
  (\<^verbatim>\<open>internal/repository/account.go\<close>), statement by statement on the tables of the ledger's
  database. The statements on tables of other components (sessions, identity tokens, mail,
  subscriptions, reviews, favourites, files, invitations, referral codes) are not here.
\<close>

section \<open>The retention job\<close>

record retention_policy =
  rp_now :: int
  rp_batch :: nat
  rp_preview :: int
  rp_idempotency :: int

record retention_stats =
  rs_previews :: nat
  rs_keys :: nat

text \<open>
  \<open>ORDER BY expires_at,id LIMIT $2 FOR UPDATE SKIP LOCKED\<close>: the rows another transaction holds
  are passed over. Identifiers are compared as text, the order of the type \<open>uuid\<close>.
\<close>

definition expired_previews :: "(string \<Rightarrow> bool) \<Rightarrow> int \<Rightarrow> nat \<Rightarrow> 'a ledger_db_scheme \<Rightarrow> string list" where
  "expired_previews locked cutoff limit d = map pv_id (take limit (sort_key pv_expires (sort_key pv_id
     (filter (\<lambda>v. pv_expires v < cutoff \<and> \<not> locked (pv_id v)) (previews d)))))"

definition expired_keys :: "(string \<Rightarrow> bool) \<Rightarrow> int \<Rightarrow> nat \<Rightarrow> 'a ledger_db_scheme \<Rightarrow> string list" where
  "expired_keys locked cutoff limit d = map so_key (take limit (sort_key (\<lambda>s. the (so_completed s)) (sort_key so_key
     (filter (\<lambda>s. so_estado s = ''COMPLETED'' \<and> so_completed s \<noteq> None \<and> the (so_completed s) < cutoff
        \<and> \<not> locked (so_key s)) (solicitudes d)))))"

definition delete_previews ::
  "(string \<Rightarrow> bool) \<Rightarrow> retention_policy \<Rightarrow> ('a ledger_db_scheme, nat) tx" where
  "delete_previews locked p = pool_exec (\<lambda>w. let d = working w;
     ids = expired_previews locked (rp_now p - rp_preview p) (rp_batch p) d in
     Inr (length ids, d\<lparr>previews := filter (\<lambda>v. pv_id v \<notin> set ids) (previews d)\<rparr>))"

definition delete_keys ::
  "(string \<Rightarrow> bool) \<Rightarrow> retention_policy \<Rightarrow> ('a ledger_db_scheme, nat) tx" where
  "delete_keys locked p = pool_exec (\<lambda>w. let d = working w;
     ids = expired_keys locked (rp_now p - rp_idempotency p) (rp_batch p) d in
     Inr (length ids, d\<lparr>solicitudes := filter (\<lambda>s. so_key s \<notin> set ids) (solicitudes d)\<rparr>))"

text \<open>The job's statements commit one by one; an error ends it after those that ran.\<close>

definition apply_retention ::
  "(string \<Rightarrow> bool) \<Rightarrow> (string \<Rightarrow> bool) \<Rightarrow> retention_policy \<Rightarrow> ('a ledger_db_scheme, retention_stats) tx" where
  "apply_retention locked_previews locked_keys p =
     seq (delete_previews locked_previews p) (\<lambda>n.
     seq (delete_keys locked_keys p) (\<lambda>k.
     ret \<lparr>rs_previews = n, rs_keys = k\<rparr>))"

section \<open>The deletion of an account\<close>

text \<open>The brands the user owns, and whether a brand keeps another owner.\<close>

definition owned_brands :: "'a core_db_scheme \<Rightarrow> int \<Rightarrow> int list" where
  "owned_brands d user = sort [m_id m. m \<leftarrow> marcas d, mine \<leftarrow> membresias d,
     mm_marca mine = m_id m \<and> mm_usuario mine = user \<and> mm_activo mine \<and> mm_rol mine = ''PROPIETARIO'']"

definition another_owner :: "'a core_db_scheme \<Rightarrow> int \<Rightarrow> int \<Rightarrow> bool" where
  "another_owner d brand user = list_ex (\<lambda>mm. mm_marca mm = brand \<and> mm_usuario mm \<noteq> user \<and> mm_activo mm
     \<and> mm_rol mm = ''PROPIETARIO'' \<and>
     list_ex (\<lambda>u. u_id u = mm_usuario mm \<and> u_activo u \<and> u_deleted_at u = None) (usuarios d)) (membresias d)"

fun closed_among :: "int \<Rightarrow> int list \<Rightarrow> ('a core_db_scheme, int list) tx" where
  "closed_among user [] = ret []"
| "closed_among user (b # bs) =
     seq (query (\<lambda>w. another_owner (working w) b user)) (\<lambda>another.
     seq (closed_among user bs) (\<lambda>rest.
     ret (if another then rest else b # rest)))"

text \<open>\<open>for _, statement := range statements \{ tx.Exec(...) \}\<close>\<close>

fun run_statements :: "('d \<Rightarrow> 'd) list \<Rightarrow> ('d, unit) tx" where
  "run_statements [] = ret ()"
| "run_statements (f # fs) = seq (exec (\<lambda>w. f (working w))) (\<lambda>_. run_statements fs)"

definition deactivated_card :: "int \<Rightarrow> tarjeta \<Rightarrow> tarjeta" where
  "deactivated_card now t = t\<lparr>t_activo := False, t_deleted_at := Some (coalesce (t_deleted_at t) now),
     t_version := t_version t + 1\<rparr>"

definition expired_row :: "int \<Rightarrow> preview_row \<Rightarrow> preview_row" where
  "expired_row now v = v\<lparr>pv_expires := min (pv_expires v) now\<rparr>"

text \<open>The brands that are left without an owner are closed.\<close>

definition close_brands :: "int list \<Rightarrow> int \<Rightarrow> ('a ledger_db_scheme \<Rightarrow> 'a ledger_db_scheme) list" where
  "close_brands closed now =
    [\<lambda>d. d\<lparr>marcas := update_where (\<lambda>m. m_id m \<in> set closed)
        (\<lambda>m. m\<lparr>m_activo := False, m_deleted_at := Some (coalesce (m_deleted_at m) now)\<rparr>) (marcas d)\<rparr>,
     \<lambda>d. d\<lparr>sucursales := update_where (\<lambda>s. s_marca s \<in> set closed \<and> s_activo s)
        (\<lambda>s. s\<lparr>s_activo := False, s_deleted_at := Some (coalesce (s_deleted_at s) now), s_version := s_version s + 1\<rparr>) (sucursales d)\<rparr>,
     \<lambda>d. d\<lparr>programas := update_where (\<lambda>p. p_marca p \<in> set closed \<and> p_activo p) (\<lambda>p. p\<lparr>p_activo := False\<rparr>) (programas d)\<rparr>,
     \<lambda>d. d\<lparr>beneficios := update_where (\<lambda>b. list_ex (\<lambda>p. p_id p = b_programa b \<and> p_marca p \<in> set closed) (programas d) \<and> b_activo b)
        (\<lambda>b. b\<lparr>b_activo := False, b_deleted_at := Some (coalesce (b_deleted_at b) now), b_version := b_version b + 1\<rparr>) (beneficios d)\<rparr>,
     \<lambda>d. d\<lparr>tarjetas := update_where (\<lambda>t. t_marca t \<in> set closed \<and> t_activo t) (deactivated_card now) (tarjetas d)\<rparr>,
     \<lambda>d. d\<lparr>previews := update_where (\<lambda>v. pv_marca v \<in> set closed \<and> pv_consumed v = None) (expired_row now) (previews d)\<rparr>,
     \<lambda>d. d\<lparr>membresias_sucursales := update_where (\<lambda>ms. list_ex (\<lambda>mm. mm_id mm = ms_membresia ms \<and> mm_marca mm \<in> set closed) (membresias d))
        (\<lambda>ms. ms\<lparr>ms_activo := False\<rparr>) (membresias_sucursales d)\<rparr>,
     \<lambda>d. d\<lparr>membresias := update_where (\<lambda>mm. mm_marca mm \<in> set closed \<and> mm_activo mm)
        (\<lambda>mm. mm\<lparr>mm_activo := False, mm_version := mm_version mm + 1\<rparr>) (membresias d)\<rparr>,
     \<lambda>d. d\<lparr>accesos := update_where (\<lambda>a. a_marca a \<in> set closed) (\<lambda>a. a\<lparr>a_activo := False\<rparr>) (accesos d)\<rparr>]"

text \<open>The user's memberships, cards and previews end; the web push subscriptions go, with the queued notifications.\<close>

definition leave_brands :: "int \<Rightarrow> int \<Rightarrow> ('a ledger_db_scheme \<Rightarrow> 'a ledger_db_scheme) list" where
  "leave_brands user now =
    [\<lambda>d. d\<lparr>membresias_sucursales := update_where (\<lambda>ms. list_ex (\<lambda>mm. mm_id mm = ms_membresia ms \<and> mm_usuario mm = user) (membresias d))
        (\<lambda>ms. ms\<lparr>ms_activo := False\<rparr>) (membresias_sucursales d)\<rparr>,
     \<lambda>d. d\<lparr>membresias := update_where (\<lambda>mm. mm_usuario mm = user \<and> mm_activo mm)
        (\<lambda>mm. mm\<lparr>mm_activo := False, mm_version := mm_version mm + 1\<rparr>) (membresias d)\<rparr>,
     \<lambda>d. d\<lparr>tarjetas := update_where (\<lambda>t. t_usuario t = user \<and> t_activo t) (deactivated_card now) (tarjetas d)\<rparr>,
     \<lambda>d. d\<lparr>previews := update_where (\<lambda>v. (pv_actor v = user \<or> pv_cliente v = user) \<and> pv_consumed v = None) (expired_row now) (previews d)\<rparr>,
     \<lambda>d. d\<lparr>push_notifications := filter (\<lambda>n. \<not> list_ex (\<lambda>s. fst s = wn_subscription n \<and> snd s = user) (push_subscriptions d)) (push_notifications d),
        push_subscriptions := filter (\<lambda>s. snd s \<noteq> user) (push_subscriptions d)\<rparr>]"

text \<open>\<open>strpos(text, pattern) > 0\<close>\<close>

fun contains :: "string \<Rightarrow> string \<Rightarrow> bool" where
  "contains pat [] = (pat = [])"
| "contains pat (c # cs) = (take (length pat) (c # cs) = pat \<or> contains pat cs)"

definition user_card :: "'a ledger_db_scheme \<Rightarrow> int \<Rightarrow> int \<Rightarrow> bool" where
  "user_card d user cid = list_ex (\<lambda>t. t_id t = cid \<and> t_usuario t = user) (tarjetas d)"

text \<open>
  The ledger of a customer: the stored answers that name one of its movements are emptied, its
  previews and its entries are deleted (the reversals of an entry go with it, by the foreign key
  of migration 0037), and at last the cards, with their queued notifications. An entry that the
  user posted for another customer only loses its operator.
\<close>

definition answer_names_user :: "'a ledger_db_scheme \<Rightarrow> int \<Rightarrow> solicitud \<Rightarrow> bool" where
  "answer_names_user d user s \<longleftrightarrow> so_estado s = ''COMPLETED'' \<and>
     (case so_body s of None \<Rightarrow> False
      | Some body \<Rightarrow> list_ex (\<lambda>h. user_card d user (h_tarjeta h) \<and> contains (h_operation_id h) body) (historiales d))"

definition clear_answers :: "int \<Rightarrow> 'a ledger_db_scheme \<Rightarrow> 'a ledger_db_scheme" where
  "clear_answers user d = d\<lparr>solicitudes :=
     update_where (answer_names_user d user) (\<lambda>s. s\<lparr>so_body := Some ''{}''\<rparr>) (solicitudes d)\<rparr>"

definition drop_previews :: "int \<Rightarrow> 'a ledger_db_scheme \<Rightarrow> 'a ledger_db_scheme" where
  "drop_previews user d = d\<lparr>previews := filter (\<lambda>v. \<not> (pv_cliente v = user \<or> pv_actor v = user)) (previews d)\<rparr>"

definition drop_entries :: "int \<Rightarrow> 'a ledger_db_scheme \<Rightarrow> 'a ledger_db_scheme" where
  "drop_entries user d =
     (let gone = filter (\<lambda>h. user_card d user (h_tarjeta h)) (historiales d) in
      d\<lparr>historiales := filter (\<lambda>h. \<not> user_card d user (h_tarjeta h)) (historiales d),
        reversiones := filter (\<lambda>r. rv_movimiento r \<notin> set (map h_id gone)) (reversiones d)\<rparr>)"

definition forget_operator :: "int \<Rightarrow> 'a ledger_db_scheme \<Rightarrow> 'a ledger_db_scheme" where
  "forget_operator user d = d\<lparr>historiales :=
     update_where (\<lambda>h. h_operador h = Some user) (\<lambda>h. h\<lparr>h_operador := None\<rparr>) (historiales d)\<rparr>"

definition drop_cards :: "int \<Rightarrow> 'a ledger_db_scheme \<Rightarrow> 'a ledger_db_scheme" where
  "drop_cards user d = d\<lparr>push_notifications := filter (\<lambda>n. \<not> user_card d user (wn_card n)) (push_notifications d),
     tarjetas := filter (\<lambda>t. t_usuario t \<noteq> user) (tarjetas d)\<rparr>"

text \<open>
  The requests the user made, or that name the user's address, lose their scope, fingerprint and
  answer; the row of the key stays.
\<close>

definition redacted_request :: "int \<Rightarrow> string \<Rightarrow> solicitud \<Rightarrow> solicitud" where
  "redacted_request user email s =
     s\<lparr>so_scope := (if so_scope s = ''demo-email:'' @ email \<or> so_scope s = ''user:'' @ show_int user
                    then ''deleted-user:'' @ show_int user else so_scope s),
       so_fingerprint := replicate 32 (CHR 0x00),
       so_body := (if so_estado s = ''COMPLETED'' then Some ''{}'' else None)\<rparr>"

definition redact_requests :: "int \<Rightarrow> string \<Rightarrow> 'a ledger_db_scheme \<Rightarrow> 'a ledger_db_scheme" where
  "redact_requests user email d = d\<lparr>solicitudes := update_where
     (\<lambda>s. so_scope s = ''demo-email:'' @ email \<or> so_scope s = ''user:'' @ show_int user
        \<or> contains email (coalesce (so_body s) ''''))
     (redacted_request user email) (solicitudes d)\<rparr>"

definition anonymous_user :: "int \<Rightarrow> usuario \<Rightarrow> usuario" where
  "anonymous_user now u = u\<lparr>u_email := ''deleted-'' @ show_int (u_id u) @ ''@anon.invalid'',
     u_nombre := ''Cuenta anonimizada'', u_apellido := None, u_qr_hash := None, u_activo := False,
     u_verified_at := None, u_deleted_at := Some now\<rparr>"

text \<open>
  \<open>AnonymizeAccount\<close>. The columns \<open>version\<close> of the user and the subscriptions of the closed brands
  are kept by other components: the user's version is an argument, and so is what cancelling the
  subscriptions of those brands answers (\<open>None\<close>: there were none, or all are cancelled).
\<close>

definition anonymize_account ::
  "int \<Rightarrow> int \<Rightarrow> (int list \<Rightarrow> err option) \<Rightarrow> int \<Rightarrow> ('a ledger_db_scheme, int) tx" where
  "anonymize_account version expected cancel user = in_tx (
     seq (query (\<lambda>w. List.find (\<lambda>u. u_id u = user \<and> u_activo u \<and> u_deleted_at u = None) (usuarios (working w)))) (\<lambda>row.
     seq (require row (GoError ''no rows in result set'')) (\<lambda>u.
     seq (reject_if (version \<noteq> expected) (Repo ErrPreconditionFailed)) (\<lambda>_.
     seq (query (\<lambda>w. owned_brands (working w) user)) (\<lambda>owned.
     seq (closed_among user owned) (\<lambda>closed.
     seq (case cancel closed of None \<Rightarrow> ret () | Some e \<Rightarrow> throw e) (\<lambda>_.
     seq (query db_now) (\<lambda>now.
     seq (run_statements (close_brands closed now)) (\<lambda>_.
     seq (run_statements (leave_brands user now)) (\<lambda>_.
     seq (run_statements [clear_answers user, drop_previews user, drop_entries user, forget_operator user, drop_cards user]) (\<lambda>_.
     seq (exec (\<lambda>w. redact_requests user (u_email u) (working w))) (\<lambda>_.
     seq (exec_ret (\<lambda>w. let d = working w in Inr (rows_affected (\<lambda>r. u_id r = user) (usuarios d),
        d\<lparr>usuarios := update_where (\<lambda>r. u_id r = user) (anonymous_user now) (usuarios d)\<rparr>))) (\<lambda>n.
     seq (reject_if (n \<noteq> 1) (Repo ErrPreconditionFailed)) (\<lambda>_.
     seq commit (\<lambda>_.
     ret now)))))))))))))))"

end
