(* ===== verification/Contracts.thy ===== *)
theory Contracts
  imports Prelude
begin

text \<open>
  Contracts of transactions and of what is composed of them: an invariant that the committed
  database keeps whatever happens (\<open>keeps\<close>), and a condition on every request sent to another
  service (\<open>calls_ok\<close>), each with one rule per construct of the monad.
\<close>

named_theorems keeps_rules "operations that keep an invariant of the committed database"
named_theorems call_rules "operations all of whose requests satisfy a condition"

section \<open>Invariants of the committed database\<close>

definition keeps :: "('d \<Rightarrow> bool) \<Rightarrow> ('d, 'a) tx \<Rightarrow> bool" where
  "keeps I m \<longleftrightarrow> (\<forall>w r w1. I (committed w) \<longrightarrow> m w = (r, w1) \<longrightarrow> I (committed w1))"

lemma keepsD: "keeps I m \<Longrightarrow> I (committed w) \<Longrightarrow> m w = (r, w1) \<Longrightarrow> I (committed w1)"
  by (auto simp: keeps_def)

lemma keeps_no_commit: "no_commit m \<Longrightarrow> keeps I m"
  by (auto simp: keeps_def dest: no_commitD)

lemma keeps_atomic:
  assumes "atomic m" and "\<And>w a w1. I (committed w) \<Longrightarrow> m w = (Inr a, w1) \<Longrightarrow> I (committed w1)"
  shows "keeps I m"
  unfolding keeps_def
proof (intro allI impI)
  fix w r w1
  assume "I (committed w)" "m w = (r, w1)"
  then show "I (committed w1)"
    using assms(2) atomicD [OF assms(1)] by (cases r) auto
qed

lemma keeps_seq [keeps_rules]:
  assumes "keeps I m" and "\<And>a. keeps I (f a)"
  shows "keeps I (seq m f)"
  unfolding keeps_def
proof (intro allI impI)
  fix w r w1
  assume w: "I (committed w)" and run: "seq m f w = (r, w1)"
  obtain r2 w2 where m: "m w = (r2, w2)" by (cases "m w")
  note i2 = keepsD [OF assms(1) w m]
  show "I (committed w1)"
  proof (cases r2)
    case (Inl e)
    with run m i2 show ?thesis by (simp add: seq_def)
  next
    case (Inr a)
    with run m have "f a w2 = (r, w1)" by (simp add: seq_def)
    then show ?thesis by (rule keepsD [OF assms(2) i2])
  qed
qed

lemma keeps_catch [keeps_rules]:
  assumes "keeps I m" and "\<And>e. keeps I (h e)"
  shows "keeps I (catch m h)"
  unfolding keeps_def
proof (intro allI impI)
  fix w r w1
  assume w: "I (committed w)" and run: "catch m h w = (r, w1)"
  obtain r2 w2 where m: "m w = (r2, w2)" by (cases "m w")
  note i2 = keepsD [OF assms(1) w m]
  show "I (committed w1)"
  proof (cases r2)
    case (Inl e)
    with run m have "h e w2 = (r, w1)" by (simp add: catch_def)
    then show ?thesis by (rule keepsD [OF assms(2) i2])
  next
    case (Inr a)
    with run m i2 show ?thesis by (simp add: catch_def)
  qed
qed

lemma keeps_outcome_of [keeps_rules]: "keeps I m \<Longrightarrow> keeps I (outcome_of m)"
  by (auto simp: keeps_def outcome_of_def split: prod.splits)

lemma keeps_leaf [keeps_rules]:
  "keeps I (ret a)" "keeps I (throw e)" "keeps I (reject_if b e)" "keeps I (require r e)" "keeps I (query g)"
  "keeps I now_app" "keeps I (call_out c x)"
  by (simp_all add: keeps_no_commit no_commit_rules)

lemma keeps_if [keeps_rules]:
  "(b \<Longrightarrow> keeps I m) \<Longrightarrow> (\<not> b \<Longrightarrow> keeps I n) \<Longrightarrow> keeps I (if b then m else n)"
  by simp

lemma keeps_option [keeps_rules]:
  "(x = None \<Longrightarrow> keeps I m) \<Longrightarrow> (\<And>a. x = Some a \<Longrightarrow> keeps I (f a)) \<Longrightarrow>
   keeps I (case x of None \<Rightarrow> m | Some a \<Rightarrow> f a)"
  by (cases x) simp_all

lemma keeps_sum [keeps_rules]:
  "(\<And>e. x = Inl e \<Longrightarrow> keeps I (g e)) \<Longrightarrow> (\<And>a. x = Inr a \<Longrightarrow> keeps I (f a)) \<Longrightarrow>
   keeps I (case x of Inl e \<Rightarrow> g e | Inr a \<Rightarrow> f a)"
  by (cases x) simp_all

lemma keeps_prod [keeps_rules]:
  "(\<And>a b. x = (a, b) \<Longrightarrow> keeps I (f a b)) \<Longrightarrow> keeps I (case x of (a, b) \<Rightarrow> f a b)"
  by (cases x) simp

lemma keeps_let [keeps_rules]: "keeps I (f t) \<Longrightarrow> keeps I (let x = t in f x)"
  by simp

text \<open>A step given by a pure result, \<open>\<lambda>w. (r, w)\<close>.\<close>

lemma no_commit_pure [no_commit_rules]: "no_commit (\<lambda>w. (r w, w))"
  by (simp add: no_commit_def)

lemma no_commit_sum [no_commit_rules]:
  "(\<And>e. x = Inl e \<Longrightarrow> no_commit (g e)) \<Longrightarrow> (\<And>a. x = Inr a \<Longrightarrow> no_commit (f a)) \<Longrightarrow>
   no_commit (case x of Inl e \<Rightarrow> g e | Inr a \<Rightarrow> f a)"
  by (cases x) simp_all

lemma atomic_sum [atomic_rules]:
  "(\<And>e. x = Inl e \<Longrightarrow> atomic (g e)) \<Longrightarrow> (\<And>a. x = Inr a \<Longrightarrow> atomic (f a)) \<Longrightarrow>
   atomic (case x of Inl e \<Rightarrow> g e | Inr a \<Rightarrow> f a)"
  by (cases x) simp_all

text \<open>The databases that any sequence of operations can commit, failures included.\<close>

definition step_of :: "('d, 'a) tx \<Rightarrow> 'd \<Rightarrow> 'd \<Rightarrow> bool" where
  "step_of m d d1 \<longleftrightarrow> (\<exists>w r w1. committed w = d \<and> m w = (r, w1) \<and> committed w1 = d1)"

lemma keeps_step: "keeps I m \<Longrightarrow> step_of m d d1 \<Longrightarrow> I d \<Longrightarrow> I d1"
  unfolding step_of_def by (auto dest: keepsD)

section \<open>Requests to other services\<close>

definition calls_ok :: "(string \<times> string \<times> int \<Rightarrow> bool) \<Rightarrow> ('a \<Rightarrow> bool) \<Rightarrow> ('d, 'a) tx \<Rightarrow> bool" where
  "calls_ok P Q m \<longleftrightarrow> (\<forall>w r w1. m w = (r, w1) \<longrightarrow>
     (\<exists>cs. sent w1 = sent w @ cs \<and> (\<forall>c \<in> set cs. P c)) \<and> (\<forall>a. r = Inr a \<longrightarrow> Q a))"

definition silent :: "('d, 'a) tx \<Rightarrow> bool" where
  "silent m \<longleftrightarrow> (\<forall>w r w1. m w = (r, w1) \<longrightarrow> sent w1 = sent w)"

lemma calls_ok_silent: "silent m \<Longrightarrow> (\<And>w a w1. m w = (Inr a, w1) \<Longrightarrow> Q a) \<Longrightarrow> calls_ok P Q m"
  unfolding calls_ok_def silent_def by (auto intro: exI [of _ "[]"])

lemma silent_tick: "silent tick"
  by (auto simp: silent_def tick_def split: list.splits option.splits)

lemma silent_leaf [call_rules]:
  "silent (ret a)" "silent (throw e)" "silent (reject_if b e)" "silent (require r e)" "silent now_app"
  by (auto simp: silent_def ret_def throw_def reject_if_def require_def now_app_def split: option.splits)

lemma silent_seq [call_rules]:
  assumes "silent m" and "\<And>a. silent (f a)"
  shows "silent (seq m f)"
  unfolding silent_def
proof (intro allI impI)
  fix w r w1
  assume run: "seq m f w = (r, w1)"
  obtain r2 w2 where m: "m w = (r2, w2)" by (cases "m w")
  then have s: "sent w2 = sent w" using assms(1) by (simp add: silent_def)
  show "sent w1 = sent w"
  proof (cases r2)
    case (Inl e)
    with run m s show ?thesis by (simp add: seq_def)
  next
    case (Inr a)
    with run m have "f a w2 = (r, w1)" by (simp add: seq_def)
    with s show ?thesis using assms(2) [of a] by (simp add: silent_def)
  qed
qed

lemma silent_statement [call_rules]:
  "silent (query g)" "silent (exec h)" "silent (exec_ret k)" "silent commit"
  unfolding query_def exec_def exec_ret_def commit_def
  by (rule silent_seq [OF silent_tick]; auto simp: silent_def split: sum.splits)+

lemma silent_if [call_rules]: "silent m \<Longrightarrow> silent n \<Longrightarrow> silent (if b then m else n)"
  by simp

lemma calls_okD:
  assumes "calls_ok P Q m" and "m w = (r, w1)"
  shows "\<exists>cs. sent w1 = sent w @ cs \<and> (\<forall>c \<in> set cs. P c)" and "r = Inr a \<Longrightarrow> Q a"
  using assms by (simp_all add: calls_ok_def)

lemma calls_ok_seq:
  assumes "calls_ok P Q m" and "\<And>a. Q a \<Longrightarrow> calls_ok P R (f a)"
  shows "calls_ok P R (seq m f)"
  unfolding calls_ok_def
proof (intro allI impI)
  fix w r w1
  assume run: "seq m f w = (r, w1)"
  obtain r2 w2 where m: "m w = (r2, w2)" by (cases "m w")
  obtain cs where cs: "sent w2 = sent w @ cs" "\<forall>c \<in> set cs. P c" using calls_okD(1) [OF assms(1) m] by auto
  show "(\<exists>cs. sent w1 = sent w @ cs \<and> (\<forall>c \<in> set cs. P c)) \<and> (\<forall>a. r = Inr a \<longrightarrow> R a)"
  proof (cases r2)
    case (Inl e)
    with run m cs show ?thesis by (auto simp: seq_def)
  next
    case (Inr a)
    with run m have "f a w2 = (r, w1)" by (simp add: seq_def)
    note rest = calls_okD [OF assms(2) [OF calls_okD(2) [OF assms(1) m Inr]] this]
    obtain cs2 where "sent w1 = sent w2 @ cs2" "\<forall>c \<in> set cs2. P c" using rest(1) by auto
    with cs rest(2) show ?thesis by (intro conjI exI [of _ "cs @ cs2"]) auto
  qed
qed

lemma calls_ok_call: "P c \<Longrightarrow> calls_ok P (\<lambda>a. a = x) (call_out c x)"
  by (auto simp: calls_ok_def call_out_def)

lemma calls_ok_weaken: "calls_ok P Q m \<Longrightarrow> (\<And>a. Q a \<Longrightarrow> R a) \<Longrightarrow> calls_ok P R m"
  unfolding calls_ok_def by blast

lemma calls_ok_quiet: "silent m \<Longrightarrow> calls_ok P (\<lambda>_. True) m"
  by (rule calls_ok_silent) simp_all

section \<open>Steps that only read\<close>

named_theorems read_rules "steps that change nothing but the fault schedule"

definition reads_only :: "('d, 'a) tx \<Rightarrow> bool" where
  "reads_only m \<longleftrightarrow> (\<forall>w r w1. m w = (r, w1) \<longrightarrow> quiet w w1 \<and> sent w1 = sent w)"

lemma reads_onlyD:
  assumes "reads_only m" and "m w = (r, w1)"
  shows "quiet w w1" "sent w1 = sent w" "committed w1 = committed w" "working w1 = working w"
  using assms by (auto simp: reads_only_def dest: quietD)

lemma reads_only_seq [read_rules]:
  assumes "reads_only m" and "\<And>a. reads_only (f a)"
  shows "reads_only (seq m f)"
  unfolding reads_only_def
proof (intro allI impI)
  fix w r w1
  assume run: "seq m f w = (r, w1)"
  obtain r2 w2 where m: "m w = (r2, w2)" by (cases "m w")
  note c = reads_onlyD(1,2) [OF assms(1) m]
  show "quiet w w1 \<and> sent w1 = sent w"
  proof (cases r2)
    case (Inl e)
    with run m have "w1 = w2" by (simp add: seq_def)
    with c show ?thesis by simp
  next
    case (Inr a)
    with run m have "f a w2 = (r, w1)" by (simp add: seq_def)
    from reads_onlyD(1,2) [OF assms(2) this] c show ?thesis by (auto intro: quiet_trans)
  qed
qed

lemma reads_only_tick: "reads_only tick"
  unfolding reads_only_def quiet_def
  by (auto simp: tick_def split: list.splits option.splits)

lemma reads_only_leaf [read_rules]:
  "reads_only (ret a)" "reads_only (throw e)" "reads_only (reject_if b e)" "reads_only (require r e)" "reads_only now_app"
  by (auto simp: reads_only_def ret_def throw_def reject_if_def require_def now_app_def split: option.splits)

lemma reads_only_query [read_rules]: "reads_only (query g)"
  unfolding query_def by (rule reads_only_seq [OF reads_only_tick]) (simp add: reads_only_def)

lemma reads_only_split [read_rules]:
  "(b \<Longrightarrow> reads_only m) \<Longrightarrow> (\<not> b \<Longrightarrow> reads_only n) \<Longrightarrow> reads_only (if b then m else n)"
  "(x = None \<Longrightarrow> reads_only m) \<Longrightarrow> (\<And>a. x = Some a \<Longrightarrow> reads_only (f a)) \<Longrightarrow>
   reads_only (case x of None \<Rightarrow> m | Some a \<Rightarrow> f a)"
  "(\<And>a b. z = (a, b) \<Longrightarrow> reads_only (k a b)) \<Longrightarrow> reads_only (case z of (a, b) \<Rightarrow> k a b)"
  by (simp_all split: option.splits prod.splits)

lemma step_of_atomic:
  assumes "step_of m d d1" and "atomic m"
  obtains (unchanged) "d1 = d" | (finished) w a w1 where "committed w = d" "m w = (Inr a, w1)" "committed w1 = d1"
proof -
  from assms(1) obtain w r w1 where w: "committed w = d" "m w = (r, w1)" "committed w1 = d1"
    unfolding step_of_def by blast
  show thesis
  proof (cases r)
    case (Inl e)
    with w atomicD [OF assms(2)] have "d1 = d" by auto
    then show thesis by (rule unchanged)
  next
    case (Inr a)
    with w finished show thesis by blast
  qed
qed

subsection \<open>Rules for composing requests\<close>

named_theorems request_rules "how the requests of a composed operation are judged"

lemma calls_ok_leaf [request_rules]:
  "Q a \<Longrightarrow> calls_ok P Q (ret a)" "calls_ok P Q (throw e)"
  by (auto simp: calls_ok_def ret_def throw_def)

lemma calls_ok_request [request_rules]:
  assumes "P c" and "calls_ok P Q (f x)"
  shows "calls_ok P Q (seq (call_out c x) f)"
proof (rule calls_ok_seq)
  show "calls_ok P (\<lambda>a. a = x) (call_out c x)" using assms(1) by (rule calls_ok_call)
qed (use assms(2) in simp)

lemma calls_ok_after [request_rules]:
  assumes "silent m" and "\<And>a. calls_ok P Q (f a)"
  shows "calls_ok P Q (seq m f)"
  by (rule calls_ok_seq [OF calls_ok_quiet [OF assms(1)]]) (rule assms(2))

lemma calls_ok_split [request_rules]:
  "(b \<Longrightarrow> calls_ok P Q m) \<Longrightarrow> (\<not> b \<Longrightarrow> calls_ok P Q n) \<Longrightarrow> calls_ok P Q (if b then m else n)"
  "(x = None \<Longrightarrow> calls_ok P Q m) \<Longrightarrow> (\<And>a. x = Some a \<Longrightarrow> calls_ok P Q (f a)) \<Longrightarrow>
   calls_ok P Q (case x of None \<Rightarrow> m | Some a \<Rightarrow> f a)"
  "(\<And>e. y = Inl e \<Longrightarrow> calls_ok P Q (g e)) \<Longrightarrow> (\<And>a. y = Inr a \<Longrightarrow> calls_ok P Q (h a)) \<Longrightarrow>
   calls_ok P Q (case y of Inl e \<Rightarrow> g e | Inr a \<Rightarrow> h a)"
  "(\<And>a b. z = (a, b) \<Longrightarrow> calls_ok P Q (k a b)) \<Longrightarrow> calls_ok P Q (case z of (a, b) \<Rightarrow> k a b)"
  by (simp_all split: option.splits sum.splits prod.splits)

lemma seq_reading:
  assumes "reads_only m" and "seq m f w = (r, w1)"
  obtains (stopped) e where "r = Inl e" "sent w1 = sent w"
    | (goes_on) a w2 where "m w = (Inr a, w2)" "quiet w w2" "sent w2 = sent w" "f a w2 = (r, w1)"
proof -
  obtain r2 w2 where m: "m w = (r2, w2)" by (cases "m w")
  note c = reads_onlyD(1,2) [OF assms(1) m]
  show thesis
  proof (cases r2)
    case (Inl e)
    with assms(2) m c show thesis by (intro stopped [of e]) (auto simp: seq_def)
  next
    case (Inr a)
    with assms(2) m c show thesis by (intro goes_on [of a w2]) (auto simp: seq_def)
  qed
qed

lemma in_tx_run:
  assumes "in_tx m w = (r, w1)"
  obtains (stopped) e where "r = Inl e" "sent w1 = sent w" "committed w1 = committed w"
    | (body) w2 where "m ((ticked w)\<lparr>working := committed w\<rparr>) = (r, w2)" "sent w1 = sent w2" "committed w1 = committed w2"
proof (cases "ok_next w")
  case True
  with assms obtain w2 where "m ((ticked w)\<lparr>working := committed w\<rparr>) = (r, w2)" "w1 = w2\<lparr>working := committed w2\<rparr>"
    by (auto simp: in_tx_def seq_def tick_ok split: prod.splits)
  then show thesis by (intro body [of w2]) simp_all
next
  case False
  with assms have "\<exists>e. r = Inl e" "sent w1 = sent w" "committed w1 = committed w"
    by (auto simp: in_tx_def seq_def tick_def ok_next_def split: list.splits option.splits)
  with stopped show thesis by blast
qed

section \<open>Operations that leave some tables alone\<close>

named_theorems frame_rules "operations that leave a part of the database as it is"

definition frames :: "('d \<Rightarrow> 'v) \<Rightarrow> ('d, 'b) tx \<Rightarrow> bool" where
  "frames V m \<longleftrightarrow> (\<forall>v w r w1. V (committed w) = v \<longrightarrow> V (working w) = v \<longrightarrow> m w = (r, w1) \<longrightarrow>
     V (committed w1) = v \<and> V (working w1) = v)"

lemma framesD:
  assumes "frames V m" "V (committed w) = v" "V (working w) = v" "m w = (r, w1)"
  shows "V (committed w1) = v" "V (working w1) = v"
  using assms unfolding frames_def by blast+

lemma framesI:
  assumes "\<And>v w r w1. V (committed w) = v \<Longrightarrow> V (working w) = v \<Longrightarrow> m w = (r, w1) \<Longrightarrow>
     V (committed w1) = v \<and> V (working w1) = v"
  shows "frames V m"
  unfolding frames_def using assms by blast

lemma frames_reads: "reads_only m \<Longrightarrow> frames V m"
  by (rule framesI) (auto dest: reads_onlyD)

lemma frames_seq [frame_rules]:
  assumes "frames V m" and "\<And>a. frames V (f a)"
  shows "frames V (seq m f)"
proof (rule framesI)
  fix v w r w1
  assume v: "V (committed w) = v" "V (working w) = v" and run: "seq m f w = (r, w1)"
  obtain r2 w2 where m: "m w = (r2, w2)" by (cases "m w")
  note c = framesD [OF assms(1) v m]
  show "V (committed w1) = v \<and> V (working w1) = v"
  proof (cases r2)
    case (Inl e)
    with run m c show ?thesis by (simp add: seq_def)
  next
    case (Inr a)
    with run m have "f a w2 = (r, w1)" by (simp add: seq_def)
    from framesD [OF assms(2) c this] show ?thesis by simp
  qed
qed

lemma frames_tick: "frames V tick"
  by (rule framesI) (auto simp: tick_def split: list.splits option.splits)

lemma frames_leaf [frame_rules]:
  "frames V (ret a)" "frames V (throw e)" "frames V (reject_if b e)" "frames V (require x e)" "frames V now_app"
  "frames V (query g)"
  by (intro frames_reads read_rules)+

lemma frames_pure [frame_rules]: "frames V (\<lambda>w. (x w, w))"
  by (rule framesI) simp

lemma frames_exec [frame_rules]: "(\<And>w. V (g w) = V (working w)) \<Longrightarrow> frames V (exec g)"
  unfolding exec_def by (rule frames_seq [OF frames_tick]) (rule framesI, auto)

lemma frames_exec_ret [frame_rules]:
  "(\<And>w a d. g w = Inr (a, d) \<Longrightarrow> V d = V (working w)) \<Longrightarrow> frames V (exec_ret g)"
  unfolding exec_ret_def by (rule frames_seq [OF frames_tick]) (rule framesI, auto split: sum.splits)

lemma keeps_pool_exec:
  assumes g: "\<And>w a d. g w = Inr (a, d) \<Longrightarrow> V d = V (working w)"
  shows "keeps (\<lambda>d. V d = v) (pool_exec g)"
proof (rule keeps_atomic [OF atomic_pool_exec])
  fix w a w1
  assume v: "V (committed w) = v" and "pool_exec g w = (Inr a, w1)"
  then obtain d where "g ((ticked w)\<lparr>working := committed w\<rparr>) = Inr (a, d)" "committed w1 = d"
    by (auto simp: pool_exec_Inr)
  from g [OF this(1)] this(2) v show "V (committed w1) = v" by simp
qed

lemma frames_commit [frame_rules]: "frames V commit"
  unfolding commit_def by (rule frames_seq [OF frames_tick]) (rule framesI, auto)

lemma frames_catch [frame_rules]:
  assumes "frames V m" and "\<And>e. frames V (h e)"
  shows "frames V (catch m h)"
proof (rule framesI)
  fix v w r w1
  assume v: "V (committed w) = v" "V (working w) = v" and run: "catch m h w = (r, w1)"
  obtain r2 w2 where m: "m w = (r2, w2)" by (cases "m w")
  note c = framesD [OF assms(1) v m]
  show "V (committed w1) = v \<and> V (working w1) = v"
  proof (cases r2)
    case (Inr a)
    with run m c show ?thesis by (simp add: catch_def)
  next
    case (Inl e)
    with run m have "h e w2 = (r, w1)" by (simp add: catch_def)
    from framesD [OF assms(2) c this] show ?thesis by simp
  qed
qed

lemma frames_outcome:
  assumes "frames V m"
  shows "frames V (outcome_of m)"
proof (rule framesI)
  fix v w r w1
  assume v: "V (committed w) = v" "V (working w) = v" and "outcome_of m w = (r, w1)"
  then have "m w = (fst (m w), w1)" by (simp add: outcome_of_def split: prod.splits)
  from framesD [OF assms v this] show "V (committed w1) = v \<and> V (working w1) = v" by simp
qed

lemma frames_split [frame_rules]:
  "(b \<Longrightarrow> frames V m) \<Longrightarrow> (\<not> b \<Longrightarrow> frames V n) \<Longrightarrow> frames V (if b then m else n)"
  "(x = None \<Longrightarrow> frames V m) \<Longrightarrow> (\<And>a. x = Some a \<Longrightarrow> frames V (f a)) \<Longrightarrow>
   frames V (case x of None \<Rightarrow> m | Some a \<Rightarrow> f a)"
  "(\<And>a b. z = (a, b) \<Longrightarrow> frames V (k a b)) \<Longrightarrow> frames V (case z of (a, b) \<Rightarrow> k a b)"
  by (simp_all split: option.splits prod.splits)

lemma keeps_in_tx:
  assumes "frames V m"
  shows "keeps (\<lambda>d. V d = v) (in_tx m)"
  unfolding keeps_def
proof (intro allI impI)
  fix w r w1
  assume v: "V (committed w) = v" and run: "in_tx m w = (r, w1)"
  from run show "V (committed w1) = v"
  proof (cases rule: in_tx_run)
    case (stopped e)
    with v show ?thesis by simp
  next
    case (body w2)
    from framesD(1) [OF assms _ _ body(1)] body(3) v show ?thesis by simp
  qed
qed

end
