(* ===== verification/TxLogic.thy ===== *)
theory TxLogic
  imports Contracts
begin

text \<open>
  A Hoare logic of transactions. \<open>secures J P m Q\<close>: from a world whose committed database satisfies \<open>J\<close> and whose
  working copy satisfies \<open>P\<close>, whatever statement fails, \<open>m\<close> ends with a committed database that satisfies \<open>J\<close>, and if it
  succeeds its working copy satisfies \<open>Q\<close> of the result.
\<close>

definition secures :: "('d \<Rightarrow> bool) \<Rightarrow> ('d \<Rightarrow> bool) \<Rightarrow> ('d, 'a) tx \<Rightarrow> ('a \<Rightarrow> 'd \<Rightarrow> bool) \<Rightarrow> bool" where
  "secures J P m Q \<longleftrightarrow> (\<forall>w r w1. J (committed w) \<longrightarrow> P (working w) \<longrightarrow> m w = (r, w1) \<longrightarrow>
     J (committed w1) \<and> (case r of Inl _ \<Rightarrow> True | Inr a \<Rightarrow> Q a (working w1)))"

named_theorems hoare "rules of the Hoare logic"

lemma securesI:
  assumes "\<And>w r w1. J (committed w) \<Longrightarrow> P (working w) \<Longrightarrow> m w = (r, w1) \<Longrightarrow>
     J (committed w1) \<and> (case r of Inl _ \<Rightarrow> True | Inr a \<Rightarrow> Q a (working w1))"
  shows "secures J P m Q"
  unfolding secures_def using assms by blast

lemma securesD:
  assumes "secures J P m Q" "J (committed w)" "P (working w)" "m w = (r, w1)"
  shows "J (committed w1)" "r = Inr a \<Longrightarrow> Q a (working w1)"
proof -
  have "J (committed w1) \<and> (case r of Inl _ \<Rightarrow> True | Inr a \<Rightarrow> Q a (working w1))"
    using assms unfolding secures_def by blast
  then show "J (committed w1)" "r = Inr a \<Longrightarrow> Q a (working w1)" by simp_all
qed

lemma secures_seq:
  assumes "secures J P m R" and "\<And>a. secures J (R a) (f a) Q"
  shows "secures J P (seq m f) Q"
proof (rule securesI)
  fix w r w1
  assume w: "J (committed w)" "P (working w)" and run: "seq m f w = (r, w1)"
  obtain r2 w2 where m: "m w = (r2, w2)" by (cases "m w")
  note c = securesD [OF assms(1) w m]
  show "J (committed w1) \<and> (case r of Inl _ \<Rightarrow> True | Inr a \<Rightarrow> Q a (working w1))"
  proof (cases r2)
    case (Inl e)
    with run m have "r = Inl e" "w1 = w2" by (simp_all add: seq_def)
    with c(1) show ?thesis by simp
  next
    case (Inr a)
    with run m have "f a w2 = (r, w1)" by (simp add: seq_def)
    note f = securesD [OF assms(2) c(1) c(2) [OF Inr] this]
    show ?thesis using f by (cases r) simp_all
  qed
qed

lemma secures_weaken:
  assumes "secures J P1 m Q1" "\<And>d. P d \<Longrightarrow> P1 d" "\<And>a d. Q1 a d \<Longrightarrow> Q a d"
  shows "secures J P m Q"
proof (rule securesI)
  fix w r w1
  assume w: "J (committed w)" "P (working w)" and run: "m w = (r, w1)"
  note c = securesD [OF assms(1) w(1) assms(2) [OF w(2)] run]
  show "J (committed w1) \<and> (case r of Inl _ \<Rightarrow> True | Inr a \<Rightarrow> Q a (working w1))"
    using c assms(3) by (cases r) simp_all
qed

lemma tick_frame: "tick w = (r, w1) \<Longrightarrow> committed w1 = committed w \<and> working w1 = working w"
  using reads_onlyD(3,4) [OF reads_only_tick] by blast

lemma secures_tick:
  assumes "\<And>w w1 r. J (committed w) \<Longrightarrow> P (working w) \<Longrightarrow> f () w = (r, w1) \<Longrightarrow>
    J (committed w1) \<and> (case r of Inl _ \<Rightarrow> True | Inr a \<Rightarrow> Q a (working w1))"
  shows "secures J P (seq tick f) Q"
proof (rule secures_seq)
  show "secures J P tick (\<lambda>_. P)"
    by (rule securesI) (auto dest!: tick_frame split: sum.split)
  show "secures J P (f a) Q" for a by (rule securesI) (use assms in simp)
qed

lemma secures_query: "(\<And>w. P (working w) \<Longrightarrow> Q (g w) (working w)) \<Longrightarrow> secures J P (query g) Q"
  unfolding query_def by (rule secures_tick) auto

lemma secures_exec: "(\<And>w. P (working w) \<Longrightarrow> Q () (g w)) \<Longrightarrow> secures J P (exec g) Q"
  unfolding exec_def by (rule secures_tick) auto

lemma secures_exec_ret:
  "(\<And>w a d. P (working w) \<Longrightarrow> g w = Inr (a, d) \<Longrightarrow> Q a d) \<Longrightarrow> secures J P (exec_ret g) Q"
  unfolding exec_ret_def by (rule secures_tick) (auto split: sum.splits)

lemma secures_commit [hoare]: "(\<And>d. P d \<Longrightarrow> J d) \<Longrightarrow> (\<And>d. P d \<Longrightarrow> Q () d) \<Longrightarrow> secures J P commit Q"
  unfolding commit_def by (rule secures_tick) auto

lemma secures_ret [hoare]: "(\<And>d. P d \<Longrightarrow> Q a d) \<Longrightarrow> secures J P (ret a) Q"
  by (rule securesI) (auto simp: ret_def)

lemma secures_throw [hoare]: "secures J P (throw e) Q"
  by (rule securesI) (auto simp: throw_def)

lemma secures_split [hoare]:
  "(b \<Longrightarrow> secures J P m Q) \<Longrightarrow> (\<not> b \<Longrightarrow> secures J P k Q) \<Longrightarrow> secures J P (if b then m else k) Q"
  "(x = None \<Longrightarrow> secures J P m Q) \<Longrightarrow> (\<And>a. x = Some a \<Longrightarrow> secures J P (f a) Q) \<Longrightarrow>
   secures J P (case x of None \<Rightarrow> m | Some a \<Rightarrow> f a) Q"
  "(\<And>a b. z = (a, b) \<Longrightarrow> secures J P (g a b) Q) \<Longrightarrow> secures J P (case z of (a, b) \<Rightarrow> g a b) Q"
  "(\<And>e. y = Inl e \<Longrightarrow> secures J P (i e) Q) \<Longrightarrow> (\<And>a. y = Inr a \<Longrightarrow> secures J P (h a) Q) \<Longrightarrow>
   secures J P (case y of Inl e \<Rightarrow> i e | Inr a \<Rightarrow> h a) Q"
  by (simp_all split: option.splits prod.splits sum.splits)

text \<open>Forward rules for a statement and what follows it.\<close>

lemma secures_after_query [hoare]:
  assumes "\<And>a. secures J (\<lambda>d. P d \<and> (\<exists>w. working w = d \<and> g w = a)) (f a) Q"
  shows "secures J P (seq (query g) f) Q"
  by (rule secures_seq [OF secures_query assms]) auto

lemma secures_after_require [hoare]: "(\<And>a. x = Some a \<Longrightarrow> secures J P (f a) Q) \<Longrightarrow> secures J P (seq (require x e) f) Q"
  by (cases x) (simp_all add: require_def seq_def ret_def throw_def secures_def)

lemma secures_after_reject [hoare]: "(\<not> b \<Longrightarrow> secures J P (f ()) Q) \<Longrightarrow> secures J P (seq (reject_if b e) f) Q"
  by (cases b) (simp_all add: reject_if_def seq_def ret_def throw_def secures_def)

lemma secures_after_now [hoare]:
  assumes "\<And>t. secures J P (f t) Q"
  shows "secures J P (seq now_app f) Q"
proof (rule secures_seq)
  show "secures J P now_app (\<lambda>_. P)" by (rule securesI) (auto simp: now_app_def)
qed (rule assms)

lemma secures_after_exec [hoare]:
  assumes "\<And>w. P (working w) \<Longrightarrow> P (g w)" "secures J P (f ()) Q"
  shows "secures J P (seq (exec g) f) Q"
  by (rule secures_seq [OF secures_exec [where Q = "\<lambda>_. P"]]) (use assms in simp_all)

lemma secures_after_commit [hoare]:
  assumes "\<And>d. P d \<Longrightarrow> J d" "secures J P (f ()) Q"
  shows "secures J P (seq commit f) Q"
  by (rule secures_seq [OF secures_commit [where Q = "\<lambda>_. P"]]) (use assms in simp_all)

lemma secures_after_lift [hoare]: "(\<And>a. x = Inr a \<Longrightarrow> secures J P (f a) Q) \<Longrightarrow> secures J P (seq (case x of Inl e \<Rightarrow> throw e | Inr a \<Rightarrow> ret a) f) Q"
  by (cases x) (simp_all add: seq_def ret_def throw_def secures_def)

text \<open>A handler that only renames the error of a statement.\<close>

lemma secures_rename:
  assumes "secures J P m Q"
  shows "secures J P (catch m (\<lambda>e. throw (g e))) Q"
proof (rule securesI)
  fix w r w1
  assume w: "J (committed w)" "P (working w)" and run: "catch m (\<lambda>e. throw (g e)) w = (r, w1)"
  obtain r2 w2 where m: "m w = (r2, w2)" by (cases "m w")
  note c = securesD [OF assms w m]
  show "J (committed w1) \<and> (case r of Inl _ \<Rightarrow> True | Inr a \<Rightarrow> Q a (working w1))"
    using run m c by (cases r2) (auto simp: catch_def throw_def)
qed

text \<open>Statements that leave a part \<open>k\<close> of the tables alone keep every condition on it.\<close>

definition leaves :: "('d \<Rightarrow> 'k) \<Rightarrow> ('d, 'a) tx \<Rightarrow> bool" where
  "leaves k m \<longleftrightarrow> (\<forall>w r w1. m w = (r, w1) \<longrightarrow> committed w1 = committed w \<and> k (working w1) = k (working w))"

lemma leavesD: "leaves k m \<Longrightarrow> m w = (r, w1) \<Longrightarrow> committed w1 = committed w \<and> k (working w1) = k (working w)"
  unfolding leaves_def by blast

lemma leaves_seq: "leaves k m \<Longrightarrow> (\<And>a. leaves k (f a)) \<Longrightarrow> leaves k (seq m f)"
  unfolding leaves_def seq_def by (force split: prod.splits sum.splits)

lemma leaves_catch: "leaves k m \<Longrightarrow> (\<And>e. leaves k (h e)) \<Longrightarrow> leaves k (catch m h)"
  unfolding leaves_def catch_def by (force split: prod.splits sum.splits)

lemma leaves_leaf: "leaves k (ret a)" "leaves k (throw e)" "leaves k (reject_if b e)" "leaves k (require x e)" "leaves k now_app"
  by (auto simp: leaves_def ret_def throw_def reject_if_def require_def now_app_def split: option.splits)

lemma leaves_tick: "leaves k tick"
  unfolding leaves_def using tick_frame by auto

lemma leaves_query: "leaves k (query g)"
  unfolding query_def by (rule leaves_seq [OF leaves_tick]) (simp add: leaves_def)

lemma leaves_exec: "(\<And>w. k (g w) = k (working w)) \<Longrightarrow> leaves k (exec g)"
  unfolding exec_def by (rule leaves_seq [OF leaves_tick]) (simp add: leaves_def)

lemma leaves_exec_ret: "(\<And>w a d. g w = Inr (a, d) \<Longrightarrow> k d = k (working w)) \<Longrightarrow> leaves k (exec_ret g)"
  unfolding exec_ret_def by (rule leaves_seq [OF leaves_tick]) (auto simp: leaves_def split: sum.splits)

lemma leaves_if: "(b \<Longrightarrow> leaves k m) \<Longrightarrow> (\<not> b \<Longrightarrow> leaves k n) \<Longrightarrow> leaves k (if b then m else n)"
  by simp

lemmas leaves_rules = leaves_seq leaves_catch leaves_leaf leaves_query leaves_if

lemma secures_leaves:
  assumes "leaves k m" "\<And>d d1. k d1 = k d \<Longrightarrow> P d \<Longrightarrow> P d1"
  shows "secures J P m (\<lambda>_. P)"
proof (rule securesI)
  fix w r w1
  assume w: "J (committed w)" "P (working w)" and run: "m w = (r, w1)"
  from leavesD [OF assms(1) run] w assms(2) [of "working w1" "working w"]
  show "J (committed w1) \<and> (case r of Inl _ \<Rightarrow> True | Inr a \<Rightarrow> P (working w1))" by (auto split: sum.split)
qed

lemma secures_after_leaves:
  assumes "leaves k m" "\<And>d d1. k d1 = k d \<Longrightarrow> P d \<Longrightarrow> P d1" "\<And>a. secures J P (f a) Q"
  shows "secures J P (seq m f) Q"
  by (rule secures_seq [OF secures_leaves [OF assms(1,2)] assms(3)])

text \<open>A whole operation, from any working copy.\<close>

lemma secures_in_tx_result:
  assumes "secures J J m (\<lambda>a _. R a)"
  shows "secures J (\<lambda>_. True) (in_tx m) (\<lambda>a _. R a)"
proof (rule securesI)
  fix w r w1
  assume w: "J (committed w)" and run: "in_tx m w = (r, w1)"
  from run show "J (committed w1) \<and> (case r of Inl e \<Rightarrow> True | Inr a \<Rightarrow> R a)"
  proof (cases rule: in_tx_run)
    case (stopped e)
    with w show ?thesis by simp
  next
    case (body w2)
    have "J (committed w2)" "r = Inr a \<Longrightarrow> R a" for a using securesD [OF assms _ _ body(1)] w by auto
    with body(3) show ?thesis by (simp split: sum.split)
  qed
qed

lemma secures_in_tx: "secures J J m (\<lambda>_ _. True) \<Longrightarrow> secures J (\<lambda>_. True) (in_tx m) (\<lambda>_ _. True)"
  by (rule secures_in_tx_result)

lemma secures_pool_exec:
  assumes "\<And>w a d. J (working w) \<Longrightarrow> g w = Inr (a, d) \<Longrightarrow> J d"
  shows "secures J (\<lambda>_. True) (pool_exec g) (\<lambda>_ _. True)"
  unfolding pool_exec_def
proof (rule secures_tick)
  fix w w1 r
  assume w: "J (committed w)"
    and run: "(case g (w\<lparr>working := committed w\<rparr>) of Inl e \<Rightarrow> (Inl e, w)
      | Inr (a, d) \<Rightarrow> (Inr a, w\<lparr>working := d, committed := d\<rparr>)) = (r, w1)"
  have "J (committed w1)"
  proof (cases "g (w\<lparr>working := committed w\<rparr>)")
    case (Inl e)
    with w run show ?thesis by auto
  next
    case (Inr p)
    obtain a d where "p = (a, d)" by (cases p)
    with Inr assms [of "w\<lparr>working := committed w\<rparr>" a d] w run show ?thesis by auto
  qed
  then show "J (committed w1) \<and> (case r of Inl e \<Rightarrow> True | Inr a \<Rightarrow> True)" by (simp split: sum.split)
qed

lemma secures_never: "(\<And>d. \<not> P d) \<Longrightarrow> secures J P m Q"
  by (simp add: secures_def)

lemma secures_step:
  assumes "secures J (\<lambda>_. True) m (\<lambda>_ _. True)" "step_of m d d1" "J d"
  shows "J d1"
  using assms securesD(1) unfolding step_of_def by blast

end
