(* ===== verification/LedgerHistory.thy ===== *)
theory LedgerHistory
  imports LedgerTheorems Retention TxLogic
begin

text \<open>
  The history of the ledger's tables under every operation of the program that writes them: the
  ledger steps, the retention job and the deletion of accounts. Balances are conserved through
  all of them, and an answered idempotency key stays answered until the job's cutoff passes it.
\<close>

section \<open>Histories\<close>

text \<open>
  One change of the tables, in a history where the retention job does not look past the instant
  \<open>t\<close>: a ledger step, a run of the job whose cutoff for idempotency keys is at most \<open>t\<close>, or the
  deletion of an account.
\<close>

inductive kept_step :: "int \<Rightarrow> 'a ledger_db_scheme \<Rightarrow> 'a ledger_db_scheme \<Rightarrow> bool" where
  kept_ledger: "ledger_step d d' \<Longrightarrow> kept_step t d d'"
| kept_retention: "rp_now p - rp_idempotency p \<le> t \<Longrightarrow> apply_retention lp lk p w = (r, w1) \<Longrightarrow>
     kept_step t (committed w) (committed w1)"
| kept_deletion: "anonymize_account version expected cancel user w = (a, w1) \<Longrightarrow>
     kept_step t (committed w) (committed w1)"

inductive table_reachable :: "'a ledger_db_scheme \<Rightarrow> bool" where
  table_start: "ledger_empty d \<Longrightarrow> table_reachable d"
| table_step: "table_reachable d \<Longrightarrow> kept_step t d d' \<Longrightarrow> table_reachable d'"

lemma ledger_table_reachable: "ledger_reachable d \<Longrightarrow> table_reachable d"
  by (induction rule: ledger_reachable.induct) (blast intro: table_start table_step kept_ledger)+

section \<open>Rules for the two operations\<close>

text \<open>Statements in a row: what holds after each, and what holds after all of them.\<close>

lemma secures_run_statements:
  assumes "\<And>f d. f \<in> set fs \<Longrightarrow> P d \<Longrightarrow> P (f d)"
  shows "secures J P (run_statements fs) (\<lambda>_. P)"
  using assms
proof (induction fs)
  case Nil
  show ?case unfolding run_statements.simps by (rule secures_ret)
next
  case (Cons f fs)
  show ?case
    unfolding run_statements.simps
    by (rule secures_after_exec) (use Cons in auto)
qed

lemma secures_run_all:
  "(\<And>d. P d \<Longrightarrow> Q (fold (\<lambda>f. f) fs d)) \<Longrightarrow> secures J P (run_statements fs) (\<lambda>_. Q)"
proof (induction fs arbitrary: P)
  case Nil
  then show ?case unfolding run_statements.simps by (intro secures_ret) simp
next
  case (Cons f fs)
  show ?case
    unfolding run_statements.simps
  proof (rule secures_seq)
    show "secures J P (exec (\<lambda>w. f (working w))) (\<lambda>_ d'. \<exists>d. P d \<and> d' = f d)"
      by (rule secures_exec) blast
    show "secures J (\<lambda>d'. \<exists>d. P d \<and> d' = f d) (run_statements fs) (\<lambda>_. Q)" for a :: unit
      by (rule Cons.IH) (use Cons.prems in auto)
  qed
qed

lemma leaves_closed_among: "leaves k (closed_among user bs)"
  by (induction bs) (auto intro!: leaves_seq leaves_query leaves_leaf)

text \<open>A condition survives the deletion of an account when its statements keep it.\<close>

lemma anonymize_account_secures:
  assumes close: "\<And>c now f d. f \<in> set (close_brands c now) \<Longrightarrow> P d \<Longrightarrow> P (f d)"
    and leave: "\<And>now f d. f \<in> set (leave_brands user now) \<Longrightarrow> P d \<Longrightarrow> P (f d)"
    and ledger: "\<And>d. P d \<Longrightarrow> P (drop_cards user (forget_operator user (drop_entries user
        (drop_previews user (clear_answers user d)))))"
    and requests: "\<And>email d. P d \<Longrightarrow> P (redact_requests user email d)"
    and users: "\<And>now d. P d \<Longrightarrow> P (d\<lparr>usuarios := update_where (\<lambda>r. u_id r = user) (anonymous_user now) (usuarios d)\<rparr>)"
  shows "secures P (\<lambda>_. True) (anonymize_account version expected cancel user) (\<lambda>_ _. True)"
  unfolding anonymize_account_def
proof (rule secures_in_tx, rule secures_after_query, rule secures_after_require, rule secures_after_reject,
    rule secures_after_query, rule secures_after_leaves [OF leaves_closed_among [of "\<lambda>d. d"]], blast)
  fix row :: "usuario option" and u owned closed
  let ?rest = "\<lambda>now. seq (run_statements (close_brands closed now)) (\<lambda>_.
     seq (run_statements (leave_brands user now)) (\<lambda>_.
     seq (run_statements [clear_answers user, drop_previews user, drop_entries user, forget_operator user, drop_cards user]) (\<lambda>_.
     seq (exec (\<lambda>w. redact_requests user (u_email u) (working w))) (\<lambda>_.
     seq (exec_ret (\<lambda>w. let d = working w in Inr (rows_affected (\<lambda>r. u_id r = user) (usuarios d),
        d\<lparr>usuarios := update_where (\<lambda>r. u_id r = user) (anonymous_user now) (usuarios d)\<rparr>))) (\<lambda>n.
     seq (reject_if (n \<noteq> 1) (Repo ErrPreconditionFailed)) (\<lambda>_. seq commit (\<lambda>_. ret now)))))))"
  have rest: "secures P P (?rest now) (\<lambda>_ _. True)" for now
  proof (rule secures_seq [OF secures_run_statements [OF close]], assumption, assumption,
      rule secures_seq [OF secures_run_statements [OF leave]], assumption, assumption,
      rule secures_seq [OF secures_run_all [where Q = P]])
    show "P (fold (\<lambda>f. f) [clear_answers user, drop_previews user, drop_entries user, forget_operator user, drop_cards user] d)"
      if "P d" for d using ledger [OF that] by simp
    show "secures P P (seq (exec (\<lambda>w. redact_requests user (u_email u) (working w))) (\<lambda>_.
     seq (exec_ret (\<lambda>w. let d = working w in Inr (rows_affected (\<lambda>r. u_id r = user) (usuarios d),
        d\<lparr>usuarios := update_where (\<lambda>r. u_id r = user) (anonymous_user now) (usuarios d)\<rparr>))) (\<lambda>n.
     seq (reject_if (n \<noteq> 1) (Repo ErrPreconditionFailed)) (\<lambda>_. seq commit (\<lambda>_. ret now))))) (\<lambda>_ _. True)" for a :: unit
      by (rule secures_after_exec, rule requests, assumption, rule secures_seq [OF secures_exec_ret [where Q = "\<lambda>_. P"]])
        (auto simp: Let_def intro: users secures_after_reject secures_after_commit secures_ret)
  qed
  have "secures P P (seq (query db_now) ?rest) (\<lambda>_ _. True)"
    by (rule secures_seq [OF secures_query [where Q = "\<lambda>_. P"]], assumption, rule rest)
  then have all: "secures P P (seq (case cancel closed of None \<Rightarrow> ret () | Some e \<Rightarrow> throw e)
      (\<lambda>_. seq (query db_now) ?rest)) (\<lambda>_ _. True)"
    by (cases "cancel closed") (auto intro: secures_seq [OF secures_ret] secures_seq [OF secures_throw])
  show "secures P (\<lambda>d. (P d \<and> (\<exists>w. working w = d \<and> List.find (\<lambda>u. u_id u = user \<and> u_activo u \<and> u_deleted_at u = None) (usuarios (working w)) = row))
       \<and> (\<exists>w. working w = d \<and> owned_brands (working w) user = owned))
     (seq (case cancel closed of None \<Rightarrow> ret () | Some e \<Rightarrow> throw e) (\<lambda>_. seq (query db_now) ?rest)) (\<lambda>_ _. True)"
    by (rule secures_weaken [OF all]) auto
qed

lemma apply_retention_secures:
  assumes "\<And>ids d. P d \<Longrightarrow> P (d\<lparr>previews := filter (\<lambda>v. pv_id v \<notin> set ids) (previews d)\<rparr>)"
    and "\<And>d. P d \<Longrightarrow> P (d\<lparr>solicitudes := filter (\<lambda>s. so_key s \<notin> set (expired_keys lk (rp_now p - rp_idempotency p) (rp_batch p) d)) (solicitudes d)\<rparr>)"
  shows "secures P (\<lambda>_. True) (apply_retention lp lk p) (\<lambda>_ _. True)"
  unfolding apply_retention_def delete_previews_def delete_keys_def
  by (rule secures_seq [OF secures_pool_exec] | rule secures_ret | use assms in \<open>force simp: Let_def\<close>)+

section \<open>Balances\<close>

lemma close_brands_money:
  "f \<in> set (close_brands c now) \<or> f \<in> set (leave_brands user now) \<Longrightarrow>
     map card_money (tarjetas (f d)) = map card_money (tarjetas d) \<and> historiales (f d) = historiales d \<and>
     reversiones (f d) = reversiones d \<and> solicitudes (f d) = solicitudes d"
  by (auto simp: close_brands_def leave_brands_def map_update_where deactivated_card_def card_money_def)

lemma forget_operator_inv:
  assumes "historiales d' = update_where q (\<lambda>h. h\<lparr>h_operador := None\<rparr>) (historiales d)"
    and "tarjetas d' = tarjetas d" "reversiones d' = reversiones d" and inv: "ledger_inv d"
  shows "ledger_inv d'"
proof -
  let ?g = "\<lambda>h. if q h then h\<lparr>h_operador := None\<rparr> else h"
  have h: "historiales d' = map ?g (historiales d)" using assms(1) by (simp add: update_where_def)
  have "entry_effect rs pts cid (?g h) = entry_effect rs pts cid h" for rs pts cid h
    by (cases "q h") (simp_all add: entry_effect_def is_reversed_def signed_amount_def)
  then have bal: "ledger_balance d' pts cid = ledger_balance d pts cid" for pts cid
    by (simp add: ledger_balance_def h assms(3) comp_def)
  have ids: "map h_id (historiales d') = map h_id (historiales d)"
    "map h_operation_id (historiales d') = map h_operation_id (historiales d)"
    by (auto simp: h comp_def)
  have img: "h_id ` set (historiales d') = h_id ` set (historiales d)" using ids(1) by (metis set_map)
  have "historial_ok y \<and> in_int64 (h_before y) \<and> in_int64 (h_after y) \<and> h_tarjeta y \<in> t_id ` set (tarjetas d)"
    if "y \<in> set (historiales d')" for y
  proof -
    from that obtain x where x: "x \<in> set (historiales d)" "y = ?g x" unfolding h by auto
    then have "historial_ok x \<and> in_int64 (h_before x) \<and> in_int64 (h_after x) \<and> h_tarjeta x \<in> t_id ` set (tarjetas d)"
      using inv by (simp add: ledger_inv_def ledger_keys_def)
    then show ?thesis using x(2) by (cases "q x") (simp_all add: historial_ok_def)
  qed
  then have "ledger_keys d'" using inv assms(2,3) by (simp add: ledger_inv_def ledger_keys_def ids img)
  then show ?thesis using inv assms(2) by (auto simp: ledger_inv_def card_balanced_def bal)
qed

text \<open>The entries of the user's cards go together with the cards; the other cards keep theirs.\<close>

lemma drop_ledger_inv:
  assumes inv: "ledger_inv d"
  shows "ledger_inv (drop_cards user (drop_entries user d))"
proof -
  let ?keep = "\<lambda>h. \<not> user_card d user (h_tarjeta h)"
  let ?gone = "set (map h_id (filter (\<lambda>h. user_card d user (h_tarjeta h)) (historiales d)))"
  let ?d = "drop_cards user (drop_entries user d)"
  have keys: "ledger_keys d" using inv by (simp add: ledger_inv_def)
  have f: "tarjetas ?d = filter (\<lambda>t. t_usuario t \<noteq> user) (tarjetas d)"
    "historiales ?d = filter ?keep (historiales d)"
    "reversiones ?d = filter (\<lambda>r. rv_movimiento r \<notin> ?gone) (reversiones d)"
    by (simp_all add: drop_cards_def drop_entries_def Let_def)
  have kept_id: "h_id h \<notin> ?gone" if "h \<in> set (historiales d)" "?keep h" for h
    using that keys by (auto simp: ledger_keys_def dest: distinct_key_unique)
  have other: "\<not> user_card d user (t_id t)" if "t \<in> set (tarjetas d)" "t_usuario t \<noteq> user" for t
    using that keys by (auto simp: ledger_keys_def user_card_def list_ex_iff dest: distinct_key_unique)
  have eff: "entry_effect (reversiones ?d) pts cid h = entry_effect (reversiones d) pts cid h"
    if "h \<in> set (filter ?keep (historiales d))" for pts cid h
  proof -
    have "h_id h \<notin> ?gone" using kept_id [of h] that by simp
    then have "r \<in> set (reversiones ?d) \<longleftrightarrow> r \<in> set (reversiones d)" if "rv_movimiento r = h_id h" for r
      unfolding f set_filter using that by simp
    then have "is_reversed (reversiones ?d) h = is_reversed (reversiones d) h"
      unfolding is_reversed_def list_ex_iff by blast
    then show ?thesis by (simp add: entry_effect_def)
  qed
  have bal: "ledger_balance ?d pts cid = ledger_balance d pts cid" if "\<not> user_card d user cid" for pts cid
  proof -
    have "ledger_balance ?d pts cid = sum_list (map (entry_effect (reversiones d) pts cid) (filter ?keep (historiales d)))"
      unfolding ledger_balance_def f(2) using eff by (intro arg_cong [where f = sum_list] map_cong) auto
    also have "\<dots> = ledger_balance d pts cid"
      unfolding ledger_balance_def using that by (intro sum_list_map_filter) (auto simp: entry_effect_def)
    finally show ?thesis .
  qed
  have "h_tarjeta h \<in> t_id ` set (tarjetas ?d)" if "h \<in> set (historiales d)" "?keep h" for h
    using that keys by (force simp: f ledger_keys_def user_card_def list_ex_iff)
  moreover have "rv_movimiento r \<in> h_id ` set (historiales ?d)" if "r \<in> set (reversiones ?d)" for r
    using that keys by (fastforce simp: f ledger_keys_def)
  ultimately have "ledger_keys ?d"
    using keys by (auto simp: ledger_keys_def f distinct_map_filter)
  moreover have "card_balanced ?d t" if "t \<in> set (tarjetas ?d)" for t
    using that inv bal [OF other [of t]] by (auto simp: f ledger_inv_def card_balanced_def)
  ultimately show ?thesis by (simp add: ledger_inv_def)
qed

lemma forget_ledger_inv:
  assumes "ledger_inv d"
  shows "ledger_inv (drop_cards user (forget_operator user (drop_entries user (drop_previews user (clear_answers user d)))))"
proof (rule forget_operator_inv)
  let ?d = "drop_previews user (clear_answers user d)"
  have "ledger_inv ?d" using assms by (subst ledger_inv_cong [of _ d]) (simp_all add: drop_previews_def clear_answers_def)
  then show "ledger_inv (drop_cards user (drop_entries user ?d))" by (rule drop_ledger_inv)
qed (auto simp: drop_cards_def forget_operator_def)

lemma retention_inv: "secures ledger_inv (\<lambda>_. True) (apply_retention lp lk p) (\<lambda>_ _. True)"
proof (rule apply_retention_secures)
  show "ledger_inv (d\<lparr>previews := vs\<rparr>)" if "ledger_inv d" for d :: "'a ledger_db_scheme" and vs
    using that ledger_inv_cong [of "d\<lparr>previews := vs\<rparr>" d] by simp
  show "ledger_inv (d\<lparr>solicitudes := ss\<rparr>)" if "ledger_inv d" for d :: "'a ledger_db_scheme" and ss
    using that ledger_inv_cong [of "d\<lparr>solicitudes := ss\<rparr>" d] by simp
qed

lemma anonymize_inv: "secures ledger_inv (\<lambda>_. True) (anonymize_account version expected cancel user) (\<lambda>_ _. True)"
proof (rule anonymize_account_secures)
  show "ledger_inv (f d)" if "f \<in> set (close_brands c now)" "ledger_inv d" for c now f and d :: "'a ledger_db_scheme"
    using card_money_inv [of "f d" d] close_brands_money [of f c now] that by blast
  show "ledger_inv (f d)" if "f \<in> set (leave_brands user now)" "ledger_inv d" for now f and d :: "'a ledger_db_scheme"
    using card_money_inv [of "f d" d] close_brands_money [of f _ now user] that by blast
  show "ledger_inv (redact_requests user email d)" if "ledger_inv d" for email and d :: "'a ledger_db_scheme"
    using that ledger_inv_cong [of "redact_requests user email d" d] by (simp add: redact_requests_def)
  show "ledger_inv (d\<lparr>usuarios := us\<rparr>)" if "ledger_inv d" for d :: "'a ledger_db_scheme" and us
    using that ledger_inv_cong [of "d\<lparr>usuarios := us\<rparr>" d] by simp
qed (rule forget_ledger_inv)

lemma kept_step_inv: "kept_step t d d' \<Longrightarrow> ledger_inv d \<Longrightarrow> ledger_inv d'"
proof (induction rule: kept_step.induct)
  case (kept_ledger d d' t)
  then show ?case by (rule ledger_step_inv)
next
  case (kept_retention p t lp lk w r w1)
  then show ?case using securesD(1) [OF retention_inv] by blast
next
  case (kept_deletion version expected cancel user w a w1 t)
  then show ?case using securesD(1) [OF anonymize_inv] by blast
qed

lemma table_reachable_inv: "table_reachable d \<Longrightarrow> ledger_inv d"
proof (induction rule: table_reachable.induct)
  case (table_start d)
  then show ?case by (intro ledger_reachable_inv ledger_reachable.start)
next
  case (table_step d t d')
  then show ?case by (blast intro: kept_step_inv)
qed

text \<open>
  C1. In every state the tables reach, by any sequence of previews, confirmations and reversals
  with any inputs and any database failures, runs of the retention job, deletions of accounts and
  changes inside the frame of the other requests, a card's balance of points and its balance of
  stamps are the sums of its entries of that kind which were not reversed, and neither is
  negative.
\<close>

theorem ledger_conserves_balances:
  assumes "table_reachable d" and "t \<in> set (tarjetas d)"
  shows "t_puntos t = ledger_balance d True (t_id t) \<and> t_sellos t = ledger_balance d False (t_id t) \<and>
    0 \<le> t_puntos t \<and> 0 \<le> t_sellos t"
  using table_reachable_inv [OF assms(1)] assms(2)
  by (auto simp: ledger_inv_def card_balanced_def)

theorem ledger_conserves_balances_witness:
  "80 = ledger_balance (committed demo_confirmed) True 1"
proof -
  obtain t where t: "tarjetas (committed demo_confirmed) = [t]" "t_id t = 1" "t_puntos t = 80"
    using demo_confirmed_card by (cases "tarjetas (committed demo_confirmed)") auto
  then show ?thesis
    using ledger_conserves_balances [OF ledger_table_reachable [OF demo_reachable(2)], of t] by simp
qed

section \<open>Keys\<close>

text \<open>
  The row of a key that was answered at \<open>t\<close> with \<open>status\<close> and \<open>body\<close>: the deletion of an account
  may empty the stored body, nothing else of the answer changes.
\<close>

definition answered :: "int \<Rightarrow> int \<Rightarrow> string \<Rightarrow> solicitud \<Rightarrow> bool" where
  "answered t status body s \<longleftrightarrow> so_estado s = ''COMPLETED'' \<and> so_status s = Some status \<and>
     so_completed s = Some t \<and> (so_body s = Some body \<or> so_body s = Some ''{}'')"

definition key_answered :: "string \<Rightarrow> int \<Rightarrow> int \<Rightarrow> string \<Rightarrow> 'a ledger_db_scheme \<Rightarrow> bool" where
  "key_answered k t status body d \<longleftrightarrow>
     unique_keys d \<and> (\<exists>s. find_solicitud k d = Some s \<and> answered t status body s)"

lemma key_answered_cong:
  "solicitudes d' = solicitudes d \<Longrightarrow> key_answered k t st b d' = key_answered k t st b d"
  by (simp add: key_answered_def find_solicitud_def unique_keys_def)

lemma find_update_key:
  "(\<And>r. k (f r) = k r) \<Longrightarrow> List.find (\<lambda>r. k r = x) (update_where q f rows) =
     map_option (\<lambda>r. if q r then f r else r) (List.find (\<lambda>r. k r = x) rows)"
  by (induction rows) auto

lemma unique_keys_update:
  "solicitudes d' = update_where q f (solicitudes d) \<Longrightarrow> (\<And>s. so_key (f s) = so_key s) \<Longrightarrow>
   unique_keys d' = unique_keys d"
  by (simp add: unique_keys_def map_update_where)

lemma key_answered_update:
  assumes "solicitudes d' = update_where q f (solicitudes d)" "\<And>s. so_key (f s) = so_key s"
    and "\<And>s. answered t st b s \<Longrightarrow> answered t st b (f s)" and "key_answered k t st b d"
  shows "key_answered k t st b d'"
proof -
  from assms(4) obtain s where s: "find_solicitud k d = Some s" "answered t st b s" and u: "unique_keys d"
    by (auto simp: key_answered_def)
  have "find_solicitud k d' = Some (if q s then f s else s)"
    using s(1) by (simp add: find_solicitud_def assms(1) find_update_key [of so_key f, OF assms(2)])
  moreover have "answered t st b (if q s then f s else s)" using assms(3) s(2) by simp
  ultimately show ?thesis using u unique_keys_update [OF assms(1,2)] by (simp add: key_answered_def)
qed

text \<open>The job deletes rows completed before its cutoff; a later one stays.\<close>

lemma key_answered_retained:
  assumes cutoff: "cutoff \<le> t" and key: "key_answered k t st b d"
  shows "key_answered k t st b (d\<lparr>solicitudes := filter (\<lambda>s. so_key s \<notin> set (expired_keys lk cutoff n d)) (solicitudes d)\<rparr>)"
proof -
  from key obtain s where s: "find_solicitud k d = Some s" "answered t st b s" and u: "unique_keys d"
    by (auto simp: key_answered_def)
  have sk: "s \<in> set (solicitudes d)" "so_key s = k" using find_member s(1) by (fastforce simp: find_solicitud_def)+
  have "k \<notin> set (expired_keys lk cutoff n d)"
  proof
    assume "k \<in> set (expired_keys lk cutoff n d)"
    then obtain x where x: "so_key x = k" "x \<in> set (solicitudes d)" "the (so_completed x) < cutoff"
      by (auto simp: expired_keys_def dest!: in_set_takeD)
    have "x = s" using distinct_key_unique [of so_key, OF u [unfolded unique_keys_def] x(2) sk(1)] x(1) sk(2) by simp
    with x(3) s(2) cutoff show False by (simp add: answered_def)
  qed
  then have "s \<in> set (filter (\<lambda>s. so_key s \<notin> set (expired_keys lk cutoff n d)) (solicitudes d))" using sk by simp
  moreover have "distinct (map so_key (filter (\<lambda>s. so_key s \<notin> set (expired_keys lk cutoff n d)) (solicitudes d)))"
    using u by (simp add: unique_keys_def distinct_map_filter)
  ultimately show ?thesis
    using s(2) find_key [of so_key _ s] sk(2) by (auto simp: key_answered_def unique_keys_def find_solicitud_def)
qed

lemma reverse_requests:
  assumes "reverse_brand_movement new_op actor brand original w = (r, w1)"
  shows "solicitudes (committed w1) = solicitudes (committed w)"
proof (cases r)
  case (Inl e)
  with assms show ?thesis by (auto dest: atomicD [OF atomic_reverse])
next
  case (Inr a)
  with assms show ?thesis
    by (auto simp: reverse_brand_movement_def reverse_fresh_def reversal_after_def update_balance_Inr insert_reversion_Inr
        notify_card_def tx_run Let_def split: option.splits if_splits)
qed

lemma step_key_answered:
  assumes "ledger_step d d'" and "key_answered k t st b d"
  shows "key_answered k t st b d'"
  using assms
proof (induction rule: ledger_step.induct)
  case (preview_step civil uuid actor req qr fp w r w1)
  then show ?case using key_answered_cong [OF preview_frame(1) [OF preview_step(1)]] by simp
next
  case (confirm_step civil op_id ci build w r w1)
  from confirm_step(1) show ?case
  proof (cases rule: confirm_run_cases)
    case (2 p g c h body tn dn)
    from 2(1) confirm_step(2) have other: "k \<noteq> ci_key ci" by (auto simp: key_answered_def)
    let ?row = "pending_row (ci_key ci) (actor_scope (ci_actor ci)) (''CONFIRM_'' @ ci_operation ci) (ci_fingerprint ci)"
    have s: "solicitudes (committed w1) = update_where (\<lambda>s. so_key s = ci_key ci) (complete_row dn 201 body) (solicitudes (committed w) @ [?row])"
      using 2(2) by (simp add: confirmed_def)
    have "ci_key ci \<notin> so_key ` set (solicitudes (committed w))"
      using 2(1) by (auto simp: find_solicitud_def find_None_iff)
    moreover have "map so_key (solicitudes (committed w1)) = map so_key (solicitudes (committed w)) @ [ci_key ci]"
      unfolding s by (subst map_update_where) (simp_all add: pending_row_def)
    ultimately have "unique_keys (committed w1)"
      using confirm_step(2) by (simp add: unique_keys_def key_answered_def)
    then show ?thesis
      using confirm_step(2) unfolding key_answered_def confirmed_settles(3) [OF 2(2,1) other] by blast
  qed (use confirm_step in simp)
next
  case (reverse_step new_op actor brand original w r w1)
  then show ?case using key_answered_cong [OF reverse_requests [OF reverse_step(1)]] by simp
next
  case (other_step d d')
  then show ?case by (auto simp: key_answered_def ledger_frame_def)
qed

lemma close_brands_requests:
  "f \<in> set (close_brands c now) \<Longrightarrow> key_answered k t st b (f d) = key_answered k t st b d"
  by (rule key_answered_cong) (use close_brands_money in blast)

lemma leave_brands_requests:
  "f \<in> set (leave_brands user now) \<Longrightarrow> key_answered k t st b (f d) = key_answered k t st b d"
  by (rule key_answered_cong) (use close_brands_money in blast)

lemma retention_key_answered:
  assumes "rp_now p - rp_idempotency p \<le> t"
  shows "secures (key_answered k t st b) (\<lambda>_. True) (apply_retention lp lk p) (\<lambda>_ _. True)"
proof (rule apply_retention_secures)
  show "key_answered k t st b (d\<lparr>previews := vs\<rparr>)" if "key_answered k t st b d" for d :: "'a ledger_db_scheme" and vs
    using that key_answered_cong [of "d\<lparr>previews := vs\<rparr>" d] by simp
qed (rule key_answered_retained [OF assms])

lemma anonymize_key_answered:
  "secures (key_answered k t st b) (\<lambda>_. True) (anonymize_account version expected cancel user) (\<lambda>_ _. True)"
proof (rule anonymize_account_secures)
  fix d :: "'a ledger_db_scheme" and email now
  assume d: "key_answered k t st b d"
  show "key_answered k t st b (drop_cards user (forget_operator user (drop_entries user (drop_previews user (clear_answers user d)))))"
    by (rule key_answered_update [OF _ _ _ d, where q = "answer_names_user d user" and f = "\<lambda>s. s\<lparr>so_body := Some ''{}''\<rparr>"])
      (auto simp: drop_cards_def forget_operator_def drop_entries_def drop_previews_def clear_answers_def answered_def Let_def)
  show "key_answered k t st b (redact_requests user email d)"
    unfolding redact_requests_def
    by (rule key_answered_update [OF _ _ _ d, where f = "redacted_request user email"])
      (auto simp: redacted_request_def answered_def)
  show "key_answered k t st b (d\<lparr>usuarios := us\<rparr>)" for us
    using d key_answered_cong [of "d\<lparr>usuarios := us\<rparr>" d] by simp
qed (simp_all add: close_brands_requests leave_brands_requests)

lemma kept_step_answered: "kept_step t d d' \<Longrightarrow> key_answered k t st b d \<Longrightarrow> key_answered k t st b d'"
proof (induction rule: kept_step.induct)
  case (kept_ledger d d' t)
  then show ?case by (rule step_key_answered)
next
  case (kept_retention p t lp lk w r w1)
  then show ?case using securesD(1) [OF retention_key_answered [OF kept_retention(1)]] by blast
next
  case (kept_deletion version expected cancel user w a w1 t)
  then show ?case using securesD(1) [OF anonymize_key_answered] by blast
qed

lemma kept_steps_answered:
  assumes "(kept_step t)\<^sup>*\<^sup>* d d'" and "key_answered k t st b d"
  shows "key_answered k t st b d'"
  using assms by (induction rule: rtranclp_induct) (blast intro: kept_step_answered)+

lemma confirmed_key_answered:
  assumes run: "confirm_movement civil op_id ci build w = (Inr r, w1)" "\<not> ir_replayed r"
    and keys: "unique_keys (committed w)"
  shows "key_answered (ci_key ci) (db_now w) (ir_status r) (ir_body r) (committed w1)"
proof -
  let ?row = "pending_row (ci_key ci) (actor_scope (ci_actor ci)) (''CONFIRM_'' @ ci_operation ci) (ci_fingerprint ci)"
  from confirm_movement_Inr [OF run(1)] run(2) obtain p g t h body where
    fresh: "find_solicitud (ci_key ci) (committed w) = None"
    and c: "confirmed ci (app_now w) (db_now w) ((committed w)\<lparr>solicitudes := solicitudes (committed w) @ [?row]\<rparr>)
         (committed w1) p g t h body"
    and r: "r = \<lparr>ir_status = 201, ir_body = body, ir_replayed = False\<rparr>" by blast
  have "find_solicitud (ci_key ci) (committed w1) = Some (complete_row (db_now w) 201 body ?row)"
    using confirmed_settles(1) [OF c fresh] by (simp add: settled_def)
  moreover have "answered (db_now w) 201 body (complete_row (db_now w) 201 body ?row)"
    by (simp add: answered_def complete_row_def)
  moreover have "map so_key (solicitudes (committed w1)) = map so_key (solicitudes (committed w)) @ [ci_key ci]"
    using c unfolding confirmed_def by (simp add: map_update_where pending_row_def)
  then have "unique_keys (committed w1)"
    using keys fresh by (auto simp: unique_keys_def find_solicitud_def find_None_iff)
  ultimately show ?thesis by (simp add: key_answered_def r)
qed

text \<open>
  C2. Once a confirmation has posted under an idempotency key, every later confirmation with that
  key either fails or replays the answer (its status, and its body unless the deletion of an
  account emptied it to \<open>\{\}\<close>); it never changes the database. This holds whatever happened in
  between, ledger operations, other requests, deletions of accounts and runs of the retention job,
  as long as the job's cutoff for keys has not passed the instant of the first answer.
\<close>

theorem confirmation_posts_once_per_key:
  assumes keys: "unique_keys (committed w)"
    and first: "confirm_movement civil op_id ci build w = (Inr r, w1)" "\<not> ir_replayed r"
    and between: "(kept_step (db_now w))\<^sup>*\<^sup>* (committed w1) (committed w2)"
    and again: "confirm_movement civil' op_id' ci' build' w2 = (r', w3)" "ci_key ci' = ci_key ci"
  shows "committed w3 = committed w2 \<and>
    (\<forall>a. r' = Inr a \<longrightarrow> ir_replayed a \<and> ir_status a = ir_status r \<and> (ir_body a = ir_body r \<or> ir_body a = ''{}''))"
proof (intro conjI allI impI)
  from kept_steps_answered [OF between confirmed_key_answered [OF first keys]] again(2) obtain s where
    s: "find_solicitud (ci_key ci') (committed w2) = Some s" "answered (db_now w) (ir_status r) (ir_body r) s"
    by (auto simp: key_answered_def)
  show "committed w3 = committed w2"
    using again(1) s(1) by (cases rule: confirm_run_cases) auto
  fix a
  assume r': "r' = Inr a"
  from again(1) [unfolded r' confirm_movement_def in_tx_Inr seq_Inr] obtain cl w4 w5 where
    cl: "claim_idempotency (ci_key ci') (actor_scope (ci_actor ci')) (''CONFIRM_'' @ ci_operation ci')
       (ci_fingerprint ci') ((ticked w2)\<lparr>working := committed w2\<rparr>) = (Inr cl, w4)"
    and rest: "(case cl of Some x \<Rightarrow> ret x | None \<Rightarrow> confirm_fresh civil' op_id' ci' build') w4 = (Inr a, w5)"
    by auto
  from claim_known [OF cl, of s] s rest
  show "ir_replayed a" "ir_status a = ir_status r" "ir_body a = ir_body r \<or> ir_body a = ''{}''"
    by (auto simp: answered_def ret_def)
qed

text \<open>
  The answer of the first confirmation names the movement; the retention job runs when it has not
  yet passed the key, and then the customer's account is deleted. The key still answers.
\<close>

definition demo_answer :: "movement \<Rightarrow> err + string" where
  "demo_answer mv = Inr (mv_operation_id mv)"

definition demo_answered :: "ledger_db world" where
  "demo_answered = snd (confirm_movement (\<lambda>_ _. 0) ''O1'' demo_confirm demo_answer demo_previewed)"

definition demo_policy :: retention_policy where
  "demo_policy = \<lparr>rp_now = 700, rp_batch = 500, rp_preview = 100, rp_idempotency = 700\<rparr>"

definition demo_retained :: "ledger_db world" where
  "demo_retained = snd (apply_retention (\<lambda>_. False) (\<lambda>_. False) demo_policy demo_answered)"

definition demo_deleted :: "ledger_db world" where
  "demo_deleted = snd (anonymize_account 1 1 (\<lambda>_. None) 2 demo_retained)"

lemma demo_deleted_run:
  "map h_id (historiales (committed demo_retained)) = [1]" "historiales (committed demo_deleted) = []"
  "tarjetas (committed demo_deleted) = []"
  by code_simp+

lemma demo_kept: "(kept_step 0)\<^sup>*\<^sup>* (committed demo_answered) (committed demo_deleted)"
proof (rule rtranclp_trans)
  have "kept_step 0 (committed demo_answered) (committed demo_retained)"
    unfolding demo_retained_def
    by (rule kept_retention [OF _ surjective_pairing]) (simp add: demo_policy_def)
  then show "(kept_step 0)\<^sup>*\<^sup>* (committed demo_answered) (committed demo_retained)" by blast
  have "kept_step 0 (committed demo_retained) (committed demo_deleted)"
    unfolding demo_deleted_def by (rule kept_deletion [OF surjective_pairing])
  then show "(kept_step 0)\<^sup>*\<^sup>* (committed demo_retained) (committed demo_deleted)" by blast
qed

theorem confirmation_posts_once_per_key_witness:
  "committed (snd (confirm_movement (\<lambda>_ _. 0) ''O2'' demo_confirm demo_answer demo_deleted)) = committed demo_deleted \<and>
   fst (confirm_movement (\<lambda>_ _. 0) ''O2'' demo_confirm demo_answer demo_deleted) =
     Inr \<lparr>ir_status = 201, ir_body = ''{}'', ir_replayed = True\<rparr>"
proof
  let ?first = "confirm_movement (\<lambda>_ _. 0) ''O1'' demo_confirm demo_answer demo_previewed"
  have "fst ?first = Inr \<lparr>ir_status = 201, ir_body = ''O1'', ir_replayed = False\<rparr>" by code_simp
  then have first: "?first = (Inr \<lparr>ir_status = 201, ir_body = ''O1'', ir_replayed = False\<rparr>, demo_answered)"
    by (simp add: demo_answered_def prod_eq_iff)
  have "unique_keys (committed demo_previewed)" "db_now demo_previewed = 0" by code_simp+
  then show "committed (snd (confirm_movement (\<lambda>_ _. 0) ''O2'' demo_confirm demo_answer demo_deleted)) = committed demo_deleted"
    using confirmation_posts_once_per_key [THEN conjunct1, OF _ first _ _ surjective_pairing] demo_kept by simp
  show "fst (confirm_movement (\<lambda>_ _. 0) ''O2'' demo_confirm demo_answer demo_deleted) =
     Inr \<lparr>ir_status = 201, ir_body = ''{}'', ir_replayed = True\<rparr>" by code_simp
qed

end
