(* ===== verification/RateLimit.thy ===== *)
theory RateLimit
  imports Schema "HOL-Library.Word"
begin

text \<open>
  The request limiter and the one-use proofs (\<^verbatim>\<open>internal/middleware/ratelimit.go\<close>): the fixed
  window kept in memory, the same window kept in Redis by a Lua script, and the two operations
  on proofs. Instants are nanoseconds of the process and milliseconds of Redis. The Redis
  commands the scripts call are modelled by their documented behaviour; each command may be
  lost before or after it ran, and the code sees the same error in both cases. SHA-256 in hex
  is the parameter \<open>hex\<close>. The durations counted for the metrics are not modelled.
\<close>

section \<open>The window in memory\<close>

record rate_entry =
  re_expires :: int
  re_count :: int

type_synonym rate_entries = "(string \<times> rate_entry) list"

definition max_rate_entries :: nat where
  "max_rate_entries = 10000"

definition second_ns :: int where
  "second_ns = 1000000000"

definition sat64 :: "int \<Rightarrow> int" where
  "sat64 x = max (- (2 ^ 63)) (min (2 ^ 63 - 1) x)"

text \<open>\<open>time.Time.Sub\<close> saturates; the sums that follow wrap.\<close>

definition seconds_until :: "int \<Rightarrow> int \<Rightarrow> int" where
  "seconds_until end_t now =
     (let retry = quo64 (sub64 (add64 (sat64 (end_t - now)) second_ns) 1) second_ns in
      if retry < 1 then 1 else retry)"

definition remove_expired :: "int \<Rightarrow> rate_entries \<Rightarrow> rate_entries" where
  "remove_expired now es = filter (\<lambda>(k, e). now < re_expires e) es"

definition set_entry :: "string \<Rightarrow> rate_entry \<Rightarrow> rate_entries \<Rightarrow> rate_entries" where
  "set_entry k e es =
     (if map_of es k = None then es @ [(k, e)] else update_where (\<lambda>x. fst x = k) (\<lambda>_. (k, e)) es)"

definition allow_memory :: "int \<Rightarrow> string \<Rightarrow> int \<Rightarrow> int \<Rightarrow> rate_entries \<Rightarrow> (bool \<times> int) \<times> rate_entries" where
  "allow_memory now key limit window es =
     (case map_of es key of
        Some e \<Rightarrow>
          if now < re_expires e then
            if limit \<le> re_count e then ((False, seconds_until (re_expires e) now), es)
            else ((True, 0), set_entry key (e\<lparr>re_count := re_count e + 1\<rparr>) es)
          else ((True, 0), set_entry key \<lparr>re_expires = now + window, re_count = 1\<rparr> es)
      | None \<Rightarrow>
          let es = (if max_rate_entries \<le> length es then remove_expired now es else es) in
          if max_rate_entries \<le> length es then ((False, seconds_until (now + window) now), es)
          else ((True, 0), set_entry key \<lparr>re_expires = now + window, re_count = 1\<rparr> es))"

section \<open>Redis\<close>

datatype redis_value = Number int | Text string

record redis_entry =
  rd_value :: redis_value
  rd_expires :: "int option"

datatype redis_fault = LostRequest | LostReply

datatype rate_error = Invalid_rate_limit | Redis_failed | Proof_store_unavailable

record limiter_config =
  lc_redis :: bool
  lc_prefix :: string
  lc_fallback :: bool
  lc_hex :: "string \<Rightarrow> string"

record limiter =
  lm_entries :: rate_entries
  lm_store :: "(string \<times> redis_entry) list"
  lm_now :: int \<comment> \<open>ns\<close>
  lm_redis_now :: int \<comment> \<open>ms\<close>
  lm_faults :: "redis_fault option list"
  lm_calls :: "64 word"
  lm_errors :: "64 word"

definition live :: "int \<Rightarrow> redis_entry \<Rightarrow> bool" where
  "live now e \<longleftrightarrow> (case rd_expires e of None \<Rightarrow> True | Some x \<Rightarrow> now < x)"

definition redis_get :: "int \<Rightarrow> (string \<times> redis_entry) list \<Rightarrow> string \<Rightarrow> redis_entry option" where
  "redis_get now st k = (case map_of st k of None \<Rightarrow> None | Some e \<Rightarrow> if live now e then Some e else None)"

definition redis_put :: "string \<Rightarrow> redis_entry \<Rightarrow> (string \<times> redis_entry) list \<Rightarrow> (string \<times> redis_entry) list" where
  "redis_put k e st = (k, e) # filter (\<lambda>x. fst x \<noteq> k) st"

definition redis_del :: "string \<Rightarrow> (string \<times> redis_entry) list \<Rightarrow> (string \<times> redis_entry) list" where
  "redis_del k st = filter (\<lambda>x. fst x \<noteq> k) st"

text \<open>\<open>INCR\<close>, then \<open>PEXPIRE\<close> on the first count, then \<open>PTTL\<close> (-1 without an expiry).
  \<open>INCR\<close> fails on a value that is not an integer, and so does the script; the texts stored
  here are the flows of proofs, which are no numerals.\<close>

definition fixed_window ::
  "int \<Rightarrow> string \<Rightarrow> int \<Rightarrow> (string \<times> redis_entry) list \<Rightarrow> (rate_error + int \<times> int) \<times> (string \<times> redis_entry) list" where
  "fixed_window now k window_ms st =
     (case redis_get now st k of
        None \<Rightarrow> (Inr (1, window_ms),
          redis_put k \<lparr>rd_value = Number 1, rd_expires = Some (now + window_ms)\<rparr> st)
      | Some e \<Rightarrow>
          (case rd_value e of
             Text _ \<Rightarrow> (Inl Redis_failed, st)
           | Number n \<Rightarrow>
               let e1 = e\<lparr>rd_value := Number (n + 1),
                          rd_expires := (if n + 1 = 1 then Some (now + window_ms) else rd_expires e)\<rparr> in
               (Inr (n + 1, case rd_expires e1 of None \<Rightarrow> - 1 | Some x \<Rightarrow> x - now), redis_put k e1 st)))"

text \<open>\<open>if GET = ARGV[1] then DEL; return 1\<close>, and \<open>SET NX PX\<close>.\<close>

definition value_text :: "redis_value \<Rightarrow> string" where
  "value_text v = (case v of Number n \<Rightarrow> show_int n | Text s \<Rightarrow> s)"

definition consume_proof_script ::
  "int \<Rightarrow> string \<Rightarrow> string \<Rightarrow> (string \<times> redis_entry) list \<Rightarrow> (rate_error + bool) \<times> (string \<times> redis_entry) list" where
  "consume_proof_script now k v st =
     (case redis_get now st k of
        None \<Rightarrow> (Inr False, st)
      | Some e \<Rightarrow> if value_text (rd_value e) = v then (Inr True, redis_del k st) else (Inr False, st))"

definition set_nx ::
  "int \<Rightarrow> string \<Rightarrow> string \<Rightarrow> int \<Rightarrow> (string \<times> redis_entry) list \<Rightarrow> (rate_error + bool) \<times> (string \<times> redis_entry) list" where
  "set_nx now k v ttl_ms st =
     (case redis_get now st k of
        None \<Rightarrow> (Inr True, redis_put k \<lparr>rd_value = Text v, rd_expires = Some (now + ttl_ms)\<rparr> st)
      | Some _ \<Rightarrow> (Inr False, st))"

text \<open>A bounded round trip to Redis, with the counters of \<open>recordRedis\<close>.\<close>

definition record_redis :: "bool \<Rightarrow> limiter \<Rightarrow> limiter" where
  "record_redis failed l =
     l\<lparr>lm_calls := lm_calls l + 1, lm_errors := (if failed then lm_errors l + 1 else lm_errors l)\<rparr>"

definition redis_run ::
  "(int \<Rightarrow> (string \<times> redis_entry) list \<Rightarrow> (rate_error + 'a) \<times> (string \<times> redis_entry) list) \<Rightarrow>
   limiter \<Rightarrow> (rate_error + 'a) \<times> limiter" where
  "redis_run cmd l =
     (let l1 = l\<lparr>lm_faults := tl (lm_faults l)\<rparr>; (r, st) = cmd (lm_redis_now l) (lm_store l) in
      case lm_faults l of
        Some LostRequest # _ \<Rightarrow> (Inl Redis_failed, record_redis True l1)
      | Some LostReply # _ \<Rightarrow> (Inl Redis_failed, record_redis True (l1\<lparr>lm_store := st\<rparr>))
      | _ \<Rightarrow> (r, record_redis (isl r) (l1\<lparr>lm_store := st\<rparr>)))"

definition hashed_key :: "limiter_config \<Rightarrow> string \<Rightarrow> string" where
  "hashed_key c key = lc_prefix c @ '':'' @ lc_hex c key"

definition allow_in_memory :: "string \<Rightarrow> int \<Rightarrow> int \<Rightarrow> limiter \<Rightarrow> (bool \<times> int) \<times> limiter" where
  "allow_in_memory key limit window l =
     (case allow_memory (lm_now l) key limit window (lm_entries l) of (r, es) \<Rightarrow> (r, l\<lparr>lm_entries := es\<rparr>))"

definition allow ::
  "limiter_config \<Rightarrow> string \<Rightarrow> int \<Rightarrow> int \<Rightarrow> limiter \<Rightarrow> ((bool \<times> int) \<times> rate_error option) \<times> limiter" where
  "allow c key limit window l =
     (if limit < 1 \<or> window \<le> 0 then (((False, 1), Some Invalid_rate_limit), l)
      else
        let hashed = hashed_key c key; memory = (\<lambda>l. case allow_in_memory hashed limit window l of
               (r, l1) \<Rightarrow> ((r, None), l1)) in
        if \<not> lc_redis c then memory l
        else
          (case redis_run (\<lambda>now. fixed_window now hashed (window sdiv 1000000)) l of
             (Inl e, l1) \<Rightarrow> if lc_fallback c then memory l1 else (((False, 1), Some Redis_failed), l1)
           | (Inr (count, ttl), l1) \<Rightarrow>
               let ttl = (if ttl < 1 then window sdiv 1000000 else ttl);
                   retry = quo64 (add64 ttl 999) 1000 in
               (((count \<le> limit, if retry < 1 then 1 else retry), None), l1)))"

text \<open>Proofs always need Redis and never fall back.\<close>

definition put_proof ::
  "limiter_config \<Rightarrow> string \<Rightarrow> string \<Rightarrow> int \<Rightarrow> limiter \<Rightarrow> (rate_error + bool) \<times> limiter" where
  "put_proof c key v ttl l =
     (if \<not> lc_redis c then (Inl Proof_store_unavailable, l)
      else redis_run (\<lambda>now. set_nx now (hashed_key c key) v (ttl sdiv 1000000)) l)"

definition consume_proof ::
  "limiter_config \<Rightarrow> string \<Rightarrow> string \<Rightarrow> limiter \<Rightarrow> (rate_error + bool) \<times> limiter" where
  "consume_proof c key v l =
     (if \<not> lc_redis c then (Inl Proof_store_unavailable, l)
      else redis_run (\<lambda>now. consume_proof_script now (hashed_key c key) v) l)"

section \<open>The memory window is bounded\<close>

lemma map_of_set_entry [simp]: "map_of (set_entry k e es) = (map_of es)(k \<mapsto> e)"
proof (cases "map_of es k")
  case None
  then show ?thesis by (auto simp: set_entry_def map_add_def split: option.splits)
next
  case (Some x)
  have "map_of (update_where (\<lambda>y. fst y = k) (\<lambda>_. (k, e)) es) = (map_of es)(k \<mapsto> e)" if "map_of es k \<noteq> None"
    using that
  proof (induction es)
    case (Cons y ys)
    show ?case
    proof (cases "map_of ys k")
      case None
      then have "\<forall>z \<in> set ys. fst z \<noteq> k" by (metis map_of_eq_None_iff image_eqI)
      then have "update_where (\<lambda>y. fst y = k) (\<lambda>_. (k, e)) ys = ys" by (intro update_where_none) auto
      with Cons.prems None show ?thesis by (cases y) auto
    next
      case (Some z)
      with Cons.IH show ?thesis by (cases y) auto
    qed
  qed simp
  with Some show ?thesis by (simp add: set_entry_def)
qed

lemma length_set_entry: "length (set_entry k e es) = (if map_of es k = None then length es + 1 else length es)"
  by (simp add: set_entry_def)

lemma length_remove_expired: "length (remove_expired now es) \<le> length es"
  by (simp add: remove_expired_def)

lemma allow_memory_size:
  "length es \<le> max_rate_entries \<Longrightarrow> length (snd (allow_memory now key limit window es)) \<le> max_rate_entries"
  using length_remove_expired [of now es]
  by (auto simp: allow_memory_def Let_def length_set_entry split: option.splits)

section \<open>Runs of the memory window\<close>

text \<open>A sequence of calls, each with its instant, key, limit and window.\<close>

fun run_memory :: "(int \<times> string \<times> int \<times> int) list \<Rightarrow> rate_entries \<Rightarrow> bool list \<times> rate_entries" where
  "run_memory [] es = ([], es)"
| "run_memory ((t, k, l, win) # rs) es =
     (case allow_memory t k l win es of ((ok, _), es1) \<Rightarrow>
        (case run_memory rs es1 of (oks, es2) \<Rightarrow> (ok # oks, es2)))"

lemma run_memory_Cons:
  "allow_memory t k l v es = ((ok, sec), es1) \<Longrightarrow>
     run_memory ((t, k, l, v) # rs) es = (ok # fst (run_memory rs es1), snd (run_memory rs es1))"
  by (simp add: case_prod_beta)

declare run_memory.simps(2) [simp del]

definition allowed_for :: "string \<Rightarrow> (int \<times> string \<times> int \<times> int) list \<Rightarrow> bool list \<Rightarrow> nat" where
  "allowed_for k rs oks = length (filter (\<lambda>(r, ok). fst (snd r) = k \<and> ok) (zip rs oks))"

lemma allowed_for_simps [simp]:
  "allowed_for k [] oks = 0"
  "allowed_for k (r # rs) (ok # oks) = (if fst (snd r) = k \<and> ok then 1 else 0) + allowed_for k rs oks"
  by (simp_all add: allowed_for_def)

lemma map_of_remove_expired:
  "distinct (map fst es) \<Longrightarrow> map_of (remove_expired now es) k =
     (case map_of es k of None \<Rightarrow> None | Some e \<Rightarrow> if now < re_expires e then Some e else None)"
proof (induction es)
  case (Cons x es)
  obtain a b where x: "x = (a, b)" by (cases x)
  show ?case
  proof (cases "k = a")
    case True
    with Cons.prems x have "map_of es k = None" by (simp add: map_of_eq_None_iff)
    with Cons True x show ?thesis by (simp add: remove_expired_def)
  next
    case False
    with Cons x show ?thesis by (simp add: remove_expired_def)
  qed
qed (simp add: remove_expired_def)

lemma distinct_remove_expired: "distinct (map fst es) \<Longrightarrow> distinct (map fst (remove_expired now es))"
  by (simp add: remove_expired_def distinct_map_filter)

lemma distinct_set_entry: "distinct (map fst es) \<Longrightarrow> distinct (map fst (set_entry k e es))"
proof (cases "map_of es k")
  case None
  assume "distinct (map fst es)"
  with None show ?thesis by (auto simp: set_entry_def map_of_eq_None_iff)
next
  case (Some x)
  assume "distinct (map fst es)"
  moreover have "map fst (update_where (\<lambda>x. fst x = k) (\<lambda>_. (k, e)) es) = map fst es"
    by (rule map_update_where) simp
  ultimately show ?thesis using Some by (simp add: set_entry_def)
qed

lemma distinct_allow_memory:
  "distinct (map fst es) \<Longrightarrow> distinct (map fst (snd (allow_memory now key limit window es)))"
  by (auto simp: allow_memory_def Let_def distinct_set_entry distinct_remove_expired split: option.splits)

text \<open>What one call does to the entry of a key: nothing unless it is the call's own key, except
  that an expired entry may go.\<close>

lemma allow_memory_other:
  assumes "distinct (map fst es)" and "k' \<noteq> k"
    and "map_of es k = Some e" "now < re_expires e"
  shows "map_of (snd (allow_memory now k' limit window es)) k = Some e"
  using assms by (auto simp: allow_memory_def Let_def map_of_remove_expired split: option.splits)

lemma allow_memory_other_dead:
  assumes "distinct (map fst es)" and "k' \<noteq> k"
    and "\<forall>e. map_of es k = Some e \<longrightarrow> re_expires e \<le> t0"
  shows "\<forall>e. map_of (snd (allow_memory now k' limit window es)) k = Some e \<longrightarrow> re_expires e \<le> t0"
  using assms by (auto simp: allow_memory_def Let_def map_of_remove_expired split: option.splits if_splits)

lemma allow_memory_own:
  assumes "map_of es k = Some e" "now < re_expires e"
  shows "fst (fst (allow_memory now k limit window es)) = (re_count e < limit)"
    and "map_of (snd (allow_memory now k limit window es)) k =
           Some (if re_count e < limit then e\<lparr>re_count := re_count e + 1\<rparr> else e)"
  using assms by (auto simp: allow_memory_def)

lemma allow_memory_fresh:
  assumes "\<forall>e. map_of es k = Some e \<longrightarrow> re_expires e \<le> now"
  shows "fst (fst (allow_memory now k limit window es)) \<Longrightarrow>
      map_of (snd (allow_memory now k limit window es)) k = Some \<lparr>re_expires = now + window, re_count = 1\<rparr>"
    and "\<not> fst (fst (allow_memory now k limit window es)) \<Longrightarrow>
      \<forall>e. map_of (snd (allow_memory now k limit window es)) k = Some e \<longrightarrow> False"
proof -
  let ?r = "allow_memory now k limit window es"
  have "map_of (remove_expired now es) k = None" if "map_of es k = None"
    using that by (auto simp: map_of_eq_None_iff remove_expired_def)
  then have "(fst (fst ?r) \<longrightarrow> map_of (snd ?r) k = Some \<lparr>re_expires = now + window, re_count = 1\<rparr>) \<and>
      (\<not> fst (fst ?r) \<longrightarrow> map_of (snd ?r) k = None)"
    using assms by (cases "map_of es k") (auto simp: allow_memory_def Let_def)
  then show "fst (fst ?r) \<Longrightarrow> map_of (snd ?r) k = Some \<lparr>re_expires = now + window, re_count = 1\<rparr>"
    "\<not> fst (fst ?r) \<Longrightarrow> \<forall>e. map_of (snd ?r) k = Some e \<longrightarrow> False" by auto
qed

definition calls_within :: "string \<Rightarrow> int \<Rightarrow> int \<Rightarrow> int \<Rightarrow> (int \<times> string \<times> int \<times> int) list \<Rightarrow> bool" where
  "calls_within k limit win t0 rs \<longleftrightarrow>
     (\<forall>(t, k', l, v) \<in> set rs. t0 \<le> t \<and> t < t0 + win \<and> (k' = k \<longrightarrow> l = limit \<and> v = win))"

lemma run_open_window:
  assumes "distinct (map fst es)" and "calls_within k limit win t0 rs"
    and "map_of es k = Some e" "t0 + win \<le> re_expires e" "re_count e \<le> limit"
  shows "int (allowed_for k rs (fst (run_memory rs es))) \<le> limit - re_count e"
  using assms
proof (induction rs arbitrary: es e)
  case (Cons r rs)
  obtain t k' l v where r: "r = (t, k', l, v)" by (cases r) auto
  obtain ok sec es1 where a: "allow_memory t k' l v es = ((ok, sec), es1)" by (metis prod.exhaust)
  have t: "t < re_expires e" and k: "k' = k \<Longrightarrow> l = limit"
    and rest: "calls_within k limit win t0 rs"
    using Cons.prems r by (auto simp: calls_within_def)
  have d: "distinct (map fst es1)" using distinct_allow_memory [OF Cons.prems(1), of t k' l v] a by simp
  show ?case
  proof (cases "k' = k")
    case True
    with allow_memory_own [OF Cons.prems(3) t, of limit v] a k
    have own: "ok = (re_count e < limit)"
      "map_of es1 k = Some (if re_count e < limit then e\<lparr>re_count := re_count e + 1\<rparr> else e)" by auto
    show ?thesis
    proof (cases "re_count e < limit")
      case lt: True
      with own have "map_of es1 k = Some (e\<lparr>re_count := re_count e + 1\<rparr>)" by simp
      from Cons.IH [OF d rest this] Cons.prems(4) lt own(1) True show ?thesis unfolding r run_memory_Cons [OF a] by simp
    next
      case ge: False
      with own have "map_of es1 k = Some e" by simp
      from Cons.IH [OF d rest this] Cons.prems(4,5) ge own(1) True show ?thesis unfolding r run_memory_Cons [OF a] by simp
    qed
  next
    case False
    with allow_memory_other [OF Cons.prems(1) False Cons.prems(3) t] a have "map_of es1 k = Some e" by (metis snd_conv)
    from Cons.IH [OF d rest this] Cons.prems(4,5) False show ?thesis unfolding r run_memory_Cons [OF a] by simp
  qed
qed simp

lemma run_closed_window:
  assumes "distinct (map fst es)" and "calls_within k limit win t0 rs" and "1 \<le> limit"
    and "\<forall>e. map_of es k = Some e \<longrightarrow> re_expires e \<le> t0"
  shows "int (allowed_for k rs (fst (run_memory rs es))) \<le> limit"
  using assms
proof (induction rs arbitrary: es)
  case (Cons r rs)
  obtain t k' l v where r: "r = (t, k', l, v)" by (cases r) auto
  obtain ok sec es1 where a: "allow_memory t k' l v es = ((ok, sec), es1)" by (metis prod.exhaust)
  have t: "t0 \<le> t" and k: "k' = k \<Longrightarrow> l = limit \<and> v = win"
    and rest: "calls_within k limit win t0 rs"
    using Cons.prems r by (auto simp: calls_within_def)
  have d: "distinct (map fst es1)" using distinct_allow_memory [OF Cons.prems(1), of t k' l v] a by simp
  have dead: "\<forall>e. map_of es k = Some e \<longrightarrow> re_expires e \<le> t" using Cons.prems(4) t by auto
  show ?case
  proof (cases "k' = k \<and> ok")
    case True
    with allow_memory_fresh(1) [OF dead, of l v] a k
    have "map_of es1 k = Some \<lparr>re_expires = t + win, re_count = 1\<rparr>" by auto
    from run_open_window [OF d rest this] t Cons.prems(3) True show ?thesis unfolding r run_memory_Cons [OF a] by simp
  next
    case False
    have "\<forall>e. map_of es1 k = Some e \<longrightarrow> re_expires e \<le> t0"
    proof (cases "k' = k")
      case True
      with allow_memory_fresh(2) [OF dead, of l v] a False show ?thesis by simp
    next
      case other: False
      from allow_memory_other_dead [OF Cons.prems(1) other Cons.prems(4), of t l v] a show ?thesis by simp
    qed
    from Cons.IH [OF d rest Cons.prems(3) this] False show ?thesis unfolding r run_memory_Cons [OF a] by auto
  qed
qed simp

text \<open>
  C9. The memory window admits at most \<open>limit\<close> calls of a key within one window: of any calls,
  for this key and others, made during \<open>window\<close> after a moment with no live entry of the key,
  at most \<open>limit\<close> of the key's are allowed. However many keys call, it never holds more than
  10000 entries.
\<close>

theorem memory_window_limits:
  assumes "distinct (map fst es)" and "length es \<le> max_rate_entries" and "1 \<le> limit"
    and "\<forall>(t, k', l, v) \<in> set rs. t0 \<le> t \<and> t < t0 + win \<and> (k' = k \<longrightarrow> l = limit \<and> v = win)"
    and "\<forall>e. map_of es k = Some e \<longrightarrow> re_expires e \<le> t0"
  shows "int (allowed_for k rs (fst (run_memory rs es))) \<le> limit
       \<and> length (snd (run_memory rs es)) \<le> max_rate_entries"
proof
  show "int (allowed_for k rs (fst (run_memory rs es))) \<le> limit"
    using assms by (intro run_closed_window) (auto simp: calls_within_def)
  show "length (snd (run_memory rs es)) \<le> max_rate_entries"
    using assms(2)
  proof (induction rs arbitrary: es)
    case (Cons r rs)
    obtain t k' l v where r: "r = (t, k', l, v)" by (cases r) auto
    obtain ok sec es1 where a: "allow_memory t k' l v es = ((ok, sec), es1)" by (metis prod.exhaust)
    with allow_memory_size [OF Cons.prems, of t k' l v] have "length es1 \<le> max_rate_entries" by simp
    from Cons.IH [OF this] show ?case unfolding r run_memory_Cons [OF a] by simp
  qed simp
qed

theorem memory_window_limits_witness:
  "allowed_for ''a'' [(5, ''a'', 1, 10), (6, ''b'', 2, 10), (9, ''a'', 1, 10)]
     (fst (run_memory [(5, ''a'', 1, 10), (6, ''b'', 2, 10), (9, ''a'', 1, 10)] [])) \<le> 1"
  using memory_window_limits [of "[]" 1 "[(5, ''a'', 1, 10), (6, ''b'', 2, 10), (9, ''a'', 1, 10)]" 0 10 "''a''"]
  by (simp add: max_rate_entries_def)

end
