(* ===== verification/Challenge.thy ===== *)
theory Challenge
  imports RateLimit
begin

text \<open>
  The captcha gate (\<^verbatim>\<open>internal/challenge/challenge.go\<close>): \<open>Begin\<close> stores a state, \<open>Verify\<close> trades
  it and a Turnstile answer for a receipt, \<open>Check\<close> spends the receipt. The store behind it is
  an interface of two operations, here a locale; the limiter's Redis is its interpretation.
  The HTTP call to Turnstile is the argument \<open>answer\<close> and the 32 random bytes, in base64, the
  argument \<open>raw\<close>; \<open>None\<close> is a failure of either.
\<close>

datatype captcha_error = Captcha_unavailable | Captcha_required | Captcha_invalid

record manager =
  mg_enabled :: bool
  mg_store :: bool \<comment> \<open>\<open>m.Store != nil\<close>\<close>
  mg_hostnames :: "string list"

record turnstile =
  ts_success :: bool
  ts_hostname :: string
  ts_action :: string
  ts_cdata :: string
  ts_challenge :: "int option" \<comment> \<open>\<open>None\<close> is the zero time\<close>

type_synonym 's put_op = "string \<Rightarrow> string \<Rightarrow> int \<Rightarrow> 's \<Rightarrow> (rate_error + bool) \<times> 's"
type_synonym 's consume_op = "string \<Rightarrow> string \<Rightarrow> 's \<Rightarrow> (rate_error + bool) \<times> 's"

definition lifetime :: int where
  "lifetime = 120 * second_ns"

definition valid_flow :: "string \<Rightarrow> bool" where
  "valid_flow flow \<longleftrightarrow> flow = ''signup'' \<or> flow = ''identity''"

text \<open>The length of what \<open>base64.RawURLEncoding\<close> decodes: line breaks are skipped, every other
  character is of the URL alphabet, and a quantum of one character is an error.\<close>

definition base64url_char :: "char \<Rightarrow> bool" where
  "base64url_char c = (let n = of_char c :: nat in
     65 \<le> n \<and> n \<le> 90 \<or> 97 \<le> n \<and> n \<le> 122 \<or> 48 \<le> n \<and> n \<le> 57 \<or> n = 45 \<or> n = 95)"

definition raw_url_length :: "string \<Rightarrow> nat option" where
  "raw_url_length s =
     (let t = filter (\<lambda>c. of_char c \<noteq> (10 :: nat) \<and> of_char c \<noteq> (13 :: nat)) s in
      if \<not> list_all base64url_char t \<or> length t mod 4 = 1 then None else Some (length t * 3 div 4))"

definition valid_state :: "string \<Rightarrow> bool" where
  "valid_state s \<longleftrightarrow> (case raw_url_length s of None \<Rightarrow> False | Some n \<Rightarrow> 24 \<le> n \<and> n \<le> 64)"

definition state_key :: "string \<Rightarrow> string" where
  "state_key s = ''captcha-state:'' @ s"

definition receipt_key :: "string \<Rightarrow> string" where
  "receipt_key r = ''captcha-receipt:'' @ r"

definition active :: "manager option \<Rightarrow> bool" where
  "active m \<longleftrightarrow> (case m of None \<Rightarrow> False | Some g \<Rightarrow> mg_enabled g \<and> mg_store g)"

definition begin_challenge ::
  "'s put_op \<Rightarrow> manager option \<Rightarrow> string \<Rightarrow> string \<Rightarrow> 's \<Rightarrow> (captcha_error + unit) \<times> 's" where
  "begin_challenge put m flow state s =
     (if \<not> active m then (Inl Captcha_unavailable, s)
      else if \<not> valid_flow flow \<or> \<not> valid_state state then (Inl Captcha_invalid, s)
      else (case put (state_key state) flow lifetime s of
              (Inl _, s1) \<Rightarrow> (Inl Captcha_unavailable, s1)
            | (Inr ok, s1) \<Rightarrow> if ok then (Inr (), s1) else (Inl Captcha_invalid, s1)))"

definition answer_ok :: "manager \<Rightarrow> string \<Rightarrow> string \<Rightarrow> int \<Rightarrow> turnstile \<Rightarrow> bool" where
  "answer_ok g flow state now a \<longleftrightarrow>
     ts_success a \<and> list_ex (\<lambda>h. h = ts_hostname a) (mg_hostnames g) \<and> ts_action a = flow \<and> ts_cdata a = state \<and>
     (case ts_challenge a of None \<Rightarrow> False
      | Some t \<Rightarrow> \<not> 300 * second_ns < now - t \<and> \<not> now + 60 * second_ns < t)"

definition issue_receipt ::
  "'s put_op \<Rightarrow> string \<Rightarrow> string option \<Rightarrow> 's \<Rightarrow> (captcha_error + string) \<times> 's" where
  "issue_receipt put flow raw s =
     (case raw of
        None \<Rightarrow> (Inl Captcha_unavailable, s)
      | Some r \<Rightarrow>
          (case put (receipt_key r) flow lifetime s of
             (Inr True, s1) \<Rightarrow> (Inr r, s1)
           | (_, s1) \<Rightarrow> (Inl Captcha_unavailable, s1)))"

definition verify_challenge ::
  "'s put_op \<Rightarrow> 's consume_op \<Rightarrow> manager option \<Rightarrow> string \<Rightarrow> string \<Rightarrow> string \<Rightarrow> turnstile option \<Rightarrow> int \<Rightarrow>
   string option \<Rightarrow> 's \<Rightarrow> (captcha_error + string) \<times> 's" where
  "verify_challenge put consume m token flow state answer now raw s =
     (if \<not> active m then (Inl Captcha_unavailable, s)
      else if \<not> valid_flow flow \<or> \<not> valid_state state \<or> length token < 1 \<or> 2048 < length token
      then (Inl Captcha_invalid, s)
      else (case consume (state_key state) flow s of
              (Inl _, s1) \<Rightarrow> (Inl Captcha_unavailable, s1)
            | (Inr False, s1) \<Rightarrow> (Inl Captcha_invalid, s1)
            | (Inr True, s1) \<Rightarrow>
                (case answer of
                   None \<Rightarrow> (Inl Captcha_unavailable, s1)
                 | Some a \<Rightarrow>
                     if \<not> answer_ok (the m) flow state now a then (Inl Captcha_invalid, s1)
                     else issue_receipt put flow raw s1)))"

definition check_challenge ::
  "'s consume_op \<Rightarrow> manager option \<Rightarrow> string \<Rightarrow> string \<Rightarrow> 's \<Rightarrow> (captcha_error + unit) \<times> 's" where
  "check_challenge consume m flow receipt s =
     (case m of
        None \<Rightarrow> (Inr (), s)
      | Some g \<Rightarrow>
          if \<not> mg_enabled g then (Inr (), s)
          else if \<not> mg_store g then (Inl Captcha_unavailable, s)
          else if receipt = '''' then (Inl Captcha_required, s)
          else if length receipt \<noteq> 43 then (Inl Captcha_invalid, s)
          else (case consume (receipt_key receipt) flow s of
                  (Inl _, s1) \<Rightarrow> (Inl Captcha_unavailable, s1)
                | (Inr ok, s1) \<Rightarrow> if ok then (Inr (), s1) else (Inl Captcha_invalid, s1)))"

section \<open>The store as an interface\<close>

text \<open>
  \<open>held s k\<close> is the value a proof has, \<open>rep\<close> the name the store gives a key. An operation
  touches one name; a put succeeds only on a free key; a consume succeeds only on the value
  held and leaves the key free; an operation that fails may or may not have happened.
\<close>

locale proof_store =
  fixes put :: "'s put_op"
    and consume :: "'s consume_op"
    and held :: "'s \<Rightarrow> string \<Rightarrow> string option"
    and rep :: "string \<Rightarrow> string"
    and later :: "'s \<Rightarrow> 's \<Rightarrow> bool"
  assumes put_frame: "put k v ttl s = (r, s') \<Longrightarrow> rep k' \<noteq> rep k \<Longrightarrow> held s' k' = held s k'"
    and put_ok: "put k v ttl s = (Inr True, s') \<Longrightarrow> 1000000 \<le> ttl \<Longrightarrow> held s k = None \<and> held s' k = Some v"
    and consume_frame: "consume k v s = (r, s') \<Longrightarrow> rep k' \<noteq> rep k \<Longrightarrow> held s' k' = held s k'"
    and consume_ok: "consume k v s = (Inr True, s') \<Longrightarrow> held s k = Some v \<and> held s' k = None"
    and consume_no: "consume k v s = (Inr False, s') \<Longrightarrow> held s k \<noteq> Some v \<and> held s' k = held s k"
    and consume_free: "consume k v s = (r, s') \<Longrightarrow> rep k' = rep k \<Longrightarrow> held s k' = None \<Longrightarrow> held s' k' = None"
    and later_free: "later s s' \<Longrightarrow> held s k = None \<Longrightarrow> held s' k = None"
begin

lemma consume_keeps_free: "consume k v s = (r, s') \<Longrightarrow> held s k' = None \<Longrightarrow> held s' k' = None"
  using consume_free consume_frame by metis

lemma begin_keeps_free:
  assumes "begin_challenge put m flow state s = (x, s')" and "held s k = None" and "rep k \<noteq> rep (state_key state)"
  shows "held s' k = None"
  using assms put_frame
  by (fastforce simp: begin_challenge_def split: if_splits prod.splits sum.splits)

lemma issue_keeps_free:
  assumes "issue_receipt put flow raw s = (x, s')" and "held s k = None"
    and "\<And>r. raw = Some r \<Longrightarrow> rep k \<noteq> rep (receipt_key r)"
  shows "held s' k = None"
  using assms put_frame
  by (fastforce simp: issue_receipt_def split: option.splits prod.splits sum.splits bool.splits)

lemma verify_keeps_free:
  assumes run: "verify_challenge put consume m token flow state answer now raw s = (x, s')" and free: "held s k = None"
    and "\<And>r. raw = Some r \<Longrightarrow> rep k \<noteq> rep (receipt_key r)"
  shows "held s' k = None"
proof -
  obtain r1 s1 where c: "consume (state_key state) flow s = (r1, s1)" by (metis prod.exhaust)
  have "held s1 k = None" using consume_keeps_free [OF c free] .
  then show ?thesis using run free assms(3) issue_keeps_free [of flow raw s1 x s' k]
    by (auto simp: verify_challenge_def c split: if_splits sum.splits bool.splits option.splits)
qed

lemma check_keeps_free:
  assumes "check_challenge consume m flow receipt s = (x, s')" and "held s k = None"
  shows "held s' k = None"
  using assms consume_keeps_free
  by (fastforce simp: check_challenge_def split: option.splits if_splits prod.splits sum.splits)

text \<open>A check that lets a request through with an active gate spent a receipt of that flow.\<close>

lemma check_spends:
  assumes "check_challenge consume m flow receipt s = (Inr (), s')" and "active m"
  shows "held s (receipt_key receipt) = Some flow \<and> held s' (receipt_key receipt) = None"
  using assms consume_ok
  by (auto simp: check_challenge_def active_def split: option.splits if_splits prod.splits sum.splits)

lemma check_wrong_flow:
  assumes "check_challenge consume m flow receipt s = (x, s')" and "active m"
    and "held s (receipt_key receipt) \<noteq> Some flow"
  shows "x \<noteq> Inr ()"
  using assms check_spends by (cases x) auto

lemma verify_issues:
  assumes "verify_challenge put consume m token flow state answer now raw s = (Inr r, s')"
  shows "raw = Some r" "held s (state_key state) = Some flow" "held s' (receipt_key r) = Some flow"
    "\<exists>a. answer = Some a \<and> answer_ok (the m) flow state now a"
  using assms put_ok [of "receipt_key r" flow lifetime] consume_ok
  by (auto simp: verify_challenge_def issue_receipt_def lifetime_def second_ns_def
      split: if_splits prod.splits sum.splits bool.splits option.splits)

end

section \<open>Redis keeps the laws\<close>

definition held_proof :: "limiter_config \<Rightarrow> limiter \<Rightarrow> string \<Rightarrow> string option" where
  "held_proof c l k =
     map_option (\<lambda>e. value_text (rd_value e)) (redis_get (lm_redis_now l) (lm_store l) (hashed_key c k))"

text \<open>Time passes; the memory window, the counters and the faults to come may change.\<close>

definition redis_later :: "limiter \<Rightarrow> limiter \<Rightarrow> bool" where
  "redis_later l l' \<longleftrightarrow> lm_store l' = lm_store l \<and> lm_redis_now l \<le> lm_redis_now l'"

lemma redis_get_put [simp]:
  "redis_get now (redis_put k e st) k' = (if k' = k then (if live now e then Some e else None) else redis_get now st k')"
proof -
  have "map_of (filter (\<lambda>x. fst x \<noteq> k) st) k' = (if k' = k then None else map_of st k')"
    by (induction st) auto
  then show ?thesis by (simp add: redis_get_def redis_put_def)
qed

lemma redis_get_del [simp]: "redis_get now (redis_del k st) k' = (if k' = k then None else redis_get now st k')"
proof -
  have "map_of (filter (\<lambda>x. fst x \<noteq> k) st) k' = (if k' = k then None else map_of st k')"
    by (induction st) auto
  then show ?thesis by (simp add: redis_get_def redis_del_def)
qed

lemma redis_get_later: "now \<le> now' \<Longrightarrow> redis_get now st k = None \<Longrightarrow> redis_get now' st k = None"
  by (auto simp: redis_get_def live_def split: option.splits if_splits)

lemma redis_run_cases:
  assumes "redis_run cmd l = (r, l')"
  shows "lm_redis_now l' = lm_redis_now l"
    and "lm_store l' = lm_store l \<and> r = Inl Redis_failed \<or> lm_store l' = snd (cmd (lm_redis_now l) (lm_store l)) \<and>
         (r = Inl Redis_failed \<or> r = fst (cmd (lm_redis_now l) (lm_store l)))"
  using assms
  by (auto simp: redis_run_def record_redis_def Let_def split: prod.splits list.splits option.splits redis_fault.splits)

lemma sdiv_ms: "1000000 \<le> ttl \<Longrightarrow> 0 < ttl sdiv (1000000 :: int)"
  using sdiv_nonneg [of ttl 1000000] by (simp add: pos_imp_zdiv_pos_iff)

interpretation redis_proofs: proof_store "put_proof c" "consume_proof c" "held_proof c" "hashed_key c" redis_later for c
proof unfold_locales
  fix k v ttl r k' and s s' :: limiter
  assume "put_proof c k v ttl s = (r, s')" "hashed_key c k' \<noteq> hashed_key c k"
  then show "held_proof c s' k' = held_proof c s k'"
    using redis_run_cases [of "\<lambda>now. set_nx now (hashed_key c k) v (ttl sdiv 1000000)" s r s']
    by (auto simp: put_proof_def held_proof_def set_nx_def split: if_splits option.splits)
next
  fix k v ttl and s s' :: limiter
  assume a: "put_proof c k v ttl s = (Inr True, s')" "1000000 \<le> ttl"
  then show "held_proof c s k = None \<and> held_proof c s' k = Some v"
    using redis_run_cases [of "\<lambda>now. set_nx now (hashed_key c k) v (ttl sdiv 1000000)" s "Inr True" s'] sdiv_ms [OF a(2)]
    by (auto simp: put_proof_def held_proof_def set_nx_def live_def value_text_def split: if_splits option.splits)
next
  fix k v r k' and s s' :: limiter
  assume "consume_proof c k v s = (r, s')" "hashed_key c k' \<noteq> hashed_key c k"
  then show "held_proof c s' k' = held_proof c s k'"
    using redis_run_cases [of "\<lambda>now. consume_proof_script now (hashed_key c k) v" s r s']
    by (auto simp: consume_proof_def held_proof_def consume_proof_script_def split: if_splits option.splits)
next
  fix k v and s s' :: limiter
  assume "consume_proof c k v s = (Inr True, s')"
  then show "held_proof c s k = Some v \<and> held_proof c s' k = None"
    using redis_run_cases [of "\<lambda>now. consume_proof_script now (hashed_key c k) v" s "Inr True" s']
    by (auto simp: consume_proof_def held_proof_def consume_proof_script_def split: if_splits option.splits)
next
  fix k v and s s' :: limiter
  assume "consume_proof c k v s = (Inr False, s')"
  then show "held_proof c s k \<noteq> Some v \<and> held_proof c s' k = held_proof c s k"
    using redis_run_cases [of "\<lambda>now. consume_proof_script now (hashed_key c k) v" s "Inr False" s']
    by (auto simp: consume_proof_def held_proof_def consume_proof_script_def split: if_splits option.splits)
next
  fix k v r k' and s s' :: limiter
  assume "consume_proof c k v s = (r, s')" "hashed_key c k' = hashed_key c k" "held_proof c s k' = None"
  then show "held_proof c s' k' = None"
    using redis_run_cases [of "\<lambda>now. consume_proof_script now (hashed_key c k) v" s r s']
    by (auto simp: consume_proof_def held_proof_def consume_proof_script_def split: if_splits option.splits)
next
  fix s s' :: limiter and k
  assume "redis_later s s'" "held_proof c s k = None"
  then show "held_proof c s' k = None"
    by (auto simp: redis_later_def held_proof_def intro: redis_get_later)
qed

section \<open>Receipts are spent once\<close>

text \<open>
  What may happen between two checks of the receipt \<open>r\<close>: challenges begun, verified (their
  random bytes are not those of \<open>r\<close>), other checks, rate-limited requests under keys whose
  hash is not that of the receipt, time, and any failures of Redis.
\<close>

inductive captcha_step :: "limiter_config \<Rightarrow> string \<Rightarrow> limiter \<Rightarrow> limiter \<Rightarrow> bool" for c r where
  begin_step: "begin_challenge (put_proof c) m flow state l = (x, l1) \<Longrightarrow> captcha_step c r l l1"
| verify_step: "verify_challenge (put_proof c) (consume_proof c) m token flow state answer now raw l = (y, l1) \<Longrightarrow>
     raw \<noteq> Some r \<Longrightarrow> captcha_step c r l l1"
| check_step: "check_challenge (consume_proof c) m flow receipt l = (x, l1) \<Longrightarrow> captcha_step c r l l1"
| allow_step: "allow c key limit window l = (z, l1) \<Longrightarrow> hashed_key c key \<noteq> hashed_key c (receipt_key r) \<Longrightarrow>
     captcha_step c r l l1"
| time_step: "redis_later l l1 \<Longrightarrow> captcha_step c r l l1"

lemma allow_frame:
  assumes run: "allow c key limit window l = (z, l1)" and other: "hashed_key c key \<noteq> k"
  shows "redis_get (lm_redis_now l1) (lm_store l1) k = redis_get (lm_redis_now l) (lm_store l) k"
proof -
  let ?cmd = "\<lambda>now. fixed_window now (hashed_key c key) (window sdiv 1000000)"
  obtain r l2 where rr: "redis_run ?cmd l = (r, l2)" by (cases "redis_run ?cmd l")
  have "redis_get (lm_redis_now l2) (lm_store l2) k = redis_get (lm_redis_now l) (lm_store l) k"
    using redis_run_cases [OF rr] other
    by (auto simp: fixed_window_def Let_def split: option.splits redis_value.splits)
  moreover have "lm_store l1 = lm_store l \<and> lm_redis_now l1 = lm_redis_now l \<or>
      lm_store l1 = lm_store l2 \<and> lm_redis_now l1 = lm_redis_now l2"
    using run by (auto simp: allow_def allow_in_memory_def Let_def rr split: if_splits prod.splits sum.splits)
  ultimately show ?thesis by auto
qed

lemma hashed_key_inj: "inj (lc_hex c) \<Longrightarrow> hashed_key c a = hashed_key c b \<longleftrightarrow> a = b"
  by (auto simp: hashed_key_def inj_eq)

lemma receipt_state_keys [simp]:
  "receipt_key r \<noteq> state_key s" "receipt_key r = receipt_key r' \<longleftrightarrow> r = r'"
  by (simp_all add: receipt_key_def state_key_def)

lemma captcha_step_free:
  assumes "captcha_step c r l l1" and "inj (lc_hex c)" and "held_proof c l (receipt_key r) = None"
  shows "held_proof c l1 (receipt_key r) = None"
  using assms
proof (induction rule: captcha_step.induct)
  case (begin_step m flow state l x l1)
  then show ?case using redis_proofs.begin_keeps_free by (metis hashed_key_inj receipt_state_keys(1))
next
  case (verify_step m token flow state answer now raw l y l1)
  then show ?case
    by (intro redis_proofs.verify_keeps_free [OF verify_step(1)]) (auto simp: hashed_key_inj)
next
  case (check_step m flow receipt l x l1)
  then show ?case using redis_proofs.check_keeps_free by blast
next
  case (allow_step key limit window l z l1)
  from allow_frame [OF allow_step(1,2)] allow_step(4) show ?case by (simp add: held_proof_def)
next
  case (time_step l l1)
  then show ?case using redis_proofs.later_free by blast
qed

text \<open>
  C8. A receipt lets at most one request through: after a check with it succeeded, no later
  check with it succeeds, under either flow, whatever challenges, checks, rate-limited requests
  and Redis failures come in between, unless the 32 random bytes of a later receipt repeat it
  (SHA-256 taken as injective).
\<close>

theorem receipt_spent_once:
  assumes "inj (lc_hex c)" and "active m"
    and "check_challenge (consume_proof c) m flow r l = (Inr (), l1)"
    and "(captcha_step c r)\<^sup>*\<^sup>* l1 l2"
    and "check_challenge (consume_proof c) m flow' r l2 = (x, l3)"
  shows "x \<noteq> Inr ()"
proof -
  have "held_proof c l1 (receipt_key r) = None" using redis_proofs.check_spends [OF assms(3,2)] by simp
  with assms(4) have "held_proof c l2 (receipt_key r) = None"
    by (induction rule: rtranclp_induct) (auto intro: captcha_step_free [OF _ assms(1)])
  then show ?thesis using redis_proofs.check_wrong_flow [OF assms(5,2)] by simp
qed

text \<open>
  \<open>Verify\<close> issues a receipt only for a state that \<open>Begin\<close> stored for the same flow and that
  it consumes, on an answer of Turnstile for that flow, state, one of the configured hosts and
  the last five minutes; the receipt then held passes a check of its own flow and no other,
  and a check under another flow does not spend it.
\<close>

lemma verify_binds_flow:
  assumes "active m"
    and "verify_challenge (put_proof c) (consume_proof c) m token flow state answer now raw l = (Inr r, l1)"
  shows "held_proof c l (state_key state) = Some flow \<and>
    (\<exists>a. answer = Some a \<and> ts_success a \<and> ts_action a = flow \<and> ts_cdata a = state \<and>
       ts_hostname a \<in> set (mg_hostnames (the m)) \<and> (\<exists>t. ts_challenge a = Some t \<and> now \<le> t + 300 * second_ns)) \<and>
    (\<forall>flow' x l2. flow' \<noteq> flow \<and> lm_faults l1 = [] \<and> check_challenge (consume_proof c) m flow' r l1 = (x, l2) \<longrightarrow>
       x \<noteq> Inr () \<and> held_proof c l2 (receipt_key r) = Some flow)"
proof (intro conjI allI impI; (elim conjE)?)
  note v = redis_proofs.verify_issues [OF assms(2)]
  show "held_proof c l (state_key state) = Some flow" by (rule v(2))
  show "\<exists>a. answer = Some a \<and> ts_success a \<and> ts_action a = flow \<and> ts_cdata a = state \<and>
      ts_hostname a \<in> set (mg_hostnames (the m)) \<and> (\<exists>t. ts_challenge a = Some t \<and> now \<le> t + 300 * second_ns)"
    using v(4) by (auto simp: answer_ok_def list_ex_iff split: option.splits)
  fix flow' x l2
  assume other: "flow' \<noteq> flow" and nf: "lm_faults l1 = []"
    and chk: "check_challenge (consume_proof c) m flow' r l1 = (x, l2)"
  have "held_proof c l1 (receipt_key r) \<noteq> Some flow'" using v(3) other by simp
  then have bad: "x \<noteq> Inr ()" using redis_proofs.check_wrong_flow [OF chk assms(1)] by simp
  obtain y l3 where cs: "consume_proof c (receipt_key r) flow' l1 = (y, l3)" by (metis prod.exhaust)
  have "y \<noteq> Inr True" using redis_proofs.consume_ok cs v(3) other by fastforce
  then have "lm_store l3 = lm_store l1 \<and> lm_redis_now l3 = lm_redis_now l1 \<or> y = Inr False"
    using cs nf by (auto simp: consume_proof_def redis_run_def record_redis_def Let_def consume_proof_script_def
        split: if_splits option.splits)
  then have "held_proof c l3 (receipt_key r) = held_proof c l1 (receipt_key r)"
  proof
    assume "y = Inr False"
    with cs redis_proofs.consume_no show ?thesis by blast
  qed (simp add: held_proof_def)
  with chk v(3) cs bad show "x \<noteq> Inr ()" "held_proof c l2 (receipt_key r) = Some flow"
    by (auto simp: check_challenge_def split: option.splits if_splits sum.splits)
qed

text \<open>A gate, its store and one challenge begun and verified.\<close>

definition demo_limiter_config :: limiter_config where
  "demo_limiter_config = \<lparr>lc_redis = True, lc_prefix = ''p'', lc_fallback = False, lc_hex = (\<lambda>s. s)\<rparr>"

definition demo_limiter :: limiter where
  "demo_limiter = \<lparr>lm_entries = [], lm_store = [], lm_now = 0, lm_redis_now = 0, lm_faults = [],
     lm_calls = 0, lm_errors = 0\<rparr>"

definition demo_gate :: "manager option" where
  "demo_gate = Some \<lparr>mg_enabled = True, mg_store = True, mg_hostnames = [''h'']\<rparr>"

definition demo_state :: string where "demo_state = replicate 32 CHR ''s''"

definition demo_receipt :: string where "demo_receipt = replicate 43 CHR ''r''"

definition demo_begun :: limiter where
  "demo_begun = snd (begin_challenge (put_proof demo_limiter_config) demo_gate ''signup'' demo_state demo_limiter)"

definition demo_answer :: turnstile where
  "demo_answer = \<lparr>ts_success = True, ts_hostname = ''h'', ts_action = ''signup'', ts_cdata = demo_state,
     ts_challenge = Some 0\<rparr>"

definition demo_verified :: limiter where
  "demo_verified = snd (verify_challenge (put_proof demo_limiter_config) (consume_proof demo_limiter_config) demo_gate
     ''t'' ''signup'' demo_state (Some demo_answer) 0 (Some demo_receipt) demo_begun)"

lemma demo_verify_run:
  "verify_challenge (put_proof demo_limiter_config) (consume_proof demo_limiter_config) demo_gate
     ''t'' ''signup'' demo_state (Some demo_answer) 0 (Some demo_receipt) demo_begun = (Inr demo_receipt, demo_verified)"
proof -
  have "fst (verify_challenge (put_proof demo_limiter_config) (consume_proof demo_limiter_config) demo_gate
     ''t'' ''signup'' demo_state (Some demo_answer) 0 (Some demo_receipt) demo_begun) = Inr demo_receipt" by code_simp
  then show ?thesis by (simp add: demo_verified_def prod_eq_iff)
qed

definition demo_checked :: limiter where
  "demo_checked = snd (check_challenge (consume_proof demo_limiter_config) demo_gate ''signup'' demo_receipt demo_verified)"

theorem receipt_spent_once_witness:
  "fst (check_challenge (consume_proof demo_limiter_config) demo_gate ''signup'' demo_receipt demo_checked) \<noteq> Inr ()"
proof -
  have "fst (check_challenge (consume_proof demo_limiter_config) demo_gate ''signup'' demo_receipt demo_verified) = Inr ()"
    by code_simp
  then have "check_challenge (consume_proof demo_limiter_config) demo_gate ''signup'' demo_receipt demo_verified
      = (Inr (), demo_checked)" by (simp add: demo_checked_def prod_eq_iff)
  from receipt_spent_once [OF _ _ this rtranclp.rtrancl_refl surjective_pairing]
  show ?thesis by (simp add: demo_limiter_config_def demo_gate_def active_def inj_def)
qed

lemma verify_binds_flow_example:
  "held_proof demo_limiter_config demo_begun (state_key demo_state) = Some ''signup''"
  by (rule verify_binds_flow [THEN conjunct1, OF _ demo_verify_run]) (simp add: active_def demo_gate_def)

end
