(* ===== verification/Uploads.thy ===== *)
theory Uploads
  imports Prelude
begin

text \<open>
  The admission of uploads (\<^verbatim>\<open>internal/middleware/upload_semaphore.go\<close>) as a step relation:
  any number of requests run \<open>Acquire\<close> and its release function concurrently, and every
  channel operation and every critical section is one step. A buffered channel is the number
  of its elements. Gates are told apart by numbers, as the code tells them apart by address.
\<close>

text \<open>
  Where a request is: \<open>Entered\<close> holds a global slot; \<open>Registered\<close> also counts in its actor's
  gate; \<open>Holding\<close> has every slot and its caller may release; \<open>Refused\<close> and \<open>Refused_global\<close> give
  back after the actor's gate was full; \<open>Releasing\<close> and \<open>Releasing_ref\<close> give back after an upload.
\<close>

datatype upload_pc =
    Outside
  | Entered int
  | Registered int nat
  | Holding int nat
  | Refused int nat
  | Refused_global int nat
  | Releasing int nat
  | Releasing_ref int nat

record upload_limits =
  global_limit :: nat
  actor_limit :: nat

record upload_state =
  global_used :: nat
  gate_slots :: "nat \<Rightarrow> nat"
  gate_refs :: "nat \<Rightarrow> nat"
  actor_gates :: "int \<Rightarrow> nat option"
  next_gate :: nat
  requests :: "upload_pc list"

definition upload_init :: "nat \<Rightarrow> upload_state" where
  "upload_init n = \<lparr>global_used = 0, gate_slots = (\<lambda>_. 0), gate_refs = (\<lambda>_. 0), actor_gates = (\<lambda>_. None),
     next_gate = 0, requests = replicate n Outside\<rparr>"

definition at_pc :: "nat \<Rightarrow> upload_pc \<Rightarrow> upload_state \<Rightarrow> upload_state" where
  "at_pc i pc s = s\<lparr>requests := (requests s)[i := pc]\<rparr>"

text \<open>The critical section of \<open>Acquire\<close>, and \<open>releaseRef\<close>.\<close>

definition register_gate :: "int \<Rightarrow> upload_state \<Rightarrow> nat \<times> upload_state" where
  "register_gate actor s =
     (case actor_gates s actor of
        Some g \<Rightarrow> (g, s\<lparr>gate_refs := (gate_refs s)(g := gate_refs s g + 1)\<rparr>)
      | None \<Rightarrow>
          let g = next_gate s in
          (g, s\<lparr>actor_gates := (actor_gates s)(actor \<mapsto> g), next_gate := g + 1,
                gate_slots := (gate_slots s)(g := 0), gate_refs := (gate_refs s)(g := 1)\<rparr>))"

definition release_ref :: "int \<Rightarrow> nat \<Rightarrow> upload_state \<Rightarrow> upload_state" where
  "release_ref actor g s =
     (let n = gate_refs s g - 1; s = s\<lparr>gate_refs := (gate_refs s)(g := n)\<rparr> in
      if n = 0 then s\<lparr>actor_gates := (actor_gates s)(actor := None)\<rparr> else s)"

inductive upload_step :: "upload_limits \<Rightarrow> upload_state \<Rightarrow> upload_state \<Rightarrow> bool" for lim where
  enter: "i < length (requests s) \<Longrightarrow> requests s ! i = Outside \<Longrightarrow> global_used s < global_limit lim \<Longrightarrow>
     upload_step lim s (at_pc i (Entered a) (s\<lparr>global_used := global_used s + 1\<rparr>))"
| saturated: "i < length (requests s) \<Longrightarrow> requests s ! i = Outside \<Longrightarrow> \<not> global_used s < global_limit lim \<Longrightarrow>
     upload_step lim s s"
| register: "i < length (requests s) \<Longrightarrow> requests s ! i = Entered a \<Longrightarrow> register_gate a s = (g, s1) \<Longrightarrow>
     upload_step lim s (at_pc i (Registered a g) s1)"
| take_slot: "i < length (requests s) \<Longrightarrow> requests s ! i = Registered a g \<Longrightarrow> gate_slots s g < actor_limit lim \<Longrightarrow>
     upload_step lim s (at_pc i (Holding a g) (s\<lparr>gate_slots := (gate_slots s)(g := gate_slots s g + 1)\<rparr>))"
| slot_full: "i < length (requests s) \<Longrightarrow> requests s ! i = Registered a g \<Longrightarrow> \<not> gate_slots s g < actor_limit lim \<Longrightarrow>
     upload_step lim s (at_pc i (Refused a g) s)"
| refuse_global: "i < length (requests s) \<Longrightarrow> requests s ! i = Refused a g \<Longrightarrow> 0 < global_used s \<Longrightarrow>
     upload_step lim s (at_pc i (Refused_global a g) (s\<lparr>global_used := global_used s - 1\<rparr>))"
| refuse_ref: "i < length (requests s) \<Longrightarrow> requests s ! i = Refused_global a g \<Longrightarrow>
     upload_step lim s (at_pc i Outside (release_ref a g s))"
| release_slot: "i < length (requests s) \<Longrightarrow> requests s ! i = Holding a g \<Longrightarrow> 0 < gate_slots s g \<Longrightarrow>
     upload_step lim s (at_pc i (Releasing a g) (s\<lparr>gate_slots := (gate_slots s)(g := gate_slots s g - 1)\<rparr>))"
| release_global: "i < length (requests s) \<Longrightarrow> requests s ! i = Releasing a g \<Longrightarrow> 0 < global_used s \<Longrightarrow>
     upload_step lim s (at_pc i (Releasing_ref a g) (s\<lparr>global_used := global_used s - 1\<rparr>))"
| release_gate: "i < length (requests s) \<Longrightarrow> requests s ! i = Releasing_ref a g \<Longrightarrow>
     upload_step lim s (at_pc i Outside (release_ref a g s))"

section \<open>Counting requests\<close>

fun holds_global :: "upload_pc \<Rightarrow> bool" where
  "holds_global (Entered a) = True"
| "holds_global (Registered a g) = True"
| "holds_global (Holding a g) = True"
| "holds_global (Refused a g) = True"
| "holds_global (Releasing a g) = True"
| "holds_global _ = False"

fun gate_of :: "upload_pc \<Rightarrow> (int \<times> nat) option" where
  "gate_of (Registered a g) = Some (a, g)"
| "gate_of (Holding a g) = Some (a, g)"
| "gate_of (Refused a g) = Some (a, g)"
| "gate_of (Refused_global a g) = Some (a, g)"
| "gate_of (Releasing a g) = Some (a, g)"
| "gate_of (Releasing_ref a g) = Some (a, g)"
| "gate_of _ = None"

fun holds_slot :: "nat \<Rightarrow> upload_pc \<Rightarrow> bool" where
  "holds_slot g (Holding a g') = (g = g')"
| "holds_slot g _ = False"

definition refers :: "nat \<Rightarrow> upload_pc \<Rightarrow> bool" where
  "refers g pc \<longleftrightarrow> (\<exists>a. gate_of pc = Some (a, g))"

definition holding_actor :: "int \<Rightarrow> upload_pc \<Rightarrow> bool" where
  "holding_actor a pc \<longleftrightarrow> (\<exists>g. pc = Holding a g)"

definition count_pc :: "(upload_pc \<Rightarrow> bool) \<Rightarrow> upload_state \<Rightarrow> nat" where
  "count_pc p s = length (filter p (requests s))"

lemma refers_simps [simp]:
  "refers g (Registered a g') = (g = g')" "refers g (Holding a g') = (g = g')"
  "refers g (Refused a g') = (g = g')" "refers g (Refused_global a g') = (g = g')"
  "refers g (Releasing a g') = (g = g')" "refers g (Releasing_ref a g') = (g = g')"
  "\<not> refers g Outside" "\<not> refers g (Entered a)"
  by (auto simp: refers_def)

lemma count_update:
  assumes "i < length xs"
  shows "length (filter p (xs[i := x])) + (if p (xs ! i) then 1 else 0) = length (filter p xs) + (if p x then 1 else 0)"
  using assms
proof (induction xs arbitrary: i)
  case (Cons y ys)
  then show ?case by (cases i) auto
qed simp

lemma count_at_pc:
  "i < length (requests s) \<Longrightarrow>
     count_pc p (at_pc i x s) + (if p (requests s ! i) then 1 else 0) = count_pc p s + (if p x then 1 else 0)"
  by (simp add: count_pc_def at_pc_def count_update)

lemma count_pos: "i < length (requests s) \<Longrightarrow> p (requests s ! i) \<Longrightarrow> 0 < count_pc p s"
  by (auto simp: count_pc_def filter_empty_conv intro!: bexI [of _ "requests s ! i"])

lemma count_zero: "count_pc p s = 0 \<Longrightarrow> pc \<in> set (requests s) \<Longrightarrow> \<not> p pc"
  by (auto simp: count_pc_def filter_empty_conv)

section \<open>The invariant\<close>

definition upload_inv :: "upload_limits \<Rightarrow> upload_state \<Rightarrow> bool" where
  "upload_inv lim s \<longleftrightarrow>
     global_used s = count_pc holds_global s \<and> count_pc holds_global s \<le> global_limit lim \<and>
     (\<forall>g. gate_refs s g = count_pc (refers g) s) \<and>
     (\<forall>g. gate_slots s g = count_pc (holds_slot g) s) \<and>
     (\<forall>g. count_pc (holds_slot g) s \<le> actor_limit lim) \<and>
     (\<forall>pc \<in> set (requests s). \<forall>a g. gate_of pc = Some (a, g) \<longrightarrow> actor_gates s a = Some g) \<and>
     (\<forall>a g. actor_gates s a = Some g \<longrightarrow> g < next_gate s \<and> 0 < gate_refs s g) \<and>
     (\<forall>a b g. actor_gates s a = Some g \<and> actor_gates s b = Some g \<longrightarrow> a = b)"

definition gates_inv :: "upload_state \<Rightarrow> bool" where
  "gates_inv s \<longleftrightarrow>
     (\<forall>pc \<in> set (requests s). \<forall>a g. gate_of pc = Some (a, g) \<longrightarrow> actor_gates s a = Some g) \<and>
     (\<forall>a g. actor_gates s a = Some g \<longrightarrow> g < next_gate s \<and> 0 < gate_refs s g) \<and>
     (\<forall>a b g. actor_gates s a = Some g \<and> actor_gates s b = Some g \<longrightarrow> a = b)"

definition counts_inv :: "upload_limits \<Rightarrow> upload_state \<Rightarrow> bool" where
  "counts_inv lim s \<longleftrightarrow>
     global_used s = count_pc holds_global s \<and> count_pc holds_global s \<le> global_limit lim \<and>
     (\<forall>g. gate_refs s g = count_pc (refers g) s) \<and>
     (\<forall>g. gate_slots s g = count_pc (holds_slot g) s) \<and>
     (\<forall>g. count_pc (holds_slot g) s \<le> actor_limit lim)"

lemma upload_inv_split: "upload_inv lim s \<longleftrightarrow> counts_inv lim s \<and> gates_inv s"
  by (auto simp: upload_inv_def counts_inv_def gates_inv_def)

lemma inv_actor:
  "upload_inv lim s \<Longrightarrow> pc \<in> set (requests s) \<Longrightarrow> gate_of pc = Some (a, g) \<Longrightarrow> actor_gates s a = Some g"
  unfolding upload_inv_def by blast

lemma inv_gate:
  "upload_inv lim s \<Longrightarrow> actor_gates s a = Some g \<Longrightarrow> g < next_gate s \<and> 0 < gate_refs s g"
  unfolding upload_inv_def by blast

lemma inv_inject:
  "upload_inv lim s \<Longrightarrow> actor_gates s a = Some g \<Longrightarrow> actor_gates s b = Some g \<Longrightarrow> a = b"
  unfolding upload_inv_def by blast

lemma count_moved:
  assumes "i < length (requests s)" and "requests s1 = requests s"
  shows "count_pc p (at_pc i x s1) = count_pc p s + (if p x then 1 else 0) - (if p (requests s ! i) then 1 else 0)"
  using count_at_pc [of i s1 p x] count_pos [of i s p] assms
  by (auto simp: count_pc_def split: if_splits)

lemma at_pc_sel [simp]:
  "global_used (at_pc i x s) = global_used s" "gate_slots (at_pc i x s) = gate_slots s"
  "gate_refs (at_pc i x s) = gate_refs s" "actor_gates (at_pc i x s) = actor_gates s"
  "next_gate (at_pc i x s) = next_gate s" "requests (at_pc i x s) = (requests s)[i := x]"
  by (simp_all add: at_pc_def)

lemma gates_moved:
  assumes "gates_inv s" and "i < length (requests s)" and "gate_of x = gate_of (requests s ! i)"
    and "requests s1 = requests s" "actor_gates s1 = actor_gates s" "next_gate s1 = next_gate s" "gate_refs s1 = gate_refs s"
  shows "gates_inv (at_pc i x s1)"
proof -
  have "actor_gates s a = Some g" if "pc \<in> set ((requests s)[i := x])" "gate_of pc = Some (a, g)" for pc a g
  proof -
    from that(1) set_update_subset_insert have "pc = x \<or> pc \<in> set (requests s)" by fastforce
    with that(2) assms(1-3) nth_mem show ?thesis by (metis gates_inv_def)
  qed
  with assms show ?thesis by (auto simp: gates_inv_def)
qed

lemma release_ref_frame [simp]:
  "requests (release_ref a g s) = requests s" "global_used (release_ref a g s) = global_used s"
  "gate_slots (release_ref a g s) = gate_slots s" "next_gate (release_ref a g s) = next_gate s"
  "gate_refs (release_ref a g s) = (gate_refs s)(g := gate_refs s g - 1)"
  "actor_gates (release_ref a g s) = (if gate_refs s g - 1 = 0 then (actor_gates s)(a := None) else actor_gates s)"
  by (simp_all add: release_ref_def Let_def)

lemma register_gate_frame:
  assumes "register_gate a s = (g, s1)"
  shows "requests s1 = requests s" "global_used s1 = global_used s" "actor_gates s1 a = Some g"
    "\<And>b. b \<noteq> a \<Longrightarrow> actor_gates s1 b = actor_gates s b"
    "actor_gates s a = Some g \<and> gate_refs s1 = (gate_refs s)(g := gate_refs s g + 1) \<and> gate_slots s1 = gate_slots s
       \<and> next_gate s1 = next_gate s \<or>
     actor_gates s a = None \<and> g = next_gate s \<and> gate_refs s1 = (gate_refs s)(g := 1) \<and>
       gate_slots s1 = (gate_slots s)(g := 0) \<and> next_gate s1 = g + 1"
  using assms by (auto simp: register_gate_def Let_def split: option.splits)

text \<open>A gate that was never handed out has no references.\<close>

lemma fresh_gate:
  assumes "upload_inv lim s"
  shows "gate_refs s (next_gate s) = 0" "gate_slots s (next_gate s) = 0"
proof -
  have none: "\<not> refers (next_gate s) pc" if "pc \<in> set (requests s)" for pc
    using inv_actor [OF assms that] inv_gate [OF assms] by (fastforce simp: refers_def)
  have c: "counts_inv lim s" using assms by (simp add: upload_inv_split)
  from none have "count_pc (refers (next_gate s)) s = 0" by (auto simp: count_pc_def filter_empty_conv)
  then show "gate_refs s (next_gate s) = 0" using c by (simp add: counts_inv_def)
  have "holds_slot g pc \<Longrightarrow> refers g pc" for g pc by (cases pc) auto
  with none have "count_pc (holds_slot (next_gate s)) s = 0" by (auto simp: count_pc_def filter_empty_conv)
  then show "gate_slots s (next_gate s) = 0" using c by (simp add: counts_inv_def)
qed

lemma register_keeps:
  assumes inv: "upload_inv lim s" and i: "i < length (requests s)" "requests s ! i = Entered a"
    and reg: "register_gate a s = (g, s1)"
  shows "upload_inv lim (at_pc i (Registered a g) s1)"
  unfolding upload_inv_split
proof
  note fr = register_gate_frame [OF reg] and fresh = fresh_gate [OF inv]
  show "counts_inv lim (at_pc i (Registered a g) s1)"
    using inv [unfolded upload_inv_split] fr(2,5) fresh count_moved [OF i(1) fr(1)]
    by (auto simp: counts_inv_def i(2))
  have "actor_gates s1 b = Some h" if "pc \<in> set ((requests s)[i := Registered a g])" "gate_of pc = Some (b, h)" for pc b h
  proof -
    from that(1) set_update_subset_insert have "pc = Registered a g \<or> pc \<in> set (requests s)" by fastforce
    then show ?thesis
    proof
      assume "pc \<in> set (requests s)"
      with that(2) inv_actor [OF inv] have "actor_gates s b = Some h" by blast
      with fr(3-5) show ?thesis by (cases "b = a") auto
    qed (use that(2) fr(3) in simp)
  qed
  moreover have "h < next_gate s1 \<and> 0 < gate_refs s1 h" if "actor_gates s1 b = Some h" for b h
    using that inv_gate [OF inv] fr(3-5) by (cases "b = a") fastforce+
  moreover have "b = b'" if "actor_gates s1 b = Some h" "actor_gates s1 b' = Some h" for b b' h
  proof -
    have "x = a" if "actor_gates s1 x = Some g" for x
      using that inv_gate [OF inv, of x g] inv_inject [OF inv, of x g a] fr(3-5) by (cases "x = a") auto
    with that fr(3,4) inv_inject [OF inv] show ?thesis by (metis option.inject)
  qed
  ultimately show "gates_inv (at_pc i (Registered a g) s1)"
    unfolding gates_inv_def at_pc_sel fr(1) by blast
qed

lemma release_keeps:
  assumes inv: "upload_inv lim s" and i: "i < length (requests s)" "gate_of (requests s ! i) = Some (a, g)"
    and old: "\<not> holds_global (requests s ! i)" "\<And>h. \<not> holds_slot h (requests s ! i)"
  shows "upload_inv lim (at_pc i Outside (release_ref a g s))"
  unfolding upload_inv_split
proof
  have ref: "refers h (requests s ! i) = (h = g)" for h using i(2) by (auto simp: refers_def)
  show counts: "counts_inv lim (at_pc i Outside (release_ref a g s))"
    using inv [unfolded upload_inv_split] old ref count_moved [OF i(1), of "release_ref a g s"]
    by (auto simp: counts_inv_def)
  have "actor_gates (release_ref a g s) b = Some h"
    if pc: "pc \<in> set ((requests s)[i := Outside])" "gate_of pc = Some (b, h)" for pc b h
  proof -
    from pc set_update_subset_insert have "pc \<in> set (requests s)" by fastforce
    with pc(2) inv_actor [OF inv] have act: "actor_gates s b = Some h" by blast
    moreover have False if gone: "gate_refs s g - 1 = 0" and "b = a"
    proof -
      have "actor_gates s a = Some g" using inv_actor [OF inv nth_mem [OF i(1)] i(2)] .
      with act that(2) have "refers g pc" using pc(2) by (auto simp: refers_def)
      moreover have "count_pc (refers g) (at_pc i Outside (release_ref a g s)) = 0"
      proof -
        have "gate_refs (release_ref a g s) g = count_pc (refers g) (at_pc i Outside (release_ref a g s))"
          using counts by (metis counts_inv_def at_pc_sel(3))
        with gone show ?thesis by simp
      qed
      ultimately show False using count_zero [of "refers g"] pc(1) by simp
    qed
    ultimately show ?thesis by auto
  qed
  moreover have "h < next_gate s \<and> 0 < gate_refs (release_ref a g s) h"
    if "actor_gates (release_ref a g s) b = Some h" for b h
  proof -
    have act: "actor_gates s b = Some h" using that by (auto split: if_splits)
    then have h: "h < next_gate s" "0 < gate_refs s h" using inv_gate [OF inv] by auto
    have "actor_gates s a = Some g" using inv_actor [OF inv nth_mem [OF i(1)] i(2)] .
    with act inv_inject [OF inv] have "h = g \<Longrightarrow> b = a" by blast
    with h that show ?thesis by (auto split: if_splits)
  qed
  moreover have "b = b'" if "actor_gates (release_ref a g s) b = Some h" "actor_gates (release_ref a g s) b' = Some h" for b b' h
    using that inv_inject [OF inv] by (auto split: if_splits)
  ultimately show "gates_inv (at_pc i Outside (release_ref a g s))"
    unfolding gates_inv_def at_pc_sel release_ref_frame(1,4) by blast
qed

lemma upload_step_inv: "upload_step lim s s1 \<Longrightarrow> upload_inv lim s \<Longrightarrow> upload_inv lim s1"
proof (induction rule: upload_step.induct)
  case (register i s a g s1)
  show ?case by (rule register_keeps [OF register(4,1,2,3)])
next
  case (refuse_ref i s a g)
  then show ?case by (intro release_keeps) auto
next
  case (release_gate i s a g)
  then show ?case by (intro release_keeps) auto
next
  case (saturated i s)
  then show ?case by simp
next
  case (enter i s a)
  then show ?case unfolding upload_inv_split
    by (intro conjI gates_moved) (auto simp: counts_inv_def count_moved)
next
  case (take_slot i s a g)
  then show ?case unfolding upload_inv_split
    by (intro conjI gates_moved) (auto simp: counts_inv_def count_moved Suc_le_eq)
next
  case (slot_full i s a g)
  then show ?case unfolding upload_inv_split
    by (intro conjI gates_moved) (auto simp: counts_inv_def count_moved)
next
  case (refuse_global i s a g)
  then show ?case unfolding upload_inv_split
    by (intro conjI gates_moved) (auto simp: counts_inv_def count_moved)
next
  case (release_slot i s a g)
  then show ?case unfolding upload_inv_split
    by (intro conjI gates_moved) (auto simp: counts_inv_def count_moved le_diff_conv intro: le_SucI)
next
  case (release_global i s a g)
  then show ?case unfolding upload_inv_split
    by (intro conjI gates_moved) (auto simp: counts_inv_def count_moved)
qed

lemma upload_init_inv: "upload_inv lim (upload_init n)"
  by (auto simp: upload_inv_def upload_init_def count_pc_def)

lemma uploads_inv: "(upload_step lim)\<^sup>*\<^sup>* (upload_init n) s \<Longrightarrow> upload_inv lim s"
  by (induction rule: rtranclp_induct) (auto intro: upload_init_inv upload_step_inv)

section \<open>What the semaphore guarantees\<close>

lemma holding_actor_gate:
  assumes "upload_inv lim s" and "actor_gates s a = Some g" and "pc \<in> set (requests s)"
  shows "holding_actor a pc \<longleftrightarrow> holds_slot g pc"
proof (cases pc)
  case (Holding b h)
  with inv_actor [OF assms(1,3)] have "actor_gates s b = Some h" by simp
  with Holding assms(2) inv_inject [OF assms(1)] show ?thesis by (auto simp: holding_actor_def)
qed (auto simp: holding_actor_def)

lemma holding_actor_bound:
  assumes inv: "upload_inv lim s"
  shows "count_pc (holding_actor a) s \<le> actor_limit lim"
proof (cases "actor_gates s a")
  case None
  have "\<not> holding_actor a pc" if "pc \<in> set (requests s)" for pc
    using inv_actor [OF inv that] None by (auto simp: holding_actor_def)
  then show ?thesis by (simp add: count_pc_def filter_False)
next
  case (Some g)
  have "filter (holding_actor a) (requests s) = filter (holds_slot g) (requests s)"
    using holding_actor_gate [OF inv Some] by (intro filter_cong) auto
  then show ?thesis using inv by (simp add: count_pc_def upload_inv_split counts_inv_def)
qed

text \<open>
  C10. However the requests interleave, at most \<open>globalLimit\<close> uploads run at once, at most
  \<open>actorLimit\<close> of one actor, and when every request has finished nothing is left over: no
  slot is taken and the map of actors is empty.
\<close>

theorem uploads_bounded:
  assumes "(upload_step lim)\<^sup>*\<^sup>* (upload_init n) s"
  shows "count_pc (\<lambda>pc. \<exists>a. holding_actor a pc) s \<le> global_limit lim \<and>
    count_pc (holding_actor a) s \<le> actor_limit lim \<and>
    (set (requests s) \<subseteq> {Outside} \<longrightarrow> global_used s = 0 \<and> actor_gates s = (\<lambda>_. None))"
proof (intro conjI impI)
  have inv: "upload_inv lim s" by (rule uploads_inv [OF assms])
  then have c: "count_pc holds_global s \<le> global_limit lim" "global_used s = count_pc holds_global s"
    "\<And>g. gate_refs s g = count_pc (refers g) s" by (simp_all add: upload_inv_split counts_inv_def)
  have "length (filter (\<lambda>pc. \<exists>a. holding_actor a pc) xs) \<le> length (filter holds_global xs)" for xs
    by (induction xs) (auto simp: holding_actor_def)
  with c(1) show "count_pc (\<lambda>pc. \<exists>a. holding_actor a pc) s \<le> global_limit lim"
    unfolding count_pc_def by (rule order_trans [rotated])
  show "count_pc (holding_actor a) s \<le> actor_limit lim" by (rule holding_actor_bound [OF inv])
  assume out: "set (requests s) \<subseteq> {Outside}"
  then have z: "count_pc holds_global s = 0" "\<And>g. count_pc (refers g) s = 0"
    by (force simp: count_pc_def filter_empty_conv)+
  have "actor_gates s b = None" for b
    using inv_gate [OF inv, of b] z(2) c(3) by (cases "actor_gates s b") auto
  with z c(2) show "global_used s = 0" "actor_gates s = (\<lambda>_. None)" by auto
qed

definition demo_limits :: upload_limits where
  "demo_limits = \<lparr>global_limit = 2, actor_limit = 1\<rparr>"

text \<open>Two requests of actor 7: the first holds, the second finds the gate full.\<close>

lemma demo_uploads:
  "\<exists>s. (upload_step demo_limits)\<^sup>*\<^sup>* (upload_init 2) s \<and> requests s = [Holding 7 0, Refused 7 0]"
proof -
  let ?s1 = "at_pc 0 (Entered 7) (upload_init 2\<lparr>global_used := 1\<rparr>)"
  let ?s2 = "at_pc 0 (Registered 7 0) (snd (register_gate 7 ?s1))"
  let ?s3 = "at_pc 0 (Holding 7 0) (?s2\<lparr>gate_slots := (gate_slots ?s2)(0 := gate_slots ?s2 0 + 1)\<rparr>)"
  let ?s4 = "at_pc 1 (Entered 7) (?s3\<lparr>global_used := global_used ?s3 + 1\<rparr>)"
  let ?s5 = "at_pc 1 (Registered 7 0) (snd (register_gate 7 ?s4))"
  let ?s6 = "at_pc 1 (Refused 7 0) ?s5"
  have e1: "upload_step demo_limits (upload_init 2) ?s1"
    using upload_step.enter [of 0 "upload_init 2" demo_limits 7] by (simp add: upload_init_def demo_limits_def)
  have e2: "upload_step demo_limits ?s1 ?s2"
    by (rule upload_step.register) (simp_all add: upload_init_def register_gate_def at_pc_def Let_def)
  have e3: "upload_step demo_limits ?s2 ?s3"
    by (rule upload_step.take_slot) (simp_all add: upload_init_def register_gate_def at_pc_def Let_def demo_limits_def)
  have e4: "upload_step demo_limits ?s3 ?s4"
    by (rule upload_step.enter) (simp_all add: upload_init_def register_gate_def at_pc_def Let_def demo_limits_def numeral_2_eq_2)
  have e5: "upload_step demo_limits ?s4 ?s5"
    by (rule upload_step.register) (simp_all add: upload_init_def register_gate_def at_pc_def Let_def numeral_2_eq_2)
  have e6: "upload_step demo_limits ?s5 ?s6"
    by (rule upload_step.slot_full) (simp_all add: upload_init_def register_gate_def at_pc_def Let_def demo_limits_def numeral_2_eq_2)
  note run = rtranclp.rtrancl_into_rtrancl [where r = "upload_step demo_limits" and a = "upload_init 2"]
  have "(upload_step demo_limits)\<^sup>*\<^sup>* (upload_init 2) ?s6"
    by (rule run [OF run [OF run [OF run [OF run [OF run [OF rtranclp.rtrancl_refl e1] e2] e3] e4] e5] e6])
  moreover have "requests ?s6 = [Holding 7 0, Refused 7 0]"
    by (simp add: upload_init_def register_gate_def at_pc_def Let_def numeral_2_eq_2)
  ultimately show ?thesis by blast
qed

theorem uploads_bounded_witness:
  "\<exists>s. requests s = [Holding 7 0, Refused 7 0] \<and> count_pc (holding_actor 7) s \<le> 1"
proof -
  obtain s where s: "(upload_step demo_limits)\<^sup>*\<^sup>* (upload_init 2) s" "requests s = [Holding 7 0, Refused 7 0]"
    using demo_uploads by blast
  from uploads_bounded [OF s(1), of 7] s(2) show ?thesis by (auto simp: demo_limits_def)
qed

text \<open>
  C11. No request is ever stuck: each that has entered can take its next step, whatever the
  others do. In particular the channel receives of the release find an element, so releasing
  never blocks.
\<close>

theorem uploads_never_block:
  assumes "(upload_step lim)\<^sup>*\<^sup>* (upload_init n) s" and "i < length (requests s)" and "requests s ! i \<noteq> Outside"
  shows "\<exists>s1. upload_step lim s s1 \<and> requests s1 ! i \<noteq> requests s ! i"
proof -
  have inv: "counts_inv lim s" using uploads_inv [OF assms(1)] by (simp add: upload_inv_split)
  have pos: "holds_global (requests s ! i) \<Longrightarrow> 0 < global_used s"
    "\<And>g. holds_slot g (requests s ! i) \<Longrightarrow> 0 < gate_slots s g"
    using inv count_pos [OF assms(2)] by (simp_all add: counts_inv_def)
  show ?thesis
  proof (cases "requests s ! i")
    case (Entered a)
    obtain g s1 where r: "register_gate a s = (g, s1)" by (metis prod.exhaust)
    with assms(2) Entered register_gate_frame(1) [OF r] show ?thesis
      by (intro exI [of _ "at_pc i (Registered a g) s1"]) (auto intro: upload_step.register)
  next
    case (Registered a g)
    show ?thesis
    proof (cases "gate_slots s g < actor_limit lim")
      case True
      with assms(2) Registered show ?thesis
        by (intro exI conjI) (erule (2) upload_step.take_slot, simp)
    next
      case False
      with assms(2) Registered show ?thesis
        by (intro exI conjI) (erule (2) upload_step.slot_full, simp)
    qed
  next
    case (Holding a g)
    with pos(2) [of g] assms(2) show ?thesis
      by (intro exI conjI) (rule upload_step.release_slot, auto)
  next
    case (Refused a g)
    with pos(1) assms(2) show ?thesis
      by (intro exI conjI) (rule upload_step.refuse_global, auto)
  next
    case (Refused_global a g)
    with assms(2) show ?thesis by (intro exI conjI) (rule upload_step.refuse_ref, auto)
  next
    case (Releasing a g)
    with pos(1) assms(2) show ?thesis
      by (intro exI conjI) (rule upload_step.release_global, auto)
  next
    case (Releasing_ref a g)
    with assms(2) show ?thesis by (intro exI conjI) (rule upload_step.release_gate, auto)
  qed (use assms(3) in simp)
qed

theorem uploads_never_block_witness:
  "\<exists>s s1. requests s ! 1 = Refused 7 0 \<and> upload_step demo_limits s s1 \<and> requests s1 ! 1 \<noteq> requests s ! 1"
proof -
  obtain s where s: "(upload_step demo_limits)\<^sup>*\<^sup>* (upload_init 2) s" "requests s = [Holding 7 0, Refused 7 0]"
    using demo_uploads by blast
  from uploads_never_block [OF s(1), of 1] s(2) obtain s1 where
    "upload_step demo_limits s s1" "requests s1 ! 1 \<noteq> requests s ! 1" by auto
  with s(2) show ?thesis by (intro exI [of _ s] exI [of _ s1]) simp
qed

end
