(* ===== verification/CardEvents.thy ===== *)
theory CardEvents
  imports GoText "HOL-Library.Word"
begin

text \<open>
  The broker of card events (\<^verbatim>\<open>internal/cardevents/broker.go\<close>). Each method runs under the
  broker's mutex, so it is one step. A subscription is a number; \<open>events\<close> says whether its
  channel of capacity one holds a refresh and \<open>closed\<close> how often its \<open>down\<close> channel was
  closed (Go panics at the second time). The map of sets is the list of its pairs. Connecting
  and listening are the arguments of \<open>run_session\<close>.
\<close>

record broker =
  br_ready :: bool
  br_subs :: "(int \<times> nat) list"
  br_total :: int
  br_events :: "nat \<Rightarrow> bool"
  br_closed :: "nat \<Rightarrow> nat"
  br_next :: nat
  br_enqueued :: "64 word"
  br_coalesced :: "64 word"
  br_rejected :: "64 word"
  br_disconnects :: "64 word"
  br_delivered :: "64 word"
  br_write_failures :: "64 word"

datatype subscribe_error = Broker_unavailable | Broker_capacity

definition max_subscribers :: int where "max_subscribers = 128"

definition max_subscribers_per_user :: nat where "max_subscribers_per_user = 4"

definition new_broker :: broker where
  "new_broker = \<lparr>br_ready = False, br_subs = [], br_total = 0, br_events = (\<lambda>_. False), br_closed = (\<lambda>_. 0),
     br_next = 0, br_enqueued = 0, br_coalesced = 0, br_rejected = 0, br_disconnects = 0, br_delivered = 0,
     br_write_failures = 0\<rparr>"

definition subs_of :: "int \<Rightarrow> broker \<Rightarrow> nat list" where
  "subs_of c b = map snd (filter (\<lambda>x. fst x = c) (br_subs b))"

definition subscribe :: "int \<Rightarrow> broker \<Rightarrow> (subscribe_error + nat) \<times> broker" where
  "subscribe c b =
     (if \<not> br_ready b then (Inl Broker_unavailable, b)
      else if br_total b \<ge> max_subscribers \<or> length (subs_of c b) \<ge> max_subscribers_per_user
      then (Inl Broker_capacity, b\<lparr>br_rejected := br_rejected b + 1\<rparr>)
      else
        let s = br_next b in
        (Inr s, b\<lparr>br_next := s + 1, br_events := (br_events b)(s := False), br_closed := (br_closed b)(s := 0),
                  br_subs := br_subs b @ [(c, s)], br_total := br_total b + 1\<rparr>))"

definition unsubscribe :: "int \<Rightarrow> nat \<Rightarrow> broker \<Rightarrow> broker" where
  "unsubscribe c s b =
     (if (c, s) \<notin> set (br_subs b) then b
      else b\<lparr>br_subs := filter (\<lambda>x. x \<noteq> (c, s)) (br_subs b), br_total := br_total b - 1\<rparr>)"

definition offer :: "nat \<Rightarrow> broker \<Rightarrow> broker" where
  "offer s b =
     (if br_events b s then b\<lparr>br_coalesced := br_coalesced b + 1\<rparr>
      else b\<lparr>br_events := (br_events b)(s := True), br_enqueued := br_enqueued b + 1\<rparr>)"

definition publish :: "int \<Rightarrow> broker \<Rightarrow> broker" where
  "publish c b = fold offer (subs_of c b) b"

definition set_ready :: "broker \<Rightarrow> broker" where
  "set_ready b = b\<lparr>br_ready := True\<rparr>"

definition close_down :: "nat \<Rightarrow> broker \<Rightarrow> broker" where
  "close_down s b = b\<lparr>br_closed := (br_closed b)(s := br_closed b s + 1)\<rparr>"

definition set_down :: "broker \<Rightarrow> broker" where
  "set_down b =
     (let b1 = (if br_ready b then b\<lparr>br_disconnects := br_disconnects b + 1\<rparr> else b)\<lparr>br_ready := False\<rparr> in
      (fold close_down (map snd (br_subs b)) b1)\<lparr>br_subs := [], br_total := 0\<rparr>)"

definition record_delivery :: "bool \<Rightarrow> broker \<Rightarrow> broker" where
  "record_delivery ok b =
     (if ok then b\<lparr>br_delivered := br_delivered b + 1\<rparr>
      else b\<lparr>br_write_failures := br_write_failures b + 1\<rparr>)"

text \<open>A client that receives from its events channel.\<close>

definition receive :: "nat \<Rightarrow> broker \<Rightarrow> broker" where
  "receive s b = b\<lparr>br_events := (br_events b)(s := False)\<rparr>"

text \<open>
  A session is a connection that failed before it
  was ready, or the notifications (channel and payload; none is a nil notification) that came
  in before the wait failed.
\<close>

definition channel_name :: string where
  "channel_name = ''puntazo_customer_cards''"

definition on_notification :: "(string \<times> string) option \<Rightarrow> broker \<Rightarrow> broker" where
  "on_notification n b =
     (case n of
        None \<Rightarrow> b
      | Some (ch, payload) \<Rightarrow>
          if ch \<noteq> channel_name then b
          else (case parse_signed payload of
                  Some c \<Rightarrow> if c > 0 then publish c b else b
                | None \<Rightarrow> b))"

definition listen :: "(string \<times> string) option list option \<Rightarrow> broker \<Rightarrow> broker" where
  "listen sess b =
     (case sess of
        None \<Rightarrow> b
      | Some ns \<Rightarrow> fold on_notification ns (set_ready b))"

text \<open>What runs next to the sessions of \<open>Run\<close> are the calls of the handlers.\<close>

inductive broker_step :: "broker \<Rightarrow> broker \<Rightarrow> bool" where
  subscribe_step: "subscribe c b = (r, b1) \<Longrightarrow> broker_step b b1"
| unsubscribe_step: "broker_step b (unsubscribe c s b)"
| ready_step: "broker_step b (set_ready b)"
| notify_step: "broker_step b (on_notification n b)"
| down_step: "broker_step b (set_down b)"
| receive_step: "broker_step b (receive s b)"
| delivery_step: "broker_step b (record_delivery ok b)"

section \<open>The invariant\<close>

definition broker_inv :: "broker \<Rightarrow> bool" where
  "broker_inv b \<longleftrightarrow> br_total b = int (length (br_subs b)) \<and> br_total b \<le> max_subscribers \<and>
     (\<forall>c. length (subs_of c b) \<le> max_subscribers_per_user) \<and>
     distinct (map snd (br_subs b)) \<and>
     (\<forall>x \<in> set (br_subs b). snd x < br_next b \<and> br_closed b (snd x) = 0) \<and>
     (\<forall>s. br_closed b s \<le> 1) \<and> (\<not> br_ready b \<longrightarrow> br_subs b = [])"

lemma offer_sel [simp]:
  "br_subs (offer s b) = br_subs b" "br_total (offer s b) = br_total b" "br_closed (offer s b) = br_closed b"
  "br_next (offer s b) = br_next b" "br_ready (offer s b) = br_ready b"
  "br_events (offer s b) = (br_events b)(s := True)"
  by (auto simp: offer_def fun_eq_iff)

lemma fold_offer [simp]:
  "br_subs (fold offer xs b) = br_subs b" "br_total (fold offer xs b) = br_total b"
  "br_closed (fold offer xs b) = br_closed b" "br_next (fold offer xs b) = br_next b"
  "br_ready (fold offer xs b) = br_ready b"
  "br_events (fold offer xs b) s = (s \<in> set xs \<or> br_events b s)"
  by (induction xs arbitrary: b) auto

lemma publish_sel [simp]:
  "br_subs (publish c b) = br_subs b" "br_total (publish c b) = br_total b" "br_closed (publish c b) = br_closed b"
  "br_next (publish c b) = br_next b" "br_ready (publish c b) = br_ready b"
  "br_events (publish c b) s = (s \<in> set (subs_of c b) \<or> br_events b s)"
  by (simp_all add: publish_def)

lemma notification_sel [simp]:
  "br_subs (on_notification n b) = br_subs b" "br_total (on_notification n b) = br_total b"
  "br_closed (on_notification n b) = br_closed b" "br_next (on_notification n b) = br_next b"
  "br_ready (on_notification n b) = br_ready b"
  by (simp_all add: on_notification_def split: option.splits prod.splits)

lemma broker_inv_cong:
  "br_subs b' = br_subs b \<Longrightarrow> br_total b' = br_total b \<Longrightarrow> br_closed b' = br_closed b \<Longrightarrow> br_next b' = br_next b \<Longrightarrow>
   br_ready b' = br_ready b \<Longrightarrow> broker_inv b' = broker_inv b"
  by (simp add: broker_inv_def subs_of_def)

lemma fold_close_down:
  "distinct ss \<Longrightarrow> br_closed (fold close_down ss b) s = br_closed b s + (if s \<in> set ss then 1 else 0)"
  by (induction ss arbitrary: b) (auto simp: close_down_def)

lemma fold_close_down_sel [simp]:
  "br_next (fold close_down ss b) = br_next b" "br_ready (fold close_down ss b) = br_ready b"
  by (induction ss arbitrary: b) (auto simp: close_down_def)

lemma set_down_closed:
  "distinct (map snd (br_subs b)) \<Longrightarrow>
     br_closed (set_down b) s = br_closed b s + (if s \<in> snd ` set (br_subs b) then 1 else 0)"
  by (simp add: set_down_def Let_def fold_close_down)

lemma set_down_inv: "broker_inv b \<Longrightarrow> broker_inv (set_down b)"
  using set_down_closed [of b]
  by (auto simp: broker_inv_def set_down_def Let_def subs_of_def max_subscribers_def)

lemma subscribe_inv:
  assumes "subscribe c b = (r, b1)" and "broker_inv b"
  shows "broker_inv b1"
proof (cases "br_ready b \<and> \<not> (br_total b \<ge> max_subscribers \<or> length (subs_of c b) \<ge> max_subscribers_per_user)")
  case True
  let ?s = "br_next b"
  from True assms(1) have b1: "b1 = b\<lparr>br_next := ?s + 1, br_events := (br_events b)(?s := False),
      br_closed := (br_closed b)(?s := 0), br_subs := br_subs b @ [(c, ?s)], br_total := br_total b + 1\<rparr>"
    by (auto simp: subscribe_def Let_def)
  have len: "length (subs_of d b1) = length (subs_of d b) + (if d = c then 1 else 0)" for d
    by (simp add: b1 subs_of_def)
  have fresh: "?s \<notin> snd ` set (br_subs b)" using assms(2) by (auto simp: broker_inv_def)
  have "length (subs_of d b1) \<le> max_subscribers_per_user" for d
    using assms(2) True len [of d] by (auto simp: broker_inv_def)
  with assms(2) True fresh show ?thesis by (auto simp: broker_inv_def b1)
next
  case False
  with assms have "br_subs b1 = br_subs b" "br_total b1 = br_total b" "br_closed b1 = br_closed b" "br_next b1 = br_next b"
    "br_ready b1 = br_ready b" by (auto simp: subscribe_def split: if_splits)
  with assms(2) show ?thesis by (simp add: broker_inv_cong [of b1 b])
qed

lemma length_without:
  "distinct xs \<Longrightarrow> a \<in> set xs \<Longrightarrow> length (filter (\<lambda>x. x \<noteq> a) xs) + 1 = length xs"
proof (induction xs)
  case (Cons x xs)
  show ?case
  proof (cases "x = a")
    case True
    with Cons.prems have "filter (\<lambda>x. x \<noteq> a) xs = xs" by (auto intro: filter_True)
    with True show ?thesis by simp
  qed (use Cons in simp)
qed simp

lemma length_filter_filter: "length (filter p (filter q xs)) \<le> length (filter p xs)"
  by (induction xs) auto

lemma unsubscribe_inv:
  assumes "broker_inv b"
  shows "broker_inv (unsubscribe c s b)"
proof (cases "(c, s) \<in> set (br_subs b)")
  case True
  have "distinct (br_subs b)" using assms by (simp add: broker_inv_def distinct_map)
  from length_without [OF this True] have "length (filter (\<lambda>x. x \<noteq> (c, s)) (br_subs b)) + 1 = length (br_subs b)" .
  moreover have "length (subs_of d (unsubscribe c s b)) \<le> length (subs_of d b)" for d
    using True length_filter_filter by (simp add: unsubscribe_def subs_of_def del: filter_filter)
  ultimately show ?thesis
    using assms True order_trans by (fastforce simp: broker_inv_def unsubscribe_def distinct_map_filter)
qed (use assms in \<open>simp add: unsubscribe_def\<close>)

lemma broker_step_inv: "broker_step b b1 \<Longrightarrow> broker_inv b \<Longrightarrow> broker_inv b1"
proof (induction rule: broker_step.induct)
  case (notify_step b n)
  then show ?case by (simp add: broker_inv_cong [of "on_notification n b" b])
next
  case (receive_step b s)
  then show ?case by (subst broker_inv_cong [of _ b]) (simp_all add: receive_def)
next
  case (delivery_step b ok)
  then show ?case by (subst broker_inv_cong [of _ b]) (simp_all add: record_delivery_def)
next
  case (ready_step b)
  then show ?case by (auto simp: broker_inv_def set_ready_def subs_of_def)
qed (auto intro: subscribe_inv unsubscribe_inv set_down_inv)

lemma new_broker_inv: "broker_inv new_broker"
  by (simp add: broker_inv_def new_broker_def subs_of_def max_subscribers_def)

lemma brokers_inv: "broker_step\<^sup>*\<^sup>* new_broker b \<Longrightarrow> broker_inv b"
  by (induction rule: rtranclp_induct) (auto intro: new_broker_inv broker_step_inv)

section \<open>What the broker guarantees\<close>

text \<open>
  C12. Whatever the order of subscriptions, cancellations, notifications, disconnections and
  deliveries, the broker serves at most 128 subscriptions and 4 of one customer, its total is
  their exact number, and no \<open>down\<close> channel is ever closed twice, which would panic.
\<close>

theorem broker_bounded:
  assumes "broker_step\<^sup>*\<^sup>* new_broker b"
  shows "br_total b = int (length (br_subs b)) \<and> br_total b \<le> 128 \<and> length (subs_of c b) \<le> 4 \<and> br_closed b s \<le> 1"
  using brokers_inv [OF assms]
  by (auto simp: broker_inv_def max_subscribers_def max_subscribers_per_user_def)

definition demo_broker :: broker where
  "demo_broker = snd (subscribe 9 (snd (subscribe 5 (set_ready new_broker))))"

lemma demo_broker_reachable: "broker_step\<^sup>*\<^sup>* new_broker demo_broker"
proof -
  have "broker_step\<^sup>*\<^sup>* new_broker (set_ready new_broker)" by (blast intro: broker_step.ready_step)
  then have "broker_step\<^sup>*\<^sup>* new_broker (snd (subscribe 5 (set_ready new_broker)))"
    by (rule rtranclp.rtrancl_into_rtrancl) (rule broker_step.subscribe_step [OF surjective_pairing])
  then show ?thesis unfolding demo_broker_def
    by (rule rtranclp.rtrancl_into_rtrancl) (rule broker_step.subscribe_step [OF surjective_pairing])
qed

lemma demo_broker_subs: "br_subs demo_broker = [(5, 0), (9, 1)]"
  by code_simp

theorem broker_bounded_witness: "length (subs_of 5 demo_broker) \<le> 4 \<and> br_subs demo_broker = [(5, 0), (9, 1)]"
  using broker_bounded [OF demo_broker_reachable] demo_broker_subs by simp

text \<open>
  No change is missed: the notification that a committed movement sends for a customer
  leaves a refresh pending for every subscription of that customer and touches no other
  customer's; a disconnection tells every subscription so, and forgets it.
\<close>

lemma refresh_reaches_subscribers:
  assumes "broker_step\<^sup>*\<^sup>* new_broker b" and "(c, s) \<in> set (br_subs b)" and "0 < c" "c < 2 ^ 63"
  shows "br_events (on_notification (Some (channel_name, show_int c)) b) s \<and>
    (\<forall>d t. (d, t) \<in> set (br_subs b) \<and> d \<noteq> c \<longrightarrow>
       br_events (on_notification (Some (channel_name, show_int c)) b) t = br_events b t) \<and>
    br_closed (set_down b) s = 1 \<and> br_subs (set_down b) = []"
proof (intro conjI allI impI; (elim conjE)?)
  have inv: "broker_inv b" by (rule brokers_inv [OF assms(1)])
  from assms(3,4) have "parse_signed (show_int c) = Some c" by (intro parse_signed_show_int) simp_all
  then have pub: "on_notification (Some (channel_name, show_int c)) b = publish c b"
    using assms(3) by (simp add: on_notification_def)
  show "br_events (on_notification (Some (channel_name, show_int c)) b) s"
    using assms(2) by (force simp: pub subs_of_def)
  show "br_events (on_notification (Some (channel_name, show_int c)) b) t = br_events b t"
    if "(d, t) \<in> set (br_subs b)" "d \<noteq> c" for d t
  proof -
    have "t \<notin> set (subs_of c b)"
    proof
      assume "t \<in> set (subs_of c b)"
      then have "(c, t) \<in> set (br_subs b)" by (auto simp: subs_of_def)
      moreover have "distinct (map snd (br_subs b))" using inv by (simp add: broker_inv_def)
      ultimately show False using that distinct_key_unique [of snd "br_subs b" "(c, t)" "(d, t)"] by auto
    qed
    then show ?thesis by (simp add: pub)
  qed
  have "distinct (map snd (br_subs b))" "br_closed b s = 0" "s \<in> snd ` set (br_subs b)"
    using inv assms(2) by (auto simp: broker_inv_def intro: rev_image_eqI)
  then show "br_closed (set_down b) s = 1" by (simp add: set_down_closed)
  show "br_subs (set_down b) = []" by (simp add: set_down_def Let_def)
qed

lemma refresh_reaches_subscribers_example:
  "br_events (on_notification (Some (channel_name, ''5'')) demo_broker) 0
   \<and> \<not> br_events (on_notification (Some (channel_name, ''5'')) demo_broker) 1"
proof -
  have five: "show_int 5 = ''5''" by code_simp
  have quiet: "\<not> br_events demo_broker 1" by code_simp
  have "(5, 0) \<in> set (br_subs demo_broker)" "(9, 1) \<in> set (br_subs demo_broker)"
    using demo_broker_subs by simp_all
  then have "br_events (on_notification (Some (channel_name, ''5'')) demo_broker) 0"
    "br_events (on_notification (Some (channel_name, ''5'')) demo_broker) 1 = br_events demo_broker 1"
    using refresh_reaches_subscribers [OF demo_broker_reachable, of 5 0] five
    by (force dest: spec [where x = 9])+
  with quiet show ?thesis by simp
qed

end
