(* ===== verification/Calendar.thy ===== *)
theory Calendar
  imports Schema
begin

text \<open>
  The civil calendar that package \<^verbatim>\<open>time\<close> gives the code: a day is its number counted from
  1 January of year 0 (proleptic Gregorian), \<open>civil y m d\<close> is \<open>time.Date\<close> with its
  normalisation of months and days, \<open>date_of\<close> its inverse. On it: the anchored months of the
  billing cycle (\<^verbatim>\<open>internal/service/branch_proration.go\<close>).
\<close>

section \<open>Days and dates\<close>

definition leap :: "int \<Rightarrow> bool" where
  "leap y \<longleftrightarrow> y mod 4 = 0 \<and> (y mod 100 \<noteq> 0 \<or> y mod 400 = 0)"

definition year_start :: "int \<Rightarrow> int" where
  "year_start y = 365 * y + (y + 3) div 4 - (y + 99) div 100 + (y + 399) div 400"

definition month_len :: "int \<Rightarrow> int \<Rightarrow> int" where
  "month_len y m = (if m = 2 then (if leap y then 29 else 28) else if m \<in> {4, 6, 9, 11} then 30 else 31)"

definition month_start :: "int \<Rightarrow> int \<Rightarrow> int" where
  "month_start y m =
     (let feb = (if leap y then 1 else 0) in
      if m \<le> 1 then 0 else if m = 2 then 31 else if m = 3 then 59 + feb else if m = 4 then 90 + feb
      else if m = 5 then 120 + feb else if m = 6 then 151 + feb else if m = 7 then 181 + feb
      else if m = 8 then 212 + feb else if m = 9 then 243 + feb else if m = 10 then 273 + feb
      else if m = 11 then 304 + feb else if m = 12 then 334 + feb else 365 + feb)"

definition norm_year :: "int \<Rightarrow> int \<Rightarrow> int" where
  "norm_year y m = y + (m - 1) div 12"

definition norm_month :: "int \<Rightarrow> int" where
  "norm_month m = (m - 1) mod 12 + 1"

definition civil :: "int \<Rightarrow> int \<Rightarrow> int \<Rightarrow> int" where
  "civil y m d = year_start (norm_year y m) + month_start (norm_year y m) (norm_month m) + (d - 1)"

definition year_of :: "int \<Rightarrow> int" where
  "year_of n =
     (let e = (400 * n) div 146097 in
      if n < year_start e then e - 1 else if year_start (e + 1) \<le> n then e + 1 else e)"

definition month_of_day :: "int \<Rightarrow> int \<Rightarrow> int" where
  "month_of_day y r =
     (if r < month_start y 2 then 1 else if r < month_start y 3 then 2 else if r < month_start y 4 then 3
      else if r < month_start y 5 then 4 else if r < month_start y 6 then 5 else if r < month_start y 7 then 6
      else if r < month_start y 8 then 7 else if r < month_start y 9 then 8 else if r < month_start y 10 then 9
      else if r < month_start y 11 then 10 else if r < month_start y 12 then 11 else 12)"

definition date_of :: "int \<Rightarrow> int \<times> int \<times> int" where
  "date_of n =
     (let y = year_of n; r = n - year_start y; m = month_of_day y r in (y, m, r - month_start y m + 1))"

definition weekday :: "int \<Rightarrow> int" where
  "weekday n = (n + 6) mod 7"

section \<open>The calendar is consistent\<close>

text \<open>The number of multiples of \<open>k\<close> below \<open>y\<close>.\<close>

definition multiples :: "int \<Rightarrow> int \<Rightarrow> int" where
  "multiples k y = (y + (k - 1)) div k"

lemma quotient_parts:
  assumes "0 < (k :: int)"
  obtains q r where "y = k * q + r" "0 \<le> r" "r < k" "r = y mod k"
  using assms that [of "y div k" "y mod k"] by simp

lemma multiples_eq:
  assumes "0 < k" "y = k * q + r" "0 \<le> r" "r < k"
  shows "multiples k y = q + (if r = 0 then 0 else 1)"
proof (cases "r = 0")
  case True
  with assms have "(y + (k - 1)) div k = q" by (intro int_div_pos_eq [where r = "k - 1"]) auto
  with True show ?thesis by (simp add: multiples_def)
next
  case False
  with assms have "(y + (k - 1)) div k = q + 1"
    by (intro int_div_pos_eq [where r = "r - 1"]) (auto simp: algebra_simps)
  with False show ?thesis by (simp add: multiples_def)
qed

lemma multiples_next:
  assumes "0 < k"
  shows "multiples k (y + 1) = multiples k y + (if y mod k = 0 then 1 else 0)"
proof -
  obtain q r where y: "y = k * q + r" "0 \<le> r" "r < k" "r = y mod k" by (rule quotient_parts [OF assms])
  show ?thesis
  proof (cases "r + 1 = k")
    case True
    then have "y + 1 = k * (q + 1) + 0" using y(1) by (simp add: algebra_simps)
    from multiples_eq [OF assms this] multiples_eq [OF assms y(1-3)] True y(2,4) assms show ?thesis by auto
  next
    case False
    then have "y + 1 = k * q + (r + 1)" "r + 1 < k" using y(1,3) by auto
    from multiples_eq [OF assms this(1)] this(2) multiples_eq [OF assms y(1-3)] y(2,4) show ?thesis by auto
  qed
qed

lemma multiples_bounds:
  assumes "0 < k"
  shows "y \<le> k * multiples k y" "k * multiples k y \<le> y + k - 1"
proof -
  obtain q r where y: "y = k * q + r" "0 \<le> r" "r < k" "r = y mod k" by (rule quotient_parts [OF assms])
  from multiples_eq [OF assms y(1-3)] y(1-3)
  show "y \<le> k * multiples k y" "k * multiples k y \<le> y + k - 1" by (auto simp: algebra_simps)
qed

lemma year_start_multiples: "year_start y = 365 * y + multiples 4 y - multiples 100 y + multiples 400 y"
  by (simp add: year_start_def multiples_def)

lemma year_start_next: "year_start (y + 1) = year_start y + (if leap y then 366 else 365)"
proof -
  have "400 dvd y \<Longrightarrow> 100 dvd y" "100 dvd y \<Longrightarrow> 4 dvd y"
    using dvd_trans [of 100 400 y] dvd_trans [of 4 100 y] by simp_all
  then have d: "y mod 400 = 0 \<Longrightarrow> y mod 100 = 0" "y mod 100 = 0 \<Longrightarrow> y mod 4 = 0"
    by (simp_all add: mod_eq_0_iff_dvd)
  have n: "multiples 4 (y + 1) = multiples 4 y + (if y mod 4 = 0 then 1 else 0)"
    "multiples 100 (y + 1) = multiples 100 y + (if y mod 100 = 0 then 1 else 0)"
    "multiples 400 (y + 1) = multiples 400 y + (if y mod 400 = 0 then 1 else 0)"
    by (rule multiples_next, simp)+
  show ?thesis unfolding year_start_multiples leap_def n using d
    by (cases "y mod 4 = 0"; cases "y mod 100 = 0"; cases "y mod 400 = 0") simp_all
qed

lemma months:
  assumes "1 \<le> (m :: int)" "m \<le> 12"
  shows "m = 1 \<or> m = 2 \<or> m = 3 \<or> m = 4 \<or> m = 5 \<or> m = 6 \<or> m = 7 \<or> m = 8 \<or> m = 9 \<or> m = 10 \<or> m = 11 \<or> m = 12"
proof -
  have "m = 1 \<or> m = 2 \<or> m = 3 \<or> 4 \<le> m" "4 \<le> m \<Longrightarrow> m = 4 \<or> m = 5 \<or> m = 6 \<or> 7 \<le> m"
    "7 \<le> m \<Longrightarrow> m = 7 \<or> m = 8 \<or> m = 9 \<or> 10 \<le> m" "10 \<le> m \<Longrightarrow> m = 10 \<or> m = 11 \<or> m = 12"
    using assms by linarith+
  then show ?thesis by blast
qed

lemma month_start_next:
  "1 \<le> m \<Longrightarrow> m \<le> 12 \<Longrightarrow> month_start y (m + 1) = month_start y m + month_len y m"
proof -
  assume m: "1 \<le> m" "m \<le> 12"
  from months [OF m] show ?thesis by (elim disjE) (simp_all add: month_start_def month_len_def Let_def)
qed

lemma month_len_bounds: "28 \<le> month_len y m" "month_len y m \<le> 31"
  by (simp_all add: month_len_def)

lemma norm_month_bounds: "1 \<le> norm_month m" "norm_month m \<le> 12"
  by (simp_all add: norm_month_def)

lemma norm_id: "1 \<le> m \<Longrightarrow> m \<le> 12 \<Longrightarrow> norm_year y m = y \<and> norm_month m = m"
  by (simp add: norm_year_def norm_month_def)

text \<open>The first of the next month is the first of this one plus its length.\<close>

lemma month_carry:
  "((m - 1) mod 12 = 11 \<longrightarrow> (m :: int) div 12 = (m - 1) div 12 + 1 \<and> m mod 12 = 0) \<and>
   ((m - 1) mod 12 \<noteq> 11 \<longrightarrow> m div 12 = (m - 1) div 12 \<and> m mod 12 = (m - 1) mod 12 + 1)"
proof -
  obtain q r where m: "m - 1 = 12 * q + r" "0 \<le> r" "r < 12" "r = (m - 1) mod 12"
    by (rule quotient_parts [OF zero_less_numeral])
  then have q: "(m - 1) div 12 = q" by (intro int_div_pos_eq [where r = r]) auto
  show ?thesis
  proof (cases "r = 11")
    case True
    then have "m = 12 * (q + 1) + 0" using m(1) by simp
    then have "m div 12 = q + 1" "m mod 12 = 0" by (simp_all add: int_div_pos_eq [where r = 0])
    with True q m(4) show ?thesis by simp
  next
    case False
    then have e: "m = 12 * q + (r + 1)" "0 \<le> r + 1" "r + 1 < 12" using m(1-3) by auto
    have "m div 12 = q" "m mod 12 = r + 1"
      using e by (auto intro: int_div_pos_eq int_mod_pos_eq)
    with False q m(4) show ?thesis by simp
  qed
qed

lemma civil_next_month:
  "civil y (m + 1) 1 = civil y m 1 + month_len (norm_year y m) (norm_month m)"
proof (cases "norm_month m = 12")
  case True
  then have "(m - 1) mod 12 = 11" by (simp add: norm_month_def)
  then have "norm_year y (m + 1) = norm_year y m + 1" "norm_month (m + 1) = 1"
    using month_carry [of m] by (simp_all add: norm_year_def norm_month_def)
  with True show ?thesis
    by (simp add: civil_def year_start_next month_start_def month_len_def Let_def)
next
  case False
  then have "(m - 1) mod 12 \<noteq> 11" by (simp add: norm_month_def)
  then have "norm_year y (m + 1) = norm_year y m" "norm_month (m + 1) = norm_month m + 1"
    using month_carry [of m] by (simp_all add: norm_year_def norm_month_def)
  with month_start_next [OF norm_month_bounds] show ?thesis by (simp add: civil_def)
qed

lemma civil_day: "civil y m d = civil y m 1 + (d - 1)"
  by (simp add: civil_def)

lemma civil_norm: "civil (norm_year y m) (norm_month m) d = civil y m d"
  by (simp add: civil_def norm_id [OF norm_month_bounds])

lemma year_of_bracket: "year_start (year_of n) \<le> n \<and> n < year_start (year_of n + 1)"
proof -
  let ?e = "(400 * n) div 146097"
  have e: "146097 * ?e \<le> 400 * n" "400 * n < 146097 * ?e + 146097"
    using div_mult_mod_eq [of "400 * n" 146097] pos_mod_bound [of 146097 "400 * n"] pos_mod_sign [of 146097 "400 * n"]
    by linarith+
  have b: "400 * year_start y \<le> 146097 * y + 1200" "146097 * y - 400 \<le> 400 * year_start y" for y
    using multiples_bounds [of 4 y] multiples_bounds [of 100 y] multiples_bounds [of 400 y]
    by (simp_all add: year_start_multiples)
  define x where "x = ?e"
  have "year_start (x - 1) \<le> n" using b(1) [of "x - 1"] e unfolding x_def [symmetric] by simp
  moreover have "n < year_start (x + 2)" using b(2) [of "x + 2"] e unfolding x_def [symmetric] by simp
  ultimately have "year_start (?e - 1) \<le> n" "n < year_start (2 + ?e)" by (simp_all add: x_def add.commute)
  then show ?thesis by (auto simp: year_of_def Let_def)
qed

lemma year_start_mono: "x \<le> y \<Longrightarrow> year_start x \<le> year_start y"
proof (induction y rule: int_ge_induct)
  case (step i)
  then show ?case by (simp add: year_start_next split: if_splits)
qed simp

lemma year_of_unique: "year_start y \<le> n \<Longrightarrow> n < year_start (y + 1) \<Longrightarrow> year_of n = y"
  using year_of_bracket [of n] year_start_mono [of "year_of n + 1" y] year_start_mono [of "y + 1" "year_of n"]
  by linarith

lemma month_of_day_unique:
  assumes "1 \<le> m" "m \<le> 12" "1 \<le> d" "d \<le> month_len y m"
  shows "month_of_day y (month_start y m + (d - 1)) = m"
proof -
  show ?thesis using months [OF assms(1,2)] assms(3,4)
    by (elim disjE) (auto simp: month_of_day_def month_start_def month_len_def Let_def split: if_splits)
qed

lemma month_start_range:
  assumes "1 \<le> m" "m \<le> 12"
  shows "0 \<le> month_start y m \<and> month_start y m + month_len y m \<le> (if leap y then 366 else 365)"
  using months [OF assms] by (elim disjE) (simp_all add: month_start_def month_len_def Let_def)

lemma month_start_bound:
  assumes "1 \<le> m" "m \<le> 12" "1 \<le> d" "d \<le> month_len y m"
  shows "0 \<le> month_start y m + (d - 1)" "month_start y m + (d - 1) < (if leap y then 366 else 365)"
  using month_start_range [OF assms(1,2), of y] assms(3,4) by linarith+

text \<open>Reading a date back.\<close>

lemma date_of_civil:
  assumes "1 \<le> m" "m \<le> 12" "1 \<le> d" "d \<le> month_len y m"
  shows "date_of (civil y m d) = (y, m, d)"
proof -
  have c: "civil y m d = year_start y + (month_start y m + (d - 1))"
    by (simp add: civil_def norm_id assms)
  have "year_of (civil y m d) = y"
    using month_start_bound [OF assms] year_start_next [of y] by (intro year_of_unique) (simp_all add: c)
  then show ?thesis using month_of_day_unique [OF assms] by (simp add: date_of_def Let_def c)
qed

lemma civil_date_of:
  assumes "date_of n = (y, m, d)"
  shows "civil y m d = n" "1 \<le> m" "m \<le> 12" "1 \<le> d" "d \<le> month_len y m"
proof -
  let ?y = "year_of n" and ?r = "n - year_start (year_of n)"
  have r: "0 \<le> ?r" "?r < (if leap ?y then 366 else 365)"
    using year_of_bracket [of n] year_start_next [of ?y] by auto
  have ymd: "y = ?y" "m = month_of_day ?y ?r" "d = ?r - month_start ?y m + 1"
    using assms by (auto simp: date_of_def Let_def)
  show m: "1 \<le> m" "m \<le> 12" by (simp_all add: ymd(2) month_of_day_def)
  have ends: "month_start ?y 1 = 0" "month_start ?y 13 = (if leap ?y then 366 else 365)"
    by (simp_all add: month_start_def Let_def)
  have "month_start ?y (month_of_day ?y ?r) \<le> ?r \<and> ?r < month_start ?y (month_of_day ?y ?r + 1)"
    using r ends by (simp add: month_of_day_def)
  with month_start_next [OF m] have "month_start ?y m \<le> ?r \<and> ?r < month_start ?y m + month_len ?y m"
    by (simp add: ymd(2))
  with ymd(1,3) show "1 \<le> d" "d \<le> month_len y m" by simp_all
  show "civil y m d = n" using m ymd by (simp add: civil_def norm_id)
qed

section \<open>Anchored months\<close>

text \<open>
  \<open>anchoredMonth(t, n, anchor)\<close>: the day \<open>anchor\<close> of the month \<open>n\<close> after that of \<open>t\<close>, or the
  last day of that month. The last day is that of \<open>first.AddDate(0, 1, -1)\<close>.
\<close>

definition anchored_month :: "int \<Rightarrow> int \<Rightarrow> int \<Rightarrow> int" where
  "anchored_month t n anchor =
     (case date_of t of (y, m, _) \<Rightarrow>
        let first = civil y (m + n) 1;
            (fy, fm, _) = date_of first;
            (_, _, last) = date_of (civil fy (fm + 1) (1 - 1));
            day = (if last < anchor then last else anchor)
        in civil fy fm day)"

definition shift_month :: "int \<Rightarrow> int \<Rightarrow> int" where
  "shift_month t n = (case date_of t of (_, _, d) \<Rightarrow> anchored_month t n d)"

lemma date_of_first: "date_of (civil y m 1) = (norm_year y m, norm_month m, 1)"
  using date_of_civil [OF norm_month_bounds, of 1 "norm_year y m" m] month_len_bounds(1) [of "norm_year y m" "norm_month m"]
  by (simp add: civil_norm)

lemma date_of_last:
  "date_of (civil y (m + 1) 0) = (norm_year y m, norm_month m, month_len (norm_year y m) (norm_month m))"
proof -
  have "civil y (m + 1) 0 = civil (norm_year y m) (norm_month m) (month_len (norm_year y m) (norm_month m))"
    using civil_next_month [of y m] civil_day [of y "m + 1" 0]
      civil_day [of "norm_year y m" "norm_month m" "month_len (norm_year y m) (norm_month m)"]
    by (simp add: civil_norm)
  then show ?thesis
    using date_of_civil [OF norm_month_bounds] month_len_bounds(1) [of "norm_year y m" "norm_month m"] by simp
qed

lemma anchored_month_eq:
  assumes "date_of t = (y, m, d)"
  shows "anchored_month t n anchor =
     civil y (m + n) 1 + (min anchor (month_len (norm_year y (m + n)) (norm_month (m + n))) - 1)"
proof -
  let ?y = "norm_year y (m + n)" and ?m = "norm_month (m + n)"
  have "date_of (civil ?y (?m + 1) 0) = (?y, ?m, month_len ?y ?m)"
    using date_of_last [of ?y ?m] norm_id [OF norm_month_bounds] by simp
  then have "anchored_month t n anchor = civil ?y ?m (min anchor (month_len ?y ?m))"
    by (simp add: anchored_month_def assms date_of_first Let_def min_def)
  then show ?thesis using civil_day [of ?y ?m "min anchor (month_len ?y ?m)"] by (simp add: civil_norm)
qed

text \<open>A cycle between consecutive anchors has 28 to 31 days.\<close>

lemma anchored_cycle:
  assumes "1 \<le> anchor" "anchor \<le> 31"
  shows "28 \<le> anchored_month t 0 anchor - anchored_month t (-1) anchor"
    and "anchored_month t 0 anchor - anchored_month t (-1) anchor \<le> 31"
proof -
  obtain y m d where t: "date_of t = (y, m, d)" by (cases "date_of t") auto
  have nextm: "civil y m 1 = civil y (m - 1) 1 + month_len (norm_year y (m - 1)) (norm_month (m - 1))"
    using civil_next_month [of y "m - 1"] by simp
  show "28 \<le> anchored_month t 0 anchor - anchored_month t (-1) anchor"
    "anchored_month t 0 anchor - anchored_month t (-1) anchor \<le> 31"
    using nextm assms month_len_bounds [of "norm_year y m" "norm_month m"]
      month_len_bounds [of "norm_year y (m - 1)" "norm_month (m - 1)"]
    by (auto simp: anchored_month_eq [OF t] min_def)
qed

section \<open>Dates as strings\<close>

definition pad2 :: "int \<Rightarrow> string" where
  "pad2 n = lpad0 2 (show_int n)"

definition format_date :: "int \<Rightarrow> string" where
  "format_date n = (case date_of n of (y, m, d) \<Rightarrow> lpad0 4 (show_int y) @ ''-'' @ pad2 m @ ''-'' @ pad2 d)"

definition parse_date :: "string \<Rightarrow> int option" where
  "parse_date s =
     (let ys = take 4 s; ms = take 2 (drop 5 s); ds = drop 8 s in
      if length s = 10 \<and> s ! 4 = CHR ''-'' \<and> s ! 7 = CHR ''-'' \<and> list_all is_digit ys \<and> list_all is_digit ms
         \<and> list_all is_digit ds
      then let y = int (read_nat ys); m = int (read_nat ms); d = int (read_nat ds) in
        if 1 \<le> m \<and> m \<le> 12 \<and> 1 \<le> d \<and> d \<le> month_len y m then Some (civil y m d) else None
      else None)"

text \<open>1 January 1970.\<close>

definition epoch_day :: int where
  "epoch_day = 719528"

end
