(* ===== verification/AnalyticsPeriod.thy ===== *)
theory AnalyticsPeriod
  imports Calendar Schema
begin

text \<open>
  The calendar intervals of the brand metrics (\<^verbatim>\<open>internal/analytics/calendar.go\<close>). A time zone is
  the function \<open>zone\<close> from a Unix second to its offset, since the zone database is not part of
  the repository; \<open>None\<close> is a name that \<open>LoadLocation\<close> does not find. Dates of the years 0 to
  9999, the ones \<open>time.DateOnly\<close> can write, are compared as days: the order of the strings.
\<close>

section \<open>Validation\<close>

datatype period_error = Invalid_period | Unknown_timezone

definition validate_period :: "string \<Rightarrow> string \<Rightarrow> period_error + unit" where
  "validate_period period date =
     (if period \<noteq> ''day'' \<and> period \<noteq> ''week'' \<and> period \<noteq> ''month'' then Inl Invalid_period
      else if date = '''' then Inr ()
      else (case parse_date date of
              None \<Rightarrow> Inl Invalid_period
            | Some d \<Rightarrow>
                if format_date d \<noteq> date \<or> fst (date_of d) < 1 then Inl Invalid_period else Inr ()))"

section \<open>Local days\<close>

definition day_seconds :: int where
  "day_seconds = 86400"

definition local_day :: "(int \<Rightarrow> int) \<Rightarrow> int \<Rightarrow> int" where
  "local_day zone t = (t + zone t) div day_seconds + epoch_day"

function first_second :: "(int \<Rightarrow> int) \<Rightarrow> int \<Rightarrow> int \<Rightarrow> int \<Rightarrow> int" where
  "first_second zone date lo hi =
     (if lo < hi then
        let mid = lo + (hi - lo) div 2 in
        if local_day zone mid < date then first_second zone date (mid + 1) hi
        else first_second zone date lo mid
      else lo)"
  by auto
termination by (relation "measure (\<lambda>(zone, date, lo, hi). nat (hi - lo))") auto

declare first_second.simps [simp del]

definition local_date_start :: "(int \<Rightarrow> int) \<Rightarrow> int \<Rightarrow> int" where
  "local_date_start zone date =
     (let utc = (date - epoch_day) * day_seconds in
      first_second zone date (utc - 48 * 3600) (utc + 48 * 3600))"

section \<open>Resolve\<close>

record period_metrics =
  pm_period :: string
  pm_date :: string
  pm_start :: int
  pm_end :: int
  pm_labels :: "string list"

definition period_start :: "string \<Rightarrow> int \<Rightarrow> int" where
  "period_start period d =
     (if period = ''week'' then d - (weekday d + 6) mod 7
      else if period = ''month'' then (case date_of d of (y, m, _) \<Rightarrow> civil y m 1)
      else d)"

definition period_end :: "string \<Rightarrow> int \<Rightarrow> int" where
  "period_end period start =
     (if period = ''week'' then start + 7
      else if period = ''month'' then (case date_of start of (y, m, d) \<Rightarrow> civil y (m + 1) d)
      else start + 1)"

definition period_labels :: "string \<Rightarrow> int \<Rightarrow> int \<Rightarrow> string list" where
  "period_labels period start end_d =
     (if period = ''day'' then map (\<lambda>h. pad2 (int h) @ '':00'') [0..<24]
      else map format_date [start..end_d - 1])"

definition resolve_period ::
  "string \<Rightarrow> string \<Rightarrow> (int \<Rightarrow> int) option \<Rightarrow> int \<Rightarrow> period_error + period_metrics" where
  "resolve_period period date loc now =
     (case validate_period period date of
        Inl e \<Rightarrow> Inl e
      | Inr _ \<Rightarrow>
          (case loc of
             None \<Rightarrow> Inl Unknown_timezone
           | Some zone \<Rightarrow>
               let today = local_day zone now;
                   anchor = (if date = '''' then today else the (parse_date date)) in
               if today < anchor then Inl Invalid_period
               else
                 let start = period_start period anchor; end_d = period_end period start in
                 if local_day zone (local_date_start zone anchor) \<noteq> anchor then Inl Invalid_period
                 else Inr \<lparr>pm_period = period, pm_date = format_date anchor,
                           pm_start = local_date_start zone start, pm_end = local_date_start zone end_d,
                           pm_labels = period_labels period start end_d\<rparr>))"

section \<open>The first second of a local date\<close>

lemma first_second_bounds:
  "lo \<le> hi \<Longrightarrow> lo \<le> first_second zone date lo hi \<and> first_second zone date lo hi \<le> hi"
proof (induction zone date lo hi rule: first_second.induct)
  case (1 zone date lo hi)
  show ?case
  proof (cases "lo < hi")
    case True
    then have "lo \<le> lo + (hi - lo) div 2" "lo + (hi - lo) div 2 < hi" by auto
    with 1 True show ?thesis
      by (subst (1 2) first_second.simps) (auto simp: Let_def)
  next
    case False
    with 1 show ?thesis by (subst (1 2) first_second.simps) simp
  qed
qed

lemma first_second_correct:
  assumes "\<And>s t. s \<le> t \<Longrightarrow> local_day zone s \<le> local_day zone t" and "lo \<le> hi"
    and "date \<le> local_day zone hi" and "\<And>s. s < lo \<Longrightarrow> local_day zone s < date"
  shows "date \<le> local_day zone (first_second zone date lo hi) \<and>
    (\<forall>s < first_second zone date lo hi. local_day zone s < date)"
  using assms
proof (induction zone date lo hi rule: first_second.induct)
  case (1 zone date lo hi)
  let ?mid = "lo + (hi - lo) div 2"
  show ?case
  proof (cases "lo < hi")
    case True
    then have mid: "lo \<le> ?mid" "?mid < hi" by auto
    show ?thesis
    proof (cases "local_day zone ?mid < date")
      case below: True
      have "local_day zone s < date" if "s < ?mid + 1" for s
        using that below "1.prems"(1) [of s ?mid] by linarith
      from "1.IH"(1) [OF True refl below "1.prems"(1) _ "1.prems"(3) this] mid
      show ?thesis by (subst (1 2) first_second.simps) (simp add: True below Let_def)
    next
      case above: False
      from "1.IH"(2) [OF True refl above "1.prems"(1) _ _ "1.prems"(4)] mid above
      show ?thesis by (subst (1 2) first_second.simps) (simp add: True above Let_def)
    qed
  next
    case False
    with "1.prems" have "lo = hi" by simp
    with "1.prems" show ?thesis by (subst (1 2) first_second.simps) simp
  qed
qed

lemma local_day_far:
  assumes "\<And>t. \<bar>zone t\<bar> \<le> 86400"
  shows "local_day zone ((date - epoch_day) * day_seconds - 48 * 3600) < date"
    and "date \<le> local_day zone ((date - epoch_day) * day_seconds + 48 * 3600)"
proof -
  let ?u = "(date - epoch_day) * day_seconds"
  have "?u - 172800 + zone (?u - 172800) < (date - epoch_day) * 86400"
    using assms [of "?u - 172800"] by (simp add: day_seconds_def)
  then have "(?u - 172800 + zone (?u - 172800)) div 86400 < date - epoch_day"
    by (simp add: div_less_iff_less_mult)
  then show "local_day zone (?u - 48 * 3600) < date" by (simp add: local_day_def day_seconds_def)
  have "(date - epoch_day) * 86400 \<le> ?u + 172800 + zone (?u + 172800)"
    using assms [of "?u + 172800"] by (simp add: day_seconds_def)
  then have "date - epoch_day \<le> (?u + 172800 + zone (?u + 172800)) div 86400"
    by (simp add: less_eq_div_iff_mult_less_eq)
  then show "date \<le> local_day zone (?u + 48 * 3600)" by (simp add: local_day_def day_seconds_def)
qed

lemma local_date_start_correct:
  assumes mono: "\<And>s t. s \<le> t \<Longrightarrow> local_day zone s \<le> local_day zone t" and off: "\<And>t. \<bar>zone t\<bar> \<le> 86400"
  shows "date \<le> local_day zone (local_date_start zone date)"
    and "s < local_date_start zone date \<Longrightarrow> local_day zone s < date"
proof -
  let ?lo = "(date - epoch_day) * day_seconds - 48 * 3600"
  have below: "local_day zone s < date" if "s < ?lo" for s
    using mono [of s ?lo] that local_day_far(1) [of zone date, OF off] by linarith
  have "date \<le> local_day zone (local_date_start zone date) \<and>
      (\<forall>s < local_date_start zone date. local_day zone s < date)"
    unfolding local_date_start_def Let_def
    by (rule first_second_correct [OF mono _ local_day_far(2) [of zone date, OF off] below]) simp_all
  then show "date \<le> local_day zone (local_date_start zone date)"
    "s < local_date_start zone date \<Longrightarrow> local_day zone s < date" by blast+
qed

section \<open>Periods tile the calendar\<close>

lemma monday: "((d - (weekday d + 6) mod 7) + 6) mod 7 = 1"
  unfolding weekday_def by presburger

lemma week_start_fixed: "(s + 6) mod 7 = 1 \<Longrightarrow> period_start ''week'' s = s"
  unfolding period_start_def weekday_def by simp

lemma period_facts:
  assumes "period \<in> {''day'', ''week'', ''month''}" and "s = period_start period a" and "e = period_end period s"
  shows "s \<le> a \<and> a < e \<and> period_start period e = e \<and>
    (period = ''day'' \<longrightarrow> e = s + 1) \<and> (period = ''week'' \<longrightarrow> e = s + 7) \<and>
    (period = ''month'' \<longrightarrow> 28 \<le> e - s \<and> e - s \<le> 31)"
proof -
  consider "period = ''day''" | "period = ''week''" | "period = ''month''" using assms(1) by auto
  then show ?thesis
  proof cases
    case 1
    with assms(2,3) show ?thesis by (simp add: period_start_def period_end_def)
  next
    case 2
    have "s = a - (weekday a + 6) mod 7" "e = s + 7" using 2 assms(2,3) by (simp_all add: period_start_def period_end_def)
    moreover have "(e + 6) mod 7 = 1" using monday [of a] calculation by presburger
    moreover have "0 \<le> (weekday a + 6) mod 7" "(weekday a + 6) mod 7 < 7" by simp_all
    ultimately show ?thesis using week_start_fixed 2 by auto
  next
    case 3
    obtain y m d where a: "date_of a = (y, m, d)" by (cases "date_of a") auto
    note c = civil_date_of [OF a]
    from 3 a assms(2) have s: "s = civil y m 1" by (simp add: period_start_def)
    have fs: "date_of s = (y, m, 1)" using date_of_first [of y m] norm_id [OF c(2,3)] by (simp add: s)
    with 3 assms(3) have e: "e = civil y (m + 1) 1" by (simp add: period_end_def)
    have len: "e = s + month_len y m"
      using civil_next_month [of y m] norm_id [OF c(2,3)] by (simp add: s e)
    have "a = s + (d - 1)" using c(1) civil_day [of y m d] by (simp add: s)
    moreover have "period_start period e = e"
      using 3 date_of_first [of y "m + 1"] by (simp add: period_start_def e civil_norm)
    ultimately show ?thesis using 3 len month_len_bounds [of y m] c(4,5) by auto
  qed
qed

lemma local_date_start_iff:
  assumes mono: "\<And>s t. s \<le> t \<Longrightarrow> local_day zone s \<le> local_day zone t" and off: "\<And>t. \<bar>zone t\<bar> \<le> 86400"
  shows "local_date_start zone d \<le> t \<longleftrightarrow> d \<le> local_day zone t"
proof
  assume "local_date_start zone d \<le> t"
  then show "d \<le> local_day zone t"
    using local_date_start_correct(1) [where zone = zone and date = d, OF mono off] mono by (meson order_trans)
next
  assume "d \<le> local_day zone t"
  then show "local_date_start zone d \<le> t"
    using local_date_start_correct(2) [where zone = zone and date = d and s = t, OF mono off] by linarith
qed

text \<open>
  The metrics of a period cover exactly the instants whose local date lies in it, also
  where the clocks skip midnight: an instant is in \<open>[StartAt, EndAt)\<close> if and only if its date
  in the brand's zone is from the first day of the period up to the first day of the next. The
  period contains the requested date, is one day, Monday to Sunday or a calendar month, its
  successor starts where it ends, and it has one bucket per hour or day. (The date of the zone
  never goes back, and its offset is at most a day.)
\<close>

lemma period_is_exact:
  assumes mono: "\<And>s t. s \<le> t \<Longrightarrow> local_day zone s \<le> local_day zone t" and off: "\<And>t. \<bar>zone t\<bar> \<le> 86400"
    and run: "resolve_period period date (Some zone) now = Inr m"
  shows "\<exists>a s e. pm_date m = format_date a \<and> (date \<noteq> '''' \<longrightarrow> date = format_date a) \<and> a \<le> local_day zone now \<and>
      s \<le> a \<and> a < e \<and> (e - s = 1 \<or> e - s = 7 \<or> 28 \<le> e - s \<and> e - s \<le> 31) \<and>
      period_start period a = s \<and> period_start period e = e \<and>
      (\<forall>t. pm_start m \<le> t \<and> t < pm_end m \<longleftrightarrow> s \<le> local_day zone t \<and> local_day zone t < e) \<and>
      length (pm_labels m) = (if period = ''day'' then 24 else nat (e - s))"
proof -
  have ok: "period \<in> {''day'', ''week'', ''month''}"
    "date \<noteq> '''' \<Longrightarrow> \<exists>a. parse_date date = Some a \<and> format_date a = date"
    using run by (auto simp: resolve_period_def validate_period_def split: sum.splits if_splits option.splits)
  define a where "a = (if date = '''' then local_day zone now else the (parse_date date))"
  define s where "s = period_start period a"
  define e where "e = period_end period s"
  note pf = period_facts [OF ok(1) s_def e_def]
  have m: "m = \<lparr>pm_period = period, pm_date = format_date a, pm_start = local_date_start zone s,
      pm_end = local_date_start zone e, pm_labels = period_labels period s e\<rparr>" and now: "a \<le> local_day zone now"
    using run by (auto simp: resolve_period_def a_def s_def e_def Let_def split: sum.splits if_splits)
  have iv: "pm_start m \<le> t \<and> t < pm_end m \<longleftrightarrow> s \<le> local_day zone t \<and> local_day zone t < e" for t
    using local_date_start_iff [OF mono off, of s t] local_date_start_iff [OF mono off, of e t]
    by (auto simp: m not_le [symmetric])
  have len: "e - s = 1 \<or> e - s = 7 \<or> 28 \<le> e - s \<and> e - s \<le> 31" using pf ok(1) by auto
  show ?thesis
  proof (rule exI [of _ a], rule exI [of _ s], rule exI [of _ e], intro conjI)
    show "pm_date m = format_date a" by (simp add: m)
    show "date \<noteq> '''' \<longrightarrow> date = format_date a" using ok(2) by (auto simp: a_def)
    show "\<forall>t. (pm_start m \<le> t \<and> t < pm_end m) = (s \<le> local_day zone t \<and> local_day zone t < e)"
      using iv by blast
    show "length (pm_labels m) = (if period = ''day'' then 24 else nat (e - s))"
      by (simp add: m period_labels_def)
  qed (use pf now len s_def in blast)+
qed

definition demo_zone :: "int \<Rightarrow> int" where
  "demo_zone t = - 10800"

lemma demo_zone_ok:
  "s \<le> t \<Longrightarrow> local_day demo_zone s \<le> local_day demo_zone t" "\<bar>demo_zone t\<bar> \<le> 86400"
  unfolding local_day_def demo_zone_def day_seconds_def by (simp_all add: zdiv_mono1)

lemma demo_date_start: "local_day demo_zone (local_date_start demo_zone d) = d"
proof (rule antisym)
  have "local_day demo_zone ((d - epoch_day) * 86400 + 10800) = d"
    by (simp add: local_day_def demo_zone_def day_seconds_def)
  then have "local_date_start demo_zone d \<le> (d - epoch_day) * 86400 + 10800"
    using local_date_start_iff [OF demo_zone_ok] by simp
  with \<open>local_day demo_zone ((d - epoch_day) * 86400 + 10800) = d\<close> demo_zone_ok(1)
  show "local_day demo_zone (local_date_start demo_zone d) \<le> d" by metis
  show "d \<le> local_day demo_zone (local_date_start demo_zone d)"
    using local_date_start_iff [OF demo_zone_ok, of d "local_date_start demo_zone d"] by simp
qed

lemma period_is_exact_example:
  "\<exists>m. resolve_period ''week'' '''' (Some demo_zone) 1710000000 = Inr m \<and>
     length (pm_labels m) \<in> {1, 7, 28, 29, 30, 31}"
proof -
  let ?run = "resolve_period ''week'' '''' (Some demo_zone) 1710000000"
  obtain m where m: "?run = Inr m"
    by (simp add: resolve_period_def validate_period_def Let_def demo_date_start)
  from period_is_exact [OF demo_zone_ok m] obtain s e :: int where
    "e - s = 1 \<or> e - s = 7 \<or> 28 \<le> e - s \<and> e - s \<le> 31" "length (pm_labels m) = nat (e - s)" by auto
  moreover from this(1) have "nat (e - s) \<in> {1, 7, 28, 29, 30, 31}" by auto
  ultimately show ?thesis using m by auto
qed

end
