(* ===== verification/Billing.thy ===== *)
theory Billing
  imports Calendar
begin

text \<open>
  The tables of the subscription billing (\<^verbatim>\<open>migrations/0019\<close> to \<^verbatim>\<open>0034\<close>) and what its components
  share: the prices of \<^verbatim>\<open>internal/repository/subscription.go\<close>, the billing context of an owner,
  the subscription record, and the guard against a branch purchase in progress. Amounts are
  in minor units. The identifiers \<open>sb_\<close>, \<open>bq_\<close>, \<open>bo_\<close>, ... prefix the columns of a table.
\<close>

section \<open>Values\<close>

record subscription =
  su_brand :: int
  su_provider :: string
  su_status :: string
  su_currency :: string
  su_unit :: int
  su_branches :: int
  su_monthly :: int
  su_full_monthly :: int
  su_remaining :: int
  su_checkout :: string
  su_next :: "int option"
  su_configured :: bool
  su_trial_available :: bool
  su_trial_started :: "int option"
  su_trial_ends :: "int option"
  su_rejected :: bool
  su_trial_estimated :: bool
  su_updated :: int

record provider_subscription =
  ps_id :: string
  ps_status :: string
  ps_reference :: string
  ps_checkout :: string
  ps_amount :: int
  ps_next :: "int option"

record billing_invoice =
  iv_id :: string
  iv_subscription :: string
  iv_payment :: string
  iv_currency :: string
  iv_payment_status :: string
  iv_amount :: int
  iv_created :: "int option"

record billing_payment =
  py_id :: string
  py_status :: string
  py_currency :: string
  py_reference :: string
  py_amount :: int
  py_refunded :: int
  py_approved :: "int option"

text \<open>A provider call fails with a rejection (\<open>Rejected()\<close> of its error) or without knowing.\<close>

datatype provider_failure = Rejected | Uncertain

record billing_context =
  bc_email :: string
  bc_branches :: int
  bc_program :: string
  bc_trial_started :: "int option"
  bc_trial_estimated :: bool

record subscription_record =
  sr_subscription :: subscription
  sr_provider_id :: string
  sr_reference :: string
  sr_trial_months :: int

record branch_snapshot =
  bs_provider_id :: string
  bs_reference :: string
  bs_unit :: int
  bs_full_unit :: int
  bs_monthly :: int
  bs_count :: int
  bs_next :: int
  bs_trial :: "int option"
  bs_status :: string
  bs_anchor :: int

record branch_quote =
  qt_id :: string
  qt_expires :: int
  qt_currency :: string
  qt_current_monthly :: int
  qt_new_monthly :: int
  qt_amount :: int
  qt_unit :: int
  qt_remaining :: int
  qt_days :: int
  qt_start :: string
  qt_end :: string
  qt_payment_required :: bool
  qt_simulation :: bool

record branch_draft =
  dr_nombre :: string
  dr_direccion :: "string option"
  dr_localidad :: "string option"
  dr_provincia :: "string option"
  dr_codigo_postal :: "string option"
  dr_latitud :: "int option"
  dr_longitud :: "int option"

section \<open>Tables\<close>

record suscripcion =
  sb_marca :: int
  sb_proveedor :: string
  sb_proveedor_id :: "string option"
  sb_referencia :: string
  sb_estado :: string
  sb_moneda :: string
  sb_precio :: int
  sb_cantidad :: int
  sb_importe :: int
  sb_checkout :: "string option"
  sb_proximo :: "int option"
  sb_created :: int
  sb_updated :: int
  sb_trial_months :: int
  sb_trial_ends :: "int option"
  sb_rejected :: bool
  sb_call_started :: "int option"
  sb_full :: "int option"
  sb_transitioned :: "int option"
  sb_program :: "string option"
  sb_price_from :: "int option"

record quote_row =
  bq_id :: string
  bq_marca :: int
  bq_actor :: int
  bq_quote :: branch_quote
  bq_draft :: branch_draft
  bq_snapshot :: branch_snapshot
  bq_expires :: int
  bq_created :: int

record operation_row =
  bo_id :: string
  bo_marca :: int
  bo_actor :: int
  bo_quote :: string
  bo_key :: string
  bo_status :: string
  bo_branch :: "int option"
  bo_checkout :: "string option"
  bo_checkout_id :: "string option"
  bo_payment_id :: "string option"
  bo_payment_status :: string
  bo_amount :: int
  bo_refunded :: int
  bo_plan_amount :: "int option"
  bo_approved :: "int option"
  bo_plan_started :: bool
  bo_simulation :: bool
  bo_fault :: string
  bo_attempts :: int
  bo_error :: string
  bo_next_attempt :: int
  bo_created :: int
  bo_updated :: int

record quantity_history =
  qh_marca :: int
  qh_operation :: string
  qh_unit :: int
  qh_full :: int
  qh_branches :: int
  qh_from :: int
  qh_until :: int

record attribution =
  ra_brand :: int
  ra_code :: int
  ra_campaign :: int
  ra_source_kind :: string
  ra_influencer :: "int option"
  ra_source_brand :: "int option"
  ra_discount_bps :: int
  ra_discount_charges :: int
  ra_reward_bps :: int
  ra_reward_charges :: int

record charge =
  rc_invoice :: string
  rc_brand :: int
  rc_payment :: string
  rc_amount :: int
  rc_full_amount :: int
  rc_status :: string
  rc_index :: int

record reward =
  rr_invoice :: string
  rr_brand :: int
  rr_source_kind :: string
  rr_influencer :: "int option"
  rr_source_brand :: "int option"
  rr_amount :: int
  rr_status :: string
  rr_recovery :: "int option"

record allocation =
  al_id :: int
  al_brand :: int
  al_invoice :: string
  al_payment :: string
  al_amount :: int
  al_currency :: string
  al_reference :: string
  al_key :: string
  al_finance :: int
  al_status :: string
  al_recovery :: "int option"
  al_created :: int

record price_row =
  pr_program :: string
  pr_unit :: int
  pr_version :: int
  pr_updated_by :: int
  pr_updated :: int

record price_change =
  pc_id :: string
  pc_program :: string
  pc_unit :: int
  pc_previous_version :: int
  pc_version :: int
  pc_include :: bool
  pc_admin :: int
  pc_previous_unit :: "int option"
  pc_created :: int

record price_item =
  pi_change :: string
  pi_brand :: int
  pi_provider :: string
  pi_reference :: string
  pi_status :: string
  pi_amount :: "int option"

record price_history =
  ph_provider :: string
  ph_unit :: int
  ph_full :: int
  ph_branches :: int
  ph_from :: int
  ph_until :: int
  ph_change :: string

record backoffice_user =
  bu_id :: int
  bu_email :: string
  bu_active :: bool
  bu_role :: string

record audit_row =
  au_user :: int
  au_action :: string
  au_kind :: string
  au_object :: string

record confirmation_email =
  ce_id :: string
  ce_owner :: int
  ce_to :: string
  ce_brand :: int
  ce_provider :: string
  ce_expires :: int

record campaign =
  cp_id :: int
  cp_program :: string
  cp_programs :: "string list option"
  cp_discount_bps :: int
  cp_discount_charges :: int
  cp_reward_bps :: int
  cp_reward_charges :: int
  cp_starts :: int
  cp_ends :: int
  cp_active :: bool

record referral_code =
  cd_id :: int
  cd_code :: string
  cd_campaign :: int
  cd_source_kind :: string
  cd_influencer :: "int option"
  cd_source_brand :: "int option"
  cd_active :: bool

record billing_db = core_db +
  suscripciones :: "suscripcion list"
  branch_quotes :: "quote_row list"
  branch_operations :: "operation_row list"
  quantity_histories :: "quantity_history list"
  attributions :: "attribution list"
  charges :: "charge list"
  rewards :: "reward list"
  allocations :: "allocation list"
  prices :: "price_row list"
  price_changes :: "price_change list"
  price_items :: "price_item list"
  price_histories :: "price_history list"
  eventos :: "(string \<times> string \<times> string) list"
  backoffice_users :: "backoffice_user list"
  backoffice_audit :: "audit_row list"
  confirmation_emails :: "confirmation_email list"
  campaigns :: "campaign list"
  referral_codes :: "referral_code list"

section \<open>Prices\<close>

definition max_subscription_amount :: int where
  "max_subscription_amount = 9007199254740991"

text \<open>Go's \<open>/\<close> and \<open>%\<close> on \<open>int64\<close>; the operands of the two functions are not negative in the code.\<close>

definition discounted_minor :: "int \<Rightarrow> int \<Rightarrow> int" where
  "discounted_minor full bps =
     (let pay = sub64 10000 bps in
      add64 (mul64 (quo64 full 10000) pay)
        (quo64 (add64 (mul64 (rem64 full 10000) pay) 5000) 10000))"

definition referral_reward_minor :: "int \<Rightarrow> int \<Rightarrow> int \<Rightarrow> int \<Rightarrow> int" where
  "referral_reward_minor collected paid_index reward_bps reward_charges =
     (if collected < 1 \<or> paid_index < 1 \<or> reward_charges < paid_index \<or> reward_bps < 1 then 0
      else add64 (mul64 (quo64 collected 10000) reward_bps)
             (quo64 (add64 (mul64 (rem64 collected 10000) reward_bps) 5000) 10000))"

definition provider_status :: "string \<Rightarrow> string option" where
  "provider_status v =
     (if v = ''pending'' then Some ''PENDING''
      else if v = ''authorized'' then Some ''AUTHORIZED''
      else if v = ''paused'' then Some ''PAUSED''
      else if v = ''cancelled'' \<or> v = ''canceled'' then Some ''CANCELLED''
      else None)"

text \<open>
  \<open>TrialEnd\<close>: the same day and time of the next month in the fixed zone UTC-3, or that
  month's last day. Instants are nanoseconds of the Unix epoch.
\<close>

definition day_ns :: int where
  "day_ns = 86400000000000"

definition argentina_day :: "int \<Rightarrow> int" where
  "argentina_day t = (t - 10800000000000) div day_ns + epoch_day"

definition trial_end :: "int \<Rightarrow> int" where
  "trial_end start =
     (let tod = (start - 10800000000000) mod day_ns;
          (y, m, d) = date_of (argentina_day start);
          (ny, nm, _) = date_of (civil y (m + 1) 1);
          (_, _, last) = date_of (civil ny (nm + 1) 0);
          day = min d last
      in (civil ny nm day - epoch_day) * day_ns + tod + 10800000000000)"

section \<open>Reading the subscription\<close>

definition find_suscripcion :: "int \<Rightarrow> 'a billing_db_scheme \<Rightarrow> suscripcion option" where
  "find_suscripcion brand d = List.find (\<lambda>s. sb_marca s = brand) (suscripciones d)"

definition active_branches :: "int \<Rightarrow> 'a core_db_scheme \<Rightarrow> int" where
  "active_branches brand d =
     int (length (filter (\<lambda>s. s_marca s = brand \<and> s_activo s \<and> s_deleted_at s = None) (sucursales d)))"

definition paid_count :: "int \<Rightarrow> 'a billing_db_scheme \<Rightarrow> int" where
  "paid_count brand d = int (length (filter (\<lambda>c. rc_brand c = brand) (charges d)))"

definition find_attribution :: "int \<Rightarrow> 'a billing_db_scheme \<Rightarrow> attribution option" where
  "find_attribution brand d = List.find (\<lambda>a. ra_brand a = brand) (attributions d)"

text \<open>\<open>view\<close> is \<open>committed\<close> for a query on the pool and \<open>working\<close> inside a transaction.\<close>

definition billing_context_rows :: "'a billing_db_scheme \<Rightarrow> int \<Rightarrow> int \<Rightarrow> billing_context list" where
  "billing_context_rows d actor brand =
     [\<lparr>bc_email = u_email u, bc_branches = active_branches brand d, bc_program = p_tipo p,
       bc_trial_started = m_trial_started m, bc_trial_estimated = m_trial_estimated m\<rparr>.
        mm \<leftarrow> membresias d, u \<leftarrow> usuarios d, m \<leftarrow> marcas d, p \<leftarrow> programas d,
        u_id u = mm_usuario mm \<and> m_id m = mm_marca mm \<and> m_activo m \<and> p_marca p = m_id m \<and> p_activo p
        \<and> mm_usuario mm = actor \<and> mm_marca mm = brand \<and> mm_activo mm \<and> mm_rol mm = ''PROPIETARIO'']"

definition billing_context ::
  "('a billing_db_scheme world \<Rightarrow> 'a billing_db_scheme) \<Rightarrow> int \<Rightarrow> int \<Rightarrow> ('a billing_db_scheme, billing_context) tx" where
  "billing_context view actor brand =
     seq (query (\<lambda>w. first_row (billing_context_rows (view w) actor brand))) (\<lambda>row.
     seq (require row (Repo ErrForbidden)) (\<lambda>out.
     seq (reject_if (bc_branches out < 1) (Repo ErrInvalidRequest)) (\<lambda>_.
     ret out)))"

definition discount_remaining :: "int \<Rightarrow> 'a billing_db_scheme \<Rightarrow> int" where
  "discount_remaining brand d =
     (case find_attribution brand d of
        None \<Rightarrow> 0
      | Some a \<Rightarrow> max (ra_discount_charges a - paid_count brand d) 0)"

definition subscription_of :: "'a billing_db_scheme \<Rightarrow> suscripcion \<Rightarrow> subscription" where
  "subscription_of d s =
     \<lparr>su_brand = sb_marca s, su_provider = sb_proveedor s, su_status = sb_estado s,
      su_currency = sb_moneda s, su_unit = sb_precio s, su_branches = sb_cantidad s,
      su_monthly = sb_importe s,
      su_full_monthly = coalesce (sb_full s) (sb_precio s) * sb_cantidad s,
      su_remaining = discount_remaining (sb_marca s) d,
      su_checkout = coalesce (sb_checkout s) '''', su_next = sb_proximo s, su_configured = False,
      su_trial_available = (sb_estado s = ''CREATING'' \<and> 0 < sb_trial_months s),
      su_trial_started = None, su_trial_ends = sb_trial_ends s, su_rejected = sb_rejected s,
      su_trial_estimated = False, su_updated = sb_updated s\<rparr>"

definition record_of :: "'a billing_db_scheme \<Rightarrow> suscripcion \<Rightarrow> subscription_record" where
  "record_of d s =
     \<lparr>sr_subscription = subscription_of d s, sr_provider_id = coalesce (sb_proveedor_id s) '''',
      sr_reference = sb_referencia s, sr_trial_months = sb_trial_months s\<rparr>"

definition subscription_record ::
  "('a billing_db_scheme world \<Rightarrow> 'a billing_db_scheme) \<Rightarrow> int \<Rightarrow> ('a billing_db_scheme, subscription_record) tx" where
  "subscription_record view brand =
     seq (query (\<lambda>w. map_option (record_of (view w)) (find_suscripcion brand (view w)))) (\<lambda>row.
     require row (Repo ErrNotFound))"

section \<open>Guards\<close>

definition active_operation :: "operation_row \<Rightarrow> bool" where
  "active_operation o1 = (bo_status o1 \<in> {''PAYMENT_PENDING'', ''PLAN_UPDATING'', ''REFUND_PENDING''})"

definition require_no_pending_branch :: "int \<Rightarrow> ('a billing_db_scheme, unit) tx" where
  "require_no_pending_branch brand =
     seq (query (\<lambda>w. list_ex (\<lambda>o1. bo_marca o1 = brand \<and> active_operation o1) (branch_operations (working w)))) (\<lambda>pending.
     reject_if pending (Repo ErrIdempotencyInProgress))"

definition require_no_active_subscription :: "int \<Rightarrow> ('a billing_db_scheme, unit) tx" where
  "require_no_active_subscription brand =
     seq (query (\<lambda>w. list_ex (\<lambda>s. sb_marca s = brand \<and> sb_estado s \<noteq> ''CANCELLED'') (suscripciones (working w)))) (\<lambda>active.
     reject_if active (Repo ErrSubscriptionChangeRequired))"

text \<open>
  \<open>lockBranchBilling\<close>: the owner's brand, its subscription and the number of its branches must
  agree. \<open>ba_day\<close> is the local day of an instant in the zone America/Argentina/Buenos\_Aires.
\<close>

definition snapshot_of :: "(int \<Rightarrow> int) \<Rightarrow> suscripcion \<Rightarrow> branch_snapshot" where
  "snapshot_of ba_day s =
     \<lparr>bs_provider_id = coalesce (sb_proveedor_id s) '''', bs_reference = sb_referencia s,
      bs_unit = sb_precio s, bs_full_unit = coalesce (sb_full s) (sb_precio s),
      bs_monthly = sb_importe s, bs_count = sb_cantidad s, bs_next = coalesce (sb_proximo s) 0,
      bs_trial = sb_trial_ends s, bs_status = sb_estado s,
      bs_anchor = (case date_of (ba_day (coalesce (sb_trial_ends s) (sb_created s))) of (_, _, d) \<Rightarrow> d)\<rparr>"

definition owner_role :: "'a core_db_scheme \<Rightarrow> int \<Rightarrow> int \<Rightarrow> string option" where
  "owner_role d actor brand = first_row
     [mm_rol mm. m \<leftarrow> marcas d, mm \<leftarrow> membresias d, u \<leftarrow> usuarios d,
        mm_marca mm = m_id m \<and> u_id u = mm_usuario mm \<and> u_activo u \<and> u_deleted_at u = None \<and>
        m_id m = brand \<and> mm_usuario mm = actor \<and> mm_activo mm \<and> m_activo m \<and> m_deleted_at m = None]"

definition billing_consistent :: "branch_snapshot \<Rightarrow> int \<Rightarrow> bool" where
  "billing_consistent out count \<longleftrightarrow>
     \<not> (bs_status out \<noteq> ''AUTHORIZED'' \<or> bs_provider_id out = '''' \<or> bs_unit out < 0 \<or> bs_count out < 1
        \<or> count \<noteq> bs_count out \<or> bs_monthly out \<noteq> mul64 (bs_unit out) (bs_count out))"

definition lock_branch_billing ::
  "(int \<Rightarrow> int) \<Rightarrow> int \<Rightarrow> int \<Rightarrow> ('a billing_db_scheme, branch_snapshot) tx" where
  "lock_branch_billing ba_day actor brand =
     seq (query (\<lambda>w. owner_role (working w) actor brand)) (\<lambda>role.
     seq (reject_if (role \<noteq> Some ''PROPIETARIO'') (Repo ErrForbidden)) (\<lambda>_.
     seq (query (\<lambda>w. find_suscripcion brand (working w))) (\<lambda>row.
     seq (require row (Repo ErrSubscriptionChangeRequired)) (\<lambda>s.
     let out = snapshot_of ba_day s in
     seq (query (\<lambda>w. active_branches brand (working w))) (\<lambda>count.
     seq (reject_if (\<not> billing_consistent out count) (Repo ErrQuoteChanged)) (\<lambda>_.
     ret out))))))"

section \<open>Facts the components share\<close>

lemma no_commit_billing [no_commit_rules]:
  "no_commit (billing_context view actor brand)" "no_commit (subscription_record view brand)"
  "no_commit (require_no_pending_branch brand)" "no_commit (require_no_active_subscription brand)"
  unfolding billing_context_def subscription_record_def require_no_pending_branch_def
    require_no_active_subscription_def
  by (intro no_commit_rules)+

lemma no_commit_lock_branch_billing [no_commit_rules]: "no_commit (lock_branch_billing ba_day actor brand)"
  unfolding lock_branch_billing_def by (intro no_commit_rules)

text \<open>Reading changes nothing but the fault schedule.\<close>

lemma billing_context_Inr:
  assumes "billing_context view actor brand w = (Inr c, w1)"
  shows "quiet w w1" "sent w1 = sent w"
    "\<exists>w2. quiet w w2 \<and> c \<in> set (billing_context_rows (view w2) actor brand) \<and> 1 \<le> bc_branches c"
  using assms unfolding billing_context_def tx_run
  by (auto dest!: first_row_SomeD simp: not_less intro!: exI [of _ "ticked w"])

lemma lock_branch_billing_Inr:
  assumes "lock_branch_billing ba_day actor brand w = (Inr out, w1)"
  obtains s where "find_suscripcion brand (working w) = Some s" "out = snapshot_of ba_day s"
    "owner_role (working w) actor brand = Some ''PROPIETARIO''"
    "billing_consistent out (active_branches brand (working w))" "quiet w w1" "sent w1 = sent w"
  using assms unfolding lock_branch_billing_def tx_run Let_def
  by (auto simp: tx_run quiet_def)

lemma require_no_pending_branch_Inr:
  "require_no_pending_branch brand w = (Inr u, w1) \<longleftrightarrow>
     ok_next w \<and> \<not> (\<exists>o1 \<in> set (branch_operations (working w)). bo_marca o1 = brand \<and> active_operation o1)
     \<and> w1 = ticked w"
  by (auto simp: require_no_pending_branch_def tx_run list_ex_iff)

subsection \<open>Prices\<close>

lemma wrap64_small: "0 \<le> x \<Longrightarrow> x < 9223372036854775808 \<Longrightarrow> wrap64 x = x"
  by (simp add: in_int64_def)

lemma percent_split:
  assumes "0 \<le> (n::int)" "n \<le> max_subscription_amount" "0 \<le> p" "p \<le> 10000"
  shows "add64 (mul64 (quo64 n 10000) p) (quo64 (add64 (mul64 (rem64 n 10000) p) 5000) 10000)
     = (n * p + 5000) div 10000"
proof -
  let ?q = "n div 10000" and ?r = "n mod 10000"
  have n: "n = 10000 * ?q + ?r" by simp
  have r: "0 \<le> ?r" "?r < 10000" by simp_all
  have q: "0 \<le> ?q" "?q \<le> 900719925475" using assms(1,2) by (simp_all add: max_subscription_amount_def)
  have rp: "0 \<le> ?r * p" using r assms(3) by simp
  have rp2: "?r * p \<le> 10000 * 10000" by (rule mult_mono) (use r assms(3,4) in auto)
  have qp: "0 \<le> ?q * p" using q(1) assms(3) by simp
  have qp2: "?q * p \<le> 900719925475 * 10000" by (rule mult_mono) (use q assms(3,4) in auto)
  have d: "0 \<le> (?r * p + 5000) div 10000" "(?r * p + 5000) div 10000 \<le> 10001"
    using rp rp2 zdiv_mono1 [of "?r * p + 5000" "10000 * 10000 + 5000" 10000]
    by (simp_all add: pos_imp_zdiv_nonneg_iff)
  have "n * p = (10000 * ?q + ?r) * p" by simp
  then have "n * p + 5000 = 10000 * (?q * p) + (?r * p + 5000)" by (simp only: algebra_simps)
  then have "(n * p + 5000) div 10000 = (10000 * (?q * p) + (?r * p + 5000)) div 10000" by simp
  also have "\<dots> = ?q * p + (?r * p + 5000) div 10000" by simp
  finally have goal: "(n * p + 5000) div 10000 = ?q * p + (?r * p + 5000) div 10000" .
  have "quo64 n 10000 = ?q" "rem64 n 10000 = ?r"
    using assms(1) q by (simp_all add: quo64_def rem64_def sdiv_nonneg smod_nonneg wrap64_small)
  moreover have "mul64 ?q p = ?q * p" "add64 (mul64 ?r p) 5000 = ?r * p + 5000"
    using qp qp2 rp rp2 by (simp_all add: mul64_def add64_def wrap64_small)
  moreover have "quo64 (?r * p + 5000) 10000 = (?r * p + 5000) div 10000"
    using rp rp2 d by (simp add: quo64_def sdiv_nonneg wrap64_small)
  ultimately show ?thesis using qp qp2 d goal by (simp add: add64_def wrap64_small)
qed

lemma nearest_percent:
  assumes "0 \<le> (n::int)" "0 \<le> p" "p \<le> 10000"
  defines "x \<equiv> (n * p + 5000) div 10000"
  shows "0 \<le> x" "x \<le> n" "\<bar>10000 * x - n * p\<bar> \<le> 5000"
proof -
  have np: "0 \<le> n * p" "n * p \<le> n * 10000" using assms by (auto intro: mult_left_mono)
  then show "0 \<le> x" by (simp add: x_def pos_imp_zdiv_nonneg_iff)
  have "n * p + 5000 < 10000 * (n + 1)" using np by simp
  then show "x \<le> n" unfolding x_def by (simp add: div_less_iff_less_mult flip: zless_add1_eq)
  have "n * p + 5000 = 10000 * x + (n * p + 5000) mod 10000" by (simp add: x_def)
  moreover have "0 \<le> (n * p + 5000) mod 10000" "(n * p + 5000) mod 10000 < 10000" by simp_all
  ultimately show "\<bar>10000 * x - n * p\<bar> \<le> 5000" by linarith
qed

lemma discounted_minor_eq:
  assumes "0 \<le> full" "full \<le> max_subscription_amount" "0 \<le> bps" "bps \<le> 10000"
  shows "discounted_minor full bps = (full * (10000 - bps) + 5000) div 10000"
proof -
  have "sub64 10000 bps = 10000 - bps" using assms by (simp add: sub64_def wrap64_small)
  then show ?thesis using percent_split [OF assms(1,2), of "10000 - bps"] assms(3,4)
    by (simp add: discounted_minor_def)
qed

lemma referral_reward_minor_eq:
  assumes "1 \<le> paid" "paid \<le> max_subscription_amount" "0 \<le> bps" "bps \<le> 10000" "1 \<le> index" "index \<le> n"
  shows "referral_reward_minor paid index bps n = (paid * bps + 5000) div 10000"
proof (cases "bps = 0")
  case False
  with percent_split [of paid bps] assms show ?thesis by (simp add: referral_reward_minor_def)
qed (simp add: referral_reward_minor_def)

subsection \<open>The end of the trial\<close>

lemma trial_end_date:
  assumes "date_of (argentina_day start) = (y, m, d)"
  shows "date_of (argentina_day (trial_end start)) =
      (norm_year y (m + 1), norm_month (m + 1), min d (month_len (norm_year y (m + 1)) (norm_month (m + 1))))"
    and "(trial_end start - 10800000000000) mod day_ns = (start - 10800000000000) mod day_ns"
    and "argentina_day (trial_end start) - argentina_day start \<in> {28..31}"
proof -
  let ?y = "norm_year y (m + 1)" and ?m = "norm_month (m + 1)"
  let ?l = "month_len ?y ?m" and ?tod = "(start - 10800000000000) mod day_ns"
  note c = civil_date_of [OF assms]
  have first: "date_of (civil y (m + 1) 1) = (?y, ?m, 1)" by (rule date_of_first)
  have last: "date_of (civil ?y (?m + 1) 0) = (?y, ?m, ?l)"
    using date_of_last [of ?y ?m] norm_id [OF norm_month_bounds] by simp
  have tod: "0 \<le> ?tod" "?tod < day_ns" by (simp_all add: day_ns_def)
  have t: "trial_end start = (civil ?y ?m (min d ?l) - epoch_day) * day_ns + ?tod + 10800000000000"
    by (simp add: trial_end_def assms first last Let_def)
  have "trial_end start - 10800000000000 = ?tod + day_ns * (civil ?y ?m (min d ?l) - epoch_day)"
    by (simp add: t)
  then show "(trial_end start - 10800000000000) mod day_ns = ?tod" by (simp only: mod_mult_self2 mod_mod_trivial)
  have "(trial_end start - 10800000000000) div day_ns = civil ?y ?m (min d ?l) - epoch_day"
    using tod by (simp add: t day_ns_def)
  then have day: "argentina_day (trial_end start) = civil ?y ?m (min d ?l)" by (simp add: argentina_day_def)
  have ml: "1 \<le> min d ?l" "min d ?l \<le> ?l" using c(4) month_len_bounds [of ?y ?m] by auto
  then show "date_of (argentina_day (trial_end start)) = (?y, ?m, min d ?l)"
    unfolding day by (rule date_of_civil [OF norm_month_bounds])
  have "civil ?y ?m (min d ?l) = civil y (m + 1) 1 + (min d ?l - 1)"
    by (simp add: civil_norm) (metis civil_day)
  moreover have "civil y (m + 1) 1 = civil y m 1 + month_len y m"
    using civil_next_month [of y m] norm_id [OF c(2,3)] by simp
  moreover have "argentina_day start = civil y m 1 + (d - 1)" using c(1) civil_day [of y m d] by simp
  ultimately show "argentina_day (trial_end start) - argentina_day start \<in> {28..31}"
    using day c(4,5) month_len_bounds [of y m] month_len_bounds [of ?y ?m] by (auto simp: min_def)
qed

end
