(* ===== verification/Proration.thy ===== *)
theory Proration
  imports Billing
begin

text \<open>
  The price of the days that a new branch adds to the running billing cycle
  (\<^verbatim>\<open>internal/service/branch_proration.go\<close>): civil days, anchored months and integer money. A day
  is its number; \<open>ba_day\<close> gives the local day of an instant in Buenos Aires and \<open>ba_midnight\<close> the
  instant at which a local day begins (the zone database is not part of the repository).
\<close>

section \<open>Counting days\<close>

function count_days :: "int \<Rightarrow> int \<Rightarrow> int \<Rightarrow> int" where
  "count_days a b n = (if a < b then count_days (a + 1) b (n + 1) else n)"
  by auto
termination by (relation "measure (\<lambda>(a, b, n). nat (b - a))") auto

declare count_days.simps [simp del]

lemma count_days_eq: "count_days a b n = n + max 0 (b - a)"
proof (induction a b n rule: count_days.induct)
  case (1 a b n)
  then show ?case by (subst count_days.simps) auto
qed

section \<open>The proration\<close>

record proration =
  po_remaining :: int
  po_days :: int
  po_amount :: int
  po_start :: int
  po_end :: int

definition proration_amount :: "int \<Rightarrow> int \<Rightarrow> int \<Rightarrow> int" where
  "proration_amount unit remaining days =
     quo64 (add64 (mul64 unit remaining) (quo64 days 2)) days"

definition anchored_proration ::
  "(int \<Rightarrow> int) \<Rightarrow> int \<Rightarrow> int \<Rightarrow> int \<Rightarrow> int option \<Rightarrow> int \<Rightarrow> err + proration" where
  "anchored_proration ba_day now next_charge unit trial anchor =
     (let start = ba_day now; fin = ba_day next_charge in
      if anchor < 1 \<or> 31 < anchor then Inl (Repo ErrQuoteChanged)
      else
        let fin = (if fin = start then anchored_month fin 1 anchor else fin) in
        if fin < start \<or> unit < 0 \<or> max_int64 div 62 < unit then Inl (Repo ErrQuoteChanged)
        else if fin \<noteq> anchored_month fin 0 anchor then Inl (Repo ErrQuoteChanged)
        else
          let cycle_start = anchored_month fin (-1) anchor in
          if start < cycle_start then Inl (Repo ErrQuoteChanged)
          else
            let days = count_days cycle_start fin 0; remaining = count_days start fin 0 in
            if days < 1 \<or> days < remaining then Inl (Repo ErrQuoteChanged)
            else Inr \<lparr>po_remaining = remaining, po_days = days,
                      po_amount = (if trial = None \<or> \<not> now < the trial then proration_amount unit remaining days else 0),
                      po_start = start, po_end = fin\<rparr>)"

definition calendar_proration ::
  "(int \<Rightarrow> int) \<Rightarrow> int \<Rightarrow> int \<Rightarrow> int \<Rightarrow> int option \<Rightarrow> err + proration" where
  "calendar_proration ba_day now next_charge unit trial =
     anchored_proration ba_day now next_charge unit trial (case date_of (ba_day next_charge) of (_, _, d) \<Rightarrow> d)"

section \<open>The quote\<close>

record service_config =
  sv_proration_enabled :: bool
  sv_simulator :: bool
  sv_billing :: bool
  sv_production :: bool
  sv_public_url :: string
  sv_branch_price :: int
  sv_points_price :: int
  sv_mail_provider :: string

definition branch_proration_available :: "service_config \<Rightarrow> bool" where
  "branch_proration_available cfg = (sv_proration_enabled cfg \<and> (sv_simulator cfg \<or> sv_billing cfg))"

definition clean_branch :: "branch_draft \<Rightarrow> err + branch_draft" where
  "clean_branch r =
     (let r = r\<lparr>dr_nombre := trim_space (dr_nombre r)\<rparr> in
      if dr_nombre r = '''' \<or> 120 < length (dr_nombre r)
         \<or> (case dr_latitud r of None \<Rightarrow> False | Some x \<Rightarrow> x < degrees (- 90) \<or> degrees 90 < x)
         \<or> (case dr_longitud r of None \<Rightarrow> False | Some x \<Rightarrow> x < degrees (- 180) \<or> degrees 180 < x)
      then Inl (Svc InvalidRequest) else Inr r)"

definition quote_for ::
  "(int \<Rightarrow> int) \<Rightarrow> (int \<Rightarrow> int) \<Rightarrow> service_config \<Rightarrow> int \<Rightarrow> branch_snapshot \<Rightarrow> err + branch_quote" where
  "quote_for ba_day ba_midnight cfg now s =
     (case anchored_proration ba_day now (bs_next s) (bs_unit s) (bs_trial s) (bs_anchor s) of
        Inl e \<Rightarrow> Inl e
      | Inr p \<Rightarrow>
          let expiry = now + 600000000000; midnight = ba_midnight (po_start p + 1);
              expiry = (if midnight < expiry then midnight else expiry) in
          if sub64 max_int64 (bs_unit s) < bs_monthly s then Inl (Svc InvalidRequest)
          else Inr \<lparr>qt_id = '''', qt_expires = expiry, qt_currency = ''ARS'',
                    qt_current_monthly = bs_monthly s, qt_new_monthly = add64 (bs_monthly s) (bs_unit s),
                    qt_amount = po_amount p, qt_unit = bs_unit s, qt_remaining = po_remaining p,
                    qt_days = po_days p, qt_start = format_date (po_start p), qt_end = format_date (po_end p),
                    qt_payment_required = (0 < po_amount p), qt_simulation = sv_simulator cfg\<rparr>)"

section \<open>What the proration charges\<close>

lemma norm_month_year_add:
  "norm_year (norm_year y m) (norm_month m + k) = norm_year y (m + k)"
  "norm_month (norm_month m + k) = norm_month (m + k)"
proof -
  have "(m - 1) div 12 + ((m - 1) mod 12 + k) div 12 = (m - 1 + k) div 12"
    using div_mult_self4 [of 12 "(m - 1) div 12" "(m - 1) mod 12 + k"]
    by (simp add: algebra_simps flip: div_mult_self1)
  then show "norm_year (norm_year y m) (norm_month m + k) = norm_year y (m + k)"
    by (simp add: norm_year_def norm_month_def algebra_simps)
  show "norm_month (norm_month m + k) = norm_month (m + k)"
    by (simp add: norm_month_def mod_simps algebra_simps)
qed

lemma date_of_anchored:
  assumes "date_of t = (y, m, d)" and "1 \<le> anchor"
  shows "date_of (anchored_month t n anchor) =
     (norm_year y (m + n), norm_month (m + n), min anchor (month_len (norm_year y (m + n)) (norm_month (m + n))))"
proof -
  let ?y = "norm_year y (m + n)" and ?m = "norm_month (m + n)"
  have "anchored_month t n anchor = civil ?y ?m (min anchor (month_len ?y ?m))"
    using anchored_month_eq [OF assms(1)] civil_day [of ?y ?m "min anchor (month_len ?y ?m)"]
    by (simp add: civil_norm)
  then show ?thesis
    using date_of_civil [OF norm_month_bounds, of "min anchor (month_len ?y ?m)"] assms(2) month_len_bounds [of ?y ?m]
    by simp
qed

lemma anchored_month_add:
  assumes "1 \<le> anchor"
  shows "anchored_month (anchored_month t n anchor) k anchor = anchored_month t (n + k) anchor"
proof -
  obtain y m d where t: "date_of t = (y, m, d)" by (cases "date_of t") auto
  let ?y = "norm_year y (m + n)" and ?m = "norm_month (m + n)"
  have "civil ?y (?m + k) 1 = civil y (m + n + k) 1"
    using civil_norm [of ?y "?m + k" 1] civil_norm [of y "m + n + k" 1] by (simp add: norm_month_year_add)
  then show ?thesis
    using anchored_month_eq [OF date_of_anchored [OF t assms], of n k anchor] anchored_month_eq [OF t, of "n + k" anchor]
    by (simp add: norm_month_year_add add.assoc)
qed

lemma proration_amount_eq:
  assumes "0 \<le> unit" "unit \<le> max_int64 div 62" "0 \<le> remaining" "remaining \<le> days" "1 \<le> days" "days \<le> 31"
  shows "proration_amount unit remaining days = (unit * remaining + days div 2) div days"
proof -
  have "unit * remaining \<le> (max_int64 div 62) * 31" by (rule mult_mono) (use assms in auto)
  then have ur: "0 \<le> unit * remaining" "unit * remaining \<le> 4611686018427387900" using assms by simp_all
  have d2: "quo64 days 2 = days div 2" "0 \<le> days div 2" "days div 2 \<le> 15"
    using assms(5,6) by (simp_all add: quo64_def sdiv_nonneg wrap64_small)
  have s: "add64 (mul64 unit remaining) (days div 2) = unit * remaining + days div 2"
    using ur d2 by (simp add: add64_def mul64_def wrap64_small)
  have "0 \<le> (unit * remaining + days div 2) div days"
    using ur d2 assms(5) by (simp add: pos_imp_zdiv_nonneg_iff)
  moreover have "(unit * remaining + days div 2) div days \<le> unit * remaining + days div 2"
    using zdiv_mono2 [of "unit * remaining + days div 2" 1 days] ur d2 assms(5) by simp
  ultimately show ?thesis using ur d2 assms(5)
    by (simp add: proration_amount_def d2(1) s quo64_def sdiv_nonneg wrap64_small)
qed

lemma proration_amount_nearest:
  assumes "0 \<le> unit" "0 \<le> remaining" "remaining \<le> days" "1 \<le> (days::int)"
  defines "x \<equiv> (unit * remaining + days div 2) div days"
  shows "0 \<le> x" "x \<le> unit" "2 * \<bar>x * days - unit * remaining\<bar> \<le> days"
proof -
  have ur: "0 \<le> unit * remaining" "unit * remaining \<le> unit * days" using assms by (auto intro: mult_left_mono)
  have m: "0 \<le> (unit * remaining + days div 2) mod days" "(unit * remaining + days div 2) mod days < days"
    using assms(4) by simp_all
  have e: "unit * remaining + days div 2 = days * x + (unit * remaining + days div 2) mod days"
    by (simp add: x_def)
  show "0 \<le> x" using ur assms(4) by (simp add: x_def pos_imp_zdiv_nonneg_iff)
  have h: "days div 2 < days" "2 * (days div 2) \<le> days" "days - 1 \<le> 2 * (days div 2)" using assms(4) by auto
  have "unit * remaining + days div 2 < days * (unit + 1)" using ur h by (simp add: algebra_simps)
  have "\<not> unit + 1 \<le> x"
  proof
    assume "unit + 1 \<le> x"
    then have "days * (unit + 1) \<le> days * x" using assms(4) by (simp add: mult_left_mono)
    with \<open>unit * remaining + days div 2 < days * (unit + 1)\<close> e m show False by linarith
  qed
  then show "x \<le> unit" by simp
  show "2 * \<bar>x * days - unit * remaining\<bar> \<le> days" proof -
    have near: "2 * \<bar>D - u\<bar> \<le> n"
      if "u + h = D + r" "0 \<le> r" "r < n" "2 * h \<le> n" "n - 1 \<le> 2 * h" for u h D r n :: int
      using that by arith
    show ?thesis using near [OF e m h(2,3)] by (simp only: mult.commute)
  qed
qed

lemma anchored_proration_Inr:
  assumes "anchored_proration ba_day now nc unit trial anchor = Inr p"
  shows "28 \<le> po_days p" "po_days p \<le> 31" "0 \<le> po_remaining p" "po_remaining p \<le> po_days p"
    "po_end p - po_start p = po_remaining p" "po_start p = ba_day now" "0 \<le> unit" "unit \<le> max_int64 div 62"
    "po_end p = anchored_month (po_end p) 0 anchor" "1 \<le> anchor" "anchor \<le> 31"
    "po_amount p = (if trial = None \<or> \<not> now < the trial
       then (unit * po_remaining p + po_days p div 2) div po_days p else 0)"
proof -
  let ?fin = "if ba_day nc = ba_day now then anchored_month (ba_day nc) 1 anchor else ba_day nc"
  have a: "1 \<le> anchor" "anchor \<le> 31" and le: "ba_day now \<le> ?fin" and u: "0 \<le> unit" "unit \<le> max_int64 div 62"
    and fix0: "?fin = anchored_month ?fin 0 anchor" and cs: "anchored_month ?fin (-1) anchor \<le> ba_day now"
    using assms by (auto simp: anchored_proration_def Let_def split: if_splits)
  note cycle = anchored_cycle [OF a, of ?fin]
  have days: "count_days (anchored_month ?fin (-1) anchor) ?fin 0 = ?fin - anchored_month ?fin (-1) anchor"
    "count_days (ba_day now) ?fin 0 = ?fin - ba_day now"
    using cycle fix0 le by (simp_all add: count_days_eq)
  have p: "po_days p = ?fin - anchored_month ?fin (-1) anchor" "po_remaining p = ?fin - ba_day now"
    "po_start p = ba_day now" "po_end p = ?fin"
    "po_amount p = (if trial = None \<or> \<not> now < the trial
       then proration_amount unit (?fin - ba_day now) (?fin - anchored_month ?fin (-1) anchor) else 0)"
    using assms a le u fix0 cs
    by (auto simp: anchored_proration_def Let_def days [unfolded if_distrib] split: if_splits simp: count_days_eq)
  show "28 \<le> po_days p" "po_days p \<le> 31" using p cycle fix0 by simp_all
  show "0 \<le> po_remaining p" "po_remaining p \<le> po_days p" using p le cs by simp_all
  show "po_end p - po_start p = po_remaining p" "po_start p = ba_day now" using p by simp_all
  show "0 \<le> unit" "unit \<le> max_int64 div 62" "1 \<le> anchor" "anchor \<le> 31" by (fact u a)+
  show "po_end p = anchored_month (po_end p) 0 anchor" using p fix0 by simp
  show "po_amount p = (if trial = None \<or> \<not> now < the trial
       then (unit * po_remaining p + po_days p div 2) div po_days p else 0)"
    using p proration_amount_eq [OF u, of "po_remaining p" "po_days p"] le cs cycle fix0 by simp
qed

text \<open>
  C17. The proration is exact and fair: on a subscription whose next charge falls on its anchor
  day and whose cycle contains today, the quote always exists; the cycle has 28 to 31 days, of
  which at least one and at most all remain; the amount is the integer nearest to
  \<open>unit * remaining / days\<close>, never more than the monthly price and free of overflow; during the
  trial it is zero.
\<close>

theorem proration_exact:
  assumes "1 \<le> anchor" "anchor \<le> 31" "0 \<le> unit" "unit \<le> max_int64 div 62"
    and "anchored_month (ba_day nc) 0 anchor = ba_day nc"
    and "anchored_month (ba_day nc) (-1) anchor \<le> ba_day now" "ba_day now \<le> ba_day nc"
  shows "\<exists>p. anchored_proration ba_day now nc unit trial anchor = Inr p
    \<and> 28 \<le> po_days p \<and> po_days p \<le> 31 \<and> 1 \<le> po_remaining p \<and> po_remaining p \<le> po_days p
    \<and> po_end p - ba_day now = po_remaining p
    \<and> (if trial \<noteq> None \<and> now < the trial then po_amount p = 0
       else 0 \<le> po_amount p \<and> po_amount p \<le> unit
         \<and> 2 * \<bar>po_amount p * po_days p - unit * po_remaining p\<bar> \<le> po_days p)"
proof -
  define fin where "fin = (if ba_day nc = ba_day now then anchored_month (ba_day nc) 1 anchor else ba_day nc)"
  have fix0: "anchored_month fin 0 anchor = fin"
    using anchored_month_add [OF assms(1), of "ba_day nc" 1 0] assms(5)
    by (cases "ba_day nc = ba_day now") (simp_all add: fin_def)
  note cycle = anchored_cycle [OF assms(1,2), of fin]
  have cs: "anchored_month fin (-1) anchor \<le> ba_day now" "ba_day now < fin"
    using anchored_month_add [OF assms(1), of "ba_day nc" 1 "-1"] assms(5-7) cycle fix0
    by (auto simp: fin_def split: if_splits)
  have d: "count_days (anchored_month fin (-1) anchor) fin 0 = fin - anchored_month fin (-1) anchor"
    "count_days (ba_day now) fin 0 = fin - ba_day now"
    using cs by (simp_all add: count_days_eq)
  obtain p where p: "anchored_proration ba_day now nc unit trial anchor = Inr p"
    using assms(1-4) cs fix0 cycle
    by (auto simp: anchored_proration_def Let_def d fin_def [symmetric])
  have e: "po_end p = fin" using p assms(1-4) cs fix0 cycle
    by (auto simp: anchored_proration_def Let_def d fin_def [symmetric] split: if_splits)
  note f = anchored_proration_Inr [OF p]
  have "1 \<le> po_remaining p" using f(5,6) e cs by simp
  with f proration_amount_nearest [of unit "po_remaining p" "po_days p"] p show ?thesis by auto
qed

theorem proration_exact_witness:
  "\<exists>p. anchored_proration (\<lambda>t. t) (civil 2026 2 10) (civil 2026 2 28) 3000 None 31 = Inr p
     \<and> po_remaining p = 18 \<and> po_days p = 28 \<and> po_amount p = 1929"
proof -
  have c: "civil 2026 2 10 = 740022" "civil 2026 2 28 = 740040" "civil 2026 2 1 = 740013" "civil 2026 1 1 = 739982"
    by (simp_all add: civil_def norm_year_def norm_month_def year_start_def month_start_def)
  have "date_of 740040 = (2026, 2, 28)"
    using date_of_civil [of 2 28 2026] by (simp add: c month_len_def)
  note anchored = anchored_month_eq [OF this]
  have a: "anchored_month 740040 0 31 = 740040" "anchored_month 740040 (-1) 31 = 740012"
    by (simp_all add: anchored c norm_year_def norm_month_def month_len_def leap_def)
  have e: "anchored_proration (\<lambda>t. t) 740022 740040 3000 None 31 =
      Inr \<lparr>po_remaining = 18, po_days = 28, po_amount = 1929, po_start = 740022, po_end = 740040\<rparr>"
    using proration_amount_eq [of 3000 18 28] by (simp add: anchored_proration_def Let_def count_days_eq a)
  obtain p where "anchored_proration (\<lambda>t. t) 740022 740040 3000 None 31 = Inr p"
    using proration_exact [of 31 3000 "\<lambda>t. t" 740040 740022 None] a by auto
  with e show ?thesis by (simp add: c)
qed

end
