(* ===== verification/BranchQuotes.thy ===== *)
theory BranchQuotes
  imports Proration
begin

text \<open>
  Quoting and confirming a branch (\<^verbatim>\<open>internal/repository/branch_proration.go\<close>). The columns that
  hold JSON documents hold the value here: encoding and decoding a document gives it back, and
  two snapshots have the same encoding when they are equal.
\<close>

section \<open>Operations\<close>

record operation_view =
  op_id :: string
  op_simulated :: bool
  op_status :: string
  op_quote :: branch_quote
  op_branch :: "sucursal option"
  op_checkout :: string
  op_error :: string

definition insert_quote :: "quote_row \<Rightarrow> ('a billing_db_scheme, unit) tx" where
  "insert_quote row = exec_ret (\<lambda>w. let d = working w in
     if list_ex (\<lambda>q. bq_id q = bq_id row) (branch_quotes d)
     then Inl (PgErr (Unique_violation ''branch_quotes_pkey''))
     else Inr ((), d\<lparr>branch_quotes := branch_quotes d @ [row\<lparr>bq_created := db_now w\<rparr>]\<rparr>))"

definition save_branch_quote ::
  "(int \<Rightarrow> int) \<Rightarrow> string \<Rightarrow> int \<Rightarrow> int \<Rightarrow> branch_draft \<Rightarrow> (branch_snapshot \<Rightarrow> err + branch_quote) \<Rightarrow>
   ('a billing_db_scheme, branch_quote) tx" where
  "save_branch_quote ba_day new_id actor brand draft quote = in_tx (
     seq (lock_branch_billing ba_day actor brand) (\<lambda>snapshot.
     seq (\<lambda>w. (quote snapshot, w)) (\<lambda>q.
     let q = q\<lparr>qt_id := new_id\<rparr> in
     seq (insert_quote \<lparr>bq_id = new_id, bq_marca = brand, bq_actor = actor, bq_quote = q, bq_draft = draft,
            bq_snapshot = snapshot, bq_expires = qt_expires q, bq_created = 0\<rparr>) (\<lambda>_.
     seq commit (\<lambda>_. ret q)))))"

definition read_branch_operation ::
  "('a billing_db_scheme world \<Rightarrow> 'a billing_db_scheme) \<Rightarrow> int \<Rightarrow> string \<Rightarrow> ('a billing_db_scheme, operation_view) tx" where
  "read_branch_operation view brand oid =
     seq (query (\<lambda>w. first_row [(o1, q). o1 \<leftarrow> branch_operations (view w), q \<leftarrow> branch_quotes (view w),
            bq_id q = bo_quote o1 \<and> bo_id o1 = oid \<and> bo_marca o1 = brand])) (\<lambda>row.
     seq (require row (Repo ErrNotFound)) (\<lambda>(o1, q).
     let out = \<lparr>op_id = bo_id o1, op_simulated = bo_simulation o1, op_status = bo_status o1,
                op_quote = bq_quote q, op_branch = None, op_checkout = coalesce (bo_checkout o1) '''',
                op_error = bo_error o1\<rparr> in
     case bo_branch o1 of
       None \<Rightarrow> ret out
     | Some b \<Rightarrow>
         seq (query (\<lambda>w. List.find (\<lambda>s. s_id s = b) (sucursales (view w)))) (\<lambda>brow.
         seq (require brow (GoError ''no rows in result set'')) (\<lambda>s.
         ret (out\<lparr>op_branch := Some s\<rparr>)))))"

text \<open>The unique keys of \<open>branch_operations\<close>, the partial index on active operations included.\<close>

definition operation_conflict :: "operation_row \<Rightarrow> operation_row \<Rightarrow> bool" where
  "operation_conflict a b \<longleftrightarrow> bo_id a = bo_id b \<or> bo_quote a = bo_quote b
     \<or> bo_marca a = bo_marca b \<and> bo_key a = bo_key b
     \<or> bo_marca a = bo_marca b \<and> active_operation a \<and> active_operation b"

text \<open>The columns that default to \<open>now()\<close>.\<close>

definition stamped :: "int \<Rightarrow> operation_row \<Rightarrow> operation_row" where
  "stamped t row = row\<lparr>bo_next_attempt := t, bo_created := t, bo_updated := t\<rparr>"

definition insert_operation :: "operation_row \<Rightarrow> ('a billing_db_scheme, unit) tx" where
  "insert_operation row = exec_ret (\<lambda>w. let d = working w in
     if list_ex (\<lambda>o1. operation_conflict o1 row) (branch_operations d)
     then Inl (PgErr (Unique_violation ''branch_operations''))
     else Inr ((), d\<lparr>branch_operations := branch_operations d @ [stamped (db_now w) row]\<rparr>))"

definition new_operation :: "string \<Rightarrow> int \<Rightarrow> int \<Rightarrow> string \<Rightarrow> string \<Rightarrow> bool \<Rightarrow> string \<Rightarrow> branch_quote \<Rightarrow> operation_row" where
  "new_operation oid actor brand quote_id key sim checkout_base q =
     \<lparr>bo_id = oid, bo_marca = brand, bo_actor = actor, bo_quote = quote_id, bo_key = key,
      bo_status = (if qt_payment_required q then ''PAYMENT_PENDING'' else ''PLAN_UPDATING''),
      bo_branch = None,
      bo_checkout = (if sim \<and> qt_payment_required q
         then Some (checkout_base @ ''?brand_id='' @ show_int brand @ ''&operation_id='' @ oid) else None),
      bo_checkout_id = None, bo_payment_id = None, bo_payment_status = ''pending'',
      bo_amount = qt_amount q, bo_refunded = 0, bo_plan_amount = None, bo_approved = None,
      bo_plan_started = False, bo_simulation = sim, bo_fault = '''', bo_attempts = 0, bo_error = '''',
      bo_next_attempt = 0, bo_created = 0, bo_updated = 0\<rparr>"

definition confirm_new_operation ::
  "(int \<Rightarrow> int) \<Rightarrow> string \<Rightarrow> int \<Rightarrow> int \<Rightarrow> string \<Rightarrow> string \<Rightarrow> bool \<Rightarrow> string \<Rightarrow> int \<Rightarrow>
   ('a billing_db_scheme, operation_view) tx" where
  "confirm_new_operation ba_day new_id actor brand quote_id key sim checkout_base now =
     seq (lock_branch_billing ba_day actor brand) (\<lambda>snapshot.
     seq (query (\<lambda>w. List.find (\<lambda>q. bq_id q = quote_id \<and> bq_marca q = brand \<and> bq_actor q = actor)
            (branch_quotes (working w)))) (\<lambda>row.
     seq (require row (Repo ErrNotFound)) (\<lambda>q.
     seq (reject_if (\<not> now < bq_expires q) (Repo ErrQuoteExpired)) (\<lambda>_.
     seq (reject_if (snapshot \<noteq> bq_snapshot q) (Repo ErrQuoteChanged)) (\<lambda>_.
     seq (catch (insert_operation
             (new_operation new_id actor brand quote_id key sim checkout_base (bq_quote q)))
            (\<lambda>e. if is_unique_violation e then throw (Repo ErrIdempotencyInProgress) else throw e)) (\<lambda>_.
     seq (read_branch_operation working brand new_id) (\<lambda>out.
     seq commit (\<lambda>_. ret out))))))))"

definition confirm_branch_quote ::
  "(int \<Rightarrow> int) \<Rightarrow> string \<Rightarrow> int \<Rightarrow> int \<Rightarrow> string \<Rightarrow> string \<Rightarrow> bool \<Rightarrow> string \<Rightarrow> int \<Rightarrow>
   ('a billing_db_scheme, operation_view) tx" where
  "confirm_branch_quote ba_day new_id actor brand quote_id key sim checkout_base now = in_tx (
     seq (query (\<lambda>_. ())) (\<lambda>_. \<comment> \<open>SELECT ... FOR UPDATE OF m\<close>
     seq (billing_context working actor brand) (\<lambda>_.
     seq (query (\<lambda>w. List.find (\<lambda>o1. bo_marca o1 = brand \<and> bo_key o1 = key)
            (branch_operations (working w)))) (\<lambda>existing.
     case existing of
       Some o1 \<Rightarrow>
         seq (reject_if (bo_quote o1 \<noteq> quote_id) (Repo ErrIdempotencyConflict)) (\<lambda>_.
         read_branch_operation working brand (bo_id o1))
     | None \<Rightarrow> confirm_new_operation ba_day new_id actor brand quote_id key sim checkout_base now))))"

definition branch_operation ::
  "int \<Rightarrow> int \<Rightarrow> string \<Rightarrow> ('a billing_db_scheme, operation_view) tx" where
  "branch_operation actor brand oid =
     seq (billing_context committed actor brand) (\<lambda>_.
     read_branch_operation committed brand oid)"

section \<open>Rules\<close>

lemma no_commit_read_operation [no_commit_rules]: "no_commit (read_branch_operation view brand oid)"
  unfolding read_branch_operation_def by (intro no_commit_rules)

lemma no_commit_insert_operation [no_commit_rules]: "no_commit (insert_operation row)"
  unfolding insert_operation_def by (intro no_commit_rules)

lemma atomic_save_branch_quote [atomic_rules]:
  "atomic (save_branch_quote ba_day new_id actor brand draft quote)"
  unfolding save_branch_quote_def Let_def insert_quote_def
  by (intro atomic_rules no_commit_rules) (simp add: no_commit_def)

lemma atomic_confirm_branch_quote [atomic_rules]:
  "atomic (confirm_branch_quote ba_day new_id actor brand quote_id key sim base now)"
  unfolding confirm_branch_quote_def confirm_new_operation_def
  by (intro atomic_rules no_commit_rules atomic_no_commit)

lemma read_operation_Inr:
  assumes "read_branch_operation view brand oid w = (Inr out, w1)"
  shows "quiet w w1" "sent w1 = sent w" "op_id out = oid"
  using assms unfolding read_branch_operation_def tx_run
  by (auto simp: tx_run quiet_def Let_def split: option.splits dest!: first_row_SomeD)

lemma insert_operation_Inr:
  "insert_operation row w = (Inr u, w1) \<longleftrightarrow> ok_next w
     \<and> \<not> (\<exists>o1 \<in> set (branch_operations (working w)). operation_conflict o1 row)
     \<and> w1 = (ticked w)\<lparr>working := (working w)\<lparr>branch_operations :=
          branch_operations (working w) @ [stamped (db_now w) row]\<rparr>\<rparr>"
  by (auto simp: insert_operation_def tx_run Let_def list_ex_iff split: if_splits)

end
