(* ===== verification/BranchReconcile.thy ===== *)
theory BranchReconcile
  imports BranchQuotes
begin

text \<open>
  The reconciliation of a branch purchase (\<^verbatim>\<open>internal/repository/branch_reconcile.go\<close>): one
  transaction that reads the provider back and moves the operation through payment, plan
  change and activation or refund. The provider is a record of answers, one for each place of
  the code that asks; \<open>sent\<close> logs the requests. A segment of the function that saved and
  returned gives \<open>None\<close>, one that falls through gives the local variables.
\<close>

section \<open>The provider and the local variables\<close>

record checkout_request =
  cr_reference :: string
  cr_email :: string
  cr_back_url :: string
  cr_key :: string
  cr_amount :: int
  cr_expires :: int

record branch_answers =
  an_duplicates :: "provider_failure + unit"
  an_find :: "provider_failure + billing_payment option"
  an_checkout :: "checkout_request \<Rightarrow> provider_failure + string \<times> string"
  an_current :: "provider_failure + provider_subscription"
  an_update :: "provider_failure + unit"
  an_verified :: "provider_failure + provider_subscription"
  an_restore_current :: "provider_failure + provider_subscription"
  an_restore_update :: "provider_failure + unit"
  an_restore_check :: "provider_failure + provider_subscription"
  an_refund :: "provider_failure + unit"
  an_refund_find :: "provider_failure + billing_payment option"

record reconcile_env =
  en_id :: string
  en_brand :: int
  en_actor :: int
  en_sim :: bool
  en_fault :: string
  en_checkout :: string
  en_quote :: branch_quote
  en_draft :: branch_draft
  en_snapshot :: branch_snapshot
  en_expiry :: int
  en_created :: int
  en_eligible :: bool
  en_url :: string
  en_now :: int

record reconcile_vars =
  lv_status :: string
  lv_payment_status :: string
  lv_payment_id :: string
  lv_amount :: int
  lv_refunded :: int
  lv_plan_amount :: "int option"
  lv_approved :: "int option"
  lv_plan_started :: bool

definition reference :: "reconcile_env \<Rightarrow> string" where
  "reference en = ''puntazo:branch:'' @ en_id en"

section \<open>Saving\<close>

definition null_if_empty :: "string \<Rightarrow> string option" where
  "null_if_empty s = (if s = '''' then None else Some s)"

definition saved_row :: "reconcile_env \<Rightarrow> reconcile_vars \<Rightarrow> string \<Rightarrow> string \<Rightarrow> operation_row \<Rightarrow> operation_row" where
  "saved_row en v status code o1 =
     o1\<lparr>bo_status := status, bo_error := code, bo_approved := lv_approved v,
        bo_plan_started := lv_plan_started v, bo_payment_status := lv_payment_status v,
        bo_payment_id := null_if_empty (lv_payment_id v), bo_amount := lv_amount v,
        bo_refunded := lv_refunded v, bo_plan_amount := lv_plan_amount v,
        bo_attempts := bo_attempts o1 + 1, bo_next_attempt := en_now en + 3000000000,
        bo_updated := en_now en\<rparr>"

text \<open>The partial unique index: an operation may not become active beside another active one.\<close>

definition update_operation ::
  "string \<Rightarrow> (operation_row \<Rightarrow> operation_row) \<Rightarrow> ('a billing_db_scheme, unit) tx" where
  "update_operation oid f = exec_ret (\<lambda>w. let d = working w in
     if list_ex (\<lambda>o1. bo_id o1 = oid \<and> active_operation (f o1) \<and>
          list_ex (\<lambda>o2. bo_id o2 \<noteq> oid \<and> bo_marca o2 = bo_marca o1 \<and> active_operation o2) (branch_operations d))
          (branch_operations d)
     then Inl (PgErr (Unique_violation ''branch_operations_single_active_brand''))
     else Inr ((), d\<lparr>branch_operations := update_where (\<lambda>o1. bo_id o1 = oid) f (branch_operations d)\<rparr>))"

definition save ::
  "reconcile_env \<Rightarrow> reconcile_vars \<Rightarrow> string \<Rightarrow> string \<Rightarrow> ('a billing_db_scheme, reconcile_vars option) tx" where
  "save en v status code =
     seq (update_operation (en_id en) (saved_row en v status code)) (\<lambda>_.
     seq commit (\<lambda>_. ret None))"

section \<open>Payment\<close>

definition take_payment :: "billing_payment \<Rightarrow> reconcile_vars \<Rightarrow> reconcile_vars" where
  "take_payment p v =
     v\<lparr>lv_payment_id := py_id p, lv_payment_status := py_status p, lv_amount := py_amount p,
       lv_refunded := py_refunded p, lv_approved := py_approved p\<rparr>"

definition create_checkout ::
  "reconcile_env \<Rightarrow> branch_answers \<Rightarrow> reconcile_vars \<Rightarrow> ('a billing_db_scheme, reconcile_vars option) tx" where
  "create_checkout en a v =
     seq (query (\<lambda>w. map_option u_email (List.find (\<lambda>u. u_id u = en_actor en) (usuarios (working w))))) (\<lambda>erow.
     seq (require erow (GoError ''no rows in result set'')) (\<lambda>email.
     let req = \<lparr>cr_reference = reference en, cr_email = email,
                cr_back_url = rev (trim_left (\<lambda>c. c = CHR ''/'') (rev (en_url en))) @ ''/sucursal-pago?brand_id=''
                  @ show_int (en_brand en) @ ''&operation_id='' @ en_id en,
                cr_key = en_id en, cr_amount = qt_amount (en_quote en), cr_expires = en_expiry en\<rparr> in
     seq (call_out (''CreateBranchCheckout'', cr_key req, cr_amount req) (an_checkout a req)) (\<lambda>answer.
     case answer of
       Inl _ \<Rightarrow> save en v (lv_status v) ''CHECKOUT_RETRY''
     | Inr (cid, url) \<Rightarrow>
         seq (update_operation (en_id en) (\<lambda>o1. o1\<lparr>bo_checkout := Some url, bo_checkout_id := Some cid\<rparr>)) (\<lambda>_.
         save en v (lv_status v) ''''))))"

definition find_payment ::
  "reconcile_env \<Rightarrow> branch_answers \<Rightarrow> reconcile_vars \<Rightarrow> ('a billing_db_scheme, reconcile_vars option) tx" where
  "find_payment en a v =
     seq (call_out (''FindBranchPayment'', reference en, 0) (an_find a)) (\<lambda>answer.
     case answer of
       Inl _ \<Rightarrow> save en v (lv_status v) ''PAYMENT_VERIFICATION_RETRY''
     | Inr (Some p) \<Rightarrow>
         let v = take_payment p v in
         if py_reference p \<noteq> reference en \<or> py_currency p \<noteq> ''ARS'' \<or> lv_amount v \<noteq> qt_amount (en_quote en) then
           if lv_payment_status v = ''approved'' then ret (Some (v\<lparr>lv_status := ''REFUND_PENDING''\<rparr>))
           else save en v ''FAILED'' ''PAYMENT_MISMATCH''
         else ret (Some v)
     | Inr None \<Rightarrow>
         if en_checkout en = '''' \<and> en_now en < en_expiry en \<and> en_eligible en then create_checkout en a v
         else ret (Some v))"

definition approved_in_time :: "reconcile_env \<Rightarrow> reconcile_vars \<Rightarrow> bool" where
  "approved_in_time en v \<longleftrightarrow>
     (case lv_approved v of None \<Rightarrow> False | Some t \<Rightarrow> \<not> t < en_created en \<and> t < en_expiry en)"

definition judge_payment ::
  "reconcile_env \<Rightarrow> reconcile_vars \<Rightarrow> ('a billing_db_scheme, reconcile_vars option) tx" where
  "judge_payment en v =
     (if lv_payment_status v = ''rejected'' \<or> lv_payment_status v = ''cancelled'' then
        save en v ''PAYMENT_REJECTED'' ''PAYMENT_REJECTED''
      else if lv_payment_status v = ''refunded''
           \<or> qt_amount (en_quote en) \<le> lv_refunded v \<and> qt_payment_required (en_quote en) then
        save en v ''REFUNDED'' ''''
      else if lv_payment_status v \<noteq> ''approved'' then
        if \<not> en_now en < en_expiry en then save en v ''FAILED'' ''QUOTE_EXPIRED''
        else save en v (lv_status v) ''''
      else if \<not> approved_in_time en v \<or> 0 < lv_refunded v \<or> \<not> en_eligible en
           \<or> lv_status v = ''REFUND_PENDING'' then ret (Some (v\<lparr>lv_status := ''REFUND_PENDING''\<rparr>))
      else ret (Some (v\<lparr>lv_status := ''PLAN_UPDATING''\<rparr>)))"

definition and_then ::
  "('d, 'v option) tx \<Rightarrow> ('v \<Rightarrow> ('d, 'v option) tx) \<Rightarrow> ('d, 'v option) tx" where
  "and_then m f = seq m (\<lambda>r. case r of None \<Rightarrow> ret None | Some v \<Rightarrow> f v)"

definition payment_segment ::
  "reconcile_env \<Rightarrow> branch_answers option \<Rightarrow> reconcile_vars \<Rightarrow> ('a billing_db_scheme, reconcile_vars option) tx" where
  "payment_segment en provider v =
     (if lv_status v = ''PAYMENT_PENDING'' \<or> lv_status v = ''FAILED'' then
        and_then (case provider of None \<Rightarrow> ret (Some v) | Some a \<Rightarrow> find_payment en a v) (judge_payment en)
      else ret (Some v))"

section \<open>Plan and activation\<close>

definition branch_row :: "int \<Rightarrow> int \<Rightarrow> branch_draft \<Rightarrow> sucursal" where
  "branch_row i brand dr =
     \<lparr>s_id = i, s_marca = brand, s_nombre = dr_nombre dr, s_activo = True, s_deleted_at = None,
      s_direccion = dr_direccion dr, s_localidad = dr_localidad dr, s_provincia = dr_provincia dr,
      s_codigo_postal = dr_codigo_postal dr, s_latitud = dr_latitud dr, s_longitud = dr_longitud dr,
      s_principal = False, s_version = 1\<rparr>"

definition insert_sucursal :: "int \<Rightarrow> branch_draft \<Rightarrow> ('a core_db_scheme, int) tx" where
  "insert_sucursal brand dr = exec_ret (\<lambda>w. let d = working w; i = next_id (map s_id (sucursales d)) in
     Inr (i, d\<lparr>sucursales := sucursales d @ [branch_row i brand dr]\<rparr>))"

definition quantity_from :: "int \<Rightarrow> 'a billing_db_scheme \<Rightarrow> int" where
  "quantity_from brand d =
     (let price = (case find_suscripcion brand d of None \<Rightarrow> 0 | Some s \<Rightarrow> coalesce (sb_price_from s) (sb_created s)) in
      fold max [qh_until h. h \<leftarrow> quantity_histories d, qh_marca h = brand] price)"

definition insert_quantity_history :: "reconcile_env \<Rightarrow> ('a billing_db_scheme, unit) tx" where
  "insert_quantity_history en = exec (\<lambda>w. let d = working w; s = en_snapshot en in
     if list_ex (\<lambda>h. qh_operation h = en_id en) (quantity_histories d) then d
     else d\<lparr>quantity_histories := quantity_histories d @
       [\<lparr>qh_marca = en_brand en, qh_operation = en_id en, qh_unit = bs_unit s, qh_full = bs_full_unit s,
         qh_branches = bs_count s, qh_from = quantity_from (en_brand en) d, qh_until = en_now en\<rparr>]\<rparr>)"

definition raise_subscription :: "reconcile_env \<Rightarrow> suscripcion \<Rightarrow> suscripcion" where
  "raise_subscription en s =
     s\<lparr>sb_cantidad := sb_cantidad s + 1, sb_importe := qt_new_monthly (en_quote en), sb_updated := en_now en\<rparr>"

definition activate ::
  "reconcile_env \<Rightarrow> reconcile_vars \<Rightarrow> ('a billing_db_scheme, reconcile_vars option) tx" where
  "activate en v =
     seq (insert_quantity_history en) (\<lambda>_.
     seq (insert_sucursal (en_brand en) (en_draft en)) (\<lambda>branch.
     seq (exec (\<lambda>w. let d = working w in d\<lparr>suscripciones :=
       update_where (\<lambda>s. sb_marca s = en_brand en) (raise_subscription en) (suscripciones d)\<rparr>)) (\<lambda>_.
     seq (update_operation (en_id en) (\<lambda>o1. o1\<lparr>bo_branch := Some branch\<rparr>)) (\<lambda>_.
     save en v ''COMPLETED'' ''''))))"

definition simulated_plan ::
  "reconcile_env \<Rightarrow> reconcile_vars \<Rightarrow> ('a billing_db_scheme, reconcile_vars option) tx" where
  "simulated_plan en v =
     (if en_fault en = ''update_fail'' then save en v (lv_status v) ''PLAN_UPDATE_RETRY''
      else if en_fault en = ''permanent_fail'' \<or> en_fault en = ''refund_fail''
        then ret (Some (v\<lparr>lv_status := ''REFUND_PENDING''\<rparr>))
      else ret (Some (v\<lparr>lv_plan_amount := Some (qt_new_monthly (en_quote en))\<rparr>)))"

definition plan_confirmed :: "reconcile_env \<Rightarrow> provider_subscription \<Rightarrow> bool" where
  "plan_confirmed en s \<longleftrightarrow> ps_amount s = qt_new_monthly (en_quote en)
     \<and> ps_next s = Some (bs_next (en_snapshot en)) \<and> ps_status s = ''authorized''"

definition same_plan :: "reconcile_env \<Rightarrow> provider_subscription \<Rightarrow> bool" where
  "same_plan en s \<longleftrightarrow> ps_id s = bs_provider_id (en_snapshot en)
     \<and> ps_reference s = bs_reference (en_snapshot en) \<and> ps_status s = ''authorized''
     \<and> ps_next s = Some (bs_next (en_snapshot en))"

definition change_plan ::
  "reconcile_env \<Rightarrow> branch_answers \<Rightarrow> reconcile_vars \<Rightarrow> ('a billing_db_scheme, reconcile_vars option) tx" where
  "change_plan en a v =
     seq (call_out (''UpdateSubscriptionAmount'', en_id en @ '':plan'', qt_new_monthly (en_quote en)) (an_update a)) (\<lambda>answer.
     case answer of
       Inl Rejected \<Rightarrow> ret (Some (v\<lparr>lv_status := ''REFUND_PENDING''\<rparr>))
     | Inl Uncertain \<Rightarrow> save en v (lv_status v) ''PLAN_UPDATE_RETRY''
     | Inr _ \<Rightarrow>
         seq (call_out (''GetSubscription'', bs_provider_id (en_snapshot en), 0) (an_verified a)) (\<lambda>verified.
         case verified of
           Inl _ \<Rightarrow> save en v (lv_status v) ''PLAN_UPDATE_RETRY''
         | Inr s \<Rightarrow>
             if \<not> plan_confirmed en s then save en v (lv_status v) ''PLAN_UPDATE_RETRY''
             else ret (Some (v\<lparr>lv_plan_amount := Some (ps_amount s)\<rparr>))))"

definition provider_plan ::
  "reconcile_env \<Rightarrow> branch_answers \<Rightarrow> reconcile_vars \<Rightarrow> ('a billing_db_scheme, reconcile_vars option) tx" where
  "provider_plan en a v =
     seq (call_out (''GetSubscription'', bs_provider_id (en_snapshot en), 0) (an_current a)) (\<lambda>answer.
     case answer of
       Inl _ \<Rightarrow> save en v (lv_status v) ''PLAN_UPDATE_RETRY''
     | Inr s \<Rightarrow>
         if \<not> same_plan en s then ret (Some (v\<lparr>lv_status := ''REFUND_PENDING''\<rparr>))
         else if lv_plan_started v \<and> ps_amount s = qt_new_monthly (en_quote en) then
           ret (Some (v\<lparr>lv_plan_amount := Some (ps_amount s)\<rparr>))
         else if ps_amount s \<noteq> bs_monthly (en_snapshot en) then ret (Some (v\<lparr>lv_status := ''REFUND_PENDING''\<rparr>))
         else change_plan en a v)"

definition plan_segment ::
  "reconcile_env \<Rightarrow> branch_answers option \<Rightarrow> reconcile_vars \<Rightarrow> ('a billing_db_scheme, reconcile_vars option) tx" where
  "plan_segment en provider v =
     (if lv_status v \<noteq> ''PLAN_UPDATING'' then ret (Some v)
      else if \<not> en_eligible en then ret (Some (v\<lparr>lv_status := ''REFUND_PENDING''\<rparr>))
      else if provider \<noteq> None \<and> \<not> lv_plan_started v then save en (v\<lparr>lv_plan_started := True\<rparr>) (lv_status v) ''''
      else
        and_then (case provider of None \<Rightarrow> simulated_plan en v | Some a \<Rightarrow> provider_plan en a v) (\<lambda>v.
        if lv_status v = ''PLAN_UPDATING'' \<and> lv_plan_amount v = Some (qt_new_monthly (en_quote en))
        then activate en v else ret (Some v)))"
section \<open>Refund\<close>

text \<open>
  The comparison of the subscription row with the snapshot, in SQL's three-valued logic: false if
  a conjunct is false, else NULL (which does not scan into a \<open>bool\<close>) if one is NULL.
\<close>

fun sql_and :: "bool option list \<Rightarrow> bool option" where
  "sql_and [] = Some True"
| "sql_and (x # xs) =
     (if x = Some False \<or> sql_and xs = Some False then Some False
      else if x = None \<or> sql_and xs = None then None else Some True)"

definition same_provider :: "branch_snapshot \<Rightarrow> suscripcion \<Rightarrow> bool option" where
  "same_provider sn s = sql_and
     [map_option (\<lambda>x. x = bs_provider_id sn) (sb_proveedor_id s), Some (sb_referencia s = bs_reference sn),
      Some (sb_precio s = bs_unit sn), Some (sb_importe s = bs_monthly sn), Some (sb_cantidad s = bs_count sn),
      map_option (\<lambda>x. x = bs_next sn) (sb_proximo s), Some (sb_estado s = ''AUTHORIZED'')]"

definition simulated_refund ::
  "reconcile_env \<Rightarrow> reconcile_vars \<Rightarrow> ('a billing_db_scheme, reconcile_vars option) tx" where
  "simulated_refund en v =
     (if \<not> qt_payment_required (en_quote en) then save en v ''FAILED'' ''PLAN_UPDATE_FAILED''
      else if en_fault en = ''refund_fail'' then save en v (lv_status v) ''REFUND_RETRY''
      else save en (v\<lparr>lv_refunded := lv_amount v, lv_payment_status := ''refunded''\<rparr>) ''REFUNDED'' '''')"

definition restored :: "reconcile_env \<Rightarrow> provider_subscription \<Rightarrow> bool" where
  "restored en s \<longleftrightarrow> same_plan en s \<and> ps_amount s = bs_monthly (en_snapshot en)"

text \<open>The money goes back only here, once the recurring amount is the old one.\<close>

definition refund_payment ::
  "reconcile_env \<Rightarrow> branch_answers \<Rightarrow> reconcile_vars \<Rightarrow> ('a billing_db_scheme, reconcile_vars option) tx" where
  "refund_payment en a v =
     (if \<not> qt_payment_required (en_quote en) then save en v ''FAILED'' ''PLAN_UPDATE_FAILED''
      else if lv_payment_id v = '''' then save en v (lv_status v) ''PAYMENT_VERIFICATION_RETRY''
      else if lv_amount v \<le> lv_refunded v \<and> 0 < lv_amount v then save en v ''REFUNDED'' ''''
      else
        seq (call_out (''RefundBranchPayment'', lv_payment_id v, 0) (an_refund a)) (\<lambda>answer.
        case answer of
          Inl _ \<Rightarrow> save en v (lv_status v) ''REFUND_RETRY''
        | Inr _ \<Rightarrow>
            seq (call_out (''FindBranchPayment'', reference en, 0) (an_refund_find a)) (\<lambda>found.
            case found of
              Inl _ \<Rightarrow> save en v (lv_status v) ''REFUND_RETRY''
            | Inr None \<Rightarrow> save en v (lv_status v) ''REFUND_RETRY''
            | Inr (Some p) \<Rightarrow>
                if py_refunded p < lv_amount v then save en v (lv_status v) ''REFUND_RETRY''
                else save en (v\<lparr>lv_refunded := py_refunded p, lv_payment_status := py_status p\<rparr>) ''REFUNDED'' '''')))"

definition restore_plan ::
  "reconcile_env \<Rightarrow> branch_answers \<Rightarrow> reconcile_vars \<Rightarrow> provider_subscription \<Rightarrow> ('a billing_db_scheme, reconcile_vars option) tx" where
  "restore_plan en a v s =
     (if lv_plan_started v \<and> ps_amount s = qt_new_monthly (en_quote en) then
        seq (call_out (''UpdateSubscriptionAmount'', en_id en @ '':restore'', bs_monthly (en_snapshot en)) (an_restore_update a)) (\<lambda>answer.
        case answer of
          Inl _ \<Rightarrow> save en v (lv_status v) ''PLAN_RESTORE_RETRY''
        | Inr _ \<Rightarrow>
            seq (call_out (''GetSubscription'', bs_provider_id (en_snapshot en), 0) (an_restore_check a)) (\<lambda>check.
            case check of
              Inl _ \<Rightarrow> save en v (lv_status v) ''PLAN_RESTORE_RETRY''
            | Inr c \<Rightarrow> if \<not> restored en c then save en v (lv_status v) ''PLAN_RESTORE_RETRY'' else ret (Some v)))
      else ret (Some v))"

definition plan_unknown :: "reconcile_env \<Rightarrow> reconcile_vars \<Rightarrow> provider_subscription \<Rightarrow> bool" where
  "plan_unknown en v s \<longleftrightarrow> lv_plan_started v \<and> ps_amount s \<noteq> bs_monthly (en_snapshot en)
     \<and> ps_amount s \<noteq> qt_new_monthly (en_quote en)"

definition provider_refund ::
  "reconcile_env \<Rightarrow> branch_answers \<Rightarrow> reconcile_vars \<Rightarrow> ('a billing_db_scheme, reconcile_vars option) tx" where
  "provider_refund en a v =
     seq (call_out (''GetSubscription'', bs_provider_id (en_snapshot en), 0) (an_restore_current a)) (\<lambda>answer.
     case answer of
       Inl _ \<Rightarrow> save en v (lv_status v) ''PLAN_RESTORE_RETRY''
     | Inr s \<Rightarrow>
         if ps_id s \<noteq> bs_provider_id (en_snapshot en) \<or> ps_reference s \<noteq> bs_reference (en_snapshot en)
            \<or> lv_plan_started v \<and> (ps_status s \<noteq> ''authorized'' \<or> ps_next s \<noteq> Some (bs_next (en_snapshot en)))
         then save en v (lv_status v) ''PLAN_RESTORE_REVIEW_REQUIRED''
         else
           seq (query (\<lambda>w. map_option (same_provider (en_snapshot en)) (find_suscripcion (en_brand en) (working w)))) (\<lambda>row.
           seq (require row (GoError ''no rows in result set'')) (\<lambda>val.
           seq (require val (GoError ''cannot scan NULL into *bool'')) (\<lambda>same.
           if \<not> same \<and> lv_plan_started v then save en v (lv_status v) ''PLAN_RESTORE_REVIEW_REQUIRED''
           else
             and_then (restore_plan en a v s) (\<lambda>v.
             if plan_unknown en v s then save en v (lv_status v) ''PLAN_RESTORE_REVIEW_REQUIRED''
             else refund_payment en a v)))))"

definition refund_segment ::
  "reconcile_env \<Rightarrow> branch_answers option \<Rightarrow> reconcile_vars \<Rightarrow> ('a billing_db_scheme, reconcile_vars option) tx" where
  "refund_segment en provider v =
     (if lv_status v = ''REFUND_PENDING''
      then (case provider of None \<Rightarrow> simulated_refund en v | Some a \<Rightarrow> provider_refund en a v)
      else throw (GoError (''unexpected branch billing state '' @ lv_status v)))"

section \<open>ReconcileBranch\<close>

definition operation_with_quote :: "string \<Rightarrow> 'a billing_db_scheme \<Rightarrow> (operation_row \<times> quote_row) option" where
  "operation_with_quote oid d = first_row
     [(o1, q). o1 \<leftarrow> branch_operations d, q \<leftarrow> branch_quotes d, bq_id q = bo_quote o1 \<and> bo_id o1 = oid]"

definition env_of :: "operation_row \<Rightarrow> quote_row \<Rightarrow> bool \<Rightarrow> string \<Rightarrow> int \<Rightarrow> reconcile_env" where
  "env_of o1 q eligible url now =
     \<lparr>en_id = bo_id o1, en_brand = bo_marca o1, en_actor = bo_actor o1, en_sim = bo_simulation o1,
      en_fault = bo_fault o1, en_checkout = coalesce (bo_checkout o1) '''', en_quote = bq_quote q,
      en_draft = bq_draft q, en_snapshot = bq_snapshot q, en_expiry = bq_expires q,
      en_created = bq_created q, en_eligible = eligible, en_url = url, en_now = now\<rparr>"

definition vars_of :: "operation_row \<Rightarrow> reconcile_vars" where
  "vars_of o1 =
     \<lparr>lv_status = bo_status o1, lv_payment_status = bo_payment_status o1,
      lv_payment_id = coalesce (bo_payment_id o1) '''', lv_amount = bo_amount o1, lv_refunded = bo_refunded o1,
      lv_plan_amount = bo_plan_amount o1, lv_approved = bo_approved o1, lv_plan_started = bo_plan_started o1\<rparr>"

definition refund_duplicates ::
  "operation_row \<Rightarrow> branch_answers \<Rightarrow> int \<Rightarrow> ('a billing_db_scheme, unit) tx" where
  "refund_duplicates o1 a now =
     seq (call_out (''ReconcileBranchDuplicatePayments'', coalesce (bo_payment_id o1) '''', 0) (an_duplicates a)) (\<lambda>answer.
     let (code, again) = (case answer of Inl _ \<Rightarrow> (''DUPLICATE_REFUND_RETRY'', now + 3000000000)
                                       | Inr _ \<Rightarrow> ('''', now + 3600000000000)) in
     seq (update_operation (bo_id o1) (\<lambda>x. x\<lparr>bo_error := code, bo_next_attempt := again\<rparr>)) (\<lambda>_.
     commit))"

definition reconcile_segments ::
  "reconcile_env \<Rightarrow> branch_answers option \<Rightarrow> reconcile_vars \<Rightarrow> ('a billing_db_scheme, reconcile_vars option) tx" where
  "reconcile_segments en provider v =
     and_then (payment_segment en provider v) (\<lambda>v.
     and_then (plan_segment en provider v) (refund_segment en provider))"

definition reconcilable :: "operation_row \<Rightarrow> bool" where
  "reconcilable o1 \<longleftrightarrow> active_operation o1 \<or> bo_status o1 = ''FAILED'' \<and> \<not> bo_simulation o1"

definition reconcile_open ::
  "(int \<Rightarrow> int) \<Rightarrow> operation_row \<Rightarrow> quote_row \<Rightarrow> branch_answers option \<Rightarrow> string \<Rightarrow> int \<Rightarrow> ('a billing_db_scheme, unit) tx" where
  "reconcile_open ba_day o1 q provider url now =
     seq (outcome_of (lock_branch_billing ba_day (bo_actor o1) (bo_marca o1))) (\<lambda>valid.
     seq (case valid of
            Inl e \<Rightarrow> reject_if (e \<notin> {Repo ErrForbidden, Repo ErrQuoteChanged, Repo ErrSubscriptionChangeRequired}) e
          | Inr _ \<Rightarrow> ret ()) (\<lambda>_.
     seq (reject_if (bo_simulation o1 \<and> provider \<noteq> None \<or> \<not> bo_simulation o1 \<and> provider = None)
            (Repo ErrInvalidRequest)) (\<lambda>_.
     seq (reconcile_segments (env_of o1 q (valid = Inr (bq_snapshot q)) url now) provider (vars_of o1)) (\<lambda>_.
     ret ()))))"

definition reconcile_branch ::
  "(int \<Rightarrow> int) \<Rightarrow> string \<Rightarrow> branch_answers option \<Rightarrow> string \<Rightarrow> int \<Rightarrow> ('a billing_db_scheme, unit) tx" where
  "reconcile_branch ba_day oid provider url now = in_tx (
     seq (query (\<lambda>w. List.find (\<lambda>o1. bo_id o1 = oid) (branch_operations (working w)))) (\<lambda>first.
     seq (require first (Repo ErrNotFound)) (\<lambda>_.
     seq (query (\<lambda>_. ())) (\<lambda>_. \<comment> \<open>SELECT id FROM marcas ... FOR UPDATE\<close>
     seq (query (\<lambda>_. ())) (\<lambda>_. \<comment> \<open>SELECT marca_id FROM suscripciones_marca ... FOR UPDATE\<close>
     seq (query (\<lambda>w. operation_with_quote oid (working w))) (\<lambda>row.
     seq (require row (GoError ''no rows in result set'')) (\<lambda>(o1, q).
     if bo_status o1 = ''COMPLETED'' \<and> \<not> bo_simulation o1 \<and> coalesce (bo_payment_id o1) '''' \<noteq> '''' then
       (case provider of
          None \<Rightarrow> throw (Repo ErrInvalidRequest)
        | Some a \<Rightarrow> refund_duplicates o1 a now)
     else if \<not> reconcilable o1 then ret ()
     else reconcile_open ba_day o1 q provider url now)))))))"

definition simulation_effect :: "string \<Rightarrow> (string \<times> string) option" where
  "simulation_effect action =
     (if action = ''approve'' then Some (''approved'', '''')
      else if action = ''reject'' then Some (''rejected'', '''')
      else if action = ''pending'' then Some (''pending'', '''')
      else if action = ''update_fail'' then Some (''approved'', ''update_fail'')
      else if action = ''permanent_fail'' then Some (''approved'', ''permanent_fail'')
      else if action = ''refund_fail'' then Some (''approved'', ''refund_fail'')
      else if action = ''recover'' then Some ('''', '''')
      else None)"

definition simulated_row :: "string \<Rightarrow> string \<Rightarrow> int \<Rightarrow> int \<Rightarrow> operation_row \<Rightarrow> operation_row" where
  "simulated_row payment fault now t o1 =
     o1\<lparr>bo_payment_status := (if payment \<noteq> '''' then payment else bo_payment_status o1),
        bo_payment_id := (if payment = ''approved'' then Some (''sim:'' @ bo_id o1) else bo_payment_id o1),
        bo_fault := fault,
        bo_approved := (if payment = ''approved'' then Some (coalesce (bo_approved o1) now) else bo_approved o1),
        bo_next_attempt := t, bo_updated := t\<rparr>"

definition simulate_branch :: "int \<Rightarrow> string \<Rightarrow> string \<Rightarrow> int \<Rightarrow> ('a billing_db_scheme, unit) tx" where
  "simulate_branch brand oid action now =
     seq (require (simulation_effect action) (Repo ErrInvalidRequest)) (\<lambda>(payment, fault).
     seq (pool_exec (\<lambda>w. let d = working w;
            p = (\<lambda>o1. bo_id o1 = oid \<and> bo_marca o1 = brand \<and> bo_simulation o1 \<and> active_operation o1) in
          Inr (rows_affected p (branch_operations d),
            d\<lparr>branch_operations := update_where p (simulated_row payment fault now (db_now w)) (branch_operations d)\<rparr>))) (\<lambda>n.
     reject_if (n \<noteq> 1) (Repo ErrConflict)))"

definition pending_operation :: "int \<Rightarrow> operation_row \<Rightarrow> bool" where
  "pending_operation t o1 \<longleftrightarrow>
     (active_operation o1 \<or> bo_status o1 = ''FAILED'' \<and> bo_error o1 = ''QUOTE_EXPIRED'' \<and> \<not> bo_simulation o1
      \<or> bo_status o1 = ''COMPLETED'' \<and> \<not> bo_simulation o1 \<and> bo_payment_id o1 \<noteq> None
        \<and> t - 2592000000000000 < bo_created o1)
     \<and> bo_next_attempt o1 \<le> t"

definition pending_branch_operations :: "('a billing_db_scheme, string list) tx" where
  "pending_branch_operations = query (\<lambda>w. map bo_id (take 50
     (sort_key bo_next_attempt (filter (pending_operation (db_now w)) (branch_operations (committed w))))))"

end
