(* ===== verification/BranchSegments.thy ===== *)
theory BranchSegments
  imports BranchReconcile
begin

text \<open>
  What each segment of the reconciliation can do: the saves it ends in, the values of the
  variables it passes on, and the requests it sends. The lemmas hold for all answers of the
  provider and all failures of the database.
\<close>

section \<open>Saves\<close>

definition op_update :: "string \<Rightarrow> (operation_row \<Rightarrow> operation_row) \<Rightarrow> 'a billing_db_scheme \<Rightarrow> 'a billing_db_scheme" where
  "op_update oid f d = d\<lparr>branch_operations := update_where (\<lambda>o1. bo_id o1 = oid) f (branch_operations d)\<rparr>"

definition slot_free :: "string \<Rightarrow> (operation_row \<Rightarrow> operation_row) \<Rightarrow> 'a billing_db_scheme \<Rightarrow> bool" where
  "slot_free oid f d \<longleftrightarrow> (\<forall>o1 \<in> set (branch_operations d). \<forall>o2 \<in> set (branch_operations d).
     bo_id o1 = oid \<and> active_operation (f o1) \<and> bo_id o2 \<noteq> oid \<and> bo_marca o2 = bo_marca o1 \<longrightarrow>
     \<not> active_operation o2)"

lemma update_operation_Inr:
  "update_operation oid f w = (Inr u, w1) \<longleftrightarrow> ok_next w \<and> slot_free oid f (working w)
     \<and> w1 = (ticked w)\<lparr>working := op_update oid f (working w)\<rparr>"
  by (auto simp: update_operation_def tx_run Let_def list_ex_iff slot_free_def op_update_def split: if_splits)

definition saved :: "reconcile_env \<Rightarrow> reconcile_vars \<Rightarrow> string \<Rightarrow> 'a billing_db_scheme \<Rightarrow> 'a billing_db_scheme \<Rightarrow> bool" where
  "saved en v status d d1 \<longleftrightarrow> (\<exists>code. d1 = op_update (en_id en) (saved_row en v status code) d
     \<and> slot_free (en_id en) (saved_row en v status code) d)"

lemma save_Inr:
  assumes "save en v status code w = (Inr r, w1)"
  shows "r = None" "saved en v status (working w) (committed w1)" "sent w1 = sent w"
  using assms by (auto simp: save_def tx_run update_operation_Inr saved_def)

lemma no_commit_update_operation [no_commit_rules]: "no_commit (update_operation oid f)"
  unfolding update_operation_def by (rule no_commit_rules)

lemma atomic_save [atomic_rules]: "atomic (save en v status code)"
  unfolding save_def by (intro atomic_rules no_commit_rules)

section \<open>Payment\<close>

text \<open>
  \<open>paid\<close>: the full proration was approved while the quote was valid. \<open>vars_ok\<close> relates the
  variables to a status for an operation that costs money and is not simulated.
\<close>

definition paid :: "reconcile_env \<Rightarrow> reconcile_vars \<Rightarrow> bool" where
  "paid en v \<longleftrightarrow> lv_payment_status v = ''approved'' \<and> lv_amount v = qt_amount (en_quote en)
     \<and> lv_refunded v \<le> 0 \<and> approved_in_time en v"

definition vars_ok :: "reconcile_env \<Rightarrow> reconcile_vars \<Rightarrow> string \<Rightarrow> bool" where
  "vars_ok en v status \<longleftrightarrow>
     (qt_payment_required (en_quote en) \<and> \<not> en_sim en \<longrightarrow>
       (status = ''PLAN_UPDATING'' \<or> status = ''COMPLETED'' \<longrightarrow> paid en v) \<and>
       (status = ''PAYMENT_PENDING'' \<or> status = ''FAILED'' \<longrightarrow> lv_payment_status v \<noteq> ''approved'') \<and>
       (status = ''REFUNDED'' \<longrightarrow> lv_payment_status v = ''refunded'' \<or> qt_amount (en_quote en) \<le> lv_refunded v
          \<or> lv_amount v \<le> lv_refunded v))"

definition provider_fits :: "reconcile_env \<Rightarrow> branch_answers option \<Rightarrow> bool" where
  "provider_fits en provider \<longleftrightarrow> (provider = None \<longleftrightarrow> en_sim en)"

text \<open>A checkout link was stored before the row was saved, or not.\<close>

definition saved_checkout :: "reconcile_env \<Rightarrow> reconcile_vars \<Rightarrow> string \<Rightarrow> 'a billing_db_scheme \<Rightarrow> 'a billing_db_scheme \<Rightarrow> bool" where
  "saved_checkout en v status d d1 \<longleftrightarrow> saved en v status d d1 \<or>
     (\<exists>url cid. saved en v status (op_update (en_id en) (\<lambda>o1. o1\<lparr>bo_checkout := Some url, bo_checkout_id := Some cid\<rparr>) d) d1)"

definition settles :: "reconcile_env \<Rightarrow> string set \<Rightarrow> 'a billing_db_scheme \<Rightarrow> 'a billing_db_scheme \<Rightarrow> bool" where
  "settles en S d d1 \<longleftrightarrow> (\<exists>v s. saved_checkout en v s d d1 \<and> s \<in> S \<and> vars_ok en v s)"

lemma settlesI: "saved en v s d d1 \<Longrightarrow> s \<in> S \<Longrightarrow> vars_ok en v s \<Longrightarrow> settles en S d d1"
  by (auto simp: settles_def saved_checkout_def)

lemma settles_mono: "settles en S d d1 \<Longrightarrow> S \<subseteq> T \<Longrightarrow> settles en T d d1"
  by (auto simp: settles_def)

lemma save_settles:
  assumes "save en v s code w = (Inr r, w1)" and "s \<in> S" and "vars_ok en v s"
  shows "r = None \<and> settles en S (working w) (committed w1) \<and> sent w1 = sent w"
  using save_Inr [OF assms(1)] settlesI [OF _ assms(2,3)] by blast

lemma create_checkout_Inr:
  assumes "create_checkout en a v w = (Inr r, w1)" and "lv_status v \<in> S" and "vars_ok en v (lv_status v)"
  shows "r = None \<and> settles en S (working w) (committed w1)
    \<and> sent w1 = sent w @ [(''CreateBranchCheckout'', en_id en, qt_amount (en_quote en))]"
  using assms unfolding create_checkout_def tx_run Let_def settles_def saved_checkout_def
  by (fastforce simp: tx_run update_operation_Inr dest: save_Inr split: sum.splits)

definition waiting :: "string \<Rightarrow> bool" where
  "waiting s \<longleftrightarrow> s = ''PAYMENT_PENDING'' \<or> s = ''FAILED''"

lemma vars_ok_refund [simp]: "vars_ok en v ''REFUND_PENDING''"
  by (simp add: vars_ok_def)

lemma vars_ok_rejected [simp]: "vars_ok en v ''PAYMENT_REJECTED''"
  by (simp add: vars_ok_def)

text \<open>Without a simulated payment, an approval read here is for the quoted amount.\<close>

definition fresh_amount :: "reconcile_env \<Rightarrow> reconcile_vars \<Rightarrow> bool" where
  "fresh_amount en v \<longleftrightarrow> (qt_payment_required (en_quote en) \<and> \<not> en_sim en \<and> lv_payment_status v = ''approved'' \<longrightarrow>
     lv_amount v = qt_amount (en_quote en))"

lemma find_payment_Inr:
  assumes "find_payment en a v w = (Inr r, w1)" and "waiting (lv_status v)" and "vars_ok en v (lv_status v)"
  shows "(r = None \<and> settles en {lv_status v, ''FAILED''} (working w) (committed w1)) \<or>
    (\<exists>v1. r = Some v1 \<and> working w1 = working w \<and> (lv_status v1 = ''REFUND_PENDING'' \<or>
       lv_status v1 = lv_status v \<and> fresh_amount en v1))"
proof -
  define w2 where "w2 = w\<lparr>sent := sent w @ [(''FindBranchPayment'', reference en, 0)]\<rparr>"
  have same: "working w2 = working w" by (simp add: w2_def)
  note run = assms(1) [unfolded find_payment_def seq_Inr call_out_Inr]
  note [simp] = w2_def [symmetric]
  show ?thesis
  proof (cases "an_find a")
    case (Inl e)
    with run have "save en v (lv_status v) ''PAYMENT_VERIFICATION_RETRY'' w2 = (Inr r, w1)" by auto
    from save_settles [OF this _ assms(3), of "{lv_status v, ''FAILED''}"] same show ?thesis by simp
  next
    case (Inr found)
    show ?thesis
    proof (cases found)
      case None
      show ?thesis
      proof (cases "en_checkout en = '''' \<and> en_now en < en_expiry en \<and> en_eligible en")
        case True
        with run Inr None have "create_checkout en a v w2 = (Inr r, w1)" by auto
        from create_checkout_Inr [OF this _ assms(3), of "{lv_status v, ''FAILED''}"] same show ?thesis by simp
      next
        case False
        with run Inr None have "ret (Some v) w2 = (Inr r, w1)" by auto
        with assms(2,3) same show ?thesis by (auto simp: ret_def vars_ok_def waiting_def fresh_amount_def)
      qed
    next
      case (Some p)
      let ?v = "take_payment p v"
      let ?bad = "py_reference p \<noteq> reference en \<or> py_currency p \<noteq> ''ARS'' \<or> lv_amount ?v \<noteq> qt_amount (en_quote en)"
      consider "?bad" "lv_payment_status ?v = ''approved''" | "?bad" "lv_payment_status ?v \<noteq> ''approved''" | "\<not> ?bad" by blast
      then show ?thesis
      proof cases
        case 1
        with run Inr Some same show ?thesis by (auto simp: ret_def Let_def)
      next
        case 2
        with run Inr Some have "save en ?v ''FAILED'' ''PAYMENT_MISMATCH'' w2 = (Inr r, w1)" by (auto simp: Let_def)
        from save_settles [OF this, of "{lv_status v, ''FAILED''}"] 2(2) same show ?thesis by (simp add: vars_ok_def)
      next
        case 3
        with run Inr Some same show ?thesis by (auto simp: ret_def Let_def fresh_amount_def take_payment_def)
      qed
    qed
  qed
qed

definition to_plan :: "reconcile_env \<Rightarrow> reconcile_vars \<Rightarrow> bool" where
  "to_plan en v \<longleftrightarrow> lv_status v = ''PLAN_UPDATING'' \<and> en_eligible en \<and> vars_ok en v ''PLAN_UPDATING''
     \<and> lv_payment_status v = ''approved'' \<and> approved_in_time en v \<and> lv_refunded v \<le> 0"

lemma judge_payment_Inr:
  assumes "judge_payment en v w = (Inr r, w1)" and "waiting (lv_status v) \<or> lv_status v = ''REFUND_PENDING''"
    and "lv_status v = ''REFUND_PENDING'' \<or> fresh_amount en v"
  shows "(r = None \<and> settles en {lv_status v, ''PAYMENT_REJECTED'', ''REFUNDED'', ''FAILED''} (working w) (committed w1)) \<or>
    (\<exists>v1. r = Some v1 \<and> working w1 = working w \<and> (lv_status v1 = ''REFUND_PENDING'' \<or> to_plan en v1))"
proof -
  let ?S = "{lv_status v, ''PAYMENT_REJECTED'', ''REFUNDED'', ''FAILED''}"
  let ?rej = "lv_payment_status v = ''rejected'' \<or> lv_payment_status v = ''cancelled''"
  let ?refunded = "lv_payment_status v = ''refunded'' \<or> qt_amount (en_quote en) \<le> lv_refunded v \<and> qt_payment_required (en_quote en)"
  consider "?rej" | "\<not> ?rej" "?refunded" | "\<not> ?rej" "\<not> ?refunded" "lv_payment_status v \<noteq> ''approved''"
    | "\<not> ?rej" "\<not> ?refunded" "lv_payment_status v = ''approved''" by blast
  then show ?thesis
  proof cases
    case 1
    with assms(1) have "save en v ''PAYMENT_REJECTED'' ''PAYMENT_REJECTED'' w = (Inr r, w1)" by (simp add: judge_payment_def)
    from save_settles [OF this, of ?S] show ?thesis by simp
  next
    case 2
    with assms(1) have "save en v ''REFUNDED'' '''' w = (Inr r, w1)" by (simp add: judge_payment_def)
    from save_settles [OF this, of ?S] 2 show ?thesis by (auto simp: vars_ok_def)
  next
    case 3
    then obtain s code where "save en v s code w = (Inr r, w1)" "s = ''FAILED'' \<or> s = lv_status v"
      using assms(1) by (auto simp: judge_payment_def split: if_splits)
    from save_settles [OF this(1), of ?S] this(2) 3(3) assms(2) show ?thesis
      by (auto simp: vars_ok_def waiting_def)
  next
    case 4
    with assms show ?thesis
      by (auto simp: judge_payment_def ret_def to_plan_def vars_ok_def paid_def fresh_amount_def approved_in_time_def
          split: if_splits)
  qed
qed

lemma payment_segment_Inr:
  assumes "payment_segment en provider v w = (Inr r, w1)" and "provider_fits en provider"
    and "vars_ok en v (lv_status v)"
  shows "(r = None \<and> waiting (lv_status v) \<and>
      settles en {lv_status v, ''REFUND_PENDING'', ''PAYMENT_REJECTED'', ''REFUNDED'', ''FAILED''}
        (working w) (committed w1)) \<or>
    (\<exists>v1. r = Some v1 \<and> working w1 = working w \<and>
      (v1 = v \<and> \<not> waiting (lv_status v) \<or>
       waiting (lv_status v) \<and> (lv_status v1 = ''REFUND_PENDING'' \<or> to_plan en v1)))"
proof (cases "waiting (lv_status v)")
  case False
  with assms(1) show ?thesis by (auto simp: payment_segment_def waiting_def ret_def)
next
  case True
  let ?S = "{lv_status v, ''REFUND_PENDING'', ''PAYMENT_REJECTED'', ''REFUNDED'', ''FAILED''}"
  from True assms(1) obtain r2 w2
    where m: "(case provider of None \<Rightarrow> ret (Some v) | Some a \<Rightarrow> find_payment en a v) w = (Inr r2, w2)"
    and f: "(case r2 of None \<Rightarrow> ret None | Some v \<Rightarrow> judge_payment en v) w2 = (Inr r, w1)"
    by (auto simp: payment_segment_def waiting_def and_then_def seq_Inr)
  have r2: "(r2 = None \<and> settles en {lv_status v, ''FAILED''} (working w) (committed w2)) \<or>
    (\<exists>v1. r2 = Some v1 \<and> working w2 = working w \<and> (lv_status v1 = ''REFUND_PENDING'' \<or>
       lv_status v1 = lv_status v \<and> fresh_amount en v1))"
  proof (cases provider)
    case None
    with m assms(2) show ?thesis by (auto simp: ret_def fresh_amount_def provider_fits_def)
  next
    case (Some a)
    with m find_payment_Inr [OF _ True assms(3)] show ?thesis by auto
  qed
  show ?thesis
  proof (cases r2)
    case None
    with r2 f True settles_mono [of en "{lv_status v, ''FAILED''}" _ _ ?S] show ?thesis
      by (auto simp: ret_def waiting_def)
  next
    case (Some v2)
    with r2 have v2: "working w2 = working w" "lv_status v2 = ''REFUND_PENDING'' \<or> lv_status v2 = lv_status v \<and> fresh_amount en v2"
      by auto
    from f Some have j: "judge_payment en v2 w2 = (Inr r, w1)" by simp
    have "{lv_status v2, ''PAYMENT_REJECTED'', ''REFUNDED'', ''FAILED''} \<subseteq> ?S"
      using v2(2) True by (auto simp: waiting_def)
    from judge_payment_Inr [OF j] v2 True settles_mono [OF _ this] show ?thesis by auto
  qed
qed

section \<open>Plan and activation\<close>

definition activated :: "reconcile_env \<Rightarrow> reconcile_vars \<Rightarrow> 'a billing_db_scheme \<Rightarrow> 'a billing_db_scheme \<Rightarrow> bool" where
  "activated en v d d1 \<longleftrightarrow> (\<exists>hs. let i = next_id (map s_id (sucursales d)) in
     saved en v ''COMPLETED''
       (op_update (en_id en) (\<lambda>o1. o1\<lparr>bo_branch := Some i\<rparr>)
         (d\<lparr>quantity_histories := hs, sucursales := sucursales d @ [branch_row i (en_brand en) (en_draft en)],
            suscripciones := update_where (\<lambda>s. sb_marca s = en_brand en) (raise_subscription en) (suscripciones d)\<rparr>)) d1)"

lemma insert_quantity_history_Inr:
  assumes "insert_quantity_history en w = (Inr u, w1)"
  obtains hs where "working w1 = (working w)\<lparr>quantity_histories := hs\<rparr>"
proof -
  have "\<exists>hs. working w1 = (working w)\<lparr>quantity_histories := hs\<rparr>"
    using assms unfolding insert_quantity_history_def exec_Inr Let_def
    by (cases "list_ex (\<lambda>h. qh_operation h = en_id en) (quantity_histories (working w))")
      (auto intro: exI [of _ "quantity_histories (working w)"])
  then show ?thesis using that by blast
qed

lemma insert_sucursal_Inr:
  "insert_sucursal brand dr w = (Inr i, w1) \<longleftrightarrow> ok_next w \<and> i = next_id (map s_id (sucursales (working w)))
     \<and> w1 = (ticked w)\<lparr>working := (working w)\<lparr>sucursales := sucursales (working w) @ [branch_row i brand dr]\<rparr>\<rparr>"
  by (auto simp: insert_sucursal_def tx_run Let_def)

lemma activate_Inr:
  assumes "activate en v w = (Inr r, w1)"
  shows "r = None \<and> activated en v (working w) (committed w1)"
proof -
  obtain u w2 where q: "insert_quantity_history en w = (Inr u, w2)"
    and rest: "seq (insert_sucursal (en_brand en) (en_draft en)) (\<lambda>branch.
     seq (exec (\<lambda>w. let d = working w in d\<lparr>suscripciones :=
       update_where (\<lambda>s. sb_marca s = en_brand en) (raise_subscription en) (suscripciones d)\<rparr>)) (\<lambda>_.
     seq (update_operation (en_id en) (\<lambda>o1. o1\<lparr>bo_branch := Some branch\<rparr>)) (\<lambda>_.
     save en v ''COMPLETED'' ''''))) w2 = (Inr r, w1)"
    using assms unfolding activate_def seq_Inr by blast
  obtain hs where hs: "working w2 = (working w)\<lparr>quantity_histories := hs\<rparr>"
    by (rule insert_quantity_history_Inr [OF q])
  let ?d = "working w" and ?i = "next_id (map s_id (sucursales (working w)))"
  obtain w3 where s: "save en v ''COMPLETED'' '''' w3 = (Inr r, w1)"
    and w3: "working w3 = op_update (en_id en) (\<lambda>o1. o1\<lparr>bo_branch := Some ?i\<rparr>)
         (?d\<lparr>quantity_histories := hs, sucursales := sucursales ?d @ [branch_row ?i (en_brand en) (en_draft en)],
            suscripciones := update_where (\<lambda>s. sb_marca s = en_brand en) (raise_subscription en) (suscripciones ?d)\<rparr>)"
    using rest by (auto simp: tx_run insert_sucursal_Inr update_operation_Inr hs Let_def)
  from save_Inr [OF s] w3 show ?thesis unfolding activated_def by (auto simp: Let_def)
qed

text \<open>
  The provider confirmed the new amount in this run: it was already charged in a plan change that
  had begun, or it was read back after the change.
\<close>

definition plan_read :: "reconcile_env \<Rightarrow> branch_answers option \<Rightarrow> reconcile_vars \<Rightarrow> bool" where
  "plan_read en provider v \<longleftrightarrow> (case provider of None \<Rightarrow> True | Some a \<Rightarrow>
     lv_plan_started v \<and>
     ((\<exists>s. an_current a = Inr s \<and> same_plan en s \<and> ps_amount s = qt_new_monthly (en_quote en)) \<or>
      (\<exists>s. an_verified a = Inr s \<and> plan_confirmed en s)))"

lemma change_plan_Inr:
  assumes "change_plan en a v w = (Inr r, w1)" and "lv_status v = ''PLAN_UPDATING''" and "vars_ok en v ''PLAN_UPDATING''"
  shows "(r = None \<and> settles en {''PLAN_UPDATING''} (working w) (committed w1)) \<or>
    (\<exists>v1. r = Some v1 \<and> working w1 = working w \<and> (lv_status v1 = ''REFUND_PENDING'' \<or>
       (\<exists>s. an_verified a = Inr s \<and> plan_confirmed en s \<and> v1 = v\<lparr>lv_plan_amount := Some (qt_new_monthly (en_quote en))\<rparr>)))"
  using assms
  by (auto simp: change_plan_def tx_run plan_confirmed_def split: sum.splits provider_failure.splits if_splits
      dest!: save_settles [where S = "{''PLAN_UPDATING''}"])

lemma provider_plan_Inr:
  assumes "provider_plan en a v w = (Inr r, w1)" and "lv_status v = ''PLAN_UPDATING''" and "vars_ok en v ''PLAN_UPDATING''"
    and "lv_plan_started v"
  shows "(r = None \<and> settles en {''PLAN_UPDATING''} (working w) (committed w1)) \<or>
    (\<exists>v1. r = Some v1 \<and> working w1 = working w \<and> (lv_status v1 = ''REFUND_PENDING'' \<or>
       plan_read en (Some a) v \<and> v1 = v\<lparr>lv_plan_amount := Some (qt_new_monthly (en_quote en))\<rparr>))"
proof -
  define w2 where "w2 = w\<lparr>sent := sent w @ [(''GetSubscription'', bs_provider_id (en_snapshot en), 0)]\<rparr>"
  have same: "working w2 = working w" by (simp add: w2_def)
  note run = assms(1) [unfolded provider_plan_def seq_Inr call_out_Inr]
  note [simp] = w2_def [symmetric]
  show ?thesis
  proof (cases "an_current a")
    case (Inl e)
    with run have "save en v (lv_status v) ''PLAN_UPDATE_RETRY'' w2 = (Inr r, w1)" by auto
    from save_settles [OF this, of "{''PLAN_UPDATING''}"] assms(2,3) same show ?thesis by simp
  next
    case (Inr s)
    consider "\<not> same_plan en s \<or> \<not> ps_amount s = qt_new_monthly (en_quote en) \<and> ps_amount s \<noteq> bs_monthly (en_snapshot en)"
      | "same_plan en s" "ps_amount s = qt_new_monthly (en_quote en)"
      | "same_plan en s" "ps_amount s \<noteq> qt_new_monthly (en_quote en)" "ps_amount s = bs_monthly (en_snapshot en)" by blast
    then show ?thesis
    proof cases
      case 1
      with run Inr same show ?thesis by (auto simp: ret_def split: if_splits)
    next
      case 2
      with run Inr same assms(4) show ?thesis by (auto simp: ret_def plan_read_def)
    next
      case 3
      with run Inr have "change_plan en a v w2 = (Inr r, w1)" by (auto split: if_splits)
      from change_plan_Inr [OF this assms(2,3)] same assms(4) show ?thesis by (auto simp: plan_read_def)
    qed
  qed
qed

lemma simulated_plan_Inr:
  assumes "simulated_plan en v w = (Inr r, w1)" and "lv_status v = ''PLAN_UPDATING''" and "vars_ok en v ''PLAN_UPDATING''"
  shows "(r = None \<and> settles en {''PLAN_UPDATING''} (working w) (committed w1)) \<or>
    (\<exists>v1. r = Some v1 \<and> working w1 = working w \<and> (lv_status v1 = ''REFUND_PENDING'' \<or>
       v1 = v\<lparr>lv_plan_amount := Some (qt_new_monthly (en_quote en))\<rparr>))"
proof (cases "en_fault en = ''update_fail''")
  case True
  with assms(1) have "save en v (lv_status v) ''PLAN_UPDATE_RETRY'' w = (Inr r, w1)" by (simp add: simulated_plan_def)
  from save_settles [OF this, of "{''PLAN_UPDATING''}"] assms(2,3) show ?thesis by simp
next
  case False
  with assms(1) show ?thesis by (auto simp: simulated_plan_def ret_def split: if_splits)
qed

lemma vars_ok_plan_amount [simp]: "vars_ok en (v\<lparr>lv_plan_amount := x\<rparr>) s = vars_ok en v s"
  "vars_ok en (v\<lparr>lv_plan_started := b\<rparr>) s = vars_ok en v s"
  by (simp_all add: vars_ok_def paid_def approved_in_time_def)

lemma plan_segment_Inr:
  assumes "plan_segment en provider v w = (Inr r, w1)" and "provider_fits en provider"
    and "lv_status v = ''PLAN_UPDATING'' \<longrightarrow> vars_ok en v ''PLAN_UPDATING''"
  shows "(r = None \<and> lv_status v = ''PLAN_UPDATING'' \<and> en_eligible en \<and>
      (settles en {''PLAN_UPDATING''} (working w) (committed w1) \<or>
       (\<exists>v1. activated en v1 (working w) (committed w1) \<and> vars_ok en v1 ''COMPLETED'' \<and> plan_read en provider v))) \<or>
    (\<exists>v1. r = Some v1 \<and> working w1 = working w \<and>
      (v1 = v \<and> lv_status v \<noteq> ''PLAN_UPDATING'' \<or> lv_status v = ''PLAN_UPDATING'' \<and> lv_status v1 = ''REFUND_PENDING''))"
proof -
  consider "lv_status v \<noteq> ''PLAN_UPDATING''" | "lv_status v = ''PLAN_UPDATING''" "\<not> en_eligible en"
    | "lv_status v = ''PLAN_UPDATING''" "en_eligible en" "provider \<noteq> None" "\<not> lv_plan_started v"
    | "lv_status v = ''PLAN_UPDATING''" "en_eligible en" "provider = None \<or> lv_plan_started v" by argo
  then show ?thesis
  proof cases
    case 1
    with assms(1) show ?thesis by (auto simp: plan_segment_def ret_def)
  next
    case 2
    with assms(1) show ?thesis by (auto simp: plan_segment_def ret_def)
  next
    case 3
    with assms(1) have "save en (v\<lparr>lv_plan_started := True\<rparr>) (lv_status v) '''' w = (Inr r, w1)"
      by (simp add: plan_segment_def)
    from save_settles [OF this, of "{''PLAN_UPDATING''}"] 3 assms(3) show ?thesis by simp
  next
    case 4
    with assms(1) obtain r2 w2
      where m: "(case provider of None \<Rightarrow> simulated_plan en v | Some a \<Rightarrow> provider_plan en a v) w = (Inr r2, w2)"
      and f: "(case r2 of None \<Rightarrow> ret None | Some v \<Rightarrow>
        if lv_status v = ''PLAN_UPDATING'' \<and> lv_plan_amount v = Some (qt_new_monthly (en_quote en))
        then activate en v else ret (Some v)) w2 = (Inr r, w1)"
      by (auto simp: plan_segment_def and_then_def seq_Inr)
    have r2: "(r2 = None \<and> settles en {''PLAN_UPDATING''} (working w) (committed w2)) \<or>
      (\<exists>v1. r2 = Some v1 \<and> working w2 = working w \<and> (lv_status v1 = ''REFUND_PENDING'' \<or>
         plan_read en provider v \<and> v1 = v\<lparr>lv_plan_amount := Some (qt_new_monthly (en_quote en))\<rparr>))"
    proof (cases provider)
      case None
      with m simulated_plan_Inr [of en v w r2 w2] 4 assms(3) show ?thesis by (auto simp: plan_read_def)
    next
      case (Some a)
      with m provider_plan_Inr [of en a v w r2 w2] 4 assms(3) show ?thesis by auto
    qed
    show ?thesis
    proof (cases r2)
      case None
      with r2 f 4 show ?thesis by (auto simp: ret_def)
    next
      case (Some v2)
      with r2 consider "working w2 = working w" "lv_status v2 = ''REFUND_PENDING''"
        | "working w2 = working w" "plan_read en provider v" "v2 = v\<lparr>lv_plan_amount := Some (qt_new_monthly (en_quote en))\<rparr>"
        by auto
      then show ?thesis
      proof cases
        case 1
        with f Some 4 show ?thesis by (auto simp: ret_def)
      next
        case 2
        with f Some 4 have a: "activate en v2 w2 = (Inr r, w1)" by simp
        have "vars_ok en v2 ''PLAN_UPDATING''" using assms(3) 2 4 by simp
        then have "vars_ok en v2 ''COMPLETED''" by (simp add: vars_ok_def)
        with activate_Inr [OF a] 2 4 show ?thesis by auto
      qed
    qed
  qed
qed

section \<open>Refund\<close>

text \<open>A refund is requested only when the recurring amount of the subscription is the old one.\<close>

definition plan_is_old :: "reconcile_env \<Rightarrow> branch_answers \<Rightarrow> reconcile_vars \<Rightarrow> bool" where
  "plan_is_old en a v \<longleftrightarrow> \<not> lv_plan_started v
     \<or> (\<exists>s. an_restore_current a = Inr s \<and> ps_amount s = bs_monthly (en_snapshot en))
     \<or> (\<exists>s. an_restore_check a = Inr s \<and> restored en s)"

definition new_calls :: "'d world \<Rightarrow> 'd world \<Rightarrow> (string \<times> string \<times> int) list" where
  "new_calls w w1 = drop (length (sent w)) (sent w1)"

lemma refund_payment_Inr:
  assumes "refund_payment en a v w = (Inr r, w1)" and "lv_status v = ''REFUND_PENDING''" and "\<not> en_sim en"
  shows "r = None \<and> settles en {''REFUND_PENDING'', ''REFUNDED'', ''FAILED''} (working w) (committed w1)"
proof -
  let ?S = "{''REFUND_PENDING'', ''REFUNDED'', ''FAILED''}"
  define w2 where "w2 = w\<lparr>sent := sent w @ [(''RefundBranchPayment'', lv_payment_id v, 0)]\<rparr>"
  define w3 where "w3 = w2\<lparr>sent := sent w2 @ [(''FindBranchPayment'', reference en, 0)]\<rparr>"
  have same: "working w2 = working w" "working w3 = working w" by (simp_all add: w2_def w3_def)
  have st: ?thesis if "save en v1 s code w4 = (Inr r, w1)" "working w4 = working w" "s \<in> ?S" "vars_ok en v1 s" for v1 s code w4
    using save_settles [OF that(1,3,4)] that(2) by simp
  consider "\<not> qt_payment_required (en_quote en)" | "qt_payment_required (en_quote en)" "lv_payment_id v = ''''"
    | "qt_payment_required (en_quote en)" "lv_payment_id v \<noteq> ''''" "lv_amount v \<le> lv_refunded v \<and> 0 < lv_amount v"
    | "qt_payment_required (en_quote en)" "lv_payment_id v \<noteq> ''''" "\<not> (lv_amount v \<le> lv_refunded v \<and> 0 < lv_amount v)"
    by argo
  then show ?thesis
  proof cases
    case 1
    with assms(1) have "save en v ''FAILED'' ''PLAN_UPDATE_FAILED'' w = (Inr r, w1)" by (simp add: refund_payment_def)
    from st [OF this] 1 show ?thesis by (simp add: vars_ok_def)
  next
    case 2
    with assms(1) have "save en v (lv_status v) ''PAYMENT_VERIFICATION_RETRY'' w = (Inr r, w1)" by (simp add: refund_payment_def)
    from st [OF this] assms(2) show ?thesis by simp
  next
    case 3
    with assms(1) have "save en v ''REFUNDED'' '''' w = (Inr r, w1)" by (simp add: refund_payment_def)
    from st [OF this] 3 show ?thesis by (simp add: vars_ok_def)
  next
    case 4
    with assms(1) have run: "(case an_refund a of Inl _ \<Rightarrow> save en v (lv_status v) ''REFUND_RETRY''
        | Inr _ \<Rightarrow> seq (call_out (''FindBranchPayment'', reference en, 0) (an_refund_find a)) (\<lambda>found.
            case found of
              Inl _ \<Rightarrow> save en v (lv_status v) ''REFUND_RETRY''
            | Inr None \<Rightarrow> save en v (lv_status v) ''REFUND_RETRY''
            | Inr (Some p) \<Rightarrow>
                if py_refunded p < lv_amount v then save en v (lv_status v) ''REFUND_RETRY''
                else save en (v\<lparr>lv_refunded := py_refunded p, lv_payment_status := py_status p\<rparr>) ''REFUNDED'' '''')) w2 = (Inr r, w1)"
      by (auto simp: refund_payment_def seq_Inr call_out_Inr w2_def)
    show ?thesis
    proof (cases "an_refund a")
      case (Inl e)
      with run have "save en v (lv_status v) ''REFUND_RETRY'' w2 = (Inr r, w1)" by simp
      from st [OF this same(1)] assms(2) show ?thesis by simp
    next
      case (Inr u)
      with run have run3: "(case an_refund_find a of
              Inl _ \<Rightarrow> save en v (lv_status v) ''REFUND_RETRY''
            | Inr None \<Rightarrow> save en v (lv_status v) ''REFUND_RETRY''
            | Inr (Some p) \<Rightarrow>
                if py_refunded p < lv_amount v then save en v (lv_status v) ''REFUND_RETRY''
                else save en (v\<lparr>lv_refunded := py_refunded p, lv_payment_status := py_status p\<rparr>) ''REFUNDED'' '''') w3 = (Inr r, w1)"
        by (auto simp: seq_Inr call_out_Inr w3_def)
      show ?thesis
      proof (cases "\<exists>p. an_refund_find a = Inr (Some p) \<and> \<not> py_refunded p < lv_amount v")
        case False
        with run3 have "save en v (lv_status v) ''REFUND_RETRY'' w3 = (Inr r, w1)"
          by (auto split: sum.splits option.splits if_splits)
        from st [OF this same(2)] assms(2) show ?thesis by simp
      next
        case True
        then obtain p where p: "an_refund_find a = Inr (Some p)" "\<not> py_refunded p < lv_amount v" by blast
        with run3 have "save en (v\<lparr>lv_refunded := py_refunded p, lv_payment_status := py_status p\<rparr>) ''REFUNDED'' '''' w3 = (Inr r, w1)"
          by simp
        from st [OF this same(2)] p(2) show ?thesis by (simp add: vars_ok_def)
      qed
    qed
  qed
qed

lemma restore_plan_Inr:
  assumes "restore_plan en a v s w = (Inr r, w1)" and "lv_status v = ''REFUND_PENDING''"
  shows "(r = None \<and> settles en {''REFUND_PENDING''} (working w) (committed w1)) \<or>
    (r = Some v \<and> working w1 = working w)"
  using assms
  by (auto simp: restore_plan_def tx_run split: sum.splits if_splits
      dest!: save_settles [where S = "{''REFUND_PENDING''}"])

lemma provider_refund_Inr:
  assumes "provider_refund en a v w = (Inr r, w1)" and "lv_status v = ''REFUND_PENDING''" and "\<not> en_sim en"
  shows "r = None \<and> settles en {''REFUND_PENDING'', ''REFUNDED'', ''FAILED''} (working w) (committed w1)"
proof -
  let ?S = "{''REFUND_PENDING'', ''REFUNDED'', ''FAILED''}"
  define w2 where "w2 = w\<lparr>sent := sent w @ [(''GetSubscription'', bs_provider_id (en_snapshot en), 0)]\<rparr>"
  have same: "working w2 = working w" by (simp add: w2_def)
  have st: ?thesis if "save en v (lv_status v) code w4 = (Inr r, w1)" "working w4 = working w" for code w4
    using save_settles [OF that(1), of ?S] that(2) assms(2) by simp
  note run = assms(1) [unfolded provider_refund_def seq_Inr call_out_Inr]
  show ?thesis
  proof (cases "an_restore_current a")
    case (Inl e)
    with run have "save en v (lv_status v) ''PLAN_RESTORE_RETRY'' w2 = (Inr r, w1)" by (auto simp: w2_def)
    from st [OF this same] show ?thesis .
  next
    case (Inr s)
    let ?review = "ps_id s \<noteq> bs_provider_id (en_snapshot en) \<or> ps_reference s \<noteq> bs_reference (en_snapshot en)
            \<or> lv_plan_started v \<and> (ps_status s \<noteq> ''authorized'' \<or> ps_next s \<noteq> Some (bs_next (en_snapshot en)))"
    consider w4 where "save en v (lv_status v) ''PLAN_RESTORE_REVIEW_REQUIRED'' w4 = (Inr r, w1)" "working w4 = working w"
      | w4 where "and_then (restore_plan en a v s) (\<lambda>v.
             if plan_unknown en v s then save en v (lv_status v) ''PLAN_RESTORE_REVIEW_REQUIRED''
             else refund_payment en a v) w4 = (Inr r, w1)" "working w4 = working w"
    proof (cases ?review)
      case True
      with run Inr have "save en v (lv_status v) ''PLAN_RESTORE_REVIEW_REQUIRED'' w2 = (Inr r, w1)" by (auto simp: w2_def)
      with that same show thesis by blast
    next
      case False
      with run Inr have "seq (query (\<lambda>w. map_option (same_provider (en_snapshot en)) (find_suscripcion (en_brand en) (working w)))) (\<lambda>row.
           seq (require row (GoError ''no rows in result set'')) (\<lambda>val.
           seq (require val (GoError ''cannot scan NULL into *bool'')) (\<lambda>same.
           if \<not> same \<and> lv_plan_started v then save en v (lv_status v) ''PLAN_RESTORE_REVIEW_REQUIRED''
           else
             and_then (restore_plan en a v s) (\<lambda>v.
             if plan_unknown en v s then save en v (lv_status v) ''PLAN_RESTORE_REVIEW_REQUIRED''
             else refund_payment en a v)))) w2 = (Inr r, w1)"
        by (auto simp: w2_def)
      then obtain same2 where
        "(if \<not> same2 \<and> lv_plan_started v then save en v (lv_status v) ''PLAN_RESTORE_REVIEW_REQUIRED''
           else and_then (restore_plan en a v s) (\<lambda>v.
             if plan_unknown en v s then save en v (lv_status v) ''PLAN_RESTORE_REVIEW_REQUIRED''
             else refund_payment en a v)) (ticked w2) = (Inr r, w1)"
        unfolding seq_Inr query_Inr require_Inr by blast
      then show thesis
        using that(1) [of "ticked w2"] that(2) [of "ticked w2"] same by (simp split: if_splits)
    qed
    then show ?thesis
    proof cases
      case 1
      from st [OF 1] show ?thesis .
    next
      case 2
      then obtain r2 w5 where m: "restore_plan en a v s w4 = (Inr r2, w5)"
        and f: "(case r2 of None \<Rightarrow> ret None | Some v \<Rightarrow>
             if plan_unknown en v s then save en v (lv_status v) ''PLAN_RESTORE_REVIEW_REQUIRED''
             else refund_payment en a v) w5 = (Inr r, w1)"
        by (auto simp: and_then_def seq_Inr)
      from restore_plan_Inr [OF m assms(2)] show ?thesis
      proof
        assume "r2 = None \<and> settles en {''REFUND_PENDING''} (working w4) (committed w5)"
        with f 2(2) settles_mono [of en "{''REFUND_PENDING''}" _ _ ?S] show ?thesis by (auto simp: ret_def)
      next
        assume r2: "r2 = Some v \<and> working w5 = working w4"
        show ?thesis
        proof (cases "plan_unknown en v s")
          case True
          with f r2 have "save en v (lv_status v) ''PLAN_RESTORE_REVIEW_REQUIRED'' w5 = (Inr r, w1)" by simp
          from st [OF this] r2 2(2) show ?thesis by simp
        next
          case False
          with f r2 have "refund_payment en a v w5 = (Inr r, w1)" by simp
          from refund_payment_Inr [OF this assms(2,3)] r2 2(2) show ?thesis by simp
        qed
      qed
    qed
  qed
qed

lemma refund_segment_Inr:
  assumes "refund_segment en provider v w = (Inr r, w1)" and "provider_fits en provider"
  shows "r = None \<and> lv_status v = ''REFUND_PENDING'' \<and>
    settles en {''REFUND_PENDING'', ''REFUNDED'', ''FAILED''} (working w) (committed w1)"
proof -
  let ?S = "{''REFUND_PENDING'', ''REFUNDED'', ''FAILED''}"
  have st: "lv_status v = ''REFUND_PENDING''" using assms(1) by (auto simp: refund_segment_def throw_def split: if_splits)
  show ?thesis
  proof (cases provider)
    case None
    with assms st have sim: "en_sim en" and run: "simulated_refund en v w = (Inr r, w1)"
      by (auto simp: refund_segment_def provider_fits_def)
    then obtain v1 s code where s: "save en v1 s code w = (Inr r, w1)" "s \<in> ?S"
      using st by (auto simp: simulated_refund_def split: if_splits)
    from save_settles [OF this] sim st show ?thesis by (simp add: vars_ok_def)
  next
    case (Some a)
    with assms st have "provider_refund en a v w = (Inr r, w1)" "\<not> en_sim en"
      by (auto simp: refund_segment_def provider_fits_def)
    from provider_refund_Inr [OF this(1) st this(2)] st show ?thesis by simp
  qed
qed

section \<open>The three segments\<close>

lemma and_then_Inr:
  "and_then m f w = (Inr r, w1) \<longleftrightarrow>
     (\<exists>r2 w2. m w = (Inr r2, w2) \<and> (case r2 of None \<Rightarrow> ret None | Some v \<Rightarrow> f v) w2 = (Inr r, w1))"
  by (simp add: and_then_def seq_Inr)

text \<open>
  The statuses in which a reconciliation that started in a status can leave an operation, the
  activation apart.
\<close>

definition targets :: "string \<Rightarrow> string set" where
  "targets s =
     (if waiting s then {s, ''PLAN_UPDATING'', ''REFUND_PENDING'', ''PAYMENT_REJECTED'', ''REFUNDED'', ''FAILED''}
      else if s = ''PLAN_UPDATING'' then {''PLAN_UPDATING'', ''REFUND_PENDING'', ''REFUNDED'', ''FAILED''}
      else {''REFUND_PENDING'', ''REFUNDED'', ''FAILED''})"

lemma reconcile_segments_Inr:
  assumes run: "reconcile_segments en provider v w = (Inr r, w1)" and fits: "provider_fits en provider"
    and ok: "vars_ok en v (lv_status v)"
  shows "r = None \<and> (settles en (targets (lv_status v)) (working w) (committed w1) \<or>
    (\<exists>v1 v2. activated en v1 (working w) (committed w1) \<and> vars_ok en v1 ''COMPLETED'' \<and> en_eligible en
       \<and> lv_status v \<in> {''PAYMENT_PENDING'', ''FAILED'', ''PLAN_UPDATING''} \<and> plan_read en provider v2))"
proof -
  obtain r2 w2 where m: "payment_segment en provider v w = (Inr r2, w2)"
    and f: "(case r2 of None \<Rightarrow> ret None | Some v \<Rightarrow> and_then (plan_segment en provider v) (refund_segment en provider)) w2 = (Inr r, w1)"
    using run by (auto simp: reconcile_segments_def and_then_Inr)
  note p = payment_segment_Inr [OF m fits ok]
  show ?thesis
  proof (cases r2)
    case None
    with p f have "waiting (lv_status v)" "r = None" "w1 = w2"
      "settles en {lv_status v, ''REFUND_PENDING'', ''PAYMENT_REJECTED'', ''REFUNDED'', ''FAILED''} (working w) (committed w1)"
      by (auto simp: ret_def)
    then show ?thesis by (auto simp: targets_def elim: settles_mono)
  next
    case (Some v2)
    with p have v2: "working w2 = working w" "v2 = v \<and> \<not> waiting (lv_status v) \<or>
        waiting (lv_status v) \<and> (lv_status v2 = ''REFUND_PENDING'' \<or> to_plan en v2)" by auto
    from f Some obtain r3 w3 where m3: "plan_segment en provider v2 w2 = (Inr r3, w3)"
      and f3: "(case r3 of None \<Rightarrow> ret None | Some v \<Rightarrow> refund_segment en provider v) w3 = (Inr r, w1)"
      by (auto simp: and_then_Inr)
    have "lv_status v2 = ''PLAN_UPDATING'' \<longrightarrow> vars_ok en v2 ''PLAN_UPDATING''"
      using v2 ok by (auto simp: to_plan_def)
    note p3 = plan_segment_Inr [OF m3 fits this]
    have from_plan: "lv_status v \<in> {''PAYMENT_PENDING'', ''FAILED'', ''PLAN_UPDATING''}" if "lv_status v2 = ''PLAN_UPDATING''"
      using v2 that by (auto simp: waiting_def)
    show ?thesis
    proof (cases r3)
      case None
      with p3 f3 v2(1) have "lv_status v2 = ''PLAN_UPDATING''" "en_eligible en" "r = None" "w1 = w3"
        "settles en {''PLAN_UPDATING''} (working w) (committed w1) \<or>
         (\<exists>v1. activated en v1 (working w) (committed w1) \<and> vars_ok en v1 ''COMPLETED'' \<and> plan_read en provider v2)"
        by (auto simp: ret_def)
      then show ?thesis using from_plan settles_mono [of en "{''PLAN_UPDATING''}" _ _ "targets (lv_status v)"]
        by (auto simp: targets_def waiting_def)
    next
      case (Some v3)
      with p3 v2(1) have w3: "working w3 = working w" by auto
      from f3 Some have "refund_segment en provider v3 w3 = (Inr r, w1)" by simp
      from refund_segment_Inr [OF this fits] w3
      have "r = None" "settles en {''REFUND_PENDING'', ''REFUNDED'', ''FAILED''} (working w) (committed w1)" by simp_all
      then show ?thesis using settles_mono [of en "{''REFUND_PENDING'', ''REFUNDED'', ''FAILED''}" _ _ "targets (lv_status v)"]
        by (auto simp: targets_def)
    qed
  qed
qed

end
