(* ===== verification/BranchInvariant.thy ===== *)
theory BranchInvariant
  imports BranchSegments Contracts
begin

text \<open>
  The invariant of the branch purchases and its preservation by every operation: quoting,
  confirming, the simulator and the reconciliation.
\<close>

section \<open>The invariant\<close>

definition identity :: "operation_row \<Rightarrow> string \<times> int \<times> int \<times> string \<times> string \<times> bool" where
  "identity o1 = (bo_id o1, bo_marca o1, bo_actor o1, bo_quote o1, bo_key o1, bo_simulation o1)"

text \<open>What the quote says, whatever the run it is read in.\<close>

definition row_ok :: "operation_row \<Rightarrow> quote_row \<Rightarrow> bool" where
  "row_ok o1 q \<longleftrightarrow> vars_ok (env_of o1 q False '''' 0) (vars_of o1) (bo_status o1)"

definition quote_ok :: "quote_row \<Rightarrow> bool" where
  "quote_ok q \<longleftrightarrow> qt_new_monthly (bq_quote q) = bs_monthly (bq_snapshot q) + bs_unit (bq_snapshot q)
     \<and> in_int64 (qt_new_monthly (bq_quote q)) \<and> qt_unit (bq_quote q) = bs_unit (bq_snapshot q)
     \<and> 0 \<le> qt_amount (bq_quote q) \<and> qt_amount (bq_quote q) \<le> bs_unit (bq_snapshot q)
     \<and> (qt_payment_required (bq_quote q) \<longleftrightarrow> 0 < qt_amount (bq_quote q))
     \<and> qt_expires (bq_quote q) = bq_expires q"

definition subscription_ok :: "suscripcion \<Rightarrow> bool" where
  "subscription_ok s \<longleftrightarrow> sb_importe s = sb_precio s * sb_cantidad s \<and> in_int64 (sb_importe s)"

definition operations_distinct :: "'a billing_db_scheme \<Rightarrow> bool" where
  "operations_distinct d \<longleftrightarrow> distinct (map bo_id (branch_operations d))
     \<and> distinct (map bo_quote (branch_operations d)) \<and> distinct (map bq_id (branch_quotes d))
     \<and> distinct (map s_id (sucursales d)) \<and> distinct (map sb_marca (suscripciones d))"

definition one_active :: "'a billing_db_scheme \<Rightarrow> bool" where
  "one_active d \<longleftrightarrow> (\<forall>o1 \<in> set (branch_operations d). \<forall>o2 \<in> set (branch_operations d).
     active_operation o1 \<and> active_operation o2 \<and> bo_marca o1 = bo_marca o2 \<longrightarrow> bo_id o1 = bo_id o2)"

definition rows_ok :: "'a billing_db_scheme \<Rightarrow> bool" where
  "rows_ok d \<longleftrightarrow> (\<forall>o1 \<in> set (branch_operations d). bo_quote o1 \<in> bq_id ` set (branch_quotes d)
     \<and> (\<forall>q \<in> set (branch_quotes d). bq_id q = bo_quote o1 \<longrightarrow> row_ok o1 q))"

definition branches_ok :: "'a billing_db_scheme \<Rightarrow> bool" where
  "branches_ok d \<longleftrightarrow> (\<forall>o1 \<in> set (branch_operations d).
     (bo_status o1 = ''COMPLETED'' \<longleftrightarrow> bo_branch o1 \<noteq> None) \<and>
     (\<forall>b. bo_branch o1 = Some b \<longrightarrow> b \<in> s_id ` set (filter (\<lambda>s. s_marca s = bo_marca o1) (sucursales d))))
   \<and> (\<forall>o1 \<in> set (branch_operations d). \<forall>o2 \<in> set (branch_operations d).
     bo_branch o1 \<noteq> None \<and> bo_branch o1 = bo_branch o2 \<longrightarrow> bo_id o1 = bo_id o2)"

definition branch_inv :: "'a billing_db_scheme \<Rightarrow> bool" where
  "branch_inv d \<longleftrightarrow> operations_distinct d \<and> one_active d \<and> rows_ok d \<and> branches_ok d
     \<and> (\<forall>q \<in> set (branch_quotes d). quote_ok q) \<and> (\<forall>s \<in> set (suscripciones d). subscription_ok s)"

lemma one_activeD:
  "one_active d \<Longrightarrow> o1 \<in> set (branch_operations d) \<Longrightarrow> o2 \<in> set (branch_operations d) \<Longrightarrow>
   active_operation o1 \<Longrightarrow> active_operation o2 \<Longrightarrow> bo_marca o1 = bo_marca o2 \<Longrightarrow> bo_id o1 = bo_id o2"
  unfolding one_active_def by blast

lemma same_operations:
  assumes "branch_operations d = branch_operations d1" "branch_quotes d = branch_quotes d1"
  shows "one_active d = one_active d1" "rows_ok d = rows_ok d1"
  by (simp_all add: one_active_def rows_ok_def assms)

lemma branches_okD:
  assumes "branches_ok d" and "o1 \<in> set (branch_operations d)"
  shows "bo_status o1 = ''COMPLETED'' \<longleftrightarrow> bo_branch o1 \<noteq> None"
    and "bo_branch o1 = Some b \<Longrightarrow> b \<in> s_id ` set (filter (\<lambda>s. s_marca s = bo_marca o1) (sucursales d))"
    and "o2 \<in> set (branch_operations d) \<Longrightarrow> bo_branch o1 \<noteq> None \<Longrightarrow> bo_branch o1 = bo_branch o2 \<Longrightarrow> bo_id o1 = bo_id o2"
  using assms unfolding branches_ok_def by blast+

section \<open>Updating one operation\<close>

lemma op_update_tables [simp]:
  "branch_quotes (op_update oid f d) = branch_quotes d" "sucursales (op_update oid f d) = sucursales d"
  "suscripciones (op_update oid f d) = suscripciones d"
  "branch_operations (op_update oid f d) = update_where (\<lambda>o1. bo_id o1 = oid) f (branch_operations d)"
  by (simp_all add: op_update_def)

lemma identity_eq:
  assumes "identity a = identity b"
  shows "bo_id a = bo_id b" "bo_marca a = bo_marca b" "bo_actor a = bo_actor b" "bo_quote a = bo_quote b"
    "bo_key a = bo_key b" "bo_simulation a = bo_simulation b"
  using assms by (simp_all add: identity_def)

lemma op_update_core:
  assumes inv: "branch_inv d" and same: "\<And>o1. identity (f o1) = identity o1" and free: "slot_free oid f d"
    and row: "\<And>o1 q. o1 \<in> set (branch_operations d) \<Longrightarrow> bo_id o1 = oid \<Longrightarrow> q \<in> set (branch_quotes d) \<Longrightarrow>
       bq_id q = bo_quote o1 \<Longrightarrow> row_ok (f o1) q"
  shows "operations_distinct (op_update oid f d) \<and> one_active (op_update oid f d) \<and> rows_ok (op_update oid f d)"
proof -
  note i = identity_eq [OF same]
  have ids: "map bo_id (update_where p f os) = map bo_id os" "map bo_quote (update_where p f os) = map bo_quote os" for p os
    by (simp_all add: map_update_where i)
  have "operations_distinct (op_update oid f d)"
    using inv by (simp add: branch_inv_def operations_distinct_def ids)
  moreover have "one_active (op_update oid f d)"
    unfolding one_active_def op_update_tables
  proof (intro ballI impI)
    fix a b
    assume "a \<in> set (update_where (\<lambda>o1. bo_id o1 = oid) f (branch_operations d))"
      "b \<in> set (update_where (\<lambda>o1. bo_id o1 = oid) f (branch_operations d))"
    then obtain o1 o2 where o: "o1 \<in> set (branch_operations d)" "a = (if bo_id o1 = oid then f o1 else o1)"
      "o2 \<in> set (branch_operations d)" "b = (if bo_id o2 = oid then f o2 else o2)"
      by (auto simp: set_update_where)
    assume ab: "active_operation a \<and> active_operation b \<and> bo_marca a = bo_marca b"
    have clash: False if "x \<in> set (branch_operations d)" "y \<in> set (branch_operations d)" "bo_id x = oid" "bo_id y \<noteq> oid"
      "active_operation (f x)" "active_operation y" "bo_marca y = bo_marca x" for x y
      using free that by (simp add: slot_free_def)
    have old: "one_active d" using inv by (simp add: branch_inv_def)
    show "bo_id a = bo_id b"
    proof (cases "bo_id o1 = oid"; cases "bo_id o2 = oid")
      assume "bo_id o1 = oid" "bo_id o2 = oid"
      with o show ?thesis by (simp add: i)
    next
      assume c: "bo_id o1 = oid" "bo_id o2 \<noteq> oid"
      with clash [of o1 o2] o ab show ?thesis by (auto simp: i)
    next
      assume c: "bo_id o1 \<noteq> oid" "bo_id o2 = oid"
      with clash [of o2 o1] o ab show ?thesis by (auto simp: i)
    next
      assume "bo_id o1 \<noteq> oid" "bo_id o2 \<noteq> oid"
      with o have "a = o1" "b = o2" by simp_all
      with one_activeD [OF old o(1,3)] ab show ?thesis by simp
    qed
  qed
  moreover have "rows_ok (op_update oid f d)"
    unfolding rows_ok_def op_update_tables
  proof (intro ballI impI conjI)
    fix a
    assume "a \<in> set (update_where (\<lambda>o1. bo_id o1 = oid) f (branch_operations d))"
    then obtain o1 where o: "o1 \<in> set (branch_operations d)" "a = (if bo_id o1 = oid then f o1 else o1)"
      by (auto simp: set_update_where)
    have same_quote: "bo_quote a = bo_quote o1" using o(2) by (simp add: i split: if_splits)
    have r: "rows_ok d" using inv by (simp add: branch_inv_def)
    with o(1) show "bo_quote a \<in> bq_id ` set (branch_quotes d)" unfolding same_quote rows_ok_def by blast
    fix q
    assume q: "q \<in> set (branch_quotes d)" "bq_id q = bo_quote a"
    with r o(1) have "row_ok o1 q" unfolding same_quote rows_ok_def by blast
    with row [OF o(1)] o(2) q [unfolded same_quote] show "row_ok a q" by simp
  qed
  ultimately show ?thesis by blast
qed

lemma op_update_inv:
  assumes inv: "branch_inv d" and same: "\<And>o1. identity (f o1) = identity o1" and free: "slot_free oid f d"
    and row: "\<And>o1 q. o1 \<in> set (branch_operations d) \<Longrightarrow> bo_id o1 = oid \<Longrightarrow> q \<in> set (branch_quotes d) \<Longrightarrow>
       bq_id q = bo_quote o1 \<Longrightarrow> row_ok (f o1) q"
    and branch: "\<And>o1. o1 \<in> set (branch_operations d) \<Longrightarrow> bo_id o1 = oid \<Longrightarrow>
       bo_branch (f o1) = bo_branch o1 \<and> (bo_status (f o1) = ''COMPLETED'' \<longleftrightarrow> bo_status o1 = ''COMPLETED'')"
  shows "branch_inv (op_update oid f d)"
proof -
  note i = identity_eq [OF same]
  have "branches_ok (op_update oid f d)"
  proof -
    have old: "branches_ok d" using inv by (simp add: branch_inv_def)
    have each: "\<exists>o1 \<in> set (branch_operations d). bo_id a = bo_id o1 \<and> bo_marca a = bo_marca o1 \<and> bo_branch a = bo_branch o1
        \<and> (bo_status a = ''COMPLETED'' \<longleftrightarrow> bo_status o1 = ''COMPLETED'')"
      if a: "a \<in> set (update_where (\<lambda>o1. bo_id o1 = oid) f (branch_operations d))" for a
    proof -
      from a obtain o1 where o: "o1 \<in> set (branch_operations d)" "a = (if bo_id o1 = oid then f o1 else o1)"
        by (auto simp: set_update_where)
      then show ?thesis using branch [of o1] by (intro bexI [of _ o1]) (auto simp: i)
    qed
    show ?thesis
      unfolding branches_ok_def op_update_tables
    proof (intro conjI ballI allI impI)
      fix a
      assume "a \<in> set (update_where (\<lambda>o1. bo_id o1 = oid) f (branch_operations d))"
      from each [OF this] obtain o1 where o: "o1 \<in> set (branch_operations d)" "bo_marca a = bo_marca o1" "bo_branch a = bo_branch o1"
        "bo_status a = ''COMPLETED'' \<longleftrightarrow> bo_status o1 = ''COMPLETED''" by auto
      with branches_okD(1) [OF old o(1)] show "(bo_status a = ''COMPLETED'') = (bo_branch a \<noteq> None)" by simp
      fix b
      assume "bo_branch a = Some b"
      with branches_okD(2) [OF old o(1), of b] o(2,3)
      show "b \<in> s_id ` set (filter (\<lambda>s. s_marca s = bo_marca a) (sucursales d))" by simp
    next
      fix a b
      assume "a \<in> set (update_where (\<lambda>o1. bo_id o1 = oid) f (branch_operations d))"
        "b \<in> set (update_where (\<lambda>o1. bo_id o1 = oid) f (branch_operations d))"
      from each [OF this(1)] each [OF this(2)] obtain o1 o2 where o: "o1 \<in> set (branch_operations d)" "o2 \<in> set (branch_operations d)"
        "bo_id a = bo_id o1" "bo_branch a = bo_branch o1" "bo_id b = bo_id o2" "bo_branch b = bo_branch o2" by auto
      assume "bo_branch a \<noteq> None \<and> bo_branch a = bo_branch b"
      then have "bo_branch o1 \<noteq> None" "bo_branch o1 = bo_branch o2" unfolding o(4,6) by blast+
      from branches_okD(3) [OF old o(1,2) this] show "bo_id a = bo_id b" unfolding o(3,5) .
    qed
  qed
  moreover have "operations_distinct (op_update oid f d) \<and> one_active (op_update oid f d) \<and> rows_ok (op_update oid f d)"
    by (rule op_update_core [OF inv same free row])
  ultimately show ?thesis using inv unfolding branch_inv_def op_update_tables by blast
qed

section \<open>Saves and activations keep it\<close>

lemma vars_ok_cong:
  assumes "en_quote en = en_quote en2" "en_sim en = en_sim en2" "en_created en = en_created en2" "en_expiry en = en_expiry en2"
    and "lv_payment_status v = lv_payment_status v2" "lv_amount v = lv_amount v2" "lv_refunded v = lv_refunded v2"
    "lv_approved v = lv_approved v2"
  shows "vars_ok en v s = vars_ok en2 v2 s"
proof -
  have "approved_in_time en v = approved_in_time en2 v2"
    using assms by (simp add: approved_in_time_def split: option.split)
  then show ?thesis using assms by (simp add: vars_ok_def paid_def)
qed

lemma vars_ok_env:
  assumes "bo_simulation o1 = bo_simulation o2"
  shows "vars_ok (env_of o1 q e u n) v s = vars_ok (env_of o2 q e2 u2 n2) v s"
  by (rule vars_ok_cong) (simp_all add: env_of_def assms)

lemma vars_ok_saved_row:
  "vars_ok en (vars_of (saved_row en2 v s code o1)) s2 = vars_ok en v s2"
  by (rule vars_ok_cong) (simp_all add: vars_of_def saved_row_def)

lemma saved_row_identity [simp]: "identity (saved_row en v s code o1) = identity o1"
  "bo_branch (saved_row en v s code o1) = bo_branch o1" "bo_status (saved_row en v s code o1) = s"
  by (simp_all add: identity_def saved_row_def)

lemma operation_with_quoteD:
  assumes "operation_with_quote oid d = Some (o1, q)"
  shows "o1 \<in> set (branch_operations d)" "q \<in> set (branch_quotes d)" "bq_id q = bo_quote o1" "bo_id o1 = oid"
  using assms by (auto simp: operation_with_quote_def dest!: first_row_SomeD)

lemma unique_operation:
  "branch_inv d \<Longrightarrow> o1 \<in> set (branch_operations d) \<Longrightarrow> o2 \<in> set (branch_operations d) \<Longrightarrow> bo_id o1 = bo_id o2 \<Longrightarrow> o1 = o2"
  unfolding branch_inv_def operations_distinct_def by (blast intro: distinct_key_unique)

lemma unique_quote:
  "branch_inv d \<Longrightarrow> q1 \<in> set (branch_quotes d) \<Longrightarrow> q2 \<in> set (branch_quotes d) \<Longrightarrow> bq_id q1 = bq_id q2 \<Longrightarrow> q1 = q2"
  unfolding branch_inv_def operations_distinct_def by (blast intro: distinct_key_unique)

lemma checkout_inv:
  assumes "branch_inv d"
  shows "branch_inv (op_update oid (\<lambda>o1. o1\<lparr>bo_checkout := Some url, bo_checkout_id := Some cid\<rparr>) d)" (is "branch_inv (op_update oid ?f d)")
proof (rule op_update_inv [OF assms])
  show "slot_free oid ?f d"
    unfolding slot_free_def using one_activeD [of d] assms by (auto simp: branch_inv_def active_operation_def)
  show "row_ok (?f o1) q" if "o1 \<in> set (branch_operations d)" "q \<in> set (branch_quotes d)" "bq_id q = bo_quote o1" for o1 q
  proof -
    have "rows_ok d" using assms by (simp add: branch_inv_def)
    with that have "row_ok o1 q" unfolding rows_ok_def by blast
    moreover have "row_ok (?f o1) q = row_ok o1 q" unfolding row_ok_def
      by (simp, rule vars_ok_cong) (simp_all add: env_of_def vars_of_def)
    ultimately show ?thesis by simp
  qed
qed (simp_all add: identity_def)

lemma saved_inv:
  assumes inv: "branch_inv d" and s: "saved (env_of o1 q e u n) v st d d1"
    and o1: "o1 \<in> set (branch_operations d)" and q: "q \<in> set (branch_quotes d)" "bq_id q = bo_quote o1"
    and st: "st = ''COMPLETED'' \<longleftrightarrow> bo_status o1 = ''COMPLETED''" and ok: "vars_ok (env_of o1 q e u n) v st"
  shows "branch_inv d1"
proof -
  let ?en = "env_of o1 q e u n"
  from s obtain code where d1: "d1 = op_update (bo_id o1) (saved_row ?en v st code) d"
    and free: "slot_free (bo_id o1) (saved_row ?en v st code) d"
    by (auto simp: saved_def env_of_def)
  have uq: "x = o1" if "x \<in> set (branch_operations d)" "bo_id x = bo_id o1" for x
    by (rule unique_operation [OF inv that(1) o1 that(2)])
  show ?thesis unfolding d1
  proof (rule op_update_inv [OF inv _ free])
    fix x p
    assume x: "x \<in> set (branch_operations d)" "bo_id x = bo_id o1" "p \<in> set (branch_quotes d)" "bq_id p = bo_quote x"
    then have xo: "x = o1" using uq by blast
    have "p = q" by (rule unique_quote [OF inv x(3) q(1)]) (simp add: x(4) xo q(2))
    then show "row_ok (saved_row ?en v st code x) p"
      using ok vars_ok_env [of "saved_row ?en v st code o1" o1 q False "''''" 0 v st e u n]
      by (simp add: row_ok_def xo vars_ok_saved_row) (simp add: saved_row_def)
  next
    fix x
    assume "x \<in> set (branch_operations d)" "bo_id x = bo_id o1"
    then have "x = o1" by (rule uq)
    then show "bo_branch (saved_row ?en v st code x) = bo_branch x
        \<and> (bo_status (saved_row ?en v st code x) = ''COMPLETED'' \<longleftrightarrow> bo_status x = ''COMPLETED'')"
      using st by simp
  qed simp
qed

lemma settles_inv:
  assumes inv: "branch_inv d" and s: "settles (env_of o1 q e u n) S d d1"
    and o1: "o1 \<in> set (branch_operations d)" and q: "q \<in> set (branch_quotes d)" "bq_id q = bo_quote o1"
    and S: "''COMPLETED'' \<notin> S" "bo_status o1 \<noteq> ''COMPLETED''"
  shows "branch_inv d1"
proof -
  let ?en = "env_of o1 q e u n"
  from s obtain v st where sc: "saved_checkout ?en v st d d1" "st \<in> S" "vars_ok ?en v st" by (auto simp: settles_def)
  with S have st: "st \<noteq> ''COMPLETED''" by auto
  from sc(1) consider "saved ?en v st d d1"
    | url cid where "saved ?en v st (op_update (bo_id o1) (\<lambda>o1. o1\<lparr>bo_checkout := Some url, bo_checkout_id := Some cid\<rparr>) d) d1"
    by (auto simp: saved_checkout_def env_of_def)
  then show ?thesis
  proof cases
    case 1
    show ?thesis by (rule saved_inv [OF inv 1 o1 q]) (use st S sc in auto)
  next
    case 2
    let ?f = "\<lambda>o1. o1\<lparr>bo_checkout := Some url, bo_checkout_id := Some cid\<rparr>"
    have en: "saved_row (env_of (?f o1) q e u n) = saved_row ?en" for o1 :: operation_row
      by (rule ext)+ (simp add: saved_row_def env_of_def)
    have s: "saved (env_of (?f o1) q e u n) v st (op_update (bo_id o1) ?f d) d1"
      using 2 by (simp add: saved_def en) (simp add: env_of_def)
    have m: "?f o1 \<in> set (branch_operations (op_update (bo_id o1) ?f d))"
      using o1 by (auto simp: set_update_where intro!: bexI [of _ o1])
    have ok: "vars_ok (env_of (?f o1) q e u n) v st"
      using sc(3) vars_ok_env [of "?f o1" o1 q e u n v st e u n] by simp
    show ?thesis
      by (rule saved_inv [OF checkout_inv [OF inv] s m _ _ _ ok]) (use q st S(2) in simp_all)
  qed
qed

text \<open>The activation: one more branch, one more in the count, the monthly amount of the quote.\<close>

lemma saved_activation:
  assumes "activated en v d d1"
  obtains hs i code where "i = next_id (map s_id (sucursales d))"
    "d1 = op_update (en_id en) (\<lambda>o1. saved_row en v ''COMPLETED'' code (o1\<lparr>bo_branch := Some i\<rparr>))
       (d\<lparr>quantity_histories := hs, sucursales := sucursales d @ [branch_row i (en_brand en) (en_draft en)],
          suscripciones := update_where (\<lambda>s. sb_marca s = en_brand en) (raise_subscription en) (suscripciones d)\<rparr>)"
proof -
  let ?i = "next_id (map s_id (sucursales d))"
  have comp: "op_update oid g (op_update oid f dd) = op_update oid (\<lambda>o1. g (f o1)) dd"
    if "\<And>o1. bo_id (f o1) = bo_id o1" for oid f g and dd :: "'a billing_db_scheme"
    using that by (simp add: op_update_def update_where_def comp_def)
  from assms obtain hs code where "d1 = op_update (en_id en) (saved_row en v ''COMPLETED'' code)
      (op_update (en_id en) (\<lambda>o1. o1\<lparr>bo_branch := Some ?i\<rparr>)
       (d\<lparr>quantity_histories := hs, sucursales := sucursales d @ [branch_row ?i (en_brand en) (en_draft en)],
          suscripciones := update_where (\<lambda>s. sb_marca s = en_brand en) (raise_subscription en) (suscripciones d)\<rparr>))"
    by (auto simp: activated_def saved_def Let_def)
  then show thesis using that [OF refl] by (simp add: comp)
qed

lemma not_active_completed: "bo_status o1 = ''COMPLETED'' \<Longrightarrow> \<not> active_operation o1"
  by (simp add: active_operation_def)

lemma raised_subscription_ok:
  assumes "subscription_ok s" "quote_ok q" "bq_snapshot q = snapshot_of ba s" "en_quote en = bq_quote q"
  shows "subscription_ok (raise_subscription en s)"
proof -
  have m: "qt_new_monthly (bq_quote q) = sb_precio s * sb_cantidad s + sb_precio s" "in_int64 (qt_new_monthly (bq_quote q))"
    using assms(1-3) by (auto simp: subscription_ok_def quote_ok_def snapshot_of_def)
  then show ?thesis using assms(4) by (simp add: subscription_ok_def raise_subscription_def distrib_left)
qed

lemma activated_inv:
  assumes inv: "branch_inv d" and a: "activated (env_of o1 q e u n) v d d1"
    and o1: "o1 \<in> set (branch_operations d)" and q: "q \<in> set (branch_quotes d)" "bq_id q = bo_quote o1"
    and ok: "vars_ok (env_of o1 q e u n) v ''COMPLETED''"
    and s: "find_suscripcion (bo_marca o1) d = Some s" "bq_snapshot q = snapshot_of ba s"
  shows "branch_inv d1"
proof -
  let ?en = "env_of o1 q e u n"
  have [simp]: "en_id ?en = bo_id o1" "en_brand ?en = bo_marca o1" "en_draft ?en = bq_draft q" "en_quote ?en = bq_quote q"
    by (simp_all add: env_of_def)
  obtain hs i code where i: "i = next_id (map s_id (sucursales d))"
    and d1: "d1 = op_update (bo_id o1) (\<lambda>o1. saved_row ?en v ''COMPLETED'' code (o1\<lparr>bo_branch := Some i\<rparr>))
       (d\<lparr>quantity_histories := hs, sucursales := sucursales d @ [branch_row i (bo_marca o1) (bq_draft q)],
          suscripciones := update_where (\<lambda>s. sb_marca s = bo_marca o1) (raise_subscription ?en) (suscripciones d)\<rparr>)"
    by (rule saved_activation [OF a]) simp
  let ?f = "\<lambda>o1. saved_row ?en v ''COMPLETED'' code (o1\<lparr>bo_branch := Some i\<rparr>)"
  have idf: "identity (?f x) = identity x" for x by (simp add: identity_def saved_row_def)
  have uq: "x = o1" if "x \<in> set (branch_operations d)" "bo_id x = bo_id o1" for x
    by (rule unique_operation [OF inv that(1) o1 that(2)])
  have "slot_free (bo_id o1) ?f d" unfolding slot_free_def by (auto dest: not_active_completed [rotated] simp: active_operation_def)
  moreover have "row_ok (?f x) p" if x: "x \<in> set (branch_operations d)" "bo_id x = bo_id o1" "p \<in> set (branch_quotes d)" "bq_id p = bo_quote x" for x p
  proof -
    have xo: "x = o1" by (rule uq [OF x(1,2)])
    have "p = q" by (rule unique_quote [OF inv x(3) q(1)]) (simp add: x(4) xo q(2))
    then show ?thesis
      using ok vars_ok_env [of "?f o1" o1 q False "''''" 0 v "''COMPLETED''" e u n]
      by (simp add: row_ok_def xo vars_ok_saved_row) (simp add: saved_row_def)
  qed
  ultimately have core: "operations_distinct (op_update (bo_id o1) ?f d) \<and> one_active (op_update (bo_id o1) ?f d) \<and> rows_ok (op_update (bo_id o1) ?f d)"
    using op_update_core [of d ?f "bo_id o1", OF inv idf] by blast
  have fresh: "i \<notin> s_id ` set (sucursales d)" using next_id_fresh [of "map s_id (sucursales d)"] by (simp add: i)
  have "operations_distinct d1"
    using core fresh by (simp add: operations_distinct_def d1 branch_row_def map_update_where raise_subscription_def)
  moreover have "one_active d1" "rows_ok d1"
    using core same_operations [of d1 "op_update (bo_id o1) ?f d"] by (simp_all add: d1)
  moreover have "branches_ok d1"
  proof -
    have old: "branches_ok d" using inv by (simp add: branch_inv_def)
    have each: "(a \<in> set (branch_operations d) \<and> bo_id a \<noteq> bo_id o1) \<or>
        (bo_id a = bo_id o1 \<and> bo_marca a = bo_marca o1 \<and> bo_status a = ''COMPLETED'' \<and> bo_branch a = Some i)"
      if a: "a \<in> set (branch_operations d1)" for a
    proof -
      from a obtain x where x: "x \<in> set (branch_operations d)" "a = (if bo_id x = bo_id o1 then ?f x else x)"
        by (auto simp: d1 set_update_where)
      show ?thesis
      proof (cases "bo_id x = bo_id o1")
        case True
        with x uq [OF x(1)] show ?thesis by (simp add: saved_row_def)
      qed (use x in simp)
    qed
    have old_branch: "bo_branch x \<noteq> Some i" if "x \<in> set (branch_operations d)" for x
      using branches_okD(2) [OF old that, of i] fresh by auto
    show ?thesis unfolding branches_ok_def
    proof (intro conjI ballI allI impI)
      fix a
      assume "a \<in> set (branch_operations d1)"
      note c = each [OF this]
      show "(bo_status a = ''COMPLETED'') = (bo_branch a \<noteq> None)"
        using c branches_okD(1) [OF old] by auto
      fix b
      assume b: "bo_branch a = Some b"
      from c show "b \<in> s_id ` set (filter (\<lambda>s. s_marca s = bo_marca a) (sucursales d1))"
      proof
        assume "a \<in> set (branch_operations d) \<and> bo_id a \<noteq> bo_id o1"
        with branches_okD(2) [OF old _ b] show ?thesis by (auto simp: d1)
      next
        assume "bo_id a = bo_id o1 \<and> bo_marca a = bo_marca o1 \<and> bo_status a = ''COMPLETED'' \<and> bo_branch a = Some i"
        with b show ?thesis by (simp add: d1 branch_row_def)
      qed
    next
      fix a b
      assume "a \<in> set (branch_operations d1)" "b \<in> set (branch_operations d1)"
      note c = each [OF this(1)] each [OF this(2)]
      assume ab: "bo_branch a \<noteq> None \<and> bo_branch a = bo_branch b"
      show "bo_id a = bo_id b"
      proof (cases "bo_branch a = Some i")
        case True
        with ab have "bo_branch b = Some i" by simp
        with True c old_branch show ?thesis by metis
      next
        case False
        with ab have "bo_branch b \<noteq> Some i" by simp
        with False c have "a \<in> set (branch_operations d)" "b \<in> set (branch_operations d)" by blast+
        from branches_okD(3) [OF old this] ab show ?thesis by blast
      qed
    qed
  qed
  moreover have "\<forall>p \<in> set (branch_quotes d1). quote_ok p" using inv by (simp add: d1 branch_inv_def)
  moreover have "\<forall>t \<in> set (suscripciones d1). subscription_ok t"
  proof
    fix t
    assume "t \<in> set (suscripciones d1)"
    then obtain t0 where t: "t0 \<in> set (suscripciones d)"
      "t = (if sb_marca t0 = bo_marca o1 then raise_subscription ?en t0 else t0)"
      by (auto simp: d1 set_update_where)
    have qok: "quote_ok q" "subscription_ok t0" using inv q(1) t(1) by (simp_all add: branch_inv_def)
    show "subscription_ok t"
    proof (cases "sb_marca t0 = bo_marca o1")
      case True
      from s(1) have "s \<in> set (suscripciones d)" "sb_marca s = bo_marca o1"
        by (auto simp: find_suscripcion_def find_Some_iff)
      with True t(1) inv have "s = t0"
        unfolding branch_inv_def operations_distinct_def by (metis distinct_key_unique)
      with True t(2) raised_subscription_ok [OF qok(2,1)] s(2) show ?thesis by simp
    qed (use t qok in simp)
  qed
  ultimately show ?thesis unfolding branch_inv_def by blast
qed

section \<open>Updates of the retry columns and of simulated payments\<close>

lemma row_okD:
  assumes "branch_inv d" "o1 \<in> set (branch_operations d)" "q \<in> set (branch_quotes d)" "bq_id q = bo_quote o1"
  shows "row_ok o1 q"
  using assms by (simp add: branch_inv_def rows_ok_def)

lemma same_activity_free:
  assumes "branch_inv d" and "\<And>o1. identity (f o1) = identity o1" "\<And>o1. active_operation (f o1) \<Longrightarrow> active_operation o1"
  shows "slot_free oid f d"
  unfolding slot_free_def
proof (intro ballI impI notI)
  fix o1 o2
  assume o: "o1 \<in> set (branch_operations d)" "o2 \<in> set (branch_operations d)"
    and c: "bo_id o1 = oid \<and> active_operation (f o1) \<and> bo_id o2 \<noteq> oid \<and> bo_marca o2 = bo_marca o1" "active_operation o2"
  have "one_active d" using assms(1) by (simp add: branch_inv_def)
  from one_activeD [OF this o] assms(3) [of o1] c show False by auto
qed

lemma retry_inv:
  assumes "branch_inv d"
  shows "branch_inv (op_update oid (\<lambda>o1. o1\<lparr>bo_error := code, bo_next_attempt := t\<rparr>) d)" (is "branch_inv (op_update oid ?f d)")
proof (rule op_update_inv [OF assms])
  show "slot_free oid ?f d" by (rule same_activity_free [OF assms]) (simp_all add: identity_def active_operation_def)
  show "row_ok (?f o1) q" if "o1 \<in> set (branch_operations d)" "q \<in> set (branch_quotes d)" "bq_id q = bo_quote o1" for o1 q
  proof -
    have "row_ok (?f o1) q = row_ok o1 q" unfolding row_ok_def
      by (simp, rule vars_ok_cong) (simp_all add: env_of_def vars_of_def)
    with row_okD [OF assms that] show ?thesis by simp
  qed
qed (simp_all add: identity_def)

lemma simulated_inv:
  assumes "branch_inv d" and p: "\<And>o1. p o1 \<Longrightarrow> bo_id o1 = oid \<and> bo_simulation o1 \<and> active_operation o1"
  shows "branch_inv (d\<lparr>branch_operations := update_where p (simulated_row pay fault now t) (branch_operations d)\<rparr>)"
proof -
  let ?f = "\<lambda>o1. if p o1 then simulated_row pay fault now t o1 else o1"
  have "update_where p (simulated_row pay fault now t) os = update_where (\<lambda>o1. bo_id o1 = oid) ?f os" for os
    using p by (auto simp: update_where_def)
  then have e: "d\<lparr>branch_operations := update_where p (simulated_row pay fault now t) (branch_operations d)\<rparr> = op_update oid ?f d"
    by (simp add: op_update_def)
  show ?thesis unfolding e
  proof (rule op_update_inv [OF assms(1)])
    show i: "identity (?f o1) = identity o1" for o1 by (simp add: identity_def simulated_row_def)
    show "slot_free oid ?f d"
      by (rule same_activity_free [OF assms(1) i]) (simp add: active_operation_def simulated_row_def split: if_splits)
    show "row_ok (?f o1) q" if "o1 \<in> set (branch_operations d)" "q \<in> set (branch_quotes d)" "bq_id q = bo_quote o1" for o1 q
    proof (cases "p o1")
      case True
      with p have "bo_simulation o1" by blast
      with True show ?thesis by (simp add: row_ok_def vars_ok_def env_of_def simulated_row_def)
    next
      case False
      with row_okD [OF assms(1) that] show ?thesis by simp
    qed
  qed (simp add: simulated_row_def)
qed

section \<open>New quotes and new operations keep it\<close>

lemma new_quote_inv:
  assumes inv: "branch_inv d" and new: "bq_id q \<notin> bq_id ` set (branch_quotes d)" and ok: "quote_ok q"
  shows "branch_inv (d\<lparr>branch_quotes := branch_quotes d @ [q]\<rparr>)"
proof -
  let ?d = "d\<lparr>branch_quotes := branch_quotes d @ [q]\<rparr>"
  have "rows_ok ?d"
    unfolding rows_ok_def
  proof (intro ballI conjI impI)
    fix o1
    assume "o1 \<in> set (branch_operations ?d)"
    then have o: "o1 \<in> set (branch_operations d)" by simp
    with inv have fk: "bo_quote o1 \<in> bq_id ` set (branch_quotes d)" unfolding branch_inv_def rows_ok_def by blast
    then show "bo_quote o1 \<in> bq_id ` set (branch_quotes ?d)" by auto
    fix p
    assume p: "p \<in> set (branch_quotes ?d)" "bq_id p = bo_quote o1"
    with fk new have "p \<in> set (branch_quotes d)" by auto
    with row_okD [OF inv o _ p(2)] show "row_ok o1 p" by blast
  qed
  moreover have "one_active ?d = one_active d" "branches_ok ?d = branches_ok d"
    by (simp_all add: one_active_def branches_ok_def)
  moreover have "operations_distinct ?d" using inv new by (simp add: branch_inv_def operations_distinct_def)
  ultimately show ?thesis using inv ok by (simp add: branch_inv_def)
qed

lemma new_operation_inv:
  assumes inv: "branch_inv d" and free: "\<not> (\<exists>o1 \<in> set (branch_operations d). operation_conflict o1 row)"
    and row: "row = new_operation oid actor brand quote_id key sim base (bq_quote q)"
    and q: "q \<in> set (branch_quotes d)" "bq_id q = quote_id"
  shows "branch_inv (d\<lparr>branch_operations := branch_operations d @ [stamped t row]\<rparr>)"
proof -
  let ?r = "stamped t row"
  let ?d = "d\<lparr>branch_operations := branch_operations d @ [?r]\<rparr>"
  have r: "bo_id ?r = oid" "bo_quote ?r = quote_id" "bo_marca ?r = brand" "bo_branch ?r = None" "bo_status ?r \<noteq> ''COMPLETED''"
    "active_operation ?r = active_operation row"
    by (simp_all add: row stamped_def new_operation_def active_operation_def)
  have nc: "bo_id o1 \<noteq> oid" "bo_quote o1 \<noteq> quote_id" "\<not> (bo_marca o1 = brand \<and> active_operation o1 \<and> active_operation row)"
    if "o1 \<in> set (branch_operations d)" for o1
    using free that by (auto simp: operation_conflict_def row new_operation_def)
  have "operations_distinct ?d"
    using inv nc(1,2) by (auto simp: branch_inv_def operations_distinct_def r)
  moreover have "one_active ?d"
    unfolding one_active_def
  proof (intro ballI impI)
    fix a b
    assume m: "a \<in> set (branch_operations ?d)" "b \<in> set (branch_operations ?d)"
      and ab: "active_operation a \<and> active_operation b \<and> bo_marca a = bo_marca b"
    have old: "one_active d" using inv by (simp add: branch_inv_def)
    from m consider "a \<in> set (branch_operations d)" "b \<in> set (branch_operations d)" | "a = ?r" "b = ?r"
      | "a = ?r" "b \<in> set (branch_operations d)" | "b = ?r" "a \<in> set (branch_operations d)" by auto
    then show "bo_id a = bo_id b"
    proof cases
      case 1
      with one_activeD [OF old] ab show ?thesis by blast
    next
      case 3
      with nc(3) [OF 3(2)] ab r show ?thesis by auto
    next
      case 4
      with nc(3) [OF 4(2)] ab r show ?thesis by auto
    qed simp
  qed
  moreover have "rows_ok ?d"
    unfolding rows_ok_def
  proof (intro ballI conjI impI)
    fix o1
    assume o: "o1 \<in> set (branch_operations ?d)"
    have fk: "bo_quote x \<in> bq_id ` set (branch_quotes d)" if "x \<in> set (branch_operations d)" for x
      using inv that unfolding branch_inv_def rows_ok_def by blast
    show "bo_quote o1 \<in> bq_id ` set (branch_quotes ?d)" using o fk q r by auto
    fix p
    assume p: "p \<in> set (branch_quotes ?d)" "bq_id p = bo_quote o1"
    show "row_ok o1 p"
    proof (cases "o1 = ?r")
      case True
      with p q r unique_quote [OF inv, of p q] have "p = q" by simp
      with True show ?thesis
        by (simp add: row_ok_def vars_ok_def env_of_def vars_of_def row stamped_def new_operation_def)
    next
      case False
      with o p row_okD [OF inv] show ?thesis by simp
    qed
  qed
  moreover have "branches_ok ?d"
    unfolding branches_ok_def
  proof (intro conjI ballI allI impI)
    have old: "branches_ok d" using inv by (simp add: branch_inv_def)
    fix a
    assume a: "a \<in> set (branch_operations ?d)"
    then show "(bo_status a = ''COMPLETED'') = (bo_branch a \<noteq> None)" using branches_okD(1) [OF old, of a] r by auto
    show "b \<in> s_id ` set (filter (\<lambda>s. s_marca s = bo_marca a) (sucursales ?d))" if "bo_branch a = Some b" for b
      using branches_okD(2) [OF old _ that] a r that by auto
    show "bo_id a = bo_id b" if "b \<in> set (branch_operations ?d)" "bo_branch a \<noteq> None \<and> bo_branch a = bo_branch b" for b
    proof -
      have "a \<in> set (branch_operations d)" "b \<in> set (branch_operations d)" using a r(4) that by auto
      from branches_okD(3) [OF old this] that(2) show ?thesis by blast
    qed
  qed
  ultimately show ?thesis using inv by (simp add: branch_inv_def)
qed

lemma quote_for_ok:
  assumes q: "quote_for ba_day ba_midnight cfg now (snapshot_of ba_day s) = Inr qt" and s: "subscription_ok s"
    and row: "bq_quote row = qt\<lparr>qt_id := i\<rparr>" "bq_snapshot row = snapshot_of ba_day s" "bq_expires row = qt_expires qt"
  shows "quote_ok row"
proof -
  let ?n = "snapshot_of ba_day s"
  obtain p where p: "anchored_proration ba_day now (bs_next ?n) (bs_unit ?n) (bs_trial ?n) (bs_anchor ?n) = Inr p"
    using q by (auto simp: quote_for_def split: sum.splits)
  note f = anchored_proration_Inr [OF p]
  have room: "\<not> sub64 max_int64 (bs_unit ?n) < bs_monthly ?n"
    and qt: "qt_new_monthly qt = add64 (bs_monthly ?n) (bs_unit ?n)" "qt_unit qt = bs_unit ?n" "qt_amount qt = po_amount p"
      "qt_payment_required qt = (0 < po_amount p)"
    using q p by (auto simp: quote_for_def Let_def split: if_splits)
  have "sub64 max_int64 (bs_unit ?n) = max_int64 - bs_unit ?n"
    using f(7,8) by (intro sub64_exact) (simp_all add: in_int64_def)
  with room have "bs_monthly ?n + bs_unit ?n \<le> max_int64" by simp
  moreover have "in_int64 (sb_importe s)" using s unfolding subscription_ok_def by blast
  then have "in_int64 (bs_monthly ?n)" by (simp add: snapshot_of_def)
  ultimately have i: "in_int64 (bs_monthly ?n + bs_unit ?n)" using f(7) by (simp add: in_int64_def)
  moreover have "0 \<le> po_amount p" "po_amount p \<le> bs_unit ?n"
    using f proration_amount_nearest [of "bs_unit ?n" "po_remaining p" "po_days p"] by simp_all
  ultimately show ?thesis using qt by (simp add: quote_ok_def row add64_def)
qed

end
