(* ===== verification/BranchTheorems.thy ===== *)
theory BranchTheorems
  imports BranchInvariant
begin

text \<open>
  The properties of branch purchases: what one reconciliation can do, the invariant over every
  sequence of operations, and what it takes to open a branch or to give money back.
\<close>

section \<open>A commit is the last thing a segment does\<close>

named_theorems last_rules "segments that commit only to end"

definition last_commit :: "('d, 'v option) tx \<Rightarrow> bool" where
  "last_commit m \<longleftrightarrow> (\<forall>w r w1. m w = (r, w1) \<longrightarrow> r = Inr None \<or> committed w1 = committed w)"

lemma last_commitD: "last_commit m \<Longrightarrow> m w = (r, w1) \<Longrightarrow> r = Inr None \<or> committed w1 = committed w"
  unfolding last_commit_def by blast

lemma last_commitI:
  "(\<And>w r w1. m w = (r, w1) \<Longrightarrow> r = Inr None \<or> committed w1 = committed w) \<Longrightarrow> last_commit m"
  unfolding last_commit_def by blast

lemma last_no_commit: "no_commit m \<Longrightarrow> last_commit m"
  by (rule last_commitI) (blast dest: no_commitD)

lemma last_ret [last_rules]: "last_commit (ret a)" "last_commit (throw e)"
  by (simp_all add: last_no_commit no_commit_rules)

lemma last_seq [last_rules]:
  assumes "no_commit m" and "\<And>a. last_commit (f a)"
  shows "last_commit (seq m f)"
proof (rule last_commitI)
  fix w r w1
  assume run: "seq m f w = (r, w1)"
  obtain r2 w2 where m: "m w = (r2, w2)" by (cases "m w")
  note c = no_commitD [OF assms(1) m]
  show "r = Inr None \<or> committed w1 = committed w"
  proof (cases r2)
    case (Inl e)
    with run m have "w1 = w2" by (simp add: seq_def)
    with c show ?thesis by simp
  next
    case (Inr a)
    with run m have "f a w2 = (r, w1)" by (simp add: seq_def)
    from last_commitD [OF assms(2) this] c show ?thesis by simp
  qed
qed

lemma last_and_then [last_rules]:
  assumes "last_commit m" and "\<And>v. last_commit (f v)"
  shows "last_commit (and_then m f)"
proof (rule last_commitI)
  fix w r w1
  assume run: "and_then m f w = (r, w1)"
  obtain r2 w2 where m: "m w = (r2, w2)" by (cases "m w")
  note c = last_commitD [OF assms(1) m]
  show "r = Inr None \<or> committed w1 = committed w"
  proof (cases r2)
    case (Inl e)
    with run m have "w1 = w2" by (simp add: and_then_def seq_def)
    with c Inl show ?thesis by simp
  next
    case (Inr x)
    show ?thesis
    proof (cases x)
      case None
      with run m Inr show ?thesis by (simp add: and_then_def seq_def ret_def)
    next
      case (Some v)
      with run m Inr have "f v w2 = (r, w1)" by (simp add: and_then_def seq_def)
      from last_commitD [OF assms(2) this] c Inr Some show ?thesis by simp
    qed
  qed
qed

lemma last_split [last_rules]:
  "(b \<Longrightarrow> last_commit m) \<Longrightarrow> (\<not> b \<Longrightarrow> last_commit n) \<Longrightarrow> last_commit (if b then m else n)"
  "(x = None \<Longrightarrow> last_commit m) \<Longrightarrow> (\<And>a. x = Some a \<Longrightarrow> last_commit (f a)) \<Longrightarrow>
   last_commit (case x of None \<Rightarrow> m | Some a \<Rightarrow> f a)"
  "(\<And>e. y = Inl e \<Longrightarrow> last_commit (g e)) \<Longrightarrow> (\<And>a. y = Inr a \<Longrightarrow> last_commit (h a)) \<Longrightarrow>
   last_commit (case y of Inl e \<Rightarrow> g e | Inr a \<Rightarrow> h a)"
  "(p = Rejected \<Longrightarrow> last_commit m) \<Longrightarrow> (p = Uncertain \<Longrightarrow> last_commit n) \<Longrightarrow>
   last_commit (case p of Rejected \<Rightarrow> m | Uncertain \<Rightarrow> n)"
  "(\<And>a b. z = (a, b) \<Longrightarrow> last_commit (k a b)) \<Longrightarrow> last_commit (case z of (a, b) \<Rightarrow> k a b)"
  by (simp_all split: option.splits sum.splits provider_failure.splits prod.splits)

lemma last_save [last_rules]: "last_commit (save en v s code)"
proof (rule last_commitI)
  fix w r w1
  assume run: "save en v s code w = (r, w1)"
  show "r = Inr None \<or> committed w1 = committed w"
  proof (cases r)
    case (Inl e)
    with run atomicD [OF atomic_save] show ?thesis by blast
  next
    case (Inr a)
    with run save_Inr(1) show ?thesis by blast
  qed
qed

lemma last_segments [last_rules]:
  "last_commit (reconcile_segments en provider v)"
  unfolding reconcile_segments_def payment_segment_def plan_segment_def refund_segment_def find_payment_def
    create_checkout_def judge_payment_def simulated_plan_def provider_plan_def change_plan_def activate_def
    insert_quantity_history_def insert_sucursal_def simulated_refund_def provider_refund_def restore_plan_def
    refund_payment_def Let_def
  by (intro last_rules no_commit_rules)

lemma atomic_last: "last_commit m \<Longrightarrow> atomic m"
  unfolding atomic_def by (auto dest: last_commitD)

lemma atomic_reconcile_branch [atomic_rules]: "atomic (reconcile_branch ba_day oid provider url now)"
proof -
  have dup: "atomic (refund_duplicates o1 a now)" for o1 a
    unfolding refund_duplicates_def Let_def by (intro atomic_rules no_commit_rules)
  have opened: "atomic (reconcile_open ba_day o1 q provider url now)" for o1 q
    unfolding reconcile_open_def
    by (intro atomic_seq no_commit_rules atomic_then_total [OF atomic_last [OF last_segments]]) (simp add: ret_def)
  show ?thesis unfolding reconcile_branch_def
    by (intro atomic_rules no_commit_rules dup opened)
qed

section \<open>What one reconciliation does\<close>

lemma reads_only_lock_branch_billing: "reads_only (lock_branch_billing ba_day actor brand)"
  unfolding lock_branch_billing_def Let_def by (intro read_rules)

definition reconciled ::
  "(int \<Rightarrow> int) \<Rightarrow> branch_answers option \<Rightarrow> string \<Rightarrow> int \<Rightarrow> operation_row \<Rightarrow> quote_row \<Rightarrow>
   'a billing_db_scheme \<Rightarrow> 'a billing_db_scheme \<Rightarrow> bool" where
  "reconciled ba_day provider url now o1 q d d1 \<longleftrightarrow> reconcilable o1 \<and> (bo_simulation o1 \<longleftrightarrow> provider = None) \<and>
     (\<exists>e. settles (env_of o1 q e url now) (targets (bo_status o1)) d d1 \<or>
       e \<and> bo_status o1 \<in> {''PAYMENT_PENDING'', ''FAILED'', ''PLAN_UPDATING''} \<and>
       (\<exists>v1 v2. activated (env_of o1 q e url now) v1 d d1 \<and> vars_ok (env_of o1 q e url now) v1 ''COMPLETED''
          \<and> plan_read (env_of o1 q e url now) provider v2) \<and>
       (\<exists>s. find_suscripcion (bo_marca o1) d = Some s \<and> bq_snapshot q = snapshot_of ba_day s
          \<and> owner_role d (bo_actor o1) (bo_marca o1) = Some ''PROPIETARIO''
          \<and> billing_consistent (bq_snapshot q) (active_branches (bo_marca o1) d)))"

lemma reconcile_open_Inr:
  assumes run: "reconcile_open ba_day o1 q provider url now w = (Inr u, w1)" and r: "reconcilable o1"
    and ok: "row_ok o1 q"
  shows "reconciled ba_day provider url now o1 q (working w) (committed w1)"
proof -
  obtain valid w2 w3 r3 w4 where l: "lock_branch_billing ba_day (bo_actor o1) (bo_marca o1) w = (valid, w2)"
    and v: "(case valid of
            Inl e \<Rightarrow> reject_if (e \<notin> {Repo ErrForbidden, Repo ErrQuoteChanged, Repo ErrSubscriptionChangeRequired}) e
          | Inr _ \<Rightarrow> ret ()) w2 = (Inr (), w4)"
    and sim: "\<not> (bo_simulation o1 \<and> provider \<noteq> None \<or> \<not> bo_simulation o1 \<and> provider = None)"
    and s4: "reconcile_segments (env_of o1 q (valid = Inr (bq_snapshot q)) url now) provider (vars_of o1) w4 = (Inr r3, w3)"
    and w3: "w3 = w1"
    using run unfolding reconcile_open_def seq_Inr outcome_of_Inr reject_if_Inr ret_Inr by auto
  have "w4 = w2" using v by (auto simp: tx_run split: sum.splits)
  note s = s4 [unfolded this]
  let ?e = "valid = Inr (bq_snapshot q)"
  let ?en = "env_of o1 q ?e url now"
  have ww: "working w2 = working w" using reads_onlyD [OF reads_only_lock_branch_billing l] by simp
  have fits: "provider_fits ?en provider" using sim by (auto simp: provider_fits_def env_of_def)
  have "vars_ok ?en (vars_of o1) (lv_status (vars_of o1))"
    using ok vars_ok_env [OF refl, of o1 q ?e url now "vars_of o1" "bo_status o1" False "''''" 0]
    by (simp add: row_ok_def vars_of_def)
  note res = reconcile_segments_Inr [OF s fits this]
  have st: "lv_status (vars_of o1) = bo_status o1" "en_eligible ?en = ?e" by (simp_all add: vars_of_def env_of_def)
  have elig: "\<exists>s. find_suscripcion (bo_marca o1) (working w) = Some s \<and> bq_snapshot q = snapshot_of ba_day s
          \<and> owner_role (working w) (bo_actor o1) (bo_marca o1) = Some ''PROPIETARIO''
          \<and> billing_consistent (bq_snapshot q) (active_branches (bo_marca o1) (working w))" if ?e
  proof -
    from l that have "lock_branch_billing ba_day (bo_actor o1) (bo_marca o1) w = (Inr (bq_snapshot q), w2)" by simp
    then show ?thesis by (rule lock_branch_billing_Inr) auto
  qed
  from res sim r elig show ?thesis unfolding reconciled_def st ww w3
    by (intro conjI exI [of _ ?e]) auto
qed

lemma reconcile_branch_Inr:
  assumes run: "reconcile_branch ba_day oid provider url now w = (Inr u, w1)" and inv: "branch_inv (committed w)"
  obtains o1 q where "operation_with_quote oid (committed w) = Some (o1, q)"
    "committed w1 = committed w
     \<or> bo_status o1 = ''COMPLETED'' \<and> (\<exists>code t. committed w1 =
         op_update oid (\<lambda>x. x\<lparr>bo_error := code, bo_next_attempt := t\<rparr>) (committed w))
     \<or> reconciled ba_day provider url now o1 q (committed w) (committed w1)"
proof -
  define w0 where "w0 = ticked (ticked (ticked (ticked ((ticked w)\<lparr>working := committed w\<rparr>))))"
  have w0: "working w0 = committed w" "committed w0 = committed w" by (simp_all add: w0_def)
  from run obtain x w3' where x: "operation_with_quote oid (working w0) = Some x"
    and rest': "(case x of (o1, q) \<Rightarrow> if bo_status o1 = ''COMPLETED'' \<and> \<not> bo_simulation o1 \<and> coalesce (bo_payment_id o1) '''' \<noteq> '''' then
       (case provider of
          None \<Rightarrow> throw (Repo ErrInvalidRequest)
        | Some a \<Rightarrow> refund_duplicates o1 a now)
     else if \<not> reconcilable o1 then ret ()
     else reconcile_open ba_day o1 q provider url now) w0 = (Inr u, w3')" and w1': "w1 = w3'\<lparr>working := committed w3'\<rparr>"
    unfolding reconcile_branch_def in_tx_Inr seq_Inr query_Inr require_Inr w0_def by blast
  obtain o1 q w2 w3 where oq: "operation_with_quote oid (committed w) = Some (o1, q)"
    and w2: "working w2 = committed w" "committed w2 = committed w"
    and rest: "(if bo_status o1 = ''COMPLETED'' \<and> \<not> bo_simulation o1 \<and> coalesce (bo_payment_id o1) '''' \<noteq> '''' then
       (case provider of
          None \<Rightarrow> throw (Repo ErrInvalidRequest)
        | Some a \<Rightarrow> refund_duplicates o1 a now)
     else if \<not> reconcilable o1 then ret ()
     else reconcile_open ba_day o1 q provider url now) w2 = (Inr u, w3)" and w1: "committed w1 = committed w3"
    using that [of _ _ w0 w3'] x rest' w0 w1' by (cases x) simp
  note D = operation_with_quoteD [OF oq]
  have rok: "row_ok o1 q" using inv D(1-3) by (simp add: branch_inv_def rows_ok_def)
  consider a where "bo_status o1 = ''COMPLETED''" "refund_duplicates o1 a now w2 = (Inr u, w3)"
    | "w3 = w2" | "reconcilable o1" "reconcile_open ba_day o1 q provider url now w2 = (Inr u, w3)"
    using rest by (auto simp: throw_def ret_def split: if_splits option.splits)
  then show thesis
  proof cases
    case 1
    then obtain code t where "committed w3 = op_update (bo_id o1) (\<lambda>x. x\<lparr>bo_error := code, bo_next_attempt := t\<rparr>) (working w2)"
      unfolding refund_duplicates_def Let_def by (auto simp: tx_run update_operation_Inr split: sum.splits)
    with that [OF oq] w1 w2 1 D(4) show thesis by auto
  next
    case 2
    with that [OF oq] w1 w2 show thesis by simp
  next
    case 3
    from reconcile_open_Inr [OF 3(2,1) rok] that [OF oq] w1 w2 show thesis by simp
  qed
qed

section \<open>The invariant, over every sequence of operations\<close>

lemma targets_not_completed: "bo_status o1 \<noteq> ''COMPLETED'' \<Longrightarrow> ''COMPLETED'' \<notin> targets (bo_status o1)"
  by (auto simp: targets_def)

lemma reconcilable_not_completed: "reconcilable o1 \<Longrightarrow> bo_status o1 \<noteq> ''COMPLETED''"
  by (auto simp: reconcilable_def active_operation_def)

lemma reconciled_inv:
  assumes inv: "branch_inv d" and oq: "operation_with_quote oid d = Some (o1, q)"
    and r: "reconciled ba_day provider url now o1 q d d1"
  shows "branch_inv d1"
proof -
  note D = operation_with_quoteD [OF oq]
  from r obtain e where nc: "bo_status o1 \<noteq> ''COMPLETED''"
    and c: "settles (env_of o1 q e url now) (targets (bo_status o1)) d d1 \<or>
       (\<exists>v1 s. activated (env_of o1 q e url now) v1 d d1 \<and> vars_ok (env_of o1 q e url now) v1 ''COMPLETED''
         \<and> find_suscripcion (bo_marca o1) d = Some s \<and> bq_snapshot q = snapshot_of ba_day s)"
    using reconcilable_not_completed unfolding reconciled_def by blast
  from c show ?thesis
  proof (elim disjE exE conjE)
    assume "settles (env_of o1 q e url now) (targets (bo_status o1)) d d1"
    from settles_inv [OF inv this D(1-3) targets_not_completed [OF nc] nc] show ?thesis .
  next
    fix v1 s
    assume "activated (env_of o1 q e url now) v1 d d1" "vars_ok (env_of o1 q e url now) v1 ''COMPLETED''"
      "find_suscripcion (bo_marca o1) d = Some s" "bq_snapshot q = snapshot_of ba_day s"
    from activated_inv [OF inv this(1) D(1-3) this(2-4)] show ?thesis .
  qed
qed

lemma keeps_reconcile_branch [keeps_rules]: "keeps branch_inv (reconcile_branch ba_day oid provider url now)"
proof (rule keeps_atomic [OF atomic_reconcile_branch])
  fix w :: "'a billing_db_scheme world" and u w1
  assume inv: "branch_inv (committed w)" and run: "reconcile_branch ba_day oid provider url now w = (Inr u, w1)"
  show "branch_inv (committed w1)"
  proof (rule reconcile_branch_Inr [OF run inv])
    fix o1 q
    assume oq: "operation_with_quote oid (committed w) = Some (o1, q)"
      and "committed w1 = committed w
        \<or> bo_status o1 = ''COMPLETED'' \<and> (\<exists>code t. committed w1 =
            op_update oid (\<lambda>x. x\<lparr>bo_error := code, bo_next_attempt := t\<rparr>) (committed w))
        \<or> reconciled ba_day provider url now o1 q (committed w) (committed w1)"
    then show ?thesis
      by (elim disjE exE conjE) (simp_all add: inv retry_inv reconciled_inv [OF inv oq])
  qed
qed

lemma keeps_save_branch_quote [keeps_rules]:
  "keeps branch_inv (save_branch_quote ba_day i actor brand draft (quote_for ba_day ba_midnight cfg now))"
proof (rule keeps_atomic [OF atomic_save_branch_quote])
  fix w :: "'a billing_db_scheme world" and qt w1
  assume inv: "branch_inv (committed w)"
    and run: "save_branch_quote ba_day i actor brand draft (quote_for ba_day ba_midnight cfg now) w = (Inr qt, w1)"
  obtain snap w2 w3 qq where l: "lock_branch_billing ba_day actor brand ((ticked w)\<lparr>working := committed w\<rparr>) = (Inr snap, w2)"
    and q: "quote_for ba_day ba_midnight cfg now snap = Inr qq"
    and ins: "insert_quote \<lparr>bq_id = i, bq_marca = brand, bq_actor = actor, bq_quote = qq\<lparr>qt_id := i\<rparr>, bq_draft = draft,
            bq_snapshot = snap, bq_expires = qt_expires qq, bq_created = 0\<rparr> w2 = (Inr (), w3)"
    and w1: "committed w1 = working w3"
    using run unfolding save_branch_quote_def Let_def in_tx_Inr seq_Inr commit_Inr ret_Inr by auto
  have w2: "working w2 = committed w" using reads_onlyD [OF reads_only_lock_branch_billing l] by simp
  obtain s where s: "find_suscripcion brand (committed w) = Some s" "snap = snapshot_of ba_day s"
    by (rule lock_branch_billing_Inr [OF l]) simp
  have sok: "subscription_ok s" using inv s(1) by (auto simp: branch_inv_def find_suscripcion_def find_Some_iff)
  let ?row = "\<lparr>bq_id = i, bq_marca = brand, bq_actor = actor, bq_quote = qq\<lparr>qt_id := i\<rparr>, bq_draft = draft,
            bq_snapshot = snap, bq_expires = qt_expires qq, bq_created = db_now w2\<rparr>"
  from ins have new: "i \<notin> bq_id ` set (branch_quotes (committed w))"
    and d1: "committed w1 = (committed w)\<lparr>branch_quotes := branch_quotes (committed w) @ [?row]\<rparr>"
    by (auto simp: insert_quote_def tx_run Let_def list_ex_iff w2 w1 split: if_splits)
  have "quote_ok ?row" using quote_for_ok [where row = ?row, OF q [unfolded s(2)] sok] s(2) by simp
  with new_quote_inv [OF inv, of ?row] new show "branch_inv (committed w1)" by (simp add: d1)
qed

lemma catch_conflict_Inr:
  "catch (insert_operation row) (\<lambda>e. if is_unique_violation e then throw x else throw e) w = (Inr u, w1)
     \<longleftrightarrow> insert_operation row w = (Inr u, w1)"
  by (auto simp: catch_Inr throw_def)

lemma confirm_branch_quote_Inr:
  assumes run: "confirm_branch_quote ba_day i actor brand quote_id key sim base now w = (Inr out, w1)"
  obtains (replay) o1 where "List.find (\<lambda>o1. bo_marca o1 = brand \<and> bo_key o1 = key) (branch_operations (committed w)) = Some o1"
      "bo_quote o1 = quote_id" "op_id out = bo_id o1" "committed w1 = committed w"
    | (fresh) row q t where "List.find (\<lambda>o1. bo_marca o1 = brand \<and> bo_key o1 = key) (branch_operations (committed w)) = None"
      "row = new_operation i actor brand quote_id key sim base (bq_quote q)"
      "q \<in> set (branch_quotes (committed w))" "bq_id q = quote_id" "bq_marca q = brand" "bq_actor q = actor" "now < bq_expires q"
      "\<not> (\<exists>o1 \<in> set (branch_operations (committed w)). operation_conflict o1 row)" "op_id out = i"
      "\<exists>s. find_suscripcion brand (committed w) = Some s \<and> bq_snapshot q = snapshot_of ba_day s"
      "committed w1 = (committed w)\<lparr>branch_operations := branch_operations (committed w) @ [stamped t row]\<rparr>"
proof -
  let ?ex = "List.find (\<lambda>o1. bo_marca o1 = brand \<and> bo_key o1 = key) (branch_operations (committed w))"
  define w0 where "w0 = ticked ((ticked w)\<lparr>working := committed w\<rparr>)"
  have w0: "working w0 = committed w" "committed w0 = committed w" by (simp_all add: w0_def)
  from run obtain bc w2 w3 where b: "billing_context working actor brand w0 = (Inr bc, w2)"
    and rest: "(case List.find (\<lambda>o1. bo_marca o1 = brand \<and> bo_key o1 = key) (branch_operations (working (ticked w2))) of
       Some o1 \<Rightarrow> seq (reject_if (bo_quote o1 \<noteq> quote_id) (Repo ErrIdempotencyConflict)) (\<lambda>_.
         read_branch_operation working brand (bo_id o1))
     | None \<Rightarrow> confirm_new_operation ba_day i actor brand quote_id key sim base now) (ticked w2) = (Inr out, w3)"
    and w1: "committed w1 = committed w3"
    unfolding confirm_branch_quote_def in_tx_Inr seq_Inr query_Inr w0_def by force
  have w2: "working w2 = committed w" "committed w2 = committed w"
    using quietD [OF billing_context_Inr(1) [OF b]] w0 by simp_all
  show thesis
  proof (cases ?ex)
    case (Some o1)
    with rest w2 have "bo_quote o1 = quote_id" "read_branch_operation working brand (bo_id o1) (ticked w2) = (Inr out, w3)"
      by (simp_all add: seq_Inr reject_if_Inr)
    from replay [OF Some this(1)] read_operation_Inr [OF this(2)] w1 w2 show thesis by (simp add: quietD)
  next
    case None
    with rest w2 have "confirm_new_operation ba_day i actor brand quote_id key sim base now (ticked w2) = (Inr out, w3)" by simp
    then obtain snap w4 q w5 w6 u5 where l: "lock_branch_billing ba_day actor brand (ticked w2) = (Inr snap, w4)"
      and q: "List.find (\<lambda>q. bq_id q = quote_id \<and> bq_marca q = brand \<and> bq_actor q = actor) (branch_quotes (working (ticked w4))) = Some q"
      and e': "\<not> \<not> now < bq_expires q" "\<not> snap \<noteq> bq_snapshot q"
      and ins: "insert_operation (new_operation i actor brand quote_id key sim base (bq_quote q)) (ticked w4) = (Inr u5, w5)"
      and rd: "read_branch_operation working brand i w5 = (Inr out, w6)" and w3': "w3 = (ticked w6)\<lparr>committed := working w6\<rparr>"
      unfolding confirm_new_operation_def seq_Inr query_Inr require_Inr reject_if_Inr commit_Inr ret_Inr catch_conflict_Inr
      by blast
    from e' w3' have e: "now < bq_expires q" "snap = bq_snapshot q" and w3: "committed w3 = working w6" by simp_all
    have w4: "working w4 = committed w" using reads_onlyD [OF reads_only_lock_branch_billing l] w2 by simp
    obtain s where s: "find_suscripcion brand (committed w) = Some s" "snap = snapshot_of ba_day s"
      by (rule lock_branch_billing_Inr [OF l]) (simp add: w2)
    from q w4 have qm: "q \<in> set (branch_quotes (committed w))" "bq_id q = quote_id" "bq_marca q = brand" "bq_actor q = actor"
      by (auto simp: find_Some_iff)
    note ro = read_operation_Inr [OF rd]
    from ins w4 have free: "\<not> (\<exists>o1 \<in> set (branch_operations (committed w)). operation_conflict o1 (new_operation i actor brand quote_id key sim base (bq_quote q)))"
      and w5: "working w5 = (committed w)\<lparr>branch_operations := branch_operations (committed w) @
         [stamped (db_now w4) (new_operation i actor brand quote_id key sim base (bq_quote q))]\<rparr>"
      by (auto simp: insert_operation_Inr)
    have ex: "\<exists>s. find_suscripcion brand (committed w) = Some s \<and> bq_snapshot q = snapshot_of ba_day s"
      by (intro exI [of _ s]) (simp add: s(1) s(2) [symmetric] e(2) [symmetric])
    have d1: "committed w1 = working w5" using w1 w3 quietD(2) [OF ro(1)] by simp
    show thesis by (rule fresh [OF None refl qm e(1) free ro(3) ex d1 [unfolded w5]])
  qed
qed

lemma keeps_confirm_branch_quote [keeps_rules]:
  "keeps branch_inv (confirm_branch_quote ba_day i actor brand quote_id key sim base now)"
proof (rule keeps_atomic [OF atomic_confirm_branch_quote])
  fix w :: "'a billing_db_scheme world" and out w1
  assume inv: "branch_inv (committed w)"
    and run: "confirm_branch_quote ba_day i actor brand quote_id key sim base now w = (Inr out, w1)"
  from run show "branch_inv (committed w1)"
    by (cases rule: confirm_branch_quote_Inr) (simp_all add: inv new_operation_inv [OF inv _ refl])
qed

lemma keeps_simulate_branch [keeps_rules]: "keeps branch_inv (simulate_branch brand oid action now)"
  unfolding simulate_branch_def
proof (intro keeps_rules)
  fix x :: "string \<times> string" and pay fault
  assume "x = (pay, fault)"
  let ?p = "\<lambda>o1. bo_id o1 = oid \<and> bo_marca o1 = brand \<and> bo_simulation o1 \<and> active_operation o1"
  show "keeps branch_inv (pool_exec (\<lambda>w. let d = working w; p = ?p in
          Inr (rows_affected p (branch_operations d),
            d\<lparr>branch_operations := update_where p (simulated_row pay fault now (db_now w)) (branch_operations d)\<rparr>)))"
    by (rule keeps_atomic [OF atomic_pool_exec])
      (auto simp: tx_run Let_def simulated_inv [where p = ?p and oid = oid])
qed

end
