(* ===== verification/BranchPurchase.thy ===== *)
theory BranchPurchase
  imports BranchTheorems
begin

text \<open>
  The purchase of a branch as an abstract state machine, and the refinement: every operation of
  the implementation moves every purchase along the machine or leaves it where it is.
\<close>

section \<open>The operations as one relation\<close>

inductive branch_step ::
  "(int \<Rightarrow> int) \<Rightarrow> (int \<Rightarrow> int) \<Rightarrow> 'a billing_db_scheme \<Rightarrow> 'a billing_db_scheme \<Rightarrow> bool"
  for ba_day ba_midnight where
    quote_step: "step_of (save_branch_quote ba_day i actor brand draft (quote_for ba_day ba_midnight cfg now)) d d1 \<Longrightarrow>
      branch_step ba_day ba_midnight d d1"
  | confirm_step: "step_of (confirm_branch_quote ba_day i actor brand quote_id key sim base now) d d1 \<Longrightarrow>
      branch_step ba_day ba_midnight d d1"
  | simulate_step: "step_of (simulate_branch brand oid action now) d d1 \<Longrightarrow> branch_step ba_day ba_midnight d d1"
  | reconcile_step: "step_of (reconcile_branch ba_day oid provider url now) d d1 \<Longrightarrow> branch_step ba_day ba_midnight d d1"

lemma branch_step_inv: "branch_step ba_day ba_midnight d d1 \<Longrightarrow> branch_inv d \<Longrightarrow> branch_inv d1"
  by (induction rule: branch_step.induct) (blast intro: keeps_step keeps_rules)+

lemma branch_steps_inv: "(branch_step ba_day ba_midnight)\<^sup>*\<^sup>* d d1 \<Longrightarrow> branch_inv d \<Longrightarrow> branch_inv d1"
  by (induction rule: rtranclp_induct) (auto intro: branch_step_inv)

section \<open>The abstract purchase\<close>

datatype purchase = No_purchase | Awaiting_payment | Updating_plan | Refunding | Completed | Refunded
  | Payment_rejected | Failed | Unknown_status

definition purchase_status :: "string \<Rightarrow> purchase" where
  "purchase_status s =
     (if s = ''PAYMENT_PENDING'' then Awaiting_payment else if s = ''PLAN_UPDATING'' then Updating_plan
      else if s = ''REFUND_PENDING'' then Refunding else if s = ''COMPLETED'' then Completed
      else if s = ''REFUNDED'' then Refunded else if s = ''PAYMENT_REJECTED'' then Payment_rejected
      else if s = ''FAILED'' then Failed else Unknown_status)"

definition find_operation :: "string \<Rightarrow> 'a billing_db_scheme \<Rightarrow> operation_row option" where
  "find_operation oid d = List.find (\<lambda>o1. bo_id o1 = oid) (branch_operations d)"

definition purchase_of :: "'a billing_db_scheme \<Rightarrow> string \<Rightarrow> purchase" where
  "purchase_of d oid =
     (case find_operation oid d of None \<Rightarrow> No_purchase | Some o1 \<Rightarrow> purchase_status (bo_status o1))"

inductive purchase_step :: "purchase \<Rightarrow> purchase \<Rightarrow> bool" where
    opens: "t \<in> {Awaiting_payment, Updating_plan} \<Longrightarrow> purchase_step No_purchase t"
  | pays: "s \<in> {Awaiting_payment, Failed} \<Longrightarrow>
      t \<in> {Updating_plan, Refunding, Payment_rejected, Refunded, Failed, Completed} \<Longrightarrow> purchase_step s t"
  | updates: "t \<in> {Refunding, Refunded, Failed, Completed} \<Longrightarrow> purchase_step Updating_plan t"
  | refunds: "t \<in> {Refunded, Failed} \<Longrightarrow> purchase_step Refunding t"

inductive_cases purchase_stepE: "purchase_step s t"

lemma purchase_final:
  assumes "purchase_step\<^sup>*\<^sup>* s t" and "s \<in> {Completed, Refunded, Payment_rejected}"
  shows "t = s"
  using assms by (induction rule: rtranclp_induct) (auto elim: purchase_stepE)

section \<open>How a row moves\<close>

lemma find_operation_update:
  assumes "\<And>o1. bo_id (f o1) = bo_id o1"
  shows "find_operation oid (op_update i f d) =
    map_option (\<lambda>o1. if i = oid then f o1 else o1) (find_operation oid d)"
proof -
  have "List.find (\<lambda>o1. bo_id o1 = oid) (update_where (\<lambda>o1. bo_id o1 = i) f os) =
    map_option (\<lambda>o1. if i = oid then f o1 else o1) (List.find (\<lambda>o1. bo_id o1 = oid) os)" for os
    by (induction os) (simp_all add: assms)
  then show ?thesis by (simp add: find_operation_def)
qed

lemma purchase_of_update:
  assumes "\<And>o1. bo_id (f o1) = bo_id o1" and "find_operation i d = Some o1"
  shows "purchase_of (op_update i f d) oid =
    (if i = oid then purchase_status (bo_status (f o1)) else purchase_of d oid)"
  using assms(2) by (auto simp: purchase_of_def find_operation_update [OF assms(1)] split: option.split)

lemma purchase_of_same:
  assumes "\<And>o1. bo_id (f o1) = bo_id o1" "\<And>o1. bo_status (f o1) = bo_status o1"
  shows "purchase_of (op_update i f d) oid = purchase_of d oid"
  by (simp add: purchase_of_def find_operation_update [OF assms(1)] assms(2) option.case_eq_if option.map_sel)

lemma purchase_of_cong: "branch_operations d = branch_operations d1 \<Longrightarrow> purchase_of d oid = purchase_of d1 oid"
  by (simp add: purchase_of_def find_operation_def)

lemma find_with_quote:
  assumes "branch_inv d" and "operation_with_quote oid d = Some (o1, q)"
  shows "find_operation oid d = Some o1"
proof -
  note D = operation_with_quoteD [OF assms(2)]
  have "distinct (map bo_id (branch_operations d))" using assms(1) by (simp add: branch_inv_def operations_distinct_def)
  from find_key [OF this D(1)] D(4) show ?thesis by (simp add: find_operation_def)
qed

lemma saved_purchase:
  assumes "saved en v s d d1" and "find_operation (en_id en) d = Some o1"
  shows "purchase_of d1 oid = (if en_id en = oid then purchase_status s else purchase_of d oid)"
proof -
  obtain code where "d1 = op_update (en_id en) (saved_row en v s code) d"
    using assms(1) unfolding saved_def by blast
  moreover have "bo_id (saved_row en v s code o1) = bo_id o1" for o1 by (simp add: saved_row_def)
  ultimately show ?thesis using purchase_of_update [OF _ assms(2)] by simp
qed

lemma settles_purchase:
  assumes "settles en S d d1" and "find_operation (en_id en) d = Some o1"
  obtains s where "s \<in> S" "purchase_of d1 oid = (if en_id en = oid then purchase_status s else purchase_of d oid)"
proof -
  from assms(1) obtain v s where s: "s \<in> S" and sc: "saved_checkout en v s d d1" by (auto simp: settles_def)
  from sc consider "saved en v s d d1"
    | url cid where "saved en v s (op_update (en_id en) (\<lambda>o1. o1\<lparr>bo_checkout := Some url, bo_checkout_id := Some cid\<rparr>) d) d1"
    by (auto simp: saved_checkout_def)
  then have "purchase_of d1 oid = (if en_id en = oid then purchase_status s else purchase_of d oid)"
  proof cases
    case 1
    then show ?thesis by (rule saved_purchase [OF _ assms(2)])
  next
    case 2
    have "find_operation (en_id en) (op_update (en_id en) (\<lambda>o1. o1\<lparr>bo_checkout := Some url, bo_checkout_id := Some cid\<rparr>) d)
        = Some (o1\<lparr>bo_checkout := Some url, bo_checkout_id := Some cid\<rparr>)"
      by (simp add: find_operation_update assms(2))
    from saved_purchase [OF 2 this] show ?thesis by (simp add: purchase_of_same)
  qed
  with s that show thesis by blast
qed

lemma activated_purchase:
  assumes "activated en v d d1" and "find_operation (en_id en) d = Some o1"
  shows "purchase_of d1 oid = (if en_id en = oid then Completed else purchase_of d oid)"
proof -
  obtain hs i code where "d1 = op_update (en_id en) (\<lambda>o1. saved_row en v ''COMPLETED'' code (o1\<lparr>bo_branch := Some i\<rparr>))
       (d\<lparr>quantity_histories := hs, sucursales := sucursales d @ [branch_row i (en_brand en) (en_draft en)],
          suscripciones := update_where (\<lambda>s. sb_marca s = en_brand en) (raise_subscription en) (suscripciones d)\<rparr>)" (is "_ = op_update _ ?f ?d")
    by (rule saved_activation [OF assms(1)])
  moreover have "find_operation (en_id en) ?d = Some o1" using assms(2) by (simp add: find_operation_def)
  moreover have "bo_id (?f o1) = bo_id o1" for o1 by (simp add: saved_row_def)
  ultimately show ?thesis
    using purchase_of_update [of ?f "en_id en" ?d o1 oid] purchase_of_cong [of ?d d oid] by (simp add: purchase_status_def)
qed

lemma targets_purchase:
  assumes "t \<in> targets s" and "s \<in> {''PAYMENT_PENDING'', ''FAILED'', ''PLAN_UPDATING'', ''REFUND_PENDING''}"
  shows "purchase_step\<^sup>=\<^sup>= (purchase_status s) (purchase_status t)"
proof -
  have pay: "purchase_step\<^sup>=\<^sup>= (purchase_status s) (purchase_status t)"
    if "s \<in> {''PAYMENT_PENDING'', ''FAILED''}"
      "t \<in> {s, ''PLAN_UPDATING'', ''REFUND_PENDING'', ''PAYMENT_REJECTED'', ''REFUNDED'', ''FAILED''}"
    using that by (elim insertE; simp add: purchase_status_def purchase_step.pays)
  have plan: "purchase_step\<^sup>=\<^sup>= (purchase_status s) (purchase_status t)"
    if "s = ''PLAN_UPDATING''" "t \<in> {''PLAN_UPDATING'', ''REFUND_PENDING'', ''REFUNDED'', ''FAILED''}"
    using that by (elim insertE; simp add: purchase_status_def purchase_step.updates)
  have refund: "purchase_step\<^sup>=\<^sup>= (purchase_status s) (purchase_status t)"
    if "s = ''REFUND_PENDING''" "t \<in> {''REFUND_PENDING'', ''REFUNDED'', ''FAILED''}"
    using that by (elim insertE; simp add: purchase_status_def purchase_step.refunds)
  from assms(2) consider "s \<in> {''PAYMENT_PENDING'', ''FAILED''}" | "s = ''PLAN_UPDATING''" | "s = ''REFUND_PENDING''" by auto
  then show ?thesis
  proof cases
    case 1
    then have "waiting s" by (auto simp: waiting_def)
    with assms(1) pay [OF 1] show ?thesis by (simp add: targets_def)
  next
    case 2
    with assms(1) plan [OF 2] show ?thesis by (simp add: targets_def waiting_def)
  next
    case 3
    with assms(1) refund [OF 3] show ?thesis by (simp add: targets_def waiting_def)
  qed
qed

lemma reconcilable_status:
  "reconcilable o1 \<Longrightarrow> bo_status o1 \<in> {''PAYMENT_PENDING'', ''FAILED'', ''PLAN_UPDATING'', ''REFUND_PENDING''}"
  by (auto simp: reconcilable_def active_operation_def)

lemma reconciled_purchase:
  assumes inv: "branch_inv d" and oq: "operation_with_quote i d = Some (o1, q)"
    and r: "reconciled ba_day provider url now o1 q d d1"
  shows "purchase_step\<^sup>=\<^sup>= (purchase_of d oid) (purchase_of d1 oid)"
proof -
  have f: "find_operation i d = Some o1" by (rule find_with_quote [OF inv oq])
  have id: "bo_id o1 = i" using operation_with_quoteD(4) [OF oq] .
  have fe: "find_operation (en_id (env_of o1 q e url now)) d = Some o1" "en_id (env_of o1 q e url now) = i" for e
    using f id by (simp_all add: env_of_def)
  have st: "bo_status o1 \<in> {''PAYMENT_PENDING'', ''FAILED'', ''PLAN_UPDATING'', ''REFUND_PENDING''}"
    using r reconcilable_status unfolding reconciled_def by blast
  have own: "purchase_of d i = purchase_status (bo_status o1)" by (simp add: purchase_of_def f)
  from r obtain e where c: "settles (env_of o1 q e url now) (targets (bo_status o1)) d d1 \<or>
       bo_status o1 \<in> {''PAYMENT_PENDING'', ''FAILED'', ''PLAN_UPDATING''} \<and> (\<exists>v1. activated (env_of o1 q e url now) v1 d d1)"
    unfolding reconciled_def by blast
  show ?thesis
  proof (cases "i = oid")
    case False
    from c have "purchase_of d1 oid = purchase_of d oid"
    proof (elim disjE exE conjE)
      assume "settles (env_of o1 q e url now) (targets (bo_status o1)) d d1"
      from settles_purchase [OF this fe(1), of oid] False fe(2) show ?thesis by auto
    next
      fix v1
      assume "activated (env_of o1 q e url now) v1 d d1"
      from activated_purchase [OF this fe(1), of oid] False fe(2) show ?thesis by simp
    qed
    then show ?thesis by simp
  next
    case True
    from c show ?thesis
    proof (elim disjE exE conjE)
      assume "settles (env_of o1 q e url now) (targets (bo_status o1)) d d1"
      from settles_purchase [OF this fe(1), of oid] obtain s where "s \<in> targets (bo_status o1)" "purchase_of d1 oid = purchase_status s"
        using True fe(2) by auto
      with targets_purchase [OF _ st] own True show ?thesis by simp
    next
      fix v1
      assume s: "bo_status o1 \<in> {''PAYMENT_PENDING'', ''FAILED'', ''PLAN_UPDATING''}" and "activated (env_of o1 q e url now) v1 d d1"
      from activated_purchase [OF this(2) fe(1), of oid] True fe(2) have "purchase_of d1 oid = Completed" by simp
      moreover have "purchase_step (purchase_status (bo_status o1)) Completed"
        using s unfolding purchase_status_def by (auto intro: purchase_step.intros)
      ultimately show ?thesis using own True by simp
    qed
  qed
qed

section \<open>The refinement\<close>

lemma purchase_of_append:
  assumes "bo_id row \<notin> bo_id ` set (branch_operations d)"
  shows "purchase_of (d\<lparr>branch_operations := branch_operations d @ [row]\<rparr>) oid =
    (if oid = bo_id row then purchase_status (bo_status row) else purchase_of d oid)"
proof -
  have "List.find (\<lambda>o1. bo_id o1 = oid) (os @ [row]) =
      (case List.find (\<lambda>o1. bo_id o1 = oid) os of Some x \<Rightarrow> Some x | None \<Rightarrow> if bo_id row = oid then Some row else None)" for os
    by (induction os) simp_all
  moreover have "List.find (\<lambda>o1. bo_id o1 = bo_id row) (branch_operations d) = None"
    using assms unfolding find_None_iff by (metis imageI)
  ultimately show ?thesis by (auto simp: purchase_of_def find_operation_def split: option.split)
qed

lemma purchase_of_absent:
  "oid \<notin> bo_id ` set (branch_operations d) \<Longrightarrow> purchase_of d oid = No_purchase"
  by (auto simp: purchase_of_def find_operation_def find_Some_iff split: option.split)

lemma confirm_purchase:
  assumes run: "confirm_branch_quote ba_day i actor brand quote_id key sim base now w = (Inr out, w1)"
  shows "purchase_step\<^sup>=\<^sup>= (purchase_of (committed w) oid) (purchase_of (committed w1) oid)"
  using run
proof (cases rule: confirm_branch_quote_Inr)
  case (replay o1)
  then show ?thesis by simp
next
  case (fresh row q t)
  have r: "bo_id (stamped t row) = i" "bo_status (stamped t row) \<in> {''PAYMENT_PENDING'', ''PLAN_UPDATING''}"
    by (simp_all add: fresh(2) stamped_def new_operation_def)
  have new: "i \<notin> bo_id ` set (branch_operations (committed w))"
    using fresh(8) by (auto simp: operation_conflict_def fresh(2) new_operation_def)
  have st: "purchase_status (bo_status (stamped t row)) \<in> {Awaiting_payment, Updating_plan}"
    using r(2) by (auto simp: purchase_status_def)
  show ?thesis
  proof (cases "oid = i")
    case True
    with purchase_of_append [of "stamped t row" "committed w" oid] new st purchase_of_absent [OF new] show ?thesis
      by (simp add: fresh(11) r(1) purchase_step.opens)
  next
    case False
    with purchase_of_append [of "stamped t row" "committed w" oid] new show ?thesis by (simp add: fresh(11) r(1))
  qed
qed

lemma simulate_purchase:
  assumes "simulate_branch brand i action now w = (r, w1)"
  shows "purchase_of (committed w1) oid = purchase_of (committed w) oid"
proof -
  have "committed w1 = committed w \<or> (\<exists>p pay fault t. committed w1 = (committed w)\<lparr>branch_operations :=
      update_where p (simulated_row pay fault now t) (branch_operations (committed w))\<rparr>)"
  proof (cases "simulation_effect action")
    case None
    with assms show ?thesis by (auto simp: simulate_branch_def seq_def require_def throw_def)
  next
    case (Some pf)
    obtain pay fault where pf: "pf = (pay, fault)" by (cases pf)
    let ?p = "\<lambda>o1. bo_id o1 = i \<and> bo_marca o1 = brand \<and> bo_simulation o1 \<and> active_operation o1"
    let ?m = "pool_exec (\<lambda>w. let d = working w; p = ?p in
          Inr (rows_affected p (branch_operations d),
            d\<lparr>branch_operations := update_where p (simulated_row pay fault now (db_now w)) (branch_operations d)\<rparr>))"
    have run: "seq ?m (\<lambda>n. reject_if (n \<noteq> 1) (Repo ErrConflict)) w = (r, w1)"
      using assms by (simp add: simulate_branch_def seq_def require_def ret_def Some pf)
    obtain r2 w2 where m: "?m w = (r2, w2)" by (cases "?m w")
    have c: "committed w1 = committed w2"
      using run m by (auto simp: seq_def reject_if_def throw_def ret_def split: sum.splits if_splits)
    show ?thesis
    proof (cases r2)
      case (Inl e)
      with m atomicD [OF atomic_pool_exec] have "committed w2 = committed w" by blast
      with c show ?thesis by simp
    next
      case (Inr n)
      with m have "committed w2 = (committed w)\<lparr>branch_operations :=
          update_where ?p (simulated_row pay fault now (db_now w)) (branch_operations (committed w))\<rparr>"
        by (simp add: pool_exec_Inr Let_def)
      with c show ?thesis
        by (intro disjI2 exI [of _ ?p] exI [of _ pay] exI [of _ fault] exI [of _ "db_now w"]) simp
    qed
  qed
  then consider "committed w1 = committed w" | p pay fault t where "committed w1 = (committed w)\<lparr>branch_operations :=
      update_where p (simulated_row pay fault now t) (branch_operations (committed w))\<rparr>" by blast
  then show ?thesis
  proof cases
    case 2
    have "List.find (\<lambda>o1. bo_id o1 = oid) (update_where p (simulated_row pay fault now t) os) =
      map_option (\<lambda>o1. if p o1 then simulated_row pay fault now t o1 else o1) (List.find (\<lambda>o1. bo_id o1 = oid) os)" for os
    by (induction os) (simp_all add: simulated_row_def)
    then show ?thesis
      by (simp add: 2 purchase_of_def find_operation_def option.case_eq_if option.map_sel simulated_row_def)
  qed simp
qed

lemma quote_purchase:
  assumes "save_branch_quote ba_day i actor brand draft quote w = (Inr qt, w1)"
  shows "branch_operations (committed w1) = branch_operations (committed w)"
proof -
  obtain snap w2 qq w3 w4 row u where l: "lock_branch_billing ba_day actor brand ((ticked w)\<lparr>working := committed w\<rparr>) = (Inr snap, w2)"
    and q: "(quote snap, w2) = (Inr qq, w3)" and ins: "insert_quote row w3 = (Inr u, w4)" and w1: "w1 = (ticked w4)\<lparr>committed := working w4, working := working w4\<rparr>"
    using assms unfolding save_branch_quote_def Let_def in_tx_Inr seq_Inr commit_Inr ret_Inr by auto
  have "working w2 = committed w" using reads_onlyD [OF reads_only_lock_branch_billing l] by simp
  with q ins w1 show ?thesis by (auto simp: insert_quote_def tx_run Let_def split: if_splits)
qed

lemma refines_step:
  assumes "branch_inv d" and "branch_step ba_day ba_midnight d d1"
  shows "purchase_step\<^sup>=\<^sup>= (purchase_of d oid) (purchase_of d1 oid)"
  using assms(2)
proof cases
  case (quote_step i actor brand draft cfg now)
  from quote_step atomic_save_branch_quote show ?thesis
    by (rule step_of_atomic) (auto dest!: quote_purchase intro: purchase_of_cong)
next
  case (confirm_step i actor brand quote_id key sim base now)
  from confirm_step atomic_confirm_branch_quote show ?thesis
    by (rule step_of_atomic) (auto dest!: confirm_purchase)
next
  case (simulate_step brand i action now)
  then show ?thesis unfolding step_of_def by (auto dest!: simulate_purchase [where oid = oid])
next
  case (reconcile_step i provider url now)
  from reconcile_step atomic_reconcile_branch show ?thesis
  proof (rule step_of_atomic)
    fix w :: "'a billing_db_scheme world" and u w1
    assume w: "committed w = d" "committed w1 = d1" and run: "reconcile_branch ba_day i provider url now w = (Inr u, w1)"
    show ?thesis
    proof (rule reconcile_branch_Inr [OF run])
      show "branch_inv (committed w)" using assms(1) w by simp
      fix o1 q
      assume oq: "operation_with_quote i (committed w) = Some (o1, q)"
        and "committed w1 = committed w
        \<or> bo_status o1 = ''COMPLETED'' \<and> (\<exists>code t. committed w1 =
            op_update i (\<lambda>x. x\<lparr>bo_error := code, bo_next_attempt := t\<rparr>) (committed w))
        \<or> reconciled ba_day provider url now o1 q (committed w) (committed w1)"
      then show ?thesis unfolding w
        using reconciled_purchase [OF assms(1), of i o1 q ba_day provider url now d1 oid]
        by (elim disjE exE conjE) (simp_all add: purchase_of_same)
    qed
  qed simp
qed

text \<open>
  C13. Refinement: every operation on branch purchases (quoting, confirming, the simulator, a
  reconciliation with any answers of the provider), with any inputs and any database failures,
  moves every purchase along the abstract state machine or leaves it where it is.
\<close>

theorem branch_refines_purchase:
  assumes "branch_inv d" and "branch_step ba_day ba_midnight d d1"
  shows "purchase_step\<^sup>=\<^sup>= (purchase_of d oid) (purchase_of d1 oid)"
  using assms by (rule refines_step)

end
