(* ===== verification/BranchProperties.thy ===== *)
theory BranchProperties
  imports BranchPurchase
begin

text \<open>
  The properties of branch purchases: what a branch costs before it opens, what holds over every
  history, and when the provider is asked to give money back or to raise the amount.
\<close>

section \<open>Opening a branch\<close>

lemma saved_tables:
  "saved en v s d d1 \<Longrightarrow> sucursales d1 = sucursales d \<and> suscripciones d1 = suscripciones d"
  by (auto simp: saved_def)

lemma settles_tables:
  "settles en S d d1 \<Longrightarrow> sucursales d1 = sucursales d \<and> suscripciones d1 = suscripciones d"
  by (auto simp: settles_def saved_checkout_def dest!: saved_tables)

lemma find_raised:
  assumes "\<And>s. sb_marca (f s) = sb_marca s" and "find_suscripcion b d = Some s"
  shows "find_suscripcion b (d\<lparr>suscripciones := update_where (\<lambda>s. sb_marca s = b) f (suscripciones d)\<rparr>) = Some (f s)"
proof -
  have "List.find (\<lambda>s. sb_marca s = b) (update_where (\<lambda>s. sb_marca s = b) f ss) =
      map_option f (List.find (\<lambda>s. sb_marca s = b) ss)" for ss
    by (induction ss) (simp_all add: assms(1))
  with assms(2) show ?thesis by (simp add: find_suscripcion_def)
qed

lemma reconciled_opens:
  assumes inv: "branch_inv d" and oq: "operation_with_quote oid d = Some (o1, q)"
    and r: "reconciled ba_day provider url now o1 q d d1" and ch: "sucursales d1 \<noteq> sucursales d"
  obtains e v1 v2 s where "activated (env_of o1 q e url now) v1 d d1" "vars_ok (env_of o1 q e url now) v1 ''COMPLETED''"
    "plan_read (env_of o1 q e url now) provider v2" "find_suscripcion (bo_marca o1) d = Some s"
    "bq_snapshot q = snapshot_of ba_day s" "owner_role d (bo_actor o1) (bo_marca o1) = Some ''PROPIETARIO''"
    "billing_consistent (bq_snapshot q) (active_branches (bo_marca o1) d)"
  using r settles_tables ch unfolding reconciled_def by blast

lemma plan_read_confirmed:
  assumes "plan_read en (Some a) v"
  shows "\<exists>p. (an_current a = Inr p \<or> an_verified a = Inr p) \<and> ps_amount p = qt_new_monthly (en_quote en)
    \<and> ps_status p = ''authorized''"
  using assms by (auto simp: plan_read_def same_plan_def plan_confirmed_def)

lemma vars_ok_completed:
  assumes "vars_ok (env_of o1 q e url now) v ''COMPLETED''" and "qt_payment_required (bq_quote q)" "\<not> bo_simulation o1"
  shows "lv_payment_status v = ''approved'' \<and> lv_amount v = qt_amount (bq_quote q) \<and> lv_refunded v \<le> 0
    \<and> (\<exists>t. lv_approved v = Some t \<and> bq_created q \<le> t \<and> t < bq_expires q)"
  using assms by (auto simp: vars_ok_def paid_def approved_in_time_def env_of_def split: option.splits)

lemma activated_subscription:
  assumes inv: "branch_inv d" and q: "q \<in> set (branch_quotes d)" and a: "activated (env_of o1 q e url now) v d d1"
    and s: "find_suscripcion (bo_marca o1) d = Some s" "bq_snapshot q = snapshot_of ba_day s"
    and c: "billing_consistent (bq_snapshot q) (active_branches (bo_marca o1) d)"
    and f: "find_operation (bo_id o1) d = Some o1"
  obtains b t o2 where "sucursales d1 = sucursales d @ [branch_row b (bo_marca o1) (bq_draft q)]"
    "find_suscripcion (bo_marca o1) d1 = Some t" "sb_cantidad t = sb_cantidad s + 1"
    "sb_importe t = sb_precio s * (sb_cantidad s + 1)" "active_branches (bo_marca o1) d1 = sb_cantidad t"
    "find_operation (bo_id o1) d1 = Some o2" "bo_status o2 = ''COMPLETED''" "bo_branch o2 = Some b"
    "bo_simulation o2 = bo_simulation o1" "vars_of o2 = v\<lparr>lv_status := ''COMPLETED''\<rparr>"
proof -
  let ?en = "env_of o1 q e url now"
  have [simp]: "en_id ?en = bo_id o1" "en_brand ?en = bo_marca o1" "en_draft ?en = bq_draft q" "en_quote ?en = bq_quote q"
    by (simp_all add: env_of_def)
  obtain hs i code where d1: "d1 = op_update (bo_id o1) (\<lambda>o1. saved_row ?en v ''COMPLETED'' code (o1\<lparr>bo_branch := Some i\<rparr>))
       (d\<lparr>quantity_histories := hs, sucursales := sucursales d @ [branch_row i (bo_marca o1) (bq_draft q)],
          suscripciones := update_where (\<lambda>s. sb_marca s = bo_marca o1) (raise_subscription ?en) (suscripciones d)\<rparr>)" (is "_ = op_update _ ?f _")
    by (rule saved_activation [OF a]) simp
  have "find_suscripcion (bo_marca o1) d1 = Some (raise_subscription ?en s)"
    using find_raised [of "raise_subscription ?en", OF _ s(1)]
    by (simp add: d1 find_suscripcion_def raise_subscription_def)
  moreover have "sb_importe (raise_subscription ?en s) = sb_precio s * (sb_cantidad s + 1)"
  proof -
    have "quote_ok q" "subscription_ok s"
      using inv q s(1) by (auto simp: branch_inv_def find_suscripcion_def find_Some_iff)
    then show ?thesis using s(2)
      by (simp add: raise_subscription_def quote_ok_def subscription_ok_def snapshot_of_def distrib_left)
  qed
  moreover have "active_branches (bo_marca o1) d1 = sb_cantidad s + 1"
    using c s(2) by (simp add: active_branches_def d1 branch_row_def billing_consistent_def snapshot_of_def)
  moreover have "find_operation (bo_id o1) d1 = Some (?f o1)"
  proof -
    have "bo_id (?f x) = bo_id x" for x by (simp add: saved_row_def)
    with f show ?thesis unfolding d1 by (simp add: find_operation_update) (simp add: find_operation_def)
  qed
  ultimately show thesis
    using that [of i "raise_subscription ?en s" "?f o1"]
    by (simp add: d1 raise_subscription_def saved_row_def vars_of_def null_if_empty_def) 
qed

section \<open>What the provider is asked\<close>

text \<open>
  The condition on every request of a run that started from the variables \<open>v\<close>: the amount of the
  subscription is raised only by an eligible run that finds the change recorded, and lowered only
  back to the old amount; a checkout is for the quoted amount; money is asked back only for a
  paid operation whose plan is the old one.
\<close>

definition request_ok :: "reconcile_env \<Rightarrow> branch_answers \<Rightarrow> bool \<Rightarrow> string \<times> string \<times> int \<Rightarrow> bool" where
  "request_ok en a started c \<longleftrightarrow>
     (fst c = ''RefundBranchPayment'' \<longrightarrow> qt_payment_required (en_quote en) \<and>
        (\<not> started \<or> (\<exists>s. an_restore_current a = Inr s \<and> ps_amount s = bs_monthly (en_snapshot en))
         \<or> (\<exists>s. an_restore_check a = Inr s \<and> restored en s))) \<and>
     (fst c = ''UpdateSubscriptionAmount'' \<longrightarrow> started \<and>
        (snd (snd c) = qt_new_monthly (en_quote en) \<and> en_eligible en \<or> snd (snd c) = bs_monthly (en_snapshot en))) \<and>
     (fst c = ''CreateBranchCheckout'' \<longrightarrow> snd (snd c) = qt_amount (en_quote en) \<and> en_eligible en
        \<and> en_now en < en_expiry en)"

definition kept_started :: "bool \<Rightarrow> reconcile_vars option \<Rightarrow> bool" where
  "kept_started b r \<longleftrightarrow> (\<forall>v. r = Some v \<longrightarrow> lv_plan_started v = b)"

lemma kept_started_simps [simp]: "kept_started b None" "kept_started b (Some v) \<longleftrightarrow> lv_plan_started v = b"
  by (auto simp: kept_started_def)

lemma calls_save [request_rules]:
  assumes "Q None"
  shows "calls_ok P Q (save en v s code)"
proof -
  have "silent (save en v s code)"
    unfolding save_def update_operation_def by (intro call_rules)
  then show ?thesis by (rule calls_ok_silent) (use assms save_Inr(1) in blast)
qed

lemma calls_and_then [request_rules]:
  assumes "calls_ok P (kept_started b) m" and "\<And>v. lv_plan_started v = b \<Longrightarrow> calls_ok P (kept_started b) (f v)"
  shows "calls_ok P (kept_started b) (and_then m f)"
  unfolding and_then_def
  by (rule calls_ok_seq [OF assms(1)]) (auto split: option.split intro: assms(2) request_rules)

lemma calls_failure [request_rules]:
  "(p = Rejected \<Longrightarrow> calls_ok P Q m) \<Longrightarrow> (p = Uncertain \<Longrightarrow> calls_ok P Q n) \<Longrightarrow>
   calls_ok P Q (case p of Rejected \<Rightarrow> m | Uncertain \<Rightarrow> n)"
  by (cases p) simp_all

lemma silent_update_operation [call_rules]: "silent (update_operation oid f)"
  unfolding update_operation_def by (rule call_rules)

lemma calls_payment:
  "calls_ok (request_ok en a b) (kept_started b) (payment_segment en (Some a) v)"
  if "lv_plan_started v = b"
  unfolding payment_segment_def find_payment_def create_checkout_def judge_payment_def Let_def
  by (intro request_rules call_rules) (simp_all add: request_ok_def take_payment_def that)

lemma calls_activate: "calls_ok P (kept_started b) (activate en v)"
  unfolding activate_def insert_quantity_history_def insert_sucursal_def
  by (intro request_rules call_rules) simp

lemma calls_plan:
  "calls_ok (request_ok en a b) (kept_started b) (plan_segment en (Some a) v)"
  if "lv_plan_started v = b"
  unfolding plan_segment_def provider_plan_def change_plan_def
  by (simp only: option.case, intro request_rules call_rules calls_activate) (simp_all add: request_ok_def that [symmetric])

lemma calls_restore:
  assumes "lv_plan_started v = b"
  shows "calls_ok (request_ok en a b)
    (\<lambda>r. \<forall>v1. r = Some v1 \<longrightarrow> v1 = v \<and> (b \<and> ps_amount s = qt_new_monthly (en_quote en) \<longrightarrow>
       (\<exists>c. an_restore_check a = Inr c \<and> restored en c)))
    (restore_plan en a v s)"
  unfolding restore_plan_def
  by (intro request_rules call_rules) (use assms in \<open>auto simp: request_ok_def\<close>)

lemma calls_refund_payment [request_rules]:
  assumes "lv_plan_started v = b"
    and "\<not> b \<or> (\<exists>s. an_restore_current a = Inr s \<and> ps_amount s = bs_monthly (en_snapshot en))
         \<or> (\<exists>s. an_restore_check a = Inr s \<and> restored en s)"
  shows "calls_ok (request_ok en a b) (kept_started b) (refund_payment en a v)"
  unfolding refund_payment_def
  by (intro request_rules call_rules) (use assms in \<open>auto simp: request_ok_def\<close>)

lemma calls_refund:
  assumes "lv_plan_started v = b"
  shows "calls_ok (request_ok en a b) (kept_started b) (refund_segment en (Some a) v)"
proof -
  have rest: "calls_ok (request_ok en a b) (kept_started b)
      (and_then (restore_plan en a v s) (\<lambda>v.
             if plan_unknown en v s then save en v (lv_status v) ''PLAN_RESTORE_REVIEW_REQUIRED''
             else refund_payment en a v))"
    if "an_restore_current a = Inr s" for s
    unfolding and_then_def
  proof (rule calls_ok_seq [OF calls_restore [OF assms]])
    fix r
    assume q: "\<forall>v1. r = Some v1 \<longrightarrow> v1 = v \<and> (b \<and> ps_amount s = qt_new_monthly (en_quote en) \<longrightarrow>
       (\<exists>c. an_restore_check a = Inr c \<and> restored en c))"
    show "calls_ok (request_ok en a b) (kept_started b) (case r of None \<Rightarrow> ret None | Some v \<Rightarrow>
        if plan_unknown en v s then save en v (lv_status v) ''PLAN_RESTORE_REVIEW_REQUIRED'' else refund_payment en a v)"
    proof (intro request_rules)
      fix v1
      assume "r = Some v1" "\<not> plan_unknown en v1 s"
      with q assms that show "lv_plan_started v1 = b"
        "\<not> b \<or> (\<exists>s. an_restore_current a = Inr s \<and> ps_amount s = bs_monthly (en_snapshot en))
         \<or> (\<exists>s. an_restore_check a = Inr s \<and> restored en s)"
        by (auto simp: plan_unknown_def)
    qed simp_all
  qed
  have t: "calls_ok (request_ok en a b) (kept_started b) (throw (GoError x))" for x by (rule request_rules)
  show ?thesis
    unfolding refund_segment_def provider_refund_def
    by (simp only: option.case, intro request_rules call_rules rest) (simp_all add: request_ok_def)
qed

lemma calls_segments:
  "calls_ok (request_ok en a (lv_plan_started v)) (kept_started (lv_plan_started v)) (reconcile_segments en (Some a) v)"
  unfolding reconcile_segments_def
  by (intro calls_and_then calls_payment calls_plan calls_refund) simp_all

definition asked :: "'d world \<Rightarrow> 'd world \<Rightarrow> (string \<times> string \<times> int) set" where
  "asked w w1 = set (drop (length (sent w)) (sent w1))"

lemma asked_none: "sent w1 = sent w \<Longrightarrow> asked w w1 = {}"
  by (simp add: asked_def)

lemma asked_calls_ok:
  assumes "calls_ok P Q m" and "m w = (r, w1)" and "c \<in> asked w w1"
  shows "P c"
proof -
  obtain cs where "sent w1 = sent w @ cs" "\<forall>c \<in> set cs. P c" using calls_okD(1) [OF assms(1,2)] by blast
  with assms(3) show ?thesis by (simp add: asked_def)
qed

lemma reconcile_open_asks:
  assumes run: "reconcile_open ba_day o1 q (Some a) url now w = (r, w1)" and c: "c \<in> asked w w1"
  obtains e where "request_ok (env_of o1 q e url now) a (bo_plan_started o1) c"
    "e \<Longrightarrow> \<exists>s. find_suscripcion (bo_marca o1) (working w) = Some s \<and> bq_snapshot q = snapshot_of ba_day s
       \<and> owner_role (working w) (bo_actor o1) (bo_marca o1) = Some ''PROPIETARIO''
       \<and> billing_consistent (bq_snapshot q) (active_branches (bo_marca o1) (working w))"
proof -
  obtain valid w2 where l: "lock_branch_billing ba_day (bo_actor o1) (bo_marca o1) w = (valid, w2)"
    by (cases "lock_branch_billing ba_day (bo_actor o1) (bo_marca o1) w")
  have o: "outcome_of (lock_branch_billing ba_day (bo_actor o1) (bo_marca o1)) w = (Inr valid, w2)"
    using l by (simp add: outcome_of_def)
  have step: "seq (outcome_of (lock_branch_billing ba_day (bo_actor o1) (bo_marca o1))) f w = f valid w2"
    for f :: "_ \<Rightarrow> ('a billing_db_scheme, unit) tx"
    using o by (simp add: seq_def)
  note w2 = reads_onlyD [OF reads_only_lock_branch_billing l]
  let ?e = "valid = Inr (bq_snapshot q)"
  let ?seg = "reconcile_segments (env_of o1 q ?e url now) (Some a) (vars_of o1)"
  from run have run2: "seq (case valid of
            Inl e \<Rightarrow> reject_if (e \<notin> {Repo ErrForbidden, Repo ErrQuoteChanged, Repo ErrSubscriptionChangeRequired}) e
          | Inr _ \<Rightarrow> ret ()) (\<lambda>_.
     seq (reject_if (bo_simulation o1 \<and> Some a \<noteq> None \<or> \<not> bo_simulation o1 \<and> Some a = None) (Repo ErrInvalidRequest)) (\<lambda>_.
     seq ?seg (\<lambda>_. ret ()))) w2 = (r, w1)"
    unfolding reconcile_open_def step .
  have r1: "reads_only (case valid of
            Inl e \<Rightarrow> reject_if (e \<notin> {Repo ErrForbidden, Repo ErrQuoteChanged, Repo ErrSubscriptionChangeRequired}) e
          | Inr _ \<Rightarrow> ret ())"
    by (cases valid) (simp_all add: reads_only_leaf)
  obtain w3 where w3: "sent w3 = sent w" and seg: "seq ?seg (\<lambda>_. ret ()) w3 = (r, w1)"
  proof -
    from r1 run2 show thesis
    proof (cases rule: seq_reading)
      case (stopped e)
      with c w2 show thesis by (simp add: asked_none)
    next
      case (goes_on u w4)
      from reads_only_leaf(3) goes_on(4) show thesis
      proof (cases rule: seq_reading)
        case (stopped e)
        with c w2 goes_on show thesis by (simp add: asked_none)
      next
        case (goes_on u' w5)
        with that [of w5] w2 \<open>sent w4 = sent w2\<close> show thesis by simp
      qed
    qed
  qed
  obtain r5 w5 where s: "?seg w3 = (r5, w5)" by (cases "?seg w3")
  with seg have "sent w1 = sent w5" by (auto simp: seq_def ret_def split: sum.splits)
  with c w3 have "c \<in> asked w3 w5" by (simp add: asked_def)
  from asked_calls_ok [OF calls_segments s this] have "request_ok (env_of o1 q ?e url now) a (bo_plan_started o1) c"
    by (simp add: vars_of_def)
  moreover have "\<exists>s. find_suscripcion (bo_marca o1) (working w) = Some s \<and> bq_snapshot q = snapshot_of ba_day s
       \<and> owner_role (working w) (bo_actor o1) (bo_marca o1) = Some ''PROPIETARIO''
       \<and> billing_consistent (bq_snapshot q) (active_branches (bo_marca o1) (working w))" if ?e
  proof -
    from l that have "lock_branch_billing ba_day (bo_actor o1) (bo_marca o1) w = (Inr (bq_snapshot q), w2)" by simp
    then show ?thesis by (rule lock_branch_billing_Inr) auto
  qed
  ultimately show thesis using that by blast
qed

text \<open>The six reading steps before the body of the transaction.\<close>

lemma reconcile_branch_run:
  assumes run: "reconcile_branch ba_day oid provider url now w = (r, w1)"
    and oq: "operation_with_quote oid (committed w) = Some (o1, q)"
  obtains (stopped) "sent w1 = sent w"
    | (body) w2 w3 where "working w2 = committed w" "committed w2 = committed w" "sent w2 = sent w"
      "(if bo_status o1 = ''COMPLETED'' \<and> \<not> bo_simulation o1 \<and> coalesce (bo_payment_id o1) '''' \<noteq> '''' then
       (case provider of
          None \<Rightarrow> throw (Repo ErrInvalidRequest)
        | Some a \<Rightarrow> refund_duplicates o1 a now)
     else if \<not> reconcilable o1 then ret ()
     else reconcile_open ba_day o1 q provider url now) w2 = (r, w3)" "sent w1 = sent w3"
proof -
  note q = reads_only_query and l = reads_only_leaf(4)
  show thesis
    using run unfolding reconcile_branch_def
  proof (cases rule: in_tx_run)
    case (stopped e)
    then show thesis using that(1) by simp
  next
    case (body w3)
    let ?w = "(ticked w)\<lparr>working := committed w\<rparr>"
    from q body(1) show thesis
    proof (cases rule: seq_reading)
      case (stopped e)
      with body(2) that(1) show thesis by simp
    next
      case 1: (goes_on a1 v1)
      from l 1(4) show thesis
      proof (cases rule: seq_reading)
        case (stopped e)
        with body(2) 1 that(1) show thesis by simp
      next
        case 2: (goes_on a2 v2)
        from q 2(4) show thesis
        proof (cases rule: seq_reading)
          case (stopped e)
          with body(2) 1 2 that(1) show thesis by simp
        next
          case 3: (goes_on a3 v3)
          from q 3(4) show thesis
          proof (cases rule: seq_reading)
            case (stopped e)
            with body(2) 1 2 3 that(1) show thesis by simp
          next
            case 4: (goes_on a4 v4)
            from q 4(4) show thesis
            proof (cases rule: seq_reading)
              case (stopped e)
              with body(2) 1 2 3 4 that(1) show thesis by simp
            next
              case 5: (goes_on a5 v5)
              have w5: "working v5 = committed w" "committed v5 = committed w" "sent v5 = sent w"
                using 1(2,3) 2(2,3) 3(2,3) 4(2,3) 5(2,3) by (simp_all add: quiet_def)
              have "a5 = Some (o1, q)"
                using 5(1) w5 oq 1(2) 2(2) 3(2) 4(2) by (simp add: query_Inr quiet_def)
              with 5(4) have "(if bo_status o1 = ''COMPLETED'' \<and> \<not> bo_simulation o1 \<and> coalesce (bo_payment_id o1) '''' \<noteq> '''' then
       (case provider of
          None \<Rightarrow> throw (Repo ErrInvalidRequest)
        | Some a \<Rightarrow> refund_duplicates o1 a now)
     else if \<not> reconcilable o1 then ret ()
     else reconcile_open ba_day o1 q provider url now) v5 = (r, w3)"
                by (simp add: seq_def require_def ret_def)
              from that(2) [OF w5 this body(2)] show thesis .
            qed
          qed
        qed
      qed
    qed
  qed
qed

section \<open>A small database\<close>

definition demo_subscription :: suscripcion where
  "demo_subscription =
     \<lparr>sb_marca = 10, sb_proveedor = ''MERCADO_PAGO'', sb_proveedor_id = Some ''PA'', sb_referencia = ''R'',
      sb_estado = ''AUTHORIZED'', sb_moneda = ''ARS'', sb_precio = 3000, sb_cantidad = 1, sb_importe = 3000,
      sb_checkout = None, sb_proximo = Some 100, sb_created = 0, sb_updated = 0, sb_trial_months = 0,
      sb_trial_ends = None, sb_rejected = False, sb_call_started = None, sb_full = None,
      sb_transitioned = None, sb_program = None, sb_price_from = None\<rparr>"

definition demo_quote :: quote_row where
  "demo_quote =
     \<lparr>bq_id = ''q1'', bq_marca = 10, bq_actor = 1,
      bq_quote = \<lparr>qt_id = ''q1'', qt_expires = 600, qt_currency = ''ARS'', qt_current_monthly = 3000,
         qt_new_monthly = 6000, qt_amount = 1929, qt_unit = 3000, qt_remaining = 18, qt_days = 28,
         qt_start = '''', qt_end = '''', qt_payment_required = True, qt_simulation = False\<rparr>,
      bq_draft = \<lparr>dr_nombre = ''Norte'', dr_direccion = None, dr_localidad = None, dr_provincia = None,
         dr_codigo_postal = None, dr_latitud = None, dr_longitud = None\<rparr>,
      bq_snapshot = snapshot_of (\<lambda>_. 1) demo_subscription, bq_expires = 600, bq_created = 0\<rparr>"

definition demo_operation :: "string \<Rightarrow> bool \<Rightarrow> operation_row" where
  "demo_operation status started =
     \<lparr>bo_id = ''op'', bo_marca = 10, bo_actor = 1, bo_quote = ''q1'', bo_key = ''k'', bo_status = status,
      bo_branch = None, bo_checkout = None, bo_checkout_id = None, bo_payment_id = Some ''pay'',
      bo_payment_status = ''approved'', bo_amount = 1929, bo_refunded = 0, bo_plan_amount = None,
      bo_approved = Some 5, bo_plan_started = started, bo_simulation = False, bo_fault = '''',
      bo_attempts = 1, bo_error = '''', bo_next_attempt = 0, bo_created = 0, bo_updated = 0\<rparr>"

definition demo_billing :: "operation_row list \<Rightarrow> billing_db" where
  "demo_billing ops =
     \<lparr>usuarios =
        [\<lparr>u_id = 1, u_email = ''op@x'', u_nombre = ''Ana'', u_apellido = None, u_tipo = ''PERSONAL_MARCA'',
          u_activo = True, u_deleted_at = None, u_qr_hash = None, u_codigo = None, u_verified_at = None\<rparr>],
      marcas = [\<lparr>m_id = 10, m_nombre = ''Cafe'', m_activo = True, m_deleted_at = None, m_zona = ''UTC'',
          m_trial_started = None, m_trial_estimated = False\<rparr>],
      membresias = [\<lparr>mm_id = 1, mm_usuario = 1, mm_marca = 10, mm_rol = ''PROPIETARIO'', mm_activo = True, mm_version = 1\<rparr>],
      membresias_sucursales = [],
      sucursales = [\<lparr>s_id = 20, s_marca = 10, s_nombre = ''Centro'', s_activo = True, s_deleted_at = None,
          s_direccion = None, s_localidad = None, s_provincia = None, s_codigo_postal = None,
          s_latitud = None, s_longitud = None, s_principal = True, s_version = 1\<rparr>],
      programas = [\<lparr>p_id = 30, p_marca = 10, p_tipo = ''PUNTOS'', p_activo = True, p_created = 0\<rparr>],
      suscripciones = [demo_subscription], branch_quotes = [demo_quote], branch_operations = ops,
      quantity_histories = [], attributions = [], charges = [], rewards = [], allocations = [], prices = [],
      price_changes = [], price_items = [], price_histories = [], eventos = [], backoffice_users = [],
      backoffice_audit = [], confirmation_emails = [], campaigns = [], referral_codes = []\<rparr>"

definition demo_plan :: "int \<Rightarrow> provider_subscription" where
  "demo_plan amount = \<lparr>ps_id = ''PA'', ps_status = ''authorized'', ps_reference = ''R'', ps_checkout = '''',
     ps_amount = amount, ps_next = Some 100\<rparr>"

definition demo_answers :: "int \<Rightarrow> branch_answers" where
  "demo_answers amount =
     \<lparr>an_duplicates = Inr (), an_find = Inr None, an_checkout = (\<lambda>_. Inl Uncertain),
      an_current = Inr (demo_plan amount), an_update = Inr (), an_verified = Inr (demo_plan 6000),
      an_restore_current = Inr (demo_plan amount), an_restore_update = Inr (),
      an_restore_check = Inr (demo_plan 3000), an_refund = Inl Uncertain, an_refund_find = Inr None\<rparr>"

definition demo_branch_world :: "operation_row list \<Rightarrow> billing_db world" where
  "demo_branch_world ops = \<lparr>committed = demo_billing ops, working = demo_billing ops, faults = [], app_now = 0,
     db_now = 10, sent = []\<rparr>"

definition demo_branch_run :: "string \<Rightarrow> bool \<Rightarrow> int \<Rightarrow> billing_db world" where
  "demo_branch_run status started amount = snd (reconcile_branch (\<lambda>_. 1) ''op'' (Some (demo_answers amount)) '''' 10
     (demo_branch_world [demo_operation status started]))"

lemma demo_branch_inv:
  "status \<in> {''PLAN_UPDATING'', ''REFUND_PENDING''} \<Longrightarrow> branch_inv (committed (demo_branch_world [demo_operation status b]))"
  by (auto simp: branch_inv_def operations_distinct_def one_active_def rows_ok_def branches_ok_def demo_branch_world_def
      demo_billing_def demo_operation_def demo_quote_def row_ok_def vars_ok_def paid_def approved_in_time_def env_of_def
      vars_of_def quote_ok_def subscription_ok_def demo_subscription_def snapshot_of_def in_int64_def)

lemma demo_opens:
  "map s_nombre (sucursales (committed (demo_branch_run ''PLAN_UPDATING'' True 6000))) = [''Centro'', ''Norte'']"
  by code_simp

lemma demo_refund_asked:
  "sent (demo_branch_run ''REFUND_PENDING'' False 3000) =
     [(''GetSubscription'', ''PA'', 0), (''RefundBranchPayment'', ''pay'', 0)]"
  by code_simp

section \<open>The properties\<close>

lemma run_opens:
  assumes "branch_inv (committed w)" and "reconcile_branch ba_day oid provider url now w = (r, w1)"
    and "sucursales (committed w1) \<noteq> sucursales (committed w)"
  obtains o1 q where "operation_with_quote oid (committed w) = Some (o1, q)"
    "reconciled ba_day provider url now o1 q (committed w) (committed w1)"
proof (cases r)
  case (Inl e)
  with assms(2,3) atomicD [OF atomic_reconcile_branch] show thesis by fastforce
next
  case (Inr u)
  with assms(2) have run: "reconcile_branch ba_day oid provider url now w = (Inr u, w1)" by simp
  show thesis
    by (rule reconcile_branch_Inr [OF run assms(1)]) (use assms(3) that in auto)
qed

text \<open>
  C14. A branch opens only when it should, and then exactly one does: whenever a reconciliation
  (with any answers of the provider, ending in success or in an error) changes the branches, the
  actor still owns the brand, the subscription is exactly the one that was quoted, the new branch
  is the quoted draft, the subscription counts one more branch at the unit price and its count is
  that of the active branches; the operation is completed and refers to the branch; if it had a
  price and is not simulated, the quoted amount was approved within the quote's life and not
  refunded; and the provider, if asked, confirmed the new monthly amount in this run.
\<close>

theorem branch_opens_only_when_paid:
  assumes "branch_inv (committed w)" and "reconcile_branch ba_day oid provider url now w = (r, w1)"
    and "sucursales (committed w1) \<noteq> sucursales (committed w)"
  shows "\<exists>o1 q s t b o2. operation_with_quote oid (committed w) = Some (o1, q)
    \<and> owner_role (committed w) (bo_actor o1) (bo_marca o1) = Some ''PROPIETARIO''
    \<and> find_suscripcion (bo_marca o1) (committed w) = Some s \<and> bq_snapshot q = snapshot_of ba_day s
    \<and> sucursales (committed w1) = sucursales (committed w) @ [branch_row b (bo_marca o1) (bq_draft q)]
    \<and> find_suscripcion (bo_marca o1) (committed w1) = Some t \<and> sb_cantidad t = sb_cantidad s + 1
    \<and> sb_importe t = sb_precio s * (sb_cantidad s + 1) \<and> active_branches (bo_marca o1) (committed w1) = sb_cantidad t
    \<and> find_operation oid (committed w1) = Some o2 \<and> bo_status o2 = ''COMPLETED'' \<and> bo_branch o2 = Some b
    \<and> (qt_payment_required (bq_quote q) \<and> \<not> bo_simulation o2 \<longrightarrow>
         bo_payment_status o2 = ''approved'' \<and> bo_amount o2 = qt_amount (bq_quote q) \<and> bo_refunded o2 \<le> 0
         \<and> (\<exists>x. bo_approved o2 = Some x \<and> bq_created q \<le> x \<and> x < bq_expires q))
    \<and> (\<forall>a. provider = Some a \<longrightarrow> (\<exists>p. (an_current a = Inr p \<or> an_verified a = Inr p)
         \<and> ps_amount p = qt_new_monthly (bq_quote q) \<and> ps_status p = ''authorized''))"
proof -
  obtain o1 q where oq: "operation_with_quote oid (committed w) = Some (o1, q)"
    and rec: "reconciled ba_day provider url now o1 q (committed w) (committed w1)"
    by (rule run_opens [OF assms])
  note D = operation_with_quoteD [OF oq]
  obtain e v1 v2 s where a: "activated (env_of o1 q e url now) v1 (committed w) (committed w1)"
    and ok: "vars_ok (env_of o1 q e url now) v1 ''COMPLETED''" and p: "plan_read (env_of o1 q e url now) provider v2"
    and s: "find_suscripcion (bo_marca o1) (committed w) = Some s" "bq_snapshot q = snapshot_of ba_day s"
    and own: "owner_role (committed w) (bo_actor o1) (bo_marca o1) = Some ''PROPIETARIO''"
    and c: "billing_consistent (bq_snapshot q) (active_branches (bo_marca o1) (committed w))"
    by (rule reconciled_opens [OF assms(1) oq rec assms(3)])
  have f: "find_operation (bo_id o1) (committed w) = Some o1" using find_with_quote [OF assms(1) oq] D(4) by simp
  obtain b t o2 where r: "sucursales (committed w1) = sucursales (committed w) @ [branch_row b (bo_marca o1) (bq_draft q)]"
    "find_suscripcion (bo_marca o1) (committed w1) = Some t" "sb_cantidad t = sb_cantidad s + 1"
    "sb_importe t = sb_precio s * (sb_cantidad s + 1)" "active_branches (bo_marca o1) (committed w1) = sb_cantidad t"
    "find_operation (bo_id o1) (committed w1) = Some o2" "bo_status o2 = ''COMPLETED''" "bo_branch o2 = Some b"
    and o2: "bo_simulation o2 = bo_simulation o1" "vars_of o2 = v1\<lparr>lv_status := ''COMPLETED''\<rparr>"
    by (rule activated_subscription [OF assms(1) D(2) a s c f])
  have v: "bo_payment_status o2 = lv_payment_status v1" "bo_amount o2 = lv_amount v1" "bo_refunded o2 = lv_refunded v1"
    "bo_approved o2 = lv_approved v1"
    using arg_cong [OF o2(2), of lv_payment_status] arg_cong [OF o2(2), of lv_amount]
      arg_cong [OF o2(2), of lv_refunded] arg_cong [OF o2(2), of lv_approved] by (simp_all add: vars_of_def)
  have "qt_payment_required (bq_quote q) \<and> \<not> bo_simulation o2 \<longrightarrow>
         bo_payment_status o2 = ''approved'' \<and> bo_amount o2 = qt_amount (bq_quote q) \<and> bo_refunded o2 \<le> 0
         \<and> (\<exists>x. bo_approved o2 = Some x \<and> bq_created q \<le> x \<and> x < bq_expires q)"
    unfolding v o2(1) using vars_ok_completed [OF ok] by blast
  moreover have "\<forall>a. provider = Some a \<longrightarrow> (\<exists>p. (an_current a = Inr p \<or> an_verified a = Inr p)
         \<and> ps_amount p = qt_new_monthly (bq_quote q) \<and> ps_status p = ''authorized'')"
  proof (intro allI impI)
    fix a
    assume "provider = Some a"
    with p have "plan_read (env_of o1 q e url now) (Some a) v2" by simp
    from plan_read_confirmed [OF this] show "\<exists>p. (an_current a = Inr p \<or> an_verified a = Inr p)
         \<and> ps_amount p = qt_new_monthly (bq_quote q) \<and> ps_status p = ''authorized''" by (simp add: env_of_def)
  qed
  moreover have "find_operation oid (committed w1) = Some o2" using r(6) D(4) by simp
  ultimately show ?thesis
    by (intro exI [of _ o1] exI [of _ q] exI [of _ s] exI [of _ t] exI [of _ b] exI [of _ o2])
      (intro conjI oq own s r(1-5) r(7,8); assumption)
qed

text \<open>
  C15. Requests to the provider: a reconciliation, however it ends, asks for a refund only for an
  operation with a price and only when no change of the plan was recorded or the old monthly
  amount was read in this run; it changes the recurring amount only when the change was recorded
  before this run, and only to the quoted amount, with the quoted subscription unchanged, or back
  to the old one; it asks for a checkout only for the quoted amount while the quote lives.
\<close>

theorem branch_requests_are_safe:
  assumes "reconcile_branch ba_day oid (Some a) url now w = (r, w1)"
    and "operation_with_quote oid (committed w) = Some (o1, q)" and "c \<in> asked w w1"
  shows "(fst c = ''RefundBranchPayment'' \<longrightarrow> qt_payment_required (bq_quote q) \<and>
      (\<not> bo_plan_started o1 \<or> (\<exists>p. an_restore_current a = Inr p \<and> ps_amount p = bs_monthly (bq_snapshot q))
       \<or> (\<exists>p. an_restore_check a = Inr p \<and> ps_amount p = bs_monthly (bq_snapshot q)))) \<and>
    (fst c = ''UpdateSubscriptionAmount'' \<longrightarrow> bo_plan_started o1 \<and>
      (snd (snd c) = bs_monthly (bq_snapshot q) \<or> snd (snd c) = qt_new_monthly (bq_quote q) \<and>
        (\<exists>s. find_suscripcion (bo_marca o1) (committed w) = Some s \<and> bq_snapshot q = snapshot_of ba_day s))) \<and>
    (fst c = ''CreateBranchCheckout'' \<longrightarrow> snd (snd c) = qt_amount (bq_quote q) \<and> now < bq_expires q)"
  using assms(1,2)
proof (cases rule: reconcile_branch_run)
  case stopped
  with assms(3) show ?thesis by (simp add: asked_none)
next
  case (body w2 w3)
  have c3: "c \<in> asked w2 w3" using assms(3) body by (simp add: asked_def)
  consider "bo_status o1 = ''COMPLETED''" "refund_duplicates o1 a now w2 = (r, w3)" | "ret () w2 = (r, w3)"
    | "reconcile_open ba_day o1 q (Some a) url now w2 = (r, w3)"
    using body(4) by (auto split: if_splits)
  then show ?thesis
  proof cases
    case 1
    have "calls_ok (\<lambda>c. fst c = ''ReconcileBranchDuplicatePayments'') (\<lambda>_. True) (refund_duplicates o1 a now)"
      unfolding refund_duplicates_def Let_def
      by (intro request_rules call_rules calls_ok_quiet) simp_all
    from asked_calls_ok [OF this 1(2) c3] show ?thesis by simp
  next
    case 2
    with c3 show ?thesis by (simp add: ret_def asked_def)
  next
    case 3
    from 3 c3 show ?thesis
    proof (rule reconcile_open_asks)
      fix e
      assume "request_ok (env_of o1 q e url now) a (bo_plan_started o1) c"
        and "e \<Longrightarrow> \<exists>s. find_suscripcion (bo_marca o1) (working w2) = Some s \<and> bq_snapshot q = snapshot_of ba_day s
       \<and> owner_role (working w2) (bo_actor o1) (bo_marca o1) = Some ''PROPIETARIO''
       \<and> billing_consistent (bq_snapshot q) (active_branches (bo_marca o1) (working w2))"
      then show ?thesis using body(1) unfolding request_ok_def restored_def by (auto simp: env_of_def)
    qed
  qed
qed

text \<open>
  C16. Histories: after any sequence of quotes, confirmations, simulator actions and
  reconciliations, with any inputs, answers and failures, a brand has at most one purchase in
  progress; a purchase has a branch exactly when it is completed, no branch belongs to two
  purchases, and every subscription costs its unit price times its branches.
\<close>

theorem branch_history_invariant:
  assumes "branch_inv d0" and "(branch_step ba_day ba_midnight)\<^sup>*\<^sup>* d0 d"
    and "o1 \<in> set (branch_operations d)" "o2 \<in> set (branch_operations d)"
  shows "(active_operation o1 \<and> active_operation o2 \<and> bo_marca o1 = bo_marca o2 \<longrightarrow> o1 = o2)
    \<and> (bo_status o1 = ''COMPLETED'' \<longleftrightarrow> bo_branch o1 \<noteq> None)
    \<and> (bo_branch o1 \<noteq> None \<and> bo_branch o1 = bo_branch o2 \<longrightarrow> o1 = o2)
    \<and> (\<forall>s \<in> set (suscripciones d). sb_importe s = sb_precio s * sb_cantidad s \<and> in_int64 (sb_importe s))"
proof -
  have inv: "branch_inv d" by (rule branch_steps_inv [OF assms(2,1)])
  then have one: "one_active d" and br: "branches_ok d" and s: "\<forall>s \<in> set (suscripciones d). subscription_ok s"
    by (simp_all add: branch_inv_def)
  show ?thesis
    using one_activeD [OF one assms(3,4)] branches_okD(1) [OF br assms(3)] branches_okD(3) [OF br assms(3,4)]
      unique_operation [OF inv assms(3,4)] s unfolding subscription_ok_def by blast
qed

text \<open>
  A purchase that is completed, refunded or rejected stays so, whatever happens later.
\<close>

lemma branch_purchase_final:
  assumes "branch_inv d" and "(branch_step ba_day ba_midnight)\<^sup>*\<^sup>* d d1"
    and "purchase_of d oid \<in> {Completed, Refunded, Payment_rejected}"
  shows "purchase_of d1 oid = purchase_of d oid"
proof -
  have "branch_inv d1 \<and> purchase_step\<^sup>*\<^sup>* (purchase_of d oid) (purchase_of d1 oid)"
    using assms(2,1)
  proof (induction rule: rtranclp_induct)
    case (step x y)
    then have inv: "branch_inv x" and reach: "purchase_step\<^sup>*\<^sup>* (purchase_of d oid) (purchase_of x oid)" by simp_all
    have "purchase_step\<^sup>=\<^sup>= (purchase_of x oid) (purchase_of y oid)" by (rule refines_step [OF inv step(2)])
    with reach have "purchase_step\<^sup>*\<^sup>* (purchase_of d oid) (purchase_of y oid)" by (auto intro: rtranclp.rtrancl_into_rtrancl)
    with branch_step_inv [OF step(2) inv] show ?case by simp
  qed simp
  with purchase_final assms(3) show ?thesis by blast
qed

section \<open>The properties on the small database\<close>

lemma demo_branch_run_eq:
  "reconcile_branch (\<lambda>_. 1) ''op'' (Some (demo_answers n)) '''' 10 (demo_branch_world [demo_operation st b]) =
     (fst (reconcile_branch (\<lambda>_. 1) ''op'' (Some (demo_answers n)) '''' 10 (demo_branch_world [demo_operation st b])), demo_branch_run st b n)"
  by (simp add: demo_branch_run_def)

lemma demo_branch_step:
  "branch_step (\<lambda>_. 1) mid (committed (demo_branch_world [demo_operation st b])) (committed (demo_branch_run st b n))"
  by (rule branch_step.reconcile_step) (auto simp: step_of_def intro: demo_branch_run_eq)

lemma demo_opened_tables:
  "map bo_status (branch_operations (committed (demo_branch_run ''PLAN_UPDATING'' True 6000))) = [''COMPLETED'']"
  "purchase_of (committed (demo_branch_run ''PLAN_UPDATING'' True 6000)) ''op'' = Completed"
  "sucursales (committed (demo_branch_run ''PLAN_UPDATING'' True 6000)) \<noteq> sucursales (committed (demo_branch_world [demo_operation ''PLAN_UPDATING'' True]))"
proof -
  show "map bo_status (branch_operations (committed (demo_branch_run ''PLAN_UPDATING'' True 6000))) = [''COMPLETED'']" by code_simp
  show "purchase_of (committed (demo_branch_run ''PLAN_UPDATING'' True 6000)) ''op'' = Completed" by code_simp
  have "length (map s_nombre (sucursales (committed (demo_branch_run ''PLAN_UPDATING'' True 6000)))) = 2"
    unfolding demo_opens by simp
  then show "sucursales (committed (demo_branch_run ''PLAN_UPDATING'' True 6000)) \<noteq> sucursales (committed (demo_branch_world [demo_operation ''PLAN_UPDATING'' True]))"
    by (auto simp: demo_branch_world_def demo_billing_def)
qed

lemma one_branch_step: "branch_step a b d d1 \<Longrightarrow> (branch_step a b)\<^sup>*\<^sup>* d d1"
  by (rule r_into_rtranclp)

theorem branch_refines_purchase_witness:
  "purchase_step\<^sup>=\<^sup>= (purchase_of (committed (demo_branch_world [demo_operation ''PLAN_UPDATING'' True])) ''op'') Completed"
proof -
  have inv: "branch_inv (committed (demo_branch_world [demo_operation ''PLAN_UPDATING'' True]))"
    by (rule demo_branch_inv) simp
  from branch_refines_purchase [OF inv demo_branch_step [where mid = "\<lambda>t. t" and n = 6000], where oid = "''op''"] show ?thesis
    by (simp add: demo_opened_tables)
qed

theorem branch_opens_only_when_paid_witness:
  "\<exists>o2 t. find_operation ''op'' (committed (demo_branch_run ''PLAN_UPDATING'' True 6000)) = Some o2 \<and> bo_status o2 = ''COMPLETED''
     \<and> find_suscripcion 10 (committed (demo_branch_run ''PLAN_UPDATING'' True 6000)) = Some t
     \<and> sb_importe t = sb_precio demo_subscription * 2"
proof -
  have oq: "operation_with_quote ''op'' (committed (demo_branch_world [demo_operation ''PLAN_UPDATING'' True])) =
      Some (demo_operation ''PLAN_UPDATING'' True, demo_quote)"
    and s: "find_suscripcion 10 (committed (demo_branch_world [demo_operation ''PLAN_UPDATING'' True])) = Some demo_subscription"
    by (simp_all add: operation_with_quote_def find_suscripcion_def demo_branch_world_def demo_billing_def demo_operation_def
        demo_quote_def demo_subscription_def first_row_def)
  have b: "bo_marca (demo_operation ''PLAN_UPDATING'' True) = 10" "sb_cantidad demo_subscription = 1"
    by (simp_all add: demo_operation_def demo_subscription_def)
  show ?thesis
    using branch_opens_only_when_paid [OF demo_branch_inv demo_branch_run_eq demo_opened_tables(3)] oq s b by auto
qed

theorem branch_requests_are_safe_witness:
  "(''RefundBranchPayment'', ''pay'', 0) \<in> asked (demo_branch_world [demo_operation ''REFUND_PENDING'' False]) (demo_branch_run ''REFUND_PENDING'' False 3000)
   \<and> qt_payment_required (bq_quote demo_quote)"
proof -
  have oq: "operation_with_quote ''op'' (committed (demo_branch_world [demo_operation ''REFUND_PENDING'' False])) =
      Some (demo_operation ''REFUND_PENDING'' False, demo_quote)"
    by (simp add: operation_with_quote_def demo_branch_world_def demo_billing_def demo_operation_def demo_quote_def first_row_def)
  have c: "(''RefundBranchPayment'', ''pay'', 0) \<in> asked (demo_branch_world [demo_operation ''REFUND_PENDING'' False]) (demo_branch_run ''REFUND_PENDING'' False 3000)"
    by (simp add: asked_def demo_refund_asked) (simp add: demo_branch_world_def)
  from branch_requests_are_safe [OF demo_branch_run_eq oq c] c show ?thesis by simp
qed

theorem branch_history_invariant_witness:
  "bo_branch (hd (branch_operations (committed (demo_branch_run ''PLAN_UPDATING'' True 6000)))) \<noteq> None"
proof -
  let ?d = "committed (demo_branch_run ''PLAN_UPDATING'' True 6000)"
  have ne: "branch_operations ?d \<noteq> []" "bo_status (hd (branch_operations ?d)) = ''COMPLETED''"
    using demo_opened_tables(1) by (auto simp: map_eq_Cons_conv)
  then have m: "hd (branch_operations ?d) \<in> set (branch_operations ?d)" by simp
  have steps: "(branch_step (\<lambda>_. 1) (\<lambda>t. t))\<^sup>*\<^sup>* (committed (demo_branch_world [demo_operation ''PLAN_UPDATING'' True])) ?d"
    by (rule one_branch_step [OF demo_branch_step])
  from branch_history_invariant [OF demo_branch_inv steps m m] ne(2) show ?thesis by simp
qed

lemma branch_purchase_final_example:
  "purchase_of (committed (snd (reconcile_branch (\<lambda>_. 1) ''op'' (Some (demo_answers 6000)) '''' 20
     (demo_branch_run ''PLAN_UPDATING'' True 6000)))) ''op'' = Completed"
proof -
  let ?d = "committed (demo_branch_run ''PLAN_UPDATING'' True 6000)"
  let ?d2 = "committed (snd (reconcile_branch (\<lambda>_. 1) ''op'' (Some (demo_answers 6000)) '''' 20 (demo_branch_run ''PLAN_UPDATING'' True 6000)))"
  have inv: "branch_inv ?d" by (rule branch_step_inv [OF demo_branch_step [where mid = "\<lambda>t. t"] demo_branch_inv]) simp
  have "branch_step (\<lambda>_. 1) (\<lambda>t. t) ?d ?d2"
    by (rule branch_step.reconcile_step) (auto simp: step_of_def intro: surjective_pairing)
  from branch_purchase_final [OF inv one_branch_step [OF this], of "''op''"]
  show ?thesis by (simp add: demo_opened_tables)
qed

section \<open>Confirming once\<close>

lemma confirmed_stays:
  assumes "confirm_branch_quote ba_day i actor brand quote_id key sim base now w = (Inr out, w1)"
  obtains o1 where "List.find (\<lambda>o1. bo_marca o1 = brand \<and> bo_key o1 = key) (branch_operations (committed w1)) = Some o1"
    "bo_id o1 = op_id out" "bo_quote o1 = quote_id"
  using assms
proof (cases rule: confirm_branch_quote_Inr)
  case (replay o1)
  with that show thesis by simp
next
  case (fresh row q t)
  have app: "List.find p (os @ [x]) = (case List.find p os of Some y \<Rightarrow> Some y | None \<Rightarrow> if p x then Some x else None)"
    for p and os :: "operation_row list" and x
    by (induction os) simp_all
  have "List.find (\<lambda>o1. bo_marca o1 = brand \<and> bo_key o1 = key) (branch_operations (committed w1)) = Some (stamped t row)"
    using fresh(1,11) by (simp add: app) (simp add: fresh(2) stamped_def new_operation_def)
  with that show thesis by (simp add: fresh(2,9) stamped_def new_operation_def)
qed

text \<open>
  A quote is confirmed once per key: a second confirmation with the same key, whatever else
  it says, either fails or gives the operation of the first without changing the database, and it
  can only succeed for the same quote.
\<close>

lemma branch_confirm_once:
  assumes "confirm_branch_quote ba_day i actor brand quote_id key sim base now w = (Inr out, w1)"
    and "confirm_branch_quote ba_day i2 actor2 brand quote_id2 key sim2 base2 now2 w2 = (Inr out2, w3)"
    and "committed w2 = committed w1"
  shows "op_id out2 = op_id out \<and> quote_id2 = quote_id \<and> committed w3 = committed w1"
proof -
  obtain o1 where o1: "List.find (\<lambda>o1. bo_marca o1 = brand \<and> bo_key o1 = key) (branch_operations (committed w1)) = Some o1"
    "bo_id o1 = op_id out" "bo_quote o1 = quote_id"
    by (rule confirmed_stays [OF assms(1)])
  from assms(2) show ?thesis
  proof (cases rule: confirm_branch_quote_Inr)
    case (replay o2)
    with o1 assms(3) show ?thesis by auto
  next
    case (fresh row q t)
    with o1 assms(3) show ?thesis by simp
  qed
qed

definition demo_confirm_branch :: "string \<Rightarrow> billing_db world \<Rightarrow> (err + operation_view) \<times> billing_db world" where
  "demo_confirm_branch i = confirm_branch_quote (\<lambda>_. 1) i 1 10 ''q1'' ''kk'' False '''' 5"

lemma branch_confirm_once_example:
  "op_id (projr (fst (demo_confirm_branch ''n2'' (snd (demo_confirm_branch ''n1'' (demo_branch_world [])))))) = ''n1''"
proof -
  let ?w1 = "snd (demo_confirm_branch ''n1'' (demo_branch_world []))"
  have f1: "\<not> isl (fst (demo_confirm_branch ''n1'' (demo_branch_world [])))"
    and id: "op_id (projr (fst (demo_confirm_branch ''n1'' (demo_branch_world [])))) = ''n1''"
    and f2: "\<not> isl (fst (demo_confirm_branch ''n2'' ?w1))" by code_simp+
  obtain a w1 where r1: "demo_confirm_branch ''n1'' (demo_branch_world []) = (Inr a, w1)"
    using f1 by (cases "demo_confirm_branch ''n1'' (demo_branch_world [])"; cases "fst (demo_confirm_branch ''n1'' (demo_branch_world []))") auto
  obtain b w3 where r2: "demo_confirm_branch ''n2'' ?w1 = (Inr b, w3)"
    using f2 by (cases "demo_confirm_branch ''n2'' ?w1"; cases "fst (demo_confirm_branch ''n2'' ?w1)") auto
  have "op_id b = op_id a"
    using branch_confirm_once [OF r1 [unfolded demo_confirm_branch_def] r2 [unfolded demo_confirm_branch_def]] r1
    by (simp add: demo_confirm_branch_def)
  with id r1 r2 show ?thesis by simp
qed

end
