(* ===== verification/Subscriptions.thy ===== *)
theory Subscriptions
  imports Billing Contracts
begin

text \<open>
  The subscription of a brand (\<^verbatim>\<open>internal/repository/subscription.go\<close>): the reservation of a
  checkout, the single call to the provider it allows, the notifications of the provider, and
  the ledger of paid invoices with the referral rewards they earn.
\<close>

section \<open>Prices and the reservation\<close>

definition referral_checkout_price :: "int \<Rightarrow> int \<Rightarrow> ('a billing_db_scheme, int \<times> int) tx" where
  "referral_checkout_price brand full =
     seq (query (\<lambda>w. map_option (\<lambda>a. (ra_discount_bps a, ra_discount_charges a, paid_count brand (committed w)))
            (find_attribution brand (committed w)))) (\<lambda>row.
     case row of
       None \<Rightarrow> ret (full, 0)
     | Some (bps, limit, paid) \<Rightarrow>
         let remaining = max (limit - paid) 0 in
         if remaining = 0 then ret (full, 0) else ret (discounted_minor full bps, remaining))"

text \<open>The subscription as the reservation scans it: the columns it does not read stay zero.\<close>

definition scanned :: "suscripcion \<Rightarrow> bool \<Rightarrow> int \<Rightarrow> int \<Rightarrow> subscription" where
  "scanned s trial full remaining =
     \<lparr>su_brand = sb_marca s, su_provider = sb_proveedor s, su_status = sb_estado s, su_currency = sb_moneda s,
      su_unit = sb_precio s, su_branches = sb_cantidad s, su_monthly = sb_importe s, su_full_monthly = full,
      su_remaining = remaining, su_checkout = coalesce (sb_checkout s) '''', su_next = sb_proximo s,
      su_configured = False, su_trial_available = trial, su_trial_started = None,
      su_trial_ends = sb_trial_ends s, su_rejected = False, su_trial_estimated = False, su_updated = sb_updated s\<rparr>"

definition reserved_record :: "suscripcion \<Rightarrow> string \<Rightarrow> bool \<Rightarrow> int \<Rightarrow> int \<Rightarrow> subscription_record" where
  "reserved_record s provider_id trial full remaining =
     \<lparr>sr_subscription = scanned s trial full remaining, sr_provider_id = provider_id,
      sr_reference = sb_referencia s, sr_trial_months = sb_trial_months s\<rparr>"

text \<open>The row the upsert leaves: of an existing row the provider, the currency and the creation stay.\<close>

record reservation =
  rv_external :: string
  rv_unit :: int
  rv_branches :: int
  rv_months :: int
  rv_full :: int
  rv_program :: string
  rv_trial_end :: "int option"

definition upserted :: "int \<Rightarrow> reservation \<Rightarrow> int \<Rightarrow> suscripcion option \<Rightarrow> suscripcion" where
  "upserted brand v t old =
     \<lparr>sb_marca = brand, sb_proveedor = (case old of None \<Rightarrow> ''MERCADO_PAGO'' | Some s \<Rightarrow> sb_proveedor s),
      sb_proveedor_id = None, sb_referencia = rv_external v, sb_estado = ''CREATING'',
      sb_moneda = (case old of None \<Rightarrow> ''ARS'' | Some s \<Rightarrow> sb_moneda s), sb_precio = rv_unit v,
      sb_cantidad = rv_branches v, sb_importe = rv_unit v * rv_branches v, sb_checkout = None, sb_proximo = None,
      sb_created = (case old of None \<Rightarrow> t | Some s \<Rightarrow> sb_created s), sb_updated = t,
      sb_trial_months = rv_months v, sb_trial_ends = rv_trial_end v, sb_rejected = False,
      sb_call_started = None, sb_full = Some (rv_full v), sb_transitioned = None,
      sb_program = Some (rv_program v), sb_price_from = Some t\<rparr>"

definition upsert_suscripcion :: "int \<Rightarrow> reservation \<Rightarrow> ('a billing_db_scheme, suscripcion) tx" where
  "upsert_suscripcion brand v = exec_ret (\<lambda>w. let d = working w; old = find_suscripcion brand d;
       s = upserted brand v (db_now w) old in
     if list_ex (\<lambda>x. sb_marca x \<noteq> brand \<and> sb_referencia x = rv_external v) (suscripciones d)
     then Inl (PgErr (Unique_violation ''suscripciones_marca_referencia_externa_key''))
     else Inr (s, d\<lparr>suscripciones := (case old of None \<Rightarrow> suscripciones d @ [s]
       | Some _ \<Rightarrow> update_where (\<lambda>x. sb_marca x = brand) (\<lambda>_. s) (suscripciones d))\<rparr>))"

definition catalogue_price :: "string \<Rightarrow> int \<Rightarrow> int \<Rightarrow> err + int" where
  "catalogue_price program stamp_price points_price =
     (if program = ''PUNTOS'' then Inr points_price
      else if program = ''SELLOS'' then Inr stamp_price else Inl (Repo ErrInvalidRequest))"

definition reserve_row ::
  "billing_context \<Rightarrow> int \<Rightarrow> string \<Rightarrow> int \<Rightarrow> int \<Rightarrow> int \<Rightarrow> string \<Rightarrow>
   ('a billing_db_scheme, billing_context \<times> subscription_record) tx" where
  "reserve_row billing brand external unit full remaining provider_id =
     seq now_app (\<lambda>now.
     let trial = map_option trial_end (bc_trial_started billing);
         months = (case trial of None \<Rightarrow> 0 | Some t \<Rightarrow> if now < t then 1 else 0) in
     seq (upsert_suscripcion brand \<lparr>rv_external = external, rv_unit = unit, rv_branches = bc_branches billing,
            rv_months = months, rv_full = full, rv_program = bc_program billing, rv_trial_end = trial\<rparr>) (\<lambda>s.
     seq commit (\<lambda>_.
     ret (billing, reserved_record s provider_id (0 < sb_trial_months s) (mul64 full (bc_branches billing)) remaining))))"

definition reserve_priced ::
  "billing_context \<Rightarrow> int \<Rightarrow> string \<Rightarrow> int \<Rightarrow> int \<Rightarrow> int \<Rightarrow>
   ('a billing_db_scheme, billing_context \<times> subscription_record) tx" where
  "reserve_priced billing brand external unit full remaining =
     seq (query (\<lambda>w. find_suscripcion brand (working w))) (\<lambda>row.
     case row of
       None \<Rightarrow> reserve_row billing brand external unit full remaining ''''
     | Some s \<Rightarrow>
         let stored_full = mul64 (coalesce (sb_full s) (sb_precio s)) (sb_cantidad s);
             pid = coalesce (sb_proveedor_id s) '''' in
         if sb_estado s = ''CREATING'' then
           seq commit (\<lambda>_. ret (billing, reserved_record s pid (0 < sb_trial_months s) stored_full remaining))
         else if sb_referencia s = external then
           seq commit (\<lambda>_. ret (billing, reserved_record s pid False stored_full remaining))
         else if sb_estado s \<noteq> ''CANCELLED'' then throw (Repo ErrConflict)
         else reserve_row billing brand external unit full remaining pid)"

definition reserve_at_price ::
  "billing_context \<Rightarrow> int \<Rightarrow> string \<Rightarrow> int \<Rightarrow> ('a billing_db_scheme, billing_context \<times> subscription_record) tx" where
  "reserve_at_price billing brand external price =
     seq (query (\<lambda>w. List.find (\<lambda>p. pr_program p = bc_program billing) (prices (working w)))) (\<lambda>configured.
     let full = (case configured of None \<Rightarrow> price | Some p \<Rightarrow> pr_unit p) in
     seq (reject_if (quo64 max_subscription_amount (bc_branches billing) < full) (Repo ErrInvalidRequest)) (\<lambda>_.
     seq (query (\<lambda>w. (find_attribution brand (working w), paid_count brand (working w)))) (\<lambda>(att, paid).
     let limit = (case att of None \<Rightarrow> 0 | Some a \<Rightarrow> ra_discount_charges a);
         paid = (case att of None \<Rightarrow> 0 | Some _ \<Rightarrow> paid);
         unit = (case att of None \<Rightarrow> full
                 | Some a \<Rightarrow> if paid < limit then discounted_minor full (ra_discount_bps a) else full) in
     seq (reject_if (unit < 1) (Repo ErrInvalidRequest)) (\<lambda>_.
     reserve_priced billing brand external unit full (max (limit - paid) 0)))))"

definition reserve_subscription_checkout ::
  "int \<Rightarrow> int \<Rightarrow> string \<Rightarrow> int \<Rightarrow> int \<Rightarrow> ('a billing_db_scheme, billing_context \<times> subscription_record) tx" where
  "reserve_subscription_checkout actor brand external stamp_price points_price = in_tx (
     seq (query (\<lambda>w. first_row (billing_context_rows (working w) actor brand))) (\<lambda>row.
     seq (require row (Repo ErrForbidden)) (\<lambda>billing.
     seq (reject_if (bc_branches billing < 1) (Repo ErrInvalidRequest)) (\<lambda>_.
     seq (\<lambda>w. (catalogue_price (bc_program billing) stamp_price points_price, w)) (\<lambda>price.
     seq (reject_if (price < 1) (Repo ErrInvalidRequest)) (\<lambda>_.
     reserve_at_price billing brand external price))))))"

section \<open>The single provider call\<close>

definition claim_subscription_provider_call :: "int \<Rightarrow> string \<Rightarrow> ('a billing_db_scheme, bool) tx" where
  "claim_subscription_provider_call brand external = pool_exec (\<lambda>w. let d = working w;
       p = (\<lambda>s. sb_marca s = brand \<and> sb_referencia s = external \<and> sb_estado s = ''CREATING'' \<and> sb_call_started s = None) in
     Inr (rows_affected p (suscripciones d) = 1,
       d\<lparr>suscripciones := update_where p (\<lambda>s. s\<lparr>sb_call_started := Some (db_now w), sb_updated := db_now w\<rparr>) (suscripciones d)\<rparr>))"

text \<open>What the statements with \<open>RETURNING\<close> scan.\<close>

definition returned :: "suscripcion \<Rightarrow> subscription" where
  "returned s = (scanned s False 0 0)\<lparr>su_trial_ends := None\<rparr>"

definition checkout_saved :: "provider_subscription \<Rightarrow> string \<Rightarrow> int \<Rightarrow> suscripcion \<Rightarrow> suscripcion" where
  "checkout_saved pv status t s =
     s\<lparr>sb_proveedor_id := Some (ps_id pv), sb_estado := status,
       sb_checkout := (if ps_checkout pv = '''' then None else Some (ps_checkout pv)),
       sb_proximo := ps_next pv, sb_updated := t\<rparr>"

definition save_subscription_checkout :: "int \<Rightarrow> provider_subscription \<Rightarrow> ('a billing_db_scheme, subscription) tx" where
  "save_subscription_checkout brand pv =
     seq (require (provider_status (ps_status pv)) (Repo ErrInvalidRequest)) (\<lambda>status.
     seq (catch (pool_exec (\<lambda>w. let d = working w;
            p = (\<lambda>s. sb_marca s = brand \<and> sb_referencia s = ps_reference pv \<and> sb_estado s = ''CREATING'' \<and> sb_call_started s \<noteq> None);
            f = checkout_saved pv status (db_now w) in
          case filter p (suscripciones d) of
            [] \<Rightarrow> Inr (None, d)
          | s # _ \<Rightarrow>
              if list_ex (\<lambda>x. sb_marca x \<noteq> brand \<and> sb_proveedor_id x = Some (ps_id pv)) (suscripciones d)
              then Inl (PgErr (Unique_violation ''suscripciones_marca_proveedor_suscripcion_id_key''))
              else Inr (Some (f s), d\<lparr>suscripciones := update_where p f (suscripciones d)\<rparr>)))
        (\<lambda>e. throw (normalize e))) (\<lambda>row.
     seq (require row (Repo ErrConflict)) (\<lambda>s. ret (returned s))))"

definition reject_subscription_checkout :: "int \<Rightarrow> string \<Rightarrow> ('a billing_db_scheme, unit) tx" where
  "reject_subscription_checkout brand reference = pool_exec (\<lambda>w. let d = working w in
     Inr ((), d\<lparr>suscripciones := update_where
       (\<lambda>s. sb_marca s = brand \<and> sb_referencia s = reference \<and> sb_estado s = ''CREATING'' \<and> sb_proveedor_id s = None)
       (\<lambda>s. s\<lparr>sb_estado := ''CANCELLED'', sb_rejected := True, sb_updated := db_now w\<rparr>) (suscripciones d)\<rparr>))"

section \<open>Notifications of the provider\<close>

definition record_event :: "string \<times> string \<times> string \<Rightarrow> ('a billing_db_scheme, bool) tx" where
  "record_event ev = exec_ret (\<lambda>w. let d = working w in
     if list_ex (\<lambda>x. fst x = fst ev) (eventos d) then Inr (False, d)
     else Inr (True, d\<lparr>eventos := eventos d @ [ev]\<rparr>))"

definition brand_open :: "'a core_db_scheme \<Rightarrow> int \<Rightarrow> bool" where
  "brand_open d brand = list_ex (\<lambda>m. m_id m = brand \<and> m_activo m \<and> m_deleted_at m = None) (marcas d)"

definition followed :: "bool \<Rightarrow> provider_subscription \<Rightarrow> string \<Rightarrow> int \<Rightarrow> suscripcion \<Rightarrow> suscripcion" where
  "followed live pv status t s =
     (let alive = sb_estado s \<noteq> ''CANCELLED'' \<and> live in
      s\<lparr>sb_estado := (if alive then status else ''CANCELLED''),
        sb_checkout := (if alive \<and> status \<noteq> ''CANCELLED''
          then (if ps_checkout pv = '''' then sb_checkout s else Some (ps_checkout pv)) else None),
        sb_proximo := (if alive \<and> status \<noteq> ''CANCELLED'' then ps_next pv else None), sb_updated := t\<rparr>)"

definition adopted :: "provider_subscription \<Rightarrow> suscripcion \<Rightarrow> suscripcion" where
  "adopted pv s = s\<lparr>sb_proveedor_id := Some (coalesce (sb_proveedor_id s) (ps_id pv))\<rparr>"

definition webhook_matches :: "'a core_db_scheme \<Rightarrow> provider_subscription \<Rightarrow> suscripcion \<Rightarrow> bool" where
  "webhook_matches d pv s \<longleftrightarrow> list_ex (\<lambda>m. m_id m = sb_marca s) (marcas d) \<and> sb_referencia s = ps_reference pv \<and>
     (sb_proveedor_id s = Some (ps_id pv) \<or> sb_estado s = ''CREATING'' \<and> sb_proveedor_id s = None \<and> sb_call_started s \<noteq> None)"

definition follow_webhook :: "provider_subscription \<Rightarrow> string \<Rightarrow> ('a billing_db_scheme, nat) tx" where
  "follow_webhook pv status = exec_ret (\<lambda>w. let d = working w; p = webhook_matches d pv;
       f = (\<lambda>s. followed (brand_open d (sb_marca s)) pv status (db_now w) (adopted pv s)) in
     if list_ex (\<lambda>s. p s \<and> list_ex (\<lambda>x. sb_marca x \<noteq> sb_marca s \<and> sb_proveedor_id x = Some (ps_id pv)) (suscripciones d))
          (suscripciones d)
     then Inl (PgErr (Unique_violation ''suscripciones_marca_proveedor_suscripcion_id_key''))
     else Inr (rows_affected p (suscripciones d), d\<lparr>suscripciones := update_where p f (suscripciones d)\<rparr>))"

text \<open>
  The confirmation mail of an authorised subscription. The payload is encrypted with the key of
  the outbox (a parameter: whether it has 32 bytes, and the outcome of the encryption).
\<close>

definition confirmation_rows :: "'a billing_db_scheme \<Rightarrow> int \<Rightarrow> (suscripcion \<times> usuario) list" where
  "confirmation_rows d brand =
     [(s, u). mm \<leftarrow> sort_key mm_id (membresias d), s \<leftarrow> suscripciones d, m \<leftarrow> marcas d, u \<leftarrow> usuarios d, p \<leftarrow> programas d,
        m_id m = sb_marca s \<and> mm_marca mm = m_id m \<and> mm_rol mm = ''PROPIETARIO'' \<and> mm_activo mm
        \<and> u_id u = mm_usuario mm \<and> p_marca p = m_id m \<and> p_activo p \<and> sb_marca s = brand
        \<and> sb_estado s = ''AUTHORIZED'' \<and> m_activo m \<and> m_deleted_at m = None \<and> u_activo u
        \<and> u_deleted_at u = None \<and> u_verified_at u \<noteq> None]"

definition insert_confirmation :: "confirmation_email \<Rightarrow> ('a billing_db_scheme, unit) tx" where
  "insert_confirmation ce = exec (\<lambda>w. let d = working w in
     if list_ex (\<lambda>x. ce_provider x = ce_provider ce) (confirmation_emails d) then d
     else d\<lparr>confirmation_emails := confirmation_emails d @ [ce]\<rparr>)"

definition enqueue_subscription_confirmation ::
  "bool \<Rightarrow> (err + unit) \<Rightarrow> string \<Rightarrow> int \<Rightarrow> ('a billing_db_scheme, unit) tx" where
  "enqueue_subscription_confirmation key_ok encrypted mail_id brand =
     seq (query (\<lambda>w. first_row (confirmation_rows (working w) brand))) (\<lambda>row.
     case row of
       None \<Rightarrow> ret ()
     | Some (s, u) \<Rightarrow>
         seq (reject_if (\<not> key_ok) (GoError ''email queue encryption is unavailable'')) (\<lambda>_.
         seq (\<lambda>w. (encrypted, w)) (\<lambda>_.
         seq now_app (\<lambda>now.
         insert_confirmation \<lparr>ce_id = mail_id, ce_owner = u_id u, ce_to = u_email u, ce_brand = sb_marca s,
           ce_provider = coalesce (sb_proveedor_id s) '''', ce_expires = now + 7 * day_ns\<rparr>))))"

definition record_subscription_webhook ::
  "bool \<Rightarrow> (err + unit) \<Rightarrow> string \<Rightarrow> string \<Rightarrow> string \<Rightarrow> provider_subscription \<Rightarrow> bool \<Rightarrow> ('a billing_db_scheme, unit) tx" where
  "record_subscription_webhook key_ok encrypted mail_id notification topic pv notify =
     seq (require (provider_status (ps_status pv)) (Repo ErrInvalidRequest)) (\<lambda>status. in_tx (
     seq (record_event (notification, ps_id pv, topic)) (\<lambda>fresh.
     if \<not> fresh then commit
     else
       seq (follow_webhook pv status) (\<lambda>n.
       seq (reject_if (n \<noteq> 1) (Repo ErrNotFound)) (\<lambda>_.
       seq (if notify \<and> status = ''AUTHORIZED'' then
              seq (query (\<lambda>w. map_option sb_marca (List.find (\<lambda>s. sb_proveedor_id s = Some (ps_id pv)) (suscripciones (working w))))) (\<lambda>brow.
              seq (require brow (GoError ''no rows in result set'')) (\<lambda>brand.
              enqueue_subscription_confirmation key_ok encrypted mail_id brand))
            else ret ()) (\<lambda>_.
       commit))))))"

definition update_subscription_from_provider :: "provider_subscription \<Rightarrow> ('a billing_db_scheme, subscription) tx" where
  "update_subscription_from_provider pv =
     seq (require (provider_status (ps_status pv)) (Repo ErrInvalidRequest)) (\<lambda>status.
     seq (pool_exec (\<lambda>w. let d = working w;
            p = (\<lambda>s. list_ex (\<lambda>m. m_id m = sb_marca s) (marcas d) \<and> sb_proveedor_id s = Some (ps_id pv)
                   \<and> sb_referencia s = ps_reference pv);
            f = (\<lambda>s. followed (brand_open d (sb_marca s)) pv status (db_now w) s) in
          Inr (first_row (map f (filter p (suscripciones d))), d\<lparr>suscripciones := update_where p f (suscripciones d)\<rparr>))) (\<lambda>row.
     seq (require row (Repo ErrNotFound)) (\<lambda>s. ret (returned s))))"

definition request_subscription_confirmation ::
  "bool \<Rightarrow> (err + unit) \<Rightarrow> string \<Rightarrow> int \<Rightarrow> int \<Rightarrow> ('a billing_db_scheme, unit) tx" where
  "request_subscription_confirmation key_ok encrypted mail_id actor brand = in_tx (
     seq (query (\<lambda>w. let d = working w in first_row
            [sb_estado s. s \<leftarrow> suscripciones d, m \<leftarrow> marcas d, mm \<leftarrow> membresias d, u \<leftarrow> usuarios d,
               m_id m = sb_marca s \<and> mm_marca mm = m_id m \<and> u_id u = mm_usuario mm \<and> sb_marca s = brand
               \<and> mm_usuario mm = actor \<and> mm_rol mm = ''PROPIETARIO'' \<and> mm_activo mm \<and> m_activo m
               \<and> m_deleted_at m = None \<and> u_activo u \<and> u_deleted_at u = None \<and> u_verified_at u \<noteq> None])) (\<lambda>row.
     seq (require row (Repo ErrNotFound)) (\<lambda>status.
     seq (reject_if (status \<noteq> ''AUTHORIZED'') (Repo ErrConflict)) (\<lambda>_.
     seq (enqueue_subscription_confirmation key_ok encrypted mail_id brand) (\<lambda>_.
     commit)))))"

definition subscription_brand_for_owner :: "int \<Rightarrow> string \<Rightarrow> ('a billing_db_scheme, int) tx" where
  "subscription_brand_for_owner actor provider_id =
     seq (query (\<lambda>w. let d = committed w in first_row
            [sb_marca s. s \<leftarrow> suscripciones d, m \<leftarrow> marcas d, mm \<leftarrow> membresias d, u \<leftarrow> usuarios d,
               m_id m = sb_marca s \<and> mm_marca mm = m_id m \<and> u_id u = mm_usuario mm
               \<and> sb_proveedor_id s = Some provider_id \<and> mm_usuario mm = actor \<and> mm_rol mm = ''PROPIETARIO''
               \<and> mm_activo mm \<and> m_activo m \<and> m_deleted_at m = None \<and> u_activo u \<and> u_deleted_at u = None])) (\<lambda>row.
     require row (Repo ErrNotFound))"

section \<open>Cancelling with the purchases of branches locked out\<close>

definition member_role :: "'a core_db_scheme \<Rightarrow> int \<Rightarrow> int \<Rightarrow> string option" where
  "member_role d actor brand = first_row
     [mm_rol mm. m \<leftarrow> marcas d, mm \<leftarrow> membresias d, mm_marca mm = m_id m \<and> m_id m = brand
        \<and> mm_usuario mm = actor \<and> mm_activo mm \<and> m_activo m \<and> m_deleted_at m = None]"

definition cancelled :: "int \<Rightarrow> suscripcion \<Rightarrow> suscripcion" where
  "cancelled t s = s\<lparr>sb_estado := ''CANCELLED'', sb_checkout := None, sb_proximo := None, sb_updated := t\<rparr>"

definition cancel_locked_body ::
  "int \<Rightarrow> int \<Rightarrow> (subscription_record \<Rightarrow> ('a billing_db_scheme, provider_subscription) tx) \<Rightarrow> ('a billing_db_scheme, unit) tx" where
  "cancel_locked_body actor brand cancel =
     seq (query (\<lambda>w. member_role (working w) actor brand)) (\<lambda>row.
     seq (require row (GoError ''no rows in result set'')) (\<lambda>role.
     seq (reject_if (role \<noteq> ''PROPIETARIO'') (Repo ErrForbidden)) (\<lambda>_.
     seq (exec working) (\<lambda>_.
     seq (require_no_pending_branch brand) (\<lambda>_.
     seq (subscription_record working brand) (\<lambda>r.
     seq (cancel r) (\<lambda>out.
     seq (exec (\<lambda>w. let d = working w in d\<lparr>suscripciones := update_where
            (\<lambda>s. sb_marca s = brand \<and> sb_proveedor_id s = Some (ps_id out) \<and> sb_referencia s = ps_reference out)
            (cancelled (db_now w)) (suscripciones d)\<rparr>)) (\<lambda>_.
     commit))))))))"

definition cancel_subscription_locked ::
  "int \<Rightarrow> int \<Rightarrow> (subscription_record \<Rightarrow> ('a billing_db_scheme, provider_subscription) tx) \<Rightarrow>
   ('a billing_db_scheme, subscription) tx" where
  "cancel_subscription_locked actor brand cancel = seq (in_tx (cancel_locked_body actor brand cancel)) (\<lambda>_.
     seq (subscription_record committed brand) (\<lambda>r. ret (sr_subscription r)))"

end
