(* ===== verification/ReferralLedger.thy ===== *)
theory ReferralLedger
  imports Subscriptions
begin

text \<open>
  The ledger of the paid invoices of a subscription and of the referral rewards they earn
  (\<^verbatim>\<open>RecordReferralInvoice\<close>, \<^verbatim>\<open>ReferralInvoiceForPayment\<close> and \<^verbatim>\<open>ReverseReferralPayment\<close> of
  \<^verbatim>\<open>internal/repository/subscription.go\<close>), and the credits finance allocates to a merchant
  (\<^verbatim>\<open>internal/repository/referral_credit.go\<close>).
\<close>

section \<open>Statements\<close>

definition payment_reversed :: "billing_payment \<Rightarrow> bool" where
  "payment_reversed p \<longleftrightarrow> py_status p = ''refunded'' \<or> py_status p = ''charged_back'' \<or> 0 < py_refunded p"

definition allocations_recovered :: "string \<Rightarrow> int \<Rightarrow> 'a billing_db_scheme \<Rightarrow> 'a billing_db_scheme" where
  "allocations_recovered payment t d =
     d\<lparr>allocations := update_where (\<lambda>a. al_payment a = payment \<and> al_status a = ''RECORDED'')
         (\<lambda>a. a\<lparr>al_status := ''RECOVERY_DUE'', al_recovery := Some t\<rparr>) (allocations d)\<rparr>"

definition recover_allocations :: "string \<Rightarrow> ('a billing_db_scheme, unit) tx" where
  "recover_allocations payment = exec (\<lambda>w. allocations_recovered payment (db_now w) (working w))"

definition charges_refunded :: "(charge \<Rightarrow> bool) \<Rightarrow> 'a billing_db_scheme \<Rightarrow> 'a billing_db_scheme" where
  "charges_refunded p d = d\<lparr>charges := update_where p (\<lambda>c. c\<lparr>rc_status := ''REFUNDED''\<rparr>) (charges d)\<rparr>"

definition refund_charges :: "(charge \<Rightarrow> bool) \<Rightarrow> ('a billing_db_scheme, unit) tx" where
  "refund_charges p = exec (\<lambda>w. charges_refunded p (working w))"

definition reward_reversed :: "int \<Rightarrow> reward \<Rightarrow> reward" where
  "reward_reversed t r =
     r\<lparr>rr_recovery := (if rr_status r = ''SETTLED'' then Some t else rr_recovery r),
       rr_status := (if rr_status r = ''SETTLED'' then ''RECOVERY_DUE'' else ''VOID'')\<rparr>"

definition rewards_reversed :: "string \<Rightarrow> int \<Rightarrow> 'a billing_db_scheme \<Rightarrow> 'a billing_db_scheme" where
  "rewards_reversed invoice t d =
     d\<lparr>rewards := update_where (\<lambda>r. rr_invoice r = invoice \<and> rr_status r \<in> {''PENDING'', ''SETTLED''})
         (reward_reversed t) (rewards d)\<rparr>"

definition reverse_rewards :: "string \<Rightarrow> ('a billing_db_scheme, unit) tx" where
  "reverse_rewards invoice = exec (\<lambda>w. rewards_reversed invoice (db_now w) (working w))"

text \<open>\<open>ORDER BY valid_until DESC LIMIT 1\<close>.\<close>

fun latest :: "('r \<Rightarrow> int) \<Rightarrow> 'r list \<Rightarrow> 'r option" where
  "latest k [] = None"
| "latest k (r # rs) = (case latest k rs of None \<Rightarrow> Some r | Some s \<Rightarrow> if k s \<le> k r then Some r else Some s)"

definition price_history_amount :: "'a billing_db_scheme \<Rightarrow> string \<Rightarrow> int \<Rightarrow> int \<Rightarrow> int option" where
  "price_history_amount d subscription t amount =
     map_option (\<lambda>h. ph_full h * ph_branches h)
       (latest ph_until (filter (\<lambda>h. ph_provider h = subscription \<and> ph_from h \<le> t \<and> t < ph_until h
          \<and> ph_unit h * ph_branches h = amount) (price_histories d)))"

definition quantity_history_amount :: "'a billing_db_scheme \<Rightarrow> string \<Rightarrow> int \<Rightarrow> int \<Rightarrow> int option" where
  "quantity_history_amount d subscription t amount =
     map_option (\<lambda>h. qh_full h * qh_branches h)
       (latest qh_until [h. h \<leftarrow> quantity_histories d, o1 \<leftarrow> branch_operations d, q \<leftarrow> branch_quotes d,
          bo_id o1 = qh_operation h \<and> bq_id q = bo_quote o1 \<and> bs_provider_id (bq_snapshot q) = subscription
          \<and> qh_from h \<le> t \<and> t < qh_until h \<and> qh_unit h * qh_branches h = amount])"

definition insert_charge :: "charge \<Rightarrow> ('a billing_db_scheme, unit) tx" where
  "insert_charge c = exec_ret (\<lambda>w. let d = working w in
     if rc_full_amount c < rc_amount c then Inl (PgErr (Other_pg ''23514''))
     else if list_ex (\<lambda>x. rc_invoice x = rc_invoice c) (charges d) then Inl (PgErr (Unique_violation ''referral_charges_pkey''))
     else if list_ex (\<lambda>x. rc_brand x = rc_brand c \<and> rc_index x = rc_index c) (charges d)
       then Inl (PgErr (Unique_violation ''referral_charges_brand_id_paid_index_key''))
     else if list_ex (\<lambda>x. rc_payment x = rc_payment c) (charges d)
       then Inl (PgErr (Unique_violation ''referral_charges_payment_uk''))
     else Inr ((), d\<lparr>charges := charges d @ [c]\<rparr>))"

definition insert_reward :: "reward \<Rightarrow> ('a billing_db_scheme, unit) tx" where
  "insert_reward r = exec_ret (\<lambda>w. let d = working w in
     if list_ex (\<lambda>x. rr_invoice x = rr_invoice r) (rewards d) then Inl (PgErr (Unique_violation ''referral_rewards_pkey''))
     else Inr ((), d\<lparr>rewards := rewards d @ [r]\<rparr>))"

section \<open>A paid invoice\<close>

text \<open>
  The amount the charge is worth at the full price, if the invoice carries the expected amount
  or one of the price that was in force when the provider created it.
\<close>

definition charged_full_amount ::
  "billing_invoice \<Rightarrow> int \<Rightarrow> int \<Rightarrow> ('a billing_db_scheme, int option) tx" where
  "charged_full_amount invoice expected full_amount =
     (if iv_amount invoice = expected then ret (Some full_amount)
      else case iv_created invoice of
        None \<Rightarrow> ret None
      | Some t \<Rightarrow>
          seq (query (\<lambda>w. price_history_amount (working w) (iv_subscription invoice) t (iv_amount invoice))) (\<lambda>h.
          case h of
            Some a \<Rightarrow> ret (Some a)
          | None \<Rightarrow> query (\<lambda>w. quantity_history_amount (working w) (iv_subscription invoice) t (iv_amount invoice))))"

definition price_advanced :: "int \<Rightarrow> int \<Rightarrow> int \<Rightarrow> int \<Rightarrow> 'a billing_db_scheme \<Rightarrow> 'a billing_db_scheme" where
  "price_advanced brand full amount t d =
     d\<lparr>suscripciones := update_where (\<lambda>s. sb_marca s = brand)
         (\<lambda>s. s\<lparr>sb_precio := full, sb_importe := amount, sb_transitioned := Some t, sb_updated := t\<rparr>) (suscripciones d)\<rparr>"

definition advance_to_full_price ::
  "(string \<Rightarrow> int \<Rightarrow> string \<Rightarrow> ('a billing_db_scheme, unit) tx) \<Rightarrow> string \<Rightarrow> int \<Rightarrow> int \<Rightarrow> int \<Rightarrow>
   ('a billing_db_scheme, unit) tx" where
  "advance_to_full_price advance subscription brand full branches =
     seq (require_no_pending_branch brand) (\<lambda>_.
     let amount = mul64 full branches in
     seq (advance subscription amount (''referral-full-price:'' @ subscription)) (\<lambda>_.
     exec (\<lambda>w. price_advanced brand full amount (db_now w) (working w))))"

definition expected_unit :: "attribution option \<Rightarrow> int \<Rightarrow> int \<Rightarrow> int" where
  "expected_unit att full index =
     (case att of None \<Rightarrow> full
      | Some a \<Rightarrow> if index \<le> ra_discount_charges a then discounted_minor full (ra_discount_bps a) else full)"

definition last_discounted :: "attribution option \<Rightarrow> int \<Rightarrow> int \<Rightarrow> bool" where
  "last_discounted att full index \<longleftrightarrow> (case att of None \<Rightarrow> False
     | Some a \<Rightarrow> index = ra_discount_charges a \<and> 0 < ra_discount_charges a \<and> expected_unit att full index \<noteq> full)"

definition reward_of :: "attribution option \<Rightarrow> billing_invoice \<Rightarrow> int \<Rightarrow> int \<Rightarrow> int \<Rightarrow> reward option" where
  "reward_of att invoice brand collected index =
     (case att of None \<Rightarrow> None
      | Some a \<Rightarrow>
          let amount = referral_reward_minor collected index (ra_reward_bps a) (ra_reward_charges a) in
          if 0 < amount then Some \<lparr>rr_invoice = iv_id invoice, rr_brand = brand, rr_source_kind = ra_source_kind a,
            rr_influencer = ra_influencer a, rr_source_brand = ra_source_brand a, rr_amount = amount,
            rr_status = ''PENDING'', rr_recovery = None\<rparr>
          else None)"

definition charge_invoice ::
  "(string \<Rightarrow> int \<Rightarrow> string \<Rightarrow> ('a billing_db_scheme, unit) tx) \<Rightarrow> string \<Rightarrow> billing_invoice \<Rightarrow> billing_payment \<Rightarrow>
   suscripcion \<Rightarrow> attribution option \<Rightarrow> ('a billing_db_scheme, unit) tx" where
  "charge_invoice advance notification invoice payment s att =
     (let brand = sb_marca s; full = coalesce (sb_full s) (sb_precio s); branches = sb_cantidad s in
     seq (query (\<lambda>w. paid_count brand (working w))) (\<lambda>paid.
     let index = paid + 1; expected = expected_unit att full index in
     seq (charged_full_amount invoice (mul64 expected branches) (mul64 full branches)) (\<lambda>valid.
     seq (require (if iv_amount invoice \<noteq> py_amount payment then None else valid)
            (GoError ''referral invoice amount does not match price snapshot'')) (\<lambda>full_amount.
     seq (if last_discounted att full index
          then advance_to_full_price advance (iv_subscription invoice) brand full branches else ret ()) (\<lambda>_.
     seq (catch (insert_charge \<lparr>rc_invoice = iv_id invoice, rc_brand = brand, rc_payment = py_id payment,
            rc_amount = py_amount payment, rc_full_amount = full_amount, rc_status = ''APPROVED'', rc_index = index\<rparr>)
          (\<lambda>e. throw (normalize e))) (\<lambda>_.
     seq (case reward_of att invoice brand (py_amount payment) index of
            None \<Rightarrow> ret () | Some r \<Rightarrow> insert_reward r) (\<lambda>_.
     seq (record_event (notification, iv_id invoice, ''subscription_authorized_payment'')) (\<lambda>_.
     commit))))))))"

definition settle_invoice ::
  "(string \<Rightarrow> int \<Rightarrow> string \<Rightarrow> ('a billing_db_scheme, unit) tx) \<Rightarrow> string \<Rightarrow> billing_invoice \<Rightarrow> billing_payment \<Rightarrow>
   suscripcion \<Rightarrow> attribution option \<Rightarrow> string option \<Rightarrow> ('a billing_db_scheme, unit) tx" where
  "settle_invoice advance notification invoice payment s att old =
     (case old of
       Some status \<Rightarrow>
         seq (if payment_reversed payment \<and> status = ''APPROVED''
              then seq (recover_allocations (py_id payment)) (\<lambda>_.
                   seq (refund_charges (\<lambda>c. rc_invoice c = iv_id invoice)) (\<lambda>_.
                   reverse_rewards (iv_id invoice)))
              else ret ()) (\<lambda>_. commit)
     | None \<Rightarrow>
         if payment_reversed payment \<or> py_status payment \<noteq> ''approved'' \<or> py_amount payment < 1 then commit
         else charge_invoice advance notification invoice payment s att)"

definition record_referral_invoice ::
  "(string \<Rightarrow> int \<Rightarrow> string \<Rightarrow> ('a billing_db_scheme, unit) tx) \<Rightarrow> string \<Rightarrow> billing_invoice \<Rightarrow> billing_payment \<Rightarrow>
   ('a billing_db_scheme, unit) tx" where
  "record_referral_invoice advance notification invoice payment = in_tx (
     seq (query (\<lambda>w. List.find (\<lambda>s. sb_proveedor_id s = Some (iv_subscription invoice) \<and> sb_moneda s = ''ARS'')
            (suscripciones (working w)))) (\<lambda>row.
     seq (require row (Repo ErrNotFound)) (\<lambda>s.
     seq (if payment_reversed payment then recover_allocations (py_id payment) else ret ()) (\<lambda>_.
     seq (query (\<lambda>w. find_attribution (sb_marca s) (working w))) (\<lambda>att.
     seq (query (\<lambda>w. map_option rc_status (List.find (\<lambda>c. rc_invoice c = iv_id invoice) (charges (working w))))) (\<lambda>old.
     settle_invoice advance notification invoice payment s att old))))))"

section \<open>Payments\<close>

definition referral_invoice_for_payment :: "string \<Rightarrow> ('a billing_db_scheme, string) tx" where
  "referral_invoice_for_payment payment =
     seq (query (\<lambda>w. let d = committed w in first_row
       ([rc_invoice c. c \<leftarrow> charges d, rc_payment c = payment] @ [al_invoice a. a \<leftarrow> allocations d, al_payment a = payment]))) (\<lambda>row.
     require row (Repo ErrNotFound))"

definition reverse_referral_payment :: "string \<Rightarrow> billing_payment \<Rightarrow> ('a billing_db_scheme, unit) tx" where
  "reverse_referral_payment notification payment =
     (if py_status payment \<noteq> ''refunded'' \<and> py_status payment \<noteq> ''charged_back'' \<and> py_refunded payment = 0 then ret ()
      else in_tx (
        seq (recover_allocations (py_id payment)) (\<lambda>_.
        seq (query (\<lambda>w. map_option rc_invoice (List.find (\<lambda>c. rc_payment c = py_id payment) (charges (working w))))) (\<lambda>row.
        case row of
          None \<Rightarrow> commit
        | Some invoice \<Rightarrow>
            seq (refund_charges (\<lambda>c. rc_invoice c = invoice \<and> rc_status c = ''APPROVED'')) (\<lambda>_.
            seq (reverse_rewards invoice) (\<lambda>_.
            seq (record_event (notification, py_id payment, ''payment'')) (\<lambda>_.
            commit)))))))"

section \<open>Merchant credit\<close>

definition accrued_credit :: "'a billing_db_scheme \<Rightarrow> int \<Rightarrow> int" where
  "accrued_credit d brand = sum_list (map rr_amount
     (filter (\<lambda>r. rr_source_kind r = ''MERCHANT'' \<and> rr_source_brand r = Some brand \<and> rr_status r = ''PENDING'') (rewards d)))"

definition allocated_to_brand :: "'a billing_db_scheme \<Rightarrow> int \<Rightarrow> int" where
  "allocated_to_brand d brand = sum_list (map al_amount (filter (\<lambda>a. al_brand a = brand) (allocations d)))"

definition allocated_of_payment :: "'a billing_db_scheme \<Rightarrow> string \<Rightarrow> int" where
  "allocated_of_payment d payment = sum_list (map al_amount (filter (\<lambda>a. al_payment a = payment) (allocations d)))"

definition list_credit_allocations :: "int \<Rightarrow> ('a billing_db_scheme, allocation list) tx" where
  "list_credit_allocations brand = query (\<lambda>w. take 200 (rev (sort_key al_id
     (filter (\<lambda>a. al_brand a = brand) (allocations (committed w))))))"

text \<open>The view \<open>referral_merchant_credit_balances\<close> has a row for a brand with a reward or an allocation.\<close>

definition credit_balance :: "'a billing_db_scheme \<Rightarrow> int \<Rightarrow> int option" where
  "credit_balance d brand =
     (if list_ex (\<lambda>r. rr_source_kind r = ''MERCHANT'' \<and> rr_source_brand r = Some brand) (rewards d)
         \<or> list_ex (\<lambda>a. al_brand a = brand) (allocations d)
      then Some (accrued_credit d brand - allocated_to_brand d brand) else None)"

definition merchant_credit_account :: "int \<Rightarrow> ('a billing_db_scheme, int \<times> allocation list) tx" where
  "merchant_credit_account brand =
     seq (query (\<lambda>w. coalesce (credit_balance (committed w) brand) 0)) (\<lambda>balance.
     seq (list_credit_allocations brand) (\<lambda>rows.
     ret (balance, rows)))"

definition credit_request_ok :: "int \<Rightarrow> int \<Rightarrow> int \<Rightarrow> billing_invoice \<Rightarrow> billing_payment \<Rightarrow> bool" where
  "credit_request_ok brand finance amount invoice payment \<longleftrightarrow>
     \<not> (brand < 1 \<or> finance < 1 \<or> amount < 1 \<or> iv_id invoice = '''' \<or> iv_subscription invoice = ''''
        \<or> iv_payment invoice \<noteq> py_id payment \<or> py_status payment \<noteq> ''approved'' \<or> py_refunded payment \<noteq> 0
        \<or> py_currency payment \<noteq> ''ARS'' \<or> py_amount payment \<noteq> iv_amount invoice)"

definition insert_allocation :: "allocation \<Rightarrow> ('a billing_db_scheme, allocation) tx" where
  "insert_allocation a = exec_ret (\<lambda>w. let d = working w; b = a\<lparr>al_id := next_id (map al_id (allocations d)), al_created := db_now w\<rparr> in
     if list_ex (\<lambda>x. al_reference x = al_reference a) (allocations d)
       then Inl (PgErr (Unique_violation ''referral_merchant_credit_alloca_external_settlement_referen_key''))
     else if list_ex (\<lambda>x. al_key x = al_key a) (allocations d)
       then Inl (PgErr (Unique_violation ''referral_merchant_credit_allocations_idempotency_key_key''))
     else Inr (b, d\<lparr>allocations := allocations d @ [b]\<rparr>))"

definition audit_credit :: "int \<Rightarrow> int \<Rightarrow> ('a billing_db_scheme, unit) tx" where
  "audit_credit finance object = exec (\<lambda>w. let d = working w in
     d\<lparr>backoffice_audit := backoffice_audit d @ [\<lparr>au_user = finance, au_action = ''merchant_credit.record'',
        au_kind = ''credit_allocation'', au_object = show_int object\<rparr>]\<rparr>)"

definition allocate_credit ::
  "int \<Rightarrow> int \<Rightarrow> int \<Rightarrow> string \<Rightarrow> string \<Rightarrow> billing_invoice \<Rightarrow> billing_payment \<Rightarrow> ('a billing_db_scheme, allocation) tx" where
  "allocate_credit brand finance amount key reference invoice payment =
     seq (query (\<lambda>w. list_ex (\<lambda>s. sb_proveedor_id s = Some (iv_subscription invoice) \<and> sb_marca s = brand) (suscripciones (working w)))) (\<lambda>linked.
     seq (reject_if (\<not> linked) (Repo ErrNotFound)) (\<lambda>_.
     seq (query (\<lambda>w. accrued_credit (working w) brand)) (\<lambda>accrued.
     seq (query (\<lambda>w. allocated_to_brand (working w) brand)) (\<lambda>allocated.
     seq (query (\<lambda>w. allocated_of_payment (working w) (py_id payment))) (\<lambda>used.
     seq (reject_if (sub64 accrued allocated < amount \<or> sub64 (py_amount payment) used < amount) (Repo ErrInsufficientBalance)) (\<lambda>_.
     seq (catch (insert_allocation \<lparr>al_id = 0, al_brand = brand, al_invoice = iv_id invoice, al_payment = py_id payment,
             al_amount = amount, al_currency = ''ARS'', al_reference = reference, al_key = key, al_finance = finance,
             al_status = ''RECORDED'', al_recovery = None, al_created = 0\<rparr>)
          (\<lambda>e. throw (if is_unique_violation e then Repo ErrConflict else e))) (\<lambda>out.
     seq (audit_credit finance (al_id out)) (\<lambda>_.
     seq commit (\<lambda>_. ret out)))))))))"

definition replay_or_allocate ::
  "int \<Rightarrow> int \<Rightarrow> int \<Rightarrow> string \<Rightarrow> string \<Rightarrow> billing_invoice \<Rightarrow> billing_payment \<Rightarrow> allocation option \<Rightarrow>
   ('a billing_db_scheme, allocation) tx" where
  "replay_or_allocate brand finance amount key reference invoice payment old =
     (case old of
        Some a \<Rightarrow>
          if al_brand a \<noteq> brand \<or> al_invoice a \<noteq> iv_id invoice \<or> al_payment a \<noteq> py_id payment
             \<or> al_amount a \<noteq> amount \<or> al_reference a \<noteq> reference
          then throw (Repo ErrIdempotencyConflict)
          else seq commit (\<lambda>_. ret a)
      | None \<Rightarrow> allocate_credit brand finance amount key reference invoice payment)"

definition record_merchant_credit_allocation ::
  "int \<Rightarrow> int \<Rightarrow> int \<Rightarrow> string \<Rightarrow> string \<Rightarrow> billing_invoice \<Rightarrow> billing_payment \<Rightarrow> ('a billing_db_scheme, allocation) tx" where
  "record_merchant_credit_allocation brand finance amount key reference invoice payment =
     (if \<not> credit_request_ok brand finance amount invoice payment then throw (Repo ErrInvalidRequest)
      else in_tx (
        seq (query (\<lambda>w. list_ex (\<lambda>u. bu_id u = finance \<and> bu_active u \<and> bu_role u = ''FINANZAS'') (backoffice_users (working w)))) (\<lambda>allowed.
        seq (reject_if (\<not> allowed) (Repo ErrForbidden)) (\<lambda>_.
        seq (query (\<lambda>w. list_ex (\<lambda>m. m_id m = brand) (marcas (working w)))) (\<lambda>exists.
        seq (reject_if (\<not> exists) (Repo ErrNotFound)) (\<lambda>_.
        seq (query (\<lambda>w. List.find (\<lambda>a. al_key a = key) (allocations (working w)))) (\<lambda>old.
        replay_or_allocate brand finance amount key reference invoice payment old)))))))"

end
