(* ===== verification/ReferralTheorems.thy ===== *)
theory ReferralTheorems
  imports ReferralLedger
begin

text \<open>
  What each operation of the invoice ledger does to the database, and the invariant of the
  ledger: every brand's charges are numbered from one without a gap, an invoice and a payment
  are charged once, and no reward of a refunded charge is payable.
\<close>

section \<open>Steps of other services\<close>

definition offline :: "('d, 'a) tx \<Rightarrow> bool" where
  "offline m \<longleftrightarrow> (\<forall>w r w1. m w = (r, w1) \<longrightarrow> quiet w w1)"

lemma offlineD: "offline m \<Longrightarrow> m w = (r, w1) \<Longrightarrow> quiet w w1"
  unfolding offline_def by blast

lemma offline_no_commit: "offline m \<Longrightarrow> no_commit m"
  unfolding no_commit_def offline_def quiet_def by (metis prod.collapse)

lemma offline_seq:
  assumes "offline m" and "\<And>a. offline (f a)"
  shows "offline (seq m f)"
  unfolding offline_def
proof (intro allI impI)
  fix w r w1
  assume run: "seq m f w = (r, w1)"
  obtain r2 w2 where m: "m w = (r2, w2)" by (cases "m w")
  note q = offlineD [OF assms(1) m]
  show "quiet w w1"
  proof (cases r2)
    case (Inl e)
    with run m q show ?thesis by (simp add: seq_def)
  next
    case (Inr a)
    with run m have "f a w2 = (r, w1)" by (simp add: seq_def)
    from quiet_trans [OF q offlineD [OF assms(2) this]] show ?thesis .
  qed
qed

lemma offline_reads: "reads_only m \<Longrightarrow> offline m"
  unfolding offline_def by (blast dest: reads_onlyD(1))

lemma offline_call_out: "offline (call_out c x)"
  by (auto simp: offline_def call_out_def quiet_def)

section \<open>Atomicity\<close>

lemma no_commit_ledger [no_commit_rules]:
  "no_commit (recover_allocations p)" "no_commit (refund_charges q)" "no_commit (reverse_rewards i)"
  "no_commit (insert_charge c)" "no_commit (insert_reward r)" "no_commit (record_event ev)"
  "no_commit (charged_full_amount invoice x y)" "no_commit (insert_allocation a)" "no_commit (audit_credit f j)"
  "no_commit (list_credit_allocations brand)"
  unfolding recover_allocations_def refund_charges_def reverse_rewards_def insert_charge_def insert_reward_def
    record_event_def charged_full_amount_def insert_allocation_def audit_credit_def list_credit_allocations_def
  by (intro no_commit_rules)+

lemma no_commit_advance:
  assumes "\<And>i a k. no_commit (advance i a k)"
  shows "no_commit (advance_to_full_price advance i brand full branches)"
  unfolding advance_to_full_price_def Let_def by (intro no_commit_rules assms)

lemma atomic_record_referral_invoice:
  assumes "\<And>i a k. no_commit (advance i a k)"
  shows "atomic (record_referral_invoice advance n invoice payment)"
  unfolding record_referral_invoice_def settle_invoice_def charge_invoice_def Let_def
  by (intro atomic_rules no_commit_rules no_commit_advance assms)

lemma atomic_reverse_referral_payment [atomic_rules]: "atomic (reverse_referral_payment n payment)"
  unfolding reverse_referral_payment_def by (intro atomic_rules no_commit_rules)

lemma atomic_record_merchant_credit_allocation [atomic_rules]:
  "atomic (record_merchant_credit_allocation brand finance amount key reference invoice payment)"
  unfolding record_merchant_credit_allocation_def replay_or_allocate_def allocate_credit_def
  by (intro atomic_rules no_commit_rules)

section \<open>Effects\<close>

definition event_recorded :: "string \<times> string \<times> string \<Rightarrow> 'a billing_db_scheme \<Rightarrow> 'a billing_db_scheme" where
  "event_recorded ev d = (if list_ex (\<lambda>x. fst x = fst ev) (eventos d) then d else d\<lparr>eventos := eventos d @ [ev]\<rparr>)"

definition charge_added :: "charge \<Rightarrow> 'a billing_db_scheme \<Rightarrow> 'a billing_db_scheme" where
  "charge_added c d = d\<lparr>charges := charges d @ [c]\<rparr>"

definition reward_added :: "reward option \<Rightarrow> 'a billing_db_scheme \<Rightarrow> 'a billing_db_scheme" where
  "reward_added r d = (case r of None \<Rightarrow> d | Some x \<Rightarrow> d\<lparr>rewards := rewards d @ [x]\<rparr>)"

text \<open>The four ways a notification of an invoice ends in the database.\<close>

definition reversal_of_invoice :: "string \<Rightarrow> string \<Rightarrow> int \<Rightarrow> 'a billing_db_scheme \<Rightarrow> 'a billing_db_scheme" where
  "reversal_of_invoice invoice payment t d =
     rewards_reversed invoice t (charges_refunded (\<lambda>c. rc_invoice c = invoice) (allocations_recovered payment t d))"

definition charge_of ::
  "billing_invoice \<Rightarrow> billing_payment \<Rightarrow> suscripcion \<Rightarrow> int \<Rightarrow> int \<Rightarrow> charge" where
  "charge_of invoice payment s full_amount index =
     \<lparr>rc_invoice = iv_id invoice, rc_brand = sb_marca s, rc_payment = py_id payment,
      rc_amount = py_amount payment, rc_full_amount = full_amount, rc_status = ''APPROVED'', rc_index = index\<rparr>"

definition full_unit :: "suscripcion \<Rightarrow> int" where
  "full_unit s = coalesce (sb_full s) (sb_precio s)"

lemma recover_allocations_Inr [tx_run]:
  "recover_allocations p w = (Inr u, w1) \<longleftrightarrow>
     ok_next w \<and> w1 = (ticked w)\<lparr>working := allocations_recovered p (db_now w) (working w)\<rparr>"
  by (simp add: recover_allocations_def tx_run)

lemma refund_charges_Inr [tx_run]:
  "refund_charges q w = (Inr u, w1) \<longleftrightarrow> ok_next w \<and> w1 = (ticked w)\<lparr>working := charges_refunded q (working w)\<rparr>"
  by (simp add: refund_charges_def tx_run)

lemma reverse_rewards_Inr [tx_run]:
  "reverse_rewards i w = (Inr u, w1) \<longleftrightarrow>
     ok_next w \<and> w1 = (ticked w)\<lparr>working := rewards_reversed i (db_now w) (working w)\<rparr>"
  by (simp add: reverse_rewards_def tx_run)

lemma record_event_Inr [tx_run]:
  "record_event ev w = (Inr b, w1) \<longleftrightarrow> ok_next w \<and> b = (\<not> list_ex (\<lambda>x. fst x = fst ev) (eventos (working w)))
     \<and> w1 = (ticked w)\<lparr>working := event_recorded ev (working w)\<rparr>"
  by (auto simp: record_event_def tx_run event_recorded_def Let_def)

definition charge_admitted :: "'a billing_db_scheme \<Rightarrow> charge \<Rightarrow> bool" where
  "charge_admitted d c \<longleftrightarrow> rc_amount c \<le> rc_full_amount c \<and> rc_invoice c \<notin> rc_invoice ` set (charges d)
     \<and> rc_payment c \<notin> rc_payment ` set (charges d)
     \<and> (rc_brand c, rc_index c) \<notin> (\<lambda>x. (rc_brand x, rc_index x)) ` set (charges d)"

lemma key_used: "list_ex (\<lambda>x. k x = a) rows \<longleftrightarrow> a \<in> k ` set rows"
  by (induction rows) auto

lemma index_used:
  "list_ex (\<lambda>x. rc_brand x = b \<and> rc_index x = i) rows \<longleftrightarrow> (b, i) \<in> (\<lambda>x. (rc_brand x, rc_index x)) ` set rows"
  by (induction rows) auto

lemma insert_charge_Inr [tx_run]:
  "insert_charge c w = (Inr u, w1) \<longleftrightarrow> ok_next w \<and> charge_admitted (working w) c
     \<and> w1 = (ticked w)\<lparr>working := charge_added c (working w)\<rparr>"
  unfolding insert_charge_def tx_run charge_added_def charge_admitted_def Let_def key_used index_used
  by (simp split: if_split)

lemma insert_reward_Inr [tx_run]:
  "insert_reward r w = (Inr u, w1) \<longleftrightarrow> ok_next w \<and> rr_invoice r \<notin> rr_invoice ` set (rewards (working w))
     \<and> w1 = (ticked w)\<lparr>working := reward_added (Some r) (working w)\<rparr>"
  unfolding insert_reward_def tx_run reward_added_def Let_def key_used by (auto split: if_splits)

lemma charged_full_amount_Inr:
  assumes "charged_full_amount invoice x y w = (Inr v, w1)"
  shows "quiet w w1" "iv_amount invoice = x \<Longrightarrow> v = Some y"
proof -
  have "reads_only (charged_full_amount invoice x y)"
    unfolding charged_full_amount_def by (intro read_rules)
  from reads_onlyD(1) [OF this assms] show "quiet w w1" .
  show "iv_amount invoice = x \<Longrightarrow> v = Some y" using assms by (simp add: charged_full_amount_def ret_def)
qed

lemma advance_to_full_price_Inr:
  assumes off: "\<And>i a k. offline (advance i a k)"
    and run: "advance_to_full_price advance i brand full branches w = (Inr u, w1)"
  shows "working w1 = price_advanced brand full (mul64 full branches) (db_now w) (working w)"
    "committed w1 = committed w" "db_now w1 = db_now w"
proof -
  from run obtain u1 w2 u3 w3 where
    p: "require_no_pending_branch brand w = (Inr u1, w2)" and
    a: "advance i (mul64 full branches) (''referral-full-price:'' @ i) w2 = (Inr u3, w3)" and
    e: "w1 = (ticked w3)\<lparr>working := price_advanced brand full (mul64 full branches) (db_now (ticked w3)) (working (ticked w3))\<rparr>"
    unfolding advance_to_full_price_def Let_def seq_Inr exec_Inr by blast
  have "quiet w w3" using quiet_trans [OF _ offlineD [OF off a], of w] p by (simp add: require_no_pending_branch_Inr)
  note q = quietD [OF this]
  show "working w1 = price_advanced brand full (mul64 full branches) (db_now w) (working w)"
    "committed w1 = committed w" "db_now w1 = db_now w" using e q by simp_all
qed

lemma allocations_recovered_idem:
  "allocations_recovered p t (allocations_recovered p t d) = allocations_recovered p t d"
  by (simp add: allocations_recovered_def update_where_def comp_def)

definition invoice_subscription :: "billing_invoice \<Rightarrow> 'a billing_db_scheme \<Rightarrow> suscripcion option" where
  "invoice_subscription invoice d =
     List.find (\<lambda>s. sb_proveedor_id s = Some (iv_subscription invoice) \<and> sb_moneda s = ''ARS'') (suscripciones d)"

text \<open>What is true of a charge that is accepted, and the database it leaves.\<close>

definition charge_accepted ::
  "'a billing_db_scheme \<Rightarrow> billing_invoice \<Rightarrow> billing_payment \<Rightarrow> suscripcion \<Rightarrow> int \<Rightarrow> bool" where
  "charge_accepted d invoice payment s full_amount \<longleftrightarrow>
     py_status payment = ''approved'' \<and> 0 < py_amount payment \<and> \<not> payment_reversed payment
     \<and> iv_amount invoice = py_amount payment
     \<and> (let index = paid_count (sb_marca s) d + 1; att = find_attribution (sb_marca s) d in
        (iv_amount invoice = mul64 (expected_unit att (full_unit s) index) (sb_cantidad s)
           \<longrightarrow> full_amount = mul64 (full_unit s) (sb_cantidad s))
        \<and> charge_admitted d (charge_of invoice payment s full_amount index)
        \<and> (\<forall>r. reward_of att invoice (sb_marca s) (py_amount payment) index = Some r
             \<longrightarrow> rr_invoice r \<notin> rr_invoice ` set (rewards d)))"

definition after_charge ::
  "'a billing_db_scheme \<Rightarrow> string \<Rightarrow> billing_invoice \<Rightarrow> billing_payment \<Rightarrow> suscripcion \<Rightarrow> int \<Rightarrow> int \<Rightarrow> 'a billing_db_scheme" where
  "after_charge d notification invoice payment s full_amount t =
     (let index = paid_count (sb_marca s) d + 1; att = find_attribution (sb_marca s) d;
          priced = (if last_discounted att (full_unit s) index
            then price_advanced (sb_marca s) (full_unit s) (mul64 (full_unit s) (sb_cantidad s)) t d else d)
      in event_recorded (notification, iv_id invoice, ''subscription_authorized_payment'')
           (reward_added (reward_of att invoice (sb_marca s) (py_amount payment) index)
             (charge_added (charge_of invoice payment s full_amount index) priced)))"

lemma price_advanced_tables [simp]:
  "charges (price_advanced b f a t d) = charges d" "rewards (price_advanced b f a t d) = rewards d"
  "eventos (price_advanced b f a t d) = eventos d" "allocations (price_advanced b f a t d) = allocations d"
  "attributions (price_advanced b f a t d) = attributions d"
  by (simp_all add: price_advanced_def)

lemma charge_added_tables [simp]:
  "charges (charge_added c d) = charges d @ [c]" "rewards (charge_added c d) = rewards d"
  "eventos (charge_added c d) = eventos d" "allocations (charge_added c d) = allocations d"
  "suscripciones (charge_added c d) = suscripciones d"
  by (simp_all add: charge_added_def)

lemma charge_admitted_priced [simp]: "charge_admitted (price_advanced b f a t d) c = charge_admitted d c"
  by (simp add: charge_admitted_def)

lemma charge_invoice_Inr:
  assumes off: "\<And>i a k. offline (advance i a k)"
    and s: "sb_marca s = brand" and att: "att = find_attribution brand (working w)"
    and pay: "py_status payment = ''approved''" "0 < py_amount payment" "\<not> payment_reversed payment"
    and run: "charge_invoice advance n invoice payment s att w = (Inr u, w1)"
  shows "\<exists>full_amount. charge_accepted (working w) invoice payment s full_amount
     \<and> committed w1 = after_charge (working w) n invoice payment s full_amount (db_now w)"
proof -
  let ?d = "working w" and ?index = "paid_count brand (working w) + 1" and ?full = "full_unit s"
  let ?branches = "sb_cantidad s"
  let ?att = "find_attribution brand ?d"
  let ?priced = "if last_discounted ?att ?full ?index
    then price_advanced brand ?full (mul64 ?full ?branches) (db_now w) ?d else ?d"
  let ?reward = "reward_of ?att invoice brand (py_amount payment) ?index"
  from run obtain v w2 full_amount w3 u4 w4 u5 w5 u6 w6 b7 w7 where
    valid: "charged_full_amount invoice (mul64 (expected_unit ?att ?full ?index) ?branches) (mul64 ?full ?branches) (ticked w) = (Inr v, w2)" and
    fa: "require (if iv_amount invoice \<noteq> py_amount payment then None else v)
            (GoError ''referral invoice amount does not match price snapshot'') w2 = (Inr full_amount, w3)" and
    adv: "(if last_discounted ?att ?full ?index
          then advance_to_full_price advance (iv_subscription invoice) brand ?full ?branches else ret ()) w3 = (Inr u4, w4)" and
    ins: "catch (insert_charge (charge_of invoice payment s full_amount ?index)) (\<lambda>e. throw (normalize e)) w4 = (Inr u5, w5)" and
    rew: "(case ?reward of None \<Rightarrow> ret () | Some r \<Rightarrow> insert_reward r) w5 = (Inr u6, w6)" and
    ev: "record_event (n, iv_id invoice, ''subscription_authorized_payment'') w6 = (Inr b7, w7)" and
    com: "commit w7 = (Inr u, w1)"
    unfolding charge_invoice_def Let_def seq_Inr query_Inr s full_unit_def [symmetric] att charge_of_def [symmetric, unfolded s]
    by (auto simp: ticked_sel charge_of_def s)
  note q2 = quietD [OF charged_full_amount_Inr(1) [OF valid]]
  have fa2: "iv_amount invoice = py_amount payment" "v = Some full_amount" "w3 = w2"
    using fa by (auto simp: require_Inr split: if_splits)
  have w4: "working w4 = ?priced \<and> db_now w4 = db_now w"
  proof (cases "last_discounted ?att ?full ?index")
    case True
    with adv have "advance_to_full_price advance (iv_subscription invoice) brand ?full ?branches w3 = (Inr u4, w4)" by simp
    from advance_to_full_price_Inr [OF off this] True q2 fa2 show ?thesis by simp
  next
    case False
    with adv q2 fa2 show ?thesis by (simp add: ret_Inr)
  qed
  from ins have w5: "charge_admitted ?d (charge_of invoice payment s full_amount ?index)"
      "working w5 = charge_added (charge_of invoice payment s full_amount ?index) ?priced" "db_now w5 = db_now w"
    using w4 by (auto simp: catch_Inr throw_Inr insert_charge_Inr split: if_splits)
  have w6: "\<And>r. ?reward = Some r \<Longrightarrow> rr_invoice r \<notin> rr_invoice ` set (rewards ?d)"
      "working w6 = reward_added ?reward (working w5)"
    using rew w5(2) by (auto simp: ret_Inr insert_reward_Inr reward_added_def split: option.splits if_splits)
  have "committed w1 = event_recorded (n, iv_id invoice, ''subscription_authorized_payment'') (working w6)"
    using ev com by (simp add: record_event_Inr commit_Inr)
  moreover have "iv_amount invoice = mul64 (expected_unit ?att ?full ?index) ?branches \<Longrightarrow> full_amount = mul64 ?full ?branches"
    using charged_full_amount_Inr(2) [OF valid] fa2 by simp
  ultimately show ?thesis
    unfolding charge_accepted_def after_charge_def Let_def s using w5 w6 fa2 pay by (intro exI [of _ full_amount]) simp
qed

definition after_recovery :: "billing_payment \<Rightarrow> int \<Rightarrow> 'a billing_db_scheme \<Rightarrow> 'a billing_db_scheme" where
  "after_recovery payment t d = (if payment_reversed payment then allocations_recovered (py_id payment) t d else d)"

lemma allocations_recovered_tables [simp]:
  "charges (allocations_recovered p t d) = charges d" "rewards (allocations_recovered p t d) = rewards d"
  "suscripciones (allocations_recovered p t d) = suscripciones d" "attributions (allocations_recovered p t d) = attributions d"
  by (simp_all add: allocations_recovered_def)

lemma after_recovery_tables [simp]:
  "charges (after_recovery p t d) = charges d" "rewards (after_recovery p t d) = rewards d"
  "suscripciones (after_recovery p t d) = suscripciones d" "attributions (after_recovery p t d) = attributions d"
  by (simp_all add: after_recovery_def)

lemma record_referral_invoice_Inr:
  assumes off: "\<And>i a k. offline (advance i a k)"
    and run: "record_referral_invoice advance n invoice payment w = (Inr u, w1)"
  obtains (ignored) "committed w1 = after_recovery payment (db_now w) (committed w)"
    | (reversed) "payment_reversed payment"
        "committed w1 = reversal_of_invoice (iv_id invoice) (py_id payment) (db_now w) (committed w)"
    | (charged) s full_amount where "invoice_subscription invoice (committed w) = Some s"
        "charge_accepted (committed w) invoice payment s full_amount"
        "committed w1 = after_charge (committed w) n invoice payment s full_amount (db_now w)"
proof -
  let ?d = "committed w"
  let ?d1 = "after_recovery payment (db_now w) ?d"
  define w0 where "w0 = ticked ((ticked w)\<lparr>working := ?d\<rparr>)"
  have w0: "working w0 = ?d" "db_now w0 = db_now w" "committed w0 = ?d" by (simp_all add: w0_def)
  let ?old = "map_option rc_status (List.find (\<lambda>c. rc_invoice c = iv_id invoice) (charges ?d))"
  from run obtain s u2 w2 w3 w4 where
    s: "invoice_subscription invoice ?d = Some s" and
    rec: "(if payment_reversed payment then recover_allocations (py_id payment) else ret ()) w0 = (Inr u2, w2)" and
    w3: "w3 = ticked w2" and w4: "w4 = ticked w3" and
    rest: "\<exists>w5. settle_invoice advance n invoice payment s (find_attribution (sb_marca s) (working w3))
        (map_option rc_status (List.find (\<lambda>c. rc_invoice c = iv_id invoice) (charges (working w4)))) w4 = (Inr u, w5)
       \<and> w1 = w5\<lparr>working := committed w5\<rparr>"
    unfolding record_referral_invoice_def in_tx_Inr seq_Inr query_Inr require_Inr invoice_subscription_def [symmetric] w0_def
    by auto
  have w2: "working w2 = ?d1" "db_now w2 = db_now w"
    using rec w0 by (auto simp: after_recovery_def recover_allocations_Inr ret_Inr split: if_splits)
  then have w4': "working w4 = ?d1" "db_now w4 = db_now w" "working w3 = ?d1" using w3 w4 by simp_all
  from rest obtain w5 where fin: "settle_invoice advance n invoice payment s (find_attribution (sb_marca s) ?d1) ?old w4 = (Inr u, w5)"
     and w1: "committed w1 = committed w5"
    using w4' by auto
  note fin = fin [unfolded settle_invoice_def]
  show thesis
  proof (cases ?old)
    case (Some status)
    show thesis
    proof (cases "payment_reversed payment \<and> status = ''APPROVED''")
      case True
      with fin Some w4' have "committed w5 = rewards_reversed (iv_id invoice) (db_now w)
          (charges_refunded (\<lambda>c. rc_invoice c = iv_id invoice) (allocations_recovered (py_id payment) (db_now w) ?d1))"
        by (auto simp: tx_run)
      with True w1 show thesis
        by (intro reversed) (simp_all add: reversal_of_invoice_def after_recovery_def allocations_recovered_idem)
    next
      case False
      with fin Some w4' w1 show thesis by (intro ignored) (auto simp: tx_run split: if_splits)
    qed
  next
    case None
    show thesis
    proof (cases "payment_reversed payment \<or> py_status payment \<noteq> ''approved'' \<or> py_amount payment < 1")
      case True
      with fin None w4' w1 show thesis by (intro ignored) (auto simp: tx_run)
    next
      case False
      then have d1: "?d1 = ?d" by (simp add: after_recovery_def)
      from False fin None have c: "charge_invoice advance n invoice payment s (find_attribution (sb_marca s) ?d1) w4 = (Inr u, w5)"
        by simp
      from charge_invoice_Inr [OF off refl _ _ _ _ c] False w4' d1 obtain full_amount where
        "charge_accepted ?d invoice payment s full_amount"
        "committed w5 = after_charge ?d n invoice payment s full_amount (db_now w)" by auto
      with s w1 show thesis by (intro charged) simp_all
    qed
  qed
qed

definition after_reversal ::
  "string \<Rightarrow> billing_payment \<Rightarrow> int \<Rightarrow> 'a billing_db_scheme \<Rightarrow> 'a billing_db_scheme" where
  "after_reversal notification payment t d =
     (let d1 = allocations_recovered (py_id payment) t d in
      case List.find (\<lambda>c. rc_payment c = py_id payment) (charges d) of
        None \<Rightarrow> d1
      | Some c \<Rightarrow> event_recorded (notification, py_id payment, ''payment'') (rewards_reversed (rc_invoice c) t
          (charges_refunded (\<lambda>x. rc_invoice x = rc_invoice c \<and> rc_status x = ''APPROVED'') d1)))"

lemma reverse_referral_payment_Inr:
  assumes "reverse_referral_payment n payment w = (Inr u, w1)"
  shows "committed w1 = (if py_status payment \<noteq> ''refunded'' \<and> py_status payment \<noteq> ''charged_back'' \<and> py_refunded payment = 0
     then committed w else after_reversal n payment (db_now w) (committed w))"
proof (cases "py_status payment \<noteq> ''refunded'' \<and> py_status payment \<noteq> ''charged_back'' \<and> py_refunded payment = 0")
  case True
  with assms show ?thesis by (simp add: reverse_referral_payment_def ret_Inr)
next
  case False
  then have r: "(py_status payment \<noteq> ''refunded'' \<and> py_status payment \<noteq> ''charged_back'' \<and> py_refunded payment = 0) = False"
    by simp
  show ?thesis
  proof (cases "List.find (\<lambda>c. rc_payment c = py_id payment) (charges (committed w))")
    case None
    with assms show ?thesis
      unfolding reverse_referral_payment_def r if_False in_tx_Inr seq_Inr recover_allocations_Inr query_Inr after_reversal_def Let_def
      by (auto simp: commit_Inr)
  next
    case (Some c)
    with assms show ?thesis
      unfolding reverse_referral_payment_def r if_False in_tx_Inr seq_Inr recover_allocations_Inr query_Inr after_reversal_def Let_def
      by (auto simp: tx_run)
  qed
qed

section \<open>The invariant of the ledger\<close>

definition brand_charges :: "int \<Rightarrow> 'a billing_db_scheme \<Rightarrow> charge list" where
  "brand_charges b d = filter (\<lambda>c. rc_brand c = b) (charges d)"

definition charges_ok :: "charge list \<Rightarrow> bool" where
  "charges_ok cs \<longleftrightarrow> distinct (map rc_invoice cs) \<and> distinct (map rc_payment cs)
     \<and> (\<forall>b. map rc_index (filter (\<lambda>c. rc_brand c = b) cs) = [1..int (length (filter (\<lambda>c. rc_brand c = b) cs))])
     \<and> (\<forall>c \<in> set cs. 0 < rc_amount c \<and> rc_amount c \<le> rc_full_amount c \<and> rc_status c \<in> {''APPROVED'', ''REFUNDED''})"

definition reward_backed :: "charge list \<Rightarrow> reward \<Rightarrow> bool" where
  "reward_backed cs r \<longleftrightarrow> 0 < rr_amount r \<and> (\<exists>c \<in> set cs. rc_invoice c = rr_invoice r \<and> rc_brand c = rr_brand r
     \<and> (rc_status c = ''REFUNDED'' \<longrightarrow> rr_status r \<notin> {''PENDING'', ''SETTLED''}))"

definition invoice_inv :: "'a billing_db_scheme \<Rightarrow> bool" where
  "invoice_inv d \<longleftrightarrow> charges_ok (charges d) \<and> distinct (map rr_invoice (rewards d))
     \<and> (\<forall>r \<in> set (rewards d). reward_backed (charges d) r)"

lemma invoice_inv_tables:
  "charges d1 = charges d \<Longrightarrow> rewards d1 = rewards d \<Longrightarrow> invoice_inv d1 = invoice_inv d"
  by (simp add: invoice_inv_def)

lemma event_recorded_tables [simp]:
  "charges (event_recorded ev d) = charges d" "rewards (event_recorded ev d) = rewards d"
  "suscripciones (event_recorded ev d) = suscripciones d" "allocations (event_recorded ev d) = allocations d"
  by (simp_all add: event_recorded_def)

lemma charges_ok_refunded:
  assumes "charges_ok cs"
  shows "charges_ok (update_where p (\<lambda>c. c\<lparr>rc_status := ''REFUNDED''\<rparr>) cs)"
proof -
  let ?f = "\<lambda>c. c\<lparr>rc_status := ''REFUNDED''\<rparr>"
  have f: "filter (\<lambda>c. rc_brand c = b) (update_where p ?f cs) = update_where p ?f (filter (\<lambda>c. rc_brand c = b) cs)" for b
    by (induction cs) simp_all
  have k: "map rc_invoice (update_where p ?f xs) = map rc_invoice xs" "map rc_payment (update_where p ?f xs) = map rc_payment xs"
    "map rc_index (update_where p ?f xs) = map rc_index xs" for xs
    by (simp_all add: map_update_where)
  show ?thesis using assms unfolding charges_ok_def f k length_update_where
    by (auto simp: set_update_where) blast
qed

lemma invoice_inv_refunded:
  assumes inv: "invoice_inv d" and c: "\<And>c. c \<in> set (charges d) \<Longrightarrow> p c \<Longrightarrow> rc_invoice c = i"
  shows "invoice_inv (rewards_reversed i t (charges_refunded p d))"
proof -
  let ?f = "\<lambda>c. c\<lparr>rc_status := ''REFUNDED''\<rparr>" and ?q = "\<lambda>r. rr_invoice r = i \<and> rr_status r \<in> {''PENDING'', ''SETTLED''}"
  have "map rr_invoice (update_where ?q (reward_reversed t) (rewards d)) = map rr_invoice (rewards d)"
    by (simp add: map_update_where reward_reversed_def)
  moreover have "reward_backed (update_where p ?f (charges d)) (if ?q r then reward_reversed t r else r)"
    if r: "r \<in> set (rewards d)" for r
  proof -
    from inv r have b: "reward_backed (charges d) r" by (simp add: invoice_inv_def)
    then obtain x where x: "x \<in> set (charges d)" "rc_invoice x = rr_invoice r" "rc_brand x = rr_brand r"
      "rc_status x = ''REFUNDED'' \<Longrightarrow> rr_status r \<notin> {''PENDING'', ''SETTLED''}" "0 < rr_amount r"
      unfolding reward_backed_def by blast
    have m: "(if p x then ?f x else x) \<in> set (update_where p ?f (charges d))" using x(1) by (auto simp: set_update_where)
    show ?thesis unfolding reward_backed_def
      using x c [OF x(1)] by (intro conjI bexI [OF _ m]) (auto simp: reward_reversed_def)
  qed
  ultimately show ?thesis using inv charges_ok_refunded [of "charges d" p]
    by (auto simp: invoice_inv_def rewards_reversed_def charges_refunded_def set_update_where)
qed

lemma invoice_inv_charged:
  assumes inv: "invoice_inv d" and c: "charge_admitted d c" "0 < rc_amount c" "rc_status c = ''APPROVED''"
      "rc_index c = paid_count (rc_brand c) d + 1"
    and r: "\<And>x. r = Some x \<Longrightarrow> rr_invoice x = rc_invoice c \<and> rr_brand x = rc_brand c \<and> 0 < rr_amount x
        \<and> rr_invoice x \<notin> rr_invoice ` set (rewards d)"
  shows "invoice_inv (reward_added r (charge_added c d))"
proof -
  have "charges_ok (charges d @ [c])"
    using inv c by (auto simp: invoice_inv_def charges_ok_def charge_admitted_def paid_count_def upto_rec2)
  moreover have "reward_backed (charges d @ [c]) x" if "x \<in> set (rewards d)" for x
    using inv that unfolding invoice_inv_def reward_backed_def by auto
  moreover have "reward_backed (charges d @ [c]) x" if "r = Some x" for x
    using r [OF that] c(3) by (auto simp: reward_backed_def)
  ultimately show ?thesis using inv r by (cases r) (auto simp: invoice_inv_def reward_added_def)
qed

lemma record_referral_invoice_ledger:
  assumes off: "\<And>i a k. offline (advance i a k)"
  shows "keeps invoice_inv (record_referral_invoice advance n invoice payment)"
proof (rule keeps_atomic)
  show "atomic (record_referral_invoice advance n invoice payment)"
    by (rule atomic_record_referral_invoice) (rule offline_no_commit [OF off])
next
  fix w u w1
  assume inv: "invoice_inv (committed w)" and run: "record_referral_invoice advance n invoice payment w = (Inr u, w1)"
  from off run show "invoice_inv (committed w1)"
  proof (cases rule: record_referral_invoice_Inr)
    case ignored
    with inv show ?thesis by (simp add: invoice_inv_def)
  next
    case reversed
    have "invoice_inv (allocations_recovered (py_id payment) (db_now w) (committed w))"
      using inv by (simp add: invoice_inv_def)
    with reversed show ?thesis by (simp add: reversal_of_invoice_def invoice_inv_refunded)
  next
    case (charged s full_amount)
    let ?d = "committed w"
    let ?i = "paid_count (sb_marca s) ?d + 1"
    have a: "charge_admitted ?d (charge_of invoice payment s full_amount ?i)" "0 < py_amount payment"
      and fresh: "\<And>r. reward_of (find_attribution (sb_marca s) ?d) invoice (sb_marca s) (py_amount payment) ?i = Some r \<Longrightarrow>
        rr_invoice r \<notin> rr_invoice ` set (rewards ?d)"
      using charged(2) unfolding charge_accepted_def Let_def by blast+
    define priced where "priced = (if last_discounted (find_attribution (sb_marca s) ?d) (full_unit s) ?i
      then price_advanced (sb_marca s) (full_unit s) (mul64 (full_unit s) (sb_cantidad s)) (db_now w) ?d else ?d)"
    have t: "charges priced = charges ?d" "rewards priced = rewards ?d" by (simp_all add: priced_def)
    have p: "invoice_inv priced" "charge_admitted priced c = charge_admitted ?d c" "paid_count b priced = paid_count b ?d"
      for c b
      using inv by (simp_all add: invoice_inv_def paid_count_def charge_admitted_def t)
    have "invoice_inv (reward_added (reward_of (find_attribution (sb_marca s) ?d) invoice (sb_marca s) (py_amount payment) ?i)
        (charge_added (charge_of invoice payment s full_amount ?i) priced))"
    proof (rule invoice_inv_charged [OF p(1)], goal_cases)
      case (5 x)
      then have "rr_invoice x = iv_id invoice \<and> rr_brand x = sb_marca s \<and> 0 < rr_amount x"
        by (auto simp: reward_of_def Let_def split: option.splits if_splits)
      with fresh [OF 5] show ?case by (simp add: charge_of_def t)
    next
      case 1
      show ?case unfolding p(2) by (rule a(1))
    qed (use a(2) in \<open>simp_all add: charge_of_def p(3)\<close>)
    then show ?thesis unfolding charged(3) after_charge_def Let_def priced_def by (simp add: invoice_inv_tables [OF event_recorded_tables(1,2)])
  qed
qed

lemma reverse_referral_payment_ledger [keeps_rules]: "keeps invoice_inv (reverse_referral_payment n payment)"
proof (rule keeps_atomic [OF atomic_reverse_referral_payment])
  fix w u w1
  assume inv: "invoice_inv (committed w)" and run: "reverse_referral_payment n payment w = (Inr u, w1)"
  have "invoice_inv (allocations_recovered (py_id payment) (db_now w) (committed w))"
    using inv by (simp add: invoice_inv_def)
  then have "invoice_inv (after_reversal n payment (db_now w) (committed w))"
    unfolding after_reversal_def Let_def
    by (auto simp: invoice_inv_tables [OF event_recorded_tables(1,2)] split: option.split intro!: invoice_inv_refunded)
  with reverse_referral_payment_Inr [OF run] inv show "invoice_inv (committed w1)" by simp
qed

section \<open>Merchant credit\<close>

definition credit_allocation ::
  "'a billing_db_scheme \<Rightarrow> int \<Rightarrow> int \<Rightarrow> int \<Rightarrow> string \<Rightarrow> string \<Rightarrow> billing_invoice \<Rightarrow> billing_payment \<Rightarrow> int \<Rightarrow> allocation" where
  "credit_allocation d brand finance amount key reference invoice payment t =
     \<lparr>al_id = next_id (map al_id (allocations d)), al_brand = brand, al_invoice = iv_id invoice, al_payment = py_id payment,
      al_amount = amount, al_currency = ''ARS'', al_reference = reference, al_key = key, al_finance = finance,
      al_status = ''RECORDED'', al_recovery = None, al_created = t\<rparr>"

definition credit_covered :: "'a billing_db_scheme \<Rightarrow> int \<Rightarrow> int \<Rightarrow> billing_payment \<Rightarrow> bool" where
  "credit_covered d brand amount payment \<longleftrightarrow>
     amount \<le> sub64 (accrued_credit d brand) (allocated_to_brand d brand)
     \<and> amount \<le> sub64 (py_amount payment) (allocated_of_payment d (py_id payment))"

lemma insert_allocation_Inr:
  "insert_allocation a w = (Inr b, w1) \<longleftrightarrow> ok_next w \<and> al_reference a \<notin> al_reference ` set (allocations (working w))
     \<and> al_key a \<notin> al_key ` set (allocations (working w))
     \<and> b = a\<lparr>al_id := next_id (map al_id (allocations (working w))), al_created := db_now w\<rparr>
     \<and> w1 = (ticked w)\<lparr>working := (working w)\<lparr>allocations := allocations (working w) @ [b]\<rparr>\<rparr>"
  unfolding insert_allocation_def tx_run Let_def key_used by (auto split: if_splits)

lemma allocate_credit_Inr:
  assumes "allocate_credit brand finance amount key reference invoice payment w = (Inr a, w1)"
  shows "credit_covered (working w) brand amount payment"
    "key \<notin> al_key ` set (allocations (working w))" "reference \<notin> al_reference ` set (allocations (working w))"
    "a = credit_allocation (working w) brand finance amount key reference invoice payment (db_now w)"
    "allocations (committed w1) = allocations (working w) @ [a]"
    "rewards (committed w1) = rewards (working w)" "charges (committed w1) = charges (working w)"
    "suscripciones (committed w1) = suscripciones (working w)"
    "backoffice_audit (committed w1) = backoffice_audit (working w) @ [\<lparr>au_user = finance, au_action = ''merchant_credit.record'',
        au_kind = ''credit_allocation'', au_object = show_int (al_id a)\<rparr>]"
  using assms unfolding allocate_credit_def seq_Inr query_Inr reject_if_Inr catch_Inr throw_Inr insert_allocation_Inr
    audit_credit_def exec_Inr commit_Inr ret_Inr credit_covered_def credit_allocation_def
  by (auto simp: Let_def not_less)

lemma allocate_credit_prices:
  assumes "allocate_credit brand finance amount key reference invoice payment w = (Inr a, w1)"
  shows "prices (committed w1) = prices (working w)"
  using assms unfolding allocate_credit_def seq_Inr query_Inr reject_if_Inr catch_Inr throw_Inr insert_allocation_Inr
    audit_credit_def exec_Inr commit_Inr ret_Inr
  by (auto simp: Let_def)

lemma record_credit_Inr:
  assumes "record_merchant_credit_allocation brand finance amount key reference invoice payment w = (Inr a, w1)"
  obtains (replay) "a \<in> set (allocations (committed w))" "committed w1 = committed w"
      "al_key a = key" "al_brand a = brand" "al_amount a = amount" "al_payment a = py_id payment" "al_reference a = reference"
    | (fresh) w2 w3 where "credit_request_ok brand finance amount invoice payment"
      "allocate_credit brand finance amount key reference invoice payment w2 = (Inr a, w3)"
      "working w2 = committed w" "committed w1 = committed w3"
      "\<exists>u \<in> set (backoffice_users (committed w)). bu_id u = finance \<and> bu_active u \<and> bu_role u = ''FINANZAS''"
proof -
  from assms have ok: "credit_request_ok brand finance amount invoice payment"
    by (auto simp: record_merchant_credit_allocation_def throw_Inr split: if_splits)
  let ?old = "List.find (\<lambda>a. al_key a = key) (allocations (committed w))"
  define w2 where "w2 = ticked (ticked (ticked ((ticked w)\<lparr>working := committed w\<rparr>)))"
  have w2: "working w2 = committed w" "committed w2 = committed w" by (simp_all add: w2_def)
  from assms ok obtain w3 where
    role: "\<exists>u \<in> set (backoffice_users (committed w)). bu_id u = finance \<and> bu_active u \<and> bu_role u = ''FINANZAS''" and
    run: "replay_or_allocate brand finance amount key reference invoice payment ?old w2 = (Inr a, w3)" and
    w1: "committed w1 = committed w3"
    unfolding record_merchant_credit_allocation_def in_tx_Inr seq_Inr query_Inr reject_if_Inr
    by (auto simp: list_ex_iff in_tx_Inr seq_Inr query_Inr reject_if_Inr w2_def)
  note run = run [unfolded replay_or_allocate_def]
  show thesis
  proof (cases ?old)
    case None
    with run have "allocate_credit brand finance amount key reference invoice payment w2 = (Inr a, w3)" by simp
    with ok w2 w1 role show thesis by (intro fresh)
  next
    case (Some b)
    then have b: "b \<in> set (allocations (committed w))" "al_key b = key" by (auto simp: find_Some_iff)
    from Some run w2 have "a = b" "committed w3 = committed w" "al_brand b = brand" "al_amount b = amount"
      "al_payment b = py_id payment" "al_reference b = reference"
      by (auto simp: tx_run split: if_splits)
    with b w1 show thesis by (intro replay) simp_all
  qed
qed

end
