(* ===== verification/SubscriptionTheorems.thy ===== *)
theory SubscriptionTheorems
  imports ReferralTheorems
begin

text \<open>
  The rows of \<open>suscripciones_marca\<close> under every operation: the constraints of the table hold
  without ever being checked, and each brand's row moves along one life cycle, in which the
  provider is called once per reservation and a cancelled subscription is never revived.
\<close>

section \<open>The life cycle of a subscription\<close>

datatype lifecycle = Absent | Reserved string | Calling string | Live string string string | Ended string

definition row_life :: "suscripcion \<Rightarrow> lifecycle" where
  "row_life s =
     (if sb_estado s = ''CREATING'' then
        (if sb_call_started s = None then Reserved (sb_referencia s) else Calling (sb_referencia s))
      else if sb_estado s = ''CANCELLED'' then Ended (sb_referencia s)
      else Live (sb_referencia s) (coalesce (sb_proveedor_id s) '''') (sb_estado s))"

definition lifecycle_of :: "'a billing_db_scheme \<Rightarrow> int \<Rightarrow> lifecycle" where
  "lifecycle_of d brand = (case find_suscripcion brand d of None \<Rightarrow> Absent | Some s \<Rightarrow> row_life s)"

definition live_status :: "string \<Rightarrow> bool" where
  "live_status st \<longleftrightarrow> st \<in> {''PENDING'', ''AUTHORIZED'', ''PAUSED''}"

inductive lifecycle_step :: "lifecycle \<Rightarrow> lifecycle \<Rightarrow> bool" where
  stay: "lifecycle_step x x"
| reserve: "lifecycle_step Absent (Reserved r)"
| renew: "r1 \<noteq> r \<Longrightarrow> lifecycle_step (Ended r) (Reserved r1)"
| claim: "lifecycle_step (Reserved r) (Calling r)"
| answered: "live_status st \<Longrightarrow> lifecycle_step (Calling r) (Live r p st)"
| refused: "lifecycle_step (Calling r) (Ended r)"
| released: "lifecycle_step (Reserved r) (Ended r)"
| changed: "live_status st \<Longrightarrow> lifecycle_step (Live r p st0) (Live r p st)"
| finished: "lifecycle_step (Live r p st) (Ended r)"

inductive_cases from_Ended: "lifecycle_step (Ended r) x"
inductive_cases from_Calling: "lifecycle_step (Calling r) x"
inductive_cases from_Live: "lifecycle_step (Live r p st) x"

section \<open>The constraints of the table\<close>

definition row_checked :: "suscripcion \<Rightarrow> bool" where
  "row_checked s \<longleftrightarrow>
     (sb_estado s = ''CREATING'' \<and> sb_proveedor_id s = None \<and> \<not> sb_rejected s
      \<or> sb_estado s = ''CANCELLED'' \<and> sb_proveedor_id s = None \<and> sb_rejected s
      \<or> sb_estado s \<noteq> ''CREATING'' \<and> sb_proveedor_id s \<noteq> None \<and> \<not> sb_rejected s)
     \<and> sb_estado s \<in> {''CREATING'', ''PENDING'', ''AUTHORIZED'', ''PAUSED'', ''CANCELLED''}
     \<and> 0 < sb_precio s \<and> 0 < sb_cantidad s \<and> sb_importe s = sb_precio s * sb_cantidad s
     \<and> 0 < full_unit s \<and> full_unit s * sb_cantidad s \<le> max_subscription_amount
     \<and> sb_trial_months s \<in> {0, 1}"

definition pid_distinct :: "suscripcion list \<Rightarrow> bool" where
  "pid_distinct ss \<longleftrightarrow> (\<forall>s \<in> set ss. \<forall>x \<in> set ss. sb_proveedor_id s \<noteq> None \<longrightarrow>
     sb_proveedor_id s = sb_proveedor_id x \<longrightarrow> sb_marca s = sb_marca x)"

definition subscription_inv :: "'a billing_db_scheme \<Rightarrow> bool" where
  "subscription_inv d \<longleftrightarrow> distinct (map sb_marca (suscripciones d)) \<and> distinct (map sb_referencia (suscripciones d))
     \<and> pid_distinct (suscripciones d) \<and> (\<forall>s \<in> set (suscripciones d). row_checked s)
     \<and> (\<forall>p \<in> set (prices d). 1 \<le> pr_unit p)"

lemma subscription_invD:
  assumes "subscription_inv d"
  shows "distinct (map sb_marca (suscripciones d))" "distinct (map sb_referencia (suscripciones d))"
    "pid_distinct (suscripciones d)" "s \<in> set (suscripciones d) \<Longrightarrow> row_checked s" "p \<in> set (prices d) \<Longrightarrow> 1 \<le> pr_unit p"
  using assms unfolding subscription_inv_def by blast+

section \<open>Updates of rows\<close>

text \<open>An update may keep the row's provider identifier or give it one that no other row has.\<close>

definition row_moves :: "suscripcion list \<Rightarrow> (suscripcion \<Rightarrow> bool) \<Rightarrow> suscripcion \<Rightarrow> suscripcion \<Rightarrow> bool" where
  "row_moves ss p s s1 \<longleftrightarrow> sb_marca s1 = sb_marca s \<and> sb_referencia s1 = sb_referencia s \<and> row_checked s1
     \<and> lifecycle_step (row_life s) (row_life s1)
     \<and> (sb_proveedor_id s1 = sb_proveedor_id s \<or>
        (\<forall>x \<in> set ss. sb_marca x \<noteq> sb_marca s \<longrightarrow> \<not> p x \<and> sb_proveedor_id x \<noteq> sb_proveedor_id s1))"

definition rows_move :: "'a billing_db_scheme \<Rightarrow> 'a billing_db_scheme \<Rightarrow> bool" where
  "rows_move d d1 \<longleftrightarrow> prices d1 = prices d \<and> (\<exists>p f. suscripciones d1 = update_where p f (suscripciones d)
     \<and> (\<forall>s \<in> set (suscripciones d). p s \<longrightarrow> row_moves (suscripciones d) p s (f s)))"

definition life_moves :: "'a billing_db_scheme \<Rightarrow> 'a billing_db_scheme \<Rightarrow> bool" where
  "life_moves d d1 \<longleftrightarrow> (\<forall>b. lifecycle_step (lifecycle_of d b) (lifecycle_of d1 b))"

lemma find_update_where:
  assumes "\<And>s. s \<in> set ss \<Longrightarrow> p s \<Longrightarrow> sb_marca (f s) = sb_marca s"
  shows "List.find (\<lambda>s. sb_marca s = b) (update_where p f ss) =
    map_option (\<lambda>s. if p s then f s else s) (List.find (\<lambda>s. sb_marca s = b) ss)"
  using assms by (induction ss) auto

lemma find_suscripcion_Some:
  "find_suscripcion b d = Some s \<Longrightarrow> s \<in> set (suscripciones d)" "find_suscripcion b d = Some s \<Longrightarrow> sb_marca s = b"
  by (auto simp: find_suscripcion_def find_Some_iff)

lemma rows_move_inv:
  assumes inv: "subscription_inv d" and move: "rows_move d d1"
  shows "subscription_inv d1" and "life_moves d d1"
proof -
  note i = subscription_invD [OF inv]
  from move obtain p f where pr: "prices d1 = prices d" and ss: "suscripciones d1 = update_where p f (suscripciones d)"
    and rm: "\<And>s. s \<in> set (suscripciones d) \<Longrightarrow> p s \<Longrightarrow> row_moves (suscripciones d) p s (f s)"
    unfolding rows_move_def by blast
  let ?g = "\<lambda>s. if p s then f s else s"
  have g: "sb_marca (?g s) = sb_marca s" "sb_referencia (?g s) = sb_referencia s" "row_checked (?g s)"
      "lifecycle_step (row_life s) (row_life (?g s))" if "s \<in> set (suscripciones d)" for s
    using rm [OF that] i(4) [OF that] by (auto simp: row_moves_def intro: lifecycle_step.stay)
  have img: "suscripciones d1 = map ?g (suscripciones d)" by (simp add: ss update_where_def)
  have keys: "map sb_marca (suscripciones d1) = map sb_marca (suscripciones d)"
    "map sb_referencia (suscripciones d1) = map sb_referencia (suscripciones d)"
    using g by (simp_all add: img)
  have "pid_distinct (suscripciones d1)"
    unfolding pid_distinct_def
  proof (intro ballI impI)
    fix a b
    assume "a \<in> set (suscripciones d1)" "b \<in> set (suscripciones d1)"
    then obtain s x where s: "s \<in> set (suscripciones d)" "a = ?g s" and x: "x \<in> set (suscripciones d)" "b = ?g x"
      by (auto simp: img)
    assume some: "sb_proveedor_id a \<noteq> None" and eq: "sb_proveedor_id a = sb_proveedor_id b"
    show "sb_marca a = sb_marca b"
    proof (rule ccontr)
      assume "sb_marca a \<noteq> sb_marca b"
      then have ne: "sb_marca s \<noteq> sb_marca x" unfolding s(2) x(2) g(1) [OF s(1)] g(1) [OF x(1)] .
      have clash: False if "y \<in> set (suscripciones d)" "z \<in> set (suscripciones d)" "sb_marca y \<noteq> sb_marca z"
          "p y" "sb_proveedor_id (f y) \<noteq> sb_proveedor_id y" "sb_proveedor_id (?g y) = sb_proveedor_id (?g z)" for y z
      proof -
        from rm [OF that(1,4)] that(5) that(2) have "\<not> p z \<and> sb_proveedor_id z \<noteq> sb_proveedor_id (f y)"
          using that(3) unfolding row_moves_def by force
        with that(4,6) show False by simp
      qed
      have e: "sb_proveedor_id (?g s) = sb_proveedor_id (?g x)" using eq unfolding s(2) x(2) .
      have kept: "sb_proveedor_id (?g y) = sb_proveedor_id y" if "y \<in> set (suscripciones d)" "z \<in> set (suscripciones d)"
          "sb_marca y \<noteq> sb_marca z" "sb_proveedor_id (?g y) = sb_proveedor_id (?g z)" for y z
        using clash [OF that(1-3) _ _ that(4)] by (cases "p y") auto
      note k = kept [OF s(1) x(1) ne e] kept [OF x(1) s(1) ne [symmetric] e [symmetric]]
      have "sb_proveedor_id s \<noteq> None" using some unfolding s(2) k(1) .
      moreover have "sb_proveedor_id s = sb_proveedor_id x" using e unfolding k .
      ultimately have "sb_proveedor_id s \<noteq> None" "sb_proveedor_id s = sb_proveedor_id x" .
      with i(3) s(1) x(1) have "sb_marca s = sb_marca x" unfolding pid_distinct_def by blast
      with ne show False by simp
    qed
  qed
  then show "subscription_inv d1"
    unfolding subscription_inv_def keys pr
  proof (intro conjI ballI)
    fix s
    assume "s \<in> set (suscripciones d1)"
    then obtain x where "x \<in> set (suscripciones d)" "s = ?g x" by (auto simp: img)
    with g(3) show "row_checked s" by simp
  qed (use i in auto)
  show "life_moves d d1"
    unfolding life_moves_def
  proof
    fix b
    have f: "find_suscripcion b d1 = map_option ?g (find_suscripcion b d)"
      unfolding find_suscripcion_def ss using rm by (intro find_update_where) (simp add: row_moves_def)
    show "lifecycle_step (lifecycle_of d b) (lifecycle_of d1 b)"
    proof (cases "find_suscripcion b d")
      case None
      then show ?thesis by (simp add: lifecycle_of_def f lifecycle_step.stay)
    next
      case (Some s)
      from g(4) [OF find_suscripcion_Some(1) [OF Some]] show ?thesis unfolding lifecycle_of_def f Some by simp
    qed
  qed
qed

lemma rows_moveI:
  assumes "prices d1 = prices d" and "suscripciones d1 = update_where p f (suscripciones d)"
    and "\<And>s. s \<in> set (suscripciones d) \<Longrightarrow> p s \<Longrightarrow> row_moves (suscripciones d) p s (f s)"
  shows "rows_move d d1"
  unfolding rows_move_def using assms by blast

lemma rows_move_same: "prices d1 = prices d \<Longrightarrow> suscripciones d1 = suscripciones d \<Longrightarrow> rows_move d d1"
  by (rule rows_moveI [where p = "\<lambda>_. False"]) (simp_all add: update_where_none)

section \<open>Operations that conform\<close>

named_theorems conform_rules "operations under which the invariant and the life cycle hold"

definition conforms :: "('a billing_db_scheme, 'b) tx \<Rightarrow> bool" where
  "conforms m \<longleftrightarrow> (\<forall>w r w1. subscription_inv (committed w) \<longrightarrow> m w = (r, w1) \<longrightarrow>
     subscription_inv (committed w1) \<and> life_moves (committed w) (committed w1))"

lemma life_moves_refl [simp]: "life_moves d d"
  by (simp add: life_moves_def lifecycle_step.stay)

lemma conformsD:
  assumes "conforms m" "subscription_inv (committed w)" "m w = (r, w1)"
  shows "subscription_inv (committed w1)" "life_moves (committed w) (committed w1)"
  using assms unfolding conforms_def by blast+

lemma conformsI:
  assumes "\<And>w r w1. subscription_inv (committed w) \<Longrightarrow> m w = (r, w1) \<Longrightarrow>
     subscription_inv (committed w1) \<and> life_moves (committed w) (committed w1)"
  shows "conforms m"
  unfolding conforms_def using assms by blast

lemma conforms_no_commit: "no_commit m \<Longrightarrow> conforms m"
  by (rule conformsI) (simp add: no_commitD)

lemma conforms_first:
  assumes "no_commit m" and "\<And>a. conforms (f a)"
  shows "conforms (seq m f)"
proof (rule conformsI)
  fix w r w1
  assume inv: "subscription_inv (committed w)" and run: "seq m f w = (r, w1)"
  obtain r2 w2 where m: "m w = (r2, w2)" by (cases "m w")
  note c = no_commitD [OF assms(1) m]
  show "subscription_inv (committed w1) \<and> life_moves (committed w) (committed w1)"
  proof (cases r2)
    case (Inl e)
    with run m c inv show ?thesis by (simp add: seq_def)
  next
    case (Inr a)
    with run m have "f a w2 = (r, w1)" by (simp add: seq_def)
    from conformsD [OF assms(2) _ this] c inv show ?thesis by simp
  qed
qed

lemma conforms_then:
  assumes "conforms m" and "\<And>a. no_commit (f a)"
  shows "conforms (seq m f)"
proof (rule conformsI)
  fix w r w1
  assume inv: "subscription_inv (committed w)" and run: "seq m f w = (r, w1)"
  obtain r2 w2 where m: "m w = (r2, w2)" by (cases "m w")
  note c = conformsD [OF assms(1) inv m]
  show "subscription_inv (committed w1) \<and> life_moves (committed w) (committed w1)"
  proof (cases r2)
    case (Inl e)
    with run m c show ?thesis by (simp add: seq_def)
  next
    case (Inr a)
    with run m have "f a w2 = (r, w1)" by (simp add: seq_def)
    from no_commitD [OF assms(2) this] c show ?thesis by simp
  qed
qed

lemma conforms_catch:
  assumes "conforms m" and "\<And>e. no_commit (h e)"
  shows "conforms (catch m h)"
proof (rule conformsI)
  fix w r w1
  assume inv: "subscription_inv (committed w)" and run: "catch m h w = (r, w1)"
  obtain r2 w2 where m: "m w = (r2, w2)" by (cases "m w")
  note c = conformsD [OF assms(1) inv m]
  show "subscription_inv (committed w1) \<and> life_moves (committed w) (committed w1)"
  proof (cases r2)
    case (Inl e)
    with run m have "h e w2 = (r, w1)" by (simp add: catch_def)
    from no_commitD [OF assms(2) this] c show ?thesis by simp
  next
    case (Inr a)
    with run m c show ?thesis by (simp add: catch_def)
  qed
qed

lemma conforms_atomic:
  assumes "atomic m" and "\<And>w a w1. subscription_inv (committed w) \<Longrightarrow> m w = (Inr a, w1) \<Longrightarrow>
     subscription_inv (committed w1) \<and> life_moves (committed w) (committed w1)"
  shows "conforms m"
proof (rule conformsI)
  fix w r w1
  assume inv: "subscription_inv (committed w)" and run: "m w = (r, w1)"
  show "subscription_inv (committed w1) \<and> life_moves (committed w) (committed w1)"
    using run atomicD [OF assms(1)] assms(2) [OF inv] inv by (cases r) auto
qed

lemma conforms_rows:
  assumes "atomic m" and "\<And>w a w1. subscription_inv (committed w) \<Longrightarrow> m w = (Inr a, w1) \<Longrightarrow>
     rows_move (committed w) (committed w1)"
  shows "conforms m"
  using assms(1)
proof (rule conforms_atomic)
  fix w a w1
  assume inv: "subscription_inv (committed w)" and run: "m w = (Inr a, w1)"
  from rows_move_inv [OF inv assms(2) [OF inv run]]
  show "subscription_inv (committed w1) \<and> life_moves (committed w) (committed w1)" by simp
qed

lemma conforms_pool:
  assumes "\<And>w a d1. subscription_inv (committed w) \<Longrightarrow> working w = committed w \<Longrightarrow> g w = Inr (a, d1) \<Longrightarrow>
     rows_move (committed w) d1"
  shows "conforms (pool_exec g)"
proof (rule conforms_rows [OF atomic_pool_exec])
  fix w :: "'a billing_db_scheme world" and a w1
  assume inv: "subscription_inv (committed w)" and run: "pool_exec g w = (Inr a, w1)"
  from run obtain d1 where "g ((ticked w)\<lparr>working := committed w\<rparr>) = Inr (a, d1)" "committed w1 = d1"
    by (auto simp: pool_exec_Inr)
  with assms [of "(ticked w)\<lparr>working := committed w\<rparr>" a d1] inv show "rows_move (committed w) (committed w1)" by simp
qed

subsection \<open>The provider call\<close>

lemma row_life_simps:
  "sb_estado s = ''CREATING'' \<Longrightarrow> sb_call_started s = None \<Longrightarrow> row_life s = Reserved (sb_referencia s)"
  "sb_estado s = ''CREATING'' \<Longrightarrow> sb_call_started s \<noteq> None \<Longrightarrow> row_life s = Calling (sb_referencia s)"
  "sb_estado s = ''CANCELLED'' \<Longrightarrow> row_life s = Ended (sb_referencia s)"
  "sb_estado s \<noteq> ''CREATING'' \<Longrightarrow> sb_estado s \<noteq> ''CANCELLED'' \<Longrightarrow>
     row_life s = Live (sb_referencia s) (coalesce (sb_proveedor_id s) '''') (sb_estado s)"
  by (simp_all add: row_life_def)

lemma claimed_moves:
  assumes "row_checked s" "sb_estado s = ''CREATING''" "sb_call_started s = None"
  shows "row_moves ss p s (s\<lparr>sb_call_started := Some t, sb_updated := t\<rparr>)"
  using assms by (auto simp: row_moves_def row_checked_def full_unit_def row_life_def intro: lifecycle_step.claim)

lemma rejected_moves:
  assumes "row_checked s" "sb_estado s = ''CREATING''" "sb_proveedor_id s = None"
  shows "row_moves ss p s (s\<lparr>sb_estado := ''CANCELLED'', sb_rejected := True, sb_updated := t\<rparr>)"
  using assms by (auto simp: row_moves_def row_checked_def full_unit_def row_life_def
    intro: lifecycle_step.refused lifecycle_step.released)

lemma claim_conforms [conform_rules]: "conforms (claim_subscription_provider_call brand external)"
  unfolding claim_subscription_provider_call_def Let_def
proof (rule conforms_pool)
  fix w :: "'a billing_db_scheme world" and a d1
  assume inv: "subscription_inv (committed w)" and wk: "working w = committed w"
  let ?p = "\<lambda>s. sb_marca s = brand \<and> sb_referencia s = external \<and> sb_estado s = ''CREATING'' \<and> sb_call_started s = None"
  let ?f = "\<lambda>s. s\<lparr>sb_call_started := Some (db_now w), sb_updated := db_now w\<rparr>"
  assume "Inr (rows_affected ?p (suscripciones (working w)) = 1,
      (working w)\<lparr>suscripciones := update_where ?p ?f (suscripciones (working w))\<rparr>) = Inr (a, d1)"
  then have "d1 = (committed w)\<lparr>suscripciones := update_where ?p ?f (suscripciones (committed w))\<rparr>" using wk by simp
  then show "rows_move (committed w) d1"
    using subscription_invD(4) [OF inv]
    by (intro rows_moveI [where p = ?p and f = ?f]) (simp_all add: claimed_moves)
qed

lemma reject_conforms [conform_rules]: "conforms (reject_subscription_checkout brand reference)"
  unfolding reject_subscription_checkout_def Let_def
proof (rule conforms_pool)
  fix w :: "'a billing_db_scheme world" and a d1
  assume inv: "subscription_inv (committed w)" and wk: "working w = committed w"
  let ?p = "\<lambda>s. sb_marca s = brand \<and> sb_referencia s = reference \<and> sb_estado s = ''CREATING'' \<and> sb_proveedor_id s = None"
  let ?f = "\<lambda>s. s\<lparr>sb_estado := ''CANCELLED'', sb_rejected := True, sb_updated := db_now w\<rparr>"
  assume "Inr ((), (working w)\<lparr>suscripciones := update_where ?p ?f (suscripciones (working w))\<rparr>) = Inr (a, d1)"
  then have "d1 = (committed w)\<lparr>suscripciones := update_where ?p ?f (suscripciones (committed w))\<rparr>" using wk by simp
  then show "rows_move (committed w) d1"
    using subscription_invD(4) [OF inv]
    by (intro rows_moveI [where p = ?p and f = ?f]) (simp_all add: rejected_moves)
qed

lemma provider_status_live: "provider_status v = Some st \<Longrightarrow> live_status st \<or> st = ''CANCELLED''"
  by (auto simp: provider_status_def live_status_def split: if_splits)

lemma conforms_require: "(\<And>a. x = Some a \<Longrightarrow> conforms (f a)) \<Longrightarrow> conforms (seq (require x e) f)"
  by (cases x) (auto simp: conforms_def seq_def require_def ret_def throw_def)

subsection \<open>Answers and notifications of the provider\<close>

lemma row_life_live:
  "live_status (sb_estado s) \<Longrightarrow> row_life s = Live (sb_referencia s) (coalesce (sb_proveedor_id s) '''') (sb_estado s)"
  by (rule row_life_simps(4)) (auto simp: live_status_def)

lemma answered_or_refused:
  assumes "live_status (sb_estado s) \<or> sb_estado s = ''CANCELLED''"
  shows "lifecycle_step (Calling (sb_referencia s)) (row_life s)"
  using assms
proof
  assume l: "live_status (sb_estado s)"
  then show ?thesis unfolding row_life_live [OF l] by (rule lifecycle_step.answered)
next
  assume "sb_estado s = ''CANCELLED''"
  then show ?thesis by (simp add: row_life_simps(3) lifecycle_step.refused)
qed

lemma changed_or_finished:
  assumes "live_status (sb_estado s) \<or> sb_estado s = ''CANCELLED''" "p = coalesce (sb_proveedor_id s) ''''"
  shows "lifecycle_step (Live (sb_referencia s) p st0) (row_life s)"
  using assms(1)
proof
  assume l: "live_status (sb_estado s)"
  then show ?thesis unfolding row_life_live [OF l] assms(2) by (rule lifecycle_step.changed)
next
  assume "sb_estado s = ''CANCELLED''"
  then show ?thesis by (simp add: row_life_simps(3) lifecycle_step.finished)
qed

text \<open>The columns that never decide the life cycle.\<close>

lemma row_checked_status:
  assumes "row_checked s" "sb_proveedor_id s1 \<noteq> None" "\<not> sb_rejected s1" "live_status (sb_estado s1) \<or> sb_estado s1 = ''CANCELLED''"
    and "sb_precio s1 = sb_precio s" "sb_cantidad s1 = sb_cantidad s" "sb_importe s1 = sb_importe s"
      "sb_full s1 = sb_full s" "sb_trial_months s1 = sb_trial_months s"
  shows "row_checked s1"
proof -
  from assms(4) have st: "sb_estado s1 \<noteq> ''CREATING''"
    "sb_estado s1 \<in> {''CREATING'', ''PENDING'', ''AUTHORIZED'', ''PAUSED'', ''CANCELLED''}"
    by (auto simp: live_status_def)
  from assms(1) show ?thesis using st assms(2,3) unfolding row_checked_def full_unit_def assms(5-9) by blast
qed

lemma checkout_saved_moves:
  assumes "row_checked s" "sb_estado s = ''CREATING''" "sb_call_started s \<noteq> None" "live_status st \<or> st = ''CANCELLED''"
    and "\<And>x. x \<in> set ss \<Longrightarrow> sb_marca x \<noteq> sb_marca s \<Longrightarrow> \<not> p x \<and> sb_proveedor_id x \<noteq> Some (ps_id pv)"
  shows "row_moves ss p s (checkout_saved pv st t s)"
proof -
  have f: "sb_estado (checkout_saved pv st t s) = st" "sb_referencia (checkout_saved pv st t s) = sb_referencia s"
    by (simp_all add: checkout_saved_def)
  have "lifecycle_step (Calling (sb_referencia s)) (row_life (checkout_saved pv st t s))"
    using answered_or_refused [of "checkout_saved pv st t s"] assms(4) unfolding f .
  moreover have "\<not> sb_rejected s" using assms(1,2) by (auto simp: row_checked_def)
  then have "row_checked (checkout_saved pv st t s)"
    using assms(4) by (intro row_checked_status [OF assms(1)]) (simp_all add: checkout_saved_def)
  ultimately show ?thesis using assms(2,3,5)
    by (simp add: row_moves_def row_life_simps(2) checkout_saved_def)
qed

lemma save_conforms [conform_rules]: "conforms (save_subscription_checkout brand pv)"
  unfolding save_subscription_checkout_def Let_def
proof (intro conforms_require conforms_then conforms_catch conforms_pool no_commit_rules)
  fix st and w :: "'a billing_db_scheme world" and a d1
  assume st: "provider_status (ps_status pv) = Some st"
  assume inv: "subscription_inv (committed w)" and wk: "working w = committed w"
  let ?p = "\<lambda>s. sb_marca s = brand \<and> sb_referencia s = ps_reference pv \<and> sb_estado s = ''CREATING'' \<and> sb_call_started s \<noteq> None"
  let ?f = "checkout_saved pv st (db_now w)"
  let ?ss = "suscripciones (committed w)"
  assume g: "(case filter ?p (suscripciones (working w)) of
            [] \<Rightarrow> Inr (None, working w)
          | s # _ \<Rightarrow>
              if list_ex (\<lambda>x. sb_marca x \<noteq> brand \<and> sb_proveedor_id x = Some (ps_id pv)) (suscripciones (working w))
              then Inl (PgErr (Unique_violation ''suscripciones_marca_proveedor_suscripcion_id_key''))
              else Inr (Some (?f s), (working w)\<lparr>suscripciones := update_where ?p ?f (suscripciones (working w))\<rparr>)) = Inr (a, d1)"
  show "rows_move (committed w) d1"
  proof (cases "filter ?p ?ss")
    case Nil
    with g wk have "d1 = committed w" by simp
    then show ?thesis by (simp add: rows_move_same)
  next
    case (Cons s rest)
    with g wk have free: "\<And>x. x \<in> set ?ss \<Longrightarrow> sb_marca x \<noteq> brand \<Longrightarrow> sb_proveedor_id x \<noteq> Some (ps_id pv)"
      and d1: "d1 = (committed w)\<lparr>suscripciones := update_where ?p ?f ?ss\<rparr>"
      by (auto simp: list_ex_iff split: if_splits)
    show ?thesis
    proof (rule rows_moveI [where p = ?p and f = ?f])
      fix s
      assume s: "s \<in> set ?ss" "?p s"
      then show "row_moves ?ss ?p s (?f s)"
        using subscription_invD(4) [OF inv s(1)] provider_status_live [OF st] free by (intro checkout_saved_moves) auto
    qed (simp_all add: d1)
  qed
qed

lemma followed_moves:
  assumes "row_checked s" "sb_proveedor_id s = Some pid" "live_status st \<or> st = ''CANCELLED''"
  shows "row_moves ss p s (followed live pv st t s)"
proof -
  have ne: "sb_estado s \<noteq> ''CREATING''" "\<not> sb_rejected s" using assms(1,2) by (auto simp: row_checked_def)
  have life: "lifecycle_step (row_life s) (row_life (followed live pv st t s))"
  proof (cases "sb_estado s = ''CANCELLED''")
    case True
    then show ?thesis by (simp add: row_life_def followed_def Let_def lifecycle_step.stay)
  next
    case False
    have "lifecycle_step (Live (sb_referencia (followed live pv st t s)) pid (sb_estado s)) (row_life (followed live pv st t s))"
      using assms(2,3) by (intro changed_or_finished) (simp_all add: followed_def Let_def)
    then show ?thesis using False ne(1) assms(2) by (simp add: row_life_simps(4)) (simp add: followed_def Let_def)
  qed
  have "row_checked (followed live pv st t s)"
    using assms(2,3) ne by (intro row_checked_status [OF assms(1)]) (simp_all add: followed_def Let_def)
  with life show ?thesis by (simp add: row_moves_def followed_def Let_def)
qed

lemma adopted_moves:
  assumes "row_checked s" "sb_estado s = ''CREATING''" "sb_call_started s \<noteq> None" "live_status st \<or> st = ''CANCELLED''"
    and "\<And>x. x \<in> set ss \<Longrightarrow> sb_marca x \<noteq> sb_marca s \<Longrightarrow> \<not> p x \<and> sb_proveedor_id x \<noteq> Some (ps_id pv)"
  shows "row_moves ss p s (followed live pv st t (adopted pv s))"
proof -
  have none: "sb_proveedor_id s = None" "\<not> sb_rejected s" using assms(1,2) by (auto simp: row_checked_def)
  let ?s = "followed live pv st t (adopted pv s)"
  have f: "sb_referencia ?s = sb_referencia s" "live_status (sb_estado ?s) \<or> sb_estado ?s = ''CANCELLED''"
    using assms(4) by (simp_all add: followed_def adopted_def Let_def)
  have life: "lifecycle_step (Calling (sb_referencia s)) (row_life ?s)"
    using answered_or_refused [OF f(2)] unfolding f(1) .
  have "row_checked ?s"
    using f(2) none by (intro row_checked_status [OF assms(1)]) (simp_all add: followed_def adopted_def Let_def)
  with life assms(2,3,5) none show ?thesis
    by (simp add: row_moves_def row_life_simps(2) followed_def adopted_def Let_def)
qed

lemma adopted_known: "sb_proveedor_id s = Some pid \<Longrightarrow> adopted pv s = s"
  by (simp add: adopted_def)

definition webhook_followed :: "'a billing_db_scheme \<Rightarrow> provider_subscription \<Rightarrow> string \<Rightarrow> int \<Rightarrow> suscripcion list" where
  "webhook_followed d pv st t = update_where (webhook_matches d pv)
     (\<lambda>s. followed (brand_open d (sb_marca s)) pv st t (adopted pv s)) (suscripciones d)"

lemma follow_webhook_Inr:
  "follow_webhook pv st w = (Inr n, w1) \<longleftrightarrow> ok_next w
     \<and> \<not> list_ex (\<lambda>s. webhook_matches (working w) pv s \<and> list_ex (\<lambda>x. sb_marca x \<noteq> sb_marca s \<and> sb_proveedor_id x = Some (ps_id pv))
          (suscripciones (working w))) (suscripciones (working w))
     \<and> n = rows_affected (webhook_matches (working w) pv) (suscripciones (working w))
     \<and> w1 = (ticked w)\<lparr>working := (working w)\<lparr>suscripciones := webhook_followed (working w) pv st (db_now w)\<rparr>\<rparr>"
  unfolding follow_webhook_def exec_ret_Inr Let_def webhook_followed_def by (auto split: if_splits)

lemma webhook_rows_move:
  assumes inv: "subscription_inv d" and st: "live_status st \<or> st = ''CANCELLED''"
    and free: "\<not> list_ex (\<lambda>s. webhook_matches d pv s \<and> list_ex (\<lambda>x. sb_marca x \<noteq> sb_marca s \<and> sb_proveedor_id x = Some (ps_id pv))
          (suscripciones d)) (suscripciones d)"
    and d1: "suscripciones d1 = webhook_followed d pv st t" "prices d1 = prices d"
  shows "rows_move d d1"
proof (rule rows_moveI [OF d1(2) d1(1) [unfolded webhook_followed_def]])
  fix s
  assume s: "s \<in> set (suscripciones d)" and m: "webhook_matches d pv s"
  note chk = subscription_invD(4) [OF inv s]
  show "row_moves (suscripciones d) (webhook_matches d pv) s (followed (brand_open d (sb_marca s)) pv st t (adopted pv s))"
  proof (cases "sb_proveedor_id s")
    case None
    with m have c: "sb_estado s = ''CREATING''" "sb_call_started s \<noteq> None" by (auto simp: webhook_matches_def)
    show ?thesis
    proof (rule adopted_moves [OF chk c st])
      fix x
      assume x: "x \<in> set (suscripciones d)" "sb_marca x \<noteq> sb_marca s"
      have "sb_referencia x \<noteq> sb_referencia s"
        using distinct_key_unique [OF subscription_invD(2) [OF inv] x(1) s] x(2) by blast
      then have "\<not> webhook_matches d pv x" using m by (simp add: webhook_matches_def)
      moreover have "sb_proveedor_id x \<noteq> Some (ps_id pv)" using free s m x by (auto simp: list_ex_iff)
      ultimately show "\<not> webhook_matches d pv x \<and> sb_proveedor_id x \<noteq> Some (ps_id pv)" by simp
    qed
  next
    case (Some pid)
    then show ?thesis unfolding adopted_known [OF Some] by (intro followed_moves [OF chk Some st])
  qed
qed

lemma no_commit_enqueue [no_commit_rules]:
  "no_commit (enqueue_subscription_confirmation key_ok encrypted mail_id brand)" "no_commit (follow_webhook pv st)"
  unfolding enqueue_subscription_confirmation_def insert_confirmation_def follow_webhook_def
  by (intro no_commit_rules)+

text \<open>A mail leaves every other table alone.\<close>

definition unmailed :: "'a billing_db_scheme \<Rightarrow> 'a billing_db_scheme \<Rightarrow> bool" where
  "unmailed d1 d \<longleftrightarrow> suscripciones d1 = suscripciones d \<and> prices d1 = prices d \<and> eventos d1 = eventos d
     \<and> charges d1 = charges d \<and> rewards d1 = rewards d"

lemma unmailed_refl [simp]: "unmailed d d"
  by (simp add: unmailed_def)

lemma enqueue_unmailed:
  assumes "enqueue_subscription_confirmation key_ok encrypted mail_id brand w = (Inr u, w1)"
  shows "unmailed (working w1) (working w)"
  using assms unfolding enqueue_subscription_confirmation_def insert_confirmation_def unmailed_def
  by (auto simp: tx_run Let_def split: option.splits if_splits)

lemma atomic_record_webhook:
  "provider_status (ps_status pv) = Some st \<Longrightarrow>
   atomic (record_subscription_webhook key_ok encrypted mail_id n topic pv notify)"
  unfolding record_subscription_webhook_def require_def by simp (intro atomic_rules no_commit_rules)

lemma record_webhook_Inr:
  assumes "record_subscription_webhook key_ok encrypted mail_id n topic pv notify w = (Inr u, w1)"
  obtains st where "provider_status (ps_status pv) = Some st"
    "list_ex (\<lambda>x. fst x = n) (eventos (committed w)) \<Longrightarrow> committed w1 = committed w"
    "\<not> list_ex (\<lambda>x. fst x = n) (eventos (committed w)) \<Longrightarrow>
       suscripciones (committed w1) = webhook_followed (committed w) pv st (db_now w)
       \<and> eventos (committed w1) = eventos (committed w) @ [(n, ps_id pv, topic)]
       \<and> prices (committed w1) = prices (committed w) \<and> charges (committed w1) = charges (committed w)
       \<and> rewards (committed w1) = rewards (committed w)
       \<and> rows_affected (webhook_matches (committed w) pv) (suscripciones (committed w)) = 1
       \<and> \<not> list_ex (\<lambda>s. webhook_matches (committed w) pv s \<and> list_ex (\<lambda>x. sb_marca x \<noteq> sb_marca s \<and> sb_proveedor_id x = Some (ps_id pv))
            (suscripciones (committed w))) (suscripciones (committed w))"
proof -
  let ?ev = "(n, ps_id pv, topic)"
  from assms obtain st b w2 w3 where st: "provider_status (ps_status pv) = Some st" and
    ev: "record_event ?ev ((ticked w)\<lparr>working := committed w\<rparr>) = (Inr b, w2)" and
    rest: "(if \<not> b then commit
    else
      seq (follow_webhook pv st) (\<lambda>n.
      seq (reject_if (n \<noteq> 1) (Repo ErrNotFound)) (\<lambda>_.
      seq (if notify \<and> st = ''AUTHORIZED'' then
              seq (query (\<lambda>w. map_option sb_marca (List.find (\<lambda>s. sb_proveedor_id s = Some (ps_id pv)) (suscripciones (working w))))) (\<lambda>brow.
              seq (require brow (GoError ''no rows in result set'')) (\<lambda>brand.
              enqueue_subscription_confirmation key_ok encrypted mail_id brand))
            else ret ()) (\<lambda>_. commit)))) w2 = (Inr u, w3)" and w1: "committed w1 = committed w3"
    unfolding record_subscription_webhook_def seq_Inr require_Inr in_tx_Inr by auto
  have w2: "working w2 = event_recorded ?ev (committed w)" "db_now w2 = db_now w"
      "b = (\<not> list_ex (\<lambda>x. fst x = n) (eventos (committed w)))"
    using ev by (simp_all add: record_event_Inr)
  show thesis
  proof (rule that [OF st], goal_cases)
    case 1
    with rest w2 w1 show ?case by (simp add: commit_Inr event_recorded_def)
  next
    case 2
    then have b: "b" using w2 by simp
    then obtain k w4 w5 u5 where fw: "follow_webhook pv st w2 = (Inr k, w4)" and k: "k = 1" and
      nt: "(if notify \<and> st = ''AUTHORIZED'' then
              seq (query (\<lambda>w. map_option sb_marca (List.find (\<lambda>s. sb_proveedor_id s = Some (ps_id pv)) (suscripciones (working w))))) (\<lambda>brow.
              seq (require brow (GoError ''no rows in result set'')) (\<lambda>brand.
              enqueue_subscription_confirmation key_ok encrypted mail_id brand))
            else ret ()) w4 = (Inr u5, w5)" and com: "commit w5 = (Inr u, w3)"
      using rest by (auto simp: seq_Inr reject_if_Inr)
    have "unmailed (working w5) (working w4)"
      using nt by (auto simp: seq_Inr query_Inr require_Inr ret_Inr dest!: enqueue_unmailed split: if_splits)
    note same = this [unfolded unmailed_def]
    have e: "event_recorded ?ev (committed w) = (committed w)\<lparr>eventos := eventos (committed w) @ [?ev]\<rparr>"
      using 2 by (simp add: event_recorded_def)
    have m: "webhook_matches (working w2) pv = webhook_matches (committed w) pv"
      "webhook_followed (working w2) pv st t = webhook_followed (committed w) pv st t" for t
      unfolding w2(1) e webhook_followed_def by (simp_all add: webhook_matches_def [abs_def] brand_open_def)
    show ?case
      using fw [unfolded follow_webhook_Inr m] com k same w1 w2(2) unfolding w2(1) e commit_Inr by simp
  qed
qed

lemma webhook_conforms [conform_rules]:
  "conforms (record_subscription_webhook key_ok encrypted mail_id n topic pv notify)"
proof (cases "provider_status (ps_status pv)")
  case None
  then show ?thesis by (simp add: record_subscription_webhook_def conforms_def seq_def require_def throw_def)
next
  case (Some st)
  show ?thesis
  proof (rule conforms_rows [OF atomic_record_webhook [OF Some]])
    fix w :: "'a billing_db_scheme world" and a w1
    assume inv: "subscription_inv (committed w)"
      and run: "record_subscription_webhook key_ok encrypted mail_id n topic pv notify w = (Inr a, w1)"
    from run show "rows_move (committed w) (committed w1)"
    proof (cases rule: record_webhook_Inr)
      case (1 st1)
      show ?thesis
      proof (cases "list_ex (\<lambda>x. fst x = n) (eventos (committed w))")
        case True
        from 1(2) [OF this] show ?thesis by (simp add: rows_move_same)
      next
        case False
        from 1(3) [OF this] show ?thesis
          by (intro webhook_rows_move [OF inv provider_status_live [OF 1(1)]]) simp_all
      qed
    qed
  qed
qed

lemma update_conforms [conform_rules]: "conforms (update_subscription_from_provider pv)"
  unfolding update_subscription_from_provider_def Let_def
proof (intro conforms_require conforms_then conforms_pool no_commit_rules)
  fix st and w :: "'a billing_db_scheme world" and a d1
  assume st: "provider_status (ps_status pv) = Some st"
  assume inv: "subscription_inv (committed w)" and wk: "working w = committed w"
  let ?d = "committed w"
  let ?p = "\<lambda>s. list_ex (\<lambda>m. m_id m = sb_marca s) (marcas ?d) \<and> sb_proveedor_id s = Some (ps_id pv)
                   \<and> sb_referencia s = ps_reference pv"
  let ?f = "\<lambda>s. followed (brand_open ?d (sb_marca s)) pv st (db_now w) s"
  assume "Inr (first_row (map (\<lambda>s. followed (brand_open (working w) (sb_marca s)) pv st (db_now w) s)
      (filter (\<lambda>s. list_ex (\<lambda>m. m_id m = sb_marca s) (marcas (working w)) \<and> sb_proveedor_id s = Some (ps_id pv)
         \<and> sb_referencia s = ps_reference pv) (suscripciones (working w)))),
    (working w)\<lparr>suscripciones := update_where (\<lambda>s. list_ex (\<lambda>m. m_id m = sb_marca s) (marcas (working w)) \<and> sb_proveedor_id s = Some (ps_id pv)
         \<and> sb_referencia s = ps_reference pv) (\<lambda>s. followed (brand_open (working w) (sb_marca s)) pv st (db_now w) s)
         (suscripciones (working w))\<rparr>) = Inr (a, d1)"
  then have d1: "d1 = ?d\<lparr>suscripciones := update_where ?p ?f (suscripciones ?d)\<rparr>" unfolding wk by simp
  show "rows_move ?d d1"
  proof (rule rows_moveI [where p = ?p and f = ?f])
    fix s
    assume s: "s \<in> set (suscripciones ?d)" "?p s"
    then have pid: "sb_proveedor_id s = Some (ps_id pv)" by simp
    show "row_moves (suscripciones ?d) ?p s (?f s)"
      by (rule followed_moves [OF subscription_invD(4) [OF inv s(1)] pid provider_status_live [OF st]])
  qed (simp_all add: d1)
qed

subsection \<open>Cancelling\<close>

lemma cancelled_moves:
  assumes "row_checked s" "sb_proveedor_id s = Some pid"
  shows "row_moves ss p s (cancelled t s)"
proof -
  have f: "sb_referencia (cancelled t s) = sb_referencia s" "sb_estado (cancelled t s) = ''CANCELLED''"
    by (simp_all add: cancelled_def)
  have ne: "sb_estado s \<noteq> ''CREATING''" "\<not> sb_rejected s" using assms by (auto simp: row_checked_def)
  have "lifecycle_step (row_life s) (row_life (cancelled t s))"
    using ne(1) f by (cases "sb_estado s = ''CANCELLED''")
      (simp_all add: row_life_simps(3,4) lifecycle_step.stay lifecycle_step.finished)
  moreover have "row_checked (cancelled t s)"
    using assms(2) ne by (intro row_checked_status [OF assms(1)]) (simp_all add: cancelled_def)
  ultimately show ?thesis by (simp add: row_moves_def cancelled_def)
qed

lemma subscription_record_Inr:
  "subscription_record view brand w = (Inr r, w1) \<longleftrightarrow> ok_next w \<and> w1 = ticked w
     \<and> (\<exists>s. find_suscripcion brand (view (ticked w)) = Some s \<and> r = record_of (view (ticked w)) s)"
  by (auto simp: subscription_record_def tx_run)

definition cancel_effect ::
  "(subscription_record \<Rightarrow> ('a billing_db_scheme, provider_subscription) tx) \<Rightarrow> int \<Rightarrow> int \<Rightarrow>
   'a billing_db_scheme \<Rightarrow> int \<Rightarrow> 'a billing_db_scheme \<Rightarrow> bool" where
  "cancel_effect cancel actor brand d t d1 \<longleftrightarrow> (\<exists>s out w2 w3. find_suscripcion brand d = Some s
     \<and> cancel (record_of d s) w2 = (Inr out, w3) \<and> member_role d actor brand = Some ''PROPIETARIO''
     \<and> \<not> (\<exists>o1 \<in> set (branch_operations d). bo_marca o1 = brand \<and> active_operation o1)
     \<and> d1 = d\<lparr>suscripciones := update_where
       (\<lambda>s. sb_marca s = brand \<and> sb_proveedor_id s = Some (ps_id out) \<and> sb_referencia s = ps_reference out)
       (cancelled t) (suscripciones d)\<rparr>)"

lemma cancel_body_Inr:
  assumes off: "\<And>r. offline (cancel r)" and wk: "working w = d" "db_now w = t"
    and run: "cancel_locked_body actor brand cancel w = (Inr u, w1)"
  shows "cancel_effect cancel actor brand d t (committed w1)"
proof -
  from run obtain role u1 u2 u3 w4 w5 w6 r w7 out w8 u8 w9 where
    role: "member_role (working (ticked w)) actor brand = Some role" and
    rej: "reject_if (role \<noteq> ''PROPIETARIO'') (Repo ErrForbidden) (ticked w) = (Inr u1, w4)" and
    lock: "exec working w4 = (Inr u2, w5)" and
    free: "require_no_pending_branch brand w5 = (Inr u3, w6)" and
    rec: "subscription_record working brand w6 = (Inr r, w7)" and
    c: "cancel r w7 = (Inr out, w8)" and
    upd: "exec (\<lambda>w. let d = working w in d\<lparr>suscripciones := update_where
            (\<lambda>s. sb_marca s = brand \<and> sb_proveedor_id s = Some (ps_id out) \<and> sb_referencia s = ps_reference out)
            (cancelled (db_now w)) (suscripciones d)\<rparr>) w8 = (Inr u8, w9)" and
    com: "commit w9 = (Inr u, w1)"
    unfolding cancel_locked_body_def seq_Inr query_Inr require_Inr by blast
  have w6: "working w6 = d" "db_now w6 = t"
    using rej lock free wk by (auto simp: reject_if_Inr exec_Inr require_no_pending_branch_Inr)
  obtain s where s: "find_suscripcion brand d = Some s" "r = record_of d s" and w7: "w7 = ticked w6"
    using rec w6 by (auto simp: subscription_record_Inr)
  note q = quietD [OF offlineD [OF off c]]
  have "committed w1 = d\<lparr>suscripciones := update_where
       (\<lambda>s. sb_marca s = brand \<and> sb_proveedor_id s = Some (ps_id out) \<and> sb_referencia s = ps_reference out)
       (cancelled t) (suscripciones d)\<rparr>"
    using upd com q w6 w7 by (simp add: exec_Inr commit_Inr Let_def)
  moreover have "member_role d actor brand = Some ''PROPIETARIO''"
    using role rej wk by (auto simp: reject_if_Inr)
  moreover have "\<not> (\<exists>o1 \<in> set (branch_operations d). bo_marca o1 = brand \<and> active_operation o1)"
    using free rej lock wk by (auto simp: reject_if_Inr exec_Inr require_no_pending_branch_Inr)
  ultimately show ?thesis unfolding cancel_effect_def using s(1) c [unfolded s(2)]
    by (intro exI [of _ s] exI [of _ out] exI [of _ w7] exI [of _ w8]) simp
qed

lemma cancel_locked_Inr:
  assumes off: "\<And>r. offline (cancel r)"
    and run: "cancel_subscription_locked actor brand cancel w = (Inr sub, w1)"
  shows "cancel_effect cancel actor brand (committed w) (db_now w) (committed w1)"
    "\<exists>s1. find_suscripcion brand (committed w1) = Some s1 \<and> sub = subscription_of (committed w1) s1"
proof -
  from run obtain u w4 w5 r w6 where
    body: "cancel_locked_body actor brand cancel ((ticked w)\<lparr>working := committed w\<rparr>) = (Inr u, w4)" and
    w5: "w5 = w4\<lparr>working := committed w4\<rparr>" and
    rec: "subscription_record committed brand w5 = (Inr r, w6)" and fin: "ret (sr_subscription r) w6 = (Inr sub, w1)"
    unfolding cancel_subscription_locked_def seq_Inr in_tx_Inr by blast
  show "\<exists>s1. find_suscripcion brand (committed w1) = Some s1 \<and> sub = subscription_of (committed w1) s1"
    using rec fin w5 by (auto simp: subscription_record_Inr ret_Inr record_of_def)
  have "committed w1 = committed w4" using rec fin w5 by (auto simp: subscription_record_Inr ret_Inr)
  with cancel_body_Inr [OF off _ _ body, of "committed w" "db_now w"]
  show "cancel_effect cancel actor brand (committed w) (db_now w) (committed w1)" by simp
qed

lemma no_commit_cancel_tail: "no_commit (seq (subscription_record committed brand) (\<lambda>r. ret (sr_subscription r)))"
  by (intro no_commit_rules)

lemma cancel_conforms [conform_rules]:
  assumes off: "\<And>r. offline (cancel r)"
  shows "conforms (cancel_subscription_locked actor brand cancel)"
  unfolding cancel_subscription_locked_def
proof (rule conforms_then [OF _ no_commit_cancel_tail], rule conforms_rows)
  show "atomic (in_tx (cancel_locked_body actor brand cancel))"
    unfolding cancel_locked_body_def by (intro atomic_rules no_commit_rules offline_no_commit off)
next
  fix w :: "'a billing_db_scheme world" and u w1
  assume inv: "subscription_inv (committed w)" and run: "in_tx (cancel_locked_body actor brand cancel) w = (Inr u, w1)"
  let ?d = "committed w"
  from run obtain w4 where body: "cancel_locked_body actor brand cancel ((ticked w)\<lparr>working := ?d\<rparr>) = (Inr u, w4)"
    and w1: "committed w1 = committed w4" by (auto simp: in_tx_Inr)
  have "cancel_effect cancel actor brand ?d (db_now w) (committed w4)" by (rule cancel_body_Inr [OF off _ _ body]) simp_all
  then obtain out :: provider_subscription where
    "committed w4 = ?d\<lparr>suscripciones := update_where
       (\<lambda>s. sb_marca s = brand \<and> sb_proveedor_id s = Some (ps_id out) \<and> sb_referencia s = ps_reference out)
       (cancelled (db_now w)) (suscripciones ?d)\<rparr>"
    unfolding cancel_effect_def by blast
  then show "rows_move ?d (committed w1)" unfolding w1
  proof (intro rows_moveI)
    fix s
    assume s: "s \<in> set (suscripciones ?d)"
      "sb_marca s = brand \<and> sb_proveedor_id s = Some (ps_id out) \<and> sb_referencia s = ps_reference out"
    then have "sb_proveedor_id s = Some (ps_id out)" by simp
    from cancelled_moves [OF subscription_invD(4) [OF inv s(1)] this]
    show "row_moves (suscripciones ?d) (\<lambda>s. sb_marca s = brand \<and> sb_proveedor_id s = Some (ps_id out)
      \<and> sb_referencia s = ps_reference out) s (cancelled (db_now w) s)" .
  qed simp_all
qed

subsection \<open>The reservation\<close>

definition with_row :: "int \<Rightarrow> suscripcion \<Rightarrow> 'a billing_db_scheme \<Rightarrow> 'a billing_db_scheme" where
  "with_row brand s d = d\<lparr>suscripciones := (case find_suscripcion brand d of None \<Rightarrow> suscripciones d @ [s]
     | Some _ \<Rightarrow> update_where (\<lambda>x. sb_marca x = brand) (\<lambda>_. s) (suscripciones d))\<rparr>"

lemma find_suscripcion_None: "find_suscripcion brand d = None \<longleftrightarrow> (\<forall>x \<in> set (suscripciones d). sb_marca x \<noteq> brand)"
  by (auto simp: find_suscripcion_def find_None_iff)

lemma set_with_row:
  "x \<in> set (suscripciones (with_row brand s d)) \<longleftrightarrow> x = s \<or> x \<in> set (suscripciones d) \<and> sb_marca x \<noteq> brand"
proof (cases "find_suscripcion brand d")
  case None
  then have "\<forall>x \<in> set (suscripciones d). sb_marca x \<noteq> brand" by (simp add: find_suscripcion_None)
  with None show ?thesis by (auto simp: with_row_def)
next
  case (Some y)
  then have "y \<in> set (suscripciones d)" "sb_marca y = brand" by (rule find_suscripcion_Some)+
  with Some show ?thesis by (auto simp: with_row_def set_update_where)
qed

lemma marcas_with_row:
  assumes "sb_marca s = brand"
  shows "map sb_marca (suscripciones (with_row brand s d)) =
    map sb_marca (suscripciones d) @ (if find_suscripcion brand d = None then [brand] else [])"
  using assms by (auto simp: with_row_def update_where_def split: option.split)

lemma find_with_row:
  assumes "sb_marca s = brand"
  shows "find_suscripcion b (with_row brand s d) = (if b = brand then Some s else find_suscripcion b d)"
proof (cases "find_suscripcion brand d")
  case None
  have "List.find P (xs @ [x]) = (case List.find P xs of None \<Rightarrow> if P x then Some x else None | Some y \<Rightarrow> Some y)"
    for P and x :: suscripcion and xs by (induction xs) auto
  with None assms show ?thesis by (auto simp: with_row_def find_suscripcion_def split: option.split)
next
  case (Some y)
  have "List.find (\<lambda>x. sb_marca x = b) (update_where (\<lambda>x. sb_marca x = brand) (\<lambda>_. s) xs) =
    (if b = brand then (if List.find (\<lambda>x. sb_marca x = brand) xs = None then None else Some s)
     else List.find (\<lambda>x. sb_marca x = b) xs)" for xs using assms by (induction xs) auto
  with Some show ?thesis by (simp add: with_row_def find_suscripcion_def)
qed

lemma distinct_map_replace:
  assumes "distinct (map k xs)" "distinct (map g xs)" "\<And>x. x \<in> set xs \<Longrightarrow> g x \<noteq> b \<Longrightarrow> k x \<noteq> k s"
  shows "distinct (map k (update_where (\<lambda>x. g x = b) (\<lambda>_. s) xs))"
  using assms
proof (induction xs)
  case (Cons x xs)
  have rest: "k y \<noteq> k s" if "y \<in> set xs" "g y \<noteq> b" for y using Cons.prems(3) that by simp
  show ?case
  proof (cases "g x = b")
    case True
    then have "\<forall>y \<in> set xs. g y \<noteq> b" using Cons.prems(2) by (metis distinct.simps(2) imageI list.map(2) list.set_map)
    moreover from this rest have "k s \<notin> k ` set xs" by force
    ultimately show ?thesis using True Cons.prems(1) by (simp add: update_where_none)
  next
    case False
    then have "k x \<noteq> k s" using Cons.prems(3) by simp
    moreover have "k x \<notin> k ` set xs" using Cons.prems(1) by simp
    ultimately have "k x \<notin> k ` set (update_where (\<lambda>x. g x = b) (\<lambda>_. s) xs)"
      by (force simp: update_where_def)
    moreover have "distinct (map k (update_where (\<lambda>x. g x = b) (\<lambda>_. s) xs))"
      using Cons.prems rest by (intro Cons.IH) simp_all
    ultimately show ?thesis using False by simp
  qed
qed simp

lemma with_row_inv:
  assumes inv: "subscription_inv d" and s: "sb_marca s = brand" "row_checked s" "sb_proveedor_id s = None"
    and fresh: "\<And>x. x \<in> set (suscripciones d) \<Longrightarrow> sb_marca x \<noteq> brand \<Longrightarrow> sb_referencia x \<noteq> sb_referencia s"
    and life: "lifecycle_step (lifecycle_of d brand) (row_life s)"
  shows "subscription_inv (with_row brand s d)" "life_moves d (with_row brand s d)"
proof -
  note i = subscription_invD [OF inv]
  have "distinct (map sb_marca (suscripciones (with_row brand s d)))"
    using i(1) by (auto simp: marcas_with_row [OF s(1)] find_suscripcion_None)
  moreover have "distinct (map sb_referencia (suscripciones (with_row brand s d)))"
  proof (cases "find_suscripcion brand d")
    case None
    then have "\<forall>x \<in> set (suscripciones d). sb_marca x \<noteq> brand" by (simp add: find_suscripcion_None)
    then have "sb_referencia s \<notin> sb_referencia ` set (suscripciones d)" using fresh by force
    with None i(2) show ?thesis by (simp add: with_row_def)
  next
    case (Some y)
    with distinct_map_replace [OF i(2) i(1), of brand s] fresh show ?thesis by (simp add: with_row_def)
  qed
  moreover have "pid_distinct (suscripciones (with_row brand s d))"
    unfolding pid_distinct_def
  proof (intro ballI impI)
    fix x y
    assume m: "x \<in> set (suscripciones (with_row brand s d))" "y \<in> set (suscripciones (with_row brand s d))"
      "sb_proveedor_id x \<noteq> None" "sb_proveedor_id x = sb_proveedor_id y"
    with s(3) have "x \<in> set (suscripciones d)" "y \<in> set (suscripciones d)" by (auto simp: set_with_row)
    with m i(3) show "sb_marca x = sb_marca y" unfolding pid_distinct_def by blast
  qed
  moreover have "\<forall>x \<in> set (suscripciones (with_row brand s d)). row_checked x"
    using i(4) s(2) by (simp add: set_with_row Ball_def)
  moreover have "prices (with_row brand s d) = prices d" by (simp add: with_row_def)
  ultimately show "subscription_inv (with_row brand s d)" using inv by (simp add: subscription_inv_def)
  show "life_moves d (with_row brand s d)"
    using life unfolding life_moves_def lifecycle_of_def find_with_row [OF s(1)]
    by (auto intro: lifecycle_step.stay)
qed

text \<open>The price a reservation is made at.\<close>

definition reservation_price :: "'a billing_db_scheme \<Rightarrow> int \<Rightarrow> int \<Rightarrow> int" where
  "reservation_price d brand full =
     (case find_attribution brand d of
        None \<Rightarrow> full
      | Some a \<Rightarrow> if paid_count brand d < ra_discount_charges a then discounted_minor full (ra_discount_bps a) else full)"

text \<open>Either an existing row is handed back untouched, or the brand's row is replaced.\<close>

definition reserved_fresh ::
  "'a billing_db_scheme \<Rightarrow> int \<Rightarrow> int \<Rightarrow> string \<Rightarrow> int \<Rightarrow> int \<Rightarrow> reservation \<Rightarrow> bool" where
  "reserved_fresh d actor brand external stamp_price points_price v \<longleftrightarrow>
     (\<exists>billing \<in> set (billing_context_rows d actor brand).
        rv_external v = external \<and> rv_branches v = bc_branches billing \<and> 1 \<le> rv_branches v
        \<and> rv_program v = bc_program billing \<and> rv_trial_end v = map_option trial_end (bc_trial_started billing))
     \<and> rv_program v \<in> {''PUNTOS'', ''SELLOS''} \<and> rv_months v \<in> {0, 1}
     \<and> rv_full v = (case List.find (\<lambda>p. pr_program p = rv_program v) (prices d) of
         None \<Rightarrow> if rv_program v = ''PUNTOS'' then points_price else stamp_price | Some p \<Rightarrow> pr_unit p)
     \<and> rv_full v \<le> quo64 max_subscription_amount (rv_branches v)
     \<and> rv_unit v = reservation_price d brand (rv_full v) \<and> 1 \<le> rv_unit v
     \<and> (\<forall>x \<in> set (suscripciones d). sb_marca x \<noteq> brand \<longrightarrow> sb_referencia x \<noteq> external)
     \<and> (\<forall>s. find_suscripcion brand d = Some s \<longrightarrow> sb_estado s = ''CANCELLED'' \<and> sb_referencia s \<noteq> external)"

lemma upsert_Inr:
  "upsert_suscripcion brand v w = (Inr s, w1) \<longleftrightarrow> ok_next w
     \<and> (\<forall>x \<in> set (suscripciones (working w)). sb_marca x \<noteq> brand \<longrightarrow> sb_referencia x \<noteq> rv_external v)
     \<and> s = upserted brand v (db_now w) (find_suscripcion brand (working w))
     \<and> w1 = (ticked w)\<lparr>working := with_row brand s (working w)\<rparr>"
  unfolding upsert_suscripcion_def exec_ret_Inr Let_def with_row_def ticked_sel
  by (auto simp: list_ex_iff split: if_splits)

lemma reserve_row_Inr:
  assumes "reserve_row billing brand external unit full remaining pid w = (Inr (b, r), w1)"
  obtains v where "rv_external v = external" "rv_unit v = unit" "rv_branches v = bc_branches billing" "rv_full v = full"
    "rv_program v = bc_program billing" "rv_trial_end v = map_option trial_end (bc_trial_started billing)"
    "rv_months v \<in> {0, 1}" "\<forall>x \<in> set (suscripciones (working w)). sb_marca x \<noteq> brand \<longrightarrow> sb_referencia x \<noteq> external"
    "committed w1 = with_row brand (upserted brand v (db_now w) (find_suscripcion brand (working w))) (working w)"
    "b = billing" "sr_reference r = external" "su_status (sr_subscription r) = ''CREATING''"
    "su_unit (sr_subscription r) = unit" "su_monthly (sr_subscription r) = unit * bc_branches billing"
    "sr_trial_months r = rv_months v" "su_trial_ends (sr_subscription r) = rv_trial_end v" "sr_provider_id r = pid"
    "su_branches (sr_subscription r) = bc_branches billing" "su_brand (sr_subscription r) = brand"
proof -
  let ?trial = "map_option trial_end (bc_trial_started billing)"
  let ?v = "\<lparr>rv_external = external, rv_unit = unit, rv_branches = bc_branches billing,
            rv_months = (case ?trial of None \<Rightarrow> 0 | Some t \<Rightarrow> if app_now w < t then 1 else 0), rv_full = full,
            rv_program = bc_program billing, rv_trial_end = ?trial\<rparr>"
  from assms obtain s w2 w3 u3 where
    up: "upsert_suscripcion brand ?v w = (Inr s, w2)" and com: "commit w2 = (Inr u3, w3)" and
    fin: "ret (billing, reserved_record s pid (0 < sb_trial_months s) (mul64 full (bc_branches billing)) remaining) w3 = (Inr (b, r), w1)"
    unfolding reserve_row_def Let_def seq_Inr now_app_Inr by blast
  from up have s: "s = upserted brand ?v (db_now w) (find_suscripcion brand (working w))"
    and fr: "\<forall>x \<in> set (suscripciones (working w)). sb_marca x \<noteq> brand \<longrightarrow> sb_referencia x \<noteq> external"
    and w2: "working w2 = with_row brand s (working w)" by (auto simp: upsert_Inr)
  from com fin w2 have w1: "committed w1 = with_row brand s (working w)" by (simp add: commit_Inr ret_Inr)
  from fin have r: "b = billing" "r = reserved_record s pid (0 < sb_trial_months s) (mul64 full (bc_branches billing)) remaining"
    by (simp_all add: ret_Inr)
  show thesis
    by (rule that [of ?v]) (use fr w1 r in \<open>simp_all add: s upserted_def reserved_record_def scanned_def split: option.split\<close>)
qed

definition reservation_kept :: "'a billing_db_scheme \<Rightarrow> int \<Rightarrow> string \<Rightarrow> subscription_record \<Rightarrow> bool" where
  "reservation_kept d brand external r \<longleftrightarrow> (\<exists>s. find_suscripcion brand d = Some s
     \<and> (sb_estado s = ''CREATING'' \<or> sb_referencia s = external)
     \<and> sr_reference r = sb_referencia s \<and> su_status (sr_subscription r) = sb_estado s
     \<and> su_monthly (sr_subscription r) = sb_importe s
     \<and> sr_provider_id r = coalesce (sb_proveedor_id s) '''')"

lemma reserve_priced_Inr:
  assumes "reserve_priced billing brand external unit full remaining w = (Inr (b, r), w1)"
  obtains (kept) "reservation_kept (working w) brand external r" "committed w1 = working w"
  | (fresh) pid w2 where "reserve_row billing brand external unit full remaining pid w2 = (Inr (b, r), w1)"
      "working w2 = working w" "db_now w2 = db_now w"
      "\<forall>s. find_suscripcion brand (working w) = Some s \<longrightarrow> sb_estado s = ''CANCELLED'' \<and> sb_referencia s \<noteq> external"
proof (cases "find_suscripcion brand (working w)")
  case None
  with assms have "reserve_row billing brand external unit full remaining '''' (ticked w) = (Inr (b, r), w1)"
    by (auto simp: reserve_priced_def seq_Inr query_Inr)
  from fresh [OF this] None show thesis by simp
next
  case (Some s)
  consider "sb_estado s = ''CREATING''" | "sb_estado s \<noteq> ''CREATING''" "sb_referencia s = external"
    | "sb_estado s \<noteq> ''CREATING''" "sb_referencia s \<noteq> external" by blast
  then show thesis
  proof cases
    case 1
    with assms Some have "\<exists>t m. r = reserved_record s (coalesce (sb_proveedor_id s) '''') t m remaining" "committed w1 = working w"
      by (auto simp: reserve_priced_def Let_def seq_Inr query_Inr commit_Inr ret_Inr)
    with 1 Some show thesis by (intro kept) (auto simp: reservation_kept_def reserved_record_def scanned_def)
  next
    case 2
    with assms Some have "\<exists>t m. r = reserved_record s (coalesce (sb_proveedor_id s) '''') t m remaining" "committed w1 = working w"
      by (auto simp: reserve_priced_def Let_def seq_Inr query_Inr commit_Inr ret_Inr)
    with 2 Some show thesis by (intro kept) (auto simp: reservation_kept_def reserved_record_def scanned_def)
  next
    case 3
    with assms Some have "sb_estado s = ''CANCELLED''"
      "reserve_row billing brand external unit full remaining (coalesce (sb_proveedor_id s) '''') (ticked w) = (Inr (b, r), w1)"
      by (auto simp: reserve_priced_def Let_def seq_Inr query_Inr throw_Inr split: if_splits)
    from fresh [OF this(2)] this(1) 3 Some show thesis by simp
  qed
qed

lemma catalogue_price_Inr:
  "catalogue_price p stamp_price points_price = Inr x \<longleftrightarrow>
     p = ''PUNTOS'' \<and> x = points_price \<or> p = ''SELLOS'' \<and> x = stamp_price"
  by (auto simp: catalogue_price_def)

lemma reserve_checkout_run:
  assumes "reserve_subscription_checkout actor brand external stamp_price points_price w = (Inr (b, r), w1)"
  obtains billing price full remaining w2 w3 where
    "billing \<in> set (billing_context_rows (committed w) actor brand)" "1 \<le> bc_branches billing"
    "catalogue_price (bc_program billing) stamp_price points_price = Inr price" "1 \<le> price"
    "full = (case List.find (\<lambda>p. pr_program p = bc_program billing) (prices (committed w)) of None \<Rightarrow> price | Some p \<Rightarrow> pr_unit p)"
    "full \<le> quo64 max_subscription_amount (bc_branches billing)" "1 \<le> reservation_price (committed w) brand full"
    "reserve_priced billing brand external (reservation_price (committed w) brand full) full remaining w2 = (Inr (b, r), w3)"
    "working w2 = committed w" "db_now w2 = db_now w" "committed w1 = committed w3"
proof -
  define w2 where "w2 = ticked (ticked (ticked ((ticked w)\<lparr>working := committed w\<rparr>)))"
  have w2: "working w2 = committed w" "db_now w2 = db_now w" by (simp_all add: w2_def)
  from assms obtain billing price w3 where
    first: "first_row (billing_context_rows (committed w) actor brand) = Some billing" and
    branches: "\<not> bc_branches billing < 1" and
    price: "catalogue_price (bc_program billing) stamp_price points_price = Inr price" "\<not> price < 1" and
    rest: "reserve_at_price billing brand external price (ticked ((ticked w)\<lparr>working := committed w\<rparr>)) = (Inr (b, r), w3)" and
    w1: "committed w1 = committed w3"
    unfolding reserve_subscription_checkout_def in_tx_Inr seq_Inr query_Inr require_Inr reject_if_Inr by auto
  let ?full = "case List.find (\<lambda>p. pr_program p = bc_program billing) (prices (committed w)) of None \<Rightarrow> price | Some p \<Rightarrow> pr_unit p"
  from rest obtain remaining where full: "\<not> quo64 max_subscription_amount (bc_branches billing) < ?full"
    and unit: "\<not> reservation_price (committed w) brand ?full < 1"
    and run: "reserve_priced billing brand external (reservation_price (committed w) brand ?full) ?full remaining w2 = (Inr (b, r), w3)"
    unfolding reserve_at_price_def seq_Inr query_Inr Let_def w2_def reservation_price_def
    by (cases "find_attribution brand (committed w)") (auto simp: seq_Inr query_Inr reject_if_Inr)
  show thesis
    by (rule that [OF first_row_SomeD [OF first] _ price(1) _ refl _ _ run w2 w1])
      (use branches price full unit in simp_all)
qed

lemma amount_bound:
  assumes "1 \<le> n" "full \<le> quo64 max_subscription_amount n"
  shows "full * n \<le> max_subscription_amount"
proof -
  have m: "0 \<le> max_subscription_amount" "max_subscription_amount < 2 ^ 63" by (simp_all add: max_subscription_amount_def)
  have "max_subscription_amount div n \<le> max_subscription_amount" using m(1) assms(1) by (cases "n = 1") (simp_all add: int_div_less_self less_imp_le max_subscription_amount_def)
  moreover have "0 \<le> max_subscription_amount div n" using m(1) assms(1) by (simp add: pos_imp_zdiv_nonneg_iff)
  ultimately have "quo64 max_subscription_amount n = max_subscription_amount div n"
    using m assms(1) by (simp add: quo64_def sdiv_nonneg wrap64_small)
  with assms have "full \<le> max_subscription_amount div n" by simp
  then have "full * n \<le> (max_subscription_amount div n) * n" using assms(1) by (intro mult_right_mono) simp_all
  also have "\<dots> = n * (max_subscription_amount div n)" by simp
  also have "\<dots> \<le> max_subscription_amount"
  proof -
    have "max_subscription_amount = n * (max_subscription_amount div n) + max_subscription_amount mod n"
      by (simp only: mult_div_mod_eq)
    moreover have "0 \<le> max_subscription_amount mod n" using assms(1) by simp
    ultimately show ?thesis by linarith
  qed
  finally show ?thesis .
qed

lemma reserve_checkout_Inr:
  assumes inv: "subscription_inv (committed w)"
    and run: "reserve_subscription_checkout actor brand external stamp_price points_price w = (Inr (b, r), w1)"
  obtains (kept) "reservation_kept (committed w) brand external r" "committed w1 = committed w"
  | (fresh) v where "reserved_fresh (committed w) actor brand external stamp_price points_price v" "1 \<le> rv_full v"
      "committed w1 = with_row brand (upserted brand v (db_now w) (find_suscripcion brand (committed w))) (committed w)"
      "sr_reference r = external" "su_status (sr_subscription r) = ''CREATING''"
      "su_unit (sr_subscription r) = rv_unit v" "su_monthly (sr_subscription r) = rv_unit v * rv_branches v"
proof -
  from reserve_checkout_run [OF run] obtain billing price full remaining w2 w3 where
    h: "billing \<in> set (billing_context_rows (committed w) actor brand)" "1 \<le> bc_branches billing"
    "catalogue_price (bc_program billing) stamp_price points_price = Inr price" "1 \<le> price"
    "full = (case List.find (\<lambda>p. pr_program p = bc_program billing) (prices (committed w)) of None \<Rightarrow> price | Some p \<Rightarrow> pr_unit p)"
    "full \<le> quo64 max_subscription_amount (bc_branches billing)" "1 \<le> reservation_price (committed w) brand full"
    and run2: "reserve_priced billing brand external (reservation_price (committed w) brand full) full remaining w2 = (Inr (b, r), w3)"
    and w2: "working w2 = committed w" "db_now w2 = db_now w" and w1: "committed w1 = committed w3" .
  have full: "1 \<le> full"
    using h(4) subscription_invD(5) [OF inv] unfolding h(5) by (auto simp: find_Some_iff split: option.split)
  from run2 show thesis
  proof (cases rule: reserve_priced_Inr)
    case kept
    then show thesis using that(1) w1 w2 by simp
  next
    case (fresh pid w4)
    from fresh(1) show thesis
    proof (cases rule: reserve_row_Inr)
      case (1 v)
      have "reserved_fresh (committed w) actor brand external stamp_price points_price v"
        unfolding reserved_fresh_def
        using 1 h fresh w2 by (auto simp: catalogue_price_Inr intro!: bexI [OF _ h(1)] split: option.splits)
      then show thesis using 1 full fresh w2 w1 by (intro that(2) [of v]) simp_all
    qed
  qed
qed

lemma reserved_freshD:
  assumes "reserved_fresh d actor brand external stamp_price points_price v"
  shows "rv_external v = external" "1 \<le> rv_branches v" "rv_months v \<in> {0, 1}" "1 \<le> rv_unit v"
    "rv_full v \<le> quo64 max_subscription_amount (rv_branches v)" "rv_unit v = reservation_price d brand (rv_full v)"
    "\<And>x. x \<in> set (suscripciones d) \<Longrightarrow> sb_marca x \<noteq> brand \<Longrightarrow> sb_referencia x \<noteq> external"
    "\<And>s. find_suscripcion brand d = Some s \<Longrightarrow> sb_estado s = ''CANCELLED'' \<and> sb_referencia s \<noteq> external"
  using assms unfolding reserved_fresh_def by blast+

lemma upserted_checked:
  assumes "1 \<le> rv_unit v" "1 \<le> rv_branches v" "1 \<le> rv_full v" "rv_full v \<le> quo64 max_subscription_amount (rv_branches v)"
    "rv_months v \<in> {0, 1}"
  shows "row_checked (upserted brand v t old)"
  using assms amount_bound [OF assms(2,4)] by (simp add: row_checked_def upserted_def full_unit_def)

lemma atomic_reserve [atomic_rules]:
  "atomic (reserve_subscription_checkout actor brand external stamp_price points_price)"
  unfolding reserve_subscription_checkout_def reserve_at_price_def reserve_priced_def reserve_row_def upsert_suscripcion_def Let_def
  by (intro atomic_rules no_commit_rules)

lemma reserve_conforms [conform_rules]:
  "conforms (reserve_subscription_checkout actor brand external stamp_price points_price)"
proof (rule conforms_atomic [OF atomic_reserve])
  fix w :: "'a billing_db_scheme world" and a :: "billing_context \<times> subscription_record" and w1
  assume inv: "subscription_inv (committed w)"
  obtain b r where a: "a = (b, r)" by (cases a)
  assume "reserve_subscription_checkout actor brand external stamp_price points_price w = (Inr a, w1)"
  with inv show "subscription_inv (committed w1) \<and> life_moves (committed w) (committed w1)"
    unfolding a
  proof (cases rule: reserve_checkout_Inr)
    case kept
    with inv show ?thesis by simp
  next
    case (fresh v)
    let ?s = "upserted brand v (db_now w) (find_suscripcion brand (committed w))"
    note f = reserved_freshD [OF fresh(1)]
    have s: "sb_marca ?s = brand" "sb_proveedor_id ?s = None" "sb_referencia ?s = external"
        "row_life ?s = Reserved external"
      by (simp_all add: upserted_def row_life_def f(1))
    have "row_checked ?s" by (rule upserted_checked [OF f(4,2) fresh(2) f(5,3)])
    moreover have "lifecycle_step (lifecycle_of (committed w) brand) (row_life ?s)"
    proof (cases "find_suscripcion brand (committed w)")
      case None
      then show ?thesis unfolding s(4) by (simp add: lifecycle_of_def lifecycle_step.reserve)
    next
      case (Some x)
      from f(8) [OF this] have "row_life x = Ended (sb_referencia x)" "external \<noteq> sb_referencia x" by (auto simp: row_life_def)
      then show ?thesis unfolding s(4) by (simp add: lifecycle_of_def Some lifecycle_step.renew)
    qed
    ultimately show ?thesis unfolding fresh(3) using with_row_inv [OF inv s(1) _ s(2)] f(7) unfolding s(3) by simp
  qed
qed

subsection \<open>Payments\<close>

lemma full_row:
  assumes inv: "subscription_inv d" and s: "s \<in> set (suscripciones d)" "x \<in> set (suscripciones d)" "sb_marca x = sb_marca s"
  shows "x = s"
  by (rule distinct_key_unique [OF subscription_invD(1) [OF inv] s(2,1,3)])

lemma price_advanced_moves:
  assumes inv: "subscription_inv d" and s: "s \<in> set (suscripciones d)"
  shows "rows_move d (price_advanced (sb_marca s) (full_unit s) (mul64 (full_unit s) (sb_cantidad s)) t d)"
proof -
  let ?f = "\<lambda>x. x\<lparr>sb_precio := full_unit s, sb_importe := mul64 (full_unit s) (sb_cantidad s), sb_transitioned := Some t, sb_updated := t\<rparr>"
  note chk = subscription_invD(4) [OF inv s]
  have b: "0 < full_unit s" "0 < sb_cantidad s" "full_unit s * sb_cantidad s \<le> max_subscription_amount"
    using chk by (simp_all add: row_checked_def)
  have pos: "0 < full_unit s * sb_cantidad s" using b by simp
  then have m: "mul64 (full_unit s) (sb_cantidad s) = full_unit s * sb_cantidad s"
    using b(3) by (simp add: mul64_def wrap64_small max_subscription_amount_def)
  have "row_checked (?f s)"
    using chk b(1) m unfolding row_checked_def by (simp add: full_unit_def coalesce_def split: option.splits)
  then have row: "row_moves (suscripciones d) (\<lambda>x. sb_marca x = sb_marca s) s (?f s)"
    by (simp add: row_moves_def row_life_def lifecycle_step.stay)
  show ?thesis
  proof (rule rows_moveI [where p = "\<lambda>x. sb_marca x = sb_marca s" and f = ?f])
    fix x
    assume "x \<in> set (suscripciones d)" "sb_marca x = sb_marca s"
    then have "x = s" by (rule full_row [OF inv s])
    with row show "row_moves (suscripciones d) (\<lambda>x. sb_marca x = sb_marca s) x (?f x)" by simp
  qed (simp_all add: price_advanced_def)
qed

lemma rows_move_tables:
  "rows_move d d1 \<Longrightarrow> suscripciones d2 = suscripciones d1 \<Longrightarrow> prices d2 = prices d1 \<Longrightarrow> rows_move d d2"
  by (simp add: rows_move_def)

lemma invoice_conforms [conform_rules]:
  assumes off: "\<And>i a k. offline (advance i a k)"
  shows "conforms (record_referral_invoice advance n invoice payment)"
proof (rule conforms_rows)
  show "atomic (record_referral_invoice advance n invoice payment)"
    by (rule atomic_record_referral_invoice) (rule offline_no_commit [OF off])
next
  fix w :: "'a billing_db_scheme world" and u w1
  assume inv: "subscription_inv (committed w)" and run: "record_referral_invoice advance n invoice payment w = (Inr u, w1)"
  have pr: "prices (allocations_recovered p t d) = prices d" "prices (event_recorded ev d) = prices d"
    "prices (reward_added r d) = prices d" "suscripciones (reward_added r d) = suscripciones d"
    "prices (charge_added c d) = prices d" "prices (rewards_reversed i t d) = prices d"
    "prices (charges_refunded q d) = prices d" "suscripciones (rewards_reversed i t d) = suscripciones d"
    "suscripciones (charges_refunded q d) = suscripciones d" for p t d ev r c i q
    by (simp_all add: allocations_recovered_def event_recorded_def reward_added_def charge_added_def
      rewards_reversed_def charges_refunded_def split: option.split)
  from off run show "rows_move (committed w) (committed w1)"
  proof (cases rule: record_referral_invoice_Inr)
    case ignored
    then show ?thesis by (intro rows_move_same) (simp_all add: after_recovery_def pr)
  next
    case reversed
    then show ?thesis by (intro rows_move_same) (simp_all add: reversal_of_invoice_def pr)
  next
    case (charged s full_amount)
    have s: "s \<in> set (suscripciones (committed w))"
      using charged(1) by (auto simp: invoice_subscription_def find_Some_iff)
    have "rows_move (committed w) (if b then price_advanced (sb_marca s) (full_unit s) (mul64 (full_unit s) (sb_cantidad s)) (db_now w) (committed w)
      else committed w)" for b
      using price_advanced_moves [OF inv s] by (simp add: rows_move_same)
    then show ?thesis unfolding charged(3) after_charge_def Let_def
      by (rule rows_move_tables) (simp_all add: pr)
  qed
qed

lemma reversal_conforms [conform_rules]: "conforms (reverse_referral_payment n payment)"
proof (rule conforms_rows [OF atomic_reverse_referral_payment])
  fix w :: "'a billing_db_scheme world" and u w1
  assume "reverse_referral_payment n payment w = (Inr u, w1)"
  from reverse_referral_payment_Inr [OF this] show "rows_move (committed w) (committed w1)"
    by (intro rows_move_same) (simp_all add: after_reversal_def event_recorded_def rewards_reversed_def charges_refunded_def
      allocations_recovered_def Let_def split: option.split)
qed

lemma credit_conforms [conform_rules]:
  "conforms (record_merchant_credit_allocation brand finance amount key reference invoice payment)"
proof (rule conforms_rows [OF atomic_record_merchant_credit_allocation])
  fix w :: "'a billing_db_scheme world" and a w1
  assume "record_merchant_credit_allocation brand finance amount key reference invoice payment w = (Inr a, w1)"
  then show "rows_move (committed w) (committed w1)"
  proof (cases rule: record_credit_Inr)
    case replay
    then show ?thesis by (simp add: rows_move_same)
  next
    case (fresh w2 w3)
    note t = allocate_credit_Inr [OF fresh(2)] allocate_credit_prices [OF fresh(2)]
    show ?thesis by (rule rows_move_same) (simp_all add: t fresh(3,4))
  qed
qed

lemma confirmation_conforms [conform_rules]:
  "conforms (request_subscription_confirmation key_ok encrypted mail_id actor brand)"
proof (rule conforms_rows)
  show "atomic (request_subscription_confirmation key_ok encrypted mail_id actor brand)"
    unfolding request_subscription_confirmation_def by (intro atomic_rules no_commit_rules)
next
  fix w :: "'a billing_db_scheme world" and u w1
  assume "request_subscription_confirmation key_ok encrypted mail_id actor brand w = (Inr u, w1)"
  then obtain w2 u3 w3 where e: "enqueue_subscription_confirmation key_ok encrypted mail_id brand w2 = (Inr u3, w3)"
    and w: "working w2 = committed w" "committed w1 = working w3"
    unfolding request_subscription_confirmation_def by (auto simp: in_tx_Inr seq_Inr query_Inr require_Inr reject_if_Inr commit_Inr)
  from enqueue_unmailed [OF e] show "rows_move (committed w) (committed w1)"
    by (intro rows_move_same) (simp_all add: w unmailed_def)
qed

end
