(* ===== verification/SubscriptionProperties.thy ===== *)
theory SubscriptionProperties
  imports SubscriptionTheorems
begin

text \<open>
  The properties of subscriptions and of their invoices, over single operations and over every
  sequence of them.
\<close>

section \<open>Histories\<close>

text \<open>
  One operation of the repository on subscriptions and invoices, failures included. The
  provider's part of an operation (\<open>advance\<close>, \<open>cancel\<close>) leaves the database alone.
\<close>

inductive subscription_step :: "'a billing_db_scheme \<Rightarrow> 'a billing_db_scheme \<Rightarrow> bool" where
  reserves: "step_of (reserve_subscription_checkout actor brand external p1 p2) d d1 \<Longrightarrow> subscription_step d d1"
| claims: "step_of (claim_subscription_provider_call brand external) d d1 \<Longrightarrow> subscription_step d d1"
| saves: "step_of (save_subscription_checkout brand pv) d d1 \<Longrightarrow> subscription_step d d1"
| rejects: "step_of (reject_subscription_checkout brand external) d d1 \<Longrightarrow> subscription_step d d1"
| notified: "step_of (record_subscription_webhook ok enc mid n topic pv notify) d d1 \<Longrightarrow> subscription_step d d1"
| refreshes: "step_of (update_subscription_from_provider pv) d d1 \<Longrightarrow> subscription_step d d1"
| confirms: "step_of (request_subscription_confirmation ok enc mid actor brand) d d1 \<Longrightarrow> subscription_step d d1"
| cancels: "(\<And>r. offline (cancel r)) \<Longrightarrow> step_of (cancel_subscription_locked actor brand cancel) d d1 \<Longrightarrow> subscription_step d d1"
| invoices: "(\<And>i a k. offline (advance i a k)) \<Longrightarrow> step_of (record_referral_invoice advance n invoice payment) d d1 \<Longrightarrow>
    subscription_step d d1"
| reverses: "step_of (reverse_referral_payment n payment) d d1 \<Longrightarrow> subscription_step d d1"
| allocates: "step_of (record_merchant_credit_allocation brand finance amount key ref invoice payment) d d1 \<Longrightarrow>
    subscription_step d d1"

lemma conforms_step:
  "conforms m \<Longrightarrow> step_of m d d1 \<Longrightarrow> subscription_inv d \<Longrightarrow> subscription_inv d1 \<and> life_moves d d1"
  unfolding step_of_def conforms_def by blast

lemma step_conforms:
  assumes "subscription_step d d1" and "subscription_inv d"
  shows "subscription_inv d1 \<and> life_moves d d1"
  using assms(1)
proof cases
  case (reserves actor brand external p1 p2)
  show ?thesis by (rule conforms_step [OF reserve_conforms reserves assms(2)])
next
  case (claims brand external)
  show ?thesis by (rule conforms_step [OF claim_conforms claims assms(2)])
next
  case (saves brand pv)
  show ?thesis by (rule conforms_step [OF save_conforms saves assms(2)])
next
  case (rejects brand external)
  show ?thesis by (rule conforms_step [OF reject_conforms rejects assms(2)])
next
  case (notified ok enc mid n topic pv notify)
  show ?thesis by (rule conforms_step [OF webhook_conforms notified assms(2)])
next
  case (refreshes pv)
  show ?thesis by (rule conforms_step [OF update_conforms refreshes assms(2)])
next
  case (confirms ok enc mid actor brand)
  show ?thesis by (rule conforms_step [OF confirmation_conforms confirms assms(2)])
next
  case (cancels cancel actor brand)
  show ?thesis by (rule conforms_step [OF cancel_conforms [OF cancels(1)] cancels(2) assms(2)])
next
  case (invoices advance n invoice payment)
  show ?thesis by (rule conforms_step [OF invoice_conforms [OF invoices(1)] invoices(2) assms(2)])
next
  case (reverses n payment)
  show ?thesis by (rule conforms_step [OF reversal_conforms reverses assms(2)])
next
  case (allocates brand finance amount key ref invoice payment)
  show ?thesis by (rule conforms_step [OF credit_conforms allocates assms(2)])
qed

section \<open>The ledger over histories\<close>

lemma frames_offline: "offline m \<Longrightarrow> frames V m"
  by (rule framesI) (auto dest!: offlineD simp: quiet_def)

text \<open>The ledger of invoices is written by invoices and reversals only.\<close>

abbreviation ledger :: "'a billing_db_scheme \<Rightarrow> charge list \<times> reward list" where
  "ledger d \<equiv> (charges d, rewards d)"

lemma frames_statements:
  "frames ledger (upsert_suscripcion brand v)" "frames ledger (record_event ev)"
  "frames ledger (follow_webhook pv st)" "frames ledger (insert_confirmation ce)"
  "frames ledger (insert_allocation a)" "frames ledger (audit_credit f i)"
  unfolding upsert_suscripcion_def record_event_def follow_webhook_def insert_confirmation_def insert_allocation_def
    audit_credit_def
  by (intro frame_rules; auto simp: Let_def split: if_splits option.splits)+

lemma frames_enqueue: "frames ledger (enqueue_subscription_confirmation ok enc mid brand)"
  unfolding enqueue_subscription_confirmation_def by (intro frame_rules frames_statements)

lemma frames_require_pending: "frames V (require_no_pending_branch brand)" "frames V (subscription_record view brand)"
  unfolding require_no_pending_branch_def subscription_record_def by (intro frame_rules)+

lemma ledger_kept:
  "keeps (\<lambda>d. ledger d = l) (reserve_subscription_checkout actor brand external p1 p2)"
  "keeps (\<lambda>d. ledger d = l) (claim_subscription_provider_call brand external)"
  "keeps (\<lambda>d. ledger d = l) (save_subscription_checkout brand pv)"
  "keeps (\<lambda>d. ledger d = l) (reject_subscription_checkout brand external)"
  "keeps (\<lambda>d. ledger d = l) (record_subscription_webhook ok enc mid n topic pv notify)"
  "keeps (\<lambda>d. ledger d = l) (update_subscription_from_provider pv)"
  "keeps (\<lambda>d. ledger d = l) (request_subscription_confirmation ok enc mid actor brand)"
  "keeps (\<lambda>d. ledger d = l) (record_merchant_credit_allocation brand finance amount key ref invoice payment)"
proof -
  show "keeps (\<lambda>d. ledger d = l) (reserve_subscription_checkout actor brand external p1 p2)"
    unfolding reserve_subscription_checkout_def reserve_at_price_def reserve_priced_def reserve_row_def Let_def
    by (intro keeps_in_tx frame_rules frames_statements)
  show "keeps (\<lambda>d. ledger d = l) (claim_subscription_provider_call brand external)"
    "keeps (\<lambda>d. ledger d = l) (reject_subscription_checkout brand external)"
    unfolding claim_subscription_provider_call_def reject_subscription_checkout_def
    by (rule keeps_pool_exec; auto simp: Let_def)+
  show "keeps (\<lambda>d. ledger d = l) (save_subscription_checkout brand pv)"
    unfolding save_subscription_checkout_def Let_def
    by (intro keeps_rules keeps_pool_exec) (auto split: list.splits if_splits)
  show "keeps (\<lambda>d. ledger d = l) (update_subscription_from_provider pv)"
    unfolding update_subscription_from_provider_def Let_def by (intro keeps_rules keeps_pool_exec) auto
  show "keeps (\<lambda>d. ledger d = l) (record_subscription_webhook ok enc mid n topic pv notify)"
    unfolding record_subscription_webhook_def
    by (intro keeps_leaf keeps_seq keeps_in_tx frame_rules frames_statements frames_enqueue)
  show "keeps (\<lambda>d. ledger d = l) (request_subscription_confirmation ok enc mid actor brand)"
    unfolding request_subscription_confirmation_def by (intro keeps_in_tx frame_rules frames_enqueue)
  show "keeps (\<lambda>d. ledger d = l) (record_merchant_credit_allocation brand finance amount key ref invoice payment)"
    unfolding record_merchant_credit_allocation_def replay_or_allocate_def allocate_credit_def
    by (intro keeps_if keeps_leaf keeps_in_tx frame_rules frames_statements)
qed

lemma ledger_kept_cancel:
  "(\<And>r. offline (cancel r)) \<Longrightarrow> keeps (\<lambda>d. ledger d = l) (cancel_subscription_locked actor brand cancel)"
  unfolding cancel_subscription_locked_def cancel_locked_body_def subscription_record_def [where view = committed]
  by (intro keeps_rules keeps_in_tx frame_rules frames_require_pending frames_offline; simp add: Let_def)

lemma invoice_inv_kept:
  assumes "\<And>l. keeps (\<lambda>d. ledger d = l) m"
  shows "keeps invoice_inv m"
  using assms unfolding keeps_def by (metis invoice_inv_tables prod.inject)

lemma step_ledger:
  assumes "subscription_step d d1" and "invoice_inv d"
  shows "invoice_inv d1"
  using assms(1)
proof cases
  case (reserves actor brand external p1 p2)
  show ?thesis by (rule keeps_step [OF invoice_inv_kept [OF ledger_kept(1)] reserves assms(2)])
next
  case (claims brand external)
  show ?thesis by (rule keeps_step [OF invoice_inv_kept [OF ledger_kept(2)] claims assms(2)])
next
  case (saves brand pv)
  show ?thesis by (rule keeps_step [OF invoice_inv_kept [OF ledger_kept(3)] saves assms(2)])
next
  case (rejects brand external)
  show ?thesis by (rule keeps_step [OF invoice_inv_kept [OF ledger_kept(4)] rejects assms(2)])
next
  case (notified ok enc mid n topic pv notify)
  show ?thesis by (rule keeps_step [OF invoice_inv_kept [OF ledger_kept(5)] notified assms(2)])
next
  case (refreshes pv)
  show ?thesis by (rule keeps_step [OF invoice_inv_kept [OF ledger_kept(6)] refreshes assms(2)])
next
  case (confirms ok enc mid actor brand)
  show ?thesis by (rule keeps_step [OF invoice_inv_kept [OF ledger_kept(7)] confirms assms(2)])
next
  case (cancels cancel actor brand)
  show ?thesis by (rule keeps_step [OF invoice_inv_kept [OF ledger_kept_cancel [OF cancels(1)]] cancels(2) assms(2)])
next
  case (invoices advance n invoice payment)
  show ?thesis by (rule keeps_step [OF record_referral_invoice_ledger [OF invoices(1)] invoices(2) assms(2)])
next
  case (reverses n payment)
  show ?thesis by (rule keeps_step [OF reverse_referral_payment_ledger reverses assms(2)])
next
  case (allocates brand finance amount key ref invoice payment)
  show ?thesis by (rule keeps_step [OF invoice_inv_kept [OF ledger_kept(8)] allocates assms(2)])
qed

section \<open>A small database\<close>

definition demo_rival :: suscripcion where
  "demo_rival =
     \<lparr>sb_marca = 11, sb_proveedor = ''MERCADO_PAGO'', sb_proveedor_id = Some ''PB'', sb_referencia = ''RB'',
      sb_estado = ''AUTHORIZED'', sb_moneda = ''ARS'', sb_precio = 1000, sb_cantidad = 1, sb_importe = 1000,
      sb_checkout = None, sb_proximo = Some 100, sb_created = 0, sb_updated = 0, sb_trial_months = 0,
      sb_trial_ends = None, sb_rejected = False, sb_call_started = Some 0, sb_full = Some 1000,
      sb_transitioned = None, sb_program = None, sb_price_from = None\<rparr>"

definition demo_market :: billing_db where
  "demo_market =
     \<lparr>usuarios =
        [\<lparr>u_id = 1, u_email = ''op@x'', u_nombre = ''Ana'', u_apellido = None, u_tipo = ''PERSONAL_MARCA'',
          u_activo = True, u_deleted_at = None, u_qr_hash = None, u_codigo = None, u_verified_at = None\<rparr>],
      marcas = [\<lparr>m_id = 10, m_nombre = ''Cafe'', m_activo = True, m_deleted_at = None, m_zona = ''UTC'',
          m_trial_started = None, m_trial_estimated = False\<rparr>,
         \<lparr>m_id = 11, m_nombre = ''Pan'', m_activo = True, m_deleted_at = None, m_zona = ''UTC'',
          m_trial_started = None, m_trial_estimated = False\<rparr>],
      membresias = [\<lparr>mm_id = 1, mm_usuario = 1, mm_marca = 10, mm_rol = ''PROPIETARIO'', mm_activo = True, mm_version = 1\<rparr>],
      membresias_sucursales = [],
      sucursales = [\<lparr>s_id = 20, s_marca = 10, s_nombre = ''Centro'', s_activo = True, s_deleted_at = None,
          s_direccion = None, s_localidad = None, s_provincia = None, s_codigo_postal = None,
          s_latitud = None, s_longitud = None, s_principal = True, s_version = 1\<rparr>],
      programas = [\<lparr>p_id = 30, p_marca = 10, p_tipo = ''PUNTOS'', p_activo = True, p_created = 0\<rparr>],
      suscripciones = [demo_rival], branch_quotes = [], branch_operations = [],
      quantity_histories = [], attributions =
        [\<lparr>ra_brand = 10, ra_code = 1, ra_campaign = 1, ra_source_kind = ''MERCHANT'', ra_influencer = None,
          ra_source_brand = Some 11, ra_discount_bps = 5000, ra_discount_charges = 1, ra_reward_bps = 1000,
          ra_reward_charges = 6\<rparr>],
      charges = [], rewards = [], allocations = [], prices = [], price_changes = [], price_items = [],
      price_histories = [], eventos = [],
      backoffice_users = [\<lparr>bu_id = 5, bu_email = ''f@x'', bu_active = True, bu_role = ''FINANZAS''\<rparr>],
      backoffice_audit = [], confirmation_emails = [], campaigns = [], referral_codes = []\<rparr>"

definition demo_market_world :: "billing_db world" where
  "demo_market_world = \<lparr>committed = demo_market, working = demo_market, faults = [], app_now = 0, db_now = 10, sent = []\<rparr>"

definition demo_reserve :: "string \<Rightarrow> billing_db world \<Rightarrow> (err + billing_context \<times> subscription_record) \<times> billing_db world" where
  "demo_reserve external = reserve_subscription_checkout 1 10 external 900 1000"

definition demo_claim :: "string \<Rightarrow> billing_db world \<Rightarrow> (err + bool) \<times> billing_db world" where
  "demo_claim = claim_subscription_provider_call 10"

definition demo_provider :: "string \<Rightarrow> provider_subscription" where
  "demo_provider status = \<lparr>ps_id = ''PA'', ps_status = status, ps_reference = ''A'', ps_checkout = '''',
     ps_amount = 500, ps_next = Some 100\<rparr>"

definition demo_reserved :: "billing_db world" where
  "demo_reserved = snd (demo_reserve ''A'' demo_market_world)"

definition demo_claimed :: "billing_db world" where
  "demo_claimed = snd (demo_claim ''A'' demo_reserved)"

definition demo_saved :: "billing_db world" where
  "demo_saved = snd (save_subscription_checkout 10 (demo_provider ''authorized'') demo_claimed)"

definition demo_advance :: "string \<Rightarrow> int \<Rightarrow> string \<Rightarrow> (billing_db, unit) tx" where
  "demo_advance i amount k = call_out (''UpdateSubscriptionAmount'', i, amount) ()"

definition demo_invoice :: billing_invoice where
  "demo_invoice = \<lparr>iv_id = ''i1'', iv_subscription = ''PA'', iv_payment = ''p1'', iv_currency = ''ARS'',
     iv_payment_status = ''approved'', iv_amount = 500, iv_created = None\<rparr>"

definition demo_payment :: billing_payment where
  "demo_payment = \<lparr>py_id = ''p1'', py_status = ''approved'', py_currency = ''ARS'', py_reference = '''',
     py_amount = 500, py_refunded = 0, py_approved = None\<rparr>"

definition demo_charged :: "billing_db world" where
  "demo_charged = snd (record_referral_invoice demo_advance ''n1'' demo_invoice demo_payment demo_saved)"

lemma demo_reserved_row:
  "map (\<lambda>s. (sb_marca s, sb_estado s, sb_precio s, sb_importe s)) (suscripciones (committed demo_reserved)) =
     [(11, ''AUTHORIZED'', 1000, 1000), (10, ''CREATING'', 500, 500)]"
  by code_simp

lemma demo_charged_rows:
  "map (\<lambda>c. (rc_invoice c, rc_amount c, rc_full_amount c, rc_index c)) (charges (committed demo_charged)) = [(''i1'', 500, 1000, 1)]"
  "map (\<lambda>r. (rr_source_brand r, rr_amount r, rr_status r)) (rewards (committed demo_charged)) = [(Some 11, 50, ''PENDING'')]"
  "map sb_precio (suscripciones (committed demo_charged)) = [1000, 1000]"
  by code_simp+

lemma run_value: "\<not> isl (fst x) \<Longrightarrow> x = (Inr (projr (fst x)), snd x)"
  by (cases x; cases "fst x") auto

lemma run_step: "step_of m (committed w) (committed (snd (m w)))"
  unfolding step_of_def by (cases "m w") auto

lemma demo_steps:
  "subscription_step demo_market (committed demo_reserved)"
  "subscription_step (committed demo_reserved) (committed demo_claimed)"
  "subscription_step (committed demo_claimed) (committed demo_saved)"
  "subscription_step (committed demo_saved) (committed demo_charged)"
proof -
  have m: "demo_market = committed demo_market_world" by (simp add: demo_market_world_def)
  show "subscription_step demo_market (committed demo_reserved)"
    unfolding m demo_reserved_def demo_reserve_def by (rule subscription_step.reserves [OF run_step])
  show "subscription_step (committed demo_reserved) (committed demo_claimed)"
    unfolding demo_claimed_def demo_claim_def by (rule subscription_step.claims [OF run_step])
  show "subscription_step (committed demo_claimed) (committed demo_saved)"
    unfolding demo_saved_def by (rule subscription_step.saves [OF run_step])
  show "subscription_step (committed demo_saved) (committed demo_charged)"
    unfolding demo_charged_def
    by (rule subscription_step.invoices [OF _ run_step]) (simp add: demo_advance_def [abs_def] offline_call_out)
qed

lemma demo_history: "subscription_step\<^sup>*\<^sup>* demo_market (committed demo_charged)"
  using demo_steps by (meson converse_rtranclp_into_rtranclp rtranclp.rtrancl_refl)

lemma demo_market_inv: "subscription_inv demo_market" "invoice_inv demo_market"
  by (simp_all add: subscription_inv_def demo_market_def demo_rival_def pid_distinct_def row_checked_def full_unit_def
    max_subscription_amount_def invoice_inv_def charges_ok_def)

section \<open>The properties\<close>

text \<open>
  C23. Over every sequence of the modelled subscription operations, failed ones included, the rows of the subscriptions
  satisfy the constraints of the table: the provider's identifier is present exactly from the
  provider's answer on, the monthly amount is price times branches within the bound, and brands,
  references and provider identifiers are unique.
\<close>

theorem subscription_rows_well_formed:
  assumes "subscription_step\<^sup>*\<^sup>* d d1" and "subscription_inv d"
  shows "subscription_inv d1"
  using assms by (induction rule: rtranclp_induct) (auto dest: step_conforms)

theorem subscription_rows_well_formed_witness: "subscription_inv (committed demo_charged)"
  by (rule subscription_rows_well_formed [OF demo_history demo_market_inv(1)])

text \<open>
  C20. Every operation moves the subscription of every brand along the life cycle: reserved, call
  to the provider started, live under one provider identifier, ended; an ended subscription only
  gives way to a reservation under another reference.
\<close>

theorem subscription_life_cycle:
  assumes "subscription_step d d1" and "subscription_inv d"
  shows "lifecycle_step (lifecycle_of d brand) (lifecycle_of d1 brand)"
  using step_conforms [OF assms] by (simp add: life_moves_def)

theorem subscription_life_cycle_witness:
  "lifecycle_step (Calling ''A'') (Live ''A'' ''PA'' ''AUTHORIZED'')"
proof -
  have l: "lifecycle_of (committed demo_claimed) 10 = Calling ''A''"
    "lifecycle_of (committed demo_saved) 10 = Live ''A'' ''PA'' ''AUTHORIZED''" by code_simp+
  have "subscription_inv (committed demo_claimed)"
    using step_conforms [OF demo_steps(1) demo_market_inv(1)] step_conforms [OF demo_steps(2)] by blast
  from subscription_life_cycle [OF demo_steps(3) this, of 10] show ?thesis unfolding l .
qed

lemma claim_Inr:
  "claim_subscription_provider_call brand external w = (Inr b, w1) \<Longrightarrow>
     b = (rows_affected (\<lambda>s. sb_marca s = brand \<and> sb_referencia s = external \<and> sb_estado s = ''CREATING''
           \<and> sb_call_started s = None) (suscripciones (committed w)) = 1)
     \<and> suscripciones (committed w1) = update_where (\<lambda>s. sb_marca s = brand \<and> sb_referencia s = external
           \<and> sb_estado s = ''CREATING'' \<and> sb_call_started s = None)
         (\<lambda>s. s\<lparr>sb_call_started := Some (db_now w), sb_updated := db_now w\<rparr>) (suscripciones (committed w))"
  by (auto simp: claim_subscription_provider_call_def pool_exec_Inr Let_def)

lemma one_row_affected:
  assumes "rows_affected p rows = 1"
  shows "\<exists>r \<in> set rows. p r"
proof -
  from assms have "filter p rows \<noteq> []" by (auto simp: rows_affected_def)
  then show ?thesis by (auto simp: filter_empty_conv)
qed

lemma find_suscripcion_row:
  assumes "subscription_inv d" "s \<in> set (suscripciones d)"
  shows "find_suscripcion (sb_marca s) d = Some s"
  unfolding find_suscripcion_def by (rule find_key [OF subscription_invD(1) [OF assms(1)] assms(2)])

lemma claimed_life:
  assumes inv: "subscription_inv (committed w)"
    and run: "claim_subscription_provider_call brand external w = (Inr True, w1)"
  shows "lifecycle_of (committed w) brand = Reserved external" "lifecycle_of (committed w1) brand = Calling external"
proof -
  from claim_Inr [OF run] obtain s where s: "s \<in> set (suscripciones (committed w))" "sb_marca s = brand"
      "sb_referencia s = external" "sb_estado s = ''CREATING''" "sb_call_started s = None"
    using one_row_affected by blast
  have f: "find_suscripcion brand (committed w) = Some s" using find_suscripcion_row [OF inv s(1)] s(2) by simp
  then show "lifecycle_of (committed w) brand = Reserved external" using s by (simp add: lifecycle_of_def row_life_def)
  have "find_suscripcion brand (committed w1) = Some (s\<lparr>sb_call_started := Some (db_now w), sb_updated := db_now w\<rparr>)"
    using f s unfolding find_suscripcion_def claim_Inr [OF run, THEN conjunct2]
    by (subst find_update_where) auto
  then show "lifecycle_of (committed w1) brand = Calling external" using s by (simp add: lifecycle_of_def row_life_def)
qed

text \<open>The rest of the life of a reservation whose provider call was claimed.\<close>

definition past_call :: "string \<Rightarrow> lifecycle \<Rightarrow> bool" where
  "past_call r x \<longleftrightarrow> (case x of Calling q \<Rightarrow> q = r | Live q _ _ \<Rightarrow> q = r | Ended q \<Rightarrow> q = r | _ \<Rightarrow> False)"

lemma past_call_step:
  assumes "lifecycle_step x y" "past_call r x"
  shows "past_call r y \<or> (\<exists>q. q \<noteq> r \<and> y = Reserved q)"
  using assms by cases (auto simp: past_call_def)

text \<open>
  C19. The provider is asked to create a subscription at most once per reservation: after a claim
  of the call succeeded, no claim for the same reference succeeds while the brand's row keeps
  that reference, whatever operations run in between.
\<close>

theorem single_provider_call:
  assumes inv: "subscription_inv (committed w)"
    and first: "claim_subscription_provider_call brand external w = (Inr True, w1)"
    and history: "(\<lambda>x y. subscription_step x y
        \<and> (\<forall>s. find_suscripcion brand y = Some s \<longrightarrow> sb_referencia s = external))\<^sup>*\<^sup>* (committed w1) (committed w2)"
    and again: "claim_subscription_provider_call brand external w2 = (Inr b, w3)"
  shows "\<not> b"
proof
  assume b
  have inv1: "subscription_inv (committed w1)" by (rule conformsD(1) [OF claim_conforms inv first])
  from history have "subscription_inv (committed w2) \<and> past_call external (lifecycle_of (committed w2) brand)"
  proof (induction rule: rtranclp_induct)
    case base
    then show ?case using inv1 claimed_life(2) [OF inv first] by (simp add: past_call_def)
  next
    case (step y z)
    have c: "subscription_inv z" "lifecycle_step (lifecycle_of y brand) (lifecycle_of z brand)"
      using step_conforms [of y z] step by (auto simp: life_moves_def)
    have "lifecycle_of z brand \<noteq> Reserved q" if "q \<noteq> external" for q
    proof
      assume "lifecycle_of z brand = Reserved q"
      then obtain s where "find_suscripcion brand z = Some s" "sb_referencia s = q"
        by (auto simp: lifecycle_of_def row_life_def split: option.splits if_splits)
      with step.hyps(2) that show False by blast
    qed
    with past_call_step [OF c(2), of external] step.IH c(1) show ?case by blast
  qed
  with claimed_life(1) [of w2 brand external w3] again \<open>b\<close> show False by (simp add: past_call_def)
qed

theorem single_provider_call_witness: "\<not> projr (fst (demo_claim ''A'' demo_saved))"
proof -
  have inv: "subscription_inv (committed demo_reserved)"
    using step_conforms [OF demo_steps(1) demo_market_inv(1)] by blast
  have ok: "fst (demo_claim ''A'' demo_reserved) = Inr True" "\<not> isl (fst (demo_claim ''A'' demo_saved))"
    and ref: "map_option sb_referencia (find_suscripcion 10 (committed demo_saved)) = Some ''A''" by code_simp+
  have first: "claim_subscription_provider_call 10 ''A'' demo_reserved = (Inr True, demo_claimed)"
    using ok(1) unfolding demo_claim_def demo_claimed_def by (metis prod.collapse)
  have step: "(\<lambda>x y. subscription_step x y \<and> (\<forall>s. find_suscripcion 10 y = Some s \<longrightarrow> sb_referencia s = ''A''))\<^sup>*\<^sup>*
      (committed demo_claimed) (committed demo_saved)"
    by (rule r_into_rtranclp) (use demo_steps(3) ref in auto)
  show ?thesis
    by (rule single_provider_call [OF inv first step run_value [OF ok(2) [unfolded demo_claim_def]], folded demo_claim_def])
qed

text \<open>
  A reservation either hands back the brand's row as it is, because it is still being created
  or carries this reference, or replaces an ended row (or none) by one that is being created at
  the price of the catalogue, discounted while charges with a discount are left; no amount
  overflows, and no live subscription is overwritten.
\<close>

lemma reservation_bounded:
  assumes inv: "subscription_inv (committed w)"
    and run: "reserve_subscription_checkout actor brand external stamp_price points_price w = (Inr (b, r), w1)"
  shows "reservation_kept (committed w) brand external r \<and> committed w1 = committed w
    \<or> lifecycle_of (committed w) brand \<in> {Absent} \<union> range Ended
      \<and> lifecycle_of (committed w1) brand = Reserved external
      \<and> (\<exists>full n. 1 \<le> full \<and> 1 \<le> n \<and> full * n \<le> max_subscription_amount
          \<and> su_unit (sr_subscription r) = reservation_price (committed w) brand full
          \<and> su_monthly (sr_subscription r) = reservation_price (committed w) brand full * n)"
  using inv run
proof (cases rule: reserve_checkout_Inr)
  case kept
  then show ?thesis by blast
next
  case (fresh v)
  note f = reserved_freshD [OF fresh(1)]
  have old: "lifecycle_of (committed w) brand \<in> {Absent} \<union> range Ended"
    using f(8) by (auto simp: lifecycle_of_def row_life_def split: option.split)
  have new: "lifecycle_of (committed w1) brand = Reserved external"
    unfolding fresh(3) lifecycle_of_def
    by (subst find_with_row) (simp_all add: upserted_def row_life_def f(1))
  have "1 \<le> rv_full v \<and> 1 \<le> rv_branches v \<and> rv_full v * rv_branches v \<le> max_subscription_amount"
    using fresh(2) f(2) amount_bound [OF f(2,5)] by simp
  then show ?thesis using old new fresh(6,7) f(6) by metis
qed

lemma reservation_bounded_example:
  "lifecycle_of (committed demo_reserved) 10 = Reserved ''A''"
proof -
  have ok: "\<not> isl (fst (demo_reserve ''A'' demo_market_world))"
    and ch: "find_suscripcion 10 demo_market = None" by code_simp+
  obtain b r where v: "projr (fst (demo_reserve ''A'' demo_market_world)) = (b, r)" by (cases "projr (fst (demo_reserve ''A'' demo_market_world))")
  have run: "reserve_subscription_checkout 1 10 ''A'' 900 1000 demo_market_world = (Inr (b, r), demo_reserved)"
    using run_value [OF ok, unfolded v] unfolding demo_reserve_def demo_reserved_def .
  have c: "committed demo_market_world = demo_market" by (simp add: demo_market_world_def)
  from reservation_bounded [OF _ run] demo_market_inv(1) ch show ?thesis by (auto simp: c reservation_kept_def)
qed

text \<open>
  A notification of the provider is applied at most once: when one with this identifier was
  recorded, any later one succeeds without touching the database, whatever it says.
\<close>

lemma webhook_applied_once:
  assumes first: "record_subscription_webhook ok enc mid n topic pv notify w = (Inr u, w1)"
    and later: "eventos (committed w2) = eventos (committed w1) @ rest"
    and again: "record_subscription_webhook ok2 enc2 mid2 n topic2 pv2 notify2 w2 = (Inr u2, w3)"
  shows "committed w3 = committed w2"
proof -
  have "list_ex (\<lambda>x. fst x = n) (eventos (committed w1))"
    using first
  proof (cases rule: record_webhook_Inr)
    case (1 st)
    then show ?thesis by (cases "list_ex (\<lambda>x. fst x = n) (eventos (committed w))") simp_all
  qed
  then have seen: "list_ex (\<lambda>x. fst x = n) (eventos (committed w2))" by (simp add: later)
  from again show ?thesis
  proof (cases rule: record_webhook_Inr)
    case (1 st)
    then show ?thesis using seen by simp
  qed
qed

definition demo_webhook :: "string \<Rightarrow> billing_db world \<Rightarrow> (err + unit) \<times> billing_db world" where
  "demo_webhook status = record_subscription_webhook True (Inr ()) ''m'' ''n7'' ''subscription_preapproval'' (demo_provider status) False"

lemma webhook_applied_once_example:
  "committed (snd (demo_webhook ''cancelled'' (snd (demo_webhook ''paused'' demo_saved)))) = committed (snd (demo_webhook ''paused'' demo_saved))"
proof -
  let ?w = "snd (demo_webhook ''paused'' demo_saved)"
  have ok: "\<not> isl (fst (demo_webhook ''paused'' demo_saved))" "\<not> isl (fst (demo_webhook ''cancelled'' ?w))" by code_simp+
  show ?thesis
    using webhook_applied_once [OF run_value [OF ok(1), unfolded demo_webhook_def] _ run_value [OF ok(2), unfolded demo_webhook_def],
      of "[]"] by (simp add: demo_webhook_def)
qed

text \<open>
  C18. Over every sequence of the modelled subscription operations, failed ones included, the charges of each brand are
  numbered from one without a gap, every invoice and every payment is charged at most once for a
  positive amount no higher than the full price, and no reward of a refunded charge is payable.
\<close>

theorem ledger_history:
  assumes "subscription_step\<^sup>*\<^sup>* d d1" and "invoice_inv d"
  shows "invoice_inv d1"
  using assms by (induction rule: rtranclp_induct) (auto dest: step_ledger)

theorem ledger_history_witness: "invoice_inv (committed demo_charged)"
  by (rule ledger_history [OF demo_history demo_market_inv(2)])

text \<open>
  C22. A notification of an invoice adds a charge only for an approved payment of exactly the
  invoice's amount; the charge carries the next number of its brand, and the reward it earns is
  the collected amount times the agreed share, to the nearest minor unit, and only within the
  agreed number of charges.
\<close>

theorem referral_invoice_exact:
  assumes off: "\<And>i a k. offline (advance i a k)"
    and run: "record_referral_invoice advance n invoice payment w = (Inr u, w1)"
    and grown: "length (charges (committed w1)) \<noteq> length (charges (committed w))"
    and bound: "py_amount payment \<le> max_subscription_amount"
    and rates: "\<And>a. a \<in> set (attributions (committed w)) \<Longrightarrow> 0 \<le> ra_reward_bps a \<and> ra_reward_bps a \<le> 10000"
  shows "\<exists>s full. invoice_subscription invoice (committed w) = Some s
    \<and> (let index = paid_count (sb_marca s) (committed w) + 1;
           earned = (case find_attribution (sb_marca s) (committed w) of None \<Rightarrow> 0
             | Some a \<Rightarrow> if index \<le> ra_reward_charges a then (py_amount payment * ra_reward_bps a + 5000) div 10000 else 0)
       in charges (committed w1) = charges (committed w) @ [charge_of invoice payment s full index]
        \<and> py_status payment = ''approved'' \<and> \<not> payment_reversed payment \<and> iv_amount invoice = py_amount payment
        \<and> map rr_amount (rewards (committed w1)) = map rr_amount (rewards (committed w)) @ (if 0 < earned then [earned] else []))"
  using off run
proof (cases rule: record_referral_invoice_Inr)
  case ignored
  with grown show ?thesis by simp
next
  case reversed
  with grown show ?thesis by (simp add: reversal_of_invoice_def rewards_reversed_def charges_refunded_def allocations_recovered_def)
next
  case (charged s full)
  let ?d = "committed w"
  let ?index = "paid_count (sb_marca s) ?d + 1"
  let ?att = "find_attribution (sb_marca s) ?d"
  note acc = charged(2) [unfolded charge_accepted_def Let_def]
  have pay: "py_status payment = ''approved''" "0 < py_amount payment" "\<not> payment_reversed payment"
    "iv_amount invoice = py_amount payment" using acc by blast+
  have idx: "1 \<le> ?index" by (simp add: paid_count_def)
  have rw: "map rr_amount (case reward_of ?att invoice (sb_marca s) (py_amount payment) ?index of None \<Rightarrow> [] | Some r \<Rightarrow> [r])
      = (let earned = (case ?att of None \<Rightarrow> 0
             | Some a \<Rightarrow> if ?index \<le> ra_reward_charges a then (py_amount payment * ra_reward_bps a + 5000) div 10000 else 0)
         in if 0 < earned then [earned] else [])"
  proof (cases ?att)
    case None
    then show ?thesis by (simp add: reward_of_def)
  next
    case (Some a)
    then have "a \<in> set (attributions ?d)" by (auto simp: find_attribution_def find_Some_iff)
    with rates have b: "0 \<le> ra_reward_bps a" "ra_reward_bps a \<le> 10000" by auto
    show ?thesis
    proof (cases "?index \<le> ra_reward_charges a")
      case True
      have "referral_reward_minor (py_amount payment) ?index (ra_reward_bps a) (ra_reward_charges a) =
          (py_amount payment * ra_reward_bps a + 5000) div 10000"
        using pay(2) by (intro referral_reward_minor_eq [OF _ bound b idx True]) simp
      with Some True show ?thesis by (simp add: reward_of_def Let_def)
    next
      case False
      then have "referral_reward_minor (py_amount payment) ?index (ra_reward_bps a) (ra_reward_charges a) = 0"
        by (simp add: referral_reward_minor_def)
      with Some False show ?thesis by (simp add: reward_of_def Let_def)
    qed
  qed
  have ch: "charges (committed w1) = charges ?d @ [charge_of invoice payment s full ?index]"
    "rewards (committed w1) = rewards ?d @ (case reward_of ?att invoice (sb_marca s) (py_amount payment) ?index of None \<Rightarrow> [] | Some r \<Rightarrow> [r])"
    unfolding charged(3) after_charge_def Let_def by (simp_all add: reward_added_def split: option.split)
  show ?thesis
    using charged(1) ch pay rw by (intro exI [of _ s] exI [of _ full]) (simp add: Let_def)
qed

lemma demo_invoice_run:
  "record_referral_invoice demo_advance ''n1'' demo_invoice demo_payment demo_saved =
     (Inr (projr (fst (record_referral_invoice demo_advance ''n1'' demo_invoice demo_payment demo_saved))), demo_charged)"
proof -
  have "\<not> isl (fst (record_referral_invoice demo_advance ''n1'' demo_invoice demo_payment demo_saved))" by code_simp
  from run_value [OF this] show ?thesis unfolding demo_charged_def .
qed

theorem referral_invoice_exact_witness:
  "map rr_amount (rewards (committed demo_charged)) = [(500 * 1000 + 5000) div 10000]"
proof -
  have t: "charges (committed demo_saved) = []" "rewards (committed demo_saved) = []"
    "attributions (committed demo_saved) = attributions demo_market"
    "map_option sb_marca (invoice_subscription demo_invoice (committed demo_saved)) = Some 10"
    "length (charges (committed demo_charged)) = 1" by code_simp+
  have off: "offline (demo_advance i a k)" for i a k by (simp add: demo_advance_def offline_call_out)
  have b: "py_amount demo_payment \<le> max_subscription_amount" by (simp add: demo_payment_def max_subscription_amount_def)
  have rates: "0 \<le> ra_reward_bps a \<and> ra_reward_bps a \<le> 10000" if "a \<in> set (attributions (committed demo_saved))" for a
    using that unfolding t(3) by (simp add: demo_market_def)
  obtain s full where e: "invoice_subscription demo_invoice (committed demo_saved) = Some s"
    "let index = paid_count (sb_marca s) (committed demo_saved) + 1;
           earned = (case find_attribution (sb_marca s) (committed demo_saved) of None \<Rightarrow> 0
             | Some a \<Rightarrow> if index \<le> ra_reward_charges a then (py_amount demo_payment * ra_reward_bps a + 5000) div 10000 else 0)
       in charges (committed demo_charged) = charges (committed demo_saved) @ [charge_of demo_invoice demo_payment s full index]
        \<and> py_status demo_payment = ''approved'' \<and> \<not> payment_reversed demo_payment \<and> iv_amount demo_invoice = py_amount demo_payment
        \<and> map rr_amount (rewards (committed demo_charged)) = map rr_amount (rewards (committed demo_saved)) @ (if 0 < earned then [earned] else [])"
    using referral_invoice_exact [OF off demo_invoice_run _ b rates] t(1,5) by auto
  from e(1) t(4) have "sb_marca s = 10" by simp
  with e(2) show ?thesis by (simp add: Let_def t(1-3) find_attribution_def demo_market_def paid_count_def demo_payment_def)
qed

text \<open>
  A payment that the provider gives back leaves nothing payable: its charge is refunded, the
  rewards of that charge are void or to be recovered, and every credit allocated on the payment
  is to be recovered.
\<close>

lemma reversed_payment_not_payable:
  assumes inv: "invoice_inv (committed w)"
    and run: "reverse_referral_payment n payment w = (Inr u, w1)" and given: "payment_reversed payment"
  shows "(\<forall>c \<in> set (charges (committed w1)). rc_payment c = py_id payment \<longrightarrow> rc_status c = ''REFUNDED''
      \<and> (\<forall>r \<in> set (rewards (committed w1)). rr_invoice r = rc_invoice c \<longrightarrow> rr_status r \<notin> {''PENDING'', ''SETTLED''}))
    \<and> (\<forall>a \<in> set (allocations (committed w1)). al_payment a = py_id payment \<longrightarrow> al_status a \<noteq> ''RECORDED'')"
proof -
  let ?d = "committed w" and ?d1 = "committed w1"
  have w1: "?d1 = after_reversal n payment (db_now w) ?d"
    using reverse_referral_payment_Inr [OF run] given by (auto simp: payment_reversed_def)
  have inv1: "invoice_inv ?d1" by (rule keepsD [OF reverse_referral_payment_ledger inv run])
  have al: "allocations ?d1 = allocations (allocations_recovered (py_id payment) (db_now w) ?d)"
    unfolding w1 after_reversal_def Let_def
    by (auto simp: rewards_reversed_def charges_refunded_def split: option.split)
  have a: "al_status a \<noteq> ''RECORDED''" if "a \<in> set (allocations ?d1)" "al_payment a = py_id payment" for a
  proof -
    from that(1) obtain y where "a = (if al_payment y = py_id payment \<and> al_status y = ''RECORDED''
        then y\<lparr>al_status := ''RECOVERY_DUE'', al_recovery := Some (db_now w)\<rparr> else y)"
      unfolding al by (auto simp: allocations_recovered_def set_update_where)
    with that(2) show ?thesis by (cases "al_payment y = py_id payment \<and> al_status y = ''RECORDED''") auto
  qed
  have c: "rc_status c = ''REFUNDED''" if c: "c \<in> set (charges ?d1)" "rc_payment c = py_id payment" for c
  proof (cases "List.find (\<lambda>c. rc_payment c = py_id payment) (charges ?d)")
    case None
    then have "\<forall>c \<in> set (charges ?d). rc_payment c \<noteq> py_id payment" by (auto simp: find_None_iff)
    moreover have "charges ?d1 = charges ?d" using None by (simp add: w1 after_reversal_def)
    ultimately show ?thesis using c by auto
  next
    case (Some x)
    then have x: "x \<in> set (charges ?d)" "rc_payment x = py_id payment" by (auto simp: find_Some_iff)
    have ch: "charges ?d1 = update_where (\<lambda>y. rc_invoice y = rc_invoice x \<and> rc_status y = ''APPROVED'')
        (\<lambda>c. c\<lparr>rc_status := ''REFUNDED''\<rparr>) (charges ?d)"
      using Some by (simp add: w1 after_reversal_def Let_def rewards_reversed_def charges_refunded_def)
    then obtain y where y: "y \<in> set (charges ?d)" "rc_payment y = rc_payment c"
        "c = (if rc_invoice y = rc_invoice x \<and> rc_status y = ''APPROVED'' then y\<lparr>rc_status := ''REFUNDED''\<rparr> else y)"
      using c(1) by (auto simp: set_update_where)
    have ok: "charges_ok (charges ?d)" using inv by (simp add: invoice_inv_def)
    then have "distinct (map rc_payment (charges ?d))" by (simp add: charges_ok_def)
    from distinct_key_unique [OF this y(1) x(1)] y(2) x(2) c(2) have "y = x" by simp
    with y(3) show ?thesis using ok x(1) unfolding charges_ok_def by (auto split: if_splits)
  qed
  have r: "rr_status r \<notin> {''PENDING'', ''SETTLED''}"
    if c1: "c \<in> set (charges ?d1)" "rc_payment c = py_id payment" and r: "r \<in> set (rewards ?d1)" "rr_invoice r = rc_invoice c" for c r
  proof -
    from inv1 r(1) have "reward_backed (charges ?d1) r" by (simp add: invoice_inv_def)
    then obtain x where x: "x \<in> set (charges ?d1)" "rc_invoice x = rr_invoice r"
        "rc_status x = ''REFUNDED'' \<longrightarrow> rr_status r \<notin> {''PENDING'', ''SETTLED''}" unfolding reward_backed_def by blast
    have "distinct (map rc_invoice (charges ?d1))" using inv1 by (simp add: invoice_inv_def charges_ok_def)
    from distinct_key_unique [OF this x(1) c1(1)] x(2) r(2) have "x = c" by simp
    with x(3) c [OF c1] show ?thesis by simp
  qed
  from a c r show ?thesis by blast
qed

definition demo_chargeback :: "billing_db world" where
  "demo_chargeback = snd (reverse_referral_payment ''n2'' (demo_payment\<lparr>py_status := ''charged_back''\<rparr>) demo_charged)"

lemma reversed_payment_not_payable_example:
  "map rc_status (charges (committed demo_chargeback)) = [''REFUNDED'']"
proof -
  have one: "map rc_payment (charges (committed demo_chargeback)) = [''p1'']" by code_simp
  have ok: "\<not> isl (fst (reverse_referral_payment ''n2'' (demo_payment\<lparr>py_status := ''charged_back''\<rparr>) demo_charged))" by code_simp
  have inv: "invoice_inv (committed demo_charged)"
    using demo_market_inv(2) demo_steps step_ledger by blast
  have b: "payment_reversed (demo_payment\<lparr>py_status := ''charged_back''\<rparr>)" by (simp add: payment_reversed_def)
  have "rc_status c = ''REFUNDED''" if "c \<in> set (charges (committed demo_chargeback))" "rc_payment c = ''p1''" for c
    using reversed_payment_not_payable [OF inv run_value [OF ok] b] that by (simp add: demo_chargeback_def demo_payment_def)
  with one show ?thesis by (cases "charges (committed demo_chargeback)") auto
qed

lemma sub64_nonneg: "0 \<le> a \<Longrightarrow> a < 2 ^ 63 \<Longrightarrow> 0 \<le> b \<Longrightarrow> b < 2 ^ 63 \<Longrightarrow> sub64 a b = a - b"
  by (simp add: sub64_def in_int64_def)

lemma sum_filtered_nonneg: "(\<And>x. x \<in> set xs \<Longrightarrow> 0 \<le> f x) \<Longrightarrow> 0 \<le> sum_list (map f (filter p xs :: 'x list) :: int list)"
  by (induction xs) auto

text \<open>
  C21. A credit of a merchant is recorded once per key, and never takes the credits of the
  merchant over the pending rewards it has earned nor the credits on a payment over that payment.
\<close>

theorem credit_covered_and_once:
  assumes run: "record_merchant_credit_allocation brand finance amount key reference invoice payment w = (Inr a, w1)"
    and amounts: "\<And>r. r \<in> set (rewards (committed w)) \<Longrightarrow> 0 \<le> rr_amount r"
      "\<And>x. x \<in> set (allocations (committed w)) \<Longrightarrow> 0 \<le> al_amount x"
    and sums: "accrued_credit (committed w) brand < 2 ^ 63" "allocated_to_brand (committed w) brand < 2 ^ 63"
      "allocated_of_payment (committed w) (py_id payment) < 2 ^ 63" "0 \<le> py_amount payment" "py_amount payment < 2 ^ 63"
  shows "a \<in> set (allocations (committed w)) \<and> al_key a = key \<and> al_amount a = amount \<and> committed w1 = committed w
    \<or> key \<notin> al_key ` set (allocations (committed w)) \<and> allocations (committed w1) = allocations (committed w) @ [a]
      \<and> allocated_to_brand (committed w1) brand \<le> accrued_credit (committed w1) brand
      \<and> allocated_of_payment (committed w1) (py_id payment) \<le> py_amount payment"
  using run
proof (cases rule: record_credit_Inr)
  case replay
  then show ?thesis by simp
next
  case (fresh w2 w3)
  let ?d = "committed w"
  note t = allocate_credit_Inr [OF fresh(2), unfolded fresh(3)]
  have pos: "0 \<le> accrued_credit ?d brand" "0 \<le> allocated_to_brand ?d brand" "0 \<le> allocated_of_payment ?d (py_id payment)"
    unfolding accrued_credit_def allocated_to_brand_def allocated_of_payment_def
    by (rule sum_filtered_nonneg, use amounts in simp)+
  have cov: "amount \<le> accrued_credit ?d brand - allocated_to_brand ?d brand"
      "amount \<le> py_amount payment - allocated_of_payment ?d (py_id payment)"
    using t(1) pos sums by (simp_all add: credit_covered_def sub64_nonneg)
  have a: "al_brand a = brand" "al_amount a = amount" "al_payment a = py_id payment"
    by (simp_all add: t(4) credit_allocation_def)
  have s: "allocations (committed w1) = allocations ?d @ [a]" "rewards (committed w1) = rewards ?d"
    using t(5,6) fresh(4) by simp_all
  have "accrued_credit (committed w1) brand = accrued_credit ?d brand"
    "allocated_to_brand (committed w1) brand = allocated_to_brand ?d brand + amount"
    "allocated_of_payment (committed w1) (py_id payment) = allocated_of_payment ?d (py_id payment) + amount"
    by (simp_all add: accrued_credit_def allocated_to_brand_def allocated_of_payment_def s a)
  with cov s(1) t(2) show ?thesis by simp
qed

definition demo_credit_invoice :: billing_invoice where
  "demo_credit_invoice = demo_invoice\<lparr>iv_id := ''i2'', iv_subscription := ''PB'', iv_payment := ''p2'', iv_amount := 1000\<rparr>"

definition demo_credit :: "billing_db world \<Rightarrow> (err + allocation) \<times> billing_db world" where
  "demo_credit = record_merchant_credit_allocation 11 5 40 ''k1'' ''transfer-1'' demo_credit_invoice
     (demo_payment\<lparr>py_id := ''p2'', py_amount := 1000\<rparr>)"

theorem credit_covered_and_once_witness:
  "allocated_to_brand (committed (snd (demo_credit demo_charged))) 11 \<le> accrued_credit (committed (snd (demo_credit demo_charged))) 11"
proof -
  have ok: "\<not> isl (fst (demo_credit demo_charged))" and al: "allocations (committed demo_charged) = []"
    and rw: "map rr_amount (rewards (committed demo_charged)) = [50]"
    and sums: "accrued_credit (committed demo_charged) 11 < 2 ^ 63" "allocated_to_brand (committed demo_charged) 11 < 2 ^ 63"
      "allocated_of_payment (committed demo_charged) ''p2'' < 2 ^ 63" by code_simp+
  have pos: "0 \<le> rr_amount r" if "r \<in> set (rewards (committed demo_charged))" for r
    using rw that by (cases "rewards (committed demo_charged)") auto
  note run = run_value [OF ok, unfolded demo_credit_def]
  show ?thesis
    using credit_covered_and_once [OF run pos _ sums(1,2)] sums(3) al by (simp add: demo_credit_def demo_payment_def)
qed

text \<open>
  The discounted price of a branch is the price less the discount, to the nearest minor unit,
  and lies between zero and the full price.
\<close>

lemma discounted_price_nearest:
  assumes "0 \<le> full" "full \<le> max_subscription_amount" "0 \<le> bps" "bps \<le> 10000"
  shows "0 \<le> discounted_minor full bps \<and> discounted_minor full bps \<le> full
    \<and> \<bar>10000 * discounted_minor full bps - full * (10000 - bps)\<bar> \<le> 5000"
  using nearest_percent [of full "10000 - bps"] discounted_minor_eq [OF assms] assms by simp

lemma discounted_price_nearest_example:
  "\<bar>10000 * discounted_minor 99999 3333 - 99999 * (10000 - 3333)\<bar> \<le> 5000"
  using discounted_price_nearest [of 99999 3333] by (simp add: max_subscription_amount_def)

text \<open>
  A trial ends on the same day of the next month in Argentina, or on that month's last day,
  at the same time of the day, 28 to 31 days later.
\<close>

lemma trial_lasts_a_calendar_month:
  assumes "date_of (argentina_day start) = (y, m, d)"
  shows "date_of (argentina_day (trial_end start)) =
      (norm_year y (m + 1), norm_month (m + 1), min d (month_len (norm_year y (m + 1)) (norm_month (m + 1))))
    \<and> (trial_end start - 10800000000000) mod day_ns = (start - 10800000000000) mod day_ns
    \<and> argentina_day (trial_end start) - argentina_day start \<in> {28..31}"
  using trial_end_date [OF assms] by blast

lemma trial_lasts_a_calendar_month_example:
  "date_of (argentina_day (trial_end ((30 - epoch_day) * day_ns + 10800000000000))) = (0, 2, 29)"
proof -
  have "argentina_day ((30 - epoch_day) * day_ns + 10800000000000) = 30" by code_simp
  then have "date_of (argentina_day ((30 - epoch_day) * day_ns + 10800000000000)) = (0, 1, 31)" by code_simp
  from trial_lasts_a_calendar_month [OF this]
  show ?thesis by (simp add: norm_year_def norm_month_def month_len_def leap_def)
qed

end
