(* ===== verification/MercadoPago.thy ===== *)
theory MercadoPago
  imports Billing GoText
begin

text \<open>
  The client of the payment provider (\<^verbatim>\<open>internal/mercadopago/client.go\<close> and \<^verbatim>\<open>branch.go\<close>).
  The provider is a function from the requests it has received to its reply, so its answers may
  depend on everything it was sent. A reply is lost, or carries a status and, when its body is
  JSON of the expected shape, the decoded value; amounts and identifiers stay the texts of the
  JSON numbers.
\<close>

section \<open>Amounts\<close>

definition decimal_minor :: "string \<Rightarrow> string + int" where
  "decimal_minor raw =
     (let parts = split_on CHR ''.'' raw in
      if length parts = 0 \<or> 2 < length parts \<or> parts ! 0 = '''' \<or> has_prefix raw ''-''
      then Inl ''invalid payment amount''
      else case parse_signed (parts ! 0) of
        None \<Rightarrow> Inl ''payment amount overflow''
      | Some whole \<Rightarrow>
          if quo64 (max_int64 - 99) 100 < whole then Inl ''payment amount overflow''
          else if length parts = 2 \<and> (length (parts ! 1) = 0 \<or> 2 < length (parts ! 1))
          then Inl ''invalid payment precision''
          else
            let fraction = (if length parts = 2 then parts ! 1 @ replicate (2 - length (parts ! 1)) CHR ''0'' else ''00'')
            in case parse_signed fraction of
                 None \<Rightarrow> Inl ''invalid syntax''
               | Some cents \<Rightarrow> Inr (add64 (mul64 whole 100) cents))"

definition minor_json :: "int \<Rightarrow> string" where
  "minor_json cents = show_int (quo64 cents 100) @ ''.'' @ pad2 (rem64 cents 100)"

definition numeric_id :: "string \<Rightarrow> bool" where
  "numeric_id i \<longleftrightarrow> i \<noteq> '''' \<and> list_all is_digit i"

section \<open>Requests\<close>

datatype mp_resource =
    New_preapproval
  | Preapproval string
  | Preapproval_search string
  | Authorized_payment string
  | Payment string
  | Payment_search string bool
  | New_preference
  | Refunds string

datatype mp_start = Starts_at int | Free_months int | Starts_now

datatype mp_body =
    No_body
  | Subscription_body string string string string string string mp_start
  | Amount_body string string
  | Cancel_body
  | Preference_body string string string string int
  | Refund_body

record mp_request =
  rq_method :: string
  rq_resource :: mp_resource
  rq_key :: "string option"
  rq_body :: mp_body

record preapproval =
  pa_id :: string
  pa_status :: string
  pa_reference :: string
  pa_init_point :: string
  pa_next :: "int option"
  pa_amount :: string

record raw_invoice =
  ri_id :: string
  ri_preapproval :: string
  ri_currency :: string
  ri_amount :: string
  ri_created :: "int option"
  ri_payment :: string
  ri_payment_status :: string

record raw_payment =
  rp_id :: string
  rp_status :: string
  rp_currency :: string
  rp_amount :: string
  rp_refunded :: string
  rp_reference :: string
  rp_approved :: "int option"

datatype mp_value =
    Subscription_value preapproval
  | Subscriptions_value "preapproval list"
  | Invoice_value raw_invoice
  | Payment_value raw_payment
  | Payments_value "(string \<times> string \<times> string) list"
  | Checkout_value string string

datatype mp_reply = No_reply | Reply int "mp_value option"

datatype mp_error = Transport | Status_error int | Bad_answer string

type_synonym provider = "mp_request list \<Rightarrow> mp_reply"
type_synonym 'a net = "mp_request list \<Rightarrow> (mp_error + 'a) \<times> mp_request list"

definition answer :: "'a \<Rightarrow> 'a net" where
  "answer a h = (Inr a, h)"

definition fail :: "mp_error \<Rightarrow> 'a net" where
  "fail e h = (Inl e, h)"

definition net_bind :: "'a net \<Rightarrow> ('a \<Rightarrow> 'b net) \<Rightarrow> 'b net" where
  "net_bind m f h = (case m h of (Inl e, h1) \<Rightarrow> (Inl e, h1) | (Inr a, h1) \<Rightarrow> f a h1)"

definition http_do :: "provider \<Rightarrow> mp_request \<Rightarrow> mp_reply net" where
  "http_do http rq h = (Inr (http (h @ [rq])), h @ [rq])"

definition lift_minor :: "string + int \<Rightarrow> int net" where
  "lift_minor x = (case x of Inl e \<Rightarrow> fail (Bad_answer e) | Inr n \<Rightarrow> answer n)"

definition success :: "int \<Rightarrow> bool" where
  "success status \<longleftrightarrow> 200 \<le> status \<and> status < 300"

text \<open>\<open>Rejected()\<close> of a \<open>RequestError\<close>; every other error is uncertain.\<close>

definition rejected :: "mp_error \<Rightarrow> bool" where
  "rejected e = (case e of Status_error s \<Rightarrow> s = 400 \<or> s = 401 \<or> s = 403 \<or> s = 422 | _ \<Rightarrow> False)"

definition do_request :: "provider \<Rightarrow> mp_request \<Rightarrow> provider_subscription net" where
  "do_request http rq =
     net_bind (http_do http rq) (\<lambda>reply.
     case reply of
       No_reply \<Rightarrow> fail Transport
     | Reply status value \<Rightarrow>
         if \<not> success status then fail (Status_error status)
         else case value of
           Some (Subscription_value out) \<Rightarrow>
             if pa_id out = '''' \<or> pa_reference out = ''''
             then fail (Bad_answer ''mercado pago returned an incomplete subscription'')
             else
               net_bind (if pa_amount out \<noteq> '''' then lift_minor (decimal_minor (pa_amount out)) else answer 0) (\<lambda>amount.
               answer \<lparr>ps_id = pa_id out, ps_status = pa_status out, ps_reference = pa_reference out,
                 ps_checkout = pa_init_point out, ps_amount = amount, ps_next = pa_next out\<rparr>)
         | _ \<Rightarrow> fail (Bad_answer ''json''))"

definition get_json :: "provider \<Rightarrow> mp_resource \<Rightarrow> mp_value net" where
  "get_json http path =
     net_bind (http_do http \<lparr>rq_method = ''GET'', rq_resource = path, rq_key = None, rq_body = No_body\<rparr>) (\<lambda>reply.
     case reply of
       No_reply \<Rightarrow> fail Transport
     | Reply status value \<Rightarrow>
         if \<not> success status then fail (Bad_answer ''mercado pago returned'')
         else case value of None \<Rightarrow> fail (Bad_answer ''json'') | Some v \<Rightarrow> answer v)"

section \<open>Subscriptions\<close>

record subscription_request =
  sq_reason :: string
  sq_reference :: string
  sq_email :: string
  sq_url :: string
  sq_key :: string
  sq_currency :: string
  sq_amount_text :: string
  sq_amount :: int
  sq_free_months :: int
  sq_start :: "int option"

text \<open>\<open>sq_amount_text\<close> is the text of the \<open>float64\<close> amount, used when no minor amount is given.\<close>

definition create_subscription :: "provider \<Rightarrow> subscription_request \<Rightarrow> provider_subscription net" where
  "create_subscription http inp =
     (let amount = (if 0 < sq_amount inp then minor_json (sq_amount inp) else sq_amount_text inp);
          start = (case sq_start inp of Some t \<Rightarrow> Starts_at t
            | None \<Rightarrow> if 0 < sq_free_months inp then Free_months (sq_free_months inp) else Starts_now)
      in do_request http \<lparr>rq_method = ''POST'', rq_resource = New_preapproval, rq_key = Some (sq_key inp),
           rq_body = Subscription_body (sq_reason inp) (sq_reference inp) (sq_email inp) (sq_url inp)
             (sq_currency inp) amount start\<rparr>)"

definition update_subscription_amount :: "provider \<Rightarrow> string \<Rightarrow> int \<Rightarrow> string \<Rightarrow> provider_subscription net" where
  "update_subscription_amount http i amount key =
     (if i = '''' \<or> amount < 1 \<or> key = '''' then fail (Bad_answer ''invalid subscription amount update'')
      else do_request http \<lparr>rq_method = ''PUT'', rq_resource = Preapproval i, rq_key = Some key,
             rq_body = Amount_body (minor_json amount) ''ARS''\<rparr>)"

definition get_subscription :: "provider \<Rightarrow> string \<Rightarrow> provider_subscription net" where
  "get_subscription http i =
     do_request http \<lparr>rq_method = ''GET'', rq_resource = Preapproval i, rq_key = None, rq_body = No_body\<rparr>"

definition cancel_provider_subscription :: "provider \<Rightarrow> string \<Rightarrow> string \<Rightarrow> provider_subscription net" where
  "cancel_provider_subscription http i key =
     net_bind (do_request http \<lparr>rq_method = ''PUT'', rq_resource = Preapproval i, rq_key = Some key, rq_body = Cancel_body\<rparr>) (\<lambda>out.
     if ps_status out \<noteq> ''cancelled'' \<and> ps_status out \<noteq> ''canceled''
     then fail (Bad_answer ''mercado pago did not confirm cancellation'') else answer out)"

text \<open>The loop of \<open>FindSubscription\<close> over the search results.\<close>

fun match_subscription :: "string \<Rightarrow> preapproval list \<Rightarrow> preapproval option \<Rightarrow> mp_error + preapproval option" where
  "match_subscription ref [] found = Inr found"
| "match_subscription ref (item # items) found =
     (if pa_reference item \<noteq> ref then match_subscription ref items found
      else if found \<noteq> None \<or> pa_id item = '''' then Inl (Bad_answer ''ambiguous subscription search'')
      else match_subscription ref items (Some item))"

definition find_subscription :: "provider \<Rightarrow> string \<Rightarrow> provider_subscription option net" where
  "find_subscription http ref =
     net_bind (get_json http (Preapproval_search ref)) (\<lambda>v.
     case v of
       Subscriptions_value items \<Rightarrow>
         (case match_subscription ref items None of
            Inl e \<Rightarrow> fail e
          | Inr None \<Rightarrow> answer None
          | Inr (Some item) \<Rightarrow>
              net_bind (get_subscription http (pa_id item)) (\<lambda>out.
              if ps_reference out \<noteq> ref then fail (Bad_answer ''subscription reference mismatch'')
              else answer (Some out)))
     | _ \<Rightarrow> fail (Bad_answer ''json''))"

section \<open>Payments\<close>

definition get_authorized_payment :: "provider \<Rightarrow> string \<Rightarrow> billing_invoice net" where
  "get_authorized_payment http i =
     (if \<not> numeric_id i then fail (Bad_answer ''invalid invoice id'')
      else net_bind (get_json http (Authorized_payment i)) (\<lambda>v.
        case v of
          Invoice_value raw \<Rightarrow>
            net_bind (lift_minor (decimal_minor (ri_amount raw))) (\<lambda>amount.
            answer \<lparr>iv_id = ri_id raw, iv_subscription = ri_preapproval raw, iv_payment = ri_payment raw,
              iv_currency = ri_currency raw, iv_payment_status = ri_payment_status raw, iv_amount = amount,
              iv_created = ri_created raw\<rparr>)
        | _ \<Rightarrow> fail (Bad_answer ''json'')))"

definition get_payment :: "provider \<Rightarrow> string \<Rightarrow> billing_payment net" where
  "get_payment http i =
     (if \<not> numeric_id i then fail (Bad_answer ''invalid payment id'')
      else net_bind (get_json http (Payment i)) (\<lambda>v.
        case v of
          Payment_value raw \<Rightarrow>
            net_bind (lift_minor (decimal_minor (rp_amount raw))) (\<lambda>amount.
            net_bind (if rp_refunded raw \<noteq> '''' then lift_minor (decimal_minor (rp_refunded raw)) else answer 0) (\<lambda>refunded.
            answer \<lparr>py_id = rp_id raw, py_status = rp_status raw, py_currency = rp_currency raw,
              py_reference = rp_reference raw, py_amount = amount, py_refunded = refunded, py_approved = rp_approved raw\<rparr>))
        | _ \<Rightarrow> fail (Bad_answer ''json'')))"

definition refund_branch_payment :: "provider \<Rightarrow> string \<Rightarrow> string \<Rightarrow> unit net" where
  "refund_branch_payment http i key =
     (if \<not> numeric_id i \<or> key = '''' then fail (Bad_answer ''invalid refund'')
      else net_bind (get_payment http i) (\<lambda>p.
        if py_amount p \<le> py_refunded p \<and> 0 < py_amount p then answer ()
        else net_bind (http_do http \<lparr>rq_method = ''POST'', rq_resource = Refunds i, rq_key = Some key, rq_body = Refund_body\<rparr>) (\<lambda>reply.
          case reply of
            No_reply \<Rightarrow> fail Transport
          | Reply status _ \<Rightarrow> if \<not> success status then fail (Status_error status) else answer ())))"

text \<open>
  One approved payment that is not kept: read back, refunded under a key of its own (\<open>refund_key\<close>,
  the UUID of reference and payment) and read back again. In the search for a purchase's payment
  a failed last read is reported as an unconfirmed refund; \<open>wrap\<close> tells the two callers apart.
\<close>

definition refund_duplicate ::
  "provider \<Rightarrow> (string \<Rightarrow> string \<Rightarrow> string) \<Rightarrow> bool \<Rightarrow> string \<Rightarrow> string \<Rightarrow> unit net" where
  "refund_duplicate http refund_key wrap ref extra =
     net_bind (get_payment http extra) (\<lambda>p.
     if py_reference p \<noteq> ref then fail (Bad_answer ''duplicate payment reference mismatch'')
     else
       net_bind (refund_branch_payment http extra (refund_key ref extra)) (\<lambda>_.
       net_bind (\<lambda>h. case get_payment http extra h of
           (Inl e, h1) \<Rightarrow> (Inl (if wrap then Bad_answer ''duplicate payment refund not confirmed'' else e), h1)
         | (Inr v, h1) \<Rightarrow> (Inr v, h1)) (\<lambda>verified.
       if py_refunded verified < py_amount verified then fail (Bad_answer ''duplicate payment refund not confirmed'')
       else answer ())))"

fun refund_all ::
  "provider \<Rightarrow> (string \<Rightarrow> string \<Rightarrow> string) \<Rightarrow> bool \<Rightarrow> string \<Rightarrow> string list \<Rightarrow> unit net" where
  "refund_all http refund_key wrap ref [] = answer ()"
| "refund_all http refund_key wrap ref (extra # extras) =
     net_bind (refund_duplicate http refund_key wrap ref extra) (\<lambda>_. refund_all http refund_key wrap ref extras)"

definition approved_ids :: "string \<Rightarrow> (string \<times> string \<times> string) list \<Rightarrow> string list" where
  "approved_ids ref items = [i. (i, r, st) \<leftarrow> items, r = ref \<and> st = ''approved'']"

definition other_ids :: "string \<Rightarrow> (string \<times> string \<times> string) list \<Rightarrow> string list" where
  "other_ids ref items = [i. (i, r, st) \<leftarrow> items, r = ref \<and> st \<noteq> ''approved'']"

text \<open>\<open>id\<close> keeps the first non-empty identifier that is not approved.\<close>

definition first_other :: "string list \<Rightarrow> string" where
  "first_other ids = (case filter (\<lambda>i. i \<noteq> '''') ids of [] \<Rightarrow> '''' | i # _ \<Rightarrow> i)"

definition find_branch_payment ::
  "provider \<Rightarrow> (string \<Rightarrow> string \<Rightarrow> string) \<Rightarrow> string \<Rightarrow> billing_payment option net" where
  "find_branch_payment http refund_key ref =
     net_bind (get_json http (Payment_search ref True)) (\<lambda>v.
     case v of
       Payments_value items \<Rightarrow>
         let approved = approved_ids ref items;
             i = (case approved of [] \<Rightarrow> first_other (other_ids ref items) | a # _ \<Rightarrow> a) in
         net_bind (refund_all http refund_key True ref (drop 1 approved)) (\<lambda>_.
         if i = '''' then answer None
         else net_bind (get_payment http i) (\<lambda>p. answer (Some p)))
     | _ \<Rightarrow> fail (Bad_answer ''json''))"

definition reconcile_duplicate_payments ::
  "provider \<Rightarrow> (string \<Rightarrow> string \<Rightarrow> string) \<Rightarrow> string \<Rightarrow> string \<Rightarrow> unit net" where
  "reconcile_duplicate_payments http refund_key ref primary =
     net_bind (get_json http (Payment_search ref False)) (\<lambda>v.
     case v of
       Payments_value items \<Rightarrow> refund_all http refund_key False ref (filter (\<lambda>i. i \<noteq> primary) (approved_ids ref items))
     | _ \<Rightarrow> fail (Bad_answer ''json''))"

record checkout_order =
  co_reference :: string
  co_email :: string
  co_url :: string
  co_key :: string
  co_amount :: int
  co_expires :: int

definition create_branch_checkout :: "provider \<Rightarrow> checkout_order \<Rightarrow> (string \<times> string) net" where
  "create_branch_checkout http inp =
     (if co_amount inp < 1 \<or> co_reference inp = '''' \<or> co_key inp = '''' then fail (Bad_answer ''invalid branch payment'')
      else net_bind (http_do http \<lparr>rq_method = ''POST'', rq_resource = New_preference, rq_key = Some (co_key inp),
             rq_body = Preference_body (co_reference inp) (minor_json (co_amount inp)) (co_email inp) (co_url inp) (co_expires inp)\<rparr>) (\<lambda>reply.
        case reply of
          No_reply \<Rightarrow> fail Transport
        | Reply status value \<Rightarrow>
            if \<not> success status then fail (Status_error status)
            else case value of
              Some (Checkout_value i url) \<Rightarrow>
                if i = '''' \<or> url = '''' then fail (Bad_answer ''incomplete checkout'') else answer (i, url)
            | _ \<Rightarrow> fail (Bad_answer ''json'')))"

section \<open>Signatures of notifications\<close>

text \<open>\<open>SplitN(trimmed, "=", 2)\<close> of every part; a later part of the same name wins.\<close>

definition header_part :: "string \<Rightarrow> string \<Rightarrow> string" where
  "header_part header name =
     (case List.find (\<lambda>(k, v). k = name) (rev (List.map_filter (\<lambda>raw. split_pair (trim_space raw)) (split_on CHR '','' header))) of
        None \<Rightarrow> '''' | Some (k, v) \<Rightarrow> v)"

definition signature_manifest :: "string \<Rightarrow> string \<Rightarrow> string \<Rightarrow> string" where
  "signature_manifest resource request ts = ''id:'' @ to_lower resource @ '';request-id:'' @ request @ '';ts:'' @ ts @ '';''"

text \<open>
  Instants in nanoseconds. \<open>hmac secret text\<close> is the SHA-256 authentication code of the standard
  library, 32 bytes.
\<close>

definition sent_at :: "string \<Rightarrow> int \<Rightarrow> int option" where
  "sent_at ts timestamp =
     (if length ts = 10 then Some (timestamp * 1000000000)
      else if length ts = 13 then Some (timestamp * 1000000) else None)"

definition validate_signature ::
  "(string \<Rightarrow> string \<Rightarrow> nat list) \<Rightarrow> string \<Rightarrow> string \<Rightarrow> string \<Rightarrow> string \<Rightarrow> int \<Rightarrow> bool" where
  "validate_signature hmac header request resource secret now =
     (let ts = header_part header ''ts''; signature = header_part header ''v1'' in
      case hex_decode signature of
        None \<Rightarrow> False
      | Some provided \<Rightarrow>
          if ts = '''' \<or> request = '''' \<or> resource = '''' \<or> secret = '''' \<or> length provided \<noteq> 32 then False
          else case parse_signed ts of
            None \<Rightarrow> False
          | Some timestamp \<Rightarrow>
              if timestamp \<le> 0 then False
              else case sent_at ts timestamp of
                None \<Rightarrow> False
              | Some t \<Rightarrow>
                  if t < now - 300000000000 \<or> now + 60000000000 < t then False
                  else provided = hmac secret (signature_manifest resource request ts))"

end
