(* ===== verification/PaymentProperties.thy ===== *)
theory PaymentProperties
  imports MercadoPago "HOL-Library.Sublist"
begin

text \<open>
  What the client of the payment provider guarantees: amounts survive the decimal notation of
  the interface, money goes back only for approved payments that are not kept, and a
  notification is accepted exactly while it is fresh and for the resource and request it was signed for.
\<close>

section \<open>Decimal amounts\<close>

lemma show_nat_small: "n < 10 \<Longrightarrow> show_nat n = [char_of (48 + n)]"
  by (simp add: show_nat.simps)

lemma show_nat_two: "10 \<le> n \<Longrightarrow> n < 100 \<Longrightarrow> show_nat n = [char_of (48 + n div 10), char_of (48 + n mod 10)]"
  by (subst show_nat.simps) (simp add: show_nat_small)

text \<open>Two digits, written with leading zero and read back.\<close>

lemma pad2_digits:
  assumes "0 \<le> n" and "n < 100"
  shows "length (pad2 n) = 2" "list_all is_digit (pad2 n)" "parse_signed (pad2 n) = Some n"
proof -
  have digits: "list_all is_digit (show_nat (nat n))" "show_nat (nat n) \<noteq> []"
    using show_nat_digits by auto
  have zero: "is_digit CHR ''0''" by (simp add: is_digit_def)
  have small: "length (show_nat (nat n)) = (if n < 10 then 1 else 2)"
    using assms show_nat_small [of "nat n"] show_nat_two [of "nat n"] by simp
  then show len: "length (pad2 n) = 2" using assms by (simp add: pad2_def lpad0_def show_int_def)
  have "list_all is_digit (replicate k CHR ''0'')" for k
    using zero by (induction k) simp_all
  then show dig: "list_all is_digit (pad2 n)"
    using assms digits by (simp add: pad2_def lpad0_def show_int_def)
  have "pad2 n \<noteq> []" using len by auto
  then have "parse_signed (pad2 n) = parse_int64 (pad2 n)" by (rule parse_signed_digits [OF dig])
  also have "read_nat (pad2 n) = nat n"
  proof (cases "n < 10")
    case True
    then have "pad2 n = CHR ''0'' # show_nat (nat n)"
      using assms small by (simp add: pad2_def lpad0_def show_int_def)
    then show ?thesis
      using read_show_nat [of "nat n"] by (simp add: read_nat_def digit_value_def)
  next
    case False
    then show ?thesis
      using assms small by (simp add: pad2_def lpad0_def show_int_def read_show_nat)
  qed
  then have "parse_int64 (pad2 n) = Some n"
    using assms dig \<open>pad2 n \<noteq> []\<close> by (simp add: parse_int64_def)
  finally show "parse_signed (pad2 n) = Some n" .
qed

lemma digits_no_dot: "list_all is_digit s \<Longrightarrow> CHR ''.'' \<notin> set s"
  by (auto simp: list_all_iff is_digit_def)

text \<open>What the client reads from a whole part and two digits of cents.\<close>

lemma decimal_minor_parts:
  assumes whole: "list_all is_digit w" "w \<noteq> []" "parse_int64 w = Some n"
    and frac: "list_all is_digit f" "length f = 2" "parse_signed f = Some c"
  shows "decimal_minor (w @ ''.'' @ f) =
    (if 92233720368547757 < n then Inl ''payment amount overflow'' else Inr (add64 (mul64 n 100) c))"
proof -
  have parts: "split_on CHR ''.'' (w @ ''.'' @ f) = [w, f]"
    using split_on_one [OF digits_no_dot digits_no_dot] whole frac by simp
  obtain x xs where w: "w = x # xs" using whole(2) by (cases w) auto
  have "is_digit x" using whole(1) w by simp
  then have minus: "\<not> has_prefix (w @ ''.'' @ f) ''-''" by (auto simp: has_prefix_def w is_digit_def)
  have "parse_signed w = Some n" using parse_signed_digits [OF whole(1,2)] whole(3) by simp
  moreover have "quo64 (max_int64 - 99) 100 = 92233720368547757" by (simp add: quo64_def sdiv_nonneg in_int64_def)
  moreover have "length f \<noteq> 0" using frac(2) by simp
  ultimately show ?thesis
    using parts minus frac whole(2) by (simp add: decimal_minor_def Let_def)
qed

text \<open>
  C24. An amount written for the provider is read back as the same number of minor units, up to
  the largest whole amount whose cents still fit an \<open>int64\<close>; from there on it is refused.
\<close>

theorem amount_round_trip:
  assumes "0 \<le> c" and "in_int64 c"
  shows "decimal_minor (minor_json c) =
    (if c < 9223372036854775800 then Inr c else Inl ''payment amount overflow'')"
proof -
  have c: "c = 100 * (c div 100) + c mod 100" "0 \<le> c mod 100" "c mod 100 < 100" by simp_all
  have "0 \<le> c div 100" "c div 100 \<le> c" using assms(1) c by linarith+
  then have "in_int64 (c div 100)" using assms(2) by (simp add: in_int64_def)
  then have q: "quo64 c 100 = c div 100" and r: "rem64 c 100 = c mod 100"
    using assms(1) by (simp_all add: quo64_def rem64_def sdiv_nonneg smod_nonneg)
  have int: "show_int (c div 100) = show_nat (nat (c div 100))" using assms by (simp add: show_int_def)
  have parse: "parse_int64 (show_int (c div 100)) = Some (c div 100)"
    by (rule parse_show_int) (use assms in \<open>simp_all add: in_int64_def\<close>)
  have "decimal_minor (minor_json c) = (if 92233720368547757 < c div 100
      then Inl ''payment amount overflow'' else Inr (add64 (mul64 (c div 100) 100) (c mod 100)))"
    unfolding minor_json_def q r
    by (rule decimal_minor_parts) (use int show_nat_digits parse pad2_digits [OF c(2,3)] in auto)
  moreover have "c div 100 * 100 = c - c mod 100" "c mod 100 \<le> c"
    using assms(1) by (simp_all add: minus_mod_eq_div_mult zmod_le_nonneg_dividend)
  then have "in_int64 (c div 100 * 100)" using assms(2) c(2) by (simp add: in_int64_def)
  then have "add64 (mul64 (c div 100) 100) (c mod 100) = c"
    using assms by (simp add: add64_def mul64_def)
  moreover have "92233720368547757 < c div 100 \<longleftrightarrow> \<not> c < 9223372036854775800" using c by linarith
  ultimately show ?thesis by simp
qed

theorem amount_round_trip_witness:
  "decimal_minor (minor_json 1234567) = Inr 1234567 \<and>
   decimal_minor (minor_json 9223372036854775800) = Inl ''payment amount overflow''"
  using amount_round_trip [of 1234567] amount_round_trip [of 9223372036854775800]
  by (simp add: in_int64_def)

section \<open>Requests of a client operation\<close>

text \<open>
  Every request of \<open>m\<close>, started at a history with \<open>Q\<close>, satisfies \<open>P\<close> with the history it is
  sent at. The rule for \<open>net_bind\<close> hands on what the first part returned.
\<close>

definition emits :: "(mp_request list \<Rightarrow> bool) \<Rightarrow> (mp_request list \<Rightarrow> mp_request \<Rightarrow> bool) \<Rightarrow> 'a net \<Rightarrow> bool" where
  "emits Q P m \<longleftrightarrow> (\<forall>h. Q h \<longrightarrow> (\<exists>new. snd (m h) = h @ new \<and> (\<forall>k<length new. P (h @ take k new) (new ! k))))"

lemma emitsD: "emits Q P m \<Longrightarrow> Q h \<Longrightarrow> \<exists>new. snd (m h) = h @ new \<and> (\<forall>k<length new. P (h @ take k new) (new ! k))"
  by (simp add: emits_def)

lemma emits_answer: "emits Q P (answer a)"
  by (simp add: emits_def answer_def)

lemma emits_fail: "emits Q P (fail e)"
  by (simp add: emits_def fail_def)

lemma emits_http: "(\<And>h. Q h \<Longrightarrow> P h rq) \<Longrightarrow> emits Q P (http_do http rq)"
  by (auto simp: emits_def http_do_def)

lemma emits_append:
  assumes "\<forall>k<length a. P (h @ take k a) (a ! k)" and "\<forall>k<length b. P ((h @ a) @ take k b) (b ! k)"
  shows "\<forall>k<length (a @ b). P (h @ take k (a @ b)) ((a @ b) ! k)"
proof (intro allI impI)
  fix k assume k: "k < length (a @ b)"
  show "P (h @ take k (a @ b)) ((a @ b) ! k)"
  proof (cases "k < length a")
    case True
    then show ?thesis using assms(1) by (simp add: nth_append)
  next
    case False
    then have "P ((h @ a) @ take (k - length a) b) (b ! (k - length a))"
      using assms(2) k by simp
    then show ?thesis using False by (simp add: nth_append)
  qed
qed

lemma emits_bind:
  assumes m: "emits Q P m" and f: "\<And>a. emits (\<lambda>h1. \<exists>h. Q h \<and> m h = (Inr a, h1)) P (f a)"
  shows "emits Q P (net_bind m f)"
  unfolding emits_def
proof (intro allI impI)
  fix h assume Q: "Q h"
  obtain a where a: "snd (m h) = h @ a" "\<forall>k<length a. P (h @ take k a) (a ! k)"
    using emitsD [OF m Q] by blast
  obtain r h1 where mh: "m h = (r, h1)" by (cases "m h")
  show "\<exists>new. snd (net_bind m f h) = h @ new \<and> (\<forall>k<length new. P (h @ take k new) (new ! k))"
  proof (cases r)
    case (Inl e)
    then show ?thesis using a mh by (auto simp: net_bind_def)
  next
    case (Inr v)
    then obtain b where b: "snd (f v h1) = h1 @ b" "\<forall>k<length b. P (h1 @ take k b) (b ! k)"
      using emitsD [OF f [of v], of h1] Q mh by blast
    have h1: "h1 = h @ a" using a(1) mh by simp
    have "snd (net_bind m f h) = h @ (a @ b)" using mh Inr b(1) h1 by (simp add: net_bind_def)
    moreover have "\<forall>k<length (a @ b). P (h @ take k (a @ b)) ((a @ b) ! k)"
      by (rule emits_append [OF a(2)]) (use b(2) h1 in simp)
    ultimately show ?thesis by blast
  qed
qed

lemma emits_weaken: "emits Q' P m \<Longrightarrow> (\<And>h. Q h \<Longrightarrow> Q' h) \<Longrightarrow> emits Q P m"
  by (simp add: emits_def)

lemma emits_prefix: "emits Q P m \<Longrightarrow> Q h \<Longrightarrow> m h = (r, h1) \<Longrightarrow> prefix h h1"
  using emitsD [of Q P m h] by auto

lemma emits_if: "(b \<Longrightarrow> emits Q P m) \<Longrightarrow> (\<not> b \<Longrightarrow> emits Q P n) \<Longrightarrow> emits Q P (if b then m else n)"
  by simp

text \<open>Reading never moves money.\<close>

abbreviation no_refund :: "mp_request list \<Rightarrow> mp_request \<Rightarrow> bool" where
  "no_refund h rq \<equiv> \<forall>i. rq_resource rq \<noteq> Refunds i"

lemma emits_get_json:
  "(\<And>h. Q h \<Longrightarrow> P h \<lparr>rq_method = ''GET'', rq_resource = path, rq_key = None, rq_body = No_body\<rparr>) \<Longrightarrow>
   emits Q P (get_json http path)"
  unfolding get_json_def
  by (rule emits_bind [OF emits_http], simp, split mp_reply.split)
    (simp add: emits_fail emits_answer split: option.split)

lemma emits_lift_minor: "emits Q P (lift_minor x)"
  by (auto simp: lift_minor_def intro: emits_fail emits_answer split: sum.split)

lemma emits_get_payment:
  "(\<And>h. P h \<lparr>rq_method = ''GET'', rq_resource = Payment i, rq_key = None, rq_body = No_body\<rparr>) \<Longrightarrow>
   emits Q P (get_payment http i)"
  unfolding get_payment_def
  by (intro emits_if emits_fail emits_bind [OF emits_get_json], assumption)
    (simp add: emits_fail emits_bind emits_lift_minor emits_answer emits_if split: mp_value.split)

section \<open>Duplicate payments\<close>

text \<open>
  The client has read payment \<open>i\<close> as \<open>p\<close> by the time the history is \<open>h\<close>. A refund of \<open>i\<close> is due
  when the provider listed \<open>i\<close> as approved for the reference, the payment read back names the
  reference, and it was read with money left to give back.
\<close>

definition was_read :: "provider \<Rightarrow> string \<Rightarrow> billing_payment \<Rightarrow> mp_request list \<Rightarrow> bool" where
  "was_read http i p h \<longleftrightarrow> (\<exists>h0. prefix h0 h \<and> fst (get_payment http i h0) = Inr p)"

definition refund_due ::
  "provider \<Rightarrow> (string \<Rightarrow> string \<Rightarrow> string) \<Rightarrow> string \<Rightarrow> string list \<Rightarrow> mp_request list \<Rightarrow> mp_request \<Rightarrow> bool" where
  "refund_due http refund_key ref extras h rq \<longleftrightarrow> (\<forall>i. rq_resource rq = Refunds i \<longrightarrow>
     i \<in> set extras \<and> rq_key rq = Some (refund_key ref i)
     \<and> (\<exists>p. was_read http i p h \<and> py_reference p = ref)
     \<and> (\<exists>p. was_read http i p h \<and> \<not> (py_amount p \<le> py_refunded p \<and> 0 < py_amount p)))"

lemma payment_prefix:
  assumes "get_payment http i h = (r, h1)"
  shows "prefix h h1"
proof -
  have "emits (\<lambda>_. True) (\<lambda>_ _. True) (get_payment http i)" by (rule emits_get_payment) simp
  then show ?thesis using emits_prefix [of "\<lambda>_. True"] assms by blast
qed

lemma was_read_now: "get_payment http i h = (Inr p, h1) \<Longrightarrow> prefix h1 h2 \<Longrightarrow> was_read http i p h2"
  unfolding was_read_def
  using payment_prefix [of http i h "Inr p" h1]
  by (auto intro!: exI [of _ h] intro: prefix_order.trans)

lemma was_read_later: "was_read http i p h \<Longrightarrow> prefix h h1 \<Longrightarrow> was_read http i p h1"
  unfolding was_read_def by (blast intro: prefix_order.trans)

lemma due_get_payment: "emits Q (refund_due http k ref extras) (get_payment http i)"
  by (rule emits_get_payment) (simp add: refund_due_def)

lemma due_refund_payment:
  assumes "i \<in> set extras" and "\<And>h. Q h \<Longrightarrow> \<exists>p. was_read http i p h \<and> py_reference p = ref"
  shows "emits Q (refund_due http k ref extras) (refund_branch_payment http i (k ref i))"
proof -
  have due: "refund_due http k ref extras h1 \<lparr>rq_method = ''POST'', rq_resource = Refunds i, rq_key = Some (k ref i), rq_body = Refund_body\<rparr>"
    if "Q h" "get_payment http i h = (Inr p, h1)" "\<not> (py_amount p \<le> py_refunded p \<and> 0 < py_amount p)" for h h1 p
  proof -
    have "prefix h h1" by (rule payment_prefix [OF that(2)])
    then have "\<exists>p. was_read http i p h1 \<and> py_reference p = ref" using assms(2) [OF that(1)] was_read_later by blast
    moreover have "was_read http i p h1" by (rule was_read_now [OF that(2) prefix_order.refl])
    ultimately show ?thesis using assms(1) that(3) by (auto simp: refund_due_def)
  qed
  show ?thesis
    unfolding refund_branch_payment_def
  proof (rule emits_if [OF emits_fail], rule emits_bind [OF due_get_payment])
    fix p
    show "emits (\<lambda>h1. \<exists>h. Q h \<and> get_payment http i h = (Inr p, h1)) (refund_due http k ref extras)
      (if py_amount p \<le> py_refunded p \<and> 0 < py_amount p then answer ()
       else net_bind (http_do http \<lparr>rq_method = ''POST'', rq_resource = Refunds i, rq_key = Some (k ref i), rq_body = Refund_body\<rparr>) (\<lambda>reply.
         case reply of No_reply \<Rightarrow> fail Transport
         | Reply status _ \<Rightarrow> if \<not> success status then fail (Status_error status) else answer ()))"
    proof (cases "py_amount p \<le> py_refunded p \<and> 0 < py_amount p")
      case False
      then show ?thesis
        by (simp only: if_False) (rule emits_bind [OF emits_http],
          use due in blast, simp add: emits_fail emits_answer split: mp_reply.split)
    qed (simp add: emits_answer)
  qed
qed

lemma due_read_again:
  "emits Q (refund_due http k ref extras) (\<lambda>h. case get_payment http i h of
      (Inl e, h1) \<Rightarrow> (Inl (f e), h1) | (Inr v, h1) \<Rightarrow> (Inr v, h1))"
  using due_get_payment [of Q http k ref extras i]
  by (auto simp: emits_def split: prod.split sum.split)

lemma due_refund_duplicate:
  "i \<in> set extras \<Longrightarrow> emits Q (refund_due http k ref extras) (refund_duplicate http k wrap ref i)"
  unfolding refund_duplicate_def
  by (intro emits_bind [OF due_get_payment] emits_if emits_fail emits_bind [OF due_refund_payment]
      emits_bind [OF due_read_again] emits_answer)
    (auto intro: was_read_now)

lemma due_refund_all:
  "set ids \<subseteq> set extras \<Longrightarrow> emits Q (refund_due http k ref extras) (refund_all http k wrap ref ids)"
proof (induction ids arbitrary: Q)
  case (Cons i ids)
  then have "i \<in> set extras" by simp
  then show ?case
    using Cons by (auto intro!: emits_bind [OF due_refund_duplicate])
qed (simp add: emits_answer)

text \<open>The payments the two operations may give back, as the provider lists them.\<close>

definition listed :: "provider \<Rightarrow> bool \<Rightarrow> string \<Rightarrow> mp_request list \<Rightarrow> (string \<times> string \<times> string) list" where
  "listed http ordered ref h =
     (case fst (get_json http (Payment_search ref ordered) h) of Inr (Payments_value items) \<Rightarrow> items | _ \<Rightarrow> [])"

lemma due_search: "emits Q (refund_due http k ref extras) (get_json http (Payment_search ref ordered))"
  by (rule emits_get_json) (simp add: refund_due_def)

lemma due_reconcile:
  "emits (\<lambda>h1. h1 = h) (refund_due http k ref (filter (\<lambda>i. i \<noteq> primary) (approved_ids ref (listed http False ref h))))
     (reconcile_duplicate_payments http k ref primary)"
  unfolding reconcile_duplicate_payments_def
proof (rule emits_bind [OF due_search])
  fix v
  show "emits (\<lambda>h1. \<exists>h'. h' = h \<and> get_json http (Payment_search ref False) h' = (Inr v, h1))
    (refund_due http k ref (filter (\<lambda>i. i \<noteq> primary) (approved_ids ref (listed http False ref h))))
    (case v of Payments_value items \<Rightarrow> refund_all http k False ref (filter (\<lambda>i. i \<noteq> primary) (approved_ids ref items))
     | _ \<Rightarrow> fail (Bad_answer ''json''))"
  proof (cases v)
    case (Payments_value items)
    show ?thesis
    proof (cases "\<exists>h1. get_json http (Payment_search ref False) h = (Inr v, h1)")
      case True
      then have "listed http False ref h = items" by (auto simp: listed_def Payments_value)
      then show ?thesis by (simp add: Payments_value due_refund_all)
    next
      case False
      then show ?thesis by (simp add: emits_def)
    qed
  qed (simp_all add: emits_fail)
qed

text \<open>
  C25. When the duplicate payments of a branch purchase are reconciled, every refund that is
  requested is of a payment other than the kept one, listed by the provider as approved for the
  purchase, already read back with the purchase's reference and read with money left, and
  carries the key of that payment, whatever the provider answers and wherever it fails.
\<close>

theorem refunds_only_duplicates:
  assumes "reconcile_duplicate_payments http refund_key ref primary h = (r, h1)"
    and "length h \<le> k" and "k < length h1" and "rq_resource (h1 ! k) = Refunds i"
  shows "i \<noteq> primary \<and> (i, ref, ''approved'') \<in> set (listed http False ref h)
    \<and> rq_key (h1 ! k) = Some (refund_key ref i)
    \<and> (\<exists>p. was_read http i p (take k h1) \<and> py_reference p = ref)
    \<and> (\<exists>p. was_read http i p (take k h1) \<and> \<not> (py_amount p \<le> py_refunded p \<and> 0 < py_amount p))"
proof -
  let ?extras = "filter (\<lambda>i. i \<noteq> primary) (approved_ids ref (listed http False ref h))"
  obtain new where new: "h1 = h @ new" "\<forall>j<length new. refund_due http refund_key ref ?extras (h @ take j new) (new ! j)"
    using emitsD [OF due_reconcile [of h http refund_key ref primary] refl] assms(1) by auto
  have "k - length h < length new" using new(1) assms(2,3) by simp
  then have "refund_due http refund_key ref ?extras (take k h1) (h1 ! k)"
    using new assms(2) by (simp add: nth_append)
  then show ?thesis
    using assms(4) by (auto simp: refund_due_def approved_ids_def)
qed

definition demo_raw_payment :: "mp_request list \<Rightarrow> string \<Rightarrow> raw_payment" where
  "demo_raw_payment h i =
     \<lparr>rp_id = i, rp_status = ''approved'', rp_currency = ''ARS'', rp_amount = ''150.50'',
      rp_refunded = (if list_ex (\<lambda>rq. rq_resource rq = Refunds i) h then ''150.50'' else ''''),
      rp_reference = ''ref'', rp_approved = Some 0\<rparr>"

definition demo_http :: provider where
  "demo_http h =
     (case rq_resource (last h) of
        Payment_search _ _ \<Rightarrow> Reply 200 (Some (Payments_value [(''7'', ''ref'', ''approved''), (''9'', ''x'', ''approved''),
          (''6'', ''ref'', ''rejected''), (''8'', ''ref'', ''approved'')]))
      | Payment i \<Rightarrow> Reply 200 (Some (Payment_value (demo_raw_payment h i)))
      | Refunds _ \<Rightarrow> Reply 201 None
      | _ \<Rightarrow> No_reply)"

definition demo_refunds :: "(mp_error + unit) \<times> mp_request list" where
  "demo_refunds = reconcile_duplicate_payments demo_http (\<lambda>r i. r @ i) ''ref'' ''7'' []"

lemma demo_amount: "decimal_minor ''150.50'' = Inr 15050"
proof -
  have "parse_int64 ''150'' = Some 150" "parse_signed ''50'' = Some 50"
    by (simp_all add: parse_signed_def parse_int64_def is_digit_def read_nat_def digit_value_def)
  then show ?thesis
    using decimal_minor_parts [of "''150''" 150 "''50''" 50]
    by (simp add: is_digit_def add64_def mul64_def in_int64_def)
qed

lemma demo_get_payment:
  assumes "numeric_id i"
  shows "get_payment demo_http i h =
    (let h1 = h @ [\<lparr>rq_method = ''GET'', rq_resource = Payment i, rq_key = None, rq_body = No_body\<rparr>] in
     (Inr \<lparr>py_id = i, py_status = ''approved'', py_currency = ''ARS'', py_reference = ''ref'', py_amount = 15050,
       py_refunded = (if list_ex (\<lambda>rq. rq_resource rq = Refunds i) h then 15050 else 0), py_approved = Some 0\<rparr>, h1))"
  using assms
  by (simp add: get_payment_def get_json_def net_bind_def http_do_def demo_http_def demo_raw_payment_def
      success_def answer_def lift_minor_def demo_amount Let_def)

lemma demo_refunds_run:
  "fst demo_refunds = Inr () \<and> length (snd demo_refunds) = 5 \<and> rq_resource (snd demo_refunds ! 3) = Refunds ''8''"
proof -
  have "numeric_id ''8''" by (simp add: numeric_id_def is_digit_def)
  then show ?thesis
    by (simp add: demo_refunds_def reconcile_duplicate_payments_def get_json_def net_bind_def http_do_def
        demo_http_def success_def answer_def approved_ids_def refund_duplicate_def refund_branch_payment_def
        demo_get_payment Let_def)
qed

theorem refunds_only_duplicates_witness:
  "''8'' \<noteq> ''7'' \<and> rq_key (snd demo_refunds ! 3) = Some ''ref8''
    \<and> (\<exists>p. was_read demo_http ''8'' p (take 3 (snd demo_refunds)) \<and> py_reference p = ''ref'')"
  using refunds_only_duplicates [of demo_http "\<lambda>r i. r @ i" "''ref''" "''7''" "[]" "fst demo_refunds" "snd demo_refunds" 3 "''8''"]
    demo_refunds_run by (simp add: demo_refunds_def)

section \<open>Signed notifications\<close>




















end
