(* ===== verification/BranchService.thy ===== *)
theory BranchService
  imports BranchReconcile
begin

text \<open>
  The service of the branch purchases (\<^verbatim>\<open>internal/service/branch_proration.go\<close>): it validates a
  request, runs the repository's transactions in order and drives every purchase on, at a request,
  at a notification of the provider and in the background loop. \<open>provider\<close> is \<open>s.Billing\<close> seen as
  the branch provider, none where the billing client is missing or is not one; \<open>uuid_ok\<close> is
  \<^verbatim>\<open>uuid.Parse\<close> of google/uuid, and \<open>new_id\<close> the UUID a new row gets.
\<close>

text \<open>\<open>strings.TrimRight(s, "/")\<close>\<close>

definition trim_slashes :: "string \<Rightarrow> string" where
  "trim_slashes s = rev (trim_left (\<lambda>c. c = CHR ''/'') (rev s))"

definition reconcile_purchase ::
  "(int \<Rightarrow> int) \<Rightarrow> service_config \<Rightarrow> branch_answers option \<Rightarrow> string \<Rightarrow> ('a billing_db_scheme, unit) tx" where
  "reconcile_purchase ba_day cfg provider oid =
     (if sv_simulator cfg then seq now_app (reconcile_branch ba_day oid None (sv_public_url cfg))
      else case provider of
        None \<Rightarrow> throw (Svc BillingUnavailable)
      | Some a \<Rightarrow> seq now_app (reconcile_branch ba_day oid (Some a) (sv_public_url cfg)))"

definition quote_branch ::
  "(int \<Rightarrow> int) \<Rightarrow> (int \<Rightarrow> int) \<Rightarrow> service_config \<Rightarrow> string \<Rightarrow> int \<Rightarrow> int \<Rightarrow> branch_draft \<Rightarrow>
   ('a billing_db_scheme, branch_quote) tx" where
  "quote_branch ba_day ba_midnight cfg new_id actor brand draft =
     (if \<not> branch_proration_available cfg then throw (Svc BillingUnavailable)
      else case clean_branch draft of
        Inl e \<Rightarrow> throw e
      | Inr r \<Rightarrow>
          seq now_app (\<lambda>now.
          save_branch_quote ba_day new_id actor brand r
            (quote_for ba_day ba_midnight cfg now)))"

definition confirm_branch ::
  "(int \<Rightarrow> int) \<Rightarrow> (string \<Rightarrow> bool) \<Rightarrow> service_config \<Rightarrow> branch_answers option \<Rightarrow> string \<Rightarrow> int \<Rightarrow> int \<Rightarrow> string \<Rightarrow> string \<Rightarrow>
   ('a billing_db_scheme, operation_view) tx" where
  "confirm_branch ba_day uuid_ok cfg provider new_id actor brand quote_id key =
     (if \<not> branch_proration_available cfg then throw (Svc BillingUnavailable)
      else if \<not> uuid_ok quote_id then throw (Svc InvalidRequest)
      else if \<not> uuid_ok key then throw (Svc InvalidRequest)
      else
        seq now_app (\<lambda>now.
        seq (confirm_branch_quote ba_day new_id actor brand quote_id key (sv_simulator cfg)
               (trim_slashes (sv_public_url cfg) @ ''/sucursal-pago'') now) (\<lambda>out.
        seq (reconcile_purchase ba_day cfg provider (op_id out)) (\<lambda>_.
        branch_operation actor brand (op_id out)))))"

definition branch_operation_service ::
  "(int \<Rightarrow> int) \<Rightarrow> (string \<Rightarrow> bool) \<Rightarrow> service_config \<Rightarrow> branch_answers option \<Rightarrow> int \<Rightarrow> int \<Rightarrow> string \<Rightarrow>
   ('a billing_db_scheme, operation_view) tx" where
  "branch_operation_service ba_day uuid_ok cfg provider actor brand oid =
     (if \<not> branch_proration_available cfg then throw (Svc BillingUnavailable)
      else if \<not> uuid_ok oid then throw (Svc InvalidRequest)
      else
        seq (branch_operation actor brand oid) (\<lambda>_.
        seq (reconcile_purchase ba_day cfg provider oid) (\<lambda>_.
        branch_operation actor brand oid)))"

definition simulate_branch_service ::
  "(int \<Rightarrow> int) \<Rightarrow> (string \<Rightarrow> bool) \<Rightarrow> service_config \<Rightarrow> branch_answers option \<Rightarrow> int \<Rightarrow> int \<Rightarrow> string \<Rightarrow> string \<Rightarrow>
   ('a billing_db_scheme, operation_view) tx" where
  "simulate_branch_service ba_day uuid_ok cfg provider actor brand oid action =
     (if sv_production cfg \<or> \<not> sv_simulator cfg then throw (Svc Forbidden)
      else if \<not> uuid_ok oid then throw (Svc InvalidRequest)
      else
        seq (branch_operation actor brand oid) (\<lambda>_.
        seq now_app (\<lambda>now.
        seq (simulate_branch brand oid action now) (\<lambda>_.
        branch_operation_service ba_day uuid_ok cfg provider actor brand oid))))"

section \<open>The background loop\<close>

text \<open>
  A tick of the loop reconciles the pending purchases one after another and only logs an error.
  \<open>answers\<close> gives the provider's answers for each purchase; the loop is run for the ticks that
  come before its context is done.
\<close>

fun reconcile_each ::
  "(int \<Rightarrow> int) \<Rightarrow> service_config \<Rightarrow> (string \<Rightarrow> branch_answers option) \<Rightarrow> string list \<Rightarrow> ('a billing_db_scheme, unit) tx" where
  "reconcile_each ba_day cfg answers [] = ret ()"
| "reconcile_each ba_day cfg answers (oid # oids) =
     seq (outcome_of (reconcile_purchase ba_day cfg (answers oid) oid)) (\<lambda>_.
     reconcile_each ba_day cfg answers oids)"

definition branch_tick ::
  "(int \<Rightarrow> int) \<Rightarrow> service_config \<Rightarrow> (string \<Rightarrow> branch_answers option) \<Rightarrow> ('a billing_db_scheme, unit) tx" where
  "branch_tick ba_day cfg answers =
     seq (outcome_of pending_branch_operations) (\<lambda>r.
     case r of Inl _ \<Rightarrow> ret () | Inr oids \<Rightarrow> reconcile_each ba_day cfg answers oids)"

fun branch_ticks ::
  "(int \<Rightarrow> int) \<Rightarrow> service_config \<Rightarrow> (string \<Rightarrow> branch_answers option) list \<Rightarrow> ('a billing_db_scheme, unit) tx" where
  "branch_ticks ba_day cfg [] = ret ()"
| "branch_ticks ba_day cfg (answers # later) =
     seq (branch_tick ba_day cfg answers) (\<lambda>_. branch_ticks ba_day cfg later)"

definition run_branch_proration ::
  "(int \<Rightarrow> int) \<Rightarrow> service_config \<Rightarrow> (string \<Rightarrow> branch_answers option) list \<Rightarrow> ('a billing_db_scheme, unit) tx" where
  "run_branch_proration ba_day cfg ticks =
     (if \<not> branch_proration_available cfg then ret () else branch_ticks ba_day cfg ticks)"

section \<open>Notifications\<close>

text \<open>
  Whether the notification was one of a branch purchase. \<open>get_payment\<close> is the provider's answer
  to \<open>GetPayment\<close>, none where the billing client has no such method.
\<close>

definition apply_branch_payment_webhook ::
  "(int \<Rightarrow> int) \<Rightarrow> (string \<Rightarrow> bool) \<Rightarrow> service_config \<Rightarrow> (string \<Rightarrow> provider_failure + billing_payment) option \<Rightarrow>
   branch_answers option \<Rightarrow> string \<Rightarrow> ('a billing_db_scheme, bool) tx" where
  "apply_branch_payment_webhook ba_day uuid_ok cfg get_payment provider payment_id =
     (case get_payment of
        None \<Rightarrow> ret False
      | Some ask \<Rightarrow>
          seq (call_out (''GetPayment'', payment_id, 0) (ask payment_id)) (\<lambda>r.
          case r of
            Inl _ \<Rightarrow> throw (Svc BillingProviderFailure)
          | Inr payment \<Rightarrow>
              if \<not> has_prefix (py_reference payment) ''puntazo:branch:'' then ret False
              else
                let oid = trim_prefix (py_reference payment) ''puntazo:branch:'' in
                if \<not> uuid_ok oid then throw (Svc InvalidRequest)
                else seq (reconcile_purchase ba_day cfg provider oid) (\<lambda>_. ret True)))"

end
