(* ===== verification/SubscriptionPrices.thy ===== *)
theory SubscriptionPrices
  imports ReferralLedger
begin

text \<open>
  The prices of the catalogue and their changes (\<^verbatim>\<open>internal/repository/subscription_prices.go\<close>,
  \<^verbatim>\<open>subscription_price_history.go\<close> and \<^verbatim>\<open>internal/service/subscription_prices.go\<close>): a change sets
  the price of a program under an expected version and lists the subscriptions it reaches, one
  durable item each; a worker then asks the provider for the new amount of each item and records
  the old price in the history. Listings are ordered by \<open>rank\<close>, the place of a name in the
  collation of the database.
\<close>

section \<open>Reading prices\<close>

definition valid_subscription_price :: "string \<Rightarrow> int \<Rightarrow> bool" where
  "valid_subscription_price program amount \<longleftrightarrow>
     (program = ''SELLOS'' \<or> program = ''PUNTOS'') \<and> 0 < amount \<and> amount \<le> max_subscription_amount"

record price_view =
  pw_program :: string
  pw_unit :: int
  pw_version :: int
  pw_customized :: bool
  pw_updated :: "int option"

definition find_price :: "string \<Rightarrow> 'a billing_db_scheme \<Rightarrow> price_row option" where
  "find_price program d = List.find (\<lambda>p. pr_program p = program) (prices d)"

definition subscription_price :: "string \<Rightarrow> int \<Rightarrow> ('a billing_db_scheme, price_view) tx" where
  "subscription_price program fallback =
     (if \<not> valid_subscription_price program fallback then throw (Repo ErrInvalidRequest)
      else
        seq (query (\<lambda>w. find_price program (committed w))) (\<lambda>row.
        ret (case row of
          None \<Rightarrow> \<lparr>pw_program = program, pw_unit = fallback, pw_version = 0, pw_customized = False, pw_updated = None\<rparr>
        | Some p \<Rightarrow> \<lparr>pw_program = program, pw_unit = pr_unit p, pw_version = pr_version p, pw_customized = True,
            pw_updated = Some (pr_updated p)\<rparr>)))"

text \<open>The subscriptions of a program: by the program they were sold for, else by the brand's latest.\<close>

definition brand_program :: "'a core_db_scheme \<Rightarrow> int \<Rightarrow> string option" where
  "brand_program d brand = first_row (map p_tipo (rev (sort_key p_activo (sort_key p_created (sort_key p_id
     (filter (\<lambda>p. p_marca p = brand) (programas d)))))))"

definition sold_for :: "string \<Rightarrow> 'a billing_db_scheme \<Rightarrow> suscripcion \<Rightarrow> bool" where
  "sold_for program d s \<longleftrightarrow> (case sb_program s of Some p \<Rightarrow> p = program
     | None \<Rightarrow> brand_program d (sb_marca s) = Some program)"

definition price_cohort :: "string \<Rightarrow> 'a billing_db_scheme \<Rightarrow> suscripcion list" where
  "price_cohort program d = filter (\<lambda>s. brand_open d (sb_marca s) \<and> sold_for program d s
     \<and> sb_estado s \<in> {''PENDING'', ''AUTHORIZED'', ''PAUSED''}) (suscripciones d)"

section \<open>Previewing a change\<close>

record price_preview =
  pp_brand :: int
  pp_name :: string
  pp_status :: string
  pp_branches :: int
  pp_current :: int
  pp_new :: int
  pp_bps :: int
  pp_remaining :: int

definition brand_name :: "'a core_db_scheme \<Rightarrow> int \<Rightarrow> string" where
  "brand_name d brand = (case List.find (\<lambda>m. m_id m = brand) (marcas d) of None \<Rightarrow> '''' | Some m \<Rightarrow> m_nombre m)"

definition discount_bps :: "int \<Rightarrow> 'a billing_db_scheme \<Rightarrow> int" where
  "discount_bps brand d = (case find_attribution brand d of None \<Rightarrow> 0 | Some a \<Rightarrow> ra_discount_bps a)"

definition preview_scanned :: "'a billing_db_scheme \<Rightarrow> suscripcion \<Rightarrow> price_preview" where
  "preview_scanned d s =
     \<lparr>pp_brand = sb_marca s, pp_name = brand_name d (sb_marca s), pp_status = sb_estado s, pp_branches = sb_cantidad s,
      pp_current = sb_importe s, pp_new = 0, pp_bps = discount_bps (sb_marca s) d,
      pp_remaining = discount_remaining (sb_marca s) d\<rparr>"

fun preview_rows :: "int \<Rightarrow> price_preview list \<Rightarrow> err + price_preview list" where
  "preview_rows amount [] = Inr []"
| "preview_rows amount (x # xs) =
     (if pp_branches x < 1 \<or> quo64 max_subscription_amount (pp_branches x) < amount then Inl (Repo ErrInvalidRequest)
      else
        let unit = (if 0 < pp_remaining x then discounted_minor amount (pp_bps x) else amount) in
        if unit < 1 then Inl (Repo ErrInvalidRequest)
        else case preview_rows amount xs of
          Inl e \<Rightarrow> Inl e
        | Inr ys \<Rightarrow> Inr (x\<lparr>pp_new := mul64 unit (pp_branches x)\<rparr> # ys))"

definition preview_subscription_price ::
  "(string \<Rightarrow> int) \<Rightarrow> string \<Rightarrow> int \<Rightarrow> ('a billing_db_scheme, price_preview list) tx" where
  "preview_subscription_price rank program amount =
     (if \<not> valid_subscription_price program amount then throw (Repo ErrInvalidRequest)
      else
        seq (query (\<lambda>w. let d = committed w in
          map (preview_scanned d) (sort_key (\<lambda>s. rank (brand_name d (sb_marca s))) (sort_key sb_marca (price_cohort program d))))) (\<lambda>rows w.
        (preview_rows amount rows, w)))"

section \<open>Changing a price\<close>

record price_change_item =
  ci_brand :: int
  ci_name :: string
  ci_status :: string
  ci_amount :: "int option"

record price_change_view =
  cv_change :: price_change
  cv_email :: string
  cv_items :: "price_change_item list"

definition subscription_price_change ::
  "(string \<Rightarrow> int) \<Rightarrow> string \<Rightarrow> ('a billing_db_scheme, price_change_view) tx" where
  "subscription_price_change rank key =
     seq (query (\<lambda>w. let d = committed w in first_row
            [(c, bu_email u). c \<leftarrow> price_changes d, u \<leftarrow> backoffice_users d, bu_id u = pc_admin c \<and> pc_id c = key])) (\<lambda>row.
     seq (require row (Repo ErrNotFound)) (\<lambda>(c, email).
     seq (query (\<lambda>w. let d = committed w in
            sort_key (\<lambda>i. rank (ci_name i)) (sort_key ci_brand
              [\<lparr>ci_brand = pi_brand i, ci_name = m_nombre m, ci_status = pi_status i, ci_amount = pi_amount i\<rparr>.
                 i \<leftarrow> price_items d, m \<leftarrow> marcas d, m_id m = pi_brand i \<and> pi_change i = key]))) (\<lambda>items.
     ret \<lparr>cv_change = c, cv_email = email, cv_items = items\<rparr>)))"

definition set_price :: "string \<Rightarrow> int \<Rightarrow> int \<Rightarrow> ('a billing_db_scheme, unit) tx" where
  "set_price program amount admin = exec_ret (\<lambda>w. let d = working w in
     if \<not> list_ex (\<lambda>u. bu_id u = admin) (backoffice_users d) then Inl (PgErr (Other_pg ''23503''))
     else Inr ((), d\<lparr>prices := (case find_price program d of
         None \<Rightarrow> prices d @ [\<lparr>pr_program = program, pr_unit = amount, pr_version = 1, pr_updated_by = admin, pr_updated = db_now w\<rparr>]
       | Some _ \<Rightarrow> update_where (\<lambda>p. pr_program p = program)
           (\<lambda>p. p\<lparr>pr_unit := amount, pr_version := pr_version p + 1, pr_updated_by := admin, pr_updated := db_now w\<rparr>) (prices d))\<rparr>))"

definition insert_price_change :: "price_change \<Rightarrow> ('a billing_db_scheme, unit) tx" where
  "insert_price_change c = exec_ret (\<lambda>w. let d = working w in
     if list_ex (\<lambda>x. pc_id x = pc_id c) (price_changes d)
     then Inl (PgErr (Unique_violation ''subscription_price_changes_pkey''))
     else Inr ((), d\<lparr>price_changes := price_changes d @ [c\<lparr>pc_created := db_now w\<rparr>]\<rparr>))"

definition item_of :: "string \<Rightarrow> suscripcion \<Rightarrow> price_item" where
  "item_of key s = \<lparr>pi_change = key, pi_brand = sb_marca s, pi_provider = coalesce (sb_proveedor_id s) '''',
     pi_reference = sb_referencia s, pi_status = ''PENDING'', pi_amount = None\<rparr>"

text \<open>The items' provider identifier is NOT NULL, and a change lists a brand once.\<close>

definition insert_cohort :: "string \<Rightarrow> string \<Rightarrow> ('a billing_db_scheme, unit) tx" where
  "insert_cohort key program = exec_ret (\<lambda>w. let d = working w; rows = price_cohort program d in
     if list_ex (\<lambda>s. sb_proveedor_id s = None) rows then Inl (PgErr (Other_pg ''23502''))
     else if list_ex (\<lambda>i. pi_change i = key \<and> list_ex (\<lambda>s. sb_marca s = pi_brand i) rows) (price_items d)
     then Inl (PgErr (Unique_violation ''subscription_price_change_items_pkey''))
     else Inr ((), d\<lparr>price_items := price_items d @ map (item_of key) rows\<rparr>))"

definition fix_cohort :: "string \<Rightarrow> string \<Rightarrow> int \<Rightarrow> ('a billing_db_scheme, unit) tx" where
  "fix_cohort key program amount =
     seq (query (\<lambda>w. list_ex (\<lambda>s. max_subscription_amount div amount < sb_cantidad s) (price_cohort program (working w)))) (\<lambda>invalid.
     seq (reject_if invalid (Repo ErrInvalidRequest)) (\<lambda>_.
     insert_cohort key program))"

definition audit_price :: "int \<Rightarrow> string \<Rightarrow> string \<Rightarrow> string \<Rightarrow> ('a billing_db_scheme, unit) tx" where
  "audit_price admin action kind object = exec (\<lambda>w. let d = working w in
     d\<lparr>backoffice_audit := backoffice_audit d @ [\<lparr>au_user = admin, au_action = action, au_kind = kind, au_object = object\<rparr>]\<rparr>)"

definition new_price_change ::
  "int \<Rightarrow> string \<Rightarrow> string \<Rightarrow> int \<Rightarrow> int \<Rightarrow> int \<Rightarrow> bool \<Rightarrow> ('a billing_db_scheme, unit) tx" where
  "new_price_change admin key program amount expected fallback reach =
     seq (query (\<lambda>w. find_price program (working w))) (\<lambda>old.
     let version = (case old of None \<Rightarrow> 0 | Some p \<Rightarrow> pr_version p);
         previous = (case old of None \<Rightarrow> fallback | Some p \<Rightarrow> pr_unit p) in
     seq (reject_if (version \<noteq> expected) (Repo ErrConflict)) (\<lambda>_.
     seq (set_price program amount admin) (\<lambda>_.
     seq (catch (insert_price_change \<lparr>pc_id = key, pc_program = program, pc_unit = amount, pc_previous_version = version,
            pc_version = add64 version 1, pc_include = reach, pc_admin = admin, pc_previous_unit = Some previous, pc_created = 0\<rparr>)
          (\<lambda>e. throw (if is_unique_violation e then Repo ErrConflict else e))) (\<lambda>_.
     seq (if reach then fix_cohort key program amount else ret ()) (\<lambda>_.
     seq (audit_price admin ''subscription_price.change'' ''program'' program) (\<lambda>_.
     commit))))))"

definition change_subscription_price ::
  "(string \<Rightarrow> int) \<Rightarrow> int \<Rightarrow> string \<Rightarrow> string \<Rightarrow> int \<Rightarrow> int \<Rightarrow> int \<Rightarrow> bool \<Rightarrow> ('a billing_db_scheme, price_change_view) tx" where
  "change_subscription_price rank admin key program amount expected fallback reach =
     (if \<not> valid_subscription_price program amount \<or> \<not> valid_subscription_price program fallback \<or> expected < 0
      then throw (Repo ErrInvalidRequest)
      else
        seq (in_tx (
          seq (query (\<lambda>_. ())) (\<lambda>_. \<comment> \<open>the advisory lock of the program\<close>
          seq (query (\<lambda>w. List.find (\<lambda>c. pc_id c = key) (price_changes (working w)))) (\<lambda>old.
          case old of
            Some c \<Rightarrow>
              seq (reject_if (pc_program c \<noteq> program \<or> pc_unit c \<noteq> amount \<or> pc_previous_version c \<noteq> expected
                     \<or> pc_include c \<noteq> reach) (Repo ErrConflict)) (\<lambda>_. commit)
          | None \<Rightarrow> new_price_change admin key program amount expected fallback reach)))) (\<lambda>_.
        subscription_price_change rank key))"

definition retry_subscription_price_change :: "string \<Rightarrow> int \<Rightarrow> ('a billing_db_scheme, unit) tx" where
  "retry_subscription_price_change key admin = in_tx (
     seq (exec_ret (\<lambda>w. let d = working w; p = (\<lambda>i. pi_change i = key \<and> pi_status i = ''FAILED'') in
       Inr (rows_affected p (price_items d), d\<lparr>price_items := update_where p (\<lambda>i. i\<lparr>pi_status := ''PENDING''\<rparr>) (price_items d)\<rparr>))) (\<lambda>n.
     seq (reject_if (n = 0) (Repo ErrConflict)) (\<lambda>_.
     seq (audit_price admin ''subscription_price.retry'' ''price_change'' key) (\<lambda>_.
     commit))))"

section \<open>Applying the items\<close>

text \<open>
  What becomes of one item: nothing to do for now, handled, or refused by the provider, after
  which the transaction is rolled back and the item marked in a statement of its own.
  \<open>clock\_timestamp()\<close> is the clock of the database.
\<close>

datatype price_outcome = Idle | Handled | Refused price_item err

definition next_price_item :: "'a billing_db_scheme \<Rightarrow> (price_item \<times> price_change) option" where
  "next_price_item d = first_row (sort_key (\<lambda>(i, c). pc_created c) (sort_key (\<lambda>(i, c). pi_brand i)
     [(i, c). i \<leftarrow> price_items d, c \<leftarrow> price_changes d, pc_id c = pi_change i \<and> pi_status i = ''PENDING''
        \<and> \<not> list_ex (\<lambda>o1. bo_marca o1 = pi_brand i \<and> active_operation o1) (branch_operations d)]))"

definition finish_item :: "price_item \<Rightarrow> string \<Rightarrow> int option \<Rightarrow> ('a billing_db_scheme, price_outcome) tx" where
  "finish_item i status monthly =
     seq (exec (\<lambda>w. let d = working w in d\<lparr>price_items := update_where
            (\<lambda>x. pi_change x = pi_change i \<and> pi_brand x = pi_brand i)
            (\<lambda>x. x\<lparr>pi_status := status, pi_amount := monthly\<rparr>) (price_items d)\<rparr>)) (\<lambda>_.
     seq commit (\<lambda>_. ret Handled))"

definition replaced_price :: "price_item \<Rightarrow> suscripcion \<Rightarrow> int \<Rightarrow> price_history" where
  "replaced_price i s t =
     \<lparr>ph_provider = pi_provider i, ph_unit = sb_precio s, ph_full = coalesce (sb_full s) (sb_precio s),
      ph_branches = sb_cantidad s, ph_from = coalesce (sb_price_from s) (sb_created s), ph_until = t, ph_change = pi_change i\<rparr>"

definition repriced :: "int \<Rightarrow> int \<Rightarrow> int \<Rightarrow> string \<Rightarrow> int \<Rightarrow> suscripcion \<Rightarrow> suscripcion" where
  "repriced unit full monthly program t s =
     s\<lparr>sb_precio := unit, sb_full := Some full, sb_importe := monthly, sb_program := Some program,
       sb_price_from := Some t, sb_updated := t\<rparr>"

definition record_new_price ::
  "price_item \<Rightarrow> price_change \<Rightarrow> suscripcion \<Rightarrow> int \<Rightarrow> int \<Rightarrow> ('a billing_db_scheme, price_outcome) tx" where
  "record_new_price i c s unit monthly =
     seq (query db_now) (\<lambda>t.
     seq (exec (\<lambda>w. let d = working w in d\<lparr>price_histories := price_histories d @ [replaced_price i s t]\<rparr>)) (\<lambda>_.
     seq (exec (\<lambda>w. let d = working w in d\<lparr>suscripciones := update_where (\<lambda>x. sb_marca x = pi_brand i)
            (repriced unit (pc_unit c) monthly (pc_program c) t) (suscripciones d)\<rparr>)) (\<lambda>_.
     finish_item i ''APPLIED'' (Some monthly))))"

definition price_key :: "price_item \<Rightarrow> int \<Rightarrow> string" where
  "price_key i paid = ''price:'' @ pi_change i @ '':'' @ show_int (pi_brand i) @ '':'' @ show_int paid"

definition discounted_unit :: "attribution option \<Rightarrow> int \<Rightarrow> int \<Rightarrow> int" where
  "discounted_unit att paid amount =
     (case att of None \<Rightarrow> amount
      | Some a \<Rightarrow> if 0 < max (ra_discount_charges a - paid) 0 then discounted_minor amount (ra_discount_bps a) else amount)"

definition reprice ::
  "(string \<Rightarrow> int \<Rightarrow> string \<Rightarrow> ('a billing_db_scheme, unit) tx) \<Rightarrow> price_item \<Rightarrow> price_change \<Rightarrow> suscripcion \<Rightarrow>
   ('a billing_db_scheme, price_outcome) tx" where
  "reprice update i c s =
     seq (query (\<lambda>w. paid_count (pi_brand i) (working w))) (\<lambda>paid.
     seq (query (\<lambda>w. find_attribution (pi_brand i) (working w))) (\<lambda>att.
     let amount = pc_unit c; unit = discounted_unit att paid amount; branches = sb_cantidad s in
     if branches < 1 \<or> quo64 max_subscription_amount branches < amount \<or> unit < 1 then finish_item i ''FAILED'' None
     else
       let monthly = mul64 unit branches in
       if sb_precio s = unit \<and> coalesce (sb_full s) (sb_precio s) = amount then finish_item i ''APPLIED'' (Some monthly)
       else
         seq (outcome_of (update (pi_provider i) monthly (price_key i paid))) (\<lambda>answer.
         case answer of
           Inl e \<Rightarrow> ret (Refused i e)
         | Inr _ \<Rightarrow> record_new_price i c s unit monthly)))"

definition item_matches :: "price_item \<Rightarrow> bool \<Rightarrow> suscripcion \<Rightarrow> bool" where
  "item_matches i active s \<longleftrightarrow> active \<and> coalesce (sb_proveedor_id s) '''' = pi_provider i
     \<and> sb_referencia s = pi_reference i \<and> sb_estado s \<in> {''PENDING'', ''AUTHORIZED'', ''PAUSED''}"

definition handle_item ::
  "(string \<Rightarrow> int \<Rightarrow> string \<Rightarrow> ('a billing_db_scheme, unit) tx) \<Rightarrow> price_item \<Rightarrow> price_change \<Rightarrow>
   ('a billing_db_scheme, price_outcome) tx" where
  "handle_item update i c =
     seq (query (\<lambda>w. map_option pr_version (find_price (pc_program c) (working w)))) (\<lambda>vrow.
     seq (require vrow (GoError ''no rows in result set'')) (\<lambda>version.
     if version \<noteq> pc_version c then finish_item i ''SKIPPED'' None
     else
       seq (query (\<lambda>w. map_option (\<lambda>m. m_activo m \<and> m_deleted_at m = None)
              (List.find (\<lambda>m. m_id m = pi_brand i) (marcas (working w))))) (\<lambda>arow.
       seq (require arow (GoError ''no rows in result set'')) (\<lambda>active.
       seq (query (\<lambda>w. find_suscripcion (pi_brand i) (working w))) (\<lambda>row.
       case row of
         None \<Rightarrow> finish_item i ''SKIPPED'' None
       | Some s \<Rightarrow>
           seq (outcome_of (require_no_pending_branch (pi_brand i))) (\<lambda>pending.
           case pending of
             Inl e \<Rightarrow> if e = Repo ErrIdempotencyInProgress then ret Idle else throw e
           | Inr _ \<Rightarrow>
               if \<not> item_matches i active s then finish_item i ''SKIPPED'' None else reprice update i c s))))))"

definition mark_failed :: "price_item \<Rightarrow> ('a billing_db_scheme, unit) tx" where
  "mark_failed i = pool_exec (\<lambda>w. let d = working w in Inr ((), d\<lparr>price_items := update_where
     (\<lambda>x. pi_change x = pi_change i \<and> pi_brand x = pi_brand i \<and> pi_status x = ''PENDING'')
     (\<lambda>x. x\<lparr>pi_status := ''FAILED''\<rparr>) (price_items d)\<rparr>))"

definition price_item_tx ::
  "(string \<Rightarrow> int \<Rightarrow> string \<Rightarrow> ('a billing_db_scheme, unit) tx) \<Rightarrow> ('a billing_db_scheme, price_outcome) tx" where
  "price_item_tx update = in_tx (
     seq (query (\<lambda>w. next_price_item (working w))) (\<lambda>row.
     case row of None \<Rightarrow> ret Idle | Some (i, c) \<Rightarrow> handle_item update i c))"

definition apply_next_subscription_price_change ::
  "(string \<Rightarrow> int \<Rightarrow> string \<Rightarrow> ('a billing_db_scheme, unit) tx) \<Rightarrow> ('a billing_db_scheme, bool) tx" where
  "apply_next_subscription_price_change update =
     seq (price_item_tx update) (\<lambda>outcome.
     case outcome of
       Idle \<Rightarrow> ret False
     | Handled \<Rightarrow> ret True
     | Refused i e \<Rightarrow> seq (mark_failed i) (\<lambda>_. throw e))"

section \<open>The history of changes\<close>

record price_history_entry =
  he_change :: price_change
  he_email :: string
  he_total :: nat
  he_applied :: nat
  he_pending :: nat
  he_failed :: nat
  he_skipped :: nat

definition items_with :: "'a billing_db_scheme \<Rightarrow> string \<Rightarrow> (string \<Rightarrow> bool) \<Rightarrow> nat" where
  "items_with d key p = length (filter (\<lambda>i. pi_change i = key \<and> p (pi_status i)) (price_items d))"

definition history_entry :: "'a billing_db_scheme \<Rightarrow> price_change \<Rightarrow> string \<Rightarrow> price_history_entry" where
  "history_entry d c email =
     \<lparr>he_change = c, he_email = email, he_total = items_with d (pc_id c) (\<lambda>_. True),
      he_applied = items_with d (pc_id c) (\<lambda>s. s = ''APPLIED''), he_pending = items_with d (pc_id c) (\<lambda>s. s = ''PENDING''),
      he_failed = items_with d (pc_id c) (\<lambda>s. s = ''FAILED''), he_skipped = items_with d (pc_id c) (\<lambda>s. s = ''SKIPPED'')\<rparr>"

text \<open>\<open>uuid_rank\<close> is the order of the column type \<open>uuid\<close>; the row comparison with a cursor is lexicographic.\<close>

definition before_cursor :: "(string \<Rightarrow> int) \<Rightarrow> price_change option \<Rightarrow> price_change \<Rightarrow> bool" where
  "before_cursor uuid_rank cursor c \<longleftrightarrow> (case cursor of None \<Rightarrow> True
     | Some b \<Rightarrow> pc_created c < pc_created b \<or> pc_created c = pc_created b \<and> uuid_rank (pc_id c) < uuid_rank (pc_id b))"

definition history_rows :: "(string \<Rightarrow> int) \<Rightarrow> 'a billing_db_scheme \<Rightarrow> price_change option \<Rightarrow> price_history_entry list" where
  "history_rows uuid_rank d cursor = rev (sort_key (pc_created \<circ> he_change) (sort_key (uuid_rank \<circ> pc_id \<circ> he_change)
     [history_entry d c (bu_email u). c \<leftarrow> price_changes d, u \<leftarrow> backoffice_users d,
        bu_id u = pc_admin c \<and> before_cursor uuid_rank cursor c]))"

definition list_subscription_price_changes ::
  "(string \<Rightarrow> int) \<Rightarrow> int \<Rightarrow> string option \<Rightarrow> ('a billing_db_scheme, price_history_entry list \<times> string option) tx" where
  "list_subscription_price_changes uuid_rank limit before =
     seq (reject_if (limit < 1 \<or> 50 < limit) (Repo ErrInvalidRequest)) (\<lambda>_.
     seq (case before of
            None \<Rightarrow> ret None
          | Some key \<Rightarrow>
              seq (query (\<lambda>w. List.find (\<lambda>c. pc_id c = key) (price_changes (committed w)))) (\<lambda>row.
              seq (reject_if (row = None) (Repo ErrInvalidRequest)) (\<lambda>_. ret row))) (\<lambda>cursor.
     seq (query (\<lambda>w. take (nat limit + 1) (history_rows uuid_rank (committed w) cursor))) (\<lambda>rows.
     ret (if nat limit < length rows
          then (take (nat limit) rows, Some (pc_id (he_change (rows ! (nat limit - 1))))) else (rows, None)))))"

end
