(* ===== verification/SubscriptionService.thy ===== *)
theory SubscriptionService
  imports BranchService SubscriptionPrices MercadoPago
begin

text \<open>
  The service of the subscriptions (\<^verbatim>\<open>internal/service/subscription.go\<close>): the requests of an owner,
  the notifications of the provider and the manual credits of Finance, each composed of the
  repository's operations and of calls to the provider between them. The provider is a record of
  its answers; \<open>bp_find\<close>, \<open>bp_referral\<close> and \<open>bp_branch_payment\<close> (the first of two readings of a
  payment) also say whether the client offers the optional methods.
  \<open>uuid_parse\<close> is \<^verbatim>\<open>uuid.Parse\<close> with the canonical text of the UUID.
\<close>

record billing_provider =
  bp_create :: "subscription_request \<Rightarrow> provider_failure + provider_subscription"
  bp_get :: "string \<Rightarrow> provider_failure + provider_subscription"
  bp_cancel :: "string \<Rightarrow> string \<Rightarrow> provider_failure + provider_subscription"
  bp_find :: "(string \<Rightarrow> provider_failure + provider_subscription option) option"
  bp_referral :: bool
  bp_update :: "string \<Rightarrow> int \<Rightarrow> string \<Rightarrow> provider_failure + provider_subscription"
  bp_invoice :: "string \<Rightarrow> provider_failure + billing_invoice"
  bp_payment :: "string \<Rightarrow> provider_failure + billing_payment"
  bp_branch_payment :: "(string \<Rightarrow> provider_failure + billing_payment) option"

section \<open>Prices and the trial\<close>

definition subscription_unit_price :: "service_config \<Rightarrow> string \<Rightarrow> int option" where
  "subscription_unit_price cfg program =
     (if program = ''SELLOS'' then Some (sv_branch_price cfg)
      else if program = ''PUNTOS'' then Some (sv_points_price cfg) else None)"

definition with_trial :: "billing_context \<Rightarrow> int \<Rightarrow> subscription \<Rightarrow> subscription" where
  "with_trial billing now out =
     (let ends = (if su_trial_ends out = None \<and> \<not> bc_trial_estimated billing
                  then map_option trial_end (bc_trial_started billing) else su_trial_ends out) in
      out\<lparr>su_trial_started := bc_trial_started billing, su_trial_estimated := bc_trial_estimated billing,
          su_trial_ends := ends,
          su_trial_available := (case ends of None \<Rightarrow> su_trial_available out | Some t \<Rightarrow> now < t)\<rparr>)"

definition set_subscription_trial :: "billing_context \<Rightarrow> subscription \<Rightarrow> ('a billing_db_scheme, subscription) tx" where
  "set_subscription_trial billing out = seq now_app (\<lambda>now. ret (with_trial billing now out))"

definition configured :: "subscription \<Rightarrow> subscription" where
  "configured out = out\<lparr>su_configured := True\<rparr>"

section \<open>Subscription\<close>

definition not_configured :: "service_config \<Rightarrow> billing_provider option \<Rightarrow> int \<Rightarrow> billing_context \<Rightarrow> int \<Rightarrow> int \<Rightarrow> int \<Rightarrow> int \<Rightarrow> subscription" where
  "not_configured cfg provider brand billing full discounted remaining now =
     \<lparr>su_brand = brand, su_provider = ''MERCADO_PAGO'', su_status = ''NOT_CONFIGURED'', su_currency = ''ARS'',
      su_unit = discounted, su_branches = bc_branches billing, su_monthly = mul64 discounted (bc_branches billing),
      su_full_monthly = mul64 full (bc_branches billing), su_remaining = remaining, su_checkout = '''',
      su_next = None, su_configured = (provider \<noteq> None \<or> sv_simulator cfg), su_trial_available = False,
      su_trial_started = None, su_trial_ends = None, su_rejected = False, su_trial_estimated = False, su_updated = now\<rparr>"

definition subscription_offer ::
  "service_config \<Rightarrow> billing_provider option \<Rightarrow> int \<Rightarrow> billing_context \<Rightarrow> int \<Rightarrow> ('a billing_db_scheme, subscription) tx" where
  "subscription_offer cfg provider brand billing unit =
     seq (subscription_price (bc_program billing) unit) (\<lambda>price.
     let full = pw_unit price in
     seq (referral_checkout_price brand full) (\<lambda>(discounted, remaining).
     seq now_app (\<lambda>now.
     set_subscription_trial billing (not_configured cfg provider brand billing full discounted remaining now))))"

text \<open>A reservation whose call to the provider was not answered is completed with what the provider knows of it.\<close>

definition adopt_found ::
  "billing_provider option \<Rightarrow> int \<Rightarrow> subscription_record \<Rightarrow> ('a billing_db_scheme, subscription_record) tx" where
  "adopt_found provider brand r =
     (case Option.bind provider bp_find of
        Some ask \<Rightarrow>
          if su_status (sr_subscription r) \<noteq> ''CREATING'' then ret r
          else
            seq (call_out (''FindSubscription'', sr_reference r, 0) (ask (sr_reference r))) (\<lambda>found.
            case found of
              Inl _ \<Rightarrow> throw (Svc BillingProviderFailure)
            | Inr None \<Rightarrow> ret r
            | Inr (Some pv) \<Rightarrow>
                if ps_reference pv \<noteq> sr_reference r \<or> ps_id pv = '''' then throw (Svc BillingProviderFailure)
                else
                  seq (catch (seq (save_subscription_checkout brand pv) (\<lambda>_. ret ()))
                        (\<lambda>e. if e = Repo ErrConflict then ret () else throw e)) (\<lambda>_.
                  subscription_record committed brand))
      | None \<Rightarrow> ret r)"

definition refresh_from_provider ::
  "billing_provider option \<Rightarrow> int \<Rightarrow> bool \<Rightarrow> subscription_record \<Rightarrow> ('a billing_db_scheme, subscription_record) tx" where
  "refresh_from_provider provider brand needed r =
     (case provider of
        Some b \<Rightarrow>
          if \<not> needed \<or> su_status (sr_subscription r) = ''CANCELLED'' then ret r
          else
            seq (call_out (''GetSubscription'', sr_provider_id r, 0) (bp_get b (sr_provider_id r))) (\<lambda>answer.
            case answer of
              Inl _ \<Rightarrow> throw (Svc BillingProviderFailure)
            | Inr pv \<Rightarrow>
                if ps_id pv \<noteq> sr_provider_id r \<or> ps_reference pv \<noteq> sr_reference r then throw (Svc BillingProviderFailure)
                else
                  seq (update_subscription_from_provider pv) (\<lambda>_.
                  subscription_record committed brand))
      | None \<Rightarrow> ret r)"

definition existing_subscription ::
  "service_config \<Rightarrow> billing_provider option \<Rightarrow> int \<Rightarrow> billing_context \<Rightarrow> subscription_record \<Rightarrow> ('a billing_db_scheme, subscription) tx" where
  "existing_subscription cfg provider brand billing r =
     seq (adopt_found provider brand r) (\<lambda>r1.
     seq (refresh_from_provider provider brand (sr_provider_id r \<noteq> '''') r1) (\<lambda>r2.
     seq (set_subscription_trial billing (sr_subscription r2)) (\<lambda>out.
     ret (out\<lparr>su_configured := provider \<noteq> None \<or> sv_simulator cfg\<rparr>))))"

definition subscription_service ::
  "service_config \<Rightarrow> billing_provider option \<Rightarrow> int \<Rightarrow> int \<Rightarrow> ('a billing_db_scheme, subscription) tx" where
  "subscription_service cfg provider actor brand =
     seq (billing_context committed actor brand) (\<lambda>billing.
     case subscription_unit_price cfg (bc_program billing) of
       None \<Rightarrow> throw (Svc InvalidRequest)
     | Some unit \<Rightarrow>
         seq (outcome_of (subscription_record committed brand)) (\<lambda>found.
         case found of
           Inr r \<Rightarrow> existing_subscription cfg provider brand billing r
         | Inl e \<Rightarrow> if e = Repo ErrNotFound then subscription_offer cfg provider brand billing unit else throw e))"

section \<open>CreateSubscriptionCheckout\<close>

text \<open>The subscription as it is now, where another request has moved it past its reservation.\<close>

definition settled_elsewhere :: "int \<Rightarrow> string \<Rightarrow> err \<Rightarrow> ('a billing_db_scheme, subscription) tx" where
  "settled_elsewhere brand ref e =
     seq (outcome_of (subscription_record committed brand)) (\<lambda>found.
     case found of
       Inl _ \<Rightarrow> throw e
     | Inr r \<Rightarrow>
         if sr_reference r = ref \<and> su_status (sr_subscription r) \<noteq> ''CREATING''
         then ret (configured (sr_subscription r)) else throw e)"

definition brand_reference :: "int \<Rightarrow> string" where
  "brand_reference brand = ''puntazo:brand:'' @ show_int brand @ '':''"

definition checkout_request_for ::
  "service_config \<Rightarrow> int \<Rightarrow> billing_context \<Rightarrow> subscription_record \<Rightarrow> string \<Rightarrow> int \<Rightarrow> subscription_request" where
  "checkout_request_for cfg brand billing reserved provider_key now =
     \<lparr>sq_reason = ''Puntazo '' @ bc_program billing @ '' mensual '' @ [CHR 0xC2, CHR 0xB7] @ '' ''
        @ show_int (su_branches (sr_subscription reserved)) @ '' sucursal(es)'',
      sq_reference = sr_reference reserved, sq_email = bc_email billing,
      sq_url = trim_slashes (sv_public_url cfg) @ ''/suscripcion/resultado'', sq_key = provider_key,
      sq_currency = ''ARS'', sq_amount_text = ''0'', sq_amount = su_monthly (sr_subscription reserved),
      sq_free_months = (if su_trial_ends (sr_subscription reserved) = None then sr_trial_months reserved else 0),
      sq_start = (case su_trial_ends (sr_subscription reserved) of None \<Rightarrow> None
        | Some t \<Rightarrow> if now < t then Some t else None)\<rparr>"

definition save_created ::
  "int \<Rightarrow> billing_context \<Rightarrow> string \<Rightarrow> provider_subscription \<Rightarrow> ('a billing_db_scheme, subscription) tx" where
  "save_created brand billing ref created =
     seq (outcome_of (save_subscription_checkout brand created)) (\<lambda>saved.
     case saved of
       Inl e \<Rightarrow> if e = Repo ErrConflict then settled_elsewhere brand ref e else throw e
     | Inr _ \<Rightarrow>
         seq (subscription_record committed brand) (\<lambda>current.
         seq (set_subscription_trial billing (sr_subscription current)) (\<lambda>out.
         ret (configured out))))"

definition ask_provider_to_create ::
  "service_config \<Rightarrow> (string \<Rightarrow> string option) \<Rightarrow> billing_provider \<Rightarrow> int \<Rightarrow> billing_context \<Rightarrow> subscription_record \<Rightarrow>
   ('a billing_db_scheme, subscription) tx" where
  "ask_provider_to_create cfg uuid_parse b brand billing reserved =
     (let ref = sr_reference reserved; provider_key = trim_prefix ref (brand_reference brand) in
      if uuid_parse provider_key = None then throw (Svc InvalidRequest)
      else
        seq now_app (\<lambda>now.
        let req = checkout_request_for cfg brand billing reserved provider_key now in
        seq (call_out (''CreateSubscription'', provider_key, sq_amount req) (bp_create b req)) (\<lambda>answer.
        case answer of
          Inl Rejected \<Rightarrow>
            seq (reject_subscription_checkout brand ref) (\<lambda>_. throw (Svc BillingRejected))
        | Inl Uncertain \<Rightarrow> throw (Svc BillingProviderFailure)
        | Inr created \<Rightarrow>
            if ps_reference created \<noteq> ref \<or> ps_id created = '''' then throw (Svc BillingProviderFailure)
            else save_created brand billing ref created)))"

definition pay_reserved ::
  "service_config \<Rightarrow> (string \<Rightarrow> string option) \<Rightarrow> billing_provider \<Rightarrow> int \<Rightarrow> billing_context \<Rightarrow> subscription_record \<Rightarrow>
   ('a billing_db_scheme, subscription) tx" where
  "pay_reserved cfg uuid_parse b brand billing reserved =
     (if su_status (sr_subscription reserved) \<noteq> ''CREATING'' then
        seq (set_subscription_trial billing (sr_subscription reserved)) (\<lambda>out. ret (configured out))
      else
        seq (claim_subscription_provider_call brand (sr_reference reserved)) (\<lambda>claimed.
        if \<not> claimed then settled_elsewhere brand (sr_reference reserved) (Svc BillingInProgress)
        else ask_provider_to_create cfg uuid_parse b brand billing reserved))"

definition create_subscription_checkout ::
  "service_config \<Rightarrow> (string \<Rightarrow> string option) \<Rightarrow> billing_provider option \<Rightarrow> int \<Rightarrow> int \<Rightarrow> string \<Rightarrow>
   ('a billing_db_scheme, subscription) tx" where
  "create_subscription_checkout cfg uuid_parse provider actor brand key =
     seq (require provider (Svc BillingUnavailable)) (\<lambda>b.
     seq (require (uuid_parse (trim_space key)) (Svc InvalidRequest)) (\<lambda>k.
     seq (billing_context committed actor brand) (\<lambda>bc.
     seq (reject_if (bc_trial_estimated bc \<or> bc_trial_started bc = None) (Svc TrialStartUnknown)) (\<lambda>_.
     seq (catch (reserve_subscription_checkout actor brand (brand_reference brand @ k)
                  (sv_branch_price cfg) (sv_points_price cfg))
           (\<lambda>e. throw (if e = Repo ErrConflict then Svc SubscriptionExists else e))) (\<lambda>(billing, reserved).
     pay_reserved cfg uuid_parse b brand billing reserved)))))"

section \<open>Payments and notifications\<close>

definition referral_provider :: "billing_provider option \<Rightarrow> billing_provider option" where
  "referral_provider provider = (case provider of Some b \<Rightarrow> if bp_referral b then Some b else None | None \<Rightarrow> None)"

text \<open>\<open>^[A-Za-z0-9][A-Za-z0-9/_:-]{5,119}$\<close>\<close>

definition alnum :: "char \<Rightarrow> bool" where
  "alnum c = (let n = of_char c :: nat in 65 \<le> n \<and> n \<le> 90 \<or> 97 \<le> n \<and> n \<le> 122 \<or> 48 \<le> n \<and> n \<le> 57)"

definition settlement_reference :: "string \<Rightarrow> bool" where
  "settlement_reference s = (case s of [] \<Rightarrow> False
     | c # cs \<Rightarrow> alnum c \<and> 5 \<le> length cs \<and> length cs \<le> 119 \<and> list_all (\<lambda>x. alnum x \<or> x \<in> set ''/_:-'') cs)"

text \<open>A read of the provider whose failure is reported as the provider's.\<close>

definition read_back :: "string \<Rightarrow> string \<Rightarrow> (string \<Rightarrow> provider_failure + 'b) \<Rightarrow> ('a billing_db_scheme, 'b) tx" where
  "read_back what resource ask =
     seq (call_out (what, resource, 0) (ask resource)) (\<lambda>answer.
     case answer of Inl _ \<Rightarrow> throw (Svc BillingProviderFailure) | Inr x \<Rightarrow> ret x)"

definition record_manual_merchant_credit ::
  "(string \<Rightarrow> string option) \<Rightarrow> billing_provider option \<Rightarrow> int \<Rightarrow> int \<Rightarrow> int \<Rightarrow> string \<Rightarrow> string \<Rightarrow> string \<Rightarrow>
   ('a billing_db_scheme, allocation) tx" where
  "record_manual_merchant_credit uuid_parse provider brand finance amount key invoice_id settlement =
     seq (require (referral_provider provider) (Svc BillingUnavailable)) (\<lambda>b.
     seq (require (uuid_parse (trim_space key)) (Svc InvalidRequest)) (\<lambda>k.
     seq (reject_if (brand < 1 \<or> finance < 1 \<or> amount < 1 \<or> \<not> settlement_reference settlement) (Svc InvalidRequest)) (\<lambda>_.
     seq (read_back ''GetAuthorizedPayment'' invoice_id (bp_invoice b)) (\<lambda>invoice.
     seq (reject_if (iv_id invoice \<noteq> invoice_id \<or> iv_subscription invoice = '''' \<or> iv_currency invoice \<noteq> ''ARS''
            \<or> iv_payment invoice = '''' \<or> iv_amount invoice < 1) (Svc InvalidRequest)) (\<lambda>_.
     seq (read_back ''GetPayment'' (iv_payment invoice) (bp_payment b)) (\<lambda>payment.
     seq (reject_if (py_id payment \<noteq> iv_payment invoice \<or> py_status payment \<noteq> ''approved'' \<or> py_currency payment \<noteq> ''ARS''
            \<or> py_amount payment \<noteq> iv_amount invoice \<or> py_refunded payment \<noteq> 0) (Svc InvalidRequest)) (\<lambda>_.
     record_merchant_credit_allocation brand finance amount k settlement invoice payment)))))))"

definition advance_price :: "billing_provider \<Rightarrow> string \<Rightarrow> int \<Rightarrow> string \<Rightarrow> ('a billing_db_scheme, unit) tx" where
  "advance_price b i amount key =
     seq (call_out (''UpdateSubscriptionAmount'', key, amount) (bp_update b i amount key)) (\<lambda>answer.
     case answer of
       Inl _ \<Rightarrow> throw (Svc BillingProviderFailure)
     | Inr updated \<Rightarrow> reject_if (ps_id updated \<noteq> i \<or> ps_amount updated \<noteq> amount) (Svc BillingProviderFailure))"

definition reverse_notified_payment :: "billing_provider \<Rightarrow> string \<Rightarrow> string \<Rightarrow> ('a billing_db_scheme, unit) tx" where
  "reverse_notified_payment b notification payment_id =
     seq (outcome_of (referral_invoice_for_payment payment_id)) (\<lambda>found.
     case found of
       Inl e \<Rightarrow> if e = Repo ErrNotFound then ret () else throw e
     | Inr _ \<Rightarrow>
         seq (read_back ''GetPayment'' payment_id (bp_payment b)) (\<lambda>payment.
         seq (reject_if (py_id payment \<noteq> payment_id \<or> py_currency payment \<noteq> ''ARS'' \<or> py_amount payment < 1
                \<or> py_refunded payment < 0 \<or> py_amount payment < py_refunded payment) (Svc InvalidRequest)) (\<lambda>_.
         reverse_referral_payment notification payment)))"

definition charge_notified_invoice :: "billing_provider \<Rightarrow> string \<Rightarrow> string \<Rightarrow> ('a billing_db_scheme, unit) tx" where
  "charge_notified_invoice b notification invoice_id =
     seq (read_back ''GetAuthorizedPayment'' invoice_id (bp_invoice b)) (\<lambda>invoice.
     seq (reject_if (iv_id invoice \<noteq> invoice_id \<or> iv_subscription invoice = '''' \<or> iv_currency invoice \<noteq> ''ARS''
            \<or> iv_amount invoice < 0) (Svc InvalidRequest)) (\<lambda>_.
     if iv_payment invoice = '''' \<or> iv_amount invoice = 0 then ret ()
     else
       seq (read_back ''GetPayment'' (iv_payment invoice) (bp_payment b)) (\<lambda>payment.
       seq (reject_if (py_id payment \<noteq> iv_payment invoice \<or> py_currency payment \<noteq> ''ARS''
              \<or> py_amount payment \<noteq> iv_amount invoice \<or> py_refunded payment < 0
              \<or> py_amount payment < py_refunded payment) (Svc InvalidRequest)) (\<lambda>_.
       record_referral_invoice (advance_price b) notification invoice payment))))"

definition apply_referral_payment_webhook ::
  "billing_provider option \<Rightarrow> string \<Rightarrow> string \<Rightarrow> string \<Rightarrow> ('a billing_db_scheme, unit) tx" where
  "apply_referral_payment_webhook provider notification topic resource =
     seq (require (referral_provider provider) (Svc BillingUnavailable)) (\<lambda>b.
     if topic = ''payment'' then reverse_notified_payment b notification resource
     else charge_notified_invoice b notification resource)"

definition follow_notified_subscription ::
  "service_config \<Rightarrow> bool \<Rightarrow> (err + unit) \<Rightarrow> string \<Rightarrow> billing_provider \<Rightarrow> string \<Rightarrow> string \<Rightarrow> string \<Rightarrow> ('a billing_db_scheme, unit) tx" where
  "follow_notified_subscription cfg key_ok encrypted mail_id b notification topic resource =
     seq (read_back ''GetSubscription'' resource (bp_get b)) (\<lambda>pv.
     seq (reject_if (ps_id pv \<noteq> resource \<or> \<not> has_prefix (ps_reference pv) ''puntazo:brand:'') (Svc InvalidRequest)) (\<lambda>_.
     record_subscription_webhook key_ok encrypted mail_id notification topic pv
       (sv_mail_provider cfg = ''smtp'' \<or> sv_mail_provider cfg = ''capture'')))"

definition apply_subscription_webhook ::
  "(int \<Rightarrow> int) \<Rightarrow> (string \<Rightarrow> string option) \<Rightarrow> service_config \<Rightarrow> bool \<Rightarrow> (err + unit) \<Rightarrow> string \<Rightarrow> billing_provider option \<Rightarrow>
   branch_answers option \<Rightarrow> string \<Rightarrow> string \<Rightarrow> string \<Rightarrow> ('a billing_db_scheme, unit) tx" where
  "apply_subscription_webhook ba_day uuid_parse cfg key_ok encrypted mail_id provider branch notification topic resource =
     seq (require provider (Svc BillingUnavailable)) (\<lambda>b.
     seq (reject_if (notification = '''' \<or> resource = '''') (Svc InvalidRequest)) (\<lambda>_.
     seq (if topic = ''payment'' \<and> sv_proration_enabled cfg
          then apply_branch_payment_webhook ba_day (\<lambda>s. uuid_parse s \<noteq> None) cfg (bp_branch_payment b) branch resource
          else ret False) (\<lambda>handled.
     if handled then ret ()
     else if topic = ''subscription_authorized_payment'' \<or> topic = ''payment''
     then apply_referral_payment_webhook provider notification topic resource
     else if topic \<noteq> ''subscription_preapproval'' then throw (Svc InvalidRequest)
     else follow_notified_subscription cfg key_ok encrypted mail_id b notification topic resource)))"

section \<open>Cancelling\<close>

definition cancelled_at_provider :: "subscription_record \<Rightarrow> provider_subscription" where
  "cancelled_at_provider r =
     \<lparr>ps_id = sr_provider_id r, ps_status = ''cancelled'', ps_reference = sr_reference r, ps_checkout = '''',
      ps_amount = 0, ps_next = None\<rparr>"

text \<open>The callback that \<open>CancelSubscriptionLocked\<close> runs on the locked subscription.\<close>

definition cancel_at_provider ::
  "billing_provider \<Rightarrow> string \<Rightarrow> subscription_record \<Rightarrow> ('a billing_db_scheme, provider_subscription) tx" where
  "cancel_at_provider b key r =
     (if su_status (sr_subscription r) = ''CANCELLED'' then ret (cancelled_at_provider r)
      else if su_status (sr_subscription r) = ''CREATING'' then throw (Svc BillingInProgress)
      else
        seq (read_back ''CancelSubscription'' (sr_provider_id r) (\<lambda>i. bp_cancel b i key)) (\<lambda>pv.
        if ps_id pv \<noteq> sr_provider_id r \<or> ps_reference pv \<noteq> sr_reference r
           \<or> ps_status pv \<noteq> ''cancelled'' \<and> ps_status pv \<noteq> ''canceled''
        then throw (Svc BillingProviderFailure) else ret pv))"

definition already_cancelled :: "int \<Rightarrow> subscription_record \<Rightarrow> ('a billing_db_scheme, subscription) tx" where
  "already_cancelled brand r =
     (if su_next (sr_subscription r) \<noteq> None \<or> su_checkout (sr_subscription r) \<noteq> '''' then
        seq (update_subscription_from_provider (cancelled_at_provider r)) (\<lambda>_.
        seq (subscription_record committed brand) (\<lambda>current.
        ret (configured (sr_subscription current))))
      else ret (configured (sr_subscription r)))"

definition cancel_unlocked :: "billing_provider \<Rightarrow> int \<Rightarrow> string \<Rightarrow> ('a billing_db_scheme, subscription) tx" where
  "cancel_unlocked b brand key =
     seq (subscription_record committed brand) (\<lambda>r.
     if su_status (sr_subscription r) = ''CANCELLED'' then already_cancelled brand r
     else if su_status (sr_subscription r) = ''CREATING'' then throw (Svc BillingInProgress)
     else
       seq (read_back ''CancelSubscription'' (sr_provider_id r) (\<lambda>i. bp_cancel b i key)) (\<lambda>pv.
       seq (reject_if (ps_id pv \<noteq> sr_provider_id r \<or> ps_reference pv \<noteq> sr_reference r) (Svc BillingProviderFailure)) (\<lambda>_.
       seq (update_subscription_from_provider pv) (\<lambda>_.
       seq (subscription_record committed brand) (\<lambda>current.
       ret (configured (sr_subscription current)))))))"

definition cancel_subscription ::
  "service_config \<Rightarrow> (string \<Rightarrow> string option) \<Rightarrow> billing_provider option \<Rightarrow> int \<Rightarrow> int \<Rightarrow> string \<Rightarrow>
   ('a billing_db_scheme, subscription) tx" where
  "cancel_subscription cfg uuid_parse provider actor brand key =
     seq (require provider (Svc BillingUnavailable)) (\<lambda>b.
     seq (require (uuid_parse (trim_space key)) (Svc InvalidRequest)) (\<lambda>k.
     seq (billing_context committed actor brand) (\<lambda>billing.
     seq (require (subscription_unit_price cfg (bc_program billing)) (Svc InvalidRequest)) (\<lambda>_.
     if sv_proration_enabled cfg then
       seq (cancel_subscription_locked actor brand (cancel_at_provider b k)) (\<lambda>out. ret (configured out))
     else cancel_unlocked b brand k))))"

section \<open>Results and confirmations\<close>

text \<open>\<open>^[A-Za-z0-9_-]{1,128}$\<close>\<close>

definition provider_id_ok :: "string \<Rightarrow> bool" where
  "provider_id_ok s \<longleftrightarrow> 1 \<le> length s \<and> length s \<le> 128 \<and> list_all (\<lambda>x. alnum x \<or> x \<in> set ''_-'') s"

definition subscription_result ::
  "service_config \<Rightarrow> billing_provider option \<Rightarrow> int \<Rightarrow> string \<Rightarrow> ('a billing_db_scheme, subscription) tx" where
  "subscription_result cfg provider actor provider_id =
     seq (reject_if (\<not> provider_id_ok provider_id) (Svc InvalidRequest)) (\<lambda>_.
     seq (subscription_brand_for_owner actor provider_id) (\<lambda>brand.
     subscription_service cfg provider actor brand))"

definition request_subscription_confirmation_service ::
  "service_config \<Rightarrow> bool \<Rightarrow> (err + unit) \<Rightarrow> string \<Rightarrow> int \<Rightarrow> int \<Rightarrow> ('a billing_db_scheme, unit) tx" where
  "request_subscription_confirmation_service cfg key_ok encrypted mail_id actor brand =
     (if sv_mail_provider cfg \<noteq> ''smtp'' \<and> sv_mail_provider cfg \<noteq> ''capture''
      then throw (GoError ''email queue encryption is unavailable'')
      else request_subscription_confirmation key_ok encrypted mail_id actor brand)"

end
