(* ===== verification/CheckoutProperties.thy ===== *)
theory CheckoutProperties
  imports SubscriptionService SubscriptionProperties
begin

text \<open>
  What the checkout of a subscription asks of the provider: at most one request, of the amount
  and under the key of the reservation it claimed, and never a second one for a reservation.
\<close>

section \<open>Operations that ask nothing\<close>

lemma silent_split [call_rules]:
  "(\<And>a. silent (f a)) \<Longrightarrow> silent m \<Longrightarrow> silent (case x of None \<Rightarrow> m | Some a \<Rightarrow> f a)"
  "(\<And>e. silent (g e)) \<Longrightarrow> (\<And>a. silent (f2 a)) \<Longrightarrow> silent (case y of Inl e \<Rightarrow> g e | Inr a \<Rightarrow> f2 a)"
  "(\<And>a b. silent (k a b)) \<Longrightarrow> silent (case z of (a, b) \<Rightarrow> k a b)"
  "silent (h t) \<Longrightarrow> silent (let u = t in h u)"
  by (simp_all split: option.split sum.split prod.split)

lemma silent_pure [call_rules]: "silent (\<lambda>w. (r, w))"
  by (simp add: silent_def)

lemma silent_pool [call_rules]: "silent (pool_exec g)"
  unfolding pool_exec_def
  by (rule silent_seq [OF silent_tick]) (auto simp: silent_def split: sum.splits prod.splits)

lemma silent_catch [call_rules]:
  assumes "silent m" and "\<And>e. silent (h e)"
  shows "silent (catch m h)"
  unfolding silent_def
proof (intro allI impI)
  fix w r w1
  assume run: "catch m h w = (r, w1)"
  obtain r2 w2 where m: "m w = (r2, w2)" by (cases "m w")
  have "sent w2 = sent w" using assms(1) m by (simp add: silent_def)
  then show "sent w1 = sent w"
    using run m assms(2) unfolding silent_def catch_def by (cases r2) auto
qed

lemma silent_outcome_of [call_rules]: "silent m \<Longrightarrow> silent (outcome_of m)"
  by (auto simp: silent_def outcome_of_def split: prod.splits)

lemma silent_in_tx [call_rules]:
  assumes "silent m"
  shows "silent (in_tx m)"
  unfolding silent_def
proof (intro allI impI)
  fix w r w1
  assume "in_tx m w = (r, w1)"
  then show "sent w1 = sent w"
  proof (cases rule: in_tx_run)
    case (body w2)
    then show ?thesis using assms by (simp add: silent_def)
  qed
qed

lemma silent_steps [call_rules]:
  "silent (subscription_record view brand)" "silent (billing_context view actor brand)"
  "silent (save_subscription_checkout brand pv)" "silent (reject_subscription_checkout brand ref)"
  "silent (claim_subscription_provider_call brand ref)" "silent (set_subscription_trial billing out)"
  unfolding subscription_record_def billing_context_def save_subscription_checkout_def
    reject_subscription_checkout_def claim_subscription_provider_call_def set_subscription_trial_def
  by (intro call_rules)+

lemma silent_settled [call_rules]: "silent (settled_elsewhere brand ref e)"
  unfolding settled_elsewhere_def by (intro call_rules)

lemma silent_save_created [call_rules]: "silent (save_created brand billing ref created)"
  unfolding save_created_def by (intro call_rules)

lemma silent_reserve [call_rules]: "silent (reserve_subscription_checkout actor brand external sp pp)"
  unfolding reserve_subscription_checkout_def reserve_at_price_def reserve_priced_def reserve_row_def
    upsert_suscripcion_def Let_def
  by (intro call_rules)

lemma silentD: "silent m \<Longrightarrow> m w = (r, w1) \<Longrightarrow> sent w1 = sent w"
  by (simp add: silent_def)

text \<open>A silent first part, seen from the run of the whole.\<close>

lemma seq_silent [consumes 2, case_names stopped goes_on]:
  assumes "silent m" and "seq m f w = (r, w1)"
  obtains (stopped) e where "m w = (Inl e, w1)" "r = Inl e" "sent w1 = sent w"
    | (goes_on) a w2 where "m w = (Inr a, w2)" "sent w2 = sent w" "f a w2 = (r, w1)"
proof -
  obtain r2 w2 where m: "m w = (r2, w2)" by (cases "m w")
  note s = silentD [OF assms(1) m]
  show thesis
  proof (cases r2)
    case (Inl e)
    then show thesis using assms(2) m s stopped [of e] by (simp add: seq_def)
  next
    case (Inr a)
    then show thesis using assms(2) m s goes_on [of a w2] by (simp add: seq_def)
  qed
qed

section \<open>The mark of a claimed reservation\<close>

definition marked :: "int \<Rightarrow> string \<Rightarrow> int \<Rightarrow> 'a billing_db_scheme \<Rightarrow> bool" where
  "marked brand ref amount d \<longleftrightarrow> (\<exists>s \<in> set (suscripciones d). sb_marca s = brand \<and> sb_referencia s = ref
     \<and> sb_importe s = amount \<and> sb_call_started s \<noteq> None)"

lemma marked_update:
  assumes "\<And>s. sb_marca (f s) = sb_marca s \<and> sb_referencia (f s) = sb_referencia s \<and> sb_importe (f s) = sb_importe s
      \<and> sb_call_started (f s) = sb_call_started s"
    and "marked brand ref amount d"
  shows "marked brand ref amount (d\<lparr>suscripciones := update_where p f (suscripciones d)\<rparr>)"
proof -
  from assms(2) obtain s where s: "s \<in> set (suscripciones d)" "sb_marca s = brand" "sb_referencia s = ref"
    "sb_importe s = amount" "sb_call_started s \<noteq> None" unfolding marked_def by blast
  then show ?thesis
    unfolding marked_def using assms(1) by (intro bexI [of _ "if p s then f s else s"]) (auto simp: set_update_where)
qed

lemma keeps_pool:
  assumes "\<And>w a d1. I (working w) \<Longrightarrow> g w = Inr (a, d1) \<Longrightarrow> I d1"
  shows "keeps I (pool_exec g)"
proof (rule keeps_atomic [OF atomic_pool_exec])
  fix w a w1
  assume "I (committed w)" "pool_exec g w = (Inr a, w1)"
  then show "I (committed w1)"
    using assms [of "(ticked w)\<lparr>working := committed w\<rparr>"] by (auto simp: pool_exec_Inr)
qed

lemma marked_save [keeps_rules]: "keeps (marked brand ref amount) (save_subscription_checkout b pv)"
  unfolding save_subscription_checkout_def Let_def
  by (intro keeps_rules keeps_pool)
    (auto split: list.splits if_splits intro!: marked_update simp: checkout_saved_def)

lemma marked_reject [keeps_rules]: "keeps (marked brand ref amount) (reject_subscription_checkout b r)"
  unfolding reject_subscription_checkout_def Let_def
  by (intro keeps_pool) (auto intro!: marked_update)

lemma keeps_reads [keeps_rules]:
  "keeps I (subscription_record view brand)" "keeps I (set_subscription_trial billing out)"
  unfolding subscription_record_def set_subscription_trial_def by (intro keeps_rules)+

lemma marked_ask:
  "keeps (marked brand ref amount) (ask_provider_to_create cfg up b brand2 billing reserved)"
  unfolding ask_provider_to_create_def Let_def save_created_def settled_elsewhere_def
  by (intro keeps_rules) (auto intro!: keeps_rules split: provider_failure.split)

section \<open>What the reservation and the claim leave\<close>

lemma distinct_mapD: "distinct (map f xs) \<Longrightarrow> x \<in> set xs \<Longrightarrow> y \<in> set xs \<Longrightarrow> f x = f y \<Longrightarrow> x = y"
  by (auto simp: distinct_map inj_on_def)

lemma the_row:
  assumes "distinct (map sb_marca (suscripciones d))" and "x \<in> set (suscripciones d)" and "sb_marca x = brand"
  shows "find_suscripcion brand d = Some x"
proof (cases "find_suscripcion brand d")
  case None
  then show ?thesis using assms(2,3) by (simp add: find_suscripcion_None)
next
  case (Some s)
  have "s = x" by (rule distinct_mapD [OF assms(1) find_suscripcion_Some(1) [OF Some] assms(2)])
    (simp add: find_suscripcion_Some(2) [OF Some] assms(3))
  with Some show ?thesis by simp
qed

text \<open>A reservation in creation is the brand's row, of the amount handed out, and no other row had its reference.\<close>

lemma reserved_row:
  assumes inv: "subscription_inv (committed w)"
    and run: "reserve_subscription_checkout actor brand external sp pp w = (Inr (b, r), w1)"
  obtains s where "find_suscripcion brand (committed w1) = Some s" "sb_referencia s = sr_reference r"
    "sb_importe s = su_monthly (sr_subscription r)"
    "\<forall>x \<in> set (suscripciones (committed w)). sb_referencia x = sr_reference r \<longrightarrow> x = s"
  using inv run
proof (cases rule: reserve_checkout_Inr)
  case kept
  then obtain s where s: "find_suscripcion brand (committed w) = Some s" "sr_reference r = sb_referencia s"
    "su_monthly (sr_subscription r) = sb_importe s"
    unfolding reservation_kept_def by blast
  have same: "x = s" if "x \<in> set (suscripciones (committed w))" "sb_referencia x = sr_reference r" for x
    by (rule distinct_mapD [OF subscription_invD(2) [OF inv] that(1) find_suscripcion_Some(1) [OF s(1)]])
      (simp add: that(2) s(2))
  have "find_suscripcion brand (committed w1) = Some s" using s(1) kept(2) by simp
  then show thesis by (rule that [OF _ s(2) [symmetric] s(3) [symmetric]]) (use same in blast)
next
  case (fresh v)
  note f = reserved_freshD [OF fresh(1)]
  let ?s = "upserted brand v (db_now w) (find_suscripcion brand (committed w))"
  have brand: "sb_marca ?s = brand" by (simp add: upserted_def)
  have row: "find_suscripcion brand (committed w1) = Some ?s"
    unfolding fresh(3) by (subst find_with_row [OF brand]) simp
  have old: "sb_referencia x \<noteq> external" if x: "x \<in> set (suscripciones (committed w))" for x
  proof (cases "sb_marca x = brand")
    case True
    have "find_suscripcion brand (committed w) = Some x"
      by (rule the_row [OF subscription_invD(1) [OF inv] x True])
    then show ?thesis using fresh(1) unfolding reserved_fresh_def by blast
  next
    case False
    then show ?thesis using fresh(1) x unfolding reserved_fresh_def by blast
  qed
  show thesis
    by (rule that [OF row]) (use fresh f old in \<open>auto simp: upserted_def\<close>)
qed

lemma claim_call_Inr:
  assumes "claim_subscription_provider_call brand ref w = (Inr True, w1)"
    and "find_suscripcion brand (committed w) = Some s" and "distinct (map sb_marca (suscripciones (committed w)))"
  shows "sb_referencia s = ref" "sb_call_started s = None" "sb_estado s = ''CREATING''"
    "marked brand ref (sb_importe s) (committed w1)"
proof -
  let ?p = "\<lambda>s. sb_marca s = brand \<and> sb_referencia s = ref \<and> sb_estado s = ''CREATING'' \<and> sb_call_started s = None"
  let ?f = "\<lambda>s. s\<lparr>sb_call_started := Some (db_now w), sb_updated := db_now w\<rparr>"
  have n: "rows_affected ?p (suscripciones (committed w)) = 1"
    and w1: "suscripciones (committed w1) = update_where ?p ?f (suscripciones (committed w))"
    using assms(1) by (auto simp: claim_subscription_provider_call_def Let_def pool_exec_Inr)
  from n have "filter ?p (suscripciones (committed w)) \<noteq> []" unfolding rows_affected_def by (intro notI) simp
  then obtain x where x: "x \<in> set (suscripciones (committed w))" "?p x" unfolding filter_empty_conv by blast
  have "x = s"
    using the_row [OF assms(3) x(1)] x(2) assms(2) by simp
  with x show "sb_referencia s = ref" "sb_call_started s = None" "sb_estado s = ''CREATING''" by auto
  have "?f x \<in> set (suscripciones (committed w1))" using x unfolding w1 set_update_where by auto
  with \<open>x = s\<close> x show "marked brand ref (sb_importe s) (committed w1)"
    unfolding marked_def by (intro bexI [of _ "?f x"]) auto
qed

lemma ask_sent:
  assumes "ask_provider_to_create cfg up b brand billing reserved w = (r, w1)"
  shows "sent w1 = sent w \<or> sent w1 = sent w @ [(''CreateSubscription'',
    trim_prefix (sr_reference reserved) (brand_reference brand), su_monthly (sr_subscription reserved))]"
proof (cases "up (trim_prefix (sr_reference reserved) (brand_reference brand)) = None")
  case True
  with assms show ?thesis by (simp add: ask_provider_to_create_def Let_def throw_def)
next
  case False
  let ?key = "trim_prefix (sr_reference reserved) (brand_reference brand)"
  let ?ref = "sr_reference reserved"
  let ?rest = "\<lambda>answer. case answer of
      Inl Rejected \<Rightarrow> seq (reject_subscription_checkout brand ?ref) (\<lambda>_. throw (Svc BillingRejected))
    | Inl Uncertain \<Rightarrow> throw (Svc BillingProviderFailure)
    | Inr created \<Rightarrow> if ps_reference created \<noteq> ?ref \<or> ps_id created = '''' then throw (Svc BillingProviderFailure)
        else save_created brand billing ?ref created"
  let ?req = "checkout_request_for cfg brand billing reserved ?key (app_now w)"
  have "silent (?rest a)" for a
    by (intro call_rules) (auto intro!: call_rules split: provider_failure.split)
  moreover have "sq_amount ?req = su_monthly (sr_subscription reserved)" by (simp add: checkout_request_for_def)
  moreover have "?rest (bp_create b ?req) (w\<lparr>sent := sent w @ [(''CreateSubscription'', ?key, sq_amount ?req)]\<rparr>) = (r, w1)"
    using assms False unfolding ask_provider_to_create_def Let_def seq_def now_app_def call_out_def
    by (simp only: if_False prod.case sum.case)
  ultimately show ?thesis using silentD by fastforce
qed

section \<open>The checkout\<close>

definition asked_once :: "int \<Rightarrow> 'a billing_db_scheme world \<Rightarrow> 'a billing_db_scheme world \<Rightarrow> bool" where
  "asked_once brand w w1 \<longleftrightarrow> (\<exists>s \<in> set (suscripciones (committed w1)).
     sent w1 = sent w @ [(''CreateSubscription'', trim_prefix (sb_referencia s) (brand_reference brand), sb_importe s)]
     \<and> sb_marca s = brand \<and> sb_call_started s \<noteq> None
     \<and> (\<forall>x \<in> set (suscripciones (committed w)). sb_referencia x = sb_referencia s \<longrightarrow> sb_call_started x = None))"

lemma pay_reserved_asks:
  assumes inv: "subscription_inv (committed w)" and run: "pay_reserved cfg up b brand billing reserved w = (r, w1)"
    and s: "find_suscripcion brand (committed w) = Some s" "sb_importe s = su_monthly (sr_subscription reserved)"
  shows "sent w1 = sent w \<or> sent w1 = sent w @ [(''CreateSubscription'',
      trim_prefix (sr_reference reserved) (brand_reference brand), sb_importe s)]
    \<and> marked brand (sr_reference reserved) (sb_importe s) (committed w1) \<and> sb_call_started s = None"
proof (cases "su_status (sr_subscription reserved) = ''CREATING''")
  case False
  have "silent (seq (set_subscription_trial billing (sr_subscription reserved)) (\<lambda>out. ret (configured out)))"
    by (intro call_rules)
  with run False show ?thesis by (auto simp: pay_reserved_def dest: silentD)
next
  case True
  let ?next = "\<lambda>claimed. if \<not> claimed then settled_elsewhere brand (sr_reference reserved) (Svc BillingInProgress)
        else ask_provider_to_create cfg up b brand billing reserved"
  from run True have "seq (claim_subscription_provider_call brand (sr_reference reserved)) ?next w = (r, w1)"
    by (simp add: pay_reserved_def)
  with silent_steps(5) show ?thesis
  proof (cases rule: seq_silent)
    case stopped
    then show ?thesis by simp
  next
    case (goes_on claimed w2)
    show ?thesis
    proof (cases claimed)
      case False
      with goes_on have "sent w1 = sent w2" by (intro silentD [OF silent_settled]) simp
      with goes_on show ?thesis by simp
    next
      case True
      with goes_on have claim: "claim_subscription_provider_call brand (sr_reference reserved) w = (Inr True, w2)"
        and ask: "ask_provider_to_create cfg up b brand billing reserved w2 = (r, w1)" by simp_all
      note c = claim_call_Inr [OF claim s(1) subscription_invD(1) [OF inv]]
      have "marked brand (sr_reference reserved) (sb_importe s) (committed w1)"
        by (rule keepsD [OF marked_ask c(4) ask])
      then show ?thesis using ask_sent [OF ask] c(2) goes_on(2) s(2) by auto
    qed
  qed
qed

lemma reserve_catch_Inr:
  assumes "catch m (\<lambda>e. throw (f e)) w = (Inr a, w1)"
  shows "m w = (Inr a, w1)"
  using assms by (auto simp: catch_Inr throw_def)

lemma checkout_run:
  assumes "create_subscription_checkout cfg up provider actor brand key w = (r, w1)"
  obtains (nothing) "sent w1 = sent w"
  | (paying) w2 w3 external b billing reserved where "committed w2 = committed w" "sent w3 = sent w"
      "reserve_subscription_checkout actor brand external (sv_branch_price cfg) (sv_points_price cfg) w2 = (Inr (billing, reserved), w3)"
      "pay_reserved cfg up b brand billing reserved w3 = (r, w1)"
proof -
  have bc: "no_commit (billing_context committed actor brand)"
    unfolding billing_context_def by (intro no_commit_rules)
  from silent_leaf(4) assms [unfolded create_subscription_checkout_def] show thesis
  proof (cases rule: seq_silent)
    case (goes_on b wa)
    from silent_leaf(4) goes_on(3) show thesis
    proof (cases rule: seq_silent)
      case stopped
      with goes_on show thesis by (intro that(1)) simp
    next
      case B: (goes_on k wb)
      from silent_steps(2) B(3) show thesis
      proof (cases rule: seq_silent)
        case stopped
        with goes_on B show thesis by (intro that(1)) simp
      next
        case C: (goes_on bc wc)
        from silent_leaf(3) C(3) show thesis
        proof (cases rule: seq_silent)
          case stopped
          with goes_on B C show thesis by (intro that(1)) simp
        next
          case D: (goes_on u wd)
          have c: "committed wd = committed w"
            using no_commitD [OF no_commit_require goes_on(1)] no_commitD [OF no_commit_require B(1)]
              no_commitD [OF bc C(1)] no_commitD [OF no_commit_reject_if D(1)] by simp
          from silent_catch [OF silent_reserve silent_leaf(2)] D(3) show thesis
          proof (cases rule: seq_silent)
            case stopped
            with goes_on B C D show thesis by (intro that(1)) simp
          next
            case E: (goes_on z we)
            obtain billing reserved where z: "z = (billing, reserved)" by (cases z)
            have s: "sent we = sent w" using goes_on B C D E by simp
            show thesis
              by (rule that(2) [OF c s reserve_catch_Inr [OF E(1) [unfolded z]]]) (use E(3) z in simp)
          qed
        qed
      qed
    qed
  qed (rule that(1))
qed

text \<open>
  C26. A checkout sends at most one request to create a subscription; the one it sends has the
  monthly amount and the key of a row of the brand that was not claimed before, and leaves that
  row marked as claimed in the committed database, whatever the provider answers and wherever the
  database fails afterwards.
\<close>

theorem checkout_asks_once:
  assumes inv: "subscription_inv (committed w)"
    and run: "create_subscription_checkout cfg uuid_parse provider actor brand key w = (r, w1)"
  shows "sent w1 = sent w \<or> (\<exists>s \<in> set (suscripciones (committed w1)).
     sent w1 = sent w @ [(''CreateSubscription'', trim_prefix (sb_referencia s) (brand_reference brand), sb_importe s)]
     \<and> sb_marca s = brand \<and> sb_call_started s \<noteq> None
     \<and> (\<forall>x \<in> set (suscripciones (committed w)). sb_referencia x = sb_referencia s \<longrightarrow> sb_call_started x = None))"
  using run
proof (cases rule: checkout_run)
  case (paying w2 w3 external b billing reserved)
  have inv2: "subscription_inv (committed w2)" using inv paying(1) by simp
  from inv2 paying(3) obtain s where s: "find_suscripcion brand (committed w3) = Some s" "sb_referencia s = sr_reference reserved"
    "sb_importe s = su_monthly (sr_subscription reserved)"
    "\<forall>x \<in> set (suscripciones (committed w2)). sb_referencia x = sr_reference reserved \<longrightarrow> x = s"
    by (rule reserved_row)
  have inv3: "subscription_inv (committed w3)" using conformsD(1) [OF reserve_conforms inv2 paying(3)] .
  from pay_reserved_asks [OF inv3 paying(4) s(1,3)] show ?thesis
  proof
    assume asked: "sent w1 = sent w3 @ [(''CreateSubscription'', trim_prefix (sr_reference reserved) (brand_reference brand), sb_importe s)]
      \<and> marked brand (sr_reference reserved) (sb_importe s) (committed w1) \<and> sb_call_started s = None"
    then obtain x where x: "x \<in> set (suscripciones (committed w1))" "sb_marca x = brand" "sb_referencia x = sr_reference reserved"
      "sb_importe x = sb_importe s" "sb_call_started x \<noteq> None" unfolding marked_def by blast
    have "sb_call_started y = None" if "y \<in> set (suscripciones (committed w))" "sb_referencia y = sb_referencia x" for y
      using s(4) that x(3) asked paying(1) by auto
    with x asked paying(2) show ?thesis by (intro disjI2 bexI [OF _ x(1)]) simp
  qed (simp add: paying(2))
qed simp

text \<open>A brand whose reservation was never answered: a second checkout, under another key, completes it.\<close>

definition demo_reservation :: suscripcion where
  "demo_reservation = demo_rival\<lparr>sb_marca := 10, sb_proveedor_id := None, sb_referencia := ''puntazo:brand:10:J'',
     sb_estado := ''CREATING'', sb_proximo := None, sb_trial_ends := Some 5, sb_call_started := None\<rparr>"

definition demo_reserved_shop :: "billing_db world" where
  "demo_reserved_shop = (let d = demo_market\<lparr>marcas := map (\<lambda>m. m\<lparr>m_trial_started := Some 0\<rparr>) (marcas demo_market),
       suscripciones := [demo_rival, demo_reservation]\<rparr> in
     demo_market_world\<lparr>committed := d, working := d\<rparr>)"

definition demo_client :: billing_provider where
  "demo_client =
     \<lparr>bp_create = (\<lambda>req. Inr \<lparr>ps_id = ''PA'', ps_status = ''pending'', ps_reference = sq_reference req,
        ps_checkout = ''https'', ps_amount = sq_amount req, ps_next = None\<rparr>),
      bp_get = (\<lambda>_. Inl Uncertain), bp_cancel = (\<lambda>_ _. Inl Uncertain), bp_find = None, bp_referral = False,
      bp_update = (\<lambda>_ _ _. Inl Uncertain), bp_invoice = (\<lambda>_. Inl Uncertain), bp_payment = (\<lambda>_. Inl Uncertain),
      bp_branch_payment = None\<rparr>"

definition demo_config :: service_config where
  "demo_config = \<lparr>sv_proration_enabled = True, sv_simulator = False, sv_billing = True, sv_production = True,
     sv_public_url = ''https://x/'', sv_branch_price = 900, sv_points_price = 1000, sv_mail_provider = ''''\<rparr>"

definition demo_checkout :: "(err + subscription) \<times> billing_db world" where
  "demo_checkout = create_subscription_checkout demo_config Some (Some demo_client) 1 10 ''K'' demo_reserved_shop"

lemma demo_checkout_asks: "sent (snd demo_checkout) \<noteq> sent demo_reserved_shop"
  by code_simp

lemma demo_reserved_shop_inv: "subscription_inv (committed demo_reserved_shop)"
  by (simp add: subscription_inv_def demo_reserved_shop_def Let_def demo_reservation_def demo_rival_def pid_distinct_def
      row_checked_def full_unit_def max_subscription_amount_def demo_market_def)

theorem checkout_asks_once_witness:
  "\<exists>s. s \<in> set (suscripciones (committed (snd demo_checkout))) \<and> sb_call_started s \<noteq> None
     \<and> sent (snd demo_checkout) =
       [(''CreateSubscription'', trim_prefix (sb_referencia s) (brand_reference 10), sb_importe s)]"
proof -
  have "sent demo_reserved_shop = []" by (simp add: demo_reserved_shop_def demo_market_world_def Let_def)
  then show ?thesis
    using checkout_asks_once [OF demo_reserved_shop_inv, of demo_config Some "Some demo_client" 1 10 "''K''" "fst demo_checkout" "snd demo_checkout"]
      demo_checkout_asks by (auto simp: demo_checkout_def)
qed

end
