(* ===== verification/BranchWorker.thy ===== *)
theory BranchWorker
  imports BranchService BranchTheorems
begin

text \<open>
  The background loop of the branch purchases comes to the end of every tick: a purchase that
  fails is left as it was and stops neither the tick nor the loop.
\<close>

lemma atomic_reconcile_purchase [atomic_rules]: "atomic (reconcile_purchase ba_day cfg provider oid)"
  unfolding reconcile_purchase_def by (intro atomic_rules no_commit_rules)

text \<open>One purchase reconciled to the end.\<close>

definition worker_step :: "(int \<Rightarrow> int) \<Rightarrow> service_config \<Rightarrow> 'a billing_db_scheme \<Rightarrow> 'a billing_db_scheme \<Rightarrow> bool" where
  "worker_step ba_day cfg d d1 \<longleftrightarrow> (\<exists>oid provider w u w1. committed w = d
     \<and> reconcile_purchase ba_day cfg provider oid w = (Inr u, w1) \<and> committed w1 = d1)"

lemma reconcile_each_runs:
  "\<exists>v. reconcile_each ba_day cfg answers oids w = (Inr (), v) \<and> (worker_step ba_day cfg)\<^sup>*\<^sup>* (committed w) (committed v)"
proof (induction oids arbitrary: w)
  case (Cons oid oids)
  obtain r w1 where run: "reconcile_purchase ba_day cfg (answers oid) oid w = (r, w1)"
    by (cases "reconcile_purchase ba_day cfg (answers oid) oid w")
  have first: "(worker_step ba_day cfg)\<^sup>*\<^sup>* (committed w) (committed w1)"
  proof (cases r)
    case (Inl e)
    then show ?thesis using run atomicD [OF atomic_reconcile_purchase] by fastforce
  next
    case (Inr u)
    then have "worker_step ba_day cfg (committed w) (committed w1)" using run unfolding worker_step_def by blast
    then show ?thesis by (rule r_into_rtranclp)
  qed
  obtain v where v: "reconcile_each ba_day cfg answers oids w1 = (Inr (), v)"
    "(worker_step ba_day cfg)\<^sup>*\<^sup>* (committed w1) (committed v)"
    using Cons.IH [of w1] by blast
  have "reconcile_each ba_day cfg answers (oid # oids) w = (Inr (), v)"
    using run v(1) by (simp add: seq_def outcome_of_def)
  then show ?case using rtranclp_trans [OF first v(2)] by blast
qed (simp add: ret_def)

lemma branch_tick_runs:
  "\<exists>v. branch_tick ba_day cfg answers w = (Inr (), v) \<and> (worker_step ba_day cfg)\<^sup>*\<^sup>* (committed w) (committed v)"
proof -
  obtain r w1 where run: "pending_branch_operations w = (r, w1)" by (cases "pending_branch_operations w")
  have "no_commit pending_branch_operations" by (simp add: pending_branch_operations_def no_commit_query)
  then have c: "committed w1 = committed w" using run by (rule no_commitD)
  show ?thesis
    using run c reconcile_each_runs [of ba_day cfg answers "projr r" w1]
    by (cases r) (auto simp: branch_tick_def seq_def outcome_of_def ret_def)
qed

text \<open>
  The background loop gets through every tick without an error, whatever the provider
  answers and whichever statement the database fails, and what it leaves in the database is
  the work of whole reconciliations: one that fails has no effect and holds up no other.
\<close>

lemma worker_survives:
  "\<exists>v. run_branch_proration ba_day cfg ticks w = (Inr (), v) \<and> (worker_step ba_day cfg)\<^sup>*\<^sup>* (committed w) (committed v)"
proof -
  have "\<exists>v. branch_ticks ba_day cfg ticks w = (Inr (), v) \<and> (worker_step ba_day cfg)\<^sup>*\<^sup>* (committed w) (committed v)"
  proof (induction ticks arbitrary: w)
    case (Cons answers ticks)
    obtain w1 where w1: "branch_tick ba_day cfg answers w = (Inr (), w1)"
      "(worker_step ba_day cfg)\<^sup>*\<^sup>* (committed w) (committed w1)"
      using branch_tick_runs by blast
    obtain v where "branch_ticks ba_day cfg ticks w1 = (Inr (), v)"
      "(worker_step ba_day cfg)\<^sup>*\<^sup>* (committed w1) (committed v)" using Cons.IH [of w1] by blast
    with w1 show ?case by (auto simp: seq_def intro: rtranclp_trans)
  qed (simp add: ret_def)
  then show ?thesis by (simp add: run_branch_proration_def ret_def)
qed

end
