(* ===== verification/PriceService.thy ===== *)
theory PriceService
  imports SubscriptionService
begin

text \<open>
  The service of the catalogue prices and its worker (\<^verbatim>\<open>internal/service/subscription_prices.go\<close>). The
  worker handles items without a pause while that succeeds: \<open>drain_price_changes\<close> is that loop,
  up to the next pause. The provider may answer each call differently: \<open>answers k\<close> are the
  answers to the \<open>k\<close>-th. A context that is done, and its time limit, are faults of a statement.
\<close>

definition subscription_price_updates_available :: "billing_provider option \<Rightarrow> bool" where
  "subscription_price_updates_available provider \<longleftrightarrow> referral_provider provider \<noteq> None"

definition change_subscription_price_service ::
  "service_config \<Rightarrow> (string \<Rightarrow> int) \<Rightarrow> int \<Rightarrow> string \<Rightarrow> string \<Rightarrow> int \<Rightarrow> int \<Rightarrow> bool \<Rightarrow> ('a billing_db_scheme, price_change_view) tx" where
  "change_subscription_price_service cfg rank admin key program amount version reach =
     seq (require (subscription_unit_price cfg program) (Repo ErrInvalidRequest)) (\<lambda>fallback.
     change_subscription_price rank admin key program amount version fallback reach)"

definition price_update :: "billing_provider \<Rightarrow> string \<Rightarrow> int \<Rightarrow> string \<Rightarrow> ('a billing_db_scheme, unit) tx" where
  "price_update b i amount key =
     seq (call_out (''UpdateSubscriptionAmount'', key, amount) (bp_update b i amount key)) (\<lambda>answer.
     reject_if (case answer of Inl _ \<Rightarrow> True | Inr u \<Rightarrow> ps_id u \<noteq> i \<or> ps_amount u \<noteq> amount) (Svc BillingProviderFailure))"

partial_function (option) drain_price_changes ::
  "(nat \<Rightarrow> billing_provider) \<Rightarrow> nat \<Rightarrow> 'a billing_db_scheme world \<Rightarrow> 'a billing_db_scheme world option" where
  "drain_price_changes answers k w =
     (case apply_next_subscription_price_change (price_update (answers k)) w of (r, w1) \<Rightarrow>
        if r = Inr True then drain_price_changes answers (Suc k) w1 else Some w1)"

fun price_rounds :: "(nat \<Rightarrow> billing_provider) list \<Rightarrow> 'a billing_db_scheme world \<Rightarrow> 'a billing_db_scheme world option" where
  "price_rounds [] w = Some w"
| "price_rounds (answers # later) w =
     (case drain_price_changes answers 0 w of None \<Rightarrow> None | Some w1 \<Rightarrow> price_rounds later w1)"

definition run_subscription_price_changes ::
  "billing_provider option \<Rightarrow> (nat \<Rightarrow> billing_provider) list \<Rightarrow> 'a billing_db_scheme world \<Rightarrow> 'a billing_db_scheme world option" where
  "run_subscription_price_changes provider rounds w =
     (if referral_provider provider = None then Some w else price_rounds rounds w)"

fun subscription_prices_of :: "service_config \<Rightarrow> string list \<Rightarrow> ('a billing_db_scheme, price_view list) tx" where
  "subscription_prices_of cfg [] = ret []"
| "subscription_prices_of cfg (program # programs) =
     seq (subscription_price program (coalesce (subscription_unit_price cfg program) 0)) (\<lambda>price.
     seq (subscription_prices_of cfg programs) (\<lambda>rest. ret (price # rest)))"

definition subscription_prices :: "service_config \<Rightarrow> ('a billing_db_scheme, price_view list) tx" where
  "subscription_prices cfg = subscription_prices_of cfg [''SELLOS'', ''PUNTOS'']"

end
