(* ===== verification/PriceTheorems.thy ===== *)
theory PriceTheorems
  imports PriceService SubscriptionProperties
begin

text \<open>
  The changes of the catalogue prices: every item is handled at most once per retry and the worker
  comes to its pause, a price on file changes only as the provider confirmed it, and a change
  is made under the expected version only.
\<close>

section \<open>How many requests an operation sends\<close>

named_theorems asks_rules "operations with a bounded number of requests"

definition asks :: "nat \<Rightarrow> ('d, 'a) tx \<Rightarrow> bool" where
  "asks n m \<longleftrightarrow> (\<forall>w r w1. m w = (r, w1) \<longrightarrow> length (sent w1) \<le> length (sent w) + n)"

lemma asksD: "asks n m \<Longrightarrow> m w = (r, w1) \<Longrightarrow> length (sent w1) \<le> length (sent w) + n"
  unfolding asks_def by blast

lemma asks_silent: "silent m \<Longrightarrow> asks n m"
  by (auto simp: asks_def silent_def)

lemma asks_reads: "reads_only m \<Longrightarrow> asks n m"
  by (auto simp: asks_def dest: reads_onlyD(2))

lemma asks_seq:
  assumes "asks n m" and "\<And>a. asks k (f a)"
  shows "asks (n + k) (seq m f)"
  unfolding asks_def
proof (intro allI impI)
  fix w r w1
  assume run: "seq m f w = (r, w1)"
  obtain r2 w2 where m: "m w = (r2, w2)" by (cases "m w")
  note b = asksD [OF assms(1) m]
  show "length (sent w1) \<le> length (sent w) + (n + k)"
  proof (cases r2)
    case (Inl e)
    with run m b show ?thesis by (simp add: seq_def)
  next
    case (Inr a)
    with run m have "f a w2 = (r, w1)" by (simp add: seq_def)
    with asksD [OF assms(2) this] b show ?thesis by simp
  qed
qed

lemma asks_call: "asks 1 (call_out c x)"
  by (auto simp: asks_def call_out_def)

lemma asks_leaf [asks_rules]: "asks n (ret a)" "asks n (throw e)" "asks n (query g)" "asks n (exec h)" "asks n commit"
  "asks n (reject_if b e)" "asks n (require x e)"
  by (rule asks_silent, rule call_rules)+

lemma asks_after [asks_rules]: "asks 0 m \<Longrightarrow> (\<And>a. asks n (f a)) \<Longrightarrow> asks n (seq m f)"
  using asks_seq [of 0 m n f] by simp

lemma asks_last: "asks n m \<Longrightarrow> (\<And>a. asks 0 (f a)) \<Longrightarrow> asks n (seq m f)"
  using asks_seq [of n m 0 f] by simp

lemma asks_split [asks_rules]:
  "(b \<Longrightarrow> asks n m) \<Longrightarrow> (\<not> b \<Longrightarrow> asks n k) \<Longrightarrow> asks n (if b then m else k)"
  "(x = None \<Longrightarrow> asks n m) \<Longrightarrow> (\<And>a. x = Some a \<Longrightarrow> asks n (f a)) \<Longrightarrow> asks n (case x of None \<Rightarrow> m | Some a \<Rightarrow> f a)"
  "(\<And>e. y = Inl e \<Longrightarrow> asks n (g e)) \<Longrightarrow> (\<And>a. y = Inr a \<Longrightarrow> asks n (h a)) \<Longrightarrow>
   asks n (case y of Inl e \<Rightarrow> g e | Inr a \<Rightarrow> h a)"
  by (simp_all split: option.splits sum.splits)

lemma asks_outcome: "asks n m \<Longrightarrow> asks n (outcome_of m)"
  by (auto simp: asks_def outcome_of_def split: prod.splits)

lemma asks_pool_exec [asks_rules]: "asks n (pool_exec g)"
  unfolding asks_def pool_exec_def by (auto simp: seq_def tick_def split: list.splits option.splits sum.splits prod.splits)

lemma asks_reading [asks_rules]: "asks n (require_no_pending_branch brand)"
  unfolding require_no_pending_branch_def by (intro asks_reads read_rules)

lemma asks_price_update: "asks 1 (price_update b i amount key)"
  unfolding price_update_def by (intro asks_last [OF asks_call] asks_rules)

lemma asks_finish_item [asks_rules]: "asks n (finish_item i st x)"
  unfolding finish_item_def by (intro asks_rules)

lemma asks_reprice: "asks 1 (reprice (price_update b) i c s)"
  unfolding reprice_def record_new_price_def Let_def
  by (intro asks_rules asks_last [OF asks_outcome [OF asks_price_update]])

lemma asks_handle_item: "asks 1 (handle_item (price_update b) i c)"
  unfolding handle_item_def Let_def
  by (intro asks_rules asks_reprice asks_outcome)

section \<open>A handled item leaves the queue\<close>

definition finished :: "price_item \<Rightarrow> string \<Rightarrow> int option \<Rightarrow> price_item list \<Rightarrow> price_item list" where
  "finished i st x = update_where (\<lambda>y. pi_change y = pi_change i \<and> pi_brand y = pi_brand i)
     (\<lambda>y. y\<lparr>pi_status := st, pi_amount := x\<rparr>)"

text \<open>Handling an item closes it when it says so, and otherwise leaves the items as they were.\<close>

definition closes :: "price_item \<Rightarrow> ('a billing_db_scheme, price_outcome) tx \<Rightarrow> bool" where
  "closes i m \<longleftrightarrow> (\<forall>w r w1 items. price_items (committed w) = items \<longrightarrow> price_items (working w) = items \<longrightarrow>
     m w = (r, w1) \<longrightarrow> (if r = Inr Handled then \<exists>st x. st \<noteq> ''PENDING'' \<and> price_items (committed w1) = finished i st x items
       else price_items (committed w1) = items))"

named_theorems close_rules "steps of the handling of an item"

lemma closesD:
  "closes i m \<Longrightarrow> price_items (committed w) = items \<Longrightarrow> price_items (working w) = items \<Longrightarrow> m w = (r, w1) \<Longrightarrow>
   if r = Inr Handled then \<exists>st x. st \<noteq> ''PENDING'' \<and> price_items (committed w1) = finished i st x items
   else price_items (committed w1) = items"
  unfolding closes_def by blast

lemma closesI:
  assumes "\<And>w r w1 items. price_items (committed w) = items \<Longrightarrow> price_items (working w) = items \<Longrightarrow> m w = (r, w1) \<Longrightarrow>
    if r = Inr Handled then \<exists>st x. st \<noteq> ''PENDING'' \<and> price_items (committed w1) = finished i st x items
    else price_items (committed w1) = items"
  shows "closes i m"
  unfolding closes_def using assms by blast

lemma closes_seq [close_rules]:
  assumes "frames price_items m" and "\<And>a. closes i (f a)"
  shows "closes i (seq m f)"
proof (rule closesI)
  fix w r w1 items
  assume v: "price_items (committed w) = items" "price_items (working w) = items" and run: "seq m f w = (r, w1)"
  obtain r2 w2 where m: "m w = (r2, w2)" by (cases "m w")
  note c = framesD [OF assms(1) v m]
  show "if r = Inr Handled then \<exists>st x. st \<noteq> ''PENDING'' \<and> price_items (committed w1) = finished i st x items
      else price_items (committed w1) = items"
  proof (cases r2)
    case (Inl e)
    with run m have "r = Inl e" "w1 = w2" by (simp_all add: seq_def)
    with c show ?thesis by simp
  next
    case (Inr a)
    with run m have "f a w2 = (r, w1)" by (simp add: seq_def)
    from closesD [OF assms(2) c this] show ?thesis .
  qed
qed

lemma closes_leaf [close_rules]: "closes i (throw e)" "a \<noteq> Handled \<Longrightarrow> closes i (ret a)"
  by (rule closesI, force simp: throw_def ret_def)+

lemma closes_split [close_rules]:
  "(b \<Longrightarrow> closes i m) \<Longrightarrow> (\<not> b \<Longrightarrow> closes i k) \<Longrightarrow> closes i (if b then m else k)"
  "(x = None \<Longrightarrow> closes i m) \<Longrightarrow> (\<And>a. x = Some a \<Longrightarrow> closes i (f a)) \<Longrightarrow> closes i (case x of None \<Rightarrow> m | Some a \<Rightarrow> f a)"
  "(\<And>e. y = Inl e \<Longrightarrow> closes i (g e)) \<Longrightarrow> (\<And>a. y = Inr a \<Longrightarrow> closes i (h a)) \<Longrightarrow>
   closes i (case y of Inl e \<Rightarrow> g e | Inr a \<Rightarrow> h a)"
  by (simp_all split: option.splits sum.splits)

lemma finish_item_Inr:
  assumes "finish_item i st x w = (Inr a, w1)"
  shows "a = Handled"
    "committed w1 = (working w)\<lparr>price_items := finished i st x (price_items (working w))\<rparr>" "sent w1 = sent w"
  using assms unfolding finish_item_def seq_Inr ret_Inr exec_Inr commit_Inr Let_def finished_def by auto

lemma atomic_finish_item: "atomic (finish_item i st x)"
  unfolding finish_item_def by (intro atomic_rules no_commit_rules)

lemma closes_finish_item:
  assumes "st \<noteq> ''PENDING''"
  shows "closes i (finish_item i st x)"
proof (rule closesI)
  fix w r w1 items
  assume v: "price_items (committed w) = items" "price_items (working w) = items" and run: "finish_item i st x w = (r, w1)"
  show "if r = Inr Handled then \<exists>st x. st \<noteq> ''PENDING'' \<and> price_items (committed w1) = finished i st x items
      else price_items (committed w1) = items"
  proof (cases r)
    case (Inl e)
    with atomicD [OF atomic_finish_item] run v show ?thesis by fastforce
  next
    case (Inr a)
    note t = finish_item_Inr(1,2) [OF run [unfolded Inr]]
    have "price_items (committed w1) = finished i st x items" unfolding t(2) v by simp
    with assms Inr t(1) show ?thesis by auto
  qed
qed

lemma frames_price_update: "frames V (price_update b i amount key)"
  unfolding price_update_def
  by (intro frame_rules frames_offline [OF offline_call_out])

lemma closes_record: "closes i (record_new_price i c s unit monthly)"
  unfolding record_new_price_def
  by (rule closes_seq, rule frame_rules, rule closes_seq, rule frame_rules, simp add: Let_def, rule closes_seq,
      rule frame_rules, simp add: Let_def, rule closes_finish_item, simp)

lemma closes_reprice: "closes i (reprice (price_update b) i c s)"
  unfolding reprice_def Let_def
  apply (rule closes_seq, rule frame_rules)
  apply (rule closes_seq, rule frame_rules)
  apply (rule closes_split(1), rule closes_finish_item, simp)
  apply (rule closes_split(1), rule closes_finish_item, simp)
  apply (rule closes_seq, rule frames_outcome, rule frames_price_update)
  by (rule closes_split(3), rule closes_leaf, simp, rule closes_record)

lemma closes_handle_item: "closes i (handle_item (price_update b) i c)"
  unfolding handle_item_def
  apply (rule closes_seq, rule frame_rules)
  apply (rule closes_seq, rule frame_rules)
  apply (rule closes_split(1), rule closes_finish_item, simp)
  apply (rule closes_seq, rule frame_rules)
  apply (rule closes_seq, rule frame_rules)
  apply (rule closes_seq, rule frame_rules)
  apply (rule closes_split(2), rule closes_finish_item, simp)
  apply (rule closes_seq, rule frames_outcome, rule frames_require_pending)
  apply (rule closes_split(3), rule closes_split(1), rule closes_leaf, simp, rule closes_leaf)
  by (rule closes_split(1), rule closes_finish_item, simp, rule closes_reprice)

section \<open>The worker comes to its pause\<close>

definition pending :: "'a billing_db_scheme \<Rightarrow> nat" where
  "pending d = length (filter (\<lambda>i. pi_status i = ''PENDING'') (price_items d))"

lemma next_price_item_Some:
  assumes "next_price_item d = Some (i, c)"
  shows "i \<in> set (price_items d)" "pi_status i = ''PENDING''" "c \<in> set (price_changes d)" "pc_id c = pi_change i"
    "\<not> list_ex (\<lambda>x. bo_marca x = pi_brand i \<and> active_operation x) (branch_operations d)"
  using first_row_SomeD [OF assms [unfolded next_price_item_def]] by auto

lemma pending_finished:
  assumes "st \<noteq> ''PENDING''" "i \<in> set items" "pi_status i = ''PENDING''"
  shows "length (filter (\<lambda>i. pi_status i = ''PENDING'') (finished i st x items))
    < length (filter (\<lambda>i. pi_status i = ''PENDING'') items)"
  using assms(2)
proof (induction items)
  case (Cons y items)
  have le: "length (filter (\<lambda>i. pi_status i = ''PENDING'') (finished i st x items))
      \<le> length (filter (\<lambda>i. pi_status i = ''PENDING'') items)"
    using assms(1) by (induction items) (auto simp: finished_def)
  show ?case
  proof (cases "y = i")
    case True
    with assms(1,3) le show ?thesis by (simp add: finished_def less_Suc_eq_le)
  next
    case False
    with Cons have "length (filter (\<lambda>i. pi_status i = ''PENDING'') (finished i st x items))
        < length (filter (\<lambda>i. pi_status i = ''PENDING'') items)" by simp
    with assms(1) show ?thesis by (auto simp: finished_def)
  qed
qed simp

lemma seq_query_run:
  assumes "seq (query g) f w = (r, w1)"
  obtains (stopped) e where "r = Inl e" "committed w1 = committed w" "working w1 = working w" "sent w1 = sent w"
    | (goes_on) "f (g (ticked w)) (ticked w) = (r, w1)"
proof (cases "ok_next w")
  case True
  with assms goes_on show thesis by (simp add: seq_def query_def tick_ok ret_def)
next
  case False
  then obtain e where "tick w = (Inl e, ticked w)" by (cases "tick w"; cases "fst (tick w)") (auto simp: tick_Inr dest: tick_Inl)
  with assms have "r = Inl e" "w1 = ticked w" by (auto simp: seq_def query_def)
  with stopped show thesis by simp
qed

lemma price_item_tx_run:
  assumes run: "price_item_tx (price_update b) w = (r, w1)"
  shows "if r = Inr Handled then pending (committed w1) < pending (committed w)
      else price_items (committed w1) = price_items (committed w)"
    and "length (sent w1) \<le> length (sent w) + 1"
proof -
  let ?after = "\<lambda>(i, c). handle_item (price_update b) i c"
  let ?body = "\<lambda>row. case row of None \<Rightarrow> ret Idle | Some p \<Rightarrow> ?after p"
  have h: "asks 1 (?body row)" for row
    by (cases row) (auto simp: asks_handle_item [unfolded One_nat_def] asks_leaf split: prod.splits)
  have a: "asks 1 (seq (query (\<lambda>w. next_price_item (working w))) ?body)"
    by (rule asks_after [OF asks_leaf(3)]) (rule h)
  have "(if r = Inr Handled then pending (committed w1) < pending (committed w)
      else price_items (committed w1) = price_items (committed w)) \<and> length (sent w1) \<le> length (sent w) + 1"
    using run unfolding price_item_tx_def
  proof (cases rule: in_tx_run)
    case (stopped e)
    then show ?thesis by simp
  next
    case (body w2)
    from asksD [OF a body(1)] body(2) have s: "length (sent w1) \<le> length (sent w) + 1" by simp
    from body(1) show ?thesis
    proof (cases rule: seq_query_run)
      case (stopped e)
      with body(3) s show ?thesis by simp
    next
      case goes_on
      show ?thesis
      proof (cases "next_price_item (committed w)")
        case None
        with goes_on body(3) s show ?thesis by (auto simp: ret_def)
      next
        case (Some p)
        obtain i c where p: "p = (i, c)" by (cases p)
        let ?w = "ticked ((ticked w)\<lparr>working := committed w\<rparr>)"
        from goes_on Some p have h: "handle_item (price_update b) i c ?w = (r, w2)" by simp
        note i = next_price_item_Some(1,2) [OF Some [unfolded p]]
        from closesD [OF closes_handle_item _ _ h, of "price_items (committed w)"] pending_finished [OF _ i] body(3) s
        show ?thesis by (auto simp: pending_def split: if_splits)
      qed
    qed
  qed
  then show "if r = Inr Handled then pending (committed w1) < pending (committed w)
      else price_items (committed w1) = price_items (committed w)" "length (sent w1) \<le> length (sent w) + 1" by simp_all
qed

lemma mark_failed_pending:
  assumes "mark_failed i w = (r, w1)"
  shows "pending (committed w1) \<le> pending (committed w)"
proof -
  have "length (filter (\<lambda>i. pi_status i = ''PENDING'') (update_where p (\<lambda>x. x\<lparr>pi_status := ''FAILED''\<rparr>) items))
      \<le> length (filter (\<lambda>i. pi_status i = ''PENDING'') items)" for p items
    by (induction items) auto
  then have "keeps (\<lambda>d. pending d \<le> pending (committed w)) (mark_failed i)"
    unfolding mark_failed_def Let_def pending_def
    by (intro keeps_atomic [OF atomic_pool_exec]) (auto simp: pool_exec_Inr intro: order_trans)
  then show ?thesis using assms keepsD [of _ "mark_failed i" w] by blast
qed

text \<open>Requests already sent and items still pending: a potential that only a failure raises, by one.\<close>

lemma apply_next_run:
  assumes "apply_next_subscription_price_change (price_update b) w = (r, w1)"
  shows "pending (committed w1) \<le> pending (committed w)"
    and "r = Inr True \<Longrightarrow> pending (committed w1) < pending (committed w)"
    and "length (sent w1) \<le> length (sent w) + 1"
proof -
  obtain r2 w2 where t: "price_item_tx (price_update b) w = (r2, w2)" by (cases "price_item_tx (price_update b) w")
  note p = price_item_tx_run [OF t]
  have le: "pending (committed w2) \<le> pending (committed w)" using p(1) by (auto simp: pending_def split: if_splits)
  have "pending (committed w1) \<le> pending (committed w) \<and> (r = Inr True \<longrightarrow> pending (committed w1) < pending (committed w))
    \<and> length (sent w1) \<le> length (sent w) + 1"
  proof (cases "\<exists>i e. r2 = Inr (Refused i e)")
    case True
    then obtain i e where r2: "r2 = Inr (Refused i e)" by blast
    obtain r3 w3 where m: "mark_failed i w2 = (r3, w3)" by (cases "mark_failed i w2")
    have s: "sent w3 = sent w2"
      using m unfolding mark_failed_def pool_exec_def
      by (auto simp: seq_def tick_def split: list.splits option.splits sum.splits prod.splits)
    have "w1 = w3" "r \<noteq> Inr True" using assms t r2 m
      by (auto simp: apply_next_subscription_price_change_def seq_def throw_def split: sum.splits)
    with mark_failed_pending [OF m] le s p(2) show ?thesis by simp
  next
    case False
    then have "w1 = w2" "r = Inr True \<longrightarrow> r2 = Inr Handled" using assms t
      by (auto simp: apply_next_subscription_price_change_def seq_def ret_def split: sum.splits price_outcome.splits)
    with p le show ?thesis by auto
  qed
  then show "pending (committed w1) \<le> pending (committed w)" "r = Inr True \<Longrightarrow> pending (committed w1) < pending (committed w)"
    "length (sent w1) \<le> length (sent w) + 1" by blast+
qed

lemma drain_comes_to_pause:
  "\<exists>w1. drain_price_changes answers k w = Some w1 \<and> pending (committed w1) \<le> pending (committed w)
     \<and> length (sent w1) + pending (committed w1) \<le> length (sent w) + pending (committed w) + 1"
proof (induction "pending (committed w)" arbitrary: k w rule: less_induct)
  case less
  obtain r w1 where a: "apply_next_subscription_price_change (price_update (answers k)) w = (r, w1)"
    by (cases "apply_next_subscription_price_change (price_update (answers k)) w")
  note n = apply_next_run [OF a]
  show ?case
  proof (cases "r = Inr True")
    case True
    from less [OF n(2) [OF True], of "Suc k"] n(2) [OF True] n(3) True a show ?thesis
      by (subst drain_price_changes.simps) (fastforce)
  next
    case False
    with n a show ?thesis by (subst drain_price_changes.simps) simp
  qed
qed

lemma rounds_end:
  "\<exists>w1. price_rounds rounds w = Some w1 \<and> pending (committed w1) \<le> pending (committed w)
     \<and> length (sent w1) + pending (committed w1) \<le> length (sent w) + pending (committed w) + length rounds"
proof (induction rounds arbitrary: w)
  case (Cons answers rounds)
  from drain_comes_to_pause [of answers 0 w] obtain w2 where w2: "drain_price_changes answers 0 w = Some w2"
      "pending (committed w2) \<le> pending (committed w)"
      "length (sent w2) + pending (committed w2) \<le> length (sent w) + pending (committed w) + 1" by blast
  from Cons [of w2] w2 show ?case by fastforce
qed simp

section \<open>A price changes as the provider confirmed it\<close>

text \<open>The provider answered the request for an amount with that subscription at that amount.\<close>

definition confirms_amount :: "billing_provider \<Rightarrow> string \<Rightarrow> int \<Rightarrow> string \<Rightarrow> bool" where
  "confirms_amount b i amount key \<longleftrightarrow>
     (case bp_update b i amount key of Inl _ \<Rightarrow> False | Inr u \<Rightarrow> ps_id u = i \<and> ps_amount u = amount)"

definition repriced_db :: "price_item \<Rightarrow> price_change \<Rightarrow> suscripcion \<Rightarrow> int \<Rightarrow> int \<Rightarrow> 'a billing_db_scheme \<Rightarrow> 'a billing_db_scheme \<Rightarrow> bool" where
  "repriced_db i c s unit t d d1 \<longleftrightarrow>
     suscripciones d1 = update_where (\<lambda>x. sb_marca x = pi_brand i)
       (repriced unit (pc_unit c) (mul64 unit (sb_cantidad s)) (pc_program c) t) (suscripciones d)
     \<and> price_histories d1 = price_histories d @ [replaced_price i s t]"

lemma price_update_Inr:
  assumes "price_update b i amount key w = (Inr u, w1)"
  shows "confirms_amount b i amount key" "w1 = w\<lparr>sent := sent w @ [(''UpdateSubscriptionAmount'', key, amount)]\<rparr>"
  using assms unfolding price_update_def seq_Inr call_out_Inr reject_if_Inr confirms_amount_def by (auto split: sum.splits)

lemma record_new_price_Inr:
  assumes "record_new_price i c s unit monthly w = (Inr a, w1)" and "monthly = mul64 unit (sb_cantidad s)"
  shows "repriced_db i c s unit (db_now w) (working w) (committed w1)" "sent w1 = sent w"
proof -
  from assms(1) obtain w2 where t: "finish_item i ''APPLIED'' (Some monthly) w2 = (Inr a, w1)" "sent w2 = sent w"
      "working w2 = (working w)\<lparr>price_histories := price_histories (working w) @ [replaced_price i s (db_now w)],
         suscripciones := update_where (\<lambda>x. sb_marca x = pi_brand i)
           (repriced unit (pc_unit c) monthly (pc_program c) (db_now w)) (suscripciones (working w))\<rparr>"
    unfolding record_new_price_def seq_Inr exec_Inr query_Inr Let_def by fastforce
  from t(3) show "repriced_db i c s unit (db_now w) (working w) (committed w1)"
    unfolding finish_item_Inr(2) [OF t(1)] repriced_db_def assms(2) by auto
  from finish_item_Inr(3) [OF t(1)] t(2) show "sent w1 = sent w" by simp
qed

definition unchanged_rows :: "'a billing_db_scheme \<Rightarrow> 'a billing_db_scheme \<Rightarrow> bool" where
  "unchanged_rows d d1 \<longleftrightarrow> suscripciones d1 = suscripciones d \<and> price_histories d1 = price_histories d"

lemma finish_item_unchanged: "finish_item i st x w = (Inr a, w1) \<Longrightarrow> unchanged_rows (working w) (committed w1)"
  by (simp add: unchanged_rows_def finish_item_Inr(2))

lemma reprice_Inr:
  assumes run: "reprice (price_update b) i c s w = (Inr Handled, w1)"
  obtains (kept) "unchanged_rows (working w) (committed w1)"
    | (moved) unit key where "unit = discounted_unit (find_attribution (pi_brand i) (working w))
          (paid_count (pi_brand i) (working w)) (pc_unit c)"
        "key = price_key i (paid_count (pi_brand i) (working w))" "1 \<le> unit" "1 \<le> sb_cantidad s"
        "pc_unit c \<le> quo64 max_subscription_amount (sb_cantidad s)"
        "confirms_amount b (pi_provider i) (mul64 unit (sb_cantidad s)) key"
        "sent w1 = sent w @ [(''UpdateSubscriptionAmount'', key, mul64 unit (sb_cantidad s))]"
        "repriced_db i c s unit (db_now w) (working w) (committed w1)"
proof -
  let ?d = "working w"
  define paid where "paid = paid_count (pi_brand i) ?d"
  define unit where "unit = discounted_unit (find_attribution (pi_brand i) ?d) paid (pc_unit c)"
  define bad where "bad \<longleftrightarrow> sb_cantidad s < 1 \<or> quo64 max_subscription_amount (sb_cantidad s) < pc_unit c \<or> unit < 1"
  define same where "same \<longleftrightarrow> sb_precio s = unit \<and> coalesce (sb_full s) (sb_precio s) = pc_unit c"
  define monthly where "monthly = mul64 unit (sb_cantidad s)"
  define w2 where "w2 = ticked (ticked w)"
  have w2: "sent w2 = sent w" "working w2 = ?d" "db_now w2 = db_now w" by (simp_all add: w2_def)
  have step: "(if bad then finish_item i ''FAILED'' None else if same then finish_item i ''APPLIED'' (Some monthly)
       else seq (outcome_of (price_update b (pi_provider i) monthly (price_key i paid))) (\<lambda>answer.
         case answer of Inl e \<Rightarrow> ret (Refused i e) | Inr _ \<Rightarrow> record_new_price i c s unit monthly)) w2 = (Inr Handled, w1)"
    using run unfolding reprice_def seq_query_Inr ticked_sel Let_def w2_def bad_def same_def monthly_def unit_def paid_def
    by blast
  show thesis
  proof (cases "bad \<or> same")
    case True
    with step w2(2) have "unchanged_rows ?d (committed w1)" by (auto dest: finish_item_unchanged split: if_splits)
    then show thesis by (rule kept)
  next
    case False
    with step obtain r3 w3 where u: "price_update b (pi_provider i) monthly (price_key i paid) w2 = (r3, w3)"
      and rest: "(case r3 of Inl e \<Rightarrow> ret (Refused i e) | Inr _ \<Rightarrow> record_new_price i c s unit monthly) w3 = (Inr Handled, w1)"
      by (auto simp: seq_Inr outcome_of_Inr)
    from rest have "\<exists>x. r3 = Inr x" by (cases r3) (auto simp: ret_Inr)
    then obtain x where r3: "r3 = Inr x" by blast
    note c = price_update_Inr [OF u [unfolded r3]]
    from rest r3 have rec: "record_new_price i c s unit monthly w3 = (Inr Handled, w1)" by simp
    from c(2) w2(2,3) have w3: "working w3 = ?d" "db_now w3 = db_now w" by simp_all
    from record_new_price_Inr(1) [OF rec monthly_def] have t: "repriced_db i c s unit (db_now w) ?d (committed w1)"
      unfolding w3 .
    show thesis
      by (rule moved [OF unit_def [unfolded paid_def] refl])
        (use False c(1) t record_new_price_Inr(2) [OF rec monthly_def] c(2) w2(1) in
          \<open>simp_all add: bad_def monthly_def paid_def\<close>)
  qed
qed

definition brand_active :: "'a core_db_scheme \<Rightarrow> int \<Rightarrow> bool option" where
  "brand_active d brand = map_option (\<lambda>m. m_activo m \<and> m_deleted_at m = None) (List.find (\<lambda>m. m_id m = brand) (marcas d))"

text \<open>The handling of an item whose price is still the current one, from the state of its brand on.\<close>

definition handle_current :: "billing_provider \<Rightarrow> price_item \<Rightarrow> price_change \<Rightarrow> bool \<Rightarrow> suscripcion option \<Rightarrow>
   ('a billing_db_scheme, price_outcome) tx" where
  "handle_current b i c active row = (case row of
     None \<Rightarrow> finish_item i ''SKIPPED'' None
   | Some s \<Rightarrow> seq (outcome_of (require_no_pending_branch (pi_brand i))) (\<lambda>pending. case pending of
       Inl e \<Rightarrow> if e = Repo ErrIdempotencyInProgress then ret Idle else throw e
     | Inr _ \<Rightarrow> if \<not> item_matches i active s then finish_item i ''SKIPPED'' None
         else reprice (price_update b) i c s))"

lemma handle_current_Inr:
  assumes run: "handle_current b i c active row w = (Inr Handled, w1)"
  obtains (kept) "unchanged_rows (working w) (committed w1)"
    | (moved) s w2 where "row = Some s" "item_matches i active s" "working w2 = working w" "sent w2 = sent w" "db_now w2 = db_now w"
        "reprice (price_update b) i c s w2 = (Inr Handled, w1)"
proof (cases row)
  case None
  with run have "unchanged_rows (working w) (committed w1)" by (auto simp: handle_current_def dest: finish_item_unchanged)
  then show thesis by (rule kept)
next
  case (Some s)
  with run obtain r3 w3 where r3: "require_no_pending_branch (pi_brand i) w = (r3, w3)"
    and rest: "(case r3 of Inl e \<Rightarrow> if e = Repo ErrIdempotencyInProgress then ret Idle else throw e
       | Inr _ \<Rightarrow> if \<not> item_matches i active s then finish_item i ''SKIPPED'' None
           else reprice (price_update b) i c s) w3 = (Inr Handled, w1)"
    by (auto simp: handle_current_def seq_Inr outcome_of_Inr)
  from rest obtain u where u: "r3 = Inr u" by (cases r3) (auto simp: ret_Inr throw_Inr split: if_splits)
  from r3 u have w3: "working w3 = working w" "sent w3 = sent w" "db_now w3 = db_now w" by (auto simp: require_no_pending_branch_Inr)
  show thesis
  proof (cases "item_matches i active s")
    case True
    with rest u have "reprice (price_update b) i c s w3 = (Inr Handled, w1)" by simp
    then show thesis by (rule moved [OF Some True w3])
  next
    case False
    with rest u w3(1) have "unchanged_rows (working w) (committed w1)" by (auto dest: finish_item_unchanged)
    then show thesis by (rule kept)
  qed
qed

lemma handle_item_Inr:
  assumes run: "handle_item (price_update b) i c w = (Inr Handled, w1)"
  obtains (kept) "unchanged_rows (working w) (committed w1)"
    | (moved) s active w2 where "find_suscripcion (pi_brand i) (working w) = Some s" "item_matches i active s"
        "brand_active (working w) (pi_brand i) = Some active"
        "map_option pr_version (find_price (pc_program c) (working w)) = Some (pc_version c)"
        "working w2 = working w" "sent w2 = sent w" "db_now w2 = db_now w" "reprice (price_update b) i c s w2 = (Inr Handled, w1)"
proof -
  let ?d = "working w"
  from run obtain version where v: "map_option pr_version (find_price (pc_program c) ?d) = Some version"
    and one: "(if version \<noteq> pc_version c then finish_item i ''SKIPPED'' None
       else seq (query (\<lambda>w. brand_active (working w) (pi_brand i))) (\<lambda>arow.
         seq (require arow (GoError ''no rows in result set'')) (\<lambda>active.
         seq (query (\<lambda>w. find_suscripcion (pi_brand i) (working w))) (handle_current b i c active)))) (ticked w)
       = (Inr Handled, w1)"
    unfolding handle_item_def seq_query_Inr seq_require_Inr ticked_sel brand_active_def handle_current_def by blast
  show thesis
  proof (cases "version = pc_version c")
    case False
    with one have "unchanged_rows ?d (committed w1)" by (auto dest: finish_item_unchanged)
    then show thesis by (rule kept)
  next
    case True
    with one have "seq (query (\<lambda>w. brand_active (working w) (pi_brand i))) (\<lambda>arow.
         seq (require arow (GoError ''no rows in result set'')) (\<lambda>active.
         seq (query (\<lambda>w. find_suscripcion (pi_brand i) (working w))) (handle_current b i c active))) (ticked w)
       = (Inr Handled, w1)" by simp
    then obtain active where act: "brand_active ?d (pi_brand i) = Some active"
      and two: "handle_current b i c active (find_suscripcion (pi_brand i) ?d) (ticked (ticked (ticked w))) = (Inr Handled, w1)"
      unfolding seq_query_Inr seq_require_Inr ticked_sel by blast
    from two show thesis
    proof (cases rule: handle_current_Inr)
      case kept
      then show thesis by (intro that(1)) simp
    next
      case (moved s w2)
      with v True show thesis by (intro that(2) [OF moved(1,2) act]) simp_all
    qed
  qed
qed

text \<open>Without a handled item the database is as it was.\<close>

definition hushed :: "('a billing_db_scheme, price_outcome) tx \<Rightarrow> bool" where
  "hushed m \<longleftrightarrow> (\<forall>w r w1. m w = (r, w1) \<longrightarrow> r \<noteq> Inr Handled \<longrightarrow> committed w1 = committed w)"

lemma hushedI: "(\<And>w r w1. m w = (r, w1) \<Longrightarrow> r \<noteq> Inr Handled \<Longrightarrow> committed w1 = committed w) \<Longrightarrow> hushed m"
  unfolding hushed_def by blast

lemma hushedD: "hushed m \<Longrightarrow> m w = (r, w1) \<Longrightarrow> r \<noteq> Inr Handled \<Longrightarrow> committed w1 = committed w"
  unfolding hushed_def by blast

lemma hushed_no_commit: "no_commit m \<Longrightarrow> hushed m"
  by (rule hushedI) (rule no_commitD)

lemma hushed_seq:
  assumes "no_commit m" and "\<And>a. hushed (f a)"
  shows "hushed (seq m f)"
proof (rule hushedI)
  fix w r w1
  assume run: "seq m f w = (r, w1)" and r: "r \<noteq> Inr Handled"
  obtain r2 w2 where m: "m w = (r2, w2)" by (cases "m w")
  note c = no_commitD [OF assms(1) m]
  show "committed w1 = committed w"
  proof (cases r2)
    case (Inl e)
    with run m c show ?thesis by (simp add: seq_def)
  next
    case (Inr a)
    with run m have "f a w2 = (r, w1)" by (simp add: seq_def)
    from hushedD [OF assms(2) this r] c show ?thesis by simp
  qed
qed

lemma hushed_split:
  "(b \<Longrightarrow> hushed m) \<Longrightarrow> (\<not> b \<Longrightarrow> hushed k) \<Longrightarrow> hushed (if b then m else k)"
  "(x = None \<Longrightarrow> hushed m) \<Longrightarrow> (\<And>a. x = Some a \<Longrightarrow> hushed (f a)) \<Longrightarrow> hushed (case x of None \<Rightarrow> m | Some a \<Rightarrow> f a)"
  "(\<And>e. y = Inl e \<Longrightarrow> hushed (g e)) \<Longrightarrow> (\<And>a. y = Inr a \<Longrightarrow> hushed (h a)) \<Longrightarrow>
   hushed (case y of Inl e \<Rightarrow> g e | Inr a \<Rightarrow> h a)"
  by (simp_all split: option.splits sum.splits)

lemma hushed_finish_item: "hushed (finish_item i st x)"
proof (rule hushedI)
  fix w r w1
  assume run: "finish_item i st x w = (r, w1)" and r: "r \<noteq> Inr Handled"
  show "committed w1 = committed w"
  proof (cases r)
    case (Inl e)
    with atomicD [OF atomic_finish_item] run show ?thesis by blast
  next
    case (Inr a)
    with finish_item_Inr(1) run r show ?thesis by blast
  qed
qed

lemma no_commit_price_update [no_commit_rules]: "no_commit (price_update b i amount key)"
  unfolding price_update_def by (intro no_commit_rules)

lemma hushed_reprice: "hushed (reprice (price_update b) i c s)"
  unfolding reprice_def record_new_price_def Let_def
  by (intro hushed_seq hushed_split hushed_finish_item hushed_no_commit no_commit_rules)

lemma hushed_handle_item: "hushed (handle_item (price_update b) i c)"
  unfolding handle_item_def
  by (intro hushed_seq hushed_split hushed_finish_item hushed_reprice)
    (intro hushed_no_commit no_commit_rules)+

lemma price_item_tx_Inr:
  assumes run: "price_item_tx (price_update b) w = (r, w1)"
  obtains (none) "r \<noteq> Inr Handled" "committed w1 = committed w"
    | (handled) i c w2 w3 where "r = Inr Handled" "next_price_item (committed w) = Some (i, c)" "working w2 = committed w"
        "sent w2 = sent w" "db_now w2 = db_now w" "handle_item (price_update b) i c w2 = (Inr Handled, w3)" "committed w1 = committed w3" "sent w1 = sent w3"
proof (cases "r = Inr Handled")
  case False
  have "hushed (seq (query (\<lambda>w. next_price_item (working w)))
      (\<lambda>row. case row of None \<Rightarrow> ret Idle | Some (i, c) \<Rightarrow> handle_item (price_update b) i c))"
    by (intro hushed_seq no_commit_rules hushed_split)
      (auto intro: hushed_no_commit no_commit_rules hushed_handle_item split: prod.split)
  with run False have "committed w1 = committed w" unfolding price_item_tx_def
    by (cases rule: in_tx_run [OF run [unfolded price_item_tx_def]]) (auto dest: hushedD)
  with False show thesis by (rule none)
next
  case True
  from run [unfolded price_item_tx_def True] obtain w3 where ok: "ok_next w"
    and body: "(case next_price_item (committed w) of None \<Rightarrow> ret Idle
        | Some (i, c) \<Rightarrow> handle_item (price_update b) i c) (ticked ((ticked w)\<lparr>working := committed w\<rparr>)) = (Inr Handled, w3)"
    and w1: "w1 = w3\<lparr>working := committed w3\<rparr>"
    unfolding in_tx_Inr seq_query_Inr by auto
  from body obtain i c where n: "next_price_item (committed w) = Some (i, c)"
    by (cases "next_price_item (committed w)") (auto simp: ret_Inr)
  with body have "handle_item (price_update b) i c (ticked ((ticked w)\<lparr>working := committed w\<rparr>)) = (Inr Handled, w3)" by simp
  from handled [OF True n _ _ _ this] w1 show thesis by simp
qed

lemma apply_next_rows:
  assumes run: "apply_next_subscription_price_change (price_update b) w = (r, w1)"
  obtains (failed) "unchanged_rows (committed w) (committed w1)"
    | (handled) w2 where "r = Inr True" "price_item_tx (price_update b) w = (Inr Handled, w2)" "w1 = w2"
proof -
  obtain r2 w2 where t: "price_item_tx (price_update b) w = (r2, w2)" by (cases "price_item_tx (price_update b) w")
  show thesis
  proof (cases "r2 = Inr Handled")
    case True
    with run t have "r = Inr True" "w1 = w2" by (auto simp: apply_next_subscription_price_change_def seq_def ret_def)
    with t True show thesis by (intro handled) simp_all
  next
    case False
    from t False have c2: "committed w2 = committed w" by (cases rule: price_item_tx_Inr) auto
    have k: "keeps (\<lambda>d. (suscripciones d, price_histories d) = v) (mark_failed i)" for v i
      unfolding mark_failed_def Let_def by (rule keeps_pool_exec) auto
    have "unchanged_rows (committed w2) (committed w1)"
    proof (cases "\<exists>i e. r2 = Inr (Refused i e)")
      case True
      then obtain i e where r2: "r2 = Inr (Refused i e)" by blast
      obtain r3 w3 where m: "mark_failed i w2 = (r3, w3)" by (cases "mark_failed i w2")
      have "w1 = w3" using run t r2 m
        by (auto simp: apply_next_subscription_price_change_def seq_def throw_def split: sum.splits)
      with keepsD [OF k refl m] show ?thesis by (simp add: unchanged_rows_def)
    next
      case no: False
      with run t False have "w1 = w2"
        by (auto simp: apply_next_subscription_price_change_def seq_def ret_def split: sum.splits price_outcome.splits)
      then show ?thesis by (simp add: unchanged_rows_def)
    qed
    with c2 show thesis by (intro failed) simp
  qed
qed

section \<open>A change is made under the expected version\<close>

definition price_set :: "string \<Rightarrow> int \<Rightarrow> int \<Rightarrow> int \<Rightarrow> price_row list \<Rightarrow> price_row list" where
  "price_set program amount admin t rows = (if list_ex (\<lambda>p. pr_program p = program) rows
     then update_where (\<lambda>p. pr_program p = program)
       (\<lambda>p. p\<lparr>pr_unit := amount, pr_version := pr_version p + 1, pr_updated_by := admin, pr_updated := t\<rparr>) rows
     else rows @ [\<lparr>pr_program = program, pr_unit = amount, pr_version = 1, pr_updated_by = admin, pr_updated = t\<rparr>])"

lemma find_price_None: "find_price program d = None \<longleftrightarrow> \<not> list_ex (\<lambda>p. pr_program p = program) (prices d)"
  by (auto simp: find_price_def find_None_iff list_ex_iff)

lemma find_price_set:
  "List.find (\<lambda>p. pr_program p = other) (price_set program amount admin t rows) =
     (if other = program then Some (case List.find (\<lambda>p. pr_program p = program) rows of
        None \<Rightarrow> \<lparr>pr_program = program, pr_unit = amount, pr_version = 1, pr_updated_by = admin, pr_updated = t\<rparr>
      | Some p \<Rightarrow> p\<lparr>pr_unit := amount, pr_version := pr_version p + 1, pr_updated_by := admin, pr_updated := t\<rparr>)
      else List.find (\<lambda>p. pr_program p = other) rows)"
proof (cases "list_ex (\<lambda>p. pr_program p = program) rows")
  case True
  have "List.find (\<lambda>p. pr_program p = other) (update_where (\<lambda>p. pr_program p = program)
      (\<lambda>p. p\<lparr>pr_unit := amount, pr_version := pr_version p + 1, pr_updated_by := admin, pr_updated := t\<rparr>) rows) =
    (if other = program then map_option (\<lambda>p. p\<lparr>pr_unit := amount, pr_version := pr_version p + 1, pr_updated_by := admin,
       pr_updated := t\<rparr>) (List.find (\<lambda>p. pr_program p = program) rows) else List.find (\<lambda>p. pr_program p = other) rows)"
    by (induction rows) auto
  moreover have "List.find (\<lambda>p. pr_program p = program) rows \<noteq> None"
    using True by (auto simp: find_None_iff list_ex_iff)
  ultimately show ?thesis using True by (auto simp: price_set_def)
next
  case False
  then show ?thesis by (induction rows) (auto simp: price_set_def)
qed

lemma set_price_Inr:
  assumes "set_price program amount admin w = (Inr u, w1)"
  shows "working w1 = (working w)\<lparr>prices := price_set program amount admin (db_now w) (prices (working w))\<rparr>"
    "committed w1 = committed w" "db_now w1 = db_now w"
proof -
  from assms have "w1 = (ticked w)\<lparr>working := (working w)\<lparr>prices := (case find_price program (working w) of
      None \<Rightarrow> prices (working w) @ [\<lparr>pr_program = program, pr_unit = amount, pr_version = 1, pr_updated_by = admin, pr_updated = db_now w\<rparr>]
    | Some _ \<Rightarrow> update_where (\<lambda>p. pr_program p = program)
        (\<lambda>p. p\<lparr>pr_unit := amount, pr_version := pr_version p + 1, pr_updated_by := admin, pr_updated := db_now w\<rparr>)
        (prices (working w)))\<rparr>\<rparr>"
    unfolding set_price_def exec_ret_Inr Let_def ticked_sel by (auto split: if_splits)
  then show "working w1 = (working w)\<lparr>prices := price_set program amount admin (db_now w) (prices (working w))\<rparr>"
    "committed w1 = committed w" "db_now w1 = db_now w"
    using find_price_None [of program "working w"]
    by (cases "find_price program (working w)"; simp add: price_set_def)+
qed

lemma insert_price_change_Inr:
  assumes "catch (insert_price_change c) (\<lambda>e. throw (h e)) w = (Inr u, w1)"
  shows "working w1 = (working w)\<lparr>price_changes := price_changes (working w) @ [c\<lparr>pc_created := db_now w\<rparr>]\<rparr>"
    "pc_id c \<notin> pc_id ` set (price_changes (working w))" "committed w1 = committed w" "db_now w1 = db_now w"
  using assms unfolding catch_Inr throw_Inr insert_price_change_def exec_ret_Inr Let_def
  by (auto simp: list_ex_iff split: if_splits)

lemma price_cohort_frame:
  "price_cohort program (d\<lparr>prices := p, price_changes := c\<rparr>) = price_cohort program d"
proof -
  have "brand_program (d\<lparr>prices := p, price_changes := c\<rparr>) brand = brand_program d brand" for brand
    by (simp add: brand_program_def)
  then have "sold_for program (d\<lparr>prices := p, price_changes := c\<rparr>) x = sold_for program d x" for x
    by (simp add: sold_for_def split: option.split)
  then show ?thesis by (simp add: price_cohort_def brand_open_def)
qed

lemma fix_cohort_Inr:
  assumes "fix_cohort key program amount w = (Inr u, w1)"
  shows "working w1 = (working w)\<lparr>price_items := price_items (working w) @ map (item_of key) (price_cohort program (working w))\<rparr>"
    "\<And>s. s \<in> set (price_cohort program (working w)) \<Longrightarrow> sb_proveedor_id s \<noteq> None \<and> sb_cantidad s \<le> max_subscription_amount div amount"
    "committed w1 = committed w" "db_now w1 = db_now w"
proof -
  from assms have ok: "\<not> list_ex (\<lambda>s. max_subscription_amount div amount < sb_cantidad s) (price_cohort program (working w))"
    and ins: "insert_cohort key program (ticked w) = (Inr u, w1)"
    unfolding fix_cohort_def seq_query_Inr ticked_sel by (auto simp: seq_Inr reject_if_Inr)
  from ins have a: "\<not> list_ex (\<lambda>s. sb_proveedor_id s = None) (price_cohort program (working w))"
    and w1: "w1 = (ticked (ticked w))\<lparr>working := (working w)\<lparr>price_items := price_items (working w)
        @ map (item_of key) (price_cohort program (working w))\<rparr>\<rparr>"
    unfolding insert_cohort_def exec_ret_Inr Let_def ticked_sel by (auto split: if_splits)
  from w1 show "working w1 = (working w)\<lparr>price_items := price_items (working w) @ map (item_of key) (price_cohort program (working w))\<rparr>"
    "committed w1 = committed w" "db_now w1 = db_now w" by simp_all
  from a ok show "\<And>s. s \<in> set (price_cohort program (working w)) \<Longrightarrow> sb_proveedor_id s \<noteq> None \<and> sb_cantidad s \<le> max_subscription_amount div amount"
    by (auto simp: list_ex_iff)
qed

definition change_made :: "int \<Rightarrow> string \<Rightarrow> string \<Rightarrow> int \<Rightarrow> int \<Rightarrow> int \<Rightarrow> bool \<Rightarrow> 'a billing_db_scheme \<Rightarrow> 'a billing_db_scheme \<Rightarrow> bool" where
  "change_made admin key program amount expected t reach d d1 \<longleftrightarrow>
     coalesce (map_option pr_version (find_price program d)) 0 = expected \<and> key \<notin> pc_id ` set (price_changes d)
     \<and> prices d1 = price_set program amount admin t (prices d) \<and> suscripciones d1 = suscripciones d
     \<and> price_items d1 = price_items d @ (if reach then map (item_of key) (price_cohort program d) else [])
     \<and> (reach \<longrightarrow> (\<forall>s \<in> set (price_cohort program d). sb_cantidad s \<le> max_subscription_amount div amount))
     \<and> (\<exists>c. price_changes d1 = price_changes d @ [c] \<and> pc_id c = key \<and> pc_program c = program \<and> pc_unit c = amount
          \<and> pc_previous_version c = expected \<and> pc_version c = add64 expected 1 \<and> pc_include c = reach)
     \<and> backoffice_audit d1 = backoffice_audit d @ [\<lparr>au_user = admin, au_action = ''subscription_price.change'',
          au_kind = ''program'', au_object = program\<rparr>]"

lemma new_price_change_Inr:
  assumes run: "new_price_change admin key program amount expected fallback reach w = (Inr u, w1)"
  shows "change_made admin key program amount expected (db_now w) reach (working w) (committed w1)"
proof -
  let ?d = "working w"
  let ?old = "find_price program ?d"
  define version where "version = (case ?old of None \<Rightarrow> 0 | Some p \<Rightarrow> pr_version p)"
  define c where "c = \<lparr>pc_id = key, pc_program = program, pc_unit = amount, pc_previous_version = version,
      pc_version = add64 version 1, pc_include = reach, pc_admin = admin,
      pc_previous_unit = Some (case ?old of None \<Rightarrow> fallback | Some p \<Rightarrow> pr_unit p), pc_created = 0\<rparr>"
  from run obtain w2 w3 w4 w5 u2 u3 u4 u5 where v: "version = expected"
    and s: "set_price program amount admin (ticked w) = (Inr u2, w2)"
    and i: "catch (insert_price_change c) (\<lambda>e. throw (if is_unique_violation e then Repo ErrConflict else e)) w2 = (Inr u3, w3)"
    and f: "(if reach then fix_cohort key program amount else ret ()) w3 = (Inr u4, w4)"
    and a: "audit_price admin ''subscription_price.change'' ''program'' program w4 = (Inr u5, w5)"
    and co: "commit w5 = (Inr u, w1)"
    unfolding new_price_change_def Let_def seq_query_Inr
    by (auto simp: version_def c_def seq_Inr reject_if_Inr split del: if_split)
  note s = set_price_Inr [OF s] and i = insert_price_change_Inr [OF i]
  have coh: "price_cohort program (working w3) = price_cohort program ?d"
    unfolding i(1) s(1) by (simp add: price_cohort_frame)
  have f4: "working w4 = (working w3)\<lparr>price_items := price_items ?d @ (if reach then map (item_of key) (price_cohort program ?d) else [])\<rparr>"
    and lim: "reach \<longrightarrow> (\<forall>s \<in> set (price_cohort program ?d). sb_cantidad s \<le> max_subscription_amount div amount)"
  proof -
    have it: "price_items (working w3) = price_items ?d" unfolding i(1) s(1) by simp
    show "working w4 = (working w3)\<lparr>price_items := price_items ?d @ (if reach then map (item_of key) (price_cohort program ?d) else [])\<rparr>"
    proof (cases reach)
      case True
      with f have "fix_cohort key program amount w3 = (Inr u4, w4)" by simp
      from fix_cohort_Inr(1) [OF this] True it coh show ?thesis by simp
    next
      case False
      with f it show ?thesis by (simp add: ret_Inr)
    qed
    from f show "reach \<longrightarrow> (\<forall>s \<in> set (price_cohort program ?d). sb_cantidad s \<le> max_subscription_amount div amount)"
      using fix_cohort_Inr(2) [of key program amount w3] coh by auto
  qed
  have "committed w1 = (working w4)\<lparr>backoffice_audit := backoffice_audit (working w4) @ [\<lparr>au_user = admin,
      au_action = ''subscription_price.change'', au_kind = ''program'', au_object = program\<rparr>]\<rparr>"
    using a co unfolding audit_price_def exec_Inr commit_Inr Let_def by auto
  then have d1: "committed w1 = (working w3)\<lparr>price_items := price_items ?d @ (if reach then map (item_of key) (price_cohort program ?d) else []),
      backoffice_audit := backoffice_audit (working w3) @ [\<lparr>au_user = admin,
      au_action = ''subscription_price.change'', au_kind = ''program'', au_object = program\<rparr>]\<rparr>" unfolding f4 by simp
  have ver: "coalesce (map_option pr_version ?old) 0 = expected"
    using v by (simp add: version_def coalesce_def split: option.splits)
  have fresh: "key \<notin> pc_id ` set (price_changes ?d)" using i(2) unfolding s(1) c_def by simp
  show ?thesis
    unfolding change_made_def d1 i(1) s(1) using ver lim fresh v
    by (auto simp: c_def)
qed

lemma mult_div_le: "0 < (a::int) \<Longrightarrow> a * (m div a) \<le> m"
  using pos_mod_sign [of a m] mult_div_mod_eq [of a m] by linarith

lemma change_price_Inr:
  fixes w :: "'a billing_db_scheme world"
  assumes run: "change_subscription_price rank admin key program amount expected fallback reach w = (Inr v, w1)"
  obtains (replay) c where "c \<in> set (price_changes (committed w))" "pc_id c = key" "pc_program c = program" "pc_unit c = amount"
      "pc_previous_version c = expected" "pc_include c = reach" "committed w1 = committed w"
    | (fresh) t where "change_made admin key program amount expected t reach (committed w) (committed w1)"
proof -
  have r: "reads_only (subscription_price_change rank key)"
    unfolding subscription_price_change_def Let_def by (intro read_rules)
  define change :: "('a billing_db_scheme, unit) tx" where "change = seq (query (\<lambda>_. ())) (\<lambda>_.
      seq (query (\<lambda>w. List.find (\<lambda>c. pc_id c = key) (price_changes (working w)))) (\<lambda>old. case old of
        Some c \<Rightarrow> seq (reject_if (pc_program c \<noteq> program \<or> pc_unit c \<noteq> amount \<or> pc_previous_version c \<noteq> expected
             \<or> pc_include c \<noteq> reach) (Repo ErrConflict)) (\<lambda>_. commit)
      | None \<Rightarrow> new_price_change admin key program amount expected fallback reach))"
  from run obtain w2 where body: "in_tx change w = (Inr (), w2)" and rd: "subscription_price_change rank key w2 = (Inr v, w1)"
    unfolding change_subscription_price_def change_def [symmetric] by (auto simp: seq_Inr throw_Inr split: if_splits)
  have c1: "committed w1 = committed w2" by (rule reads_onlyD(3) [OF r rd])
  let ?w = "ticked (ticked ((ticked w)\<lparr>working := committed w\<rparr>))"
  from body obtain w3 where tx: "(case List.find (\<lambda>c. pc_id c = key) (price_changes (committed w)) of
        Some c \<Rightarrow> seq (reject_if (pc_program c \<noteq> program \<or> pc_unit c \<noteq> amount \<or> pc_previous_version c \<noteq> expected
             \<or> pc_include c \<noteq> reach) (Repo ErrConflict)) (\<lambda>_. commit)
      | None \<Rightarrow> new_price_change admin key program amount expected fallback reach) ?w = (Inr (), w3)"
    and w2: "w2 = w3\<lparr>working := committed w3\<rparr>"
    unfolding change_def in_tx_Inr seq_query_Inr by auto
  show thesis
  proof (cases "List.find (\<lambda>c. pc_id c = key) (price_changes (committed w))")
    case None
    with tx have "new_price_change admin key program amount expected fallback reach ?w = (Inr (), w3)" by simp
    from new_price_change_Inr [OF this] show thesis using c1 w2 by (intro fresh [of "db_now w"]) simp
  next
    case (Some c)
    then have c: "c \<in> set (price_changes (committed w))" "pc_id c = key" by (auto simp: find_Some_iff)
    from tx Some have e: "pc_program c = program" "pc_unit c = amount" "pc_previous_version c = expected" "pc_include c = reach"
      and "commit ?w = (Inr (), w3)" by (auto simp: seq_Inr reject_if_Inr)
    then have "committed w3 = committed w" by (simp add: commit_Inr)
    with c1 w2 show thesis by (intro replay [OF c e]) simp
  qed
qed

text \<open>
  A change of a price either repeats, without effect, the change recorded under its key, or
  is made once, over the version it expects: the price of its program alone is set with the next
  version, and the subscriptions sold for the program, none of them too large for the price, are
  listed to be changed when the change reaches them, and none is changed by it.
\<close>

lemma price_change_versioned:
  assumes run: "change_subscription_price rank admin key program amount expected fallback reach w = (Inr v, w1)"
  shows "suscripciones (committed w1) = suscripciones (committed w)
    \<and> ((\<exists>c \<in> set (price_changes (committed w)). pc_id c = key \<and> pc_program c = program \<and> pc_unit c = amount
          \<and> pc_previous_version c = expected \<and> pc_include c = reach) \<and> committed w1 = committed w
      \<or> key \<notin> pc_id ` set (price_changes (committed w))
        \<and> coalesce (map_option pr_version (find_price program (committed w))) 0 = expected
        \<and> map_option (\<lambda>p. (pr_unit p, pr_version p)) (find_price program (committed w1)) = Some (amount, expected + 1)
        \<and> (\<forall>other. other \<noteq> program \<longrightarrow> find_price other (committed w1) = find_price other (committed w))
        \<and> price_items (committed w1) = price_items (committed w)
            @ (if reach then map (item_of key) (price_cohort program (committed w)) else [])
        \<and> (reach \<longrightarrow> (\<forall>s \<in> set (price_cohort program (committed w)). amount * sb_cantidad s \<le> max_subscription_amount)))"
  using run
proof (cases rule: change_price_Inr)
  case (replay c)
  then show ?thesis by auto
next
  case (fresh t)
  have amount: "0 < amount" using run
    by (auto simp: change_subscription_price_def valid_subscription_price_def throw_Inr split: if_splits)
  have new: "map_option (\<lambda>p. (pr_unit p, pr_version p)) (find_price program (committed w1)) = Some (amount, expected + 1)"
    using fresh by (auto simp: change_made_def find_price_def find_price_set split: option.split)
  have others: "find_price other (committed w1) = find_price other (committed w)" if "other \<noteq> program" for other
    using fresh that by (simp add: change_made_def find_price_def find_price_set)
  have size: "amount * sb_cantidad s \<le> max_subscription_amount"
    if "reach" "s \<in> set (price_cohort program (committed w))" for s
  proof -
    from that fresh have "sb_cantidad s \<le> max_subscription_amount div amount" by (simp add: change_made_def)
    then have "amount * sb_cantidad s \<le> amount * (max_subscription_amount div amount)"
      using amount by (intro mult_left_mono) simp_all
    also have "\<dots> \<le> max_subscription_amount" using amount by (rule mult_div_le)
    finally show ?thesis .
  qed
  from fresh new others size show ?thesis by (simp add: change_made_def)
qed

definition demo_stamps :: "billing_db world" where
  "demo_stamps = (let d = demo_market\<lparr>suscripciones := [demo_rival\<lparr>sb_program := Some ''SELLOS''\<rparr>]\<rparr> in
     demo_market_world\<lparr>committed := d, working := d\<rparr>)"

definition demo_price_change :: "(err + price_change_view) \<times> billing_db world" where
  "demo_price_change = change_subscription_price (\<lambda>_. 0) 5 ''K'' ''SELLOS'' 1500 0 1000 True demo_stamps"

lemma price_change_versioned_example:
  "map_option (\<lambda>p. (pr_unit p, pr_version p)) (find_price ''SELLOS'' (committed (snd demo_price_change))) = Some (1500, 1)"
proof -
  have ok: "\<not> isl (fst demo_price_change)" by code_simp
  have none: "price_changes (committed demo_stamps) = []"
    by (simp add: demo_stamps_def demo_market_def Let_def)
  show ?thesis
    using price_change_versioned [OF run_value [OF ok, unfolded demo_price_change_def]] none
    by (simp add: demo_price_change_def)
qed

text \<open>The unit price of an item, and the row of a brand that is active.\<close>

lemma quo64_le: "1 \<le> n \<Longrightarrow> quo64 max_subscription_amount n \<le> max_subscription_amount"
proof -
  assume n: "1 \<le> n"
  have "max_subscription_amount div n \<le> max_subscription_amount"
    using n zdiv_mono2 [of max_subscription_amount 1 n] by (simp add: max_subscription_amount_def)
  moreover have "0 \<le> max_subscription_amount div n" using n by (simp add: max_subscription_amount_def pos_imp_zdiv_nonneg_iff)
  ultimately show ?thesis
    using n by (simp add: quo64_def sdiv_nonneg max_subscription_amount_def wrap64_small)
qed

lemma discounted_unit_cases:
  assumes "amount \<le> max_subscription_amount"
  shows "case att of None \<Rightarrow> discounted_unit att paid amount = amount
    | Some a \<Rightarrow> if paid < ra_discount_charges a
        then 0 \<le> amount \<and> 0 \<le> ra_discount_bps a \<and> ra_discount_bps a \<le> 10000 \<longrightarrow>
             discounted_unit att paid amount = (amount * (10000 - ra_discount_bps a) + 5000) div 10000
        else discounted_unit att paid amount = amount"
  using assms discounted_minor_eq [of amount] by (auto simp: discounted_unit_def split: option.split)

lemma brand_active_row:
  "brand_active d brand = Some active \<Longrightarrow> active \<Longrightarrow>
     \<exists>m. List.find (\<lambda>m. m_id m = brand) (marcas d) = Some m \<and> m_activo m \<and> m_deleted_at m = None"
  by (auto simp: brand_active_def)

lemma confirms_amount_answer:
  "confirms_amount b i amount key \<Longrightarrow> \<exists>u. bp_update b i amount key = Inr u \<and> ps_id u = i \<and> ps_amount u = amount"
  by (auto simp: confirms_amount_def split: sum.splits)

text \<open>
  C28. A run of the worker of the price changes either leaves every subscription and the history
  of prices as they were, or handles one pending item whose change is still the current version of
  its program's price and whose subscription is still the one listed, of an active brand. Then the
  provider was asked, under the key of the change, the brand and the number of charges paid, for
  the new monthly amount, the unit price (the price of the change, with the referral's discount
  rounded to the nearest unit while charges with a discount are left) times the branches, and it
  answered with that subscription and exactly that amount; the price on file, its full price, the
  amount and the program are set to those, from the instant of the change on, and the price that
  was on file goes to the history, ended at that instant. No other subscription changes.
\<close>

theorem price_follows_confirmation:
  assumes run: "apply_next_subscription_price_change (price_update b) w = (r, w1)"
  shows "suscripciones (committed w1) = suscripciones (committed w) \<and> price_histories (committed w1) = price_histories (committed w)
    \<or> (\<exists>i c s m u unit monthly paid key. r = Inr True
        \<and> i \<in> set (price_items (committed w)) \<and> pi_status i = ''PENDING''
        \<and> c \<in> set (price_changes (committed w)) \<and> pc_id c = pi_change i
        \<and> map_option pr_version (List.find (\<lambda>p. pr_program p = pc_program c) (prices (committed w))) = Some (pc_version c)
        \<and> List.find (\<lambda>m. m_id m = pi_brand i) (marcas (committed w)) = Some m \<and> m_activo m \<and> m_deleted_at m = None
        \<and> List.find (\<lambda>s. sb_marca s = pi_brand i) (suscripciones (committed w)) = Some s
        \<and> coalesce (sb_proveedor_id s) '''' = pi_provider i \<and> sb_referencia s = pi_reference i
        \<and> sb_estado s \<in> {''PENDING'', ''AUTHORIZED'', ''PAUSED''}
        \<and> paid = int (length (filter (\<lambda>x. rc_brand x = pi_brand i) (charges (committed w))))
        \<and> (case List.find (\<lambda>a. ra_brand a = pi_brand i) (attributions (committed w)) of
             None \<Rightarrow> unit = pc_unit c
           | Some a \<Rightarrow> if paid < ra_discount_charges a
               then 0 \<le> pc_unit c \<and> 0 \<le> ra_discount_bps a \<and> ra_discount_bps a \<le> 10000 \<longrightarrow>
                    unit = (pc_unit c * (10000 - ra_discount_bps a) + 5000) div 10000
               else unit = pc_unit c)
        \<and> 1 \<le> unit \<and> 1 \<le> sb_cantidad s \<and> monthly = mul64 unit (sb_cantidad s)
        \<and> key = ''price:'' @ pi_change i @ '':'' @ show_int (pi_brand i) @ '':'' @ show_int paid
        \<and> sent w1 = sent w @ [(''UpdateSubscriptionAmount'', key, monthly)]
        \<and> bp_update b (pi_provider i) monthly key = Inr u \<and> ps_id u = pi_provider i \<and> ps_amount u = monthly
        \<and> price_histories (committed w1) = price_histories (committed w) @
            [\<lparr>ph_provider = pi_provider i, ph_unit = sb_precio s, ph_full = coalesce (sb_full s) (sb_precio s),
              ph_branches = sb_cantidad s, ph_from = coalesce (sb_price_from s) (sb_created s), ph_until = db_now w,
              ph_change = pi_change i\<rparr>]
        \<and> suscripciones (committed w1) = update_where (\<lambda>x. sb_marca x = pi_brand i)
            (\<lambda>x. x\<lparr>sb_precio := unit, sb_full := Some (pc_unit c), sb_importe := monthly, sb_program := Some (pc_program c),
              sb_price_from := Some (db_now w), sb_updated := db_now w\<rparr>) (suscripciones (committed w)))"
  using run
proof (cases rule: apply_next_rows)
  case failed
  then show ?thesis by (simp add: unchanged_rows_def)
next
  case (handled w2)
  from handled(2) show ?thesis
  proof (cases rule: price_item_tx_Inr)
    case none
    then show ?thesis by simp
  next
    case t: (handled i c w4 w5)
    from t(6) show ?thesis
    proof (cases rule: handle_item_Inr)
      case kept
      with t handled show ?thesis by (simp add: unchanged_rows_def)
    next
      case h: (moved s active w6)
      from h(8) show ?thesis
      proof (cases rule: reprice_Inr)
        case kept
        with t handled h show ?thesis by (simp add: unchanged_rows_def)
      next
        case m: (moved unit key)
        have w6: "working w6 = committed w" "sent w6 = sent w" "db_now w6 = db_now w" "committed w1 = committed w5" "sent w1 = sent w5"
          using t h handled(3) by simp_all
        note at = h(1-4) [unfolded t(3)] and m' = m [unfolded w6]
        have act: "active" and item: "coalesce (sb_proveedor_id s) '''' = pi_provider i" "sb_referencia s = pi_reference i"
          "sb_estado s \<in> {''PENDING'', ''AUTHORIZED'', ''PAUSED''}" using h(2) by (simp_all add: item_matches_def)
        obtain x where x: "List.find (\<lambda>m. m_id m = pi_brand i) (marcas (committed w)) = Some x" "m_activo x" "m_deleted_at x = None"
          using brand_active_row [OF at(3) act] by blast
        obtain u where u: "bp_update b (pi_provider i) (mul64 unit (sb_cantidad s)) key = Inr u" "ps_id u = pi_provider i"
          "ps_amount u = mul64 unit (sb_cantidad s)" using confirms_amount_answer [OF m'(6)] by blast
        have "pc_unit c \<le> max_subscription_amount" using m'(4,5) quo64_le [OF m'(4)] by simp
        note unit = discounted_unit_cases [OF this, of "find_attribution (pi_brand i) (committed w)" "paid_count (pi_brand i) (committed w)",
            folded m'(1), unfolded find_attribution_def]
        note rows = m'(8) [unfolded repriced_db_def replaced_price_def repriced_def [abs_def]]
        show ?thesis
          by (rule disjI2, rule exI [of _ i], rule exI [of _ c], rule exI [of _ s], rule exI [of _ x], rule exI [of _ u],
              rule exI [of _ unit], rule exI [of _ "mul64 unit (sb_cantidad s)"], rule exI [of _ "paid_count (pi_brand i) (committed w)"],
              rule exI [of _ key], intro conjI)
            (use handled(1) next_price_item_Some [OF t(2)] at x u item unit rows m'(2-4,7) w6(4,5) in
              \<open>simp_all add: find_price_def find_suscripcion_def paid_count_def price_key_def\<close>)
      qed
    qed
  qed
qed

definition demo_price_client :: billing_provider where
  "demo_price_client =
     \<lparr>bp_create = (\<lambda>_. Inl Uncertain), bp_get = (\<lambda>_. Inl Uncertain), bp_cancel = (\<lambda>_ _. Inl Uncertain), bp_find = None,
      bp_referral = True, bp_update = (\<lambda>i amount _. Inr ((demo_provider ''authorized'')\<lparr>ps_id := i, ps_amount := amount\<rparr>)),
      bp_invoice = (\<lambda>_. Inl Uncertain), bp_payment = (\<lambda>_. Inl Uncertain), bp_branch_payment = None\<rparr>"

definition demo_repriced :: "(err + bool) \<times> billing_db world" where
  "demo_repriced = apply_next_subscription_price_change (price_update demo_price_client) (snd demo_price_change)"

lemma demo_price_tables:
  fixes d defines "d \<equiv> committed (snd demo_price_change)"
  shows "suscripciones d = [demo_rival\<lparr>sb_program := Some ''SELLOS''\<rparr>]" "charges d = []" "price_histories d = []"
    "list_all (\<lambda>i. pi_change i = ''K'' \<and> pi_brand i = 11 \<and> pi_provider i = ''PB'') (price_items d)"
    "list_all (\<lambda>c. pc_unit c = 1500) (price_changes d)" "list_all (\<lambda>a. ra_brand a \<noteq> 11) (attributions d)"
    "sent (snd demo_price_change) = []" "db_now (snd demo_price_change) = 10" "mul64 1500 1 = 1500"
    "show_int 11 = ''11''" "show_int 0 = ''0''" "map sb_importe (suscripciones (committed (snd demo_repriced))) \<noteq> [1000]"
  unfolding d_def by code_simp+

theorem price_follows_confirmation_witness:
  "sent (snd demo_repriced) = [(''UpdateSubscriptionAmount'', ''price:K:11:0'', 1500)] \<and>
   map (\<lambda>h. (ph_provider h, ph_unit h, ph_full h, ph_branches h, ph_until h)) (price_histories (committed (snd demo_repriced)))
     = [(''PB'', 1000, 1000, 1, 10)] \<and>
   map (\<lambda>s. (sb_marca s, sb_precio s, sb_full s, sb_importe s, sb_price_from s)) (suscripciones (committed (snd demo_repriced)))
     = [(11, 1500, Some 1500, 1500, Some 10)]"
proof -
  let ?d = "committed (snd demo_price_change)"
  note tab = demo_price_tables
  have none: "List.find (\<lambda>a. ra_brand a = 11) (attributions ?d) = None"
    using tab(6) by (auto simp: find_None_iff list_all_iff)
  have item: "pi_change i = ''K'' \<and> pi_brand i = 11 \<and> pi_provider i = ''PB''" if "i \<in> set (price_items ?d)" for i
    using that tab(4) by (simp add: list_all_iff)
  have change: "pc_unit c = 1500" if "c \<in> set (price_changes ?d)" for c
    using that tab(5) by (simp add: list_all_iff)
  have ne: "suscripciones (committed (snd demo_repriced)) \<noteq> suscripciones ?d"
  proof
    assume "suscripciones (committed (snd demo_repriced)) = suscripciones ?d"
    then have "map sb_importe (suscripciones (committed (snd demo_repriced))) = [1000]" by (simp add: tab(1) demo_rival_def)
    with tab(12) show False by simp
  qed
  have run: "apply_next_subscription_price_change (price_update demo_price_client) (snd demo_price_change) = (fst demo_repriced, snd demo_repriced)"
    by (simp add: demo_repriced_def)
  from price_follows_confirmation [OF run] show ?thesis
  proof (elim disjE exE conjE)
    assume "suscripciones (committed (snd demo_repriced)) = suscripciones ?d"
    with ne show ?thesis by simp
  next
    fix i c s unit monthly paid key
    assume i: "i \<in> set (price_items ?d)" and c: "c \<in> set (price_changes ?d)"
      and s: "List.find (\<lambda>s. sb_marca s = pi_brand i) (suscripciones ?d) = Some s"
      and paid: "paid = int (length (filter (\<lambda>x. rc_brand x = pi_brand i) (charges ?d)))"
      and unit: "case List.find (\<lambda>a. ra_brand a = pi_brand i) (attributions ?d) of None \<Rightarrow> unit = pc_unit c
        | Some a \<Rightarrow> if paid < ra_discount_charges a
            then 0 \<le> pc_unit c \<and> 0 \<le> ra_discount_bps a \<and> ra_discount_bps a \<le> 10000 \<longrightarrow>
                 unit = (pc_unit c * (10000 - ra_discount_bps a) + 5000) div 10000
            else unit = pc_unit c"
      and monthly: "monthly = mul64 unit (sb_cantidad s)"
      and key: "key = ''price:'' @ pi_change i @ '':'' @ show_int (pi_brand i) @ '':'' @ show_int paid"
      and rows: "sent (snd demo_repriced) = sent (snd demo_price_change) @ [(''UpdateSubscriptionAmount'', key, monthly)]"
        "price_histories (committed (snd demo_repriced)) = price_histories ?d @
            [\<lparr>ph_provider = pi_provider i, ph_unit = sb_precio s, ph_full = coalesce (sb_full s) (sb_precio s),
              ph_branches = sb_cantidad s, ph_from = coalesce (sb_price_from s) (sb_created s), ph_until = db_now (snd demo_price_change),
              ph_change = pi_change i\<rparr>]"
        "suscripciones (committed (snd demo_repriced)) = update_where (\<lambda>x. sb_marca x = pi_brand i)
            (\<lambda>x. x\<lparr>sb_precio := unit, sb_full := Some (pc_unit c), sb_importe := monthly, sb_program := Some (pc_program c),
              sb_price_from := Some (db_now (snd demo_price_change)), sb_updated := db_now (snd demo_price_change)\<rparr>) (suscripciones ?d)"
    note i = item [OF i] and c = change [OF c]
    have row: "s = demo_rival\<lparr>sb_program := Some ''SELLOS''\<rparr>" using s i tab(1) by (simp add: demo_rival_def split: if_splits)
    have old: "sb_precio s = 1000" "sb_full s = Some 1000" "sb_cantidad s = 1" "sb_marca s = 11" by (simp_all add: row demo_rival_def)
    have new: "unit = 1500" "paid = 0" using unit paid none tab(2) i c by simp_all
    have m: "monthly = 1500" using monthly new(1) old(3) tab(9) by simp
    have "key = ''price:K:11:0''" using key i new(2) tab(10,11) by simp
    then show ?thesis using rows i c new m old tab(3,7,8) unfolding tab(1) row [symmetric] by simp
  qed
qed

text \<open>
  C29. The worker of the price changes comes to its pause in every round, whatever the provider
  answers and the database fails, and over its rounds it sends one request for each pending item
  at most, besides one repetition a round.
\<close>

theorem price_worker_pauses:
  "\<exists>w1. run_subscription_price_changes provider rounds w = Some w1
     \<and> pending (committed w1) \<le> pending (committed w)
     \<and> length (sent w1) \<le> length (sent w) + pending (committed w) + length rounds"
proof (cases "referral_provider provider = None")
  case True
  then show ?thesis by (simp add: run_subscription_price_changes_def)
next
  case False
  with rounds_end [of rounds w] show ?thesis by (auto simp: run_subscription_price_changes_def)
qed

end
