(* ===== verification/Identity.thy ===== *)
theory Identity
  imports GoText
begin

text \<open>
  Accounts, sessions and the one-use tokens sent by mail (\<^verbatim>\<open>repository/session.go\<close>, \<^verbatim>\<open>email.go\<close>,
  \<^verbatim>\<open>email_code.go\<close>, \<^verbatim>\<open>email_change.go\<close>, \<^verbatim>\<open>reauthenticate.go\<close>, \<^verbatim>\<open>user.go\<close> and \<^verbatim>\<open>emailcode/code.go\<close>).
  The database is the tables these operations use, \<open>account\<close> the columns of \<^verbatim>\<open>usuarios\<close> they read and
  write. Bytes are text; identifiers drawn at random (\<^verbatim>\<open>uuid.New\<close>) and what the cryptographic
  packages compute are arguments, the latter in a record \<open>crypto\<close>. A \<^verbatim>\<open>CITEXT\<close> column compares
  without case.
\<close>

section \<open>Tables\<close>

record account =
  ac_id :: int
  ac_email :: string
  ac_password :: "string option"
  ac_google :: "string option"
  ac_name :: string
  ac_last_name :: "string option"
  ac_alias :: "string option"
  ac_photo :: "string option"
  ac_tipo :: string
  ac_activo :: bool
  ac_deleted_at :: "int option"
  ac_verified_at :: "int option"
  ac_auth_version :: int
  ac_version :: int
  ac_created :: int
  ac_codigo :: "string option"
  ac_first_login :: "int option"
  ac_first_estimated :: bool

record session =
  se_id :: string
  se_user :: int
  se_hash :: string
  se_expires :: int
  se_revoked :: "int option"
  se_replaced :: "string option"
  se_created :: int
  se_last_used :: "int option"
  se_family :: string
  se_auth_time :: int

record id_token =
  it_id :: string
  it_user :: int
  it_purpose :: string
  it_hash :: string
  it_expires :: int
  it_consumed :: "int option"
  it_created :: int
  it_pending :: "string option"
  it_version :: "int option"

record email_code =
  ec_user :: int
  ec_hash :: string
  ec_expires :: int
  ec_attempts :: int
  ec_sent :: int
  ec_consumed :: "int option"
  ec_registration :: "string option"
  ec_registration_expires :: "int option"

record outbox_email =
  ob_id :: string
  ob_user :: "int option"
  ob_kind :: string
  ob_to :: string
  ob_subject :: string
  ob_state :: string
  ob_attempts :: int
  ob_available :: int
  ob_lease_until :: "int option"
  ob_lease_owner :: "string option"
  ob_error :: "string option"
  ob_sent_at :: "int option"
  ob_created :: int
  ob_ciphertext :: "string option"
  ob_nonce :: "string option"
  ob_token_expires :: "int option"

record identity_db =
  accounts :: "account list"
  brands :: "marca list"
  owners :: "membresia list"
  sessions :: "session list"
  id_tokens :: "id_token list"
  email_codes :: "email_code list"
  outbox :: "outbox_email list"

type_synonym 'a itx = "(identity_db, 'a) tx"

definition identity_token_invalid :: err where
  "identity_token_invalid = GoError ''identity token invalid''"

definition ci_equal :: "string \<Rightarrow> string \<Rightarrow> bool" where
  "ci_equal a b \<longleftrightarrow> to_lower a = to_lower b"

definition account_enabled :: "account \<Rightarrow> bool" where
  "account_enabled a \<longleftrightarrow> ac_activo a \<and> ac_deleted_at a = None"

definition find_account :: "int \<Rightarrow> identity_db \<Rightarrow> account option" where
  "find_account user d = List.find (\<lambda>a. ac_id a = user) (accounts d)"

definition enabled_account :: "int \<Rightarrow> identity_db \<Rightarrow> account option" where
  "enabled_account user d = List.find (\<lambda>a. ac_id a = user \<and> account_enabled a) (accounts d)"

definition set_accounts :: "(account \<Rightarrow> bool) \<Rightarrow> (account \<Rightarrow> account) \<Rightarrow> identity_db \<Rightarrow> identity_db" where
  "set_accounts p f d = d\<lparr>accounts := update_where p f (accounts d)\<rparr>"

definition set_sessions :: "(session \<Rightarrow> bool) \<Rightarrow> (session \<Rightarrow> session) \<Rightarrow> identity_db \<Rightarrow> identity_db" where
  "set_sessions p f d = d\<lparr>sessions := update_where p f (sessions d)\<rparr>"

definition set_tokens :: "(id_token \<Rightarrow> bool) \<Rightarrow> (id_token \<Rightarrow> id_token) \<Rightarrow> identity_db \<Rightarrow> identity_db" where
  "set_tokens p f d = d\<lparr>id_tokens := update_where p f (id_tokens d)\<rparr>"

definition set_codes :: "(email_code \<Rightarrow> bool) \<Rightarrow> (email_code \<Rightarrow> email_code) \<Rightarrow> identity_db \<Rightarrow> identity_db" where
  "set_codes p f d = d\<lparr>email_codes := update_where p f (email_codes d)\<rparr>"

definition set_outbox :: "(outbox_email \<Rightarrow> bool) \<Rightarrow> (outbox_email \<Rightarrow> outbox_email) \<Rightarrow> identity_db \<Rightarrow> identity_db" where
  "set_outbox p f d = d\<lparr>outbox := update_where p f (outbox d)\<rparr>"

section \<open>Sessions\<close>

definition first_login :: "int \<Rightarrow> int \<Rightarrow> account \<Rightarrow> account" where
  "first_login user t a = a\<lparr>ac_first_login := Some (coalesce (ac_first_login a) t)\<rparr>"

text \<open>
  \<open>UPDATE marcas \<dots> FROM membresias_marca JOIN usuarios\<close>: a brand whose trial has not started
  starts it with the first login of this owner.
\<close>

definition start_trials :: "int \<Rightarrow> identity_db \<Rightarrow> identity_db" where
  "start_trials user d =
     (case find_account user d of None \<Rightarrow> d
      | Some u \<Rightarrow> d\<lparr>brands := update_where
          (\<lambda>m. m_trial_started m = None \<and> list_ex (\<lambda>mm. mm_marca mm = m_id m \<and> mm_usuario mm = user
             \<and> mm_rol mm = ''PROPIETARIO'' \<and> mm_activo mm) (owners d))
          (\<lambda>m. m\<lparr>m_trial_started := ac_first_login u, m_trial_estimated := ac_first_estimated u\<rparr>) (brands d)\<rparr>)"

definition record_first_login :: "int \<Rightarrow> int \<Rightarrow> unit itx" where
  "record_first_login user auth_time =
     seq (exec (\<lambda>w. set_accounts (\<lambda>a. ac_id a = user) (first_login user auth_time) (working w))) (\<lambda>_.
     exec (\<lambda>w. start_trials user (working w)))"

definition new_session :: "string \<Rightarrow> int \<Rightarrow> string \<Rightarrow> int \<Rightarrow> string \<Rightarrow> int \<Rightarrow> int \<Rightarrow> session" where
  "new_session i user hash expires family auth_time t =
     \<lparr>se_id = i, se_user = user, se_hash = hash, se_expires = expires, se_revoked = None, se_replaced = None,
      se_created = t, se_last_used = None, se_family = family, se_auth_time = auth_time\<rparr>"

definition insert_session :: "string \<Rightarrow> int \<Rightarrow> string \<Rightarrow> int \<Rightarrow> string \<Rightarrow> int \<Rightarrow> unit itx" where
  "insert_session i user hash expires family auth_time = exec_ret (\<lambda>w. let d = working w in
     if list_ex (\<lambda>s. se_id s = i) (sessions d) then Inl (PgErr (Unique_violation ''sesiones_auth_pkey''))
     else if list_ex (\<lambda>s. se_hash s = hash) (sessions d) then Inl (PgErr (Unique_violation ''sesiones_auth_refresh_hash_key''))
     else if expires \<le> db_now w then Inl (PgErr (Other_pg ''23514''))
     else if family \<noteq> i \<and> \<not> list_ex (\<lambda>s. se_id s = family) (sessions d) then Inl (PgErr (Other_pg ''23503''))
     else Inr ((), d\<lparr>sessions := sessions d @ [new_session i user hash expires family auth_time (db_now w)]\<rparr>))"

definition create_session :: "string \<Rightarrow> int \<Rightarrow> string \<Rightarrow> int \<Rightarrow> int \<Rightarrow> int \<Rightarrow> unit itx" where
  "create_session i user hash expires auth_time expected = in_tx (
     seq (query (\<lambda>w. enabled_account user (working w))) (\<lambda>row.
     seq (require row (Repo ErrNotFound)) (\<lambda>a.
     seq (reject_if (ac_auth_version a \<noteq> expected) (Repo ErrNotFound)) (\<lambda>_.
     seq (record_first_login user auth_time) (\<lambda>_.
     seq (insert_session i user hash expires i auth_time) (\<lambda>_.
     commit))))))"

definition revoked :: "int \<Rightarrow> session \<Rightarrow> session" where
  "revoked t s = s\<lparr>se_revoked := Some (coalesce (se_revoked s) t)\<rparr>"

definition find_session :: "string \<Rightarrow> identity_db \<Rightarrow> session option" where
  "find_session hash d = List.find (\<lambda>s. se_hash s = hash) (sessions d)"

text \<open>A rotated session that comes back revokes its whole family, and that is committed.\<close>

definition revoke_reused :: "session \<Rightarrow> 'a itx" where
  "revoke_reused s =
     seq (exec (\<lambda>w. set_sessions (\<lambda>x. se_family x = se_family s) (revoked (db_now w)) (working w))) (\<lambda>_.
     seq commit (\<lambda>_.
     throw (Repo ErrSessionReuse)))"

definition replace_session :: "session \<Rightarrow> string \<Rightarrow> string \<Rightarrow> int \<Rightarrow> unit itx" where
  "replace_session s new_id new_hash new_expires =
     seq (insert_session new_id (se_user s) new_hash new_expires (se_family s) (se_auth_time s)) (\<lambda>_.
     seq (exec (\<lambda>w. set_sessions (\<lambda>x. se_id x = se_id s)
            (\<lambda>x. x\<lparr>se_revoked := Some (db_now w), se_replaced := Some new_id, se_last_used := Some (db_now w)\<rparr>) (working w))) (\<lambda>_.
     commit))"

definition rotate_session :: "string \<Rightarrow> string \<Rightarrow> string \<Rightarrow> int \<Rightarrow> (account \<times> int) itx" where
  "rotate_session hash new_id new_hash new_expires = in_tx (
     seq (query (\<lambda>w. find_session hash (working w))) (\<lambda>owner_row.
     seq (require owner_row (Repo ErrNotFound)) (\<lambda>owner.
     seq (query (\<lambda>w. map_option account_enabled (find_account (se_user owner) (working w)))) (\<lambda>active_row.
     seq (require active_row (Repo ErrNotFound)) (\<lambda>active.
     seq (reject_if (\<not> active) (Repo ErrNotFound)) (\<lambda>_.
     seq (query (\<lambda>w. let d = working w in first_row [(s, u). s \<leftarrow> sessions d, u \<leftarrow> accounts d,
            ac_id u = se_user s \<and> se_hash s = hash \<and> account_enabled u])) (\<lambda>row.
     seq (require row (Repo ErrNotFound)) (\<lambda>(s, u).
     if se_revoked s \<noteq> None then revoke_reused s
     else
       seq now_app (\<lambda>t.
       seq (reject_if (se_expires s \<le> t) (Repo ErrNotFound)) (\<lambda>_.
       seq (replace_session s new_id new_hash new_expires) (\<lambda>_.
       ret (u, se_auth_time s))))))))))))"

definition revoke_session :: "int \<Rightarrow> string \<Rightarrow> unit itx" where
  "revoke_session user i = in_tx (
     seq (query (\<lambda>w. find_account user (working w))) (\<lambda>locked.
     seq (require locked (Repo ErrNotFound)) (\<lambda>_.
     seq (query (\<lambda>w. map_option se_family (List.find (\<lambda>s. se_id s = i \<and> se_user s = user) (sessions (working w))))) (\<lambda>row.
     seq (require row (Repo ErrNotFound)) (\<lambda>family.
     seq (exec (\<lambda>w. set_sessions (\<lambda>x. se_family x = family) (revoked (db_now w)) (working w))) (\<lambda>_.
     commit))))))"

definition revoke_refresh_family :: "string \<Rightarrow> unit itx" where
  "revoke_refresh_family hash = in_tx (
     seq (query (\<lambda>w. find_session hash (working w))) (\<lambda>row.
     case row of None \<Rightarrow> ret ()
     | Some owner \<Rightarrow>
         seq (query (\<lambda>w. find_account (se_user owner) (working w))) (\<lambda>locked.
         seq (require locked (GoError ''no rows in result set'')) (\<lambda>_.
         seq (query (\<lambda>w. find_session hash (working w))) (\<lambda>again.
         seq (require again (GoError ''no rows in result set'')) (\<lambda>s.
         seq (exec (\<lambda>w. set_sessions (\<lambda>x. se_family x = se_family s) (revoked (db_now w)) (working w))) (\<lambda>_.
         commit)))))))"

text \<open>What every authenticated request asks: is the session of the access token live?\<close>

definition session_live :: "int \<Rightarrow> int \<Rightarrow> string \<Rightarrow> int \<Rightarrow> session \<Rightarrow> account \<Rightarrow> bool" where
  "session_live t user i version s u \<longleftrightarrow> ac_id u = se_user s \<and> se_id s = i \<and> se_user s = user \<and> se_revoked s = None
     \<and> t < se_expires s \<and> account_enabled u \<and> ac_auth_version u = version"

definition active_session_account_type :: "int \<Rightarrow> string \<Rightarrow> int \<Rightarrow> string itx" where
  "active_session_account_type user i version =
     seq (query (\<lambda>w. let d = committed w in first_row [ac_tipo u. s \<leftarrow> sessions d, u \<leftarrow> accounts d,
            session_live (db_now w) user i version s u])) (\<lambda>row.
     require row (GoError ''no rows in result set''))"

end
