(* ===== verification/EmailTokens.thy ===== *)
theory EmailTokens
  imports Identity
begin

text \<open>
  One-use tokens and six-digit codes sent by mail (\<^verbatim>\<open>repository/email.go\<close>, \<^verbatim>\<open>email_code.go\<close>,
  \<^verbatim>\<open>email_change.go\<close>, \<^verbatim>\<open>reauthenticate.go\<close>, \<^verbatim>\<open>emailcode/code.go\<close>). \<open>crypto\<close> holds what the
  cryptographic packages compute: HMAC-SHA256, SHA-256, unpadded URL-safe Base64 and the sealed
  payload of an outbox row under the cipher key, which the random nonce may deny. A six-digit code
  drawn at random is an argument; where the code draws again, the argument is the list of draws.
\<close>

section \<open>Fingerprints\<close>

record crypto =
  cr_mac :: "string \<Rightarrow> string \<Rightarrow> string"
  cr_sha :: "string \<Rightarrow> string"
  cr_b64 :: "string \<Rightarrow> string"
  cr_seal :: "string \<Rightarrow> string \<Rightarrow> err + (string \<times> string)"
  cr_key :: string

definition valid_code :: "string \<Rightarrow> bool" where
  "valid_code code \<longleftrightarrow> length code = 6 \<and> list_all is_digit code"

definition nul :: char where
  "nul = char_of (0 :: nat)"

definition keyed_fingerprint :: "crypto \<Rightarrow> string \<Rightarrow> string \<Rightarrow> string" where
  "keyed_fingerprint cr use v = cr_mac cr (cr_key cr) (''puntazo/email-verification/v1/'' @ use @ nul # v)"

definition code_hash :: "crypto \<Rightarrow> string \<Rightarrow> string \<Rightarrow> string" where
  "code_hash cr email code = keyed_fingerprint cr ''code'' (to_lower (trim_space email) @ nul # code)"

definition merchant_registration_token :: "crypto \<Rightarrow> string \<Rightarrow> string \<Rightarrow> string" where
  "merchant_registration_token cr email key = cr_b64 cr (keyed_fingerprint cr ''registration'' (email @ nul # key))"

definition registration_hash :: "crypto \<Rightarrow> string \<Rightarrow> string" where
  "registration_hash cr token = cr_sha cr token"

definition activation_token :: "crypto \<Rightarrow> string \<Rightarrow> string \<Rightarrow> string \<Rightarrow> string" where
  "activation_token cr email code delivery =
     cr_b64 cr (keyed_fingerprint cr ''activation'' (to_lower (trim_space email) @ nul # code @ nul # delivery))"

definition encrypt_outbox_token :: "crypto \<Rightarrow> string \<Rightarrow> string \<Rightarrow> err + (string \<times> string)" where
  "encrypt_outbox_token cr token i =
     (if token = '''' \<or> length (cr_key cr) \<noteq> 32 then Inl (GoError ''secure outbox encryption key is unavailable'')
      else cr_seal cr token i)"

section \<open>Rows\<close>

record email_message =
  em_kind :: string
  em_to :: string
  em_subject :: string
  em_token :: string
  em_code :: bool
  em_registration :: string
  em_registration_expires :: int

definition token_consumed :: "int \<Rightarrow> id_token \<Rightarrow> id_token" where
  "token_consumed t x = x\<lparr>it_consumed := Some t\<rparr>"

text \<open>A row of the outbox that will not be sent any more: its payload and its lease are cleared.\<close>

definition dropped :: "string \<Rightarrow> outbox_email \<Rightarrow> outbox_email" where
  "dropped reason e = e\<lparr>ob_state := ''FAILED'', ob_error := Some reason, ob_ciphertext := None, ob_nonce := None,
     ob_token_expires := None, ob_lease_until := None, ob_lease_owner := None\<rparr>"

definition dropped_pending :: "string \<Rightarrow> outbox_email \<Rightarrow> outbox_email" where
  "dropped_pending reason e = e\<lparr>ob_state := ''FAILED'', ob_error := Some reason, ob_ciphertext := None, ob_nonce := None,
     ob_token_expires := None\<rparr>"

definition open_state :: "string \<Rightarrow> bool" where
  "open_state st \<longleftrightarrow> st = ''PENDING'' \<or> st = ''SENDING''"

definition token_checked :: "id_token \<Rightarrow> bool" where
  "token_checked x \<longleftrightarrow> it_purpose x \<in> {''VERIFY_EMAIL'', ''RESET_PASSWORD'', ''CHANGE_EMAIL''}
     \<and> (it_purpose x = ''CHANGE_EMAIL'' \<longleftrightarrow> it_pending x \<noteq> None) \<and> (it_purpose x = ''CHANGE_EMAIL'' \<longleftrightarrow> it_version x \<noteq> None)"

definition insert_id_token :: "id_token \<Rightarrow> unit itx" where
  "insert_id_token x = exec_ret (\<lambda>w. let d = working w in
     if list_ex (\<lambda>y. it_id y = it_id x) (id_tokens d) then Inl (PgErr (Unique_violation ''tokens_identidad_email_pkey''))
     else if list_ex (\<lambda>y. it_hash y = it_hash x) (id_tokens d) then Inl (PgErr (Unique_violation ''tokens_identidad_email_token_hash_key''))
     else if it_expires x \<le> db_now w \<or> \<not> token_checked x then Inl (PgErr (Other_pg ''23514''))
     else Inr ((), d\<lparr>id_tokens := id_tokens d @ [x\<lparr>it_created := db_now w\<rparr>]\<rparr>))"

definition new_id_token :: "string \<Rightarrow> int \<Rightarrow> string \<Rightarrow> string \<Rightarrow> int \<Rightarrow> id_token" where
  "new_id_token i user purpose hash expires =
     \<lparr>it_id = i, it_user = user, it_purpose = purpose, it_hash = hash, it_expires = expires, it_consumed = None,
      it_created = 0, it_pending = None, it_version = None\<rparr>"

definition insert_outbox :: "string \<Rightarrow> int \<Rightarrow> string \<Rightarrow> string \<Rightarrow> string \<Rightarrow> string \<times> string \<Rightarrow> int \<Rightarrow> unit itx" where
  "insert_outbox i user kind recipient subject sealed expires = exec_ret (\<lambda>w. let d = working w in
     if list_ex (\<lambda>e. ob_id e = i) (outbox d) then Inl (PgErr (Unique_violation ''email_outbox_pkey''))
     else Inr ((), d\<lparr>outbox := outbox d @ [\<lparr>ob_id = i, ob_user = Some user, ob_kind = kind, ob_to = recipient, ob_subject = subject,
       ob_state = ''PENDING'', ob_attempts = 0, ob_available = db_now w, ob_lease_until = None, ob_lease_owner = None,
       ob_error = None, ob_sent_at = None, ob_created = db_now w, ob_ciphertext = Some (fst sealed),
       ob_nonce = Some (snd sealed), ob_token_expires = Some expires\<rparr>]\<rparr>))"

definition sealed_or_fail :: "err + (string \<times> string) \<Rightarrow> (string \<times> string) itx" where
  "sealed_or_fail s = (case s of Inl e \<Rightarrow> throw e | Inr p \<Rightarrow> ret p)"

text \<open>\<open>INSERT \<dots> ON CONFLICT(usuario_id) DO UPDATE\<close> keeps the seen of the registration.\<close>

definition upsert_code :: "int \<Rightarrow> string \<Rightarrow> int \<Rightarrow> string option \<Rightarrow> int option \<Rightarrow> unit itx" where
  "upsert_code user hash expires registration registration_expires = exec (\<lambda>w. let d = working w in
     if list_ex (\<lambda>c. ec_user c = user) (email_codes d)
     then set_codes (\<lambda>c. ec_user c = user) (\<lambda>c. c\<lparr>ec_hash := hash, ec_expires := expires, ec_attempts := 0,
            ec_sent := db_now w, ec_consumed := None\<rparr>) d
     else d\<lparr>email_codes := email_codes d @ [\<lparr>ec_user = user, ec_hash = hash, ec_expires = expires, ec_attempts = 0,
            ec_sent = db_now w, ec_consumed = None, ec_registration = registration,
            ec_registration_expires = registration_expires\<rparr>]\<rparr>)"

section \<open>Issuing a code or a link\<close>

definition consume_tokens :: "int \<Rightarrow> string \<Rightarrow> int \<Rightarrow> unit itx" where
  "consume_tokens user purpose t = exec (\<lambda>w. set_tokens
     (\<lambda>x. it_user x = user \<and> it_purpose x = purpose \<and> it_consumed x = None) (token_consumed t) (working w))"

definition consume_tokens_now :: "int \<Rightarrow> string \<Rightarrow> unit itx" where
  "consume_tokens_now user purpose = exec (\<lambda>w. set_tokens
     (\<lambda>x. it_user x = user \<and> it_purpose x = purpose \<and> it_consumed x = None) (token_consumed (db_now w)) (working w))"

definition drop_verifications :: "int \<Rightarrow> string \<Rightarrow> unit itx" where
  "drop_verifications user reason = exec (\<lambda>w. set_outbox
     (\<lambda>e. ob_user e = Some user \<and> ob_kind e = ''VERIFY_EMAIL'' \<and> open_state (ob_state e)) (dropped reason) (working w))"

definition enqueue_code :: "crypto \<Rightarrow> string \<Rightarrow> string \<Rightarrow> int \<Rightarrow> string \<Rightarrow> int \<Rightarrow> email_message \<Rightarrow> unit itx" where
  "enqueue_code cr token_id outbox_id user hash expires message =
     seq (consume_tokens_now user ''VERIFY_EMAIL'') (\<lambda>_.
     seq (drop_verifications user ''superseded'') (\<lambda>_.
     seq (upsert_code user hash expires (if em_registration message = '''' then None else Some (em_registration message))
            (if em_registration message = '''' then None else Some (em_registration_expires message))) (\<lambda>_.
     let code = trim_prefix (em_token message) ''code:'' in
     seq (insert_id_token (new_id_token token_id user ''VERIFY_EMAIL''
            (registration_hash cr (activation_token cr (em_to message) code outbox_id)) expires)) (\<lambda>_.
     seq (sealed_or_fail (encrypt_outbox_token cr (em_token message) outbox_id)) (\<lambda>sealed.
     insert_outbox outbox_id user ''VERIFY_EMAIL'' (em_to message) (em_subject message) sealed expires)))))"

definition enqueue_identity_email :: "crypto \<Rightarrow> string \<Rightarrow> string \<Rightarrow> int \<Rightarrow> string \<Rightarrow> int \<Rightarrow> email_message \<Rightarrow> unit itx" where
  "enqueue_identity_email cr token_id outbox_id user hash expires message =
     (if em_code message then enqueue_code cr token_id outbox_id user hash expires message
      else
        seq (if em_kind message = ''VERIFY_EMAIL''
             then exec (\<lambda>w. set_codes (\<lambda>c. ec_user c = user \<and> ec_consumed c = None)
                    (\<lambda>c. c\<lparr>ec_consumed := Some (db_now w)\<rparr>) (working w))
             else ret ()) (\<lambda>_.
        seq (exec (\<lambda>w. set_outbox (\<lambda>e. ob_user e = Some user \<and> ob_kind e = em_kind message \<and> ob_state e = ''PENDING'')
               (dropped_pending ''superseded'') (working w))) (\<lambda>_.
        seq (consume_tokens_now user (em_kind message)) (\<lambda>_.
        seq (insert_id_token (new_id_token token_id user (em_kind message) hash expires)) (\<lambda>_.
        seq (sealed_or_fail (encrypt_outbox_token cr (em_token message) outbox_id)) (\<lambda>sealed.
        insert_outbox outbox_id user (em_kind message) (em_to message) (em_subject message) sealed expires))))))"

definition account_by_email :: "(account \<Rightarrow> bool) \<Rightarrow> string \<Rightarrow> identity_db \<Rightarrow> account option" where
  "account_by_email p email d = List.find (\<lambda>a. ci_equal (ac_email a) email \<and> account_enabled a \<and> p a) (accounts d)"

definition enqueue_verification :: "crypto \<Rightarrow> string \<Rightarrow> string \<Rightarrow> string \<Rightarrow> string \<Rightarrow> int \<Rightarrow> email_message \<Rightarrow> unit itx" where
  "enqueue_verification cr token_id outbox_id email hash expires message = in_tx (
     seq (query (\<lambda>w. account_by_email (\<lambda>a. ac_verified_at a = None) email (working w))) (\<lambda>row.
     case row of None \<Rightarrow> ret ()
     | Some a \<Rightarrow>
         seq (enqueue_identity_email cr token_id outbox_id (ac_id a) hash expires message) (\<lambda>_.
         commit)))"

definition enqueue_password_reset :: "crypto \<Rightarrow> string \<Rightarrow> string \<Rightarrow> string \<Rightarrow> string \<Rightarrow> int \<Rightarrow> email_message \<Rightarrow> unit itx" where
  "enqueue_password_reset cr token_id outbox_id email hash expires message = in_tx (
     seq (query (\<lambda>w. account_by_email (\<lambda>a. ac_verified_at a \<noteq> None \<and> ac_password a \<noteq> None) email (working w))) (\<lambda>row.
     case row of None \<Rightarrow> ret ()
     | Some a \<Rightarrow>
         seq (enqueue_identity_email cr token_id outbox_id (ac_id a) hash expires message) (\<lambda>_.
         commit)))"

text \<open>The first of the drawn codes whose keyed_fingerprint is not the one already sent.\<close>

fun fresh_code :: "crypto \<Rightarrow> string \<Rightarrow> string option \<Rightarrow> string list \<Rightarrow> string option" where
  "fresh_code cr email previous [] = None"
| "fresh_code cr email previous (code # draws) =
     (if previous = Some (code_hash cr email code) then fresh_code cr email previous draws else Some code)"

definition resend_seconds :: int where
  "resend_seconds = 60000000000"

definition enqueue_verification_code ::
  "crypto \<Rightarrow> string \<Rightarrow> string \<Rightarrow> string \<Rightarrow> string \<Rightarrow> string list \<Rightarrow> int \<Rightarrow> email_message \<Rightarrow> unit itx" where
  "enqueue_verification_code cr token_id outbox_id email code draws expires message = in_tx (
     seq (query (\<lambda>w. account_by_email (\<lambda>a. ac_verified_at a = None \<and> ac_password a \<noteq> None) email (working w))) (\<lambda>row.
     case row of None \<Rightarrow> ret ()
     | Some a \<Rightarrow>
         seq (query (\<lambda>w. map_option (\<lambda>c. (ec_hash c, db_now w - resend_seconds < ec_sent c))
                (List.find (\<lambda>c. ec_user c = ac_id a) (email_codes (working w))))) (\<lambda>previous.
         if map_option snd previous = Some True then ret ()
         else
           seq (require (fresh_code cr email (map_option fst previous) (code # draws)) (GoError ''rand'')) (\<lambda>new_code.
           seq (enqueue_code cr token_id outbox_id (ac_id a) (code_hash cr email new_code) expires
                  (message\<lparr>em_token := ''code:'' @ new_code\<rparr>)) (\<lambda>_.
           commit)))))"

section \<open>Confirming a code\<close>

definition wrong_code :: "int \<Rightarrow> int \<Rightarrow> int \<Rightarrow> 'a itx" where
  "wrong_code user attempts now =
     seq (exec (\<lambda>w. set_codes (\<lambda>c. ec_user c = user) (\<lambda>c. c\<lparr>ec_attempts := ec_attempts c + 1\<rparr>) (working w))) (\<lambda>_.
     seq (if attempts = 4 then consume_tokens user ''VERIFY_EMAIL'' now else ret ()) (\<lambda>_.
     seq commit (\<lambda>_.
     throw identity_token_invalid)))"

definition accept_code :: "crypto \<Rightarrow> account \<Rightarrow> email_code \<Rightarrow> string \<Rightarrow> int \<Rightarrow> ((int \<times> int) \<times> bool) itx" where
  "accept_code cr a c registration now =
     seq (exec (\<lambda>w. set_accounts (\<lambda>x. ac_id x = ac_id a) (\<lambda>x. x\<lparr>ac_verified_at := Some now\<rparr>) (working w))) (\<lambda>_.
     seq (exec (\<lambda>w. set_codes (\<lambda>x. ec_user x = ac_id a)
            (\<lambda>x. x\<lparr>ec_consumed := Some now, ec_registration := None, ec_registration_expires := None\<rparr>) (working w))) (\<lambda>_.
     seq (consume_tokens (ac_id a) ''VERIFY_EMAIL'' now) (\<lambda>_.
     seq (drop_verifications (ac_id a) ''verification completed'') (\<lambda>_.
     let automatic = registration \<noteq> '''' \<and> (case ec_registration_expires c of None \<Rightarrow> False | Some t \<Rightarrow> now < t)
           \<and> coalesce (ec_registration c) '''' = registration_hash cr registration in
     seq commit (\<lambda>_.
     ret ((ac_id a, ac_auth_version a), automatic))))))"

definition confirm_verification_code :: "crypto \<Rightarrow> string \<Rightarrow> string \<Rightarrow> string \<Rightarrow> int \<Rightarrow> ((int \<times> int) \<times> bool) itx" where
  "confirm_verification_code cr email hash registration now = in_tx (
     seq (query (\<lambda>w. account_by_email (\<lambda>a. ac_verified_at a = None) email (working w))) (\<lambda>row.
     seq (require row identity_token_invalid) (\<lambda>a.
     seq (query (\<lambda>w. List.find (\<lambda>c. ec_user c = ac_id a) (email_codes (working w)))) (\<lambda>code_row.
     seq (require code_row identity_token_invalid) (\<lambda>c.
     seq (reject_if (ec_consumed c \<noteq> None \<or> ec_expires c \<le> now \<or> 5 \<le> ec_attempts c) identity_token_invalid) (\<lambda>_.
     if hash \<noteq> ec_hash c then wrong_code (ac_id a) (ec_attempts c) now
     else accept_code cr a c registration now))))))"

section \<open>Confirming a link\<close>

definition usable_token :: "string \<Rightarrow> string \<Rightarrow> int \<Rightarrow> id_token \<Rightarrow> bool" where
  "usable_token purpose hash now x \<longleftrightarrow> it_hash x = hash \<and> it_purpose x = purpose \<and> it_consumed x = None \<and> now < it_expires x"

definition find_token :: "string \<Rightarrow> string \<Rightarrow> int \<Rightarrow> identity_db \<Rightarrow> id_token option" where
  "find_token purpose hash now d = List.find (usable_token purpose hash now) (id_tokens d)"

text \<open>The token is read, its account locked and the token read again under the lock.\<close>

definition claim_token :: "string \<Rightarrow> string \<Rightarrow> int \<Rightarrow> id_token itx" where
  "claim_token purpose hash now =
     seq (query (\<lambda>w. find_token purpose hash now (working w))) (\<lambda>first.
     seq (require first identity_token_invalid) (\<lambda>x.
     seq (query (\<lambda>w. enabled_account (it_user x) (working w))) (\<lambda>locked.
     seq (require locked identity_token_invalid) (\<lambda>_.
     seq (query (\<lambda>w. find_token purpose hash now (working w))) (\<lambda>again.
     require again identity_token_invalid)))))"

text \<open>\<open>UPDATE usuarios \<dots> WHERE id AND activo AND deleted_at IS NULL\<close>, which must reach one row.\<close>

definition update_enabled :: "(account \<Rightarrow> bool) \<Rightarrow> (account \<Rightarrow> account) \<Rightarrow> unit itx" where
  "update_enabled p f =
     seq (exec_ret (\<lambda>w. let d = working w in Inr (rows_affected (\<lambda>a. account_enabled a \<and> p a) (accounts d),
            set_accounts (\<lambda>a. account_enabled a \<and> p a) f d))) (\<lambda>n.
     reject_if (n \<noteq> 1) identity_token_invalid)"

definition revoke_user_sessions :: "int \<Rightarrow> int \<Rightarrow> unit itx" where
  "revoke_user_sessions user t = exec (\<lambda>w. set_sessions (\<lambda>s. se_user s = user) (revoked t) (working w))"

definition verify_email :: "string \<Rightarrow> int \<Rightarrow> unit itx" where
  "verify_email hash now = in_tx (
     seq (claim_token ''VERIFY_EMAIL'' hash now) (\<lambda>x.
     seq (update_enabled (\<lambda>a. ac_id a = it_user x) (\<lambda>a. a\<lparr>ac_verified_at := Some (coalesce (ac_verified_at a) now)\<rparr>)) (\<lambda>_.
     seq (exec (\<lambda>w. set_tokens (\<lambda>y. it_id y = it_id x) (token_consumed now) (working w))) (\<lambda>_.
     seq (exec (\<lambda>w. set_codes (\<lambda>c. ec_user c = it_user x \<and> ec_consumed c = None)
            (\<lambda>c. c\<lparr>ec_consumed := Some now, ec_registration := None, ec_registration_expires := None\<rparr>) (working w))) (\<lambda>_.
     seq (drop_verifications (it_user x) ''verification completed'') (\<lambda>_.
     commit))))))"

definition reset_password :: "string \<Rightarrow> string \<Rightarrow> int \<Rightarrow> unit itx" where
  "reset_password hash password now = in_tx (
     seq (claim_token ''RESET_PASSWORD'' hash now) (\<lambda>x.
     seq (update_enabled (\<lambda>a. ac_id a = it_user x)
            (\<lambda>a. a\<lparr>ac_password := Some password, ac_auth_version := ac_auth_version a + 1\<rparr>)) (\<lambda>_.
     seq (consume_tokens (it_user x) ''RESET_PASSWORD'' now) (\<lambda>_.
     seq (revoke_user_sessions (it_user x) now) (\<lambda>_.
     commit)))))"

definition validate_password_reset :: "string \<Rightarrow> int \<Rightarrow> unit itx" where
  "validate_password_reset hash now =
     seq (query (\<lambda>w. let d = committed w in list_ex (\<lambda>x. usable_token ''RESET_PASSWORD'' hash now x
            \<and> list_ex (\<lambda>a. ac_id a = it_user x \<and> account_enabled a \<and> ac_password a \<noteq> None) (accounts d)) (id_tokens d))) (\<lambda>valid.
     reject_if (\<not> valid) identity_token_invalid)"

section \<open>Changing the address\<close>

definition enqueue_email_change ::
  "crypto \<Rightarrow> string \<Rightarrow> string \<Rightarrow> int \<Rightarrow> int \<Rightarrow> string \<Rightarrow> string \<Rightarrow> int \<Rightarrow> email_message \<Rightarrow> unit itx" where
  "enqueue_email_change cr token_id outbox_id user version target hash expires message = in_tx (
     seq (query (\<lambda>w. enabled_account user (working w))) (\<lambda>row.
     seq (require row (GoError ''no rows in result set'')) (\<lambda>a.
     seq (reject_if (ac_version a \<noteq> version) (Repo ErrPreconditionFailed)) (\<lambda>_.
     seq (reject_if (ci_equal (ac_email a) target) (Repo ErrInvalidRequest)) (\<lambda>_.
     seq (query (\<lambda>w. list_ex (\<lambda>x. ci_equal (ac_email x) target \<and> ac_id x \<noteq> user) (accounts (working w)))) (\<lambda>exists.
     seq (reject_if exists (Repo ErrEmailExists)) (\<lambda>_.
     seq (exec (\<lambda>w. set_outbox (\<lambda>e. ob_user e = Some user \<and> ob_kind e = ''CHANGE_EMAIL'' \<and> ob_state e = ''PENDING'')
            (dropped_pending ''superseded'') (working w))) (\<lambda>_.
     seq (consume_tokens_now user ''CHANGE_EMAIL'') (\<lambda>_.
     seq (insert_id_token ((new_id_token token_id user ''CHANGE_EMAIL'' hash expires)\<lparr>it_pending := Some target, it_version := Some version\<rparr>)) (\<lambda>_.
     seq (sealed_or_fail (encrypt_outbox_token cr (em_token message) outbox_id)) (\<lambda>sealed.
     seq (insert_outbox outbox_id user ''CHANGE_EMAIL'' target (em_subject message) sealed expires) (\<lambda>_.
     commit))))))))))))"

definition update_email :: "id_token \<Rightarrow> int \<Rightarrow> unit itx" where
  "update_email x now =
     seq (exec_ret (\<lambda>w. let d = working w; target = coalesce (it_pending x) '''';
            p = (\<lambda>a. ac_id a = it_user x \<and> Some (ac_version a) = it_version x \<and> account_enabled a) in
          if list_ex p (accounts d) \<and> list_ex (\<lambda>a. ac_id a \<noteq> it_user x \<and> ci_equal (ac_email a) target) (accounts d)
          then Inl (normalize (PgErr (Unique_violation ''usuarios_email_key'')))
          else Inr (rows_affected p (accounts d), set_accounts p (\<lambda>a. a\<lparr>ac_email := target, ac_verified_at := Some now,
                 ac_auth_version := ac_auth_version a + 1, ac_version := ac_version a + 1\<rparr>) d))) (\<lambda>n.
     reject_if (n \<noteq> 1) identity_token_invalid)"

definition confirm_email_change :: "string \<Rightarrow> int \<Rightarrow> unit itx" where
  "confirm_email_change hash now = in_tx (
     seq (claim_token ''CHANGE_EMAIL'' hash now) (\<lambda>x.
     seq (update_email x now) (\<lambda>_.
     seq (revoke_user_sessions (it_user x) now) (\<lambda>_.
     seq (consume_tokens (it_user x) ''CHANGE_EMAIL'' now) (\<lambda>_.
     commit)))))"

section \<open>Renewing the authentication\<close>

text \<open>\<open>seen\<close> in the code is the account as it was when its password or identity was checked.\<close>

definition link_google :: "account \<Rightarrow> string \<Rightarrow> int \<Rightarrow> unit itx" where
  "link_google seen google now =
     seq (exec_ret (\<lambda>w. let d = working w in
            if list_ex (\<lambda>a. ac_id a \<noteq> ac_id seen \<and> ac_google a = Some google) (accounts d) then Inl (Repo ErrGoogleIdentityConflict)
            else Inr ((), set_accounts (\<lambda>a. ac_id a = ac_id seen)
              (\<lambda>a. a\<lparr>ac_google := Some google, ac_verified_at := Some (coalesce (ac_verified_at a) now)\<rparr>) d))) (\<lambda>_.
     seq (exec (\<lambda>w. set_tokens (\<lambda>x. it_user x = ac_id seen \<and> it_consumed x = None) (token_consumed now) (working w))) (\<lambda>_.
     exec (\<lambda>w. set_outbox (\<lambda>e. ob_user e = Some (ac_id seen) \<and> ob_kind e \<in> {''VERIFY_EMAIL'', ''RESET_PASSWORD'', ''CHANGE_EMAIL''}
            \<and> open_state (ob_state e)) (dropped ''identity method changed'') (working w))))"

definition renew_authentication ::
  "account \<Rightarrow> int \<Rightarrow> string \<Rightarrow> string \<Rightarrow> string \<Rightarrow> bool \<Rightarrow> string \<Rightarrow> string \<Rightarrow> int \<Rightarrow> int \<Rightarrow> account itx" where
  "renew_authentication seen expected old_session google google_email link i hash expires now = in_tx (
     seq (query (\<lambda>w. enabled_account (ac_id seen) (working w))) (\<lambda>row.
     seq (require row (Repo ErrNotFound)) (\<lambda>a.
     seq (reject_if (ac_auth_version a \<noteq> expected \<or> ac_auth_version a \<noteq> ac_auth_version seen
            \<or> ac_password a \<noteq> ac_password seen \<or> ac_google a \<noteq> ac_google seen) (Repo ErrNotFound)) (\<lambda>_.
     seq (query (\<lambda>w. list_ex (\<lambda>s. se_id s = old_session \<and> se_user s = ac_id seen \<and> se_revoked s = None
            \<and> db_now w < se_expires s) (sessions (working w)))) (\<lambda>valid.
     seq (reject_if (\<not> valid) (Repo ErrNotFound)) (\<lambda>_.
     seq (if link then
            seq (reject_if (to_lower (ac_email a) \<noteq> google_email \<or> (ac_google a \<noteq> None \<and> ac_google a \<noteq> Some google))
                   (Repo ErrGoogleIdentityConflict)) (\<lambda>_.
            link_google seen google now)
          else ret ()) (\<lambda>_.
     seq (exec (\<lambda>w. set_accounts (\<lambda>x. ac_id x = ac_id seen) (\<lambda>x. x\<lparr>ac_auth_version := ac_auth_version x + 1\<rparr>) (working w))) (\<lambda>_.
     seq (revoke_user_sessions (ac_id seen) now) (\<lambda>_.
     seq (insert_session i (ac_id seen) hash expires i now) (\<lambda>_.
     seq commit (\<lambda>_.
     ret (seen\<lparr>ac_auth_version := ac_auth_version seen + 1,
       ac_verified_at := (if link then Some (coalesce (ac_verified_at seen) now) else ac_verified_at seen)\<rparr>))))))))))))"

end
