(* ===== verification/IdentityTheorems.thy ===== *)
theory IdentityTheorems
  imports EmailTokens TxLogic
begin

text \<open>
  What holds of accounts, sessions and tokens after any history: the constraints of the tables, at
  most one live session in a family and one open token of a kind, and what never goes back
  (a revoked session, a dead family, a consumed token, the version of an account). Operations are
  judged by a Hoare logic whose triples carry the committed database along.
\<close>

section \<open>The invariant\<close>

definition accounts_ok :: "account list \<Rightarrow> bool" where
  "accounts_ok us \<longleftrightarrow> distinct (map ac_id us)
     \<and> (\<forall>a \<in> set us. \<forall>b \<in> set us. ci_equal (ac_email a) (ac_email b) \<longrightarrow> ac_id a = ac_id b)
     \<and> (\<forall>a \<in> set us. 0 < ac_auth_version a)"

definition sessions_ok :: "session list \<Rightarrow> bool" where
  "sessions_ok ss \<longleftrightarrow> distinct (map se_id ss) \<and> distinct (map se_hash ss)
     \<and> (\<forall>s \<in> set ss. se_family s \<in> se_id ` set ss)
     \<and> (\<forall>s \<in> set ss. \<forall>t \<in> set ss. se_family s = se_family t \<longrightarrow> se_user s = se_user t)
     \<and> (\<forall>s \<in> set ss. \<forall>t \<in> set ss. se_family s = se_family t \<longrightarrow> se_revoked s = None \<longrightarrow> se_revoked t = None \<longrightarrow> s = t)"

definition tokens_ok :: "id_token list \<Rightarrow> bool" where
  "tokens_ok xs \<longleftrightarrow> distinct (map it_id xs) \<and> distinct (map it_hash xs) \<and> (\<forall>x \<in> set xs. token_checked x)
     \<and> (\<forall>x \<in> set xs. \<forall>y \<in> set xs. it_user x = it_user y \<longrightarrow> it_purpose x = it_purpose y \<longrightarrow>
          it_consumed x = None \<longrightarrow> it_consumed y = None \<longrightarrow> x = y)"

definition codes_ok :: "email_code list \<Rightarrow> bool" where
  "codes_ok cs \<longleftrightarrow> distinct (map ec_user cs) \<and> (\<forall>c \<in> set cs. 0 \<le> ec_attempts c \<and> ec_attempts c \<le> 5)"

definition mail_ok :: "outbox_email \<Rightarrow> bool" where
  "mail_ok e \<longleftrightarrow> ob_state e \<in> {''PENDING'', ''SENDING'', ''SENT'', ''FAILED''}
     \<and> (if open_state (ob_state e) then ob_ciphertext e \<noteq> None \<and> ob_nonce e \<noteq> None \<and> ob_token_expires e \<noteq> None
        else ob_ciphertext e = None \<and> ob_nonce e = None)
     \<and> (ob_state e = ''SENDING'' \<longleftrightarrow> ob_lease_until e \<noteq> None) \<and> (ob_state e = ''SENDING'' \<longleftrightarrow> ob_lease_owner e \<noteq> None)
     \<and> (ob_state e = ''SENT'' \<longleftrightarrow> ob_sent_at e \<noteq> None) \<and> 0 \<le> ob_attempts e"

definition outbox_ok :: "outbox_email list \<Rightarrow> bool" where
  "outbox_ok es \<longleftrightarrow> distinct (map ob_id es) \<and> (\<forall>e \<in> set es. mail_ok e)"

definition identity_inv :: "identity_db \<Rightarrow> bool" where
  "identity_inv d \<longleftrightarrow> accounts_ok (accounts d) \<and> sessions_ok (sessions d) \<and> tokens_ok (id_tokens d)
     \<and> codes_ok (email_codes d) \<and> outbox_ok (outbox d)"

section \<open>What never goes back\<close>

definition accounts_advance :: "account list \<Rightarrow> account list \<Rightarrow> bool" where
  "accounts_advance us vs \<longleftrightarrow> list_all2 (\<lambda>a b. ac_id b = ac_id a \<and> ac_auth_version a \<le> ac_auth_version b) us vs"

definition family_dead :: "string \<Rightarrow> session list \<Rightarrow> bool" where
  "family_dead f ss \<longleftrightarrow> f \<in> se_family ` set ss \<and> (\<forall>s \<in> set ss. se_family s = f \<longrightarrow> se_revoked s \<noteq> None)"

definition session_follows :: "session \<Rightarrow> session \<Rightarrow> bool" where
  "session_follows s t \<longleftrightarrow> se_id t = se_id s \<and> se_hash t = se_hash s \<and> se_user t = se_user s \<and> se_family t = se_family s
     \<and> (se_revoked s \<noteq> None \<longrightarrow> se_revoked t \<noteq> None)"

definition sessions_advance :: "session list \<Rightarrow> session list \<Rightarrow> bool" where
  "sessions_advance ss ts \<longleftrightarrow> (\<forall>s \<in> set ss. \<exists>t \<in> set ts. session_follows s t) \<and> (\<forall>f. family_dead f ss \<longrightarrow> family_dead f ts)"

definition token_follows :: "id_token \<Rightarrow> id_token \<Rightarrow> bool" where
  "token_follows x y \<longleftrightarrow> it_id y = it_id x \<and> it_hash y = it_hash x \<and> it_user y = it_user x \<and> it_purpose y = it_purpose x
     \<and> (it_consumed x \<noteq> None \<longrightarrow> it_consumed y \<noteq> None)"

definition tokens_advance :: "id_token list \<Rightarrow> id_token list \<Rightarrow> bool" where
  "tokens_advance xs ys \<longleftrightarrow> (\<forall>x \<in> set xs. \<exists>y \<in> set ys. token_follows x y)"

definition advances :: "identity_db \<Rightarrow> identity_db \<Rightarrow> bool" where
  "advances d d1 \<longleftrightarrow> accounts_advance (accounts d) (accounts d1) \<and> sessions_advance (sessions d) (sessions d1)
     \<and> tokens_advance (id_tokens d) (id_tokens d1)"

lemma session_follows_refl [simp]: "session_follows s s"
  by (simp add: session_follows_def)

lemma token_follows_refl [simp]: "token_follows x x"
  by (simp add: token_follows_def)

lemma session_follows_trans: "session_follows s t \<Longrightarrow> session_follows t u \<Longrightarrow> session_follows s u"
  by (simp add: session_follows_def)

lemma token_follows_trans: "token_follows x y \<Longrightarrow> token_follows y z \<Longrightarrow> token_follows x z"
  by (simp add: token_follows_def)

lemma accounts_advance_refl [simp]: "accounts_advance us us"
  by (simp add: accounts_advance_def list_all2_refl)

lemma sessions_advance_refl [simp]: "sessions_advance ss ss"
  unfolding sessions_advance_def by (blast intro: session_follows_refl)

lemma tokens_advance_refl [simp]: "tokens_advance xs xs"
  unfolding tokens_advance_def by (blast intro: token_follows_refl)

lemma advances_refl [simp]: "advances d d"
  by (simp add: advances_def)

lemma accounts_advance_trans:
  assumes "accounts_advance us vs" "accounts_advance vs ws"
  shows "accounts_advance us ws"
  unfolding accounts_advance_def
  by (rule list_all2_trans [OF _ assms [unfolded accounts_advance_def]]) simp

lemma sessions_advance_trans:
  assumes "sessions_advance ss ts" "sessions_advance ts us"
  shows "sessions_advance ss us"
proof -
  have "\<exists>u \<in> set us. session_follows s u" if "s \<in> set ss" for s
  proof -
    from assms(1) that obtain t where "t \<in> set ts" "session_follows s t" by (auto simp: sessions_advance_def)
    moreover from assms(2) this(1) obtain u where "u \<in> set us" "session_follows t u" by (auto simp: sessions_advance_def)
    ultimately show ?thesis using session_follows_trans by blast
  qed
  with assms show ?thesis by (simp add: sessions_advance_def)
qed

lemma tokens_advance_trans:
  assumes "tokens_advance xs ys" "tokens_advance ys zs"
  shows "tokens_advance xs zs"
  unfolding tokens_advance_def
proof
  fix x
  assume "x \<in> set xs"
  with assms(1) obtain y where "y \<in> set ys" "token_follows x y" by (auto simp: tokens_advance_def)
  moreover from assms(2) this(1) obtain z where "z \<in> set zs" "token_follows y z" by (auto simp: tokens_advance_def)
  ultimately show "\<exists>z \<in> set zs. token_follows x z" using token_follows_trans by blast
qed

lemma advances_trans: "advances d d1 \<Longrightarrow> advances d1 d2 \<Longrightarrow> advances d d2"
  unfolding advances_def using accounts_advance_trans sessions_advance_trans tokens_advance_trans by blast

section \<open>Operations that obey it\<close>

text \<open>
  \<open>ongoing d0 d\<close>: the invariant holds of \<open>d\<close> and nothing went back since \<open>d0\<close>. A triple asks it of
  every committed database; its conditions speak of the working copy.
\<close>

definition ongoing :: "identity_db \<Rightarrow> identity_db \<Rightarrow> bool" where
  "ongoing d0 d \<longleftrightarrow> identity_inv d \<and> advances d0 d"

text \<open>A whole operation, from any working copy.\<close>

definition secure :: "'a itx \<Rightarrow> bool" where
  "secure m \<longleftrightarrow> (\<forall>d0. secures (ongoing d0) (\<lambda>_. True) m (\<lambda>_ _. True))"

lemma secure_in_tx:
  assumes "\<And>d0. secures (ongoing d0) (ongoing d0) m (\<lambda>_ _. True)"
  shows "secure (in_tx m)"
  unfolding secure_def using secures_in_tx [OF assms] by blast

lemma secure_pool_exec:
  assumes "\<And>d0 w a d. ongoing d0 (working w) \<Longrightarrow> g w = Inr (a, d) \<Longrightarrow> ongoing d0 d"
  shows "secure (pool_exec g)"
  unfolding secure_def by (intro allI secures_pool_exec, erule assms, assumption)

lemma secure_step:
  assumes "secure m" "step_of m d d1" "identity_inv d"
  shows "identity_inv d1" "advances d d1"
proof -
  have "secures (ongoing d) (\<lambda>_. True) m (\<lambda>_ _. True)" using assms(1) by (simp add: secure_def)
  from secures_step [OF this assms(2)] assms(3) have "ongoing d d1" by (simp add: ongoing_def)
  then show "identity_inv d1" "advances d d1" by (simp_all add: ongoing_def)
qed

end
