(* ===== verification/Outbox.thy ===== *)
theory Outbox
  imports EmailTokens
begin

text \<open>
  The queue of outgoing mail (\<^verbatim>\<open>repository/email.go\<close>, \<^verbatim>\<open>email_code.go\<close>): a worker claims rows under a
  lease, checks that what a row carries is still valid, and marks it sent, failed or deferred.
  What a claim reads of an invitation for the text of its mail is left out.
\<close>

definition one_minute :: int where
  "one_minute = 60000000000"

definition expire_outbox :: "unit itx" where
  "expire_outbox = pool_exec (\<lambda>w. Inr ((), set_outbox
     (\<lambda>e. open_state (ob_state e) \<and> (case ob_token_expires e of None \<Rightarrow> False | Some t \<Rightarrow> t \<le> db_now w))
     (dropped ''identity token expired'') (working w)))"

definition claimable :: "int \<Rightarrow> outbox_email \<Rightarrow> bool" where
  "claimable t e \<longleftrightarrow> (case ob_token_expires e of None \<Rightarrow> False | Some x \<Rightarrow> t < x)
     \<and> (ob_state e = ''PENDING'' \<and> ob_available e \<le> t
        \<or> ob_state e = ''SENDING'' \<and> (case ob_lease_until e of None \<Rightarrow> False | Some l \<Rightarrow> l < t))"

definition leased :: "string \<Rightarrow> int \<Rightarrow> outbox_email \<Rightarrow> outbox_email" where
  "leased owner t e = e\<lparr>ob_state := ''SENDING'', ob_attempts := ob_attempts e + 1,
     ob_lease_until := Some (t + 2 * one_minute), ob_lease_owner := Some owner\<rparr>"

definition claim_candidates :: "nat \<Rightarrow> int \<Rightarrow> identity_db \<Rightarrow> string list" where
  "claim_candidates limit t d = map ob_id (take limit (sort_key ob_created (filter (claimable t) (outbox d))))"

definition claim_emails :: "nat \<Rightarrow> string \<Rightarrow> outbox_email list itx" where
  "claim_emails limit owner =
     seq expire_outbox (\<lambda>_.
     pool_exec (\<lambda>w. let d = working w; ids = claim_candidates limit (db_now w) d;
         d1 = set_outbox (\<lambda>e. ob_id e \<in> set ids) (leased owner (db_now w)) d in
       Inr (filter (\<lambda>e. ob_id e \<in> set ids) (outbox d1), d1)))"

definition held :: "string \<Rightarrow> string \<Rightarrow> outbox_email \<Rightarrow> bool" where
  "held i owner e \<longleftrightarrow> ob_id e = i \<and> ob_state e = ''SENDING'' \<and> ob_lease_owner e = Some owner"

definition sent_email :: "int \<Rightarrow> outbox_email \<Rightarrow> outbox_email" where
  "sent_email t e = e\<lparr>ob_state := ''SENT'', ob_sent_at := Some t, ob_lease_until := None, ob_lease_owner := None,
     ob_error := None, ob_ciphertext := None, ob_nonce := None, ob_token_expires := None\<rparr>"

definition mark_email_sent :: "string \<Rightarrow> string \<Rightarrow> unit itx" where
  "mark_email_sent i owner =
     seq (pool_exec (\<lambda>w. let d = working w in
       Inr (rows_affected (held i owner) (outbox d), set_outbox (held i owner) (sent_email (db_now w)) d))) (\<lambda>n.
     reject_if (n \<noteq> 1) (Repo ErrNotFound))"

definition failed_email :: "string \<Rightarrow> int \<Rightarrow> string \<Rightarrow> outbox_email \<Rightarrow> outbox_email" where
  "failed_email state available message e = (let over = state = ''FAILED'' in
     e\<lparr>ob_state := state, ob_available := available, ob_lease_until := None, ob_lease_owner := None, ob_error := Some message,
       ob_ciphertext := (if over then None else ob_ciphertext e), ob_nonce := (if over then None else ob_nonce e),
       ob_token_expires := (if over then None else ob_token_expires e)\<rparr>)"

definition mark_email_failed :: "string \<Rightarrow> string \<Rightarrow> int \<Rightarrow> string \<Rightarrow> unit itx" where
  "mark_email_failed i owner attempts message =
     (let delay = 2 ^ nat (min attempts 8) * one_minute;
          state = (if 5 \<le> attempts then ''FAILED'' else ''PENDING'') in
     seq now_app (\<lambda>t.
     seq (pool_exec (\<lambda>w. let d = working w in
       Inr (rows_affected (held i owner) (outbox d),
         set_outbox (held i owner) (failed_email state (t + delay) (take 1000 message)) d))) (\<lambda>n.
     reject_if (n \<noteq> 1) (Repo ErrNotFound))))"

definition deferred_email :: "int \<Rightarrow> outbox_email \<Rightarrow> outbox_email" where
  "deferred_email available e = e\<lparr>ob_state := ''PENDING'', ob_attempts := max (ob_attempts e - 1) 0, ob_available := available,
     ob_lease_until := None, ob_lease_owner := None\<rparr>"

definition defer_email :: "string \<Rightarrow> string \<Rightarrow> int \<Rightarrow> unit itx" where
  "defer_email i owner retry =
     (let seconds = (if retry < 1 then 1 else if 3600 < retry then 3600 else retry) in
     seq now_app (\<lambda>t.
     pool_exec (\<lambda>w. Inr ((), set_outbox (held i owner) (deferred_email (t + seconds * 1000000000)) (working w)))))"

section \<open>Is what the row carries still valid?\<close>

definition validate_claimed_code :: "crypto \<Rightarrow> outbox_email \<Rightarrow> string \<Rightarrow> string \<Rightarrow> unit itx" where
  "validate_claimed_code cr item owner code =
     seq (query (\<lambda>w. let d = committed w in
       list_ex (\<lambda>e. held (ob_id item) owner e \<and> ob_kind e = ''VERIFY_EMAIL''
         \<and> list_ex (\<lambda>c. ob_user e = Some (ec_user c) \<and> ec_hash c = code_hash cr (ob_to item) code \<and> ec_consumed c = None
             \<and> ec_attempts c < 5 \<and> db_now w < ec_expires c
             \<and> list_ex (\<lambda>u. ac_id u = ec_user c \<and> ac_verified_at u = None \<and> account_enabled u
                 \<and> ci_equal (ac_email u) (ob_to e)) (accounts d)) (email_codes d)) (outbox d))) (\<lambda>valid.
     reject_if (\<not> valid) identity_token_invalid)"

definition validate_claimed_change :: "crypto \<Rightarrow> outbox_email \<Rightarrow> string \<Rightarrow> string \<Rightarrow> unit itx" where
  "validate_claimed_change cr item owner token =
     seq (query (\<lambda>w. let d = committed w in
       list_ex (\<lambda>e. held (ob_id item) owner e
         \<and> list_ex (\<lambda>x. ob_user e = Some (it_user x) \<and> it_pending x \<noteq> None \<and> ci_equal (ob_to e) (coalesce (it_pending x) '''')
             \<and> it_hash x = cr_sha cr token \<and> it_purpose x = ''CHANGE_EMAIL'' \<and> it_consumed x = None
             \<and> db_now w < it_expires x) (id_tokens d)) (outbox d))) (\<lambda>valid.
     reject_if (\<not> valid) identity_token_invalid)"

text \<open>The kinds of mail of an identity; the other kinds are checked against the tables of their components.\<close>

definition validate_claimed_identity :: "crypto \<Rightarrow> outbox_email \<Rightarrow> string \<Rightarrow> string \<Rightarrow> unit itx" where
  "validate_claimed_identity cr item owner token =
     (if ob_kind item = ''VERIFY_EMAIL'' \<and> has_prefix token ''code:''
      then validate_claimed_code cr item owner (trim_prefix token ''code:'')
      else if ob_kind item = ''CHANGE_EMAIL'' then validate_claimed_change cr item owner token
      else ret ())"

definition verification_activation_token :: "crypto \<Rightarrow> outbox_email \<Rightarrow> string \<Rightarrow> string itx" where
  "verification_activation_token cr item code =
     (let token = activation_token cr (ob_to item) code (ob_id item) in
     seq (query (\<lambda>w. list_ex (\<lambda>x. it_hash x = registration_hash cr token \<and> it_purpose x = ''VERIFY_EMAIL''
            \<and> it_consumed x = None \<and> db_now w < it_expires x) (id_tokens (committed w)))) (\<lambda>exists.
     ret (if exists then token else '''')))"

end
