(* ===== verification/IdentitySteps.thy ===== *)
theory IdentitySteps
  imports IdentityTheorems Outbox
begin

text \<open>
  Every operation on accounts, sessions, tokens, codes and outgoing mail keeps the invariant of
  the identity tables and takes nothing back.
\<close>

section \<open>Updates of one table\<close>

lemma ongoing_sessions:
  "ongoing d0 d \<Longrightarrow> sessions_ok ss \<Longrightarrow> sessions_advance (sessions d) ss \<Longrightarrow> ongoing d0 (d\<lparr>sessions := ss\<rparr>)"
  by (auto simp: ongoing_def identity_inv_def advances_def intro: sessions_advance_trans)

lemma ongoing_accounts:
  "ongoing d0 d \<Longrightarrow> accounts_ok us \<Longrightarrow> accounts_advance (accounts d) us \<Longrightarrow> ongoing d0 (d\<lparr>accounts := us\<rparr>)"
  by (auto simp: ongoing_def identity_inv_def advances_def intro: accounts_advance_trans)

lemma ongoing_tokens:
  "ongoing d0 d \<Longrightarrow> tokens_ok xs \<Longrightarrow> tokens_advance (id_tokens d) xs \<Longrightarrow> ongoing d0 (d\<lparr>id_tokens := xs\<rparr>)"
  by (auto simp: ongoing_def identity_inv_def advances_def intro: tokens_advance_trans)

lemma ongoing_codes: "ongoing d0 d \<Longrightarrow> codes_ok cs \<Longrightarrow> ongoing d0 (d\<lparr>email_codes := cs\<rparr>)"
  by (auto simp: ongoing_def identity_inv_def advances_def)

lemma ongoing_outbox: "ongoing d0 d \<Longrightarrow> outbox_ok es \<Longrightarrow> ongoing d0 (d\<lparr>outbox := es\<rparr>)"
  by (auto simp: ongoing_def identity_inv_def advances_def)

lemma ongoing_brands: "ongoing d0 d \<Longrightarrow> ongoing d0 (d\<lparr>brands := bs\<rparr>)"
  by (auto simp: ongoing_def identity_inv_def advances_def)

lemma ongoingD:
  assumes "ongoing d0 d"
  shows "accounts_ok (accounts d)" "sessions_ok (sessions d)" "tokens_ok (id_tokens d)" "codes_ok (email_codes d)" "outbox_ok (outbox d)"
  using assms by (simp_all add: ongoing_def identity_inv_def)

lemma map_update_where_same:
  "(\<And>x. k (f x) = k x) \<Longrightarrow> map k (update_where p f xs) = map k xs"
  by (induction xs) auto

lemma mem_update_where: "y \<in> set (update_where p f xs) \<longleftrightarrow> (\<exists>x \<in> set xs. y = (if p x then f x else x))"
  by (auto simp: set_update_where)

subsection \<open>Sessions\<close>

lemma sessions_okD:
  assumes "sessions_ok ss"
  shows "distinct (map se_id ss)" "distinct (map se_hash ss)" "s \<in> set ss \<Longrightarrow> se_family s \<in> se_id ` set ss"
    "s \<in> set ss \<Longrightarrow> t \<in> set ss \<Longrightarrow> se_family s = se_family t \<Longrightarrow> se_user s = se_user t"
    "s \<in> set ss \<Longrightarrow> t \<in> set ss \<Longrightarrow> se_family s = se_family t \<Longrightarrow> se_revoked s = None \<Longrightarrow> se_revoked t = None \<Longrightarrow> s = t"
  using assms unfolding sessions_ok_def by blast+

lemma sessions_okI:
  assumes "distinct (map se_id ss)" "distinct (map se_hash ss)" "\<And>s. s \<in> set ss \<Longrightarrow> se_family s \<in> se_id ` set ss"
    "\<And>s t. s \<in> set ss \<Longrightarrow> t \<in> set ss \<Longrightarrow> se_family s = se_family t \<Longrightarrow> se_user s = se_user t"
    "\<And>s t. s \<in> set ss \<Longrightarrow> t \<in> set ss \<Longrightarrow> se_family s = se_family t \<Longrightarrow> se_revoked s = None \<Longrightarrow> se_revoked t = None \<Longrightarrow> s = t"
  shows "sessions_ok ss"
  using assms unfolding sessions_ok_def by blast

lemma family_deadD: "family_dead f ss \<Longrightarrow> s \<in> set ss \<Longrightarrow> se_family s = f \<Longrightarrow> se_revoked s \<noteq> None"
  unfolding family_dead_def by blast

lemma sessions_follow:
  assumes "\<And>s. session_follows s (f s)"
  shows "sessions_advance ss (update_where p f ss)"
  unfolding sessions_advance_def
proof (intro conjI ballI allI impI)
  fix s
  assume "s \<in> set ss"
  then have "(if p s then f s else s) \<in> set (update_where p f ss)" by (auto simp: mem_update_where)
  moreover have "session_follows s (if p s then f s else s)" using assms by simp
  ultimately show "\<exists>t \<in> set (update_where p f ss). session_follows s t" by blast
next
  fix g
  assume dead: "family_dead g ss"
  have k: "se_family (f s) = se_family s" "se_revoked s \<noteq> None \<Longrightarrow> se_revoked (f s) \<noteq> None" for s
    using assms [of s] by (simp_all add: session_follows_def)
  show "family_dead g (update_where p f ss)"
    unfolding family_dead_def
  proof (intro conjI ballI impI)
    from dead have "g \<in> se_family ` set ss" by (simp add: family_dead_def)
    moreover have "map se_family (update_where p f ss) = map se_family ss" by (rule map_update_where_same) (rule k)
    ultimately show "g \<in> se_family ` set (update_where p f ss)" by (metis set_map)
  next
    fix t
    assume t: "t \<in> set (update_where p f ss)" "se_family t = g"
    then obtain s where s: "s \<in> set ss" "t = (if p s then f s else s)" by (auto simp: mem_update_where)
    with t(2) k(1) have "se_family s = g" by (simp split: if_splits)
    from family_deadD [OF dead s(1) this] k(2) s(2) show "se_revoked t \<noteq> None" by simp
  qed
qed

lemma sessions_revoke:
  assumes ok: "sessions_ok ss" and f: "\<And>s. session_follows s (f s)" "\<And>s. se_revoked (f s) \<noteq> None"
  shows "sessions_ok (update_where p f ss)"
proof -
  have k: "se_id (f s) = se_id s" "se_hash (f s) = se_hash s" "se_family (f s) = se_family s" "se_user (f s) = se_user s" for s
    using f(1) [of s] by (simp_all add: session_follows_def)
  have m: "map se_id (update_where p f ss) = map se_id ss" "map se_hash (update_where p f ss) = map se_hash ss"
    by (rule map_update_where_same, rule k)+
  have i: "se_id ` set (update_where p f ss) = se_id ` set ss" using m(1) by (metis set_map)
  have mem: "\<exists>s \<in> set ss. se_family s = se_family x \<and> se_user s = se_user x \<and> (se_revoked x = None \<longrightarrow> s = x)"
    if x: "x \<in> set (update_where p f ss)" for x
  proof -
    from x obtain s where s: "s \<in> set ss" "x = (if p s then f s else s)" by (auto simp: mem_update_where)
    show ?thesis by (intro bexI [OF _ s(1)]) (use k f(2) [of s] s(2) in auto)
  qed
  note o = sessions_okD [OF ok]
  show ?thesis
  proof (rule sessions_okI)
    show "distinct (map se_id (update_where p f ss))" "distinct (map se_hash (update_where p f ss))" using m o(1,2) by simp_all
    fix s
    assume s: "s \<in> set (update_where p f ss)"
    from mem [OF s] obtain s0 where s0: "s0 \<in> set ss" "se_family s0 = se_family s" "se_user s0 = se_user s"
      "se_revoked s = None \<longrightarrow> s0 = s" by (elim bexE conjE)
    from o(3) [OF s0(1)] s0(2) show "se_family s \<in> se_id ` set (update_where p f ss)" unfolding i by simp
    fix t
    assume t: "t \<in> set (update_where p f ss)" and eq: "se_family s = se_family t"
    from mem [OF t] obtain t0 where t0: "t0 \<in> set ss" "se_family t0 = se_family t" "se_user t0 = se_user t"
      "se_revoked t = None \<longrightarrow> t0 = t" by (elim bexE conjE)
    from o(4) [OF s0(1) t0(1)] s0 t0 eq show "se_user s = se_user t" by simp
    assume live: "se_revoked s = None" "se_revoked t = None"
    with s0(4) t0(4) have "s0 = s" "t0 = t" by simp_all
    with o(5) [OF s0(1) t0(1)] eq live show "s = t" by simp
  qed
qed

lemma revoked_follows: "session_follows s (revoked t s)" "se_revoked (revoked t s) \<noteq> None"
  by (simp_all add: session_follows_def revoked_def)

lemma ongoing_revoke: "ongoing d0 d \<Longrightarrow> ongoing d0 (set_sessions p (revoked t) d)"
  unfolding set_sessions_def
  by (intro ongoing_sessions sessions_revoke sessions_follow revoked_follows) (auto dest: ongoingD)

text \<open>A new family.\<close>

lemma sessions_add_root:
  assumes ok: "sessions_ok ss" and t: "se_id t \<notin> se_id ` set ss" "se_hash t \<notin> se_hash ` set ss" "se_family t = se_id t"
  shows "sessions_ok (ss @ [t])" "sessions_advance ss (ss @ [t])"
proof -
  note o = sessions_okD [OF ok]
  have fam: "se_family s \<noteq> se_family t" if "s \<in> set ss" for s
    using o(3) [OF that] t(1,3) by auto
  show "sessions_ok (ss @ [t])"
  proof (rule sessions_okI)
    show "distinct (map se_id (ss @ [t]))" "distinct (map se_hash (ss @ [t]))" using o(1,2) t(1,2) by simp_all
    show "se_family s \<in> se_id ` set (ss @ [t])" if "s \<in> set (ss @ [t])" for s
      using that o(3) [of s] t(3) by auto
    fix s u
    assume su: "s \<in> set (ss @ [t])" "u \<in> set (ss @ [t])" "se_family s = se_family u"
    show "se_user s = se_user u" using su fam [of s] fam [of u] o(4) [of s u] by auto
    assume "se_revoked s = None" "se_revoked u = None"
    with su show "s = u" using fam [of s] fam [of u] o(5) [of s u] by auto
  qed
  show "sessions_advance ss (ss @ [t])"
    unfolding sessions_advance_def
  proof (intro conjI ballI allI impI)
    fix s
    assume "s \<in> set ss"
    then show "\<exists>u \<in> set (ss @ [t]). session_follows s u" by (intro bexI [of _ s]) auto
  next
    fix f
    assume dead: "family_dead f ss"
    then obtain s where "s \<in> set ss" "f = se_family s" by (auto simp: family_dead_def)
    with fam have "f \<noteq> se_family t" by simp
    with dead show "family_dead f (ss @ [t])" by (auto simp: family_dead_def)
  qed
qed

text \<open>A session replaced by another of its family.\<close>

lemma sessions_replace:
  assumes ok: "sessions_ok ss" and s: "s \<in> set ss" "se_revoked s = None"
    and t: "se_id t \<notin> se_id ` set ss" "se_hash t \<notin> se_hash ` set ss" "se_family t = se_family s" "se_user t = se_user s"
    and f: "\<And>x. session_follows x (f x)" "\<And>x. se_revoked (f x) \<noteq> None"
  shows "sessions_ok (update_where (\<lambda>x. se_id x = se_id s) f (ss @ [t]))"
    "sessions_advance ss (update_where (\<lambda>x. se_id x = se_id s) f (ss @ [t]))"
proof -
  have ts: "se_id t \<noteq> se_id s" using s(1) t(1) by auto
  define ss1 where "ss1 = update_where (\<lambda>x. se_id x = se_id s) f ss"
  have eq: "update_where (\<lambda>x. se_id x = se_id s) f (ss @ [t]) = ss1 @ [t]"
    using ts by (simp add: ss1_def update_where_def)
  have k: "se_id (f x) = se_id x" "se_hash (f x) = se_hash x" "se_family (f x) = se_family x" "se_user (f x) = se_user x" for x
    using f(1) [of x] by (simp_all add: session_follows_def)
  have m: "map se_id ss1 = map se_id ss" "map se_hash ss1 = map se_hash ss"
    unfolding ss1_def by (rule map_update_where_same, rule k)+
  have i: "se_id ` set ss1 = se_id ` set ss" "se_hash ` set ss1 = se_hash ` set ss" using m by (metis set_map)+
  have ok1: "sessions_ok ss1" unfolding ss1_def by (rule sessions_revoke [OF ok f])
  have adv: "sessions_advance ss ss1" unfolding ss1_def by (rule sessions_follow [OF f(1)])
  have s1: "f s \<in> set ss1" using s(1) by (auto simp: ss1_def mem_update_where)
  note o = sessions_okD [OF ok] and o1 = sessions_okD [OF ok1]
  have dead: "se_revoked x \<noteq> None" if x: "x \<in> set ss1" "se_family x = se_family s" for x
  proof -
    from x(1) obtain y where y: "y \<in> set ss" "x = (if se_id y = se_id s then f y else y)" by (auto simp: ss1_def mem_update_where)
    show ?thesis
    proof (cases "se_id y = se_id s")
      case True
      with y f(2) show ?thesis by simp
    next
      case False
      with y have "x = y" "y \<noteq> s" by auto
      with o(5) [OF y(1) s(1)] s(2) x(2) show ?thesis by auto
    qed
  qed
  have user: "se_user x = se_user s" if "x \<in> set ss1" "se_family x = se_family s" for x
    using o1(4) [OF that(1) s1] that(2) k(3,4) by simp
  show "sessions_ok (update_where (\<lambda>x. se_id x = se_id s) f (ss @ [t]))"
    unfolding eq
  proof (rule sessions_okI)
    show "distinct (map se_id (ss1 @ [t]))" "distinct (map se_hash (ss1 @ [t]))" using o1(1,2) t(1,2) i by simp_all
    show "se_family x \<in> se_id ` set (ss1 @ [t])" if "x \<in> set (ss1 @ [t])" for x
      using that o1(3) [of x] o(3) [OF s(1)] t(3) i(1) by auto
    fix x y
    assume xy: "x \<in> set (ss1 @ [t])" "y \<in> set (ss1 @ [t])" "se_family x = se_family y"
    show "se_user x = se_user y" using xy user [of x] user [of y] t(3,4) o1(4) [of x y] by auto
    assume "se_revoked x = None" "se_revoked y = None"
    with xy show "x = y" using dead [of x] dead [of y] t(3) o1(5) [of x y] by auto
  qed
  show "sessions_advance ss (update_where (\<lambda>x. se_id x = se_id s) f (ss @ [t]))"
    unfolding eq sessions_advance_def
  proof (intro conjI ballI allI impI)
    fix x
    assume "x \<in> set ss"
    with adv show "\<exists>u \<in> set (ss1 @ [t]). session_follows x u" by (auto simp: sessions_advance_def)
  next
    fix g
    assume g: "family_dead g ss"
    with s have "g \<noteq> se_family s" by (auto simp: family_dead_def)
    moreover from adv g have "family_dead g ss1" by (simp add: sessions_advance_def)
    ultimately show "family_dead g (ss1 @ [t])" using t(3) by (auto simp: family_dead_def)
  qed
qed

subsection \<open>Accounts\<close>

lemma accounts_okD:
  assumes "accounts_ok us"
  shows "distinct (map ac_id us)" "a \<in> set us \<Longrightarrow> b \<in> set us \<Longrightarrow> ci_equal (ac_email a) (ac_email b) \<Longrightarrow> ac_id a = ac_id b"
    "a \<in> set us \<Longrightarrow> 0 < ac_auth_version a"
  using assms unfolding accounts_ok_def by blast+

text \<open>An update that keeps every address, and one that gives a single account a free address.\<close>

lemma accounts_follow:
  assumes "\<And>a. ac_id (f a) = ac_id a \<and> ac_auth_version a \<le> ac_auth_version (f a)"
  shows "accounts_advance us (update_where p f us)"
  unfolding accounts_advance_def update_where_def list_all2_map2
  by (rule list_all2_refl) (use assms in simp)

lemma accounts_update:
  assumes ok: "accounts_ok us" and f: "\<And>a. ac_id (f a) = ac_id a \<and> ac_auth_version a \<le> ac_auth_version (f a)"
    and mail: "\<And>a. ac_email (f a) = ac_email a"
  shows "accounts_ok (update_where p f us)"
  unfolding accounts_ok_def
proof (intro conjI ballI impI)
  note o = accounts_okD [OF ok]
  show "distinct (map ac_id (update_where p f us))" using o(1) f by (simp add: map_update_where_same)
  fix a
  assume "a \<in> set (update_where p f us)"
  then obtain x where x: "x \<in> set us" "a = (if p x then f x else x)" by (auto simp: mem_update_where)
  show "0 < ac_auth_version a" using x o(3) [OF x(1)] f [of x] by auto
  fix b
  assume "b \<in> set (update_where p f us)" and eq: "ci_equal (ac_email a) (ac_email b)"
  then obtain y where y: "y \<in> set us" "b = (if p y then f y else y)" by (auto simp: mem_update_where)
  have "ci_equal (ac_email x) (ac_email y)" using eq x(2) y(2) mail by (simp split: if_splits)
  from o(2) [OF x(1) y(1) this] x(2) y(2) f show "ac_id a = ac_id b" by simp
qed

lemma accounts_new_email:
  assumes ok: "accounts_ok us" and f: "\<And>a. ac_id (f a) = ac_id a \<and> ac_auth_version a \<le> ac_auth_version (f a)"
    and mail: "\<And>a. ac_email (f a) = target" and p: "\<And>a. p a \<Longrightarrow> ac_id a = user"
    and free: "\<And>a. a \<in> set us \<Longrightarrow> ac_id a \<noteq> user \<Longrightarrow> \<not> ci_equal (ac_email a) target"
  shows "accounts_ok (update_where p f us)"
  unfolding accounts_ok_def
proof (intro conjI ballI impI)
  note o = accounts_okD [OF ok]
  show "distinct (map ac_id (update_where p f us))" using o(1) f by (simp add: map_update_where_same)
  fix a
  assume "a \<in> set (update_where p f us)"
  then obtain x where x: "x \<in> set us" "a = (if p x then f x else x)" by (auto simp: mem_update_where)
  show "0 < ac_auth_version a" using x o(3) [OF x(1)] f [of x] by auto
  fix b
  assume "b \<in> set (update_where p f us)" and eq: "ci_equal (ac_email a) (ac_email b)"
  then obtain y where y: "y \<in> set us" "b = (if p y then f y else y)" by (auto simp: mem_update_where)
  have "ac_id x = ac_id y"
  proof (cases "p x"; cases "p y")
    assume "p x" "p y"
    with p show ?thesis by metis
  next
    assume px: "p x" and py: "\<not> p y"
    with eq x(2) y(2) mail have "ci_equal (ac_email y) target" by (simp add: ci_equal_def)
    with free [OF y(1)] p [OF px] show ?thesis by metis
  next
    assume px: "\<not> p x" and py: "p y"
    with eq x(2) y(2) mail have "ci_equal (ac_email x) target" by (simp add: ci_equal_def)
    with free [OF x(1)] p [OF py] show ?thesis by metis
  next
    assume "\<not> p x" "\<not> p y"
    with eq x(2) y(2) o(2) [OF x(1) y(1)] show ?thesis by simp
  qed
  with x(2) y(2) f show "ac_id a = ac_id b" by simp
qed

lemma ongoing_account_update:
  assumes "ongoing d0 d" "\<And>a. ac_id (f a) = ac_id a \<and> ac_auth_version a \<le> ac_auth_version (f a)" "\<And>a. ac_email (f a) = ac_email a"
  shows "ongoing d0 (set_accounts p f d)"
  unfolding set_accounts_def
  by (rule ongoing_accounts [OF assms(1) accounts_update [OF ongoingD(1) [OF assms(1)] assms(2,3)] accounts_follow [OF assms(2)]])

subsection \<open>Tokens\<close>

lemma tokens_okD:
  assumes "tokens_ok xs"
  shows "distinct (map it_id xs)" "distinct (map it_hash xs)" "x \<in> set xs \<Longrightarrow> token_checked x"
    "x \<in> set xs \<Longrightarrow> y \<in> set xs \<Longrightarrow> it_user x = it_user y \<Longrightarrow> it_purpose x = it_purpose y \<Longrightarrow>
     it_consumed x = None \<Longrightarrow> it_consumed y = None \<Longrightarrow> x = y"
  using assms unfolding tokens_ok_def by blast+

lemma tokens_okI:
  assumes "distinct (map it_id xs)" "distinct (map it_hash xs)" "\<And>x. x \<in> set xs \<Longrightarrow> token_checked x"
    "\<And>x y. x \<in> set xs \<Longrightarrow> y \<in> set xs \<Longrightarrow> it_user x = it_user y \<Longrightarrow> it_purpose x = it_purpose y \<Longrightarrow>
     it_consumed x = None \<Longrightarrow> it_consumed y = None \<Longrightarrow> x = y"
  shows "tokens_ok xs"
  using assms unfolding tokens_ok_def by blast

definition no_open_token :: "int \<Rightarrow> string \<Rightarrow> identity_db \<Rightarrow> bool" where
  "no_open_token user purpose d \<longleftrightarrow> (\<forall>x \<in> set (id_tokens d). it_user x = user \<longrightarrow> it_purpose x = purpose \<longrightarrow> it_consumed x \<noteq> None)"

lemma token_checked_consumed [simp]: "token_checked (token_consumed t x) = token_checked x"
  by (simp add: token_checked_def token_consumed_def)

lemma tokens_consume:
  assumes ok: "tokens_ok xs"
  shows "tokens_ok (update_where p (token_consumed t) xs)" "tokens_advance xs (update_where p (token_consumed t) xs)"
proof -
  note o = tokens_okD [OF ok]
  let ?ys = "update_where p (token_consumed t) xs"
  have mem: "\<exists>x \<in> set xs. y = (if p x then token_consumed t x else x)" if "y \<in> set ?ys" for y
    using that by (simp add: mem_update_where)
  show "tokens_ok ?ys"
  proof (rule tokens_okI)
    show "distinct (map it_id ?ys)" "distinct (map it_hash ?ys)"
      using o(1,2) by (simp_all add: map_update_where_same token_consumed_def)
    fix y
    assume y: "y \<in> set ?ys"
    obtain x where x: "x \<in> set xs" "y = (if p x then token_consumed t x else x)" using mem [OF y] by (elim bexE)
    from o(3) [OF x(1)] x(2) show "token_checked y" by simp
    fix z
    assume z: "z \<in> set ?ys" and eq: "it_user y = it_user z" "it_purpose y = it_purpose z" "it_consumed y = None" "it_consumed z = None"
    obtain x2 where x2: "x2 \<in> set xs" "z = (if p x2 then token_consumed t x2 else x2)" using mem [OF z] by (elim bexE)
    from x(2) x2(2) eq(3,4) have "y = x" "z = x2" by (auto simp: token_consumed_def split: if_splits)
    with o(4) [OF x(1) x2(1)] eq show "y = z" by simp
  qed
  show "tokens_advance xs ?ys"
    unfolding tokens_advance_def
  proof
    fix x
    assume "x \<in> set xs"
    then have "(if p x then token_consumed t x else x) \<in> set ?ys" by (auto simp: mem_update_where)
    then show "\<exists>y \<in> set ?ys. token_follows x y"
      by (rule bexI [rotated]) (simp add: token_follows_def token_consumed_def)
  qed
qed

lemma ongoing_consume: "ongoing d0 d \<Longrightarrow> ongoing d0 (set_tokens p (token_consumed t) d)"
  unfolding set_tokens_def by (intro ongoing_tokens tokens_consume) (auto dest: ongoingD)

lemma tokens_add:
  assumes ok: "tokens_ok xs" and x: "it_id x \<notin> it_id ` set xs" "it_hash x \<notin> it_hash ` set xs" "token_checked x"
    and none: "\<And>y. y \<in> set xs \<Longrightarrow> it_user y = it_user x \<Longrightarrow> it_purpose y = it_purpose x \<Longrightarrow> it_consumed y \<noteq> None"
  shows "tokens_ok (xs @ [x])" "tokens_advance xs (xs @ [x])"
proof -
  note o = tokens_okD [OF ok]
  show "tokens_ok (xs @ [x])"
  proof (rule tokens_okI)
    show "distinct (map it_id (xs @ [x]))" "distinct (map it_hash (xs @ [x]))" using o(1,2) x(1,2) by simp_all
    show "token_checked y" if "y \<in> set (xs @ [x])" for y using that o(3) [of y] x(3) by auto
    fix y z
    assume yz: "y \<in> set (xs @ [x])" "z \<in> set (xs @ [x])" "it_user y = it_user z" "it_purpose y = it_purpose z"
      "it_consumed y = None" "it_consumed z = None"
    show "y = z" using yz none [of y] none [of z] o(4) [of y z] by auto
  qed
  show "tokens_advance xs (xs @ [x])"
    unfolding tokens_advance_def using token_follows_refl by (metis Un_iff set_append)
qed

subsection \<open>Codes and outgoing mail\<close>

lemma codes_update:
  assumes ok: "codes_ok cs" and f: "\<And>c. c \<in> set cs \<Longrightarrow> p c \<Longrightarrow> ec_user (f c) = ec_user c \<and> 0 \<le> ec_attempts (f c) \<and> ec_attempts (f c) \<le> 5"
  shows "codes_ok (update_where p f cs)"
proof -
  have "map ec_user (update_where p f cs) = map ec_user cs"
    using f by (auto simp: update_where_def)
  with ok f show ?thesis by (auto simp: codes_ok_def mem_update_where)
qed

lemma outbox_update:
  assumes ok: "outbox_ok es" and f: "\<And>e. e \<in> set es \<Longrightarrow> p e \<Longrightarrow> ob_id (f e) = ob_id e \<and> mail_ok (f e)"
  shows "outbox_ok (update_where p f es)"
proof -
  have "map ob_id (update_where p f es) = map ob_id es"
    using f by (auto simp: update_where_def)
  with ok f show ?thesis by (auto simp: outbox_ok_def mem_update_where)
qed

lemma ongoing_outbox_update:
  assumes "ongoing d0 d" "\<And>e. mail_ok e \<Longrightarrow> p e \<Longrightarrow> ob_id (f e) = ob_id e \<and> mail_ok (f e)"
  shows "ongoing d0 (set_outbox p f d)"
  unfolding set_outbox_def
  by (rule ongoing_outbox [OF assms(1) outbox_update [OF ongoingD(5) [OF assms(1)]]])
    (use assms ongoingD(5) [OF assms(1)] in \<open>simp add: outbox_ok_def\<close>)

lemma mail_changes:
  "mail_ok e \<Longrightarrow> open_state (ob_state e) \<Longrightarrow> ob_id (dropped r e) = ob_id e \<and> mail_ok (dropped r e)"
  "mail_ok e \<Longrightarrow> ob_state e = ''PENDING'' \<Longrightarrow> ob_id (dropped_pending r e) = ob_id e \<and> mail_ok (dropped_pending r e)"
  "mail_ok e \<Longrightarrow> ob_state e = ''PENDING'' \<or> ob_state e = ''SENDING'' \<Longrightarrow> ob_id (leased o1 t e) = ob_id e \<and> mail_ok (leased o1 t e)"
  "mail_ok e \<Longrightarrow> held i o1 e \<Longrightarrow> ob_id (sent_email t e) = ob_id e \<and> mail_ok (sent_email t e)"
  "mail_ok e \<Longrightarrow> held i o1 e \<Longrightarrow> st = ''PENDING'' \<or> st = ''FAILED'' \<Longrightarrow>
    ob_id (failed_email st t m e) = ob_id e \<and> mail_ok (failed_email st t m e)"
  "mail_ok e \<Longrightarrow> held i o1 e \<Longrightarrow> ob_id (deferred_email t e) = ob_id e \<and> mail_ok (deferred_email t e)"
  by (auto simp: mail_ok_def dropped_def dropped_pending_def leased_def sent_email_def failed_email_def deferred_email_def
    open_state_def held_def Let_def)

section \<open>Operations\<close>

text \<open>A step that keeps the condition it starts from.\<close>

lemma secures_block:
  assumes "secures (ongoing d0) P1 m (\<lambda>_. P1)" "\<And>d. P d \<Longrightarrow> P1 d" "\<And>a. secures (ongoing d0) P1 (f a) Q"
  shows "secures (ongoing d0) P (seq m f) Q"
  by (rule secures_weaken [OF secures_seq [OF assms(1,3)]]) (use assms(2) in simp_all)

lemma block_record_first_login: "secures (ongoing d0) (ongoing d0) (record_first_login user t) (\<lambda>_. ongoing d0)"
  unfolding record_first_login_def
proof (rule secures_after_exec)
  show "ongoing d0 (set_accounts (\<lambda>a. ac_id a = user) (first_login user t) (working w))" if "ongoing d0 (working w)" for w
    by (rule ongoing_account_update [OF that]) (simp_all add: first_login_def)
  show "secures (ongoing d0) (ongoing d0) (exec (\<lambda>w. start_trials user (working w))) (\<lambda>_. ongoing d0)"
    by (rule secures_exec) (simp add: start_trials_def ongoing_brands split: option.split)
qed

lemma insert_root: "secures (ongoing d0) (ongoing d0) (insert_session i user hash expires i t) (\<lambda>_. ongoing d0)"
  unfolding insert_session_def Let_def
proof (rule secures_exec_ret)
  fix w :: "identity_db world" and a d
  let ?ss = "sessions (working w)"
  let ?t = "new_session i user hash expires i t (db_now w)"
  assume o: "ongoing d0 (working w)"
    and run: "(if list_ex (\<lambda>s. se_id s = i) ?ss then Inl (PgErr (Unique_violation ''sesiones_auth_pkey''))
     else if list_ex (\<lambda>s. se_hash s = hash) ?ss then Inl (PgErr (Unique_violation ''sesiones_auth_refresh_hash_key''))
     else if expires \<le> db_now w then Inl (PgErr (Other_pg ''23514''))
     else if i \<noteq> i \<and> \<not> list_ex (\<lambda>s. se_id s = i) ?ss then Inl (PgErr (Other_pg ''23503''))
     else Inr ((), (working w)\<lparr>sessions := ?ss @ [?t]\<rparr>)) = Inr (a, d)"
  then have "i \<notin> se_id ` set ?ss" "hash \<notin> se_hash ` set ?ss" and d: "d = (working w)\<lparr>sessions := ?ss @ [?t]\<rparr>"
    by (auto simp: list_ex_iff split: if_splits)
  then have "sessions_ok (?ss @ [?t])" "sessions_advance ?ss (?ss @ [?t])"
    using sessions_add_root [OF ongoingD(2) [OF o], of ?t] by (simp_all add: new_session_def)
  with o d show "ongoing d0 d" by (simp add: ongoing_sessions)
qed

lemma secure_create_session: "secure (create_session i user hash expires t version)"
  unfolding create_session_def
  apply (rule secure_in_tx)
  apply (rule hoare, rule hoare, rule hoare)
  apply (rule secures_block [OF block_record_first_login], simp)
  apply (rule secures_block [OF insert_root], simp)
  apply (rule hoare)
  by simp_all

lemma block_revoke: "secures (ongoing d0) (ongoing d0) (exec (\<lambda>w. set_sessions (p w) (revoked (t w)) (working w))) (\<lambda>_. ongoing d0)"
  by (rule secures_exec) (rule ongoing_revoke)

lemma secure_revoke_session: "secure (revoke_session user i)"
  unfolding revoke_session_def
  apply (rule secure_in_tx)
  apply (rule hoare, rule hoare, rule hoare, rule hoare)
  apply (rule secures_block [OF block_revoke], simp)
  apply (rule hoare)
  by simp_all

lemma secure_revoke_refresh_family: "secure (revoke_refresh_family hash)"
  unfolding revoke_refresh_family_def
  apply (rule secure_in_tx)
  apply (rule hoare, rule hoare, rule hoare, simp)
  apply (rule hoare, rule hoare, rule hoare, rule hoare)
  apply (rule secures_block [OF block_revoke], simp)
  apply (rule hoare)
  by simp_all

text \<open>The insertion and the update of a rotation are taken together.\<close>

lemma replace_session_secures:
  "secures (ongoing d0) (\<lambda>d. ongoing d0 d \<and> s \<in> set (sessions d) \<and> se_revoked s = None) (replace_session s i hash expires) (\<lambda>_. ongoing d0)"
  unfolding replace_session_def
proof (rule secures_seq)
  let ?mid = "\<lambda>d1. \<exists>d t. d1 = d\<lparr>sessions := sessions d @ [new_session i (se_user s) hash expires (se_family s) (se_auth_time s) t]\<rparr>
    \<and> ongoing d0 d \<and> s \<in> set (sessions d) \<and> se_revoked s = None \<and> i \<notin> se_id ` set (sessions d) \<and> hash \<notin> se_hash ` set (sessions d)"
  show "secures (ongoing d0) (\<lambda>d. ongoing d0 d \<and> s \<in> set (sessions d) \<and> se_revoked s = None)
      (insert_session i (se_user s) hash expires (se_family s) (se_auth_time s)) (\<lambda>_. ?mid)"
    unfolding insert_session_def Let_def
  proof (rule secures_exec_ret)
    fix w :: "identity_db world" and a d
    let ?ss = "sessions (working w)"
    let ?d = "(working w)\<lparr>sessions := ?ss @ [new_session i (se_user s) hash expires (se_family s) (se_auth_time s) (db_now w)]\<rparr>"
    assume o: "ongoing d0 (working w) \<and> s \<in> set ?ss \<and> se_revoked s = None"
      and "(if list_ex (\<lambda>s. se_id s = i) ?ss then Inl (PgErr (Unique_violation ''sesiones_auth_pkey''))
       else if list_ex (\<lambda>s. se_hash s = hash) ?ss then Inl (PgErr (Unique_violation ''sesiones_auth_refresh_hash_key''))
       else if expires \<le> db_now w then Inl (PgErr (Other_pg ''23514''))
       else if se_family s \<noteq> i \<and> \<not> list_ex (\<lambda>x. se_id x = se_family s) ?ss then Inl (PgErr (Other_pg ''23503''))
       else Inr ((), ?d)) = Inr (a, d)"
    then have "i \<notin> se_id ` set ?ss" "hash \<notin> se_hash ` set ?ss" "d = ?d" by (auto simp: list_ex_iff split: if_splits)
    with o show "?mid d" by (intro exI [of _ "working w"] exI [of _ "db_now w"]) simp
  qed
  show "secures (ongoing d0) ?mid (seq (exec (\<lambda>w. set_sessions (\<lambda>x. se_id x = se_id s)
      (\<lambda>x. x\<lparr>se_revoked := Some (db_now w), se_replaced := Some i, se_last_used := Some (db_now w)\<rparr>) (working w))) (\<lambda>_. commit)) (\<lambda>_. ongoing d0)"
  proof (rule secures_seq [where R = "\<lambda>_. ongoing d0"], rule secures_exec)
    fix w :: "identity_db world"
    let ?f = "\<lambda>x. x\<lparr>se_revoked := Some (db_now w), se_replaced := Some i, se_last_used := Some (db_now w)\<rparr>"
    assume "?mid (working w)"
    then obtain d t where d: "working w = d\<lparr>sessions := sessions d @ [new_session i (se_user s) hash expires (se_family s) (se_auth_time s) t]\<rparr>"
      "ongoing d0 d" "s \<in> set (sessions d)" "se_revoked s = None" "i \<notin> se_id ` set (sessions d)" "hash \<notin> se_hash ` set (sessions d)"
      by (elim exE conjE)
    have f: "session_follows x (?f x)" "se_revoked (?f x) \<noteq> None" for x by (simp_all add: session_follows_def)
    note r = sessions_replace [OF ongoingD(2) [OF d(2)] d(3,4), of "new_session i (se_user s) hash expires (se_family s) (se_auth_time s) t" ?f,
        OF _ _ _ _ f, simplified new_session_def session.simps, OF d(5,6) refl refl]
    show "ongoing d0 (set_sessions (\<lambda>x. se_id x = se_id s) ?f (working w))"
      using ongoing_sessions [OF d(2) r(1) r(2)] by (simp add: set_sessions_def d(1) new_session_def)
  next
    show "secures (ongoing d0) (ongoing d0) commit (\<lambda>_. ongoing d0)" for a by (rule hoare)
  qed
qed

lemma secure_rotate_session: "secure (rotate_session hash i new_hash expires)"
  unfolding rotate_session_def Let_def
  apply (rule secure_in_tx)
  apply (rule hoare, rule hoare, rule hoare, rule hoare, rule hoare, rule hoare, rule hoare, rule hoare, rule hoare)
   apply (simp only: revoke_reused_def)
   apply (rule secures_block [OF block_revoke], simp)
   apply (rule hoare, simp, rule hoare)
  apply (rule hoare, rule hoare)
  apply (rule secures_seq, rule secures_weaken [OF replace_session_secures])
    apply (auto dest!: first_row_SomeD)[1]
   apply assumption
  apply (rule hoare, simp)
  done

end
