(* ===== verification/IdentityHistory.thy ===== *)
theory IdentityHistory
  imports IdentitySteps
begin

text \<open>
  The operations on tokens, codes and outgoing mail, and every history of operations on the tables
  of an identity.
\<close>

section \<open>Issuing\<close>

lemma block_exec:
  assumes "\<And>w. ongoing d0 (working w) \<Longrightarrow> ongoing d0 (g w)"
  shows "secures (ongoing d0) (ongoing d0) (exec g) (\<lambda>_. ongoing d0)"
  by (rule secures_exec) (rule assms)

definition ready :: "identity_db \<Rightarrow> int \<Rightarrow> string \<Rightarrow> identity_db \<Rightarrow> bool" where
  "ready d0 user purpose d \<longleftrightarrow> ongoing d0 d \<and> no_open_token user purpose d"

lemma readyD: "ready d0 user purpose d \<Longrightarrow> ongoing d0 d"
  by (simp add: ready_def)

lemma ready_outbox:
  assumes "ready d0 user purpose d" "\<And>e. mail_ok e \<Longrightarrow> p e \<Longrightarrow> ob_id (f e) = ob_id e \<and> mail_ok (f e)"
  shows "ready d0 user purpose (set_outbox p f d)"
  using assms(1) ongoing_outbox_update [OF readyD [OF assms(1)] assms(2)]
  by (simp add: ready_def set_outbox_def no_open_token_def)

lemma consume_tokens_now_ready:
  assumes "\<And>d. P d \<Longrightarrow> ongoing d0 d"
  shows "secures (ongoing d0) P (consume_tokens_now user purpose) (\<lambda>_. ready d0 user purpose)"
  unfolding consume_tokens_now_def
proof (rule secures_exec)
  fix w :: "identity_db world"
  assume "P (working w)"
  then have "ongoing d0 (set_tokens (\<lambda>x. it_user x = user \<and> it_purpose x = purpose \<and> it_consumed x = None)
      (token_consumed (db_now w)) (working w))" by (intro ongoing_consume assms)
  then show "ready d0 user purpose (set_tokens (\<lambda>x. it_user x = user \<and> it_purpose x = purpose \<and> it_consumed x = None)
      (token_consumed (db_now w)) (working w))"
    unfolding ready_def no_open_token_def
  proof (intro conjI ballI impI)
    fix y
    assume y: "y \<in> set (id_tokens (set_tokens (\<lambda>x. it_user x = user \<and> it_purpose x = purpose \<and> it_consumed x = None)
      (token_consumed (db_now w)) (working w)))" "it_user y = user" "it_purpose y = purpose"
    then obtain x where "y = (if it_user x = user \<and> it_purpose x = purpose \<and> it_consumed x = None then token_consumed (db_now w) x else x)"
      by (auto simp: set_tokens_def mem_update_where)
    with y(2,3) show "it_consumed y \<noteq> None" by (auto simp: token_consumed_def split: if_splits)
  qed
qed

lemma insert_token_secures:
  assumes "it_user x = user" "it_purpose x = purpose" "it_consumed x = None"
  shows "secures (ongoing d0) (ready d0 user purpose) (insert_id_token x) (\<lambda>_. ongoing d0)"
  unfolding insert_id_token_def Let_def
proof (rule secures_exec_ret)
  fix w :: "identity_db world" and a d
  let ?xs = "id_tokens (working w)"
  let ?x = "x\<lparr>it_created := db_now w\<rparr>"
  assume r: "ready d0 user purpose (working w)"
    and "(if list_ex (\<lambda>y. it_id y = it_id x) ?xs then Inl (PgErr (Unique_violation ''tokens_identidad_email_pkey''))
     else if list_ex (\<lambda>y. it_hash y = it_hash x) ?xs then Inl (PgErr (Unique_violation ''tokens_identidad_email_token_hash_key''))
     else if it_expires x \<le> db_now w \<or> \<not> token_checked x then Inl (PgErr (Other_pg ''23514''))
     else Inr ((), (working w)\<lparr>id_tokens := ?xs @ [?x]\<rparr>)) = Inr (a, d)"
  then have x: "it_id ?x \<notin> it_id ` set ?xs" "it_hash ?x \<notin> it_hash ` set ?xs" "token_checked ?x"
    and d: "d = (working w)\<lparr>id_tokens := ?xs @ [?x]\<rparr>"
    by (auto simp: list_ex_iff token_checked_def split: if_splits)
  have "it_consumed y \<noteq> None" if "y \<in> set ?xs" "it_user y = it_user ?x" "it_purpose y = it_purpose ?x" for y
    using r that assms by (simp add: ready_def no_open_token_def)
  from tokens_add [OF ongoingD(3) [OF readyD [OF r]] x this]
  show "ongoing d0 d" unfolding d by (rule ongoing_tokens [OF readyD [OF r]])
qed

lemma insert_outbox_secures: "secures (ongoing d0) (ongoing d0) (insert_outbox i user kind recipient subject sealed expires) (\<lambda>_. ongoing d0)"
  unfolding insert_outbox_def Let_def
proof (rule secures_exec_ret)
  fix w :: "identity_db world" and a d
  let ?e = "\<lparr>ob_id = i, ob_user = Some user, ob_kind = kind, ob_to = recipient, ob_subject = subject,
       ob_state = ''PENDING'', ob_attempts = 0, ob_available = db_now w, ob_lease_until = None, ob_lease_owner = None,
       ob_error = None, ob_sent_at = None, ob_created = db_now w, ob_ciphertext = Some (fst sealed),
       ob_nonce = Some (snd sealed), ob_token_expires = Some expires\<rparr>"
  assume o: "ongoing d0 (working w)"
    and "(if list_ex (\<lambda>e. ob_id e = i) (outbox (working w)) then Inl (PgErr (Unique_violation ''email_outbox_pkey''))
      else Inr ((), (working w)\<lparr>outbox := outbox (working w) @ [?e]\<rparr>)) = Inr (a, d)"
  then have i: "i \<notin> ob_id ` set (outbox (working w))" and d: "d = (working w)\<lparr>outbox := outbox (working w) @ [?e]\<rparr>"
    by (auto simp: list_ex_iff split: if_splits)
  have "mail_ok ?e" by (simp add: mail_ok_def open_state_def)
  with ongoingD(5) [OF o] i have "outbox_ok (outbox (working w) @ [?e])" by (simp add: outbox_ok_def)
  with o d show "ongoing d0 d" by (simp add: ongoing_outbox)
qed

lemma sealed_secures: "(\<And>p. secures (ongoing d0) P (f p) Q) \<Longrightarrow> secures (ongoing d0) P (seq (sealed_or_fail s) f) Q"
  by (cases s) (simp_all add: sealed_or_fail_def seq_def ret_def throw_def secures_def)

lemma upsert_code_ready: "secures (ongoing d0) (ready d0 u p) (upsert_code user hash expires reg reg_expires) (\<lambda>_. ready d0 u p)"
  unfolding upsert_code_def Let_def
proof (rule secures_exec)
  fix w :: "identity_db world"
  assume r: "ready d0 u p (working w)"
  let ?cs = "email_codes (working w)"
  let ?f = "\<lambda>c. c\<lparr>ec_hash := hash, ec_expires := expires, ec_attempts := 0, ec_sent := db_now w, ec_consumed := None\<rparr>"
  let ?c = "\<lparr>ec_user = user, ec_hash = hash, ec_expires = expires, ec_attempts = 0, ec_sent = db_now w, ec_consumed = None,
     ec_registration = reg, ec_registration_expires = reg_expires\<rparr>"
  have ok: "codes_ok ?cs" by (rule ongoingD(4) [OF readyD [OF r]])
  have c1: "codes_ok (update_where (\<lambda>c. ec_user c = user) ?f ?cs)" by (rule codes_update [OF ok]) simp
  have c2: "codes_ok (?cs @ [?c])" if "\<not> list_ex (\<lambda>c. ec_user c = user) ?cs"
    using ok that by (auto simp: codes_ok_def list_ex_iff)
  show "ready d0 u p (if list_ex (\<lambda>c. ec_user c = user) ?cs then set_codes (\<lambda>c. ec_user c = user) ?f (working w)
      else (working w)\<lparr>email_codes := ?cs @ [?c]\<rparr>)"
    using r c1 c2 ongoing_codes [OF readyD [OF r]] by (simp add: ready_def set_codes_def no_open_token_def)
qed

lemma drop_ready: "secures (ongoing d0) (ready d0 u p) (drop_verifications user reason) (\<lambda>_. ready d0 u p)"
  unfolding drop_verifications_def by (rule secures_exec) (erule ready_outbox, rule mail_changes, simp_all)

lemma enqueue_code_secures: "secures (ongoing d0) (ongoing d0) (enqueue_code cr tid oid user hash expires message) (\<lambda>_. ongoing d0)"
  unfolding enqueue_code_def Let_def
  apply (rule secures_seq [OF consume_tokens_now_ready], assumption)
  apply (rule secures_seq [OF drop_ready], rule secures_seq [OF upsert_code_ready])
  apply (rule secures_seq [OF insert_token_secures])
     apply (simp_all add: new_id_token_def)
  by (rule sealed_secures) (rule insert_outbox_secures)

lemma enqueue_identity_email_secures:
  "secures (ongoing d0) (ongoing d0) (enqueue_identity_email cr tid oid user hash expires message) (\<lambda>_. ongoing d0)"
proof -
  have codes: "secures (ongoing d0) (ongoing d0) (if em_kind message = ''VERIFY_EMAIL''
       then exec (\<lambda>w. set_codes (\<lambda>c. ec_user c = user \<and> ec_consumed c = None) (\<lambda>c. c\<lparr>ec_consumed := Some (db_now w)\<rparr>) (working w))
       else ret ()) (\<lambda>_. ongoing d0)"
  proof (rule hoare, rule block_exec)
    fix w :: "identity_db world"
    assume o: "ongoing d0 (working w)"
    have "codes_ok (update_where (\<lambda>c. ec_user c = user \<and> ec_consumed c = None) (\<lambda>c. c\<lparr>ec_consumed := Some (db_now w)\<rparr>) (email_codes (working w)))"
      by (rule codes_update [OF ongoingD(4) [OF o]]) (use ongoingD(4) [OF o] in \<open>simp add: codes_ok_def\<close>)
    then show "ongoing d0 (set_codes (\<lambda>c. ec_user c = user \<and> ec_consumed c = None) (\<lambda>c. c\<lparr>ec_consumed := Some (db_now w)\<rparr>) (working w))"
      unfolding set_codes_def by (rule ongoing_codes [OF o])
  qed (rule hoare, simp)
  have pend: "secures (ongoing d0) (ongoing d0) (exec (\<lambda>w. set_outbox (\<lambda>e. ob_user e = Some user \<and> ob_kind e = em_kind message \<and> ob_state e = ''PENDING'')
      (dropped_pending ''superseded'') (working w))) (\<lambda>_. ongoing d0)"
    by (rule block_exec) (erule ongoing_outbox_update, rule mail_changes, simp_all)
  show ?thesis
    unfolding enqueue_identity_email_def
    apply (rule hoare, rule enqueue_code_secures)
    apply (rule secures_seq [OF codes], rule secures_seq [OF pend])
    apply (rule secures_seq [OF consume_tokens_now_ready], assumption)
    apply (rule secures_seq [OF insert_token_secures])
       apply (simp_all add: new_id_token_def)
    by (rule sealed_secures) (rule insert_outbox_secures)
qed

lemma secures_after_block:
  assumes "secures (ongoing d0) (ongoing d0) m (\<lambda>_. ongoing d0)" "\<And>a. secures (ongoing d0) (ongoing d0) (f a) Q" "\<And>d. P d \<Longrightarrow> ongoing d0 d"
  shows "secures (ongoing d0) P (seq m f) Q"
  using secures_block [OF assms(1,3,2)] .

lemma commit_secures: "secures (ongoing d0) (ongoing d0) commit (\<lambda>_ _. True)"
  by (rule hoare) simp_all

lemma secure_enqueues:
  "secure (enqueue_verification cr tid oid email hash expires message)"
  "secure (enqueue_password_reset cr tid oid email hash expires message)"
  unfolding enqueue_verification_def enqueue_password_reset_def
  by (rule secure_in_tx, rule hoare, rule hoare, rule hoare, simp,
      rule secures_after_block [OF enqueue_identity_email_secures commit_secures], simp)+

lemma secure_enqueue_verification_code: "secure (enqueue_verification_code cr tid oid email code draws expires message)"
  unfolding enqueue_verification_code_def
  apply (rule secure_in_tx, rule hoare, rule hoare, rule hoare, simp)
  apply (rule hoare, rule hoare, rule hoare, simp, rule hoare)
  by (rule secures_after_block [OF enqueue_code_secures commit_secures], simp)

lemma secure_enqueue_email_change: "secure (enqueue_email_change cr tid oid user version target hash expires message)"
  unfolding enqueue_email_change_def
  apply (rule secure_in_tx, rule hoare, rule hoare, rule hoare, rule hoare, rule hoare, rule hoare)
  apply (rule secures_after_block [OF block_exec])
    apply (erule ongoing_outbox_update, rule mail_changes, simp_all)
  apply (rule secures_seq [OF consume_tokens_now_ready], assumption)
  apply (rule secures_seq [OF insert_token_secures])
     apply (simp_all add: new_id_token_def)
  by (rule sealed_secures) (rule secures_after_block [OF insert_outbox_secures commit_secures], simp)

section \<open>Confirming\<close>

lemma claim_token_secures: "secures (ongoing d0) (ongoing d0) (claim_token purpose hash now) (\<lambda>_. ongoing d0)"
  unfolding claim_token_def
  by (rule hoare, rule hoare, rule hoare, rule hoare, rule secures_seq [OF secures_query [where Q = "\<lambda>_. ongoing d0"]], simp)
    (simp add: require_def hoare split: option.split)

lemma update_enabled_secures:
  assumes "\<And>a. ac_id (f a) = ac_id a \<and> ac_auth_version a \<le> ac_auth_version (f a)" "\<And>a. ac_email (f a) = ac_email a"
  shows "secures (ongoing d0) (ongoing d0) (update_enabled p f) (\<lambda>_. ongoing d0)"
  unfolding update_enabled_def Let_def
proof (rule secures_seq [OF secures_exec_ret [where Q = "\<lambda>_. ongoing d0"]])
  fix w :: "identity_db world" and a d
  assume "ongoing d0 (working w)" and "Inr (rows_affected (\<lambda>a. account_enabled a \<and> p a) (accounts (working w)),
    set_accounts (\<lambda>a. account_enabled a \<and> p a) f (working w)) = Inr (a, d)"
  then show "ongoing d0 d" using assms by (auto intro: ongoing_account_update)
next
  show "secures (ongoing d0) (ongoing d0) (reject_if (a \<noteq> 1) identity_token_invalid) (\<lambda>_. ongoing d0)" for a
    by (simp add: reject_if_def hoare)
qed

lemma consume_tokens_secures: "secures (ongoing d0) (ongoing d0) (consume_tokens user purpose t) (\<lambda>_. ongoing d0)"
  unfolding consume_tokens_def by (rule block_exec) (rule ongoing_consume)

lemma revoke_user_secures: "secures (ongoing d0) (ongoing d0) (revoke_user_sessions user t) (\<lambda>_. ongoing d0)"
  unfolding revoke_user_sessions_def by (rule block_exec) (rule ongoing_revoke)

lemma drop_secures: "secures (ongoing d0) (ongoing d0) (drop_verifications user reason) (\<lambda>_. ongoing d0)"
  unfolding drop_verifications_def by (rule block_exec) (erule ongoing_outbox_update, rule mail_changes, simp_all)

lemma codes_secures:
  assumes "\<And>c. ec_user (f c) = ec_user c \<and> ec_attempts (f c) = ec_attempts c"
  shows "secures (ongoing d0) (ongoing d0) (exec (\<lambda>w. set_codes p f (working w))) (\<lambda>_. ongoing d0)"
proof (rule block_exec)
  fix w :: "identity_db world"
  assume o: "ongoing d0 (working w)"
  have "codes_ok (update_where p f (email_codes (working w)))"
    by (rule codes_update [OF ongoingD(4) [OF o]]) (use assms ongoingD(4) [OF o] in \<open>simp add: codes_ok_def\<close>)
  then show "ongoing d0 (set_codes p f (working w))" unfolding set_codes_def by (rule ongoing_codes [OF o])
qed

lemma secure_verify_email: "secure (verify_email hash now)"
  unfolding verify_email_def
  apply (rule secure_in_tx, rule secures_seq [OF claim_token_secures])
  apply (rule secures_seq [OF update_enabled_secures], simp, simp)
  apply (rule secures_seq [OF block_exec], erule ongoing_consume)
  apply (rule secures_seq [OF codes_secures], simp)
  by (rule secures_seq [OF drop_secures commit_secures])

lemma secure_reset_password: "secure (reset_password hash password now)"
  unfolding reset_password_def
  apply (rule secure_in_tx, rule secures_seq [OF claim_token_secures])
  apply (rule secures_seq [OF update_enabled_secures], simp, simp)
  by (rule secures_seq [OF consume_tokens_secures secures_seq [OF revoke_user_secures commit_secures]])

lemma update_email_secures: "secures (ongoing d0) (ongoing d0) (update_email x now) (\<lambda>_. ongoing d0)"
  unfolding update_email_def Let_def
proof (rule secures_seq [OF secures_exec_ret [where Q = "\<lambda>_. ongoing d0"]])
  fix w :: "identity_db world" and a d
  let ?us = "accounts (working w)"
  let ?p = "\<lambda>a. ac_id a = it_user x \<and> Some (ac_version a) = it_version x \<and> account_enabled a"
  let ?target = "coalesce (it_pending x) ''''"
  let ?f = "\<lambda>a. a\<lparr>ac_email := ?target, ac_verified_at := Some now, ac_auth_version := ac_auth_version a + 1, ac_version := ac_version a + 1\<rparr>"
  assume o: "ongoing d0 (working w)"
    and run: "(if list_ex ?p ?us \<and> list_ex (\<lambda>a. ac_id a \<noteq> it_user x \<and> ci_equal (ac_email a) ?target) ?us
      then Inl (normalize (PgErr (Unique_violation ''usuarios_email_key'')))
      else Inr (rows_affected ?p ?us, set_accounts ?p ?f (working w))) = Inr (a, d)"
  then have d: "d = (working w)\<lparr>accounts := update_where ?p ?f ?us\<rparr>"
    and free: "\<not> (list_ex ?p ?us \<and> list_ex (\<lambda>a. ac_id a \<noteq> it_user x \<and> ci_equal (ac_email a) ?target) ?us)"
    by (auto simp: set_accounts_def split: if_splits)
  have "accounts_ok (update_where ?p ?f ?us)"
  proof (cases "list_ex ?p ?us")
    case True
    with free show ?thesis
      by (intro accounts_new_email [OF ongoingD(1) [OF o], where target = ?target and user = "it_user x"]) (auto simp: list_ex_iff)
  next
    case False
    then have "update_where ?p ?f ?us = ?us" by (intro update_where_none) (auto simp: list_ex_iff)
    with ongoingD(1) [OF o] show ?thesis by simp
  qed
  moreover have "accounts_advance ?us (update_where ?p ?f ?us)" by (rule accounts_follow) simp
  ultimately show "ongoing d0 d" unfolding d by (rule ongoing_accounts [OF o])
next
  show "secures (ongoing d0) (ongoing d0) (reject_if (a \<noteq> 1) identity_token_invalid) (\<lambda>_. ongoing d0)" for a
    by (simp add: reject_if_def hoare)
qed

lemma secure_confirm_email_change: "secure (confirm_email_change hash now)"
  unfolding confirm_email_change_def
  by (rule secure_in_tx, rule secures_seq [OF claim_token_secures secures_seq [OF update_email_secures
        secures_seq [OF revoke_user_secures secures_seq [OF consume_tokens_secures commit_secures]]]])

lemma codes_count:
  assumes ok: "codes_ok cs" and c: "c \<in> set cs" "ec_attempts c < 5"
  shows "codes_ok (update_where (\<lambda>x. ec_user x = ec_user c) (\<lambda>x. x\<lparr>ec_attempts := ec_attempts x + 1\<rparr>) cs)"
proof (rule codes_update [OF ok])
  fix x
  assume x: "x \<in> set cs" "ec_user x = ec_user c"
  have "distinct (map ec_user cs)" using ok by (simp add: codes_ok_def)
  from distinct_key_unique [OF this x(1) c(1) x(2)] have "x = c" .
  with ok c show "ec_user (x\<lparr>ec_attempts := ec_attempts x + 1\<rparr>) = ec_user x
      \<and> 0 \<le> ec_attempts (x\<lparr>ec_attempts := ec_attempts x + 1\<rparr>) \<and> ec_attempts (x\<lparr>ec_attempts := ec_attempts x + 1\<rparr>) \<le> 5"
    by (simp add: codes_ok_def)
qed

lemma wrong_code_secures:
  assumes "\<And>d. P d \<Longrightarrow> ongoing d0 d \<and> (\<exists>c. c \<in> set (email_codes d) \<and> ec_user c = user \<and> ec_attempts c < 5)"
  shows "secures (ongoing d0) P (wrong_code user attempts now) Q"
  unfolding wrong_code_def
proof (rule secures_seq [OF secures_exec [where Q = "\<lambda>_. ongoing d0"]])
  fix w :: "identity_db world"
  assume "P (working w)"
  from assms [OF this] obtain c where o: "ongoing d0 (working w)" and c: "c \<in> set (email_codes (working w))" "ec_user c = user" "ec_attempts c < 5"
    by (elim conjE exE)
  from codes_count [OF ongoingD(4) [OF o] c(1,3)] c(2)
  show "ongoing d0 (set_codes (\<lambda>c. ec_user c = user) (\<lambda>c. c\<lparr>ec_attempts := ec_attempts c + 1\<rparr>) (working w))"
    unfolding set_codes_def by (intro ongoing_codes [OF o]) simp
next
  show "secures (ongoing d0) (ongoing d0) (seq (if attempts = 4 then consume_tokens user ''VERIFY_EMAIL'' now else ret ()) (\<lambda>_.
      seq commit (\<lambda>_. throw identity_token_invalid))) Q" for a
    by (rule secures_seq [where R = "\<lambda>_. ongoing d0"], rule hoare, rule consume_tokens_secures, rule hoare, simp,
        rule hoare, simp, rule hoare)
qed

text \<open>A wrong code counts; what it counts is committed although the answer is an error.\<close>

lemma secure_confirm_verification_code: "secure (confirm_verification_code cr email hash registration now)"
  unfolding confirm_verification_code_def
  apply (rule secure_in_tx, rule hoare, rule hoare, rule hoare, rule hoare, rule hoare, rule hoare)
  subgoal for d0 row a code_row c
    by (rule wrong_code_secures) (auto dest!: find_member intro!: exI [of _ c])
  subgoal for d0 row a code_row c
    unfolding accept_code_def Let_def
    apply (rule secures_after_block [OF block_exec])
      apply (erule ongoing_account_update, simp, simp)
     apply (rule secures_seq [OF codes_secures], simp)
     apply (rule secures_seq [OF consume_tokens_secures], rule secures_seq [OF drop_secures])
     apply (rule hoare, simp, rule hoare, simp)
    by simp
  done

section \<open>Outgoing mail and renewed authentication\<close>

lemma secure_seq: "secure m \<Longrightarrow> (\<And>a. secure (f a)) \<Longrightarrow> secure (seq m f)"
  unfolding secure_def by (intro allI secures_seq [where R = "\<lambda>_ _. True"]) auto

lemma secure_leaf: "secure (ret a)" "secure (throw e)" "secure (reject_if b e)" "secure now_app"
  by (auto simp: secure_def reject_if_def intro: hoare secures_ret securesI [where Q = "\<lambda>_ _. True"] split: sum.split)
    (rule securesI, auto simp: now_app_def)

lemma secure_outbox_update:
  assumes "\<And>w e. mail_ok e \<Longrightarrow> p w e \<Longrightarrow> ob_id (f w e) = ob_id e \<and> mail_ok (f w e)"
  shows "secure (pool_exec (\<lambda>w. Inr (x w, set_outbox (p w) (f w) (working w))))"
proof (rule secure_pool_exec)
  fix d0 and w :: "identity_db world" and a d
  assume o: "ongoing d0 (working w)" and run: "Inr (x w, set_outbox (p w) (f w) (working w)) = Inr (a, d)"
  from run have d: "d = set_outbox (p w) (f w) (working w)" by simp
  show "ongoing d0 d" unfolding d by (rule ongoing_outbox_update [OF o assms])
qed

lemma claimable_state: "claimable t e \<Longrightarrow> ob_state e = ''PENDING'' \<or> ob_state e = ''SENDING''"
  by (auto simp: claimable_def)

lemma claimed_row:
  assumes "outbox_ok (outbox d)" "e \<in> set (outbox d)" "ob_id e \<in> set (claim_candidates limit t d)"
  shows "claimable t e"
proof -
  from assms(3) obtain x where x: "x \<in> set (outbox d)" "claimable t x" "ob_id x = ob_id e"
    by (auto simp: claim_candidates_def dest!: in_set_takeD)
  have "distinct (map ob_id (outbox d))" using assms(1) by (simp add: outbox_ok_def)
  from distinct_key_unique [OF this assms(2) x(1)] x show ?thesis by simp
qed

lemma secure_claim_emails: "secure (claim_emails limit owner)"
  unfolding claim_emails_def
proof (rule secure_seq)
  show "secure expire_outbox"
    unfolding expire_outbox_def by (rule secure_outbox_update) (simp add: mail_changes(1))
  show "secure (pool_exec (\<lambda>w. let d = working w; ids = claim_candidates limit (db_now w) d;
         d1 = set_outbox (\<lambda>e. ob_id e \<in> set ids) (leased owner (db_now w)) d in
       Inr (filter (\<lambda>e. ob_id e \<in> set ids) (outbox d1), d1)))"
    unfolding Let_def
  proof (rule secure_pool_exec)
    fix d0 and w :: "identity_db world" and a d
    let ?d = "working w"
    let ?p = "\<lambda>e. ob_id e \<in> set (claim_candidates limit (db_now w) ?d)"
    assume o: "ongoing d0 ?d" and run: "Inr (filter ?p (outbox (set_outbox ?p (leased owner (db_now w)) ?d)),
      set_outbox ?p (leased owner (db_now w)) ?d) = Inr (a, d)"
    have "outbox_ok (update_where ?p (leased owner (db_now w)) (outbox ?d))"
    proof (rule outbox_update [OF ongoingD(5) [OF o]])
      fix e
      assume e: "e \<in> set (outbox ?d)" "?p e"
      have "mail_ok e" using ongoingD(5) [OF o] e(1) by (simp add: outbox_ok_def)
      with mail_changes(3) claimable_state [OF claimed_row [OF ongoingD(5) [OF o] e]]
      show "ob_id (leased owner (db_now w) e) = ob_id e \<and> mail_ok (leased owner (db_now w) e)" by blast
    qed
    with run show "ongoing d0 d" by (auto simp: set_outbox_def intro: ongoing_outbox [OF o])
  qed
qed

lemma secure_marks:
  "secure (mark_email_sent i owner)" "secure (mark_email_failed i owner attempts message)" "secure (defer_email i owner retry)"
  unfolding mark_email_sent_def mark_email_failed_def defer_email_def Let_def
  by (intro secure_seq secure_leaf secure_outbox_update; simp add: mail_changes)+

lemma link_google_secures: "secures (ongoing d0) (ongoing d0) (link_google seen google now) (\<lambda>_. ongoing d0)"
  unfolding link_google_def Let_def
proof (rule secures_seq [OF secures_exec_ret [where Q = "\<lambda>_. ongoing d0"]])
  fix w :: "identity_db world" and a d
  let ?f = "\<lambda>a. a\<lparr>ac_google := Some google, ac_verified_at := Some (coalesce (ac_verified_at a) now)\<rparr>"
  assume o: "ongoing d0 (working w)"
    and run: "(if list_ex (\<lambda>a. ac_id a \<noteq> ac_id seen \<and> ac_google a = Some google) (accounts (working w)) then Inl (Repo ErrGoogleIdentityConflict)
      else Inr ((), set_accounts (\<lambda>a. ac_id a = ac_id seen) ?f (working w))) = Inr (a, d)"
  have "ongoing d0 (set_accounts (\<lambda>a. ac_id a = ac_id seen) ?f (working w))" by (rule ongoing_account_update [OF o]) simp_all
  with run show "ongoing d0 d" by (auto split: if_splits)
next
  show "secures (ongoing d0) (ongoing d0) (seq (exec (\<lambda>w. set_tokens (\<lambda>x. it_user x = ac_id seen \<and> it_consumed x = None) (token_consumed now) (working w))) (\<lambda>_.
     exec (\<lambda>w. set_outbox (\<lambda>e. ob_user e = Some (ac_id seen) \<and> ob_kind e \<in> {''VERIFY_EMAIL'', ''RESET_PASSWORD'', ''CHANGE_EMAIL''}
            \<and> open_state (ob_state e)) (dropped ''identity method changed'') (working w)))) (\<lambda>_. ongoing d0)" for a
    by (rule secures_seq [OF block_exec block_exec], erule ongoing_consume, erule ongoing_outbox_update, rule mail_changes, simp_all)
qed

lemma secure_renew_authentication:
  "secure (renew_authentication seen expected old google email link i hash expires now)"
  unfolding renew_authentication_def
  apply (rule secure_in_tx, rule hoare, rule hoare, rule hoare, rule hoare, rule hoare)
  apply (rule secures_block [where ?P1.0 = "ongoing d0" for d0])
    apply (rule hoare, rule hoare, rule link_google_secures, rule hoare, simp)
   apply simp
  apply (rule secures_seq [OF block_exec], erule ongoing_account_update, simp, simp)
  apply (rule secures_seq [OF revoke_user_secures], rule secures_seq [OF insert_root])
  by (rule hoare, simp, rule hoare, simp)

section \<open>Histories\<close>

inductive identity_step :: "identity_db \<Rightarrow> identity_db \<Rightarrow> bool" where
  logs_in: "step_of (create_session i user hash expires t version) d d1 \<Longrightarrow> identity_step d d1"
| rotates: "step_of (rotate_session hash i new_hash expires) d d1 \<Longrightarrow> identity_step d d1"
| logs_out: "step_of (revoke_session user i) d d1 \<Longrightarrow> identity_step d d1"
| drops_family: "step_of (revoke_refresh_family hash) d d1 \<Longrightarrow> identity_step d d1"
| renews: "step_of (renew_authentication seen expected old google email link i hash expires now) d d1 \<Longrightarrow> identity_step d d1"
| asks_verification: "step_of (enqueue_verification cr tid oid email hash expires message) d d1 \<Longrightarrow> identity_step d d1"
| asks_code: "step_of (enqueue_verification_code cr tid oid email code draws expires message) d d1 \<Longrightarrow> identity_step d d1"
| asks_reset: "step_of (enqueue_password_reset cr tid oid email hash expires message) d d1 \<Longrightarrow> identity_step d d1"
| asks_change: "step_of (enqueue_email_change cr tid oid user version target hash expires message) d d1 \<Longrightarrow> identity_step d d1"
| verifies: "step_of (verify_email hash now) d d1 \<Longrightarrow> identity_step d d1"
| verifies_code: "step_of (confirm_verification_code cr email hash registration now) d d1 \<Longrightarrow> identity_step d d1"
| resets: "step_of (reset_password hash password now) d d1 \<Longrightarrow> identity_step d d1"
| changes: "step_of (confirm_email_change hash now) d d1 \<Longrightarrow> identity_step d d1"
| claims_mail: "step_of (claim_emails limit owner) d d1 \<Longrightarrow> identity_step d d1"
| sends_mail: "step_of (mark_email_sent oid owner) d d1 \<Longrightarrow> identity_step d d1"
| fails_mail: "step_of (mark_email_failed oid owner attempts reason) d d1 \<Longrightarrow> identity_step d d1"
| defers_mail: "step_of (defer_email oid owner retry) d d1 \<Longrightarrow> identity_step d d1"

lemmas secure_operations =
  secure_create_session secure_rotate_session secure_revoke_session secure_revoke_refresh_family secure_renew_authentication
  secure_enqueues secure_enqueue_verification_code secure_enqueue_email_change secure_verify_email
  secure_confirm_verification_code secure_reset_password secure_confirm_email_change secure_claim_emails secure_marks

lemma identity_step_secure:
  assumes "identity_step d d1" "identity_inv d"
  shows "identity_inv d1 \<and> advances d d1"
  using assms by (cases rule: identity_step.cases) (blast intro: secure_step secure_operations)+

lemma identity_history:
  assumes "identity_step\<^sup>*\<^sup>* d d1" "identity_inv d"
  shows "identity_inv d1" "advances d d1"
proof -
  from assms have "identity_inv d1 \<and> advances d d1"
    by (induction rule: rtranclp_induct) (auto dest: identity_step_secure intro: advances_trans)
  then show "identity_inv d1" "advances d d1" by simp_all
qed

end
