(* ===== verification/AuthService.thy ===== *)
theory AuthService
  imports EmailTokens
begin

text \<open>
  The service of authentication (\<^verbatim>\<open>service/auth.go\<close>, \<^verbatim>\<open>reauthenticate.go\<close>, \<^verbatim>\<open>email_code.go\<close>), the
  access tokens of \<^verbatim>\<open>auth/jwt.go\<close> and the check of every request in \<^verbatim>\<open>middleware/auth.go\<close>. A token
  is given by its claims: \<open>read_token\<close> says what the library reads from a text whose signature and
  audience it accepted. The credentials drawn for a session, bcrypt's verdict on a password
  (busy, wrong or right), Google's answer and the captcha's are arguments. Sign-up is not modelled.
\<close>

section \<open>Access tokens\<close>

record claims =
  cl_subject :: string
  cl_id :: string
  cl_account_type :: string
  cl_auth_time :: int
  cl_auth_version :: int
  cl_issued :: int
  cl_expires :: int

definition one_second :: int where
  "one_second = 1000000000"

definition access_seconds :: int where
  "access_seconds = 900"

definition generate_for_session :: "int \<Rightarrow> int \<Rightarrow> string \<Rightarrow> string \<Rightarrow> int \<Rightarrow> int \<Rightarrow> claims" where
  "generate_for_session now user account_type i auth_time version =
     \<lparr>cl_subject = show_int user, cl_id = i, cl_account_type = account_type, cl_auth_time = auth_time div one_second,
      cl_auth_version = version, cl_issued = now div one_second, cl_expires = (now + access_seconds * one_second) div one_second\<rparr>"

text \<open>\<open>uuid.Validate\<close> is the library's check of an identifier.\<close>

definition parse_session_context ::
  "(string \<Rightarrow> claims option) \<Rightarrow> (string \<Rightarrow> bool) \<Rightarrow> int \<Rightarrow> string \<Rightarrow> (int \<times> string \<times> string \<times> int \<times> int) option" where
  "parse_session_context read_token uuid_ok now raw =
     (case read_token raw of None \<Rightarrow> None
      | Some c \<Rightarrow>
          if cl_expires c * one_second \<le> now then None
          else (case parse_signed (cl_subject c) of None \<Rightarrow> None
            | Some user \<Rightarrow>
                if user < 1 \<or> cl_auth_version c < 1 \<or> cl_auth_time c < 1 \<or> now div one_second + 60 < cl_auth_time c
                   \<or> \<not> uuid_ok (cl_id c) \<or> (cl_account_type c \<noteq> ''CLIENTE_FINAL'' \<and> cl_account_type c \<noteq> ''PERSONAL_MARCA'')
                then None
                else Some (user, cl_account_type c, cl_id c, cl_auth_version c, cl_auth_time c)))"

record actor =
  at_id :: int
  at_account_type :: string
  at_session :: string
  at_auth_time :: int
  at_auth_version :: int

datatype auth_answer = Actor actor | Unauthenticated | Dependency_unavailable

definition require_auth ::
  "(string \<Rightarrow> claims option) \<Rightarrow> (string \<Rightarrow> bool) \<Rightarrow> int \<Rightarrow> string \<Rightarrow> auth_answer itx" where
  "require_auth read_token uuid_ok now header =
     (if \<not> has_prefix header ''Bearer '' \<or> drop 7 header = '''' then ret Unauthenticated
      else
        case parse_session_context read_token uuid_ok now (drop 7 header) of
          None \<Rightarrow> ret Unauthenticated
        | Some (user, _, i, version, auth_time) \<Rightarrow>
            seq (outcome_of (active_session_account_type user i version)) (\<lambda>answer.
            ret (case answer of
              Inl e \<Rightarrow> if e = GoError ''no rows in result set'' then Unauthenticated else Dependency_unavailable
            | Inr t \<Rightarrow> Actor \<lparr>at_id = user, at_account_type = t, at_session = i, at_auth_time = auth_time, at_auth_version = version\<rparr>)))"

section \<open>Sessions\<close>

record credentials =
  sc_id :: string
  sc_raw :: string
  sc_hash :: string
  sc_expires :: int
  sc_auth_time :: int

definition refresh_lifetime :: int where
  "refresh_lifetime = 30 * 24 * 3600 * one_second"

text \<open>The random bytes already encoded; a draw may fail.\<close>

definition new_session_credentials :: "crypto \<Rightarrow> err + (string \<times> string) \<Rightarrow> int \<Rightarrow> err + credentials" where
  "new_session_credentials cr drawn now = (case drawn of Inl e \<Rightarrow> Inl e
     | Inr (i, raw) \<Rightarrow> Inr \<lparr>sc_id = i, sc_raw = raw, sc_hash = cr_sha cr raw, sc_expires = now + refresh_lifetime, sc_auth_time = now\<rparr>)"

record issued =
  is_access :: claims
  is_refresh :: string
  is_expires_in :: int

definition session_for :: "account \<Rightarrow> credentials \<Rightarrow> issued itx" where
  "session_for u c = seq now_app (\<lambda>now. ret \<lparr>is_access = generate_for_session now (ac_id u) (ac_tipo u) (sc_id c) (sc_auth_time c)
     (ac_auth_version u), is_refresh = sc_raw c, is_expires_in = access_seconds\<rparr>)"

definition lift_sum :: "err + 'a \<Rightarrow> ('d, 'a) tx" where
  "lift_sum x = (case x of Inl e \<Rightarrow> throw e | Inr a \<Rightarrow> ret a)"

text \<open>\<open>if err == from \{ return to \}\<close>\<close>

definition renamed :: "err list \<Rightarrow> err \<Rightarrow> ('d, 'a) tx \<Rightarrow> ('d, 'a) tx" where
  "renamed from to m = catch m (\<lambda>e. throw (if e \<in> set from then to else e))"

definition issue_session :: "crypto \<Rightarrow> err + (string \<times> string) \<Rightarrow> account \<Rightarrow> issued itx" where
  "issue_session cr drawn u =
     seq now_app (\<lambda>now.
     seq (lift_sum (new_session_credentials cr drawn now)) (\<lambda>c.
     seq (renamed [Repo ErrNotFound] (Svc InvalidCredentials)
            (create_session (sc_id c) (ac_id u) (sc_hash c) (sc_expires c) (sc_auth_time c) (ac_auth_version u))) (\<lambda>_.
     session_for u c)))"

definition refresh :: "crypto \<Rightarrow> err + (string \<times> string) \<Rightarrow> string \<Rightarrow> (issued \<times> account) itx" where
  "refresh cr drawn token =
     seq (reject_if (length token < 40 \<or> 256 < length token) (Svc InvalidCredentials)) (\<lambda>_.
     seq now_app (\<lambda>now.
     seq (lift_sum (new_session_credentials cr drawn now)) (\<lambda>c.
     seq (renamed [Repo ErrNotFound, Repo ErrSessionReuse] (Svc InvalidCredentials)
            (rotate_session (cr_sha cr token) (sc_id c) (sc_hash c) (sc_expires c))) (\<lambda>(u, auth_time).
     seq (session_for u (c\<lparr>sc_auth_time := auth_time\<rparr>)) (\<lambda>s.
     ret (s, u))))))"

definition logout :: "int \<Rightarrow> string \<Rightarrow> unit itx" where
  "logout user i = catch (revoke_session user i) (\<lambda>e. if e = Repo ErrNotFound then ret () else throw e)"

definition logout_refresh :: "crypto \<Rightarrow> string \<Rightarrow> unit itx" where
  "logout_refresh cr token =
     (if token = '''' then ret ()
      else if length token < 40 \<or> 256 < length token then throw (Svc InvalidRequest)
      else revoke_refresh_family (cr_sha cr token))"

section \<open>Login\<close>

definition get_user_by_email :: "string \<Rightarrow> account itx" where
  "get_user_by_email email =
     seq (query (\<lambda>w. List.find (\<lambda>a. ci_equal (ac_email a) email \<and> ac_deleted_at a = None) (accounts (committed w)))) (\<lambda>row.
     require row (Repo ErrNotFound))"

definition get_auth_user_by_id :: "int \<Rightarrow> account itx" where
  "get_auth_user_by_id user =
     seq (query (\<lambda>w. enabled_account user (committed w))) (\<lambda>row. require row (Repo ErrNotFound))"

datatype password_verdict = Password_busy err | Password_wrong | Password_right

text \<open>\<open>mail.ParseAddress\<close> is the library's reading of an address.\<close>

definition normalize_email :: "(string \<Rightarrow> string option) \<Rightarrow> string \<Rightarrow> string option" where
  "normalize_email parse_address v = (let v1 = to_lower (trim_space v) in
     if parse_address v1 \<noteq> Some v1 \<or> 254 < length v1 then None else Some v1)"

definition valid_password :: "string \<Rightarrow> bool" where
  "valid_password p \<longleftrightarrow> 10 \<le> length p \<and> length p \<le> 72"

definition check_password :: "(string \<Rightarrow> string \<Rightarrow> password_verdict) \<Rightarrow> string option \<Rightarrow> string \<Rightarrow> unit itx" where
  "check_password compare stored given = (case stored of
     None \<Rightarrow> throw (Svc InvalidCredentials)
   | Some h \<Rightarrow> (case compare h given of
       Password_busy e \<Rightarrow> throw e
     | Password_wrong \<Rightarrow> throw (Svc InvalidCredentials)
     | Password_right \<Rightarrow> ret ()))"

definition login ::
  "crypto \<Rightarrow> (string \<Rightarrow> string option) \<Rightarrow> (string \<Rightarrow> string \<Rightarrow> password_verdict) \<Rightarrow> err + (string \<times> string) \<Rightarrow>
   string \<Rightarrow> string \<Rightarrow> (issued \<times> account) itx" where
  "login cr parse_address compare drawn email password =
     seq (require (normalize_email parse_address email) (Svc InvalidCredentials)) (\<lambda>address.
     seq (renamed [Repo ErrNotFound] (Svc InvalidCredentials) (get_user_by_email address)) (\<lambda>u.
     seq (reject_if (\<not> ac_activo u \<or> ac_password u = None \<or> 72 < length password) (Svc InvalidCredentials)) (\<lambda>_.
     seq (check_password compare (ac_password u) password) (\<lambda>_.
     seq (reject_if (ac_verified_at u = None) (Svc EmailUnverified)) (\<lambda>_.
     seq (issue_session cr drawn u) (\<lambda>s.
     ret (s, u)))))))"

text \<open>Only a subject already associated with an account resolves to it.\<close>

definition resolve_google_user :: "string \<Rightarrow> string \<Rightarrow> account itx" where
  "resolve_google_user google email =
     seq (query (\<lambda>w. List.find (\<lambda>a. ac_google a = Some google \<and> account_enabled a) (accounts (committed w)))) (\<lambda>row.
     case row of Some u \<Rightarrow> ret u
     | None \<Rightarrow>
         seq (get_user_by_email email) (\<lambda>u.
         if \<not> ac_activo u then throw (Repo ErrForbidden)
         else case ac_google u of
           None \<Rightarrow> throw (Repo ErrGoogleLinkRequired)
         | Some g \<Rightarrow> if g = google then ret u else throw (Repo ErrGoogleIdentityConflict)))"

section \<open>Renewing the authentication\<close>

record google_identity =
  gi_subject :: string
  gi_email :: string

definition google_matches :: "bool \<Rightarrow> account \<Rightarrow> google_identity \<Rightarrow> bool" where
  "google_matches link u g \<longleftrightarrow> gi_subject g \<noteq> ''''
     \<and> (link \<longrightarrow> ci_equal (to_lower (trim_space (gi_email g))) (trim_space (ac_email u)))
     \<and> (\<not> link \<longrightarrow> ac_google u = Some (gi_subject g))"

definition check_google :: "(string \<Rightarrow> google_identity option) \<Rightarrow> bool \<Rightarrow> account \<Rightarrow> string \<Rightarrow> (string \<times> string) itx" where
  "check_google verify link u id_token =
     (if link \<or> id_token \<noteq> '''' then
        seq (reject_if (trim_space id_token = '''') (Svc InvalidRequest)) (\<lambda>_.
        seq (require (verify id_token) (Svc InvalidCredentials)) (\<lambda>g.
        seq (reject_if (\<not> google_matches link u g) (Svc InvalidCredentials)) (\<lambda>_.
        ret (gi_subject g, to_lower (trim_space (gi_email g))))))
      else ret ('''', ''''))"

definition renew_authentication_service ::
  "crypto \<Rightarrow> (string \<Rightarrow> string \<Rightarrow> password_verdict) \<Rightarrow> (string \<Rightarrow> google_identity option) \<Rightarrow> err + (string \<times> string) \<Rightarrow>
   int \<Rightarrow> string \<Rightarrow> int \<Rightarrow> string \<Rightarrow> string \<Rightarrow> bool \<Rightarrow> (issued \<times> account) itx" where
  "renew_authentication_service cr compare verify drawn user i version password id_token link =
     seq (renamed [Repo ErrNotFound] (Svc InvalidCredentials) (get_auth_user_by_id user)) (\<lambda>u.
     seq (if password \<noteq> '''' then
            seq (reject_if (ac_password u = None \<or> 72 < length password) (Svc InvalidCredentials)) (\<lambda>_.
            check_password compare (ac_password u) password)
          else reject_if link (Svc InvalidCredentials)) (\<lambda>_.
     seq (check_google verify link u id_token) (\<lambda>(subject, email).
     seq now_app (\<lambda>now.
     seq (renamed [Repo ErrNotFound] (Svc InvalidCredentials) (lift_sum (new_session_credentials cr drawn now))) (\<lambda>c.
     seq (renamed [Repo ErrNotFound] (Svc InvalidCredentials)
            (renew_authentication u version i subject email link (sc_id c) (sc_hash c) (sc_expires c) (sc_auth_time c))) (\<lambda>updated.
     seq (session_for updated c) (\<lambda>s.
     ret (s, updated))))))))"

definition link_google_service ::
  "crypto \<Rightarrow> (string \<Rightarrow> string \<Rightarrow> password_verdict) \<Rightarrow> (string \<Rightarrow> google_identity option) \<Rightarrow> err + (string \<times> string) \<Rightarrow>
   int \<Rightarrow> string \<Rightarrow> int \<Rightarrow> string \<Rightarrow> string \<Rightarrow> (issued \<times> account) itx" where
  "link_google_service cr compare verify drawn user i version password id_token =
     renew_authentication_service cr compare verify drawn user i version password id_token True"

definition reauthenticate ::
  "crypto \<Rightarrow> (string \<Rightarrow> string \<Rightarrow> password_verdict) \<Rightarrow> (string \<Rightarrow> google_identity option) \<Rightarrow> err + (string \<times> string) \<Rightarrow>
   int \<Rightarrow> string \<Rightarrow> int \<Rightarrow> string \<Rightarrow> string \<Rightarrow> (issued \<times> account) itx" where
  "reauthenticate cr compare verify drawn user i version password id_token =
     (if (password = '''') = (id_token = '''') then throw (Svc InvalidRequest)
      else renew_authentication_service cr compare verify drawn user i version password id_token False)"

section \<open>Tokens and codes by mail\<close>

text \<open>\<open>unb64\<close> is the decoding of unpadded URL-safe Base64.\<close>

definition parse_identity_token :: "crypto \<Rightarrow> (string \<Rightarrow> string option) \<Rightarrow> string \<Rightarrow> string option" where
  "parse_identity_token cr unb64 token = (let token1 = trim_space token in
     case unb64 token1 of None \<Rightarrow> None
     | Some raw \<Rightarrow> if length raw = 32 then Some (cr_sha cr token1) else None)"

definition confirm_email_verification :: "crypto \<Rightarrow> (string \<Rightarrow> string option) \<Rightarrow> string \<Rightarrow> unit itx" where
  "confirm_email_verification cr unb64 token =
     seq (require (parse_identity_token cr unb64 token) (Svc IdentityToken)) (\<lambda>hash.
     seq now_app (\<lambda>now.
     renamed [identity_token_invalid] (Svc IdentityToken) (verify_email hash now)))"

definition confirm_password_reset ::
  "crypto \<Rightarrow> (string \<Rightarrow> string option) \<Rightarrow> (string \<Rightarrow> err + string) \<Rightarrow> string \<Rightarrow> string \<Rightarrow> unit itx" where
  "confirm_password_reset cr unb64 hash_password token new_password =
     seq (reject_if (\<not> valid_password new_password) (Svc InvalidRequest)) (\<lambda>_.
     seq (require (parse_identity_token cr unb64 token) (Svc IdentityToken)) (\<lambda>hash.
     seq now_app (\<lambda>now.
     seq (renamed [identity_token_invalid] (Svc IdentityToken) (validate_password_reset hash now)) (\<lambda>_.
     seq (lift_sum (hash_password new_password)) (\<lambda>password_hash.
     seq now_app (\<lambda>now1.
     renamed [identity_token_invalid] (Svc IdentityToken) (reset_password hash password_hash now1)))))))"

record verification_result =
  vr_session :: "issued option"
  vr_user :: "account option"

definition automatic_session :: "crypto \<Rightarrow> err + (string \<times> string) \<Rightarrow> string \<Rightarrow> int \<times> int \<Rightarrow> verification_result itx" where
  "automatic_session cr drawn email seen = (let no_session = \<lparr>vr_session = None, vr_user = None\<rparr> in
     seq (outcome_of (get_auth_user_by_id (fst seen))) (\<lambda>found.
     case found of Inl _ \<Rightarrow> ret no_session
     | Inr u \<Rightarrow>
         if ac_auth_version u \<noteq> snd seen \<or> ac_email u \<noteq> email \<or> ac_verified_at u = None \<or> \<not> ac_activo u then ret no_session
         else
           seq (outcome_of (issue_session cr drawn u)) (\<lambda>answer.
           ret (case answer of Inl _ \<Rightarrow> no_session | Inr s \<Rightarrow> \<lparr>vr_session = Some s, vr_user = Some u\<rparr>))))"

definition confirm_email_verification_code ::
  "crypto \<Rightarrow> (string \<Rightarrow> string option) \<Rightarrow> err + (string \<times> string) \<Rightarrow> string \<Rightarrow> string \<Rightarrow> string \<Rightarrow> verification_result itx" where
  "confirm_email_verification_code cr parse_address drawn email code registration =
     seq (require (normalize_email parse_address email) (Svc IdentityToken)) (\<lambda>address.
     seq (reject_if (\<not> valid_code code \<or> 128 < length registration) (Svc IdentityToken)) (\<lambda>_.
     seq now_app (\<lambda>now.
     seq (renamed [identity_token_invalid] (Svc IdentityToken)
            (confirm_verification_code cr address (code_hash cr address code) registration now)) (\<lambda>(checked, automatic).
     if \<not> automatic then ret \<lparr>vr_session = None, vr_user = None\<rparr>
     else automatic_session cr drawn address checked))))"

end
