(* ===== verification/AuthProperties.thy ===== *)
theory AuthProperties
  imports IdentityHistory AuthService
begin

text \<open>
  The properties of sessions, of the tokens and codes sent by mail and of the queue of mail, over
  single operations and over every history of them.
\<close>

section \<open>How operations end\<close>

text \<open>A step leaves a session revoked and a token consumed.\<close>

definition session_spent :: "string \<Rightarrow> identity_db \<Rightarrow> bool" where
  "session_spent hash d \<longleftrightarrow> (\<exists>s \<in> set (sessions d). se_hash s = hash \<and> se_revoked s \<noteq> None)"

definition token_spent :: "string \<Rightarrow> identity_db \<Rightarrow> bool" where
  "token_spent hash d \<longleftrightarrow> (\<exists>x \<in> set (id_tokens d). it_hash x = hash \<and> it_consumed x \<noteq> None)"

lemma session_spent_stays:
  assumes "advances d d1" "session_spent hash d"
  shows "session_spent hash d1"
proof -
  from assms(2) obtain s where s: "s \<in> set (sessions d)" "se_hash s = hash" "se_revoked s \<noteq> None" unfolding session_spent_def by blast
  from assms(1) s(1) obtain t where "t \<in> set (sessions d1)" "session_follows s t" by (auto simp: advances_def sessions_advance_def)
  with s show ?thesis unfolding session_spent_def session_follows_def by auto
qed

lemma token_spent_stays:
  assumes "advances d d1" "token_spent hash d"
  shows "token_spent hash d1"
proof -
  from assms(2) obtain x where x: "x \<in> set (id_tokens d)" "it_hash x = hash" "it_consumed x \<noteq> None" unfolding token_spent_def by blast
  from assms(1) x(1) obtain y where "y \<in> set (id_tokens d1)" "token_follows x y" by (auto simp: advances_def tokens_advance_def)
  with x show ?thesis unfolding token_spent_def token_follows_def by auto
qed

lemma spent_session_revoked:
  assumes "identity_inv d" "session_spent hash d" "s \<in> set (sessions d)" "se_hash s = hash"
  shows "se_revoked s \<noteq> None"
proof -
  from assms(2) obtain t where t: "t \<in> set (sessions d)" "se_hash t = hash" "se_revoked t \<noteq> None" unfolding session_spent_def by blast
  have "distinct (map se_hash (sessions d))" using assms(1) by (simp add: identity_inv_def sessions_ok_def)
  from distinct_key_unique [OF this assms(3) t(1)] assms(4) t(2,3) show ?thesis by simp
qed

lemma spent_token_unusable:
  assumes "identity_inv d" "token_spent hash d"
  shows "find_token purpose hash now d = None"
proof (rule ccontr)
  assume "find_token purpose hash now d \<noteq> None"
  then obtain x where "find_token purpose hash now d = Some x" by blast
  then have x: "x \<in> set (id_tokens d)" "it_hash x = hash" "it_consumed x = None"
    by (auto simp: find_token_def usable_token_def dest!: find_member)
  from assms(2) obtain y where y: "y \<in> set (id_tokens d)" "it_hash y = hash" "it_consumed y \<noteq> None" unfolding token_spent_def by blast
  have "distinct (map it_hash (id_tokens d))" using assms(1) by (simp add: identity_inv_def tokens_ok_def)
  from distinct_key_unique [OF this x(1) y(1)] x(2,3) y(2,3) show False by simp
qed

section \<open>Refresh tokens\<close>

text \<open>What a rotation that reads the session \<open>s\<close> goes on to do.\<close>

definition rotate_read :: "string \<Rightarrow> string \<Rightarrow> int \<Rightarrow> session \<Rightarrow> account \<Rightarrow> (account \<times> int) itx" where
  "rotate_read i new_hash expires s u =
     (if se_revoked s \<noteq> None then revoke_reused s
      else seq now_app (\<lambda>t.
        seq (reject_if (se_expires s \<le> t) (Repo ErrNotFound)) (\<lambda>_.
        seq (replace_session s i new_hash expires) (\<lambda>_.
        ret (u, se_auth_time s)))))"

lemma rotate_session_Inr:
  assumes "rotate_session hash i new_hash expires w = (Inr p, w1)"
  obtains s u w2 w3 where "s \<in> set (sessions (committed w))" "se_hash s = hash" "se_revoked s = None" "se_expires s > app_now w"
    "u \<in> set (accounts (committed w))" "ac_id u = se_user s" "account_enabled u" "p = (u, se_auth_time s)"
    "working w2 = committed w" "replace_session s i new_hash expires w2 = (Inr (), w3)" "committed w1 = committed w3"
proof -
  let ?w = "(ticked w)\<lparr>working := committed w\<rparr>"
  from assms obtain w4 where "ok_next w" and w1: "w1 = w4\<lparr>working := committed w4\<rparr>"
    and body: "\<exists>s u. first_row [(s, u). s \<leftarrow> sessions (committed w), u \<leftarrow> accounts (committed w),
        ac_id u = se_user s \<and> se_hash s = hash \<and> account_enabled u] = Some (s, u)
      \<and> rotate_read i new_hash expires s u (ticked (ticked (ticked ?w))) = (Inr p, w4)"
    unfolding rotate_session_def in_tx_Inr seq_run Let_def rotate_read_def [symmetric] by auto
  then obtain s u where row: "first_row [(s, u). s \<leftarrow> sessions (committed w), u \<leftarrow> accounts (committed w),
        ac_id u = se_user s \<and> se_hash s = hash \<and> account_enabled u] = Some (s, u)"
    and rr: "rotate_read i new_hash expires s u (ticked (ticked (ticked ?w))) = (Inr p, w4)" by blast
  from first_row_SomeD [OF row] have su: "s \<in> set (sessions (committed w))" "se_hash s = hash" "u \<in> set (accounts (committed w))"
    "ac_id u = se_user s" "account_enabled u" by auto
  have live: "se_revoked s = None"
    using rr by (auto simp: rotate_read_def revoke_reused_def seq_Inr throw_Inr split: if_splits)
  with rr have "seq now_app (\<lambda>t. seq (reject_if (se_expires s \<le> t) (Repo ErrNotFound)) (\<lambda>_.
        seq (replace_session s i new_hash expires) (\<lambda>_. ret (u, se_auth_time s)))) (ticked (ticked (ticked ?w))) = (Inr p, w4)"
    by (simp add: rotate_read_def)
  then obtain w3 where "app_now w < se_expires s" "replace_session s i new_hash expires (ticked (ticked (ticked ?w))) = (Inr (), w3)"
    "p = (u, se_auth_time s)" "w4 = w3"
    unfolding seq_now_Inr seq_reject_Inr by (auto simp: seq_Inr ret_Inr)
  with su live w1 show thesis by (intro that [of s u "ticked (ticked (ticked ?w))" w3]) simp_all
qed

text \<open>Without failures the statements run one after another.\<close>

lemma plain_run:
  assumes "faults w = []"
  shows "seq (query g) f w = f (g w) w" "seq (exec h) k w = k () (w\<lparr>working := h w\<rparr>)"
    "seq commit k w = k () (w\<lparr>committed := working w\<rparr>)" "seq now_app l w = l (app_now w) w"
    "in_tx m w = (case m (w\<lparr>working := committed w\<rparr>) of (r, w1) \<Rightarrow> (r, w1\<lparr>working := committed w1\<rparr>))"
  using assms by (simp_all add: seq_def query_def exec_def commit_def now_app_def in_tx_def tick_def)

lemma plain_checks: "seq (require (Some a) e) f w = f a w" "seq (reject_if False e) k w = k () w" "seq (reject_if True e) k w = (Inl e, w)"
  "seq (require None e) f w = (Inl e, w)"
  by (simp_all add: seq_def require_def reject_if_def ret_def throw_def)

lemma seq_ret: "seq (ret a) f w = f a w"
  by (simp add: seq_def ret_def)

lemma first_row_unique:
  assumes "r \<in> set rows" "\<And>x. x \<in> set rows \<Longrightarrow> x = r"
  shows "first_row rows = Some r"
proof (cases rows)
  case Nil
  with assms(1) show ?thesis by simp
next
  case (Cons x xs)
  then have "x = r" by (intro assms(2)) simp
  with Cons show ?thesis by (simp add: first_row_def)
qed

lemma find_session_eq:
  assumes "identity_inv d" "s \<in> set (sessions d)" "se_hash s = hash"
  shows "find_session hash d = Some s"
proof -
  have hashes: "distinct (map se_hash (sessions d))" using assms(1) by (simp add: identity_inv_def sessions_ok_def)
  from assms(2,3) have "find_session hash d \<noteq> None" by (auto simp: find_session_def find_None_iff)
  then obtain t where t: "find_session hash d = Some t" by blast
  then have "t \<in> set (sessions d)" "se_hash t = hash" by (auto simp: find_session_def dest!: find_member)
  from distinct_key_unique [OF hashes this(1) assms(2)] this(2) assms(3) have "t = s" by simp
  with t show ?thesis by simp
qed

lemma rotate_spent:
  assumes inv: "identity_inv (committed w)" and s: "s \<in> set (sessions (committed w))" "se_hash s = hash" "se_revoked s \<noteq> None"
    and u: "find_account (se_user s) (committed w) = Some u" "account_enabled u" and quiet: "faults w = []"
  shows "rotate_session hash i new_hash expires w = (Inl (Repo ErrSessionReuse),
     w\<lparr>working := set_sessions (\<lambda>x. se_family x = se_family s) (revoked (db_now w)) (committed w),
       committed := set_sessions (\<lambda>x. se_family x = se_family s) (revoked (db_now w)) (committed w)\<rparr>)"
proof -
  let ?d = "committed w"
  let ?rows = "[(s, u). s \<leftarrow> sessions ?d, u \<leftarrow> accounts ?d, ac_id u = se_user s \<and> se_hash s = hash \<and> account_enabled u]"
  have um: "u \<in> set (accounts ?d)" "ac_id u = se_user s" using u(1) by (auto simp: find_account_def dest!: find_member)
  have ids: "distinct (map ac_id (accounts ?d))" "distinct (map se_hash (sessions ?d))"
    using inv by (simp_all add: identity_inv_def accounts_ok_def sessions_ok_def)
  have "first_row ?rows = Some (s, u)"
  proof (rule first_row_unique)
    show "(s, u) \<in> set ?rows" using s um u(2) by auto
    fix x
    assume "x \<in> set ?rows"
    then obtain t v where x: "x = (t, v)" "t \<in> set (sessions ?d)" "v \<in> set (accounts ?d)" "ac_id v = se_user t" "se_hash t = hash" by auto
    from distinct_key_unique [OF ids(2) x(2) s(1)] x(5) s(2) have "t = s" by simp
    with distinct_key_unique [OF ids(1) x(3) um(1)] x(1,4) um(2) show "x = (s, u)" by simp
  qed
  with find_session_eq [OF inv s(1,2)] u s(3) quiet show ?thesis
    unfolding rotate_session_def by (simp add: plain_run plain_checks revoke_reused_def throw_def)
qed

lemma enabled_found:
  assumes "identity_inv d" "enabled_account user d = Some u"
  shows "find_account user d = Some u" "account_enabled u"
proof -
  from assms(2) have u: "u \<in> set (accounts d)" "ac_id u = user" "account_enabled u"
    by (auto simp: enabled_account_def dest!: find_member)
  have "distinct (map ac_id (accounts d))" using assms(1) by (simp add: identity_inv_def accounts_ok_def)
  from find_key [OF this u(1)] u show "find_account user d = Some u" "account_enabled u" by (simp_all add: find_account_def)
qed

lemma family_dead_after:
  assumes "identity_inv d" "s \<in> set (sessions d)"
  shows "family_dead (se_family s) (sessions (set_sessions (\<lambda>x. se_family x = se_family s) (revoked t) d))"
proof -
  have "revoked t s \<in> set (sessions (set_sessions (\<lambda>x. se_family x = se_family s) (revoked t) d))"
    using assms(2) by (auto simp: set_sessions_def mem_update_where)
  moreover have "se_family (revoked t s) = se_family s" by (simp add: revoked_def)
  ultimately have "se_family s \<in> se_family ` set (sessions (set_sessions (\<lambda>x. se_family x = se_family s) (revoked t) d))"
    by (metis image_eqI)
  then show ?thesis by (auto simp: family_dead_def set_sessions_def mem_update_where revoked_def)
qed

lemma replace_session_spends:
  assumes "replace_session s i new_hash expires w = (Inr u, w1)" "s \<in> set (sessions (working w))"
  shows "session_spent (se_hash s) (committed w1)"
proof -
  let ?f = "\<lambda>t x. x\<lparr>se_revoked := Some t, se_replaced := Some i, se_last_used := Some t\<rparr>"
  from assms(1) obtain w2 where "insert_session i (se_user s) new_hash expires (se_family s) (se_auth_time s) w = (Inr (), w2)"
    and w1: "committed w1 = set_sessions (\<lambda>x. se_id x = se_id s) (?f (db_now w2)) (working w2)"
    unfolding replace_session_def by (auto simp: seq_Inr exec_Inr commit_Inr)
  then have "s \<in> set (sessions (working w2))"
    using assms(2) by (auto simp: insert_session_def exec_ret_Inr Let_def split: if_splits)
  then have "?f (db_now w2) s \<in> set (sessions (committed w1))" unfolding w1 by (auto simp: set_sessions_def mem_update_where)
  then show ?thesis unfolding session_spent_def by (rule bexI [rotated]) simp
qed

lemma rotation_spends:
  assumes "rotate_session hash i new_hash expires w = (Inr p, w1)"
  shows "session_spent hash (committed w1)"
  using assms
proof (rule rotate_session_Inr)
  fix s u w2 w3
  assume s: "s \<in> set (sessions (committed w))" "se_hash s = hash" "working w2 = committed w" "committed w1 = committed w3"
    and run: "replace_session s i new_hash expires w2 = (Inr (), w3)"
  from replace_session_spends [OF run] s show ?thesis by simp
qed

text \<open>
  A database with a verified account and its session, an account that waits for its code, a link to reset
  the password and one to verify an address, and a mail to send.
\<close>

definition demo_account :: "int \<Rightarrow> string \<Rightarrow> int option \<Rightarrow> account" where
  "demo_account i email verified = \<lparr>ac_id = i, ac_email = email, ac_password = Some ''kept'', ac_google = None, ac_name = ''Ana'',
     ac_last_name = None, ac_alias = None, ac_photo = None, ac_tipo = ''CLIENTE_FINAL'', ac_activo = True, ac_deleted_at = None,
     ac_verified_at = verified, ac_auth_version = 1, ac_version = 1, ac_created = 1, ac_codigo = None, ac_first_login = None,
     ac_first_estimated = False\<rparr>"

definition demo_mail :: outbox_email where
  "demo_mail = \<lparr>ob_id = ''m1'', ob_user = Some 2, ob_kind = ''VERIFY_EMAIL'', ob_to = ''b@x.com'', ob_subject = ''Code'', ob_state = ''PENDING'',
     ob_attempts = 0, ob_available = 10, ob_lease_until = None, ob_lease_owner = None, ob_error = None, ob_sent_at = None,
     ob_created = 10, ob_ciphertext = Some ''c'', ob_nonce = Some ''n'', ob_token_expires = Some 9000\<rparr>"

definition demo_identity :: identity_db where
  "demo_identity = \<lparr>accounts = [demo_account 1 ''a@x.com'' (Some 5), demo_account 2 ''b@x.com'' None], brands = [], owners = [],
     sessions = [new_session ''s0'' 1 ''h0'' 5000 ''s0'' 50 50],
     id_tokens = [new_id_token ''t1'' 1 ''RESET_PASSWORD'' ''reset'' 5000, new_id_token ''t2'' 2 ''VERIFY_EMAIL'' ''verify'' 5000],
     email_codes = [\<lparr>ec_user = 2, ec_hash = ''right'', ec_expires = 9000, ec_attempts = 0, ec_sent = 10, ec_consumed = None,
       ec_registration = None, ec_registration_expires = None\<rparr>],
     outbox = [demo_mail]\<rparr>"

definition demo_auth :: "identity_db world" where
  "demo_auth = \<lparr>committed = demo_identity, working = demo_identity, faults = [], app_now = 100, db_now = 100, sent = []\<rparr>"

lemma demo_inv: "identity_inv demo_identity"
  by code_simp

definition demo_rotated :: "identity_db world" where
  "demo_rotated = snd (rotate_session ''h0'' ''s1'' ''h1'' 6000 demo_auth)"

definition demo_replayed :: "identity_db world" where
  "demo_replayed = snd (rotate_session ''h0'' ''s2'' ''h2'' 6000 demo_rotated)"

text \<open>
  C30. A refresh token is spent by its first use: after any history no other rotation of it succeeds,
  and its return, as long as the account is enabled and no statement fails, revokes the whole family of sessions for
  good.
\<close>

theorem refresh_token_single_use:
  assumes "identity_inv (committed w)" "find_session hash (committed w) = Some s"
    and "rotate_session hash i new_hash expires w = (Inr p, w1)"
    and "identity_step\<^sup>*\<^sup>* (committed w1) (committed w2)"
    and "rotate_session hash j other_hash until w2 = (r, w3)"
    and "identity_step\<^sup>*\<^sup>* (committed w3) d"
  shows "(\<exists>e. r = Inl e) \<and> (faults w2 = [] \<and> enabled_account (se_user s) (committed w2) \<noteq> None \<longrightarrow>
     r = Inl (Repo ErrSessionReuse) \<and> family_dead (se_family s) (sessions d))"
proof -
  have s: "s \<in> set (sessions (committed w))" "se_hash s = hash" using assms(2) by (auto simp: find_session_def dest!: find_member)
  have "identity_step (committed w) (committed w1)"
    using assms(3) by (intro identity_step.rotates) (auto simp: step_of_def)
  with assms(4) have "identity_step\<^sup>*\<^sup>* (committed w) (committed w2)" by (rule converse_rtranclp_into_rtranclp [rotated])
  note h = identity_history [OF this assms(1)]
  have spent: "session_spent hash (committed w2)"
    using identity_history(2) [OF assms(4)] identity_step_secure [OF \<open>identity_step (committed w) (committed w1)\<close> assms(1)]
      rotation_spends [OF assms(3)] session_spent_stays by blast
  from h(2) s obtain t where t: "t \<in> set (sessions (committed w2))" "se_hash t = hash" "se_user t = se_user s" "se_family t = se_family s"
    by (auto simp: advances_def sessions_advance_def session_follows_def)
  note dead = spent_session_revoked [OF h(1) spent t(1,2)]
  have no: "r \<noteq> Inr q" for q
  proof
    assume "r = Inr q"
    with assms(5) have "rotate_session hash j other_hash until w2 = (Inr q, w3)" by simp
    then show False by (rule rotate_session_Inr) (use spent_session_revoked [OF h(1) spent] in blast)
  qed
  have "r = Inl (Repo ErrSessionReuse) \<and> family_dead (se_family s) (sessions d)"
    if quiet: "faults w2 = []" and "enabled_account (se_user s) (committed w2) \<noteq> None"
  proof -
    from that(2) t(3) obtain u where u: "find_account (se_user t) (committed w2) = Some u" "account_enabled u"
      using enabled_found [OF h(1)] by (metis option.exhaust)
    from rotate_spent [OF h(1) t(1,2) dead u quiet] assms(5)
    have r: "r = Inl (Repo ErrSessionReuse)"
      and w3: "committed w3 = set_sessions (\<lambda>x. se_family x = se_family t) (revoked (db_now w2)) (committed w2)" by auto
    have "identity_step (committed w2) (committed w3)"
      using assms(5) by (intro identity_step.rotates) (auto simp: step_of_def)
    with h(1) have "identity_inv (committed w3)" by (blast dest: identity_step_secure)
    from identity_history(2) [OF assms(6) this] family_dead_after [OF h(1) t(1)] t(4) w3 r show ?thesis
      by (auto simp: advances_def sessions_advance_def)
  qed
  with no show ?thesis by (cases r) auto
qed

theorem refresh_token_single_use_witness:
  "fst (rotate_session ''h0'' ''s2'' ''h2'' 6000 demo_rotated) = Inl (Repo ErrSessionReuse)
   \<and> family_dead ''s0'' (sessions (committed demo_replayed))"
proof -
  have a: "rotate_session ''h0'' ''s1'' ''h1'' 6000 demo_auth = (Inr (demo_account 1 ''a@x.com'' (Some 5), 50), demo_rotated)"
    by (rule prod_eqI) (code_simp, simp add: demo_rotated_def)
  have b: "rotate_session ''h0'' ''s2'' ''h2'' 6000 demo_rotated = (fst (rotate_session ''h0'' ''s2'' ''h2'' 6000 demo_rotated), demo_replayed)"
    by (simp add: demo_replayed_def)
  have inv: "identity_inv (committed demo_auth)" using demo_inv by (simp add: demo_auth_def)
  have s: "find_session ''h0'' (committed demo_auth) = Some (new_session ''s0'' 1 ''h0'' 5000 ''s0'' 50 50)" by code_simp
  have q: "faults demo_rotated = [] \<and> enabled_account 1 (committed demo_rotated) \<noteq> None" by code_simp
  from refresh_token_single_use [OF inv s a rtranclp.rtrancl_refl b rtranclp.rtrancl_refl] q show ?thesis
    by (simp add: new_session_def)
qed

section \<open>Links sent by mail\<close>

lemma claim_token_Inr:
  assumes "claim_token purpose hash now w = (Inr x, w1)"
  shows "find_token purpose hash now (working w) = Some x" "enabled_account (it_user x) (working w) \<noteq> None"
    "working w1 = working w" "committed w1 = committed w"
  using assms unfolding claim_token_def seq_run by (auto simp: require_Inr)

lemma seq_claim_Inr:
  assumes "in_tx (seq (claim_token purpose hash now) f) w = (Inr r, w1)"
  obtains x w2 w3 where "find_token purpose hash now (committed w) = Some x" "enabled_account (it_user x) (committed w) \<noteq> None"
    "working w2 = committed w" "committed w2 = committed w" "f x w2 = (Inr r, w3)" "committed w1 = committed w3"
proof -
  from assms obtain w4 w3 x where "claim_token purpose hash now ((ticked w)\<lparr>working := committed w\<rparr>) = (Inr x, w4)"
    "f x w4 = (Inr r, w3)" "committed w1 = committed w3"
    by (auto simp: in_tx_Inr seq_Inr)
  with claim_token_Inr [OF this(1)] show thesis by (intro that [of x w4 w3]) simp_all
qed

lemma find_token_Some:
  assumes "find_token purpose hash now d = Some x"
  shows "x \<in> set (id_tokens d)" "it_hash x = hash" "it_purpose x = purpose" "it_consumed x = None"
  using assms by (auto simp: find_token_def usable_token_def dest!: find_member)

lemma consumed_spends:
  assumes "x \<in> set (id_tokens d)" "it_hash x = hash" "p x"
  shows "token_spent hash (set_tokens p (token_consumed t) d)"
proof -
  have "token_consumed t x \<in> set (id_tokens (set_tokens p (token_consumed t) d))"
    using assms(1,3) by (auto simp: set_tokens_def mem_update_where)
  then show ?thesis unfolding token_spent_def by (rule bexI [rotated]) (simp add: token_consumed_def assms(2))
qed

lemma token_spent_tables [simp]:
  "token_spent hash (set_sessions p f d) = token_spent hash d" "token_spent hash (set_accounts p1 f1 d) = token_spent hash d"
  "token_spent hash (set_codes p2 f2 d) = token_spent hash d" "token_spent hash (set_outbox p3 f3 d) = token_spent hash d"
  by (simp_all add: token_spent_def set_sessions_def set_accounts_def set_codes_def set_outbox_def)

lemma set_accounts_tables [simp]: "id_tokens (set_accounts p f d) = id_tokens d" "sessions (set_accounts p f d) = sessions d"
  by (simp_all add: set_accounts_def)

lemma update_enabled_Inr:
  assumes "update_enabled p f w = (Inr u, w1)"
  shows "working w1 = set_accounts (\<lambda>a. account_enabled a \<and> p a) f (working w)"
  using assms by (auto simp: update_enabled_def seq_Inr exec_ret_Inr reject_if_Inr Let_def)

lemma reset_password_Inr:
  assumes "reset_password hash password now w = (Inr u, w1)"
  obtains x where "find_token ''RESET_PASSWORD'' hash now (committed w) = Some x"
    "committed w1 = set_sessions (\<lambda>s. se_user s = it_user x) (revoked now)
       (set_tokens (\<lambda>y. it_user y = it_user x \<and> it_purpose y = ''RESET_PASSWORD'' \<and> it_consumed y = None) (token_consumed now)
         (set_accounts (\<lambda>a. account_enabled a \<and> ac_id a = it_user x)
           (\<lambda>a. a\<lparr>ac_password := Some password, ac_auth_version := ac_auth_version a + 1\<rparr>) (committed w)))"
  using assms unfolding reset_password_def
  by (elim seq_claim_Inr) (auto simp: seq_Inr consume_tokens_def revoke_user_sessions_def exec_Inr commit_Inr dest!: update_enabled_Inr)

lemma verify_email_Inr:
  assumes "verify_email hash now w = (Inr u, w1)"
  shows "find_token ''VERIFY_EMAIL'' hash now (committed w) \<noteq> None" "token_spent hash (committed w1)"
proof -
  from assms obtain x w2 w3 where x: "find_token ''VERIFY_EMAIL'' hash now (committed w) = Some x" "working w2 = committed w"
    and w3: "seq (update_enabled (\<lambda>a. ac_id a = it_user x) (\<lambda>a. a\<lparr>ac_verified_at := Some (coalesce (ac_verified_at a) now)\<rparr>)) (\<lambda>_.
       seq (exec (\<lambda>w. set_tokens (\<lambda>y. it_id y = it_id x) (token_consumed now) (working w))) (\<lambda>_.
       seq (exec (\<lambda>w. set_codes (\<lambda>c. ec_user c = it_user x \<and> ec_consumed c = None)
         (\<lambda>c. c\<lparr>ec_consumed := Some now, ec_registration := None, ec_registration_expires := None\<rparr>) (working w))) (\<lambda>_.
       seq (drop_verifications (it_user x) ''verification completed'') (\<lambda>_. commit)))) w2 = (Inr u, w3)" "committed w1 = committed w3"
    unfolding verify_email_def by (elim seq_claim_Inr)
  show "find_token ''VERIFY_EMAIL'' hash now (committed w) \<noteq> None" using x by simp
  from w3(1) obtain w4 where "update_enabled (\<lambda>a. ac_id a = it_user x) (\<lambda>a. a\<lparr>ac_verified_at := Some (coalesce (ac_verified_at a) now)\<rparr>) w2 = (Inr (), w4)"
    and c: "token_spent hash (committed w3) = token_spent hash (set_tokens (\<lambda>y. it_id y = it_id x) (token_consumed now) (working w4))"
    by (auto simp: seq_Inr drop_verifications_def exec_Inr commit_Inr)
  from update_enabled_Inr [OF this(1)] x(2) have "id_tokens (working w4) = id_tokens (committed w)" by simp
  with find_token_Some [OF x(1)] w3(2) c show "token_spent hash (committed w1)" by (auto intro!: consumed_spends)
qed

lemma confirm_email_change_Inr:
  assumes "confirm_email_change hash now w = (Inr u, w1)"
  shows "find_token ''CHANGE_EMAIL'' hash now (committed w) \<noteq> None" "token_spent hash (committed w1)"
proof -
  from assms obtain x w2 w3 where x: "find_token ''CHANGE_EMAIL'' hash now (committed w) = Some x" "working w2 = committed w"
    and w3: "seq (update_email x now) (\<lambda>_. seq (revoke_user_sessions (it_user x) now) (\<lambda>_.
       seq (consume_tokens (it_user x) ''CHANGE_EMAIL'' now) (\<lambda>_. commit))) w2 = (Inr u, w3)" "committed w1 = committed w3"
    unfolding confirm_email_change_def by (elim seq_claim_Inr)
  show "find_token ''CHANGE_EMAIL'' hash now (committed w) \<noteq> None" using x by simp
  from w3(1) obtain w4 where u: "update_email x now w2 = (Inr (), w4)"
    and c: "committed w3 = set_tokens (\<lambda>y. it_user y = it_user x \<and> it_purpose y = ''CHANGE_EMAIL'' \<and> it_consumed y = None)
       (token_consumed now) (set_sessions (\<lambda>s. se_user s = it_user x) (revoked now) (working w4))"
    by (auto simp: seq_Inr consume_tokens_def revoke_user_sessions_def exec_Inr commit_Inr)
  from u have "id_tokens (working w4) = id_tokens (committed w)"
    using x(2) by (auto simp: update_email_def seq_Inr exec_ret_Inr reject_if_Inr Let_def split: if_splits)
  with find_token_Some [OF x(1)] w3(2) c show "token_spent hash (committed w1)"
    by (auto intro!: consumed_spends simp: set_sessions_def)
qed

text \<open>The three ways to use up a link.\<close>

definition confirms :: "string \<Rightarrow> unit itx \<Rightarrow> bool" where
  "confirms hash m \<longleftrightarrow> (\<exists>now password. m = verify_email hash now \<or> m = reset_password hash password now \<or> m = confirm_email_change hash now)"

lemma confirms_intros:
  "confirms hash (verify_email hash now)" "confirms hash (reset_password hash password now)" "confirms hash (confirm_email_change hash now)"
  by (auto simp: confirms_def)

lemma confirmsE:
  assumes "confirms hash m"
  obtains (verifies) now where "m = verify_email hash now" | (resets) now password where "m = reset_password hash password now"
    | (changes) now where "m = confirm_email_change hash now"
  using assms unfolding confirms_def by (elim exE disjE)

lemma step_ofI: "m w = (r, w1) \<Longrightarrow> step_of m (committed w) (committed w1)"
  unfolding step_of_def by blast

lemma confirms_step:
  assumes "confirms hash m" "m w = (r, w1)"
  shows "identity_step (committed w) (committed w1)"
  using assms(1)
proof (cases rule: confirmsE)
  case verifies
  with step_ofI [where m = m, OF assms(2)] identity_step.verifies show ?thesis by simp
next
  case resets
  with step_ofI [where m = m, OF assms(2)] identity_step.resets show ?thesis by simp
next
  case changes
  with step_ofI [where m = m, OF assms(2)] identity_step.changes show ?thesis by simp
qed

lemma reset_spends:
  assumes "reset_password hash password now w = (Inr u, w1)"
  shows "find_token ''RESET_PASSWORD'' hash now (committed w) \<noteq> None" "token_spent hash (committed w1)"
proof -
  from assms obtain x where x: "find_token ''RESET_PASSWORD'' hash now (committed w) = Some x"
    "committed w1 = set_sessions (\<lambda>s. se_user s = it_user x) (revoked now)
       (set_tokens (\<lambda>y. it_user y = it_user x \<and> it_purpose y = ''RESET_PASSWORD'' \<and> it_consumed y = None) (token_consumed now)
         (set_accounts (\<lambda>a. account_enabled a \<and> ac_id a = it_user x)
           (\<lambda>a. a\<lparr>ac_password := Some password, ac_auth_version := ac_auth_version a + 1\<rparr>) (committed w)))"
    by (rule reset_password_Inr)
  then show "find_token ''RESET_PASSWORD'' hash now (committed w) \<noteq> None" by simp
  from find_token_Some [OF x(1)] show "token_spent hash (committed w1)"
    unfolding x(2) token_spent_tables by (intro consumed_spends) simp_all
qed

lemma confirms_Inr:
  assumes "confirms hash m" "m w = (Inr u, w1)"
  shows "token_spent hash (committed w1) \<and> (\<exists>purpose now. find_token purpose hash now (committed w) \<noteq> None)"
  using assms(1)
proof (cases rule: confirmsE)
  case verifies
  with verify_email_Inr assms(2) show ?thesis by blast
next
  case resets
  with reset_spends assms(2) show ?thesis by blast
next
  case changes
  with confirm_email_change_Inr assms(2) show ?thesis by blast
qed

text \<open>
  C32. A link sent by mail works once: after a confirmation of an address, a reset of a password or a change of address
  with it, no confirmation with the same token succeeds, whatever happens in between.
\<close>

theorem email_token_once:
  assumes "identity_inv (committed w)" "confirms hash m" "m w = (Inr u, w1)"
    and "identity_step\<^sup>*\<^sup>* (committed w1) (committed w2)" "confirms hash n"
  shows "\<exists>e. fst (n w2) = Inl e"
proof -
  have one: "identity_inv (committed w1)" using identity_step_secure [OF confirms_step [OF assms(2,3)] assms(1)] by blast
  note h = identity_history [OF assms(4) one]
  have spent: "token_spent hash (committed w2)" by (rule token_spent_stays [OF h(2) confirms_Inr [OF assms(2,3), THEN conjunct1]])
  show ?thesis
  proof (cases "n w2")
    case (Pair r w3)
    show ?thesis
    proof (cases r)
      case (Inr v)
      with Pair have "n w2 = (Inr v, w3)" by simp
      from confirms_Inr [OF assms(5) this] spent_token_unusable [OF h(1) spent] show ?thesis by simp
    qed (use Pair in simp)
  qed
qed

definition demo_verified_link :: "identity_db world" where
  "demo_verified_link = snd (verify_email ''verify'' 200 demo_auth)"

lemma demo_verifies: "verify_email ''verify'' 200 demo_auth = (Inr (), demo_verified_link)"
  by (rule prod_eqI) (code_simp, simp add: demo_verified_link_def)

theorem email_token_once_witness: "\<exists>e. fst (verify_email ''verify'' 300 demo_verified_link) = Inl e"
proof -
  have "identity_inv (committed demo_auth)" using demo_inv by (simp add: demo_auth_def)
  from email_token_once [OF this confirms_intros(1) demo_verifies rtranclp.rtrancl_refl confirms_intros(1)] show ?thesis .
qed

text \<open>An update that raises the version of an account is seen by every later state.\<close>

lemma version_grew:
  assumes "identity_inv d" "identity_inv d2" "advances d1 d2"
    and "accounts d1 = update_where (\<lambda>a. account_enabled a \<and> ac_id a = user)
      (\<lambda>a. a\<lparr>ac_password := Some password, ac_auth_version := ac_auth_version a + 1\<rparr>) (accounts d)"
    and "find_account user d = Some a" "account_enabled a"
    and "b \<in> set (accounts d2)" "ac_id b = user" "ac_auth_version b = version"
  shows "ac_auth_version a < version"
proof -
  let ?a = "a\<lparr>ac_password := Some password, ac_auth_version := ac_auth_version a + 1\<rparr>"
  have a: "a \<in> set (accounts d)" "ac_id a = user" using assms(5) by (auto simp: find_account_def dest!: find_member)
  then have "?a \<in> set (accounts d1)" using assms(6) unfolding assms(4) by (auto simp: mem_update_where)
  then obtain i where i: "i < length (accounts d1)" "accounts d1 ! i = ?a" by (auto simp: in_set_conv_nth)
  from assms(3) have all: "list_all2 (\<lambda>a b. ac_id b = ac_id a \<and> ac_auth_version a \<le> ac_auth_version b) (accounts d1) (accounts d2)"
    by (simp add: advances_def accounts_advance_def)
  from list_all2_nthD [OF all i(1)] i(2) have c: "ac_id (accounts d2 ! i) = user" "ac_auth_version a + 1 \<le> ac_auth_version (accounts d2 ! i)"
    using a(2) by simp_all
  have "accounts d2 ! i \<in> set (accounts d2)" using i(1) list_all2_lengthD [OF all] by simp
  moreover have "distinct (map ac_id (accounts d2))" using assms(2) by (simp add: identity_inv_def accounts_ok_def)
  moreover have "ac_id (accounts d2 ! i) = ac_id b" using assms(8) c(1) by simp
  ultimately have "accounts d2 ! i = b" using distinct_key_unique [OF _ _ assms(7), of ac_id] by blast
  with c(2) assms(9) show ?thesis by simp
qed

lemma active_session_Inr:
  assumes "active_session_account_type user i version w = (Inr t, w1)"
  shows "\<exists>s \<in> set (sessions (committed w)). \<exists>u \<in> set (accounts (committed w)). session_live (db_now w) user i version s u \<and> t = ac_tipo u"
proof -
  from assms have "first_row [ac_tipo u. s \<leftarrow> sessions (committed w), u \<leftarrow> accounts (committed w),
      session_live (db_now w) user i version s u] = Some t"
    unfolding active_session_account_type_def seq_run Let_def by (auto simp: require_Inr)
  from first_row_SomeD [OF this] show ?thesis by auto
qed

lemma reset_enabled:
  assumes "identity_inv (committed w)" "reset_password hash password now w = (Inr u, w1)"
    and "find_token ''RESET_PASSWORD'' hash now (committed w) = Some x" "find_account (it_user x) (committed w) = Some a"
  shows "account_enabled a"
proof -
  from assms(2,3) have "enabled_account (it_user x) (committed w) \<noteq> None"
    unfolding reset_password_def by (elim seq_claim_Inr) simp
  then obtain b where "enabled_account (it_user x) (committed w) = Some b" by blast
  from enabled_found [OF assms(1) this] assms(4) show ?thesis by simp
qed

text \<open>
  C31. A reset of the password ends every session of the account: in any later state a request is answered
  as that account only with a session opened after the reset and under a newer version of the account, and the link of
  the reset is spent.
\<close>

theorem password_reset_ends_sessions:
  assumes "identity_inv (committed w)" "reset_password hash password now w = (Inr u, w1)"
    and "find_token ''RESET_PASSWORD'' hash now (committed w) = Some x" "find_account (it_user x) (committed w) = Some a"
    and "identity_step\<^sup>*\<^sup>* (committed w1) (committed w2)"
  shows "token_spent hash (committed w2) \<and>
     (\<forall>i version t w3. active_session_account_type (it_user x) i version w2 = (Inr t, w3) \<longrightarrow>
        i \<notin> se_id ` set (sessions (committed w)) \<and> ac_auth_version a < version)"
proof -
  have one: "identity_inv (committed w1)" using identity_step_secure [OF confirms_step [OF confirms_intros(2) assms(2)] assms(1)] by blast
  note h = identity_history [OF assms(5) one]
  let ?f = "\<lambda>a. a\<lparr>ac_password := Some password, ac_auth_version := ac_auth_version a + 1\<rparr>"
  from assms(2,3) have w1: "committed w1 = set_sessions (\<lambda>s. se_user s = it_user x) (revoked now)
       (set_tokens (\<lambda>y. it_user y = it_user x \<and> it_purpose y = ''RESET_PASSWORD'' \<and> it_consumed y = None) (token_consumed now)
         (set_accounts (\<lambda>a. account_enabled a \<and> ac_id a = it_user x) ?f (committed w)))"
    by (elim reset_password_Inr) simp
  have "i \<notin> se_id ` set (sessions (committed w)) \<and> ac_auth_version a < version"
    if live: "active_session_account_type (it_user x) i version w2 = (Inr t, w3)" for i version t w3
  proof -
    from live obtain s b where s: "s \<in> set (sessions (committed w2))" "se_id s = i" "se_user s = it_user x" "se_revoked s = None"
      and b: "b \<in> set (accounts (committed w2))" "ac_id b = it_user x" "ac_auth_version b = version"
      using active_session_Inr [OF live] unfolding session_live_def by auto
    have "i \<notin> se_id ` set (sessions (committed w))"
    proof
      assume "i \<in> se_id ` set (sessions (committed w))"
      then obtain o1 where o1: "o1 \<in> set (sessions (committed w))" "se_id o1 = i" by auto
      define o2 where "o2 = (if se_user o1 = it_user x then revoked now o1 else o1)"
      have "o2 \<in> set (sessions (committed w1))"
        using o1(1) unfolding w1 o2_def by (auto simp: set_sessions_def set_tokens_def mem_update_where)
      with h(2) obtain o3 where o3: "o3 \<in> set (sessions (committed w2))" "session_follows o2 o3"
        by (auto simp: advances_def sessions_advance_def)
      have "se_id o3 = se_id s" using o3(2) o1(2) s(2) by (simp add: session_follows_def o2_def revoked_def split: if_splits)
      moreover have "distinct (map se_id (sessions (committed w2)))" using h(1) by (simp add: identity_inv_def sessions_ok_def)
      ultimately have "o3 = s" by (intro distinct_key_unique [OF _ o3(1) s(1)])
      with o3(2) have fol: "session_follows o2 s" by (simp only:)
      show False
      proof (cases "se_user o1 = it_user x")
        case True
        with fol have "se_revoked s \<noteq> None" by (simp add: session_follows_def o2_def revoked_def)
        with s(4) show False by contradiction
      next
        case False
        with fol s(3) show False by (simp add: session_follows_def o2_def)
      qed
    qed
    moreover have "ac_auth_version a < version"
      by (rule version_grew [OF assms(1) h(1,2) _ assms(4) reset_enabled [OF assms(1,2,3,4)] b]) (simp add: w1 set_sessions_def set_tokens_def set_accounts_def)
    ultimately show ?thesis by blast
  qed
  with token_spent_stays [OF h(2) reset_spends(2) [OF assms(2)]] show ?thesis by blast
qed

definition demo_reset :: "identity_db world" where
  "demo_reset = snd (reset_password ''reset'' ''new'' 200 demo_auth)"

lemma demo_resets: "reset_password ''reset'' ''new'' 200 demo_auth = (Inr (), demo_reset)"
  by (rule prod_eqI) (code_simp, simp add: demo_reset_def)

theorem password_reset_ends_sessions_witness:
  "token_spent ''reset'' (committed demo_reset) \<and> isl (fst (active_session_account_type 1 ''s0'' 1 demo_reset))"
proof -
  have inv: "identity_inv (committed demo_auth)" using demo_inv by (simp add: demo_auth_def)
  have x: "find_token ''RESET_PASSWORD'' ''reset'' 200 (committed demo_auth) = Some (new_id_token ''t1'' 1 ''RESET_PASSWORD'' ''reset'' 5000)"
    "find_account (it_user (new_id_token ''t1'' 1 ''RESET_PASSWORD'' ''reset'' 5000)) (committed demo_auth) = Some (demo_account 1 ''a@x.com'' (Some 5))"
    by code_simp+
  note r = password_reset_ends_sessions [OF inv demo_resets x rtranclp.rtrancl_refl]
  have old: "''s0'' \<in> se_id ` set (sessions (committed demo_auth))" by code_simp
  have "isl (fst (active_session_account_type 1 ''s0'' 1 demo_reset))"
  proof (rule ccontr)
    assume "\<not> isl (fst (active_session_account_type 1 ''s0'' 1 demo_reset))"
    then obtain t where "active_session_account_type 1 ''s0'' 1 demo_reset = (Inr t, snd (active_session_account_type 1 ''s0'' 1 demo_reset))"
      by (metis prod.collapse sum.collapse(2))
    with r [THEN conjunct2, unfolded new_id_token_def id_token.simps, rule_format] old show False by blast
  qed
  with r show ?thesis by blast
qed

section \<open>Codes sent by mail\<close>

text \<open>A caller tries one code after the other, each with its hash and at its time.\<close>

primrec try_codes :: "crypto \<Rightarrow> string \<Rightarrow> (string \<times> int) list \<Rightarrow> identity_db world \<Rightarrow> (err + (int \<times> int) \<times> bool) list \<times> identity_db world" where
  "try_codes cr email [] w = ([], w)"
| "try_codes cr email (g # gs) w =
     (case confirm_verification_code cr email (fst g) '''' (snd g) w of (r, w1) \<Rightarrow>
      case try_codes cr email gs w1 of (rs, w2) \<Rightarrow> (r # rs, w2))"

text \<open>A code that is not compared any more.\<close>

definition code_closed :: "int \<Rightarrow> email_code \<Rightarrow> bool" where
  "code_closed now c \<longleftrightarrow> ec_consumed c \<noteq> None \<or> ec_expires c \<le> now \<or> 5 \<le> ec_attempts c"

text \<open>What one guess does without failures: it is refused unchecked, counted or accepted.\<close>

lemma guess_run:
  assumes "faults w = []" and a: "account_by_email (\<lambda>a. ac_verified_at a = None) email (committed w) = Some a"
    and c: "List.find (\<lambda>c. ec_user c = ac_id a) (email_codes (committed w)) = Some c" and wrong: "code_closed now c \<or> hash \<noteq> ec_hash c"
    and run: "confirm_verification_code cr email hash registration now w = (r, w1)"
  shows "r = Inl identity_token_invalid" "faults w1 = []" "accounts (committed w1) = accounts (committed w)"
    "code_closed now c \<and> email_codes (committed w1) = email_codes (committed w) \<or>
     \<not> code_closed now c \<and> email_codes (committed w1) = update_where (\<lambda>c. ec_user c = ac_id a) (\<lambda>c. c\<lparr>ec_attempts := ec_attempts c + 1\<rparr>) (email_codes (committed w))"
proof -
  let ?w = "w\<lparr>working := committed w\<rparr>"
  let ?closed = "code_closed now c"
  have start: "confirm_verification_code cr email hash registration now w =
     (case seq (reject_if ?closed identity_token_invalid) (\<lambda>_. if hash \<noteq> ec_hash c then wrong_code (ac_id a) (ec_attempts c) now
       else accept_code cr a c registration now) ?w of (r, w1) \<Rightarrow> (r, w1\<lparr>working := committed w1\<rparr>))"
    using assms(1) a c unfolding confirm_verification_code_def code_closed_def by (simp add: plain_run plain_checks)
  have "r = Inl identity_token_invalid \<and> faults w1 = [] \<and> accounts (committed w1) = accounts (committed w) \<and>
     (?closed \<and> email_codes (committed w1) = email_codes (committed w) \<or> \<not> ?closed \<and>
      email_codes (committed w1) = update_where (\<lambda>c. ec_user c = ac_id a) (\<lambda>c. c\<lparr>ec_attempts := ec_attempts c + 1\<rparr>) (email_codes (committed w)))"
  proof (cases ?closed)
    case True
    then show ?thesis using run assms(1) unfolding start by (simp add: plain_checks) auto
  next
    case False
    with wrong have "hash \<noteq> ec_hash c" by simp
    with False run assms(1) show ?thesis unfolding start wrong_code_def
      by (cases "ec_attempts c = 4")
        (auto simp: plain_checks plain_run consume_tokens_def seq_ret throw_def set_codes_def set_tokens_def)
  qed
  then show "r = Inl identity_token_invalid" "faults w1 = []" "accounts (committed w1) = accounts (committed w)"
    "code_closed now c \<and> email_codes (committed w1) = email_codes (committed w) \<or>
     \<not> code_closed now c \<and> email_codes (committed w1) = update_where (\<lambda>c. ec_user c = ac_id a) (\<lambda>c. c\<lparr>ec_attempts := ec_attempts c + 1\<rparr>) (email_codes (committed w))"
    by blast+
qed

lemma find_updated:
  assumes "\<And>x. k (f x) = k x"
  shows "List.find (\<lambda>x. k x = v) (update_where (\<lambda>x. k x = v) f xs) = map_option f (List.find (\<lambda>x. k x = v) xs)"
  using assms by (induction xs) auto

lemma guesses_refused:
  assumes "faults w = []" "account_by_email (\<lambda>a. ac_verified_at a = None) email (committed w) = Some a"
    and "List.find (\<lambda>c. ec_user c = ac_id a) (email_codes (committed w)) = Some c"
    and "ec_hash c \<notin> fst ` set (take (nat (5 - ec_attempts c)) gs) \<or> list_all (\<lambda>g. code_closed (snd g) c) gs"
    and "sorted (map snd gs)" "try_codes cr email gs w = (rs, w1)"
  shows "set rs \<subseteq> {Inl identity_token_invalid} \<and> accounts (committed w1) = accounts (committed w)"
  using assms
proof (induction gs arbitrary: w c rs w1)
  case Nil
  then show ?case by simp
next
  case (Cons g gs)
  obtain r w2 where g: "confirm_verification_code cr email (fst g) '''' (snd g) w = (r, w2)" by (cases "confirm_verification_code cr email (fst g) '''' (snd g) w")
  obtain qs w3 where t: "try_codes cr email gs w2 = (qs, w3)" by (cases "try_codes cr email gs w2")
  from Cons.prems(6) g t have rs: "rs = r # qs" "w1 = w3" by auto
  let ?c = "c\<lparr>ec_attempts := ec_attempts c + 1\<rparr>"
  have wrong: "code_closed (snd g) c \<or> fst g \<noteq> ec_hash c"
  proof (cases "ec_attempts c < 5")
    case True
    then obtain n where "nat (5 - ec_attempts c) = Suc n" by (metis diff_gt_0_iff_gt not0_implies_Suc zero_less_nat_eq less_irrefl)
    with Cons.prems(4) show ?thesis by auto
  next
    case False
    then show ?thesis by (simp add: code_closed_def)
  qed
  note run = guess_run [OF Cons.prems(1-3) wrong g]
  have same: "account_by_email (\<lambda>a. ac_verified_at a = None) email (committed w2) = Some a"
    using Cons.prems(2) run(3) by (simp add: account_by_email_def)
  have sorted: "sorted (map snd gs)" using Cons.prems(5) by simp
  have "set qs \<subseteq> {Inl identity_token_invalid} \<and> accounts (committed w3) = accounts (committed w2)"
    using run(4)
  proof (elim disjE conjE)
    assume closed: "code_closed (snd g) c" and codes: "email_codes (committed w2) = email_codes (committed w)"
    have "list_all (\<lambda>h. code_closed (snd h) c) gs"
      using closed Cons.prems(5) by (fastforce simp: list_all_iff code_closed_def)
    with Cons.IH [OF run(2) same _ _ sorted t, of c] Cons.prems(3) codes show ?thesis by simp
  next
    assume opened: "\<not> code_closed (snd g) c"
      and codes: "email_codes (committed w2) = update_where (\<lambda>c. ec_user c = ac_id a) (\<lambda>c. c\<lparr>ec_attempts := ec_attempts c + 1\<rparr>) (email_codes (committed w))"
    have "ec_attempts c < 5" using opened by (simp add: code_closed_def)
    then have "nat (5 - ec_attempts c) = Suc (nat (5 - ec_attempts ?c))" by (simp add: Suc_nat_eq_nat_zadd1)
    with Cons.prems(4) opened have "ec_hash ?c \<notin> fst ` set (take (nat (5 - ec_attempts ?c)) gs)" by auto
    moreover have "List.find (\<lambda>c. ec_user c = ac_id a) (email_codes (committed w2)) = Some ?c"
      unfolding codes using Cons.prems(3) by (subst find_updated) simp_all
    ultimately show ?thesis using Cons.IH [OF run(2) same _ _ sorted t, of ?c] by simp
  qed
  with run(1,3) rs show ?case by simp
qed

text \<open>
  C33. At most five codes are compared with the one that was sent: unless the right one is among the tries that are left,
  every try of an increasing sequence, with no failed statement and no other operation in between, is refused alike,
  however long it is, and the account stays as it was.
\<close>

theorem code_guesses_bounded:
  assumes "faults w = []" "account_by_email (\<lambda>a. ac_verified_at a = None) email (committed w) = Some a"
    and "List.find (\<lambda>c. ec_user c = ac_id a) (email_codes (committed w)) = Some c"
    and "ec_hash c \<notin> fst ` set (take (nat (5 - ec_attempts c)) gs)"
    and "sorted (map snd gs)" "try_codes cr email gs w = (rs, w1)"
  shows "set rs \<subseteq> {Inl identity_token_invalid} \<and> accounts (committed w1) = accounts (committed w)"
  using assms guesses_refused [of w email a c gs cr rs w1] by simp

definition demo_crypto :: crypto where
  "demo_crypto = \<lparr>cr_mac = (\<lambda>k v. k @ v), cr_sha = id, cr_b64 = id, cr_seal = (\<lambda>t i. Inr (t, i)), cr_key = replicate 32 (CHR ''k'')\<rparr>"

definition demo_guesses :: "(string \<times> int) list" where
  "demo_guesses = [(''g1'', 200), (''g2'', 201), (''g3'', 202), (''g4'', 203), (''g5'', 204), (''right'', 205)]"

theorem code_guesses_bounded_witness:
  "set (fst (try_codes demo_crypto ''b@x.com'' demo_guesses demo_auth)) \<subseteq> {Inl identity_token_invalid}"
proof -
  have "List.find (\<lambda>c. ec_user c = ac_id (demo_account 2 ''b@x.com'' None)) (email_codes (committed demo_auth)) = Some
    \<lparr>ec_user = 2, ec_hash = ''right'', ec_expires = 9000, ec_attempts = 0, ec_sent = 10, ec_consumed = None,
       ec_registration = None, ec_registration_expires = None\<rparr>" by code_simp
  moreover have "account_by_email (\<lambda>a. ac_verified_at a = None) ''b@x.com'' (committed demo_auth) = Some (demo_account 2 ''b@x.com'' None)" by code_simp
  moreover have "faults demo_auth = []" "sorted (map snd demo_guesses)" by code_simp+
  moreover have "''right'' \<notin> fst ` set (take (nat (5 - 0)) demo_guesses)" by code_simp
  ultimately show ?thesis using code_guesses_bounded [of demo_auth] by (metis email_code.select_convs(2,4) prod.collapse)
qed

section \<open>The queue of mail\<close>

definition expired_mail :: "int \<Rightarrow> outbox_email \<Rightarrow> bool" where
  "expired_mail t e \<longleftrightarrow> open_state (ob_state e) \<and> (case ob_token_expires e of None \<Rightarrow> False | Some x \<Rightarrow> x \<le> t)"

definition after_expiry :: "int \<Rightarrow> identity_db \<Rightarrow> identity_db" where
  "after_expiry t d = set_outbox (expired_mail t) (dropped ''identity token expired'') d"

lemma expire_outbox_Inr:
  assumes "expire_outbox w = (Inr u, w1)"
  shows "committed w1 = after_expiry (db_now w) (committed w)" "db_now w1 = db_now w"
  using assms unfolding expire_outbox_def pool_exec_Inr after_expiry_def expired_mail_def [abs_def] by (auto cong: option.case_cong)

lemma claim_emails_Inr:
  assumes "claim_emails limit owner w = (Inr es, w1)"
  shows "committed w1 = set_outbox (\<lambda>e. ob_id e \<in> set (claim_candidates limit (db_now w) (after_expiry (db_now w) (committed w))))
      (leased owner (db_now w)) (after_expiry (db_now w) (committed w))"
    "es = filter (\<lambda>e. ob_id e \<in> set (claim_candidates limit (db_now w) (after_expiry (db_now w) (committed w)))) (outbox (committed w1))"
proof -
  let ?ids = "\<lambda>d. set (claim_candidates limit (db_now w) d)"
  from assms obtain w2 where x: "expire_outbox w = (Inr (), w2)" and c: "pool_exec (\<lambda>w. let d = working w; ids = claim_candidates limit (db_now w) d;
         d1 = set_outbox (\<lambda>e. ob_id e \<in> set ids) (leased owner (db_now w)) d in
       Inr (filter (\<lambda>e. ob_id e \<in> set ids) (outbox d1), d1)) w2 = (Inr es, w1)"
    unfolding claim_emails_def seq_Inr by auto
  from expire_outbox_Inr [OF x] c show "committed w1 = set_outbox (\<lambda>e. ob_id e \<in> ?ids (after_expiry (db_now w) (committed w)))
      (leased owner (db_now w)) (after_expiry (db_now w) (committed w))"
    "es = filter (\<lambda>e. ob_id e \<in> ?ids (after_expiry (db_now w) (committed w))) (outbox (committed w1))"
    by (auto simp: pool_exec_Inr Let_def)
qed

lemma outbox_after_expiry:
  assumes "outbox_ok (outbox d)"
  shows "outbox_ok (outbox (after_expiry t d))"
proof -
  have "mail_ok e" if "e \<in> set (outbox d)" for e using assms that by (simp add: outbox_ok_def)
  then have "outbox_ok (update_where (expired_mail t) (dropped ''identity token expired'') (outbox d))"
    by (intro outbox_update [OF assms] mail_changes(1)) (simp_all add: expired_mail_def)
  then show ?thesis by (simp add: after_expiry_def set_outbox_def)
qed

lemma claims_bounded:
  assumes "outbox_ok (outbox d)" "distinct ids" "length ids \<le> n"
  shows "length (filter (\<lambda>e. ob_id e \<in> set ids) (outbox d)) \<le> n"
proof -
  let ?es = "filter (\<lambda>e. ob_id e \<in> set ids) (outbox d)"
  have "distinct (map ob_id ?es)" using assms(1) by (simp add: outbox_ok_def distinct_map_filter)
  then have "length ?es = card (set (map ob_id ?es))" by (metis distinct_card length_map)
  also have "\<dots> \<le> card (set ids)" by (rule card_mono) auto
  also have "\<dots> \<le> length ids" by (rule card_length)
  finally show ?thesis using assms(3) by simp
qed

lemma candidates:
  assumes "outbox_ok (outbox d)"
  shows "distinct (claim_candidates limit t d)" "length (claim_candidates limit t d) \<le> limit"
proof -
  have "distinct (map ob_id (outbox d))" using assms by (simp add: outbox_ok_def)
  then have "distinct (map ob_id (sort_key ob_created (filter (claimable t) (outbox d))))"
    by (metis distinct_map_filter distinct_map distinct_sort set_sort)
  then show "distinct (claim_candidates limit t d)" unfolding claim_candidates_def by (metis distinct_take take_map)
qed (simp add: claim_candidates_def)

text \<open>
  A mail is sent by one worker at a time: what a worker claims is no more than it asked for and under its own lease, and
  until two minutes later no other claim returns any of it.
\<close>

lemma mail_lease_exclusive:
  assumes "identity_inv (committed w)" "claim_emails limit owner w = (Inr es, w1)"
    and "claim_emails limit2 owner2 w2 = (Inr fs, w3)" "committed w2 = committed w1" "db_now w2 \<le> db_now w + 2 * one_minute"
  shows "length es \<le> limit \<and> list_all (\<lambda>e. held (ob_id e) owner e) es \<and> set (map ob_id es) \<inter> set (map ob_id fs) = {}"
proof -
  let ?d = "after_expiry (db_now w) (committed w)"
  let ?ids = "claim_candidates limit (db_now w) ?d"
  let ?d2 = "after_expiry (db_now w2) (committed w2)"
  note c1 = claim_emails_Inr [OF assms(2)]
  note c2 = claim_emails_Inr [OF assms(3)]
  have ok: "outbox_ok (outbox (committed w))" using assms(1) by (simp add: identity_inv_def)
  have "identity_step (committed w) (committed w1)" using step_ofI [where m = "claim_emails limit owner", OF assms(2)] by (rule identity_step.claims_mail)
  then have ok1: "outbox_ok (outbox (committed w1))" using identity_step_secure [OF _ assms(1)] by (simp add: identity_inv_def)
  have ok2: "outbox_ok (outbox ?d2)" using ok1 assms(4) outbox_after_expiry by simp
  have lease: "ob_state e = ''SENDING'' \<and> ob_lease_owner e = Some owner \<and> ob_lease_until e = Some (db_now w + 2 * one_minute)"
    if "e \<in> set es" for e
  proof -
    from that have "e \<in> set (outbox (committed w1))" and e: "ob_id e \<in> set ?ids" unfolding c1(2) by simp_all
    then obtain x where x: "e = (if ob_id x \<in> set ?ids then leased owner (db_now w) x else x)"
      unfolding c1(1) set_outbox_def by (auto simp: mem_update_where)
    with e have "e = leased owner (db_now w) x" by (cases "ob_id x \<in> set ?ids") simp_all
    then show ?thesis by (simp add: leased_def)
  qed
  have "length es \<le> limit"
    unfolding c1(2) by (rule claims_bounded [OF ok1]) (use candidates [OF outbox_after_expiry [OF ok]] in blast)+
  moreover have "list_all (\<lambda>e. held (ob_id e) owner e) es" using lease by (auto simp: list_all_iff held_def)
  moreover have "ob_id e \<noteq> ob_id f" if e: "e \<in> set es" and f: "f \<in> set fs" for e f
  proof
    assume same: "ob_id e = ob_id f"
    let ?e = "if expired_mail (db_now w2) e then dropped ''identity token expired'' e else e"
    have "e \<in> set (outbox (committed w2))" using e unfolding assms(4) c1(2) by simp
    then have mem: "?e \<in> set (outbox ?d2)" by (auto simp: after_expiry_def set_outbox_def mem_update_where)
    have "ob_id ?e \<in> set (claim_candidates limit2 (db_now w2) ?d2)" using f same unfolding c2(2) by (auto simp: dropped_def)
    from claimed_row [OF ok2 mem this] lease [OF e] assms(5) show False
      by (auto simp: claimable_def dropped_def split: if_splits option.splits)
  qed
  ultimately show ?thesis by auto
qed

definition demo_claimed_mail :: "outbox_email list \<times> identity_db world" where
  "demo_claimed_mail = (case claim_emails 5 ''w1'' demo_auth of (r, w) \<Rightarrow> (projr r, w))"

lemma mail_lease_exclusive_example:
  "list_all (\<lambda>e. held (ob_id e) ''w1'' e) (fst demo_claimed_mail) \<and> length (fst demo_claimed_mail) = 1
   \<and> set (map ob_id (fst demo_claimed_mail)) \<inter> set (map ob_id (projr (fst (claim_emails 5 ''w2'' (snd demo_claimed_mail))))) = {}"
proof -
  have inv: "identity_inv (committed demo_auth)" using demo_inv by (simp add: demo_auth_def)
  have a: "claim_emails 5 ''w1'' demo_auth = (Inr (fst demo_claimed_mail), snd demo_claimed_mail)" by code_simp
  have b: "claim_emails 5 ''w2'' (snd demo_claimed_mail) = (Inr (projr (fst (claim_emails 5 ''w2'' (snd demo_claimed_mail)))), snd (claim_emails 5 ''w2'' (snd demo_claimed_mail)))"
    by code_simp
  have t: "db_now (snd demo_claimed_mail) \<le> db_now demo_auth + 2 * one_minute" by code_simp
  have "length (fst demo_claimed_mail) = 1" by code_simp
  with mail_lease_exclusive [OF inv a b refl t] show ?thesis by blast
qed

section \<open>From a password to an accepted request\<close>

lemma create_session_Inr:
  assumes "create_session i user hash expires auth_time version w = (Inr r, w1)"
  obtains a where "enabled_account user (committed w) = Some a" "ac_auth_version a = version"
    "accounts (committed w1) = update_where (\<lambda>a. ac_id a = user) (first_login user auth_time) (accounts (committed w))"
    "new_session i user hash expires i auth_time (db_now w) \<in> set (sessions (committed w1))"
proof -
  define w2 where "w2 = ticked (ticked w\<lparr>working := committed w\<rparr>)"
  then have w2: "working w2 = committed w" "db_now w2 = db_now w" by simp_all
  from assms obtain a w3 w4 where a: "enabled_account user (committed w) = Some a" "ac_auth_version a = version"
    and r: "record_first_login user auth_time w2 = (Inr (), w3)"
    and i: "insert_session i user hash expires i auth_time w3 = (Inr (), w4)" and w1: "committed w1 = working w4"
    unfolding create_session_def in_tx_Inr seq_run w2_def by (auto simp: seq_Inr commit_Inr)
  from r have w3: "accounts (working w3) = update_where (\<lambda>a. ac_id a = user) (first_login user auth_time) (accounts (committed w))" "db_now w3 = db_now w"
    using w2 by (auto simp: record_first_login_def seq_Inr exec_Inr start_trials_def set_accounts_def split: option.split)
  from i have "sessions (working w4) = sessions (working w3) @ [new_session i user hash expires i auth_time (db_now w3)]"
    "accounts (working w4) = accounts (working w3)"
    by (auto simp: insert_session_def exec_ret_Inr Let_def split: if_splits)
  with a w3 w1 show thesis by (intro that [of a]) simp_all
qed

lemma session_accepted:
  assumes "identity_inv (committed w)" "s \<in> set (sessions (committed w))" "a \<in> set (accounts (committed w))"
    and "session_live (db_now w) user i version s a" "faults w = []"
  shows "active_session_account_type user i version w = (Inr (ac_tipo a), w)"
proof -
  let ?d = "committed w"
  have ids: "distinct (map ac_id (accounts ?d))" "distinct (map se_id (sessions ?d))"
    using assms(1) by (simp_all add: identity_inv_def accounts_ok_def sessions_ok_def)
  have "first_row [ac_tipo u. s \<leftarrow> sessions ?d, u \<leftarrow> accounts ?d, session_live (db_now w) user i version s u] = Some (ac_tipo a)"
  proof (rule first_row_unique)
    show "ac_tipo a \<in> set [ac_tipo u. s \<leftarrow> sessions ?d, u \<leftarrow> accounts ?d, session_live (db_now w) user i version s u]"
      using assms(2-4) by auto
    fix x
    assume "x \<in> set [ac_tipo u. s \<leftarrow> sessions ?d, u \<leftarrow> accounts ?d, session_live (db_now w) user i version s u]"
    then obtain b where b: "b \<in> set (accounts ?d)" "ac_id b = user" "x = ac_tipo b" by (auto simp: session_live_def)
    have "ac_id b = ac_id a" using b(2) assms(4) by (simp add: session_live_def)
    from distinct_key_unique [OF ids(1) b(1) assms(3) this] b(3) show "x = ac_tipo a" by simp
  qed
  with assms(5) show ?thesis unfolding active_session_account_type_def by (simp add: plain_run require_def ret_def Let_def)
qed

lemma renamed_Inr: "renamed from to m w = (Inr a, w1) \<longleftrightarrow> m w = (Inr a, w1)"
  by (auto simp: renamed_def catch_Inr throw_Inr)

lemma get_user_by_email_Inr:
  assumes "get_user_by_email email w = (Inr u, w1)"
  shows "u \<in> set (accounts (committed w))" "ac_deleted_at u = None" "committed w1 = committed w" "app_now w1 = app_now w" "db_now w1 = db_now w"
proof -
  from assms have "List.find (\<lambda>a. ci_equal (ac_email a) email \<and> ac_deleted_at a = None) (accounts (committed w)) = Some u \<and> w1 = ticked w"
    unfolding get_user_by_email_def seq_run by (auto simp: require_Inr)
  then show "u \<in> set (accounts (committed w))" "ac_deleted_at u = None" "committed w1 = committed w" "app_now w1 = app_now w" "db_now w1 = db_now w"
    by (auto dest!: find_member)
qed

lemma check_password_Inr:
  assumes "check_password compare stored given w = (Inr u, w1)"
  shows "w1 = w" "\<exists>h. stored = Some h \<and> compare h given = Password_right"
  using assms by (auto simp: check_password_def throw_Inr ret_Inr split: option.splits password_verdict.splits)

lemma issue_session_Inr:
  assumes "issue_session cr drawn u w = (Inr s, w1)"
  obtains i raw where "drawn = Inr (i, raw)" "is_refresh s = raw"
    "is_access s = generate_for_session (app_now w1) (ac_id u) (ac_tipo u) i (app_now w) (ac_auth_version u)"
    "create_session i (ac_id u) (cr_sha cr raw) (app_now w + refresh_lifetime) (app_now w) (ac_auth_version u) w = (Inr (), w1)"
proof (cases drawn)
  case (Inl e)
  with assms show thesis by (simp add: issue_session_def lift_sum_def new_session_credentials_def seq_now_Inr) (simp add: seq_Inr throw_Inr)
next
  case (Inr p)
  obtain i raw where "p = (i, raw)" by (cases p)
  with assms Inr show thesis
    by (intro that [of i raw]) (auto simp: issue_session_def lift_sum_def new_session_credentials_def session_for_def seq_Inr
      now_app_Inr ret_Inr renamed_Inr)
qed

lemma login_Inr:
  assumes "login cr parse_address compare drawn email password w = (Inr (s, u), w1)"
  obtains h w2 where "u \<in> set (accounts (committed w))" "ac_deleted_at u = None" "ac_activo u" "ac_verified_at u \<noteq> None"
    "ac_password u = Some h" "compare h password = Password_right"
    "committed w2 = committed w" "db_now w2 = db_now w" "app_now w2 = app_now w" "issue_session cr drawn u w2 = (Inr s, w1)"
proof -
  from assms obtain address w2 where g: "get_user_by_email address w = (Inr u, w2)" and a: "ac_activo u" "ac_verified_at u \<noteq> None"
    and c: "check_password compare (ac_password u) password w2 = (Inr (), w2)" and i: "issue_session cr drawn u w2 = (Inr s, w1)"
    by (auto simp: login_def seq_Inr require_Inr renamed_Inr reject_if_Inr ret_Inr dest: check_password_Inr(1))
  from check_password_Inr(2) [OF c] obtain h where "ac_password u = Some h" "compare h password = Password_right" by blast
  with get_user_by_email_Inr [OF g] a i show thesis by (intro that [of h w2])
qed

lemma login_session_live:
  assumes inv: "identity_inv (committed w)" and u: "u \<in> set (accounts (committed w))"
    and run: "create_session i (ac_id u) hash expires auth_time (ac_auth_version u) w = (Inr (), w1)"
    and w2: "committed w2 = committed w1" "faults w2 = []" "db_now w2 < expires"
  shows "account_enabled u" "active_session_account_type (ac_id u) i (ac_auth_version u) w2 = (Inr (ac_tipo u), w2)"
proof -
  from run obtain a where a: "enabled_account (ac_id u) (committed w) = Some a"
    and us: "accounts (committed w1) = update_where (\<lambda>a. ac_id a = ac_id u) (first_login (ac_id u) auth_time) (accounts (committed w))"
    and s: "new_session i (ac_id u) hash expires i auth_time (db_now w) \<in> set (sessions (committed w1))"
    by (rule create_session_Inr)
  have ids: "distinct (map ac_id (accounts (committed w)))" using inv by (simp add: identity_inv_def accounts_ok_def)
  from enabled_found [OF inv a] find_key [OF ids u] have "a = u" by (simp add: find_account_def)
  with enabled_found(2) [OF inv a] show enabled: "account_enabled u" by simp
  have "identity_step (committed w) (committed w1)"
    using step_ofI [where m = "create_session i (ac_id u) hash expires auth_time (ac_auth_version u)", OF run] by (rule identity_step.logs_in)
  then have inv1: "identity_inv (committed w2)" using identity_step_secure [OF _ inv] w2(1) by simp
  let ?u = "first_login (ac_id u) auth_time u"
  have "?u \<in> set (accounts (committed w2))" using u us w2(1) by (auto simp: mem_update_where)
  moreover have "session_live (db_now w2) (ac_id u) i (ac_auth_version u) (new_session i (ac_id u) hash expires i auth_time (db_now w)) ?u"
    using enabled w2(3) by (simp add: session_live_def new_session_def first_login_def account_enabled_def)
  ultimately have "active_session_account_type (ac_id u) i (ac_auth_version u) w2 = (Inr (ac_tipo ?u), w2)"
    using s w2(1) by (intro session_accepted [OF inv1 _ _ _ w2(2)]) simp_all
  then show "active_session_account_type (ac_id u) i (ac_auth_version u) w2 = (Inr (ac_tipo u), w2)" by (simp add: first_login_def)
qed

text \<open>
  C34. Who logs in knew the password of a verified and enabled account, and the access token that is issued is answered as that
  account until it expires (given that reading the token returns what was signed).
\<close>

theorem login_opens_session:
  assumes "identity_inv (committed w)" "login cr parse_address compare drawn email password w = (Inr (s, u), w1)"
    and "committed w2 = committed w1" "faults w2 = []" "db_now w2 < app_now w + refresh_lifetime"
    and "read_token raw = Some (is_access s)" "uuid_ok (cl_id (is_access s))" "raw \<noteq> ''''"
    and "one_second \<le> app_now w" "app_now w \<le> now" "now < cl_expires (is_access s) * one_second"
    and "0 < ac_id u" "ac_id u < 2 ^ 63" "ac_tipo u = ''CLIENTE_FINAL'' \<or> ac_tipo u = ''PERSONAL_MARCA''"
  shows "(\<exists>h. ac_password u = Some h \<and> compare h password = Password_right) \<and> ac_verified_at u \<noteq> None \<and> account_enabled u \<and>
    require_auth read_token uuid_ok now (''Bearer '' @ raw) w2 = (Inr (Actor \<lparr>at_id = ac_id u, at_account_type = ac_tipo u,
      at_session = cl_id (is_access s), at_auth_time = app_now w div one_second, at_auth_version = ac_auth_version u\<rparr>), w2)"
proof -
  from assms(2) obtain h w3 where u: "u \<in> set (accounts (committed w))" "ac_verified_at u \<noteq> None"
    "ac_password u = Some h" "compare h password = Password_right" and w3: "committed w3 = committed w" "app_now w3 = app_now w"
    and issue: "issue_session cr drawn u w3 = (Inr s, w1)"
    by (rule login_Inr)
  from issue obtain i token where s: "is_access s = generate_for_session (app_now w1) (ac_id u) (ac_tipo u) i (app_now w3) (ac_auth_version u)"
    and c: "create_session i (ac_id u) (cr_sha cr token) (app_now w3 + refresh_lifetime) (app_now w3) (ac_auth_version u) w3 = (Inr (), w1)"
    by (rule issue_session_Inr)
  have inv3: "identity_inv (committed w3)" using assms(1) w3(1) by simp
  have u3: "u \<in> set (accounts (committed w3))" using u(1) w3(1) by simp
  note live = login_session_live [OF inv3 u3 c assms(3,4)]
  have version: "0 < ac_auth_version u" using assms(1) u(1) by (simp add: identity_inv_def accounts_ok_def)
  have time: "1 \<le> app_now w div one_second" "app_now w div one_second \<le> now div one_second"
    using assms(9,10) by (simp_all add: one_second_def zdiv_mono1 pos_imp_zdiv_pos_iff int_one_le_iff_zero_less)
  have "parse_session_context read_token uuid_ok now raw =
     Some (ac_id u, ac_tipo u, cl_id (is_access s), ac_auth_version u, app_now w div one_second)"
    using assms(6,7,11-14) version time w3(2)
    by (auto simp: parse_session_context_def s generate_for_session_def parse_signed_show_int)
  moreover have "cl_id (is_access s) = i" by (simp add: s generate_for_session_def)
  ultimately have "require_auth read_token uuid_ok now (''Bearer '' @ raw) w2 = (Inr (Actor \<lparr>at_id = ac_id u, at_account_type = ac_tipo u,
      at_session = cl_id (is_access s), at_auth_time = app_now w div one_second, at_auth_version = ac_auth_version u\<rparr>), w2)"
    using assms(5,8) live w3(2) by (simp add: require_auth_def has_prefix_def outcome_of_def seq_def ret_def)
  with u live(1) assms(5) w3(2) show ?thesis by simp
qed

definition demo_login :: "(issued \<times> account) \<times> identity_db world" where
  "demo_login = (case login demo_crypto Some (\<lambda>h p. if p = h then Password_right else Password_wrong) (Inr (''s9'', ''raw''))
     ''A@x.com'' ''kept'' (demo_auth\<lparr>app_now := 5000000000\<rparr>) of (r, w) \<Rightarrow> (projr r, w))"

theorem login_opens_session_witness:
  "fst (require_auth (\<lambda>t. if t = ''jwt'' then Some (is_access (fst (fst demo_login))) else None) (\<lambda>i. i = ''s9'') 6000000000 ''Bearer jwt'' (snd demo_login)) =
   Inr (Actor \<lparr>at_id = 1, at_account_type = ''CLIENTE_FINAL'', at_session = ''s9'', at_auth_time = 5, at_auth_version = 1\<rparr>)"
proof -
  let ?read = "\<lambda>t. if t = ''jwt'' then Some (is_access (fst (fst demo_login))) else None"
  let ?ok = "\<lambda>i. i = ''s9''"
  let ?w = "demo_auth\<lparr>app_now := 5000000000\<rparr>"
  have inv: "identity_inv (committed ?w)" using demo_inv by (simp add: demo_auth_def)
  have a: "login demo_crypto Some (\<lambda>h p. if p = h then Password_right else Password_wrong) (Inr (''s9'', ''raw''))
     ''A@x.com'' ''kept'' ?w = (Inr (fst (fst demo_login), snd (fst demo_login)), snd demo_login)" by code_simp
  have b: "faults (snd demo_login) = []" "db_now (snd demo_login) < app_now ?w + refresh_lifetime"
    "?ok (cl_id (is_access (fst (fst demo_login))))" "one_second \<le> app_now ?w"
    "6000000000 < cl_expires (is_access (fst (fst demo_login))) * one_second"
    and c: "snd (fst demo_login) = demo_account 1 ''a@x.com'' (Some 5)" "cl_id (is_access (fst (fst demo_login))) = ''s9''"
    and d: "app_now ?w \<le> 6000000000" "app_now ?w div one_second = 5"
    by code_simp+
  have e: "?read ''jwt'' = Some (is_access (fst (fst demo_login)))" "''jwt'' \<noteq> ''''" by simp_all
  have f: "0 < ac_id (snd (fst demo_login))" "ac_id (snd (fst demo_login)) < 2 ^ 63"
    "ac_tipo (snd (fst demo_login)) = ''CLIENTE_FINAL'' \<or> ac_tipo (snd (fst demo_login)) = ''PERSONAL_MARCA''"
    unfolding c by (simp_all add: demo_account_def)
  from login_opens_session [where read_token = ?read and raw = "''jwt''" and uuid_ok = ?ok, OF inv a refl b(1,2) e(1) b(3) e(2) b(4) d(1) b(5) f] show ?thesis
    unfolding c d by (simp add: demo_account_def)
qed

section \<open>The tables of identity\<close>

text \<open>
  C35. After any history of logins, rotations, mails and confirmations, with any statement failing anywhere: identifiers, hashes
  and addresses are unique, a family has at most one live session and one owner, an account at most one open token of a
  purpose, no code has more than five tries and no mail that is over keeps its payload; and a revoked
  session, a dead family, a used token or the version of an account never comes back.
\<close>

theorem identity_tables_sound:
  assumes "identity_step\<^sup>*\<^sup>* d d1" "identity_inv d"
  shows "identity_inv d1 \<and> advances d d1"
  using identity_history [OF assms] by blast

theorem identity_tables_sound_witness:
  "identity_inv (committed demo_rotated) \<and> advances demo_identity (committed demo_rotated)"
proof -
  have "rotate_session ''h0'' ''s1'' ''h1'' 6000 demo_auth = (fst (rotate_session ''h0'' ''s1'' ''h1'' 6000 demo_auth), demo_rotated)"
    by (simp add: demo_rotated_def)
  from step_ofI [where m = "rotate_session ''h0'' ''s1'' ''h1'' 6000", OF this]
  have "identity_step demo_identity (committed demo_rotated)" by (intro identity_step.rotates) (simp add: demo_auth_def)
  from identity_tables_sound [OF r_into_rtranclp [where r = identity_step, OF this] demo_inv] show ?thesis .
qed

end
