(* ===== verification/MailWorker.thy ===== *)
theory MailWorker
  imports Outbox Contracts "HOL-Library.Sublist"
begin

text \<open>
  The worker that sends the queue of mail (\<^verbatim>\<open>mailer/worker.go\<close>): one round of \<open>flush\<close>. What AES-GCM
  opens, whether a payload reads as JSON, the answers of the delivery budget and of the mail server are given per
  mail in a record \<open>delivery\<close>, and the check of the mails of other components as a parameter. How a message
  looks is left out, and with it the logo of an invitation.
\<close>

record delivery =
  dl_opened :: "err + string"
  dl_readable :: bool
  dl_global :: "err + (bool \<times> int)"
  dl_recipient :: "err + (bool \<times> int)"
  dl_sent :: "err option"

definition decrypt_outbox_token :: "crypto \<Rightarrow> err + string \<Rightarrow> err + string" where
  "decrypt_outbox_token cr opened =
     (if length (cr_key cr) \<noteq> 32 then Inl (GoError ''secure outbox encryption key is unavailable'')
      else case opened of Inl _ \<Rightarrow> Inl (GoError ''secure outbox payload is invalid'') | Inr token \<Rightarrow> Inr token)"

definition validate_claimed_email ::
  "crypto \<Rightarrow> (outbox_email \<Rightarrow> string \<Rightarrow> unit itx) \<Rightarrow> outbox_email \<Rightarrow> string \<Rightarrow> unit itx" where
  "validate_claimed_email cr other item token =
     (if ob_kind item \<in> {''SUBSCRIPTION_CONFIRMATION'', ''INFLUENCER_WELCOME'', ''BRAND_INVITATION''} then other item token
      else validate_claimed_identity cr item (coalesce (ob_lease_owner item) '''') token)"

definition ignored :: "'a itx \<Rightarrow> unit itx" where
  "ignored m = seq (outcome_of m) (\<lambda>_. ret ())"

definition error_text :: "err \<Rightarrow> string" where
  "error_text e = (case e of GoError s \<Rightarrow> s | _ \<Rightarrow> '''')"

definition give_up :: "outbox_email \<Rightarrow> int \<Rightarrow> string \<Rightarrow> unit itx" where
  "give_up item attempts reason =
     ignored (mark_email_failed (ob_id item) (coalesce (ob_lease_owner item) '''') attempts reason)"

text \<open>The message of a kind, or the number of attempts and the reason that are noted when there is none.\<close>

definition compose :: "crypto \<Rightarrow> delivery \<Rightarrow> outbox_email \<Rightarrow> string \<Rightarrow> (int \<times> string) option itx" where
  "compose cr answers item token =
     (if ob_kind item = ''SUBSCRIPTION_CONFIRMATION'' then
        ret (if dl_readable answers then None else Some (5, ''invalid subscription email payload''))
      else if ob_kind item = ''INFLUENCER_WELCOME'' then
        ret (if dl_readable answers then None else Some (5, ''invalid influencer email payload''))
      else if ob_kind item = ''VERIFY_EMAIL'' then
        (if has_prefix token ''code:'' then
           seq (outcome_of (verification_activation_token cr item (trim_prefix token ''code:''))) (\<lambda>link.
           ret (case link of Inl _ \<Rightarrow> Some (ob_attempts item, ''activation link lookup failed'') | Inr _ \<Rightarrow> None))
         else ret None)
      else if ob_kind item \<in> {''CHANGE_EMAIL'', ''RESET_PASSWORD'', ''BRAND_INVITATION''} then ret None
      else ret (Some (5, ''unknown email template'')))"

text \<open>\<open>Some retry\<close> when the budget does not allow the delivery now; the recipient's is asked after the global one.\<close>

definition over_budget :: "bool \<Rightarrow> delivery \<Rightarrow> int option" where
  "over_budget budgeted answers =
     (if \<not> budgeted then None
      else case dl_global answers of
        Inl _ \<Rightarrow> Some 60
      | Inr (allowed, retry) \<Rightarrow>
          if \<not> allowed then Some retry
          else (case dl_recipient answers of
            Inl _ \<Rightarrow> Some 60
          | Inr (allowed_too, retry_too) \<Rightarrow> if allowed_too then None else Some retry_too))"

definition send_composed :: "bool \<Rightarrow> delivery \<Rightarrow> outbox_email \<Rightarrow> unit itx" where
  "send_composed budgeted answers item = (let owner = coalesce (ob_lease_owner item) '''' in
     case over_budget budgeted answers of
       Some retry \<Rightarrow> ignored (defer_email (ob_id item) owner retry)
     | None \<Rightarrow>
         seq (call_out (''mail'', ob_id item, ob_attempts item) (dl_sent answers)) (\<lambda>answer.
         case answer of
           Some e \<Rightarrow> give_up item (ob_attempts item) (error_text e)
         | None \<Rightarrow> ignored (mark_email_sent (ob_id item) owner)))"

definition deliver :: "crypto \<Rightarrow> (outbox_email \<Rightarrow> string \<Rightarrow> unit itx) \<Rightarrow> bool \<Rightarrow> delivery \<Rightarrow> outbox_email \<Rightarrow> unit itx" where
  "deliver cr other budgeted answers item =
     seq (outcome_of (case decrypt_outbox_token cr (dl_opened answers) of Inl e \<Rightarrow> throw e
       | Inr token \<Rightarrow> seq (validate_claimed_email cr other item token) (\<lambda>_. ret token))) (\<lambda>checked.
     seq now_app (\<lambda>now.
     case checked of
       Inl e \<Rightarrow> give_up item 5 (error_text e)
     | Inr token \<Rightarrow>
         if coalesce (ob_token_expires item) 0 \<le> now then give_up item 5 ''identity token expired''
         else
           seq (compose cr answers item token) (\<lambda>broken.
           case broken of
             Some (attempts, reason) \<Rightarrow> give_up item attempts reason
           | None \<Rightarrow> send_composed budgeted answers item)))"

primrec deliver_all ::
  "crypto \<Rightarrow> (outbox_email \<Rightarrow> string \<Rightarrow> unit itx) \<Rightarrow> bool \<Rightarrow> (outbox_email \<Rightarrow> delivery) \<Rightarrow> outbox_email list \<Rightarrow> unit itx" where
  "deliver_all cr other budgeted answers [] = ret ()"
| "deliver_all cr other budgeted answers (item # items) =
     seq (deliver cr other budgeted (answers item) item) (\<lambda>_. deliver_all cr other budgeted answers items)"

text \<open>\<open>owner\<close> is the identifier the claim draws for its lease.\<close>

definition flush ::
  "crypto \<Rightarrow> (outbox_email \<Rightarrow> string \<Rightarrow> unit itx) \<Rightarrow> bool \<Rightarrow> (outbox_email \<Rightarrow> delivery) \<Rightarrow> string \<Rightarrow> unit itx" where
  "flush cr other budgeted answers owner =
     seq (outcome_of (claim_emails 20 owner)) (\<lambda>claimed.
     case claimed of Inl _ \<Rightarrow> ret () | Inr items \<Rightarrow> deliver_all cr other budgeted answers items)"

section \<open>A round hands each mail over at most once\<close>

lemma silent_more [call_rules]:
  "silent m \<Longrightarrow> silent (outcome_of m)" "silent (pool_exec g)"
  by (auto simp: silent_def outcome_of_def pool_exec_def seq_def tick_def split: prod.splits list.splits option.splits sum.splits)

lemma silent_sum [call_rules]:
  "(\<And>e. x = Inl e \<Longrightarrow> silent (g e)) \<Longrightarrow> (\<And>a. x = Inr a \<Longrightarrow> silent (f a)) \<Longrightarrow>
   silent (case x of Inl e \<Rightarrow> g e | Inr a \<Rightarrow> f a)"
  by (simp split: sum.split)

lemma silent_marks [call_rules]:
  "silent (mark_email_sent i owner)" "silent (mark_email_failed i owner n reason)" "silent (defer_email i owner retry)"
  "silent (claim_emails limit owner)" "silent (expire_outbox)"
  unfolding mark_email_sent_def mark_email_failed_def defer_email_def claim_emails_def expire_outbox_def Let_def
  by (intro call_rules)+

lemma silent_ignored [call_rules]: "silent m \<Longrightarrow> silent (ignored m)"
  unfolding ignored_def by (intro call_rules)

lemma silent_parts [call_rules]:
  "silent (give_up item n reason)" "silent (compose cr answers item token)"
  "(\<And>x t. silent (other x t)) \<Longrightarrow> silent (validate_claimed_email cr other item token)"
  unfolding give_up_def compose_def validate_claimed_email_def validate_claimed_identity_def validate_claimed_code_def
    validate_claimed_change_def verification_activation_token_def Let_def
  by (intro call_rules; simp)+

definition hands_over :: "string list \<Rightarrow> 'a itx \<Rightarrow> bool" where
  "hands_over ids m \<longleftrightarrow> (\<forall>w r w1. m w = (r, w1) \<longrightarrow> (\<exists>cs. sent w1 = sent w @ cs \<and> subseq (map (fst \<circ> snd) cs) ids))"

lemma hands_overD: "hands_over ids m \<Longrightarrow> m w = (r, w1) \<Longrightarrow> \<exists>cs. sent w1 = sent w @ cs \<and> subseq (map (fst \<circ> snd) cs) ids"
  unfolding hands_over_def by blast

lemma hands_over_silent: "silent m \<Longrightarrow> hands_over ids m"
  unfolding hands_over_def silent_def by (auto intro!: exI [of _ "[]"])

lemma hands_over_seq:
  assumes "hands_over ids m" "\<And>a. hands_over js (f a)"
  shows "hands_over (ids @ js) (seq m f)"
  unfolding hands_over_def
proof (intro allI impI)
  fix w r w1
  assume run: "seq m f w = (r, w1)"
  obtain r2 w2 where m: "m w = (r2, w2)" by (cases "m w")
  from hands_overD [OF assms(1) m] obtain cs where cs: "sent w2 = sent w @ cs" "subseq (map (fst \<circ> snd) cs) ids" by blast
  show "\<exists>cs. sent w1 = sent w @ cs \<and> subseq (map (fst \<circ> snd) cs) (ids @ js)"
  proof (cases r2)
    case (Inl e)
    with run m cs show ?thesis by (intro exI [of _ cs]) (simp add: seq_def list_emb_append_mono [OF cs(2) list_emb_Nil, simplified])
  next
    case (Inr a)
    with run m have "f a w2 = (r, w1)" by (simp add: seq_def)
    from hands_overD [OF assms(2) this] obtain ds where "sent w1 = sent w2 @ ds" "subseq (map (fst \<circ> snd) ds) js" by blast
    with cs show ?thesis by (intro exI [of _ "cs @ ds"]) (simp add: list_emb_append_mono)
  qed
qed

lemma hands_over_after: "silent m \<Longrightarrow> (\<And>a. hands_over ids (f a)) \<Longrightarrow> hands_over ids (seq m f)"
  using hands_over_seq [OF hands_over_silent [of m "[]"], of ids f] by simp

lemma hands_over_split:
  "(b \<Longrightarrow> hands_over ids m) \<Longrightarrow> (\<not> b \<Longrightarrow> hands_over ids k) \<Longrightarrow> hands_over ids (if b then m else k)"
  "(x = None \<Longrightarrow> hands_over ids m) \<Longrightarrow> (\<And>a. x = Some a \<Longrightarrow> hands_over ids (f a)) \<Longrightarrow>
   hands_over ids (case x of None \<Rightarrow> m | Some a \<Rightarrow> f a)"
  "(\<And>e. y = Inl e \<Longrightarrow> hands_over ids (g e)) \<Longrightarrow> (\<And>a. y = Inr a \<Longrightarrow> hands_over ids (h a)) \<Longrightarrow>
   hands_over ids (case y of Inl e \<Rightarrow> g e | Inr a \<Rightarrow> h a)"
  "(\<And>a b. z = (a, b) \<Longrightarrow> hands_over ids (k2 a b)) \<Longrightarrow> hands_over ids (case z of (a, b) \<Rightarrow> k2 a b)"
  by (simp_all split: option.split sum.split prod.split)

lemma deliver_hands_over:
  assumes "\<And>x t. silent (other x t)"
  shows "hands_over [ob_id item] (deliver cr other budgeted answers item)"
proof -
  have call: "hands_over [ob_id item] (call_out (''mail'', ob_id item, ob_attempts item) x)" for x :: "err option"
    by (auto simp: hands_over_def call_out_def)
  have composed: "hands_over [ob_id item] (send_composed budgeted answers item)"
    unfolding send_composed_def Let_def
    using hands_over_seq [OF call hands_over_silent [of _ "[]"]]
    by (auto split: option.split intro!: hands_over_silent call_rules hands_over_seq [where js = "[]", simplified, OF call])
  show ?thesis
    unfolding deliver_def
    by (intro hands_over_split hands_over_after call_rules assms composed hands_over_silent [OF silent_parts(1)])
qed

lemma deliver_all_hands_over:
  assumes "\<And>x t. silent (other x t)"
  shows "hands_over (map ob_id items) (deliver_all cr other budgeted answers items)"
proof (induction items)
  case Nil
  show ?case by (auto intro: hands_over_silent call_rules)
next
  case (Cons item items)
  from hands_over_seq [OF deliver_hands_over [OF assms] Cons] show ?case by simp
qed

end
