(* ===== verification/IdentityRequests.thy ===== *)
theory IdentityRequests
  imports AuthService
begin

text \<open>
  Asking for a link or a code by mail (\<^verbatim>\<open>service/auth.go\<close>, \<^verbatim>\<open>email_code.go\<close>, \<^verbatim>\<open>customer.go\<close>) and the
  messages of \<^verbatim>\<open>mailer/mailer.go\<close>, of which the queue keeps the kind, the recipient, the subject and the
  token; their text and HTML are left out. The captcha's answer and the random draws are arguments.
\<close>

section \<open>Messages\<close>

definition acute_a :: string where
  "acute_a = [CHR 0xC3, CHR 0xA1]"

definition acute_e :: string where
  "acute_e = [CHR 0xC3, CHR 0xA9]"

definition acute_o :: string where
  "acute_o = [CHR 0xC3, CHR 0xB3]"

definition link_message :: "string \<Rightarrow> string \<Rightarrow> string \<Rightarrow> string \<Rightarrow> email_message" where
  "link_message kind recipient subject token =
     \<lparr>em_kind = kind, em_to = recipient, em_subject = subject, em_token = token, em_code = False, em_registration = '''',
      em_registration_expires = 0\<rparr>"

definition verification_message :: "string \<Rightarrow> string \<Rightarrow> email_message" where
  "verification_message recipient token = link_message ''VERIFY_EMAIL'' recipient (''Verific'' @ acute_a @ '' tu correo en Puntazo'') token"

definition email_change_message :: "string \<Rightarrow> string \<Rightarrow> email_message" where
  "email_change_message recipient token =
     link_message ''CHANGE_EMAIL'' recipient (''Confirm'' @ acute_a @ '' tu nuevo correo en Puntazo'') token"

definition password_reset_message :: "string \<Rightarrow> string \<Rightarrow> email_message" where
  "password_reset_message recipient token =
     link_message ''RESET_PASSWORD'' recipient (''Restablec'' @ acute_e @ '' tu contrase'' @ [CHR 0xC3, CHR 0xB1] @ ''a de Puntazo'') token"

definition verification_code_message :: "string \<Rightarrow> string \<Rightarrow> email_message" where
  "verification_code_message recipient code =
     (link_message ''VERIFY_EMAIL'' recipient (''Tu c'' @ acute_o @ ''digo de verificaci'' @ acute_o @ ''n de Puntazo'') (''code:'' @ code))
       \<lparr>em_code := True\<rparr>"

section \<open>Tokens and codes drawn at random\<close>

text \<open>A draw is 32 bytes, or a number below a million, or a failure of the source.\<close>

definition identity_token :: "crypto \<Rightarrow> err + string \<Rightarrow> err + (string \<times> string)" where
  "identity_token cr drawn = (case drawn of Inl e \<Rightarrow> Inl e
     | Inr raw \<Rightarrow> let token = cr_b64 cr raw in Inr (token, cr_sha cr token))"

definition generate_code :: "err + int \<Rightarrow> err + string" where
  "generate_code drawn = (case drawn of Inl e \<Rightarrow> Inl e | Inr n \<Rightarrow> Inr (lpad0 6 (show_int n)))"

lemma generated_code_valid:
  assumes "0 \<le> n" "n < 1000000" "generate_code (Inr n) = Inr code"
  shows "valid_code code"
proof -
  have "length (show_nat (nat n)) \<le> 6"
    using show_nat_length [of "nat n" 6] assms(1,2) by (simp add: nat_less_iff)
  then show ?thesis
    using assms show_nat_digits [of "nat n"]
    by (auto simp: generate_code_def valid_code_def lpad0_def show_int_def list_all_iff is_digit_def)
qed

definition captcha_passed :: "err option \<Rightarrow> ('d, unit) tx" where
  "captcha_passed answer = (case answer of None \<Rightarrow> ret () | Some e \<Rightarrow> throw e)"

section \<open>Requests\<close>

definition one_hour :: int where
  "one_hour = 3600 * one_second"

definition request_email_verification ::
  "crypto \<Rightarrow> (string \<Rightarrow> string option) \<Rightarrow> err option \<Rightarrow> err + string \<Rightarrow> string \<Rightarrow> string \<Rightarrow> string \<Rightarrow> unit itx" where
  "request_email_verification cr parse_address captcha drawn tid oid email =
     seq (require (normalize_email parse_address email) (Svc InvalidRequest)) (\<lambda>address.
     seq (captcha_passed captcha) (\<lambda>_.
     seq (lift_sum (identity_token cr drawn)) (\<lambda>(token, hash).
     seq now_app (\<lambda>now.
     enqueue_verification cr tid oid address hash (now + 24 * one_hour) (verification_message address token)))))"

definition request_password_reset ::
  "crypto \<Rightarrow> (string \<Rightarrow> string option) \<Rightarrow> err option \<Rightarrow> err + string \<Rightarrow> string \<Rightarrow> string \<Rightarrow> string \<Rightarrow> unit itx" where
  "request_password_reset cr parse_address captcha drawn tid oid email =
     seq (require (normalize_email parse_address email) (Svc InvalidRequest)) (\<lambda>address.
     seq (captcha_passed captcha) (\<lambda>_.
     seq (lift_sum (identity_token cr drawn)) (\<lambda>(token, hash).
     seq now_app (\<lambda>now.
     enqueue_password_reset cr tid oid address hash (now + one_hour) (password_reset_message address token)))))"

text \<open>\<open>draws\<close> are the codes drawn again when the first is the one already sent.\<close>

definition request_email_verification_code ::
  "crypto \<Rightarrow> (string \<Rightarrow> string option) \<Rightarrow> err option \<Rightarrow> err + int \<Rightarrow> string list \<Rightarrow> string \<Rightarrow> string \<Rightarrow> string \<Rightarrow> unit itx" where
  "request_email_verification_code cr parse_address captcha drawn draws tid oid email =
     seq (require (normalize_email parse_address email) (Svc InvalidRequest)) (\<lambda>address.
     seq (captcha_passed captcha) (\<lambda>_.
     seq (lift_sum (generate_code drawn)) (\<lambda>code.
     seq now_app (\<lambda>now.
     enqueue_verification_code cr tid oid address code draws (now + 600 * one_second) (verification_code_message address code)))))"

text \<open>What a registration sends and keeps: the token for the automatic login, the hash, the expiry and the message.\<close>

definition registration_verification ::
  "crypto \<Rightarrow> bool \<Rightarrow> err + string \<Rightarrow> err + int \<Rightarrow> int \<Rightarrow> string \<Rightarrow> string \<Rightarrow> string \<Rightarrow>
   err + (string \<times> string \<times> int \<times> email_message option)" where
  "registration_verification cr required drawn_token drawn_code now email way merchant_key =
     (if way \<noteq> '''' \<and> way \<noteq> ''code'' then Inl (Svc InvalidRequest)
      else if \<not> required then Inr ('''', '''', 0, None)
      else if way = '''' then
        (case identity_token cr drawn_token of Inl e \<Rightarrow> Inl e
         | Inr (token, hash) \<Rightarrow> Inr ('''', hash, now + 24 * one_hour, Some (verification_message email token)))
      else
        (case generate_code drawn_code of Inl e \<Rightarrow> Inl e
         | Inr code \<Rightarrow>
             (case identity_token cr drawn_token of Inl e \<Rightarrow> Inl e
              | Inr (drawn, _) \<Rightarrow>
                  let token = (if merchant_key \<noteq> '''' then merchant_registration_token cr email merchant_key else drawn) in
                  Inr (token, code_hash cr email code, now + 600 * one_second,
                    Some ((verification_code_message email code)\<lparr>em_registration := registration_hash cr token,
                      em_registration_expires := now + 1800 * one_second\<rparr>)))))"

definition request_email_change ::
  "crypto \<Rightarrow> (string \<Rightarrow> string option) \<Rightarrow> string \<Rightarrow> err + string \<Rightarrow> string \<Rightarrow> string \<Rightarrow> int \<Rightarrow> int \<Rightarrow> int \<Rightarrow> string \<Rightarrow> unit itx" where
  "request_email_change cr parse_address provider drawn tid oid user version auth_time email =
     seq (reject_if (provider \<noteq> ''smtp'' \<or> length (cr_key cr) \<noteq> 32) (Svc EmailChangeUnavailable)) (\<lambda>_.
     seq now_app (\<lambda>t.
     seq (reject_if (900 * one_second < t - auth_time) (Svc RecentAuthRequired)) (\<lambda>_.
     seq (require (normalize_email parse_address email) (Svc InvalidRequest)) (\<lambda>address.
     seq (lift_sum (identity_token cr drawn)) (\<lambda>(token, hash).
     seq now_app (\<lambda>now.
     enqueue_email_change cr tid oid user version address hash (now + one_hour) (email_change_message address token)))))))"

definition confirm_email_change_service :: "crypto \<Rightarrow> (string \<Rightarrow> string option) \<Rightarrow> string \<Rightarrow> unit itx" where
  "confirm_email_change_service cr unb64 token =
     seq (require (parse_identity_token cr unb64 token) (Svc IdentityToken)) (\<lambda>hash.
     seq now_app (\<lambda>now.
     renamed [identity_token_invalid] (Svc IdentityToken) (confirm_email_change hash now)))"

end
