(* ===== verification/MailProperties.thy ===== *)
theory MailProperties
  imports AuthProperties MailWorker IdentityRequests
begin

text \<open>The worker's round over the queue of mail.\<close>

lemma subseq_distinct_ids:
  assumes "subseq xs ys"
  shows "set xs \<subseteq> set ys \<and> (distinct ys \<longrightarrow> distinct xs)"
  using assms by induction auto

lemma flush_run:
  assumes "flush cr other budgeted answers owner w = (r, w1)"
  obtains (idle) "sent w1 = sent w"
    | (claimed) items w2 where "claim_emails 20 owner w = (Inr items, w2)" "sent w2 = sent w"
      "deliver_all cr other budgeted answers items w2 = (r, w1)"
proof -
  obtain c w2 where c: "claim_emails 20 owner w = (c, w2)" by (cases "claim_emails 20 owner w")
  have s: "sent w2 = sent w" using silent_marks(4) c unfolding silent_def by blast
  show thesis
  proof (cases c)
    case (Inl e)
    with assms c s show thesis by (intro idle) (auto simp: flush_def seq_def outcome_of_def ret_def)
  next
    case (Inr items)
    with assms c s show thesis by (intro claimed [of items w2]) (simp_all add: flush_def seq_def outcome_of_def)
  qed
qed

text \<open>
  C36. One round of the worker hands at most twenty mails to the server, each at most once, and only mails that were open and
  due when the round began, whatever the server, the budget and the database answer.
\<close>

theorem flush_sends_once:
  assumes "identity_inv (committed w)" "\<And>x t. silent (other x t)" "flush cr other budgeted answers owner w = (r, w1)"
  shows "\<exists>cs. sent w1 = sent w @ cs \<and> length cs \<le> 20 \<and> distinct (map (fst \<circ> snd) cs) \<and>
     set (map (fst \<circ> snd) cs) \<subseteq> set (claim_candidates 20 (db_now w) (after_expiry (db_now w) (committed w)))"
  using assms(3)
proof (cases rule: flush_run)
  case idle
  then show ?thesis by (intro exI [of _ "[]"]) simp
next
  case (claimed items w2)
  have ok: "outbox_ok (outbox (committed w))" using assms(1) by (simp add: identity_inv_def)
  have "identity_step (committed w) (committed w2)"
    using step_ofI [where m = "claim_emails 20 owner", OF claimed(1)] by (rule identity_step.claims_mail)
  then have ok2: "outbox_ok (outbox (committed w2))" using identity_step_secure [OF _ assms(1)] by (simp add: identity_inv_def)
  note items = claim_emails_Inr(2) [OF claimed(1)]
  from hands_overD [OF deliver_all_hands_over [OF assms(2)] claimed(3)] obtain cs
    where cs: "sent w1 = sent w @ cs" "subseq (map (fst \<circ> snd) cs) (map ob_id items)" using claimed(2) by auto
  have "length items \<le> 20"
    unfolding items by (rule claims_bounded [OF ok2]) (use candidates [OF outbox_after_expiry [OF ok]] in blast)+
  moreover have "distinct (map ob_id items)" using ok2 unfolding items by (simp add: outbox_ok_def distinct_map_filter)
  moreover have "set (map ob_id items) \<subseteq> set (claim_candidates 20 (db_now w) (after_expiry (db_now w) (committed w)))"
    unfolding items by auto
  moreover have "length cs \<le> length items" using list_emb_length [OF cs(2)] by simp
  moreover have "distinct (map (fst \<circ> snd) cs)" using subseq_distinct_ids [OF cs(2)] calculation(2) by blast
  moreover have "set (map (fst \<circ> snd) cs) \<subseteq> set (map ob_id items)" using subseq_distinct_ids [OF cs(2)] by blast
  ultimately show ?thesis using cs(1) by (intro exI [of _ cs]) force
qed

definition demo_delivery :: "outbox_email \<Rightarrow> delivery" where
  "demo_delivery item = \<lparr>dl_opened = Inr ''token'', dl_readable = True, dl_global = Inr (True, 0), dl_recipient = Inr (True, 0), dl_sent = None\<rparr>"

theorem flush_sends_once_witness:
  "sent (snd (flush demo_crypto (\<lambda>_ _. ret ()) True demo_delivery ''w1'' demo_auth)) = [(''mail'', ''m1'', 1)] \<and>
   (\<exists>cs. sent (snd (flush demo_crypto (\<lambda>_ _. ret ()) True demo_delivery ''w1'' demo_auth)) = [] @ cs \<and> length cs \<le> 20)"
proof -
  have inv: "identity_inv (committed demo_auth)" using demo_inv by (simp add: demo_auth_def)
  have quiet: "silent ((\<lambda>_ _. ret ()) (x :: outbox_email) (t :: string))" for x t by (simp add: call_rules)
  have "sent (snd (flush demo_crypto (\<lambda>_ _. ret ()) True demo_delivery ''w1'' demo_auth)) = [(''mail'', ''m1'', 1)]" by code_simp
  with flush_sends_once [where other = "\<lambda>_ _. ret ()", OF inv quiet prod.collapse [symmetric], of demo_crypto True demo_delivery "''w1''"] show ?thesis
    by (auto simp: demo_auth_def)
qed

end
