(* ===== verification/Staff.thy ===== *)
theory Staff
  imports CustomerIdentity IdentityRequests
begin

text \<open>
  The staff of a brand and the invitations to join it (\<^verbatim>\<open>repository/staff.go\<close>). Identifiers of \<^verbatim>\<open>uuid.New\<close>
  are arguments; those of identity columns follow the largest in use. The mails of invitations stand beside the
  invitation they belong to, the passwords of accounts in a table of their own.
\<close>

section \<open>Tables\<close>

record invitation =
  iv_id :: string
  iv_marca :: int
  iv_invited_by :: int
  iv_email :: string
  iv_rol :: string
  iv_hash :: string
  iv_estado :: string
  iv_expires :: int
  iv_accepted_by :: "int option"
  iv_accepted_at :: "int option"
  iv_version :: int
  iv_created :: int

record staff_db = counter_db +
  invitaciones :: "invitation list"
  invitaciones_sucursales :: "(string \<times> int \<times> int) list"
  invitation_mails :: "(string \<times> outbox_email) list"
  passwords :: "(int \<times> string) list"

type_synonym 'a staff_tx = "(staff_db, 'a) tx"

definition invitation_invalid :: err where
  "invitation_invalid = GoError ''invitation invalid''"

definition invitation_email_registered :: err where
  "invitation_email_registered = GoError ''invitation email already registered''"

definition set_invitations :: "(invitation \<Rightarrow> bool) \<Rightarrow> (invitation \<Rightarrow> invitation) \<Rightarrow> staff_db \<Rightarrow> staff_db" where
  "set_invitations p f d = d\<lparr>invitaciones := update_where p f (invitaciones d)\<rparr>"

definition drop_invitation_mails :: "(string \<Rightarrow> bool) \<Rightarrow> string \<Rightarrow> staff_db \<Rightarrow> staff_db" where
  "drop_invitation_mails p reason d = d\<lparr>invitation_mails :=
     update_where (\<lambda>m. p (fst m) \<and> open_state (ob_state (snd m))) (\<lambda>m. (fst m, dropped reason (snd m))) (invitation_mails d)\<rparr>"

definition set_members :: "(membresia \<Rightarrow> bool) \<Rightarrow> (membresia \<Rightarrow> membresia) \<Rightarrow> staff_db \<Rightarrow> staff_db" where
  "set_members p f d = d\<lparr>membresias := update_where p f (membresias d)\<rparr>"

definition set_member_branches :: "(membresia_sucursal \<Rightarrow> bool) \<Rightarrow> (membresia_sucursal \<Rightarrow> membresia_sucursal) \<Rightarrow> staff_db \<Rightarrow> staff_db" where
  "set_member_branches p f d = d\<lparr>membresias_sucursales := update_where p f (membresias_sucursales d)\<rparr>"

section \<open>Invitations\<close>

definition manages :: "int \<Rightarrow> int \<Rightarrow> staff_db \<Rightarrow> bool" where
  "manages user brand d \<longleftrightarrow> list_ex (\<lambda>m. mm_usuario m = user \<and> mm_marca m = brand \<and> mm_activo m
     \<and> mm_rol m \<in> {''PROPIETARIO'', ''ADMINISTRADOR''}) (membresias d)"

definition require_staff_manager :: "int \<Rightarrow> int \<Rightarrow> unit staff_tx" where
  "require_staff_manager user brand =
     seq (query (\<lambda>w. manages user brand (working w))) (\<lambda>ok. reject_if (\<not> ok) (Repo ErrForbidden))"

definition pending_invitation :: "invitation \<Rightarrow> bool" where
  "pending_invitation i \<longleftrightarrow> iv_estado i = ''PENDIENTE''"

definition overdue :: "int \<Rightarrow> int \<Rightarrow> invitation \<Rightarrow> bool" where
  "overdue brand now i \<longleftrightarrow> iv_marca i = brand \<and> pending_invitation i \<and> iv_expires i \<le> now"

definition closed_as :: "string \<Rightarrow> invitation \<Rightarrow> invitation" where
  "closed_as st i = i\<lparr>iv_estado := st, iv_version := iv_version i + 1\<rparr>"

definition expire_invitations :: "int \<Rightarrow> int \<Rightarrow> unit staff_tx" where
  "expire_invitations brand now = exec (\<lambda>w. let d = working w; expired = map iv_id (filter (overdue brand now) (invitaciones d)) in
     drop_invitation_mails (\<lambda>i. i \<in> set expired) ''invitation expired'' (set_invitations (overdue brand now) (closed_as ''EXPIRADA'') d))"

record invitation_view =
  vi_id :: string
  vi_marca :: int
  vi_email :: string
  vi_rol :: string
  vi_branches :: "int list"
  vi_estado :: string
  vi_expires :: int
  vi_version :: int
  vi_created :: int

definition invitation_branches :: "string \<Rightarrow> staff_db \<Rightarrow> int list" where
  "invitation_branches i d = sort (map (fst \<circ> snd) (filter (\<lambda>b. fst b = i) (invitaciones_sucursales d)))"

definition scan_invitation :: "staff_db \<Rightarrow> invitation \<Rightarrow> invitation_view" where
  "scan_invitation d i = \<lparr>vi_id = iv_id i, vi_marca = iv_marca i, vi_email = iv_email i, vi_rol = iv_rol i,
     vi_branches = invitation_branches (iv_id i) d, vi_estado = iv_estado i, vi_expires = iv_expires i,
     vi_version = iv_version i, vi_created = iv_created i\<rparr>"

definition read_invitation :: "string \<Rightarrow> invitation_view staff_tx" where
  "read_invitation i =
     seq (query (\<lambda>w. let d = working w in map_option (scan_invitation d) (List.find (\<lambda>x. iv_id x = i) (invitaciones d)))) (\<lambda>row.
     require row (GoError ''no rows in result set''))"

definition list_invitations :: "int \<Rightarrow> int \<Rightarrow> invitation_view list staff_tx" where
  "list_invitations user brand = in_tx (
     seq (require_staff_manager user brand) (\<lambda>_.
     seq now_app (\<lambda>now.
     seq (expire_invitations brand now) (\<lambda>_.
     seq (query (\<lambda>w. let d = working w in
       map (scan_invitation d) (sort_key (\<lambda>i. - iv_created i) (filter (\<lambda>i. iv_marca i = brand) (invitaciones d))))) (\<lambda>items.
     seq commit (\<lambda>_.
     ret items))))))"

definition enqueue_invitation_email :: "crypto \<Rightarrow> string \<Rightarrow> int \<Rightarrow> string \<Rightarrow> string \<Rightarrow> string \<Rightarrow> int \<Rightarrow> unit staff_tx" where
  "enqueue_invitation_email cr oid inviter invitation email token expires =
     seq (lift_sum (encrypt_outbox_token cr token oid)) (\<lambda>sealed.
     exec_ret (\<lambda>w. let d = working w in
       if list_ex (\<lambda>m. ob_id (snd m) = oid) (invitation_mails d) then Inl (PgErr (Unique_violation ''email_outbox_pkey''))
       else Inr ((), d\<lparr>invitation_mails := invitation_mails d @ [(invitation, \<lparr>ob_id = oid, ob_user = Some inviter,
         ob_kind = ''BRAND_INVITATION'', ob_to = email, ob_subject = ''Te invitaron a una marca en Puntazo'', ob_state = ''PENDING'',
         ob_attempts = 0, ob_available = db_now w, ob_lease_until = None, ob_lease_owner = None, ob_error = None, ob_sent_at = None,
         ob_created = db_now w, ob_ciphertext = Some (fst sealed), ob_nonce = Some (snd sealed), ob_token_expires = Some expires\<rparr>)]\<rparr>)))"

definition validate_invitation_branches :: "int \<Rightarrow> int list \<Rightarrow> unit staff_tx" where
  "validate_invitation_branches brand branches =
     seq (query (\<lambda>w. rows_affected (\<lambda>s. s_marca s = brand \<and> s_activo s \<and> s_deleted_at s = None \<and> s_id s \<in> set branches)
            (sucursales (working w)))) (\<lambda>count.
     reject_if (count \<noteq> length branches) (Repo ErrInvalidRequest))"

definition insert_invitation :: "string \<Rightarrow> int \<Rightarrow> int \<Rightarrow> string \<Rightarrow> string \<Rightarrow> string \<Rightarrow> int \<Rightarrow> unit staff_tx" where
  "insert_invitation i brand user email rol hash expires = exec_ret (\<lambda>w. let d = working w in
     if list_ex (\<lambda>x. iv_id x = i) (invitaciones d) then Inl (PgErr (Unique_violation ''invitaciones_marca_pkey''))
     else if list_ex (\<lambda>x. iv_hash x = hash) (invitaciones d) then Inl (PgErr (Unique_violation ''invitaciones_marca_token_hash_key''))
     else if list_ex (\<lambda>x. iv_marca x = brand \<and> ci_equal (iv_email x) email \<and> pending_invitation x) (invitaciones d)
       then Inl (PgErr (Unique_violation ''invitaciones_marca_email_pendiente_uk''))
     else if (rol \<noteq> ''ADMINISTRADOR'' \<and> rol \<noteq> ''OPERADOR'') \<or> expires \<le> db_now w then Inl (PgErr (Other_pg ''23514''))
     else Inr ((), d\<lparr>invitaciones := invitaciones d @ [\<lparr>iv_id = i, iv_marca = brand, iv_invited_by = user, iv_email = email,
       iv_rol = rol, iv_hash = hash, iv_estado = ''PENDIENTE'', iv_expires = expires, iv_accepted_by = None, iv_accepted_at = None,
       iv_version = 1, iv_created = db_now w\<rparr>]\<rparr>))"

text \<open>A branch of an invitation is unique and belongs to the brand.\<close>

primrec insert_invitation_branches :: "string \<Rightarrow> int \<Rightarrow> int list \<Rightarrow> unit staff_tx" where
  "insert_invitation_branches i brand [] = ret ()"
| "insert_invitation_branches i brand (b # bs) =
     seq (exec_ret (\<lambda>w. let d = working w in
       if list_ex (\<lambda>x. fst x = i \<and> fst (snd x) = b) (invitaciones_sucursales d) then Inl (PgErr (Unique_violation ''invitaciones_sucursales_pkey''))
       else if \<not> list_ex (\<lambda>s. s_id s = b \<and> s_marca s = brand) (sucursales d) then Inl (PgErr (Other_pg ''23503''))
       else Inr ((), d\<lparr>invitaciones_sucursales := invitaciones_sucursales d @ [(i, b, brand)]\<rparr>))) (\<lambda>_.
     insert_invitation_branches i brand bs)"

definition commit_normalized :: "('d, unit) tx" where
  "commit_normalized = catch commit (\<lambda>e. throw (normalize e))"

record invitation_request =
  ir_email :: string
  ir_rol :: string
  ir_branches :: "int list"

definition new_invitation ::
  "crypto \<Rightarrow> int \<Rightarrow> int \<Rightarrow> string \<Rightarrow> string \<Rightarrow> string \<Rightarrow> invitation_request \<Rightarrow> string \<Rightarrow> string \<Rightarrow> int \<Rightarrow>
   (invitation_view \<Rightarrow> err + string) \<Rightarrow> idempotent_result staff_tx" where
  "new_invitation cr user brand key i oid req token hash expires build =
     seq now_app (\<lambda>now.
     seq (expire_invitations brand now) (\<lambda>_.
     seq (validate_invitation_branches brand (ir_branches req)) (\<lambda>_.
     seq (query (\<lambda>w. list_ex (\<lambda>u. ci_equal (u_email u) (ir_email req)) (usuarios (working w)))) (\<lambda>exists.
     seq (reject_if exists invitation_email_registered) (\<lambda>_.
     seq (catch (insert_invitation i brand user (ir_email req) (ir_rol req) hash expires) (\<lambda>e. throw (normalize e))) (\<lambda>_.
     seq (insert_invitation_branches i brand (ir_branches req)) (\<lambda>_.
     seq (enqueue_invitation_email cr oid user i (ir_email req) token expires) (\<lambda>_.
     seq (read_invitation i) (\<lambda>item.
     seq (lift_sum (build item)) (\<lambda>body.
     seq (complete_idempotency key 201 body) (\<lambda>_.
     seq commit_normalized (\<lambda>_.
     ret \<lparr>ir_status = 201, ir_body = body, ir_replayed = False\<rparr>))))))))))))"

definition create_invitation ::
  "crypto \<Rightarrow> int \<Rightarrow> int \<Rightarrow> string \<Rightarrow> string \<Rightarrow> string \<Rightarrow> string \<Rightarrow> invitation_request \<Rightarrow> string \<Rightarrow> string \<Rightarrow> int \<Rightarrow>
   (invitation_view \<Rightarrow> err + string) \<Rightarrow> idempotent_result staff_tx" where
  "create_invitation cr user brand key fp i oid req token hash expires build = in_tx (
     seq (require_staff_manager user brand) (\<lambda>_.
     seq (claim_idempotency key (''brand:'' @ show_int brand @ '':actor:'' @ show_int user) ''CREATE_BRAND_INVITATION'' fp) (\<lambda>claimed.
     case claimed of Some r \<Rightarrow> ret r
     | None \<Rightarrow> new_invitation cr user brand key i oid req token hash expires build)))"

definition revoke_invitation :: "int \<Rightarrow> int \<Rightarrow> string \<Rightarrow> unit staff_tx" where
  "revoke_invitation user brand i = in_tx (
     seq (require_staff_manager user brand) (\<lambda>_.
     seq now_app (\<lambda>now.
     seq (expire_invitations brand now) (\<lambda>_.
     seq (exec_ret (\<lambda>w. let d = working w; p = (\<lambda>x. iv_id x = i \<and> iv_marca x = brand \<and> pending_invitation x) in
            Inr (rows_affected p (invitaciones d), set_invitations p (closed_as ''REVOCADA'') d))) (\<lambda>n.
     seq (reject_if (n \<noteq> 1) invitation_invalid) (\<lambda>_.
     seq (exec (\<lambda>w. drop_invitation_mails (\<lambda>x. x = i) ''invitation revoked'' (working w))) (\<lambda>_.
     commit)))))))"

definition resent :: "string \<Rightarrow> int \<Rightarrow> invitation \<Rightarrow> invitation" where
  "resent hash expires i = i\<lparr>iv_hash := hash, iv_expires := expires, iv_version := iv_version i + 1\<rparr>"

definition resend_invitation :: "crypto \<Rightarrow> int \<Rightarrow> int \<Rightarrow> string \<Rightarrow> string \<Rightarrow> string \<Rightarrow> string \<Rightarrow> int \<Rightarrow> invitation_view staff_tx" where
  "resend_invitation cr user brand i oid token hash expires = in_tx (
     seq (require_staff_manager user brand) (\<lambda>_.
     seq now_app (\<lambda>now.
     seq (expire_invitations brand now) (\<lambda>_.
     seq (exec_ret (\<lambda>w. let d = working w; p = (\<lambda>x. iv_id x = i \<and> iv_marca x = brand \<and> pending_invitation x) in
            case List.find p (invitaciones d) of
              None \<Rightarrow> Inr (None, d)
            | Some x \<Rightarrow>
                if list_ex (\<lambda>y. iv_id y \<noteq> i \<and> iv_hash y = hash) (invitaciones d) then Inl (PgErr (Unique_violation ''invitaciones_marca_token_hash_key''))
                else if expires \<le> iv_created x then Inl (PgErr (Other_pg ''23514''))
                else Inr (Some (iv_email x), set_invitations p (resent hash expires) d))) (\<lambda>row.
     seq (require row invitation_invalid) (\<lambda>email.
     seq (exec (\<lambda>w. drop_invitation_mails (\<lambda>x. x = i) ''superseded'' (working w))) (\<lambda>_.
     seq (enqueue_invitation_email cr oid user i email token expires) (\<lambda>_.
     seq (read_invitation i) (\<lambda>item.
     seq commit (\<lambda>_.
     ret item))))))))))"

section \<open>Accepting an invitation\<close>

definition mask_email :: "string \<Rightarrow> string" where
  "mask_email email = (let i = length (takeWhile (\<lambda>c. c \<noteq> CHR ''@'') email) in
     if i = length email then ''***''
     else if i \<le> 1 then ''*'' @ drop i email
     else take 1 email @ ''***'' @ drop i email)"

record public_view =
  pv_brand :: string
  pv_email :: string
  pv_rol :: string
  pv_expires :: int

definition open_invitation :: "string \<Rightarrow> int \<Rightarrow> invitation \<Rightarrow> bool" where
  "open_invitation hash now i \<longleftrightarrow> iv_hash i = hash \<and> pending_invitation i \<and> now < iv_expires i"

definition public_invitation :: "string \<Rightarrow> int \<Rightarrow> public_view staff_tx" where
  "public_invitation hash now =
     seq (query (\<lambda>w. let d = committed w in first_row [(i, m). i \<leftarrow> invitaciones d, m \<leftarrow> marcas d,
            m_id m = iv_marca i \<and> m_activo m \<and> open_invitation hash now i])) (\<lambda>row.
     seq (require row invitation_invalid) (\<lambda>(i, m).
     ret \<lparr>pv_brand = m_nombre m, pv_email = mask_email (iv_email i), pv_rol = iv_rol i, pv_expires = iv_expires i\<rparr>))"

definition insert_staff_user :: "string \<Rightarrow> string \<Rightarrow> string \<Rightarrow> string \<Rightarrow> string \<Rightarrow> int \<Rightarrow> usuario staff_tx" where
  "insert_staff_user email password name last_name code now = exec_ret (\<lambda>w. let d = working w; i = next_id (map u_id (usuarios d));
     u = \<lparr>u_id = i, u_email = email, u_nombre = name, u_apellido = Some last_name, u_tipo = ''PERSONAL_MARCA'', u_activo = True,
       u_deleted_at = None, u_qr_hash = None, u_codigo = Some code, u_verified_at = Some now\<rparr> in
     if list_ex (\<lambda>v. ci_equal (u_email v) email) (usuarios d) then Inl (PgErr (Unique_violation ''usuarios_email_key''))
     else if list_ex (\<lambda>v. u_codigo v = Some code) (usuarios d) then Inl (PgErr (Unique_violation ''usuarios_codigo_usuario_key''))
     else if btrim name = '''' then Inl (PgErr (Other_pg ''23514''))
     else Inr (u, d\<lparr>usuarios := usuarios d @ [u], passwords := passwords d @ [(i, password)]\<rparr>))"

definition insert_membership :: "int \<Rightarrow> int \<Rightarrow> string \<Rightarrow> int staff_tx" where
  "insert_membership user brand rol = exec_ret (\<lambda>w. let d = working w; i = next_id (map mm_id (membresias d)) in
     if list_ex (\<lambda>m. mm_usuario m = user \<and> mm_marca m = brand) (membresias d)
       then Inl (PgErr (Unique_violation ''membresias_marca_usuario_id_marca_id_key''))
     else Inr (i, d\<lparr>membresias := membresias d @ [\<lparr>mm_id = i, mm_usuario = user, mm_marca = brand, mm_rol = rol,
       mm_activo = True, mm_version = 1\<rparr>]\<rparr>))"

definition assigned :: "int \<Rightarrow> int \<times> int \<Rightarrow> membresia_sucursal" where
  "assigned membership b = \<lparr>ms_membresia = membership, ms_marca = snd b, ms_sucursal = fst b, ms_activo = True\<rparr>"

definition copy_branches :: "int \<Rightarrow> string \<Rightarrow> unit staff_tx" where
  "copy_branches membership invitation = exec (\<lambda>w. let d = working w in
     d\<lparr>membresias_sucursales := membresias_sucursales d @
       map (assigned membership \<circ> snd) (filter (\<lambda>b. fst b = invitation) (invitaciones_sucursales d))\<rparr>)"

definition accepted_invitation :: "int \<Rightarrow> int \<Rightarrow> invitation \<Rightarrow> invitation" where
  "accepted_invitation user now i = i\<lparr>iv_estado := ''ACEPTADA'', iv_accepted_by := Some user, iv_accepted_at := Some now,
     iv_version := iv_version i + 1\<rparr>"

definition join_staff :: "invitation \<Rightarrow> usuario \<Rightarrow> int \<Rightarrow> unit staff_tx" where
  "join_staff i u now =
     seq (catch (insert_membership (u_id u) (iv_marca i) (iv_rol i)) (\<lambda>e. throw (normalize e))) (\<lambda>membership.
     seq (copy_branches membership (iv_id i)) (\<lambda>_.
     seq (exec (\<lambda>w. set_invitations (\<lambda>x. iv_id x = iv_id i) (accepted_invitation (u_id u) now) (working w))) (\<lambda>_.
     seq (exec (\<lambda>w. drop_invitation_mails (\<lambda>x. x = iv_id i) ''invitation accepted'' (working w))) (\<lambda>_.
     commit_normalized))))"

definition register_invitation :: "platform \<Rightarrow> string \<Rightarrow> int \<Rightarrow> string \<Rightarrow> string \<Rightarrow> string \<Rightarrow> usuario staff_tx" where
  "register_invitation pf hash now name last_name password = in_tx (
     seq (query (\<lambda>w. let d = working w in first_row [i. i \<leftarrow> invitaciones d, m \<leftarrow> marcas d,
            m_id m = iv_marca i \<and> m_activo m \<and> m_deleted_at m = None \<and> open_invitation hash now i])) (\<lambda>row.
     seq (require row invitation_invalid) (\<lambda>i.
     seq (query (\<lambda>w. list_ex (\<lambda>u. ci_equal (u_email u) (iv_email i)) (usuarios (working w)))) (\<lambda>exists.
     seq (reject_if exists (Repo ErrEmailExists)) (\<lambda>_.
     seq (allocate_user_code pf name last_name) (\<lambda>code.
     seq (catch (insert_staff_user (iv_email i) password name last_name code now) (\<lambda>e. throw (normalize e))) (\<lambda>u.
     seq (join_staff i u now) (\<lambda>_.
     ret u))))))))"

section \<open>The staff\<close>

record staff_view =
  sv_membership :: int
  sv_user :: int
  sv_email :: string
  sv_name :: string
  sv_rol :: string
  sv_branches :: "int list"
  sv_active :: bool
  sv_version :: int
  sv_code :: string

definition member_branches :: "int \<Rightarrow> staff_db \<Rightarrow> int list" where
  "member_branches membership d = sort (map ms_sucursal
     (filter (\<lambda>b. ms_membresia b = membership \<and> ms_activo b) (membresias_sucursales d)))"

definition staff_row :: "staff_db \<Rightarrow> membresia \<Rightarrow> usuario \<Rightarrow> staff_view" where
  "staff_row d m u = \<lparr>sv_membership = mm_id m, sv_user = u_id u, sv_email = u_email u, sv_name = u_nombre u, sv_rol = mm_rol m,
     sv_branches = member_branches (mm_id m) d, sv_active = mm_activo m, sv_version = mm_version m, sv_code = user_code u\<rparr>"

definition staff_rows :: "int \<Rightarrow> int \<Rightarrow> staff_db \<Rightarrow> staff_view list" where
  "staff_rows user brand d = (if manages user brand d then
     [staff_row d m u. m \<leftarrow> membresias d, mm_marca m = brand, u \<leftarrow> usuarios d, u_id u = mm_usuario m] else [])"

definition get_staff_member :: "int \<Rightarrow> int \<Rightarrow> int \<Rightarrow> staff_view staff_tx" where
  "get_staff_member user brand membership =
     seq (query (\<lambda>w. List.find (\<lambda>v. sv_membership v = membership) (staff_rows user brand (committed w)))) (\<lambda>row.
     require row (Repo ErrNotFound))"

text \<open>\<open>collation\<close> ranks names as the database sorts them.\<close>

definition list_staff :: "(string \<Rightarrow> int) \<Rightarrow> int \<Rightarrow> int \<Rightarrow> staff_view list staff_tx" where
  "list_staff collation user brand = query (\<lambda>w. sort_key (\<lambda>v. collation (sv_name v)) (staff_rows user brand (committed w)))"

text \<open>The member that a manager may change: not the owner and not the manager.\<close>

definition lock_member :: "int \<Rightarrow> int \<Rightarrow> int \<Rightarrow> membresia staff_tx" where
  "lock_member user brand membership =
     seq (query (\<lambda>w. List.find (\<lambda>m. mm_id m = membership \<and> mm_marca m = brand \<and> mm_activo m) (membresias (working w)))) (\<lambda>row.
     seq (require row (Repo ErrNotFound)) (\<lambda>m.
     seq (reject_if (mm_rol m = ''PROPIETARIO'') (Repo ErrForbidden)) (\<lambda>_.
     seq (reject_if (mm_usuario m = user) (Repo ErrSelfRoleChangeForbidden)) (\<lambda>_.
     ret m))))"

definition update_member :: "(membresia \<Rightarrow> bool) \<Rightarrow> (membresia \<Rightarrow> membresia) \<Rightarrow> unit staff_tx" where
  "update_member p f =
     seq (exec_ret (\<lambda>w. let d = working w in
       if list_ex (\<lambda>m. p m \<and> mm_rol (f m) \<notin> {''PROPIETARIO'', ''ADMINISTRADOR'', ''OPERADOR''}) (membresias d)
         then Inl (PgErr (Other_pg ''23514''))
       else Inr (rows_affected p (membresias d), set_members p f d))) (\<lambda>n.
     reject_if (n \<noteq> 1) (Repo ErrPreconditionFailed))"

definition release_branches :: "int \<Rightarrow> unit staff_tx" where
  "release_branches membership = exec (\<lambda>w. set_member_branches (\<lambda>b. ms_membresia b = membership)
     (\<lambda>b. b\<lparr>ms_activo := False\<rparr>) (working w))"

text \<open>\<open>INSERT \<dots> ON CONFLICT(membresia_id,sucursal_id) DO UPDATE SET activo=true\<close>, branch by branch.\<close>

primrec assign_branches :: "int \<Rightarrow> int \<Rightarrow> int list \<Rightarrow> unit staff_tx" where
  "assign_branches membership brand [] = ret ()"
| "assign_branches membership brand (b # bs) =
     seq (exec_ret (\<lambda>w. let d = working w; p = (\<lambda>x. ms_membresia x = membership \<and> ms_sucursal x = b) in
       if \<not> list_ex (\<lambda>s. s_id s = b \<and> s_marca s = brand) (sucursales d) then Inl (PgErr (Other_pg ''23503''))
       else if list_ex p (membresias_sucursales d) then Inr ((), set_member_branches p (\<lambda>x. x\<lparr>ms_activo := True, ms_marca := brand\<rparr>) d)
       else Inr ((), d\<lparr>membresias_sucursales := membresias_sucursales d @ [assigned membership (b, brand)]\<rparr>))) (\<lambda>_.
     assign_branches membership brand bs)"

definition reassign_branches :: "int \<Rightarrow> int \<Rightarrow> string \<Rightarrow> int list option \<Rightarrow> unit staff_tx" where
  "reassign_branches membership brand rol branches =
     (if rol = ''ADMINISTRADOR'' then
        seq (reject_if (branches \<noteq> None \<and> branches \<noteq> Some []) (Repo ErrInvalidRequest)) (\<lambda>_.
        release_branches membership)
      else case branches of None \<Rightarrow> ret ()
      | Some bs \<Rightarrow>
          seq (validate_invitation_branches brand bs) (\<lambda>_.
          seq (release_branches membership) (\<lambda>_.
          assign_branches membership brand bs)))"

definition operator_has_branch :: "int \<Rightarrow> string \<Rightarrow> unit staff_tx" where
  "operator_has_branch membership rol =
     (if rol = ''OPERADOR'' then
        seq (query (\<lambda>w. rows_affected (\<lambda>b. ms_membresia b = membership \<and> ms_activo b) (membresias_sucursales (working w)))) (\<lambda>n.
        reject_if (n = 0) (Repo ErrInvalidRequest))
      else ret ())"

definition change_member :: "int \<Rightarrow> int \<Rightarrow> int \<Rightarrow> int \<Rightarrow> string option \<Rightarrow> int list option \<Rightarrow> unit staff_tx" where
  "change_member user brand membership version role branches = in_tx (
     seq (require_staff_manager user brand) (\<lambda>_.
     seq (lock_member user brand membership) (\<lambda>m.
     let rol = coalesce role (mm_rol m) in
     seq (update_member (\<lambda>x. mm_id x = membership \<and> mm_marca x = brand \<and> mm_version x = version \<and> mm_activo x)
            (\<lambda>x. x\<lparr>mm_rol := rol, mm_version := mm_version x + 1\<rparr>)) (\<lambda>_.
     seq (reassign_branches membership brand rol branches) (\<lambda>_.
     seq (operator_has_branch membership rol) (\<lambda>_.
     commit))))))"

definition update_staff :: "int \<Rightarrow> int \<Rightarrow> int \<Rightarrow> int \<Rightarrow> string option \<Rightarrow> int list option \<Rightarrow> staff_view staff_tx" where
  "update_staff user brand membership version role branches =
     seq (change_member user brand membership version role branches) (\<lambda>_.
     get_staff_member user brand membership)"

definition delete_staff :: "int \<Rightarrow> int \<Rightarrow> int \<Rightarrow> int \<Rightarrow> unit staff_tx" where
  "delete_staff user brand membership version = in_tx (
     seq (require_staff_manager user brand) (\<lambda>_.
     seq (lock_member user brand membership) (\<lambda>m.
     seq (reject_if (mm_version m \<noteq> version) (Repo ErrPreconditionFailed)) (\<lambda>_.
     seq (update_member (\<lambda>x. mm_id x = membership \<and> mm_marca x = brand \<and> mm_version x = version \<and> mm_activo x
              \<and> mm_rol x \<noteq> ''PROPIETARIO'') (\<lambda>x. x\<lparr>mm_activo := False, mm_version := mm_version x + 1\<rparr>)) (\<lambda>_.
     seq (release_branches membership) (\<lambda>_.
     commit))))))"

end
