(* ===== verification/StaffService.thy ===== *)
theory StaffService
  imports Staff
begin

text \<open>
  The service in front of the staff (\<^verbatim>\<open>service/staff.go\<close>, \<^verbatim>\<open>registration_profile.go\<close>, \<^verbatim>\<open>validation.go\<close>). An attempt
  that is retried left nothing behind, so its random identifiers may be those of the first. The session that follows a
  registration is the one of AuthService.
\<close>

text \<open>Text is valid UTF-8, in which the bytes of the form 10xxxxxx continue a character.\<close>

definition rune_count :: "string \<Rightarrow> nat" where
  "rune_count s = length (filter (\<lambda>c. of_char c div 64 \<noteq> (2 :: nat)) s)"

definition clean_name :: "string \<Rightarrow> nat \<Rightarrow> string option" where
  "clean_name v limit = (let v1 = trim_space v in if v1 = '''' \<or> limit < rune_count v1 then None else Some v1)"

definition registration_names :: "platform \<Rightarrow> string \<Rightarrow> string \<Rightarrow> (string \<times> string) option" where
  "registration_names pf name last_name = (case (clean_name name 120, clean_name last_name 120) of
     (Some n, Some l) \<Rightarrow> if snd (code_prefix pf n l) then Some (n, l) else None
   | _ \<Rightarrow> None)"

definition staff_branches_ok :: "int list \<Rightarrow> bool" where
  "staff_branches_ok bs \<longleftrightarrow> list_all (\<lambda>b. 1 \<le> b) bs \<and> distinct bs"

definition clean_role :: "string \<Rightarrow> string option" where
  "clean_role rol = (let r = to_upper (trim_space rol) in if r = ''ADMINISTRADOR'' \<or> r = ''OPERADOR'' then Some r else None)"

definition clean_invitation :: "(string \<Rightarrow> string option) \<Rightarrow> invitation_request \<Rightarrow> invitation_request option" where
  "clean_invitation parse_address req =
     (case (normalize_email parse_address (ir_email req), clean_role (ir_rol req)) of
        (Some email, Some rol) \<Rightarrow>
          if rol = ''OPERADOR'' \<and> ir_branches req = [] \<or> \<not> staff_branches_ok (ir_branches req) then None
          else Some \<lparr>ir_email = email, ir_rol = rol, ir_branches = ir_branches req\<rparr>
      | _ \<Rightarrow> None)"

definition three_days :: int where
  "three_days = 72 * one_hour"

definition create_invitation_service ::
  "crypto \<Rightarrow> (string \<Rightarrow> string option) \<Rightarrow> (string \<Rightarrow> bool) \<Rightarrow> (int \<Rightarrow> invitation_request \<Rightarrow> string) \<Rightarrow> (nat \<Rightarrow> bool) \<Rightarrow> err + string \<Rightarrow>
   int \<Rightarrow> int \<Rightarrow> string \<Rightarrow> string \<Rightarrow> string \<Rightarrow> invitation_request \<Rightarrow> (invitation_view \<Rightarrow> err + string) \<Rightarrow> idempotent_result staff_tx" where
  "create_invitation_service cr parse_address key_ok fingerprint_of cancelled drawn user brand key i oid req build =
     seq (require (clean_invitation parse_address req) (Svc InvalidRequest)) (\<lambda>clean.
     seq (reject_if (\<not> key_ok key) (Svc InvalidRequest)) (\<lambda>_.
     seq (lift_sum (identity_token cr drawn)) (\<lambda>(token, hash).
     retry cancelled (seq now_app (\<lambda>now.
       create_invitation cr user brand key (fingerprint_of brand clean) i oid clean token hash (now + three_days) build)))))"

definition revoke_invitation_service :: "(nat \<Rightarrow> bool) \<Rightarrow> int \<Rightarrow> int \<Rightarrow> string \<Rightarrow> unit staff_tx" where
  "revoke_invitation_service cancelled user brand i = retry cancelled (revoke_invitation user brand i)"

definition resend_invitation_service ::
  "crypto \<Rightarrow> (nat \<Rightarrow> bool) \<Rightarrow> err + string \<Rightarrow> int \<Rightarrow> int \<Rightarrow> string \<Rightarrow> string \<Rightarrow> invitation_view staff_tx" where
  "resend_invitation_service cr cancelled drawn user brand i oid =
     seq (lift_sum (identity_token cr drawn)) (\<lambda>(token, hash).
     retry cancelled (seq now_app (\<lambda>now. resend_invitation cr user brand i oid token hash (now + three_days))))"

definition invitation_hash :: "crypto \<Rightarrow> string \<Rightarrow> string option" where
  "invitation_hash cr token = (if length token < 40 \<or> 256 < length token then None else Some (cr_sha cr token))"

definition public_invitation_service :: "crypto \<Rightarrow> string \<Rightarrow> public_view staff_tx" where
  "public_invitation_service cr token =
     seq (require (invitation_hash cr token) (Svc IdentityToken)) (\<lambda>hash.
     seq now_app (\<lambda>now.
     renamed [invitation_invalid] (Svc IdentityToken) (public_invitation hash now)))"

definition retry_registration :: "(nat \<Rightarrow> bool) \<Rightarrow> ('d, 'a) tx \<Rightarrow> ('d, 'a) tx" where
  "retry_registration cancelled fn = retry_from cancelled 0 16 fn CtxCanceled"

definition register_invitation_service ::
  "platform \<Rightarrow> crypto \<Rightarrow> err option \<Rightarrow> (nat \<Rightarrow> bool) \<Rightarrow> (string \<Rightarrow> err + string) \<Rightarrow> string \<Rightarrow> string \<Rightarrow> string \<Rightarrow> string \<Rightarrow> usuario staff_tx" where
  "register_invitation_service pf cr captcha cancelled hash_password token name last_name password =
     seq (require (invitation_hash cr token) (Svc IdentityToken)) (\<lambda>hash.
     seq (require (registration_names pf name last_name) (Svc RegistrationProfileRequired)) (\<lambda>(n, l).
     seq (reject_if (\<not> valid_password password) (Svc InvalidRequest)) (\<lambda>_.
     seq (public_invitation_service cr token) (\<lambda>_.
     seq (captcha_passed captcha) (\<lambda>_.
     seq (lift_sum (hash_password password)) (\<lambda>password_hash.
     renamed [invitation_invalid] (Svc IdentityToken)
       (retry_registration cancelled (seq now_app (\<lambda>now. register_invitation pf hash now n l password_hash)))))))))"

text \<open>A change names a role or branches; the two must fit when both are given.\<close>

definition clean_change :: "string option \<Rightarrow> int list option \<Rightarrow> (string option \<times> int list option) option" where
  "clean_change role branches =
     (if role = None \<and> branches = None then None
      else case (case role of None \<Rightarrow> Some None | Some r \<Rightarrow> map_option Some (clean_role r)) of
        None \<Rightarrow> None
      | Some r \<Rightarrow>
          (case branches of None \<Rightarrow> Some (r, None)
           | Some bs \<Rightarrow>
               if \<not> staff_branches_ok bs \<or> r = Some ''OPERADOR'' \<and> bs = [] \<or> r = Some ''ADMINISTRADOR'' \<and> bs \<noteq> [] then None
               else Some (r, Some bs)))"

definition update_staff_service ::
  "(nat \<Rightarrow> bool) \<Rightarrow> int \<Rightarrow> int \<Rightarrow> int \<Rightarrow> int \<Rightarrow> string option \<Rightarrow> int list option \<Rightarrow> staff_view staff_tx" where
  "update_staff_service cancelled user brand membership version role branches =
     seq (reject_if (version < 1) (Svc InvalidRequest)) (\<lambda>_.
     seq (require (clean_change role branches) (Svc InvalidRequest)) (\<lambda>(r, bs).
     retry cancelled (update_staff user brand membership version r bs)))"

definition delete_staff_service :: "(nat \<Rightarrow> bool) \<Rightarrow> int \<Rightarrow> int \<Rightarrow> int \<Rightarrow> int \<Rightarrow> unit staff_tx" where
  "delete_staff_service cancelled user brand membership version =
     seq (reject_if (version < 1) (Svc InvalidRequest)) (\<lambda>_.
     retry cancelled (delete_staff user brand membership version))"

end
