(* ===== verification/StaffTheorems.thy ===== *)
theory StaffTheorems
  imports StaffService TxLogic
begin

text \<open>
  The owners of a brand are out of reach of its staff, an invitation is accepted once, and an operator always has a branch:
  each operation is judged by the logic of transactions, under the relation \<open>standing\<close> to an earlier state.
\<close>

section \<open>The invariant\<close>

definition invitation_has_branch :: "string \<Rightarrow> staff_db \<Rightarrow> bool" where
  "invitation_has_branch i d \<longleftrightarrow> (\<exists>b \<in> set (invitaciones_sucursales d). fst b = i)"

definition member_has_branch :: "int \<Rightarrow> staff_db \<Rightarrow> bool" where
  "member_has_branch m d \<longleftrightarrow> (\<exists>b \<in> set (membresias_sucursales d). ms_membresia b = m \<and> ms_activo b)"

text \<open>\<open>xs\<close> and \<open>ys\<close> are invitations and members on which an operation is still at work.\<close>

definition staff_ok :: "string set \<Rightarrow> int set \<Rightarrow> staff_db \<Rightarrow> bool" where
  "staff_ok xs ys d \<longleftrightarrow> distinct (map mm_id (membresias d)) \<and> distinct (map iv_id (invitaciones d)) \<and> distinct (map iv_hash (invitaciones d))
     \<and> (\<forall>i \<in> set (invitaciones d). iv_rol i \<noteq> ''PROPIETARIO'')
     \<and> (\<forall>i \<in> set (invitaciones d). pending_invitation i \<and> iv_rol i = ''OPERADOR'' \<longrightarrow> iv_id i \<in> xs \<or> invitation_has_branch (iv_id i) d)
     \<and> (\<forall>m \<in> set (membresias d). mm_activo m \<and> mm_rol m = ''OPERADOR'' \<longrightarrow> mm_id m \<in> ys \<or> member_has_branch (mm_id m) d)"

definition owners_of :: "staff_db \<Rightarrow> membresia list" where
  "owners_of d = filter (\<lambda>m. mm_rol m = ''PROPIETARIO'') (membresias d)"

definition closed_hash :: "string \<Rightarrow> staff_db \<Rightarrow> bool" where
  "closed_hash h d \<longleftrightarrow> (\<exists>i \<in> set (invitaciones d). iv_hash i = h \<and> \<not> pending_invitation i)"

definition standing :: "string set \<Rightarrow> int set \<Rightarrow> staff_db \<Rightarrow> staff_db \<Rightarrow> bool" where
  "standing xs ys d0 d \<longleftrightarrow> staff_ok xs ys d \<and> owners_of d = owners_of d0 \<and> (\<forall>h. closed_hash h d0 \<longrightarrow> closed_hash h d)"

definition staff_tables :: "staff_db \<Rightarrow> membresia list \<times> membresia_sucursal list \<times> invitation list \<times> (string \<times> int \<times> int) list" where
  "staff_tables d = (membresias d, membresias_sucursales d, invitaciones d, invitaciones_sucursales d)"

lemma standing_tables: "staff_tables d1 = staff_tables d \<Longrightarrow> standing xs ys d0 d \<Longrightarrow> standing xs ys d0 d1"
  by (simp add: standing_def staff_ok_def owners_of_def closed_hash_def staff_tables_def invitation_has_branch_def member_has_branch_def)

lemma staff_tables_mails [simp]: "staff_tables (drop_invitation_mails p r d) = staff_tables d"
  by (simp add: staff_tables_def drop_invitation_mails_def)

lemma standingD:
  assumes "standing xs ys d0 d"
  shows "distinct (map mm_id (membresias d))" "distinct (map iv_id (invitaciones d))" "distinct (map iv_hash (invitaciones d))"
    "i \<in> set (invitaciones d) \<Longrightarrow> iv_rol i \<noteq> ''PROPIETARIO''"
    "i \<in> set (invitaciones d) \<Longrightarrow> pending_invitation i \<Longrightarrow> iv_rol i = ''OPERADOR'' \<Longrightarrow> iv_id i \<in> xs \<or> invitation_has_branch (iv_id i) d"
    "m \<in> set (membresias d) \<Longrightarrow> mm_activo m \<Longrightarrow> mm_rol m = ''OPERADOR'' \<Longrightarrow> mm_id m \<in> ys \<or> member_has_branch (mm_id m) d"
  using assms unfolding standing_def staff_ok_def by blast+

section \<open>Changes of invitations\<close>

lemma standing_invitations:
  assumes s: "standing xs ys d0 d"
    and f: "\<And>i. p i \<Longrightarrow> iv_id (f i) = iv_id i \<and> iv_rol (f i) = iv_rol i"
    and hashes: "distinct (map iv_hash (update_where p f (invitaciones d)))"
    and stays: "\<And>i. i \<in> set (invitaciones d) \<Longrightarrow> \<not> pending_invitation i \<Longrightarrow> \<not> p i \<or> iv_hash (f i) = iv_hash i \<and> \<not> pending_invitation (f i)"
    and opens: "\<And>i. p i \<Longrightarrow> pending_invitation (f i) \<Longrightarrow> pending_invitation i"
  shows "standing xs ys d0 (set_invitations p f d)"
proof -
  let ?d = "set_invitations p f d"
  have tables: "membresias ?d = membresias d" "membresias_sucursales ?d = membresias_sucursales d" "invitaciones_sucursales ?d = invitaciones_sucursales d"
    "invitaciones ?d = update_where p f (invitaciones d)" by (simp_all add: set_invitations_def)
  have ids: "map iv_id (update_where p f (invitaciones d)) = map iv_id (invitaciones d)" using f by (intro map_update_where) blast
  have rows: "iv_rol i \<noteq> ''PROPIETARIO'' \<and> (pending_invitation i \<and> iv_rol i = ''OPERADOR'' \<longrightarrow> iv_id i \<in> xs \<or> invitation_has_branch (iv_id i) ?d)"
    if "i \<in> set (update_where p f (invitaciones d))" for i
  proof -
    from that obtain x where x: "x \<in> set (invitaciones d)" "i = (if p x then f x else x)" by (auto simp: set_update_where)
    have same: "iv_id i = iv_id x" "iv_rol i = iv_rol x" "pending_invitation i \<longrightarrow> pending_invitation x"
      using x(2) f [of x] opens [of x] by (simp_all split: if_splits)
    with standingD(4,5) [OF s x(1)] show ?thesis by (simp add: invitation_has_branch_def tables)
  qed
  have closed: "closed_hash h ?d" if "closed_hash h d" for h
  proof -
    from that obtain x where x: "x \<in> set (invitaciones d)" "iv_hash x = h" "\<not> pending_invitation x" by (auto simp: closed_hash_def)
    then have "(if p x then f x else x) \<in> set (invitaciones ?d)" by (auto simp: tables set_update_where)
    moreover have "iv_hash (if p x then f x else x) = h \<and> \<not> pending_invitation (if p x then f x else x)" using stays [OF x(1,3)] x(2,3) by auto
    ultimately show ?thesis unfolding closed_hash_def by blast
  qed
  from s rows closed show ?thesis
    by (auto simp: standing_def staff_ok_def tables ids hashes owners_of_def member_has_branch_def)
qed

lemma closed_not_pending: "st \<noteq> ''PENDIENTE'' \<Longrightarrow> \<not> pending_invitation (closed_as st i)"
  by (simp add: pending_invitation_def closed_as_def)

lemma closed_as_sel [simp]: "iv_id (closed_as st i) = iv_id i" "iv_rol (closed_as st i) = iv_rol i" "iv_hash (closed_as st i) = iv_hash i"
  by (simp_all add: closed_as_def)

lemma accepted_sel [simp]: "iv_id (accepted_invitation u t i) = iv_id i" "iv_rol (accepted_invitation u t i) = iv_rol i"
  "iv_hash (accepted_invitation u t i) = iv_hash i" "\<not> pending_invitation (accepted_invitation u t i)"
  by (simp_all add: accepted_invitation_def pending_invitation_def)

lemma standing_close:
  assumes "standing xs ys d0 d" "st \<noteq> ''PENDIENTE''"
  shows "standing xs ys d0 (set_invitations p (closed_as st) d)"
proof (rule standing_invitations [OF assms(1)])
  have "map iv_hash (update_where p (closed_as st) (invitaciones d)) = map iv_hash (invitaciones d)" by (rule map_update_where) simp
  then show "distinct (map iv_hash (update_where p (closed_as st) (invitaciones d)))" using standingD(3) [OF assms(1)] by simp
qed (use closed_not_pending [OF assms(2)] in auto)

lemma standing_accept:
  assumes "standing xs ys d0 d"
  shows "standing xs ys d0 (set_invitations p (accepted_invitation u t) d)"
proof (rule standing_invitations [OF assms])
  have "map iv_hash (update_where p (accepted_invitation u t) (invitaciones d)) = map iv_hash (invitaciones d)" by (rule map_update_where) simp
  then show "distinct (map iv_hash (update_where p (accepted_invitation u t) (invitaciones d)))" using standingD(3) [OF assms] by simp
qed simp_all

lemma standing_resend:
  assumes s: "standing xs ys d0 d" and fresh: "\<And>y. y \<in> set (invitaciones d) \<Longrightarrow> iv_id y \<noteq> i \<Longrightarrow> iv_hash y \<noteq> hash"
    and p: "\<And>x. p x \<Longrightarrow> iv_id x = i \<and> pending_invitation x"
  shows "standing xs ys d0 (set_invitations p (resent hash expires) d)"
proof (rule standing_invitations [OF s])
  note ids = standingD(2) [OF s] and hashes = standingD(3) [OF s]
  have "distinct (map iv_hash (update_where p (resent hash expires) is))"
    if "distinct (map iv_id is)" "distinct (map iv_hash is)" "\<And>y. y \<in> set is \<Longrightarrow> iv_id y \<noteq> i \<Longrightarrow> iv_hash y \<noteq> hash" for "is"
    using that
  proof (induction "is")
    case (Cons x xs)
    have tail: "distinct (map iv_hash (update_where p (resent hash expires) xs))" using Cons by simp
    show ?case
    proof (cases "p x")
      case True
      then have "iv_id x = i" using p by blast
      with Cons.prems(1) have others: "iv_id y \<noteq> i" if "y \<in> set xs" for y using that by (auto simp: image_iff)
      then have "update_where p (resent hash expires) xs = xs" using p by (intro update_where_none) blast
      moreover have "hash \<notin> iv_hash ` set xs" using others Cons.prems(3) by auto
      moreover have "iv_hash (resent hash expires x) = hash" by (simp add: resent_def)
      ultimately show ?thesis using True Cons.prems(2) by simp
    next
      case False
      have "iv_hash x \<notin> iv_hash ` set (update_where p (resent hash expires) xs)"
      proof
        assume "iv_hash x \<in> iv_hash ` set (update_where p (resent hash expires) xs)"
        then obtain y where y: "y \<in> set xs" "iv_hash x = iv_hash (if p y then resent hash expires y else y)" by (auto simp: set_update_where)
        show False
        proof (cases "p y")
          case True
          with y have "iv_hash x = hash" "iv_id y = i" using p by (simp_all add: resent_def)
          with Cons.prems(3) [of x] Cons.prems(1) y(1) show False by (auto simp: image_iff)
        next
          case False
          with y Cons.prems(2) show False by (auto simp: image_iff)
        qed
      qed
      with False tail show ?thesis by simp
    qed
  qed simp
  from this [OF ids hashes fresh] show "distinct (map iv_hash (update_where p (resent hash expires) (invitaciones d)))" .
qed (use p in \<open>auto simp: resent_def pending_invitation_def\<close>)

lemma standing_insert:
  assumes s: "standing {} {} d0 d" and x: "iv_id x \<notin> iv_id ` set (invitaciones d)" "iv_hash x \<notin> iv_hash ` set (invitaciones d)" "iv_rol x \<noteq> ''PROPIETARIO''"
  shows "standing {iv_id x} {} d0 (d\<lparr>invitaciones := invitaciones d @ [x]\<rparr>)"
  using assms by (auto simp: standing_def staff_ok_def owners_of_def closed_hash_def invitation_has_branch_def member_has_branch_def)

lemma standing_invitation_branch:
  assumes "standing xs ys d0 d"
  shows "standing xs ys d0 (d\<lparr>invitaciones_sucursales := invitaciones_sucursales d @ bs\<rparr>)"
  using assms by (auto simp: standing_def staff_ok_def owners_of_def closed_hash_def invitation_has_branch_def member_has_branch_def)

lemma standing_invitation_done:
  assumes s: "standing {i} ys d0 d" and x: "\<And>x. x \<in> set (invitaciones d) \<Longrightarrow> iv_id x = i \<Longrightarrow> iv_rol x = ''OPERADOR'' \<Longrightarrow> invitation_has_branch i d"
  shows "standing {} ys d0 d"
proof -
  have "iv_id y \<in> {} \<or> invitation_has_branch (iv_id y) d"
    if "y \<in> set (invitaciones d)" "pending_invitation y" "iv_rol y = ''OPERADOR''" for y
    using standingD(5) [OF s that] x [OF that(1) _ that(3)] by auto
  with s show ?thesis unfolding standing_def staff_ok_def by blast
qed

section \<open>Changes of members\<close>

lemma standing_member_done:
  assumes s: "standing xs {i} d0 d" and m: "\<And>m. m \<in> set (membresias d) \<Longrightarrow> mm_id m = i \<Longrightarrow> mm_activo m \<Longrightarrow> mm_rol m = ''OPERADOR'' \<Longrightarrow> member_has_branch i d"
  shows "standing xs {} d0 d"
proof -
  have "mm_id y \<in> {} \<or> member_has_branch (mm_id y) d"
    if "y \<in> set (membresias d)" "mm_activo y" "mm_rol y = ''OPERADOR''" for y
    using standingD(6) [OF s that] m [OF that(1) _ that(2,3)] by auto
  with s show ?thesis unfolding standing_def staff_ok_def by blast
qed

lemma standing_join:
  assumes s: "standing xs {} d0 d" and m: "mm_id m \<notin> mm_id ` set (membresias d)" "mm_rol m \<noteq> ''PROPIETARIO''"
  shows "standing xs {mm_id m} d0 (d\<lparr>membresias := membresias d @ [m]\<rparr>)"
  using assms by (auto simp: standing_def staff_ok_def owners_of_def closed_hash_def invitation_has_branch_def member_has_branch_def)

lemma owners_update:
  assumes "\<And>m. m \<in> set ms \<Longrightarrow> p m \<Longrightarrow> mm_rol m \<noteq> ''PROPIETARIO'' \<and> mm_rol (f m) \<noteq> ''PROPIETARIO''"
  shows "filter (\<lambda>m. mm_rol m = ''PROPIETARIO'') (update_where p f ms) = filter (\<lambda>m. mm_rol m = ''PROPIETARIO'') ms"
  using assms by (induction ms) auto

lemma standing_members:
  assumes s: "standing xs {} d0 d" and p: "\<And>m. p m \<Longrightarrow> mm_id m = i"
    and f: "\<And>m. mm_id (f m) = mm_id m"
    and rol: "\<And>m. m \<in> set (membresias d) \<Longrightarrow> p m \<Longrightarrow> mm_rol m \<noteq> ''PROPIETARIO'' \<and> mm_rol (f m) \<noteq> ''PROPIETARIO''"
  shows "standing xs {i} d0 (set_members p f d)"
proof -
  let ?d = "set_members p f d"
  have tables: "membresias ?d = update_where p f (membresias d)" "membresias_sucursales ?d = membresias_sucursales d"
    "invitaciones ?d = invitaciones d" "invitaciones_sucursales ?d = invitaciones_sucursales d" by (simp_all add: set_members_def)
  have ids: "map mm_id (update_where p f (membresias d)) = map mm_id (membresias d)" by (rule map_update_where) (rule f)
  have owners: "owners_of ?d = owners_of d" unfolding owners_of_def tables by (rule owners_update) (rule rol)
  have rows: "mm_id m = i \<or> member_has_branch (mm_id m) ?d"
    if m: "m \<in> set (update_where p f (membresias d))" "mm_activo m" "mm_rol m = ''OPERADOR''" for m
  proof -
    from m(1) obtain x where x: "x \<in> set (membresias d)" "m = (if p x then f x else x)" by (auto simp: set_update_where)
    show ?thesis
    proof (cases "p x")
      case True
      with x(2) p [of x] f [of x] show ?thesis by simp
    next
      case False
      with x(2) m standingD(6) [OF s x(1)] show ?thesis by (auto simp: member_has_branch_def tables)
    qed
  qed
  from s rows show ?thesis
    unfolding standing_def staff_ok_def owners tables ids
    by (auto simp: invitation_has_branch_def closed_hash_def tables)
qed

lemma standing_member_branches:
  assumes s: "standing xs {i} d0 d" and others: "\<And>b. b \<in> set (membresias_sucursales d) \<Longrightarrow> ms_membresia b \<noteq> i \<Longrightarrow> b \<in> set bs"
  shows "standing xs {i} d0 (d\<lparr>membresias_sucursales := bs\<rparr>)"
proof -
  have "mm_id m = i \<or> member_has_branch (mm_id m) (d\<lparr>membresias_sucursales := bs\<rparr>)"
    if "m \<in> set (membresias d)" "mm_activo m" "mm_rol m = ''OPERADOR''" for m
    using standingD(6) [OF s that] others unfolding member_has_branch_def by auto
  with s show ?thesis
    unfolding standing_def staff_ok_def by (auto simp: invitation_has_branch_def closed_hash_def owners_of_def)
qed

section \<open>Operations\<close>

text \<open>Statements on other tables.\<close>

lemma leaves_lift_sum: "leaves k (lift_sum x)"
  unfolding lift_sum_def by (simp add: leaves_leaf split: sum.split)

lemma leaves_manager: "leaves k (require_staff_manager user brand)"
  unfolding require_staff_manager_def by (intro leaves_rules)

lemma leaves_enqueue: "leaves staff_tables (enqueue_invitation_email cr oid inviter i email token expires)"
  unfolding enqueue_invitation_email_def
  by (intro leaves_seq leaves_lift_sum leaves_exec_ret) (auto simp: staff_tables_def Let_def split: if_splits)

lemma leaves_read_invitation: "leaves k (read_invitation i)"
  unfolding read_invitation_def by (intro leaves_rules)

lemma leaves_complete: "leaves staff_tables (complete_idempotency key st body)"
  unfolding complete_idempotency_def by (intro leaves_exec) (simp add: staff_tables_def Let_def)

lemma leaves_claim: "leaves staff_tables (claim_idempotency key scope oper fp)"
  unfolding claim_idempotency_def insert_solicitud_def
  by (intro leaves_rules leaves_exec_ret) (auto simp: staff_tables_def Let_def leaves_leaf leaves_rules split: if_splits option.splits)

lemma leaves_mails: "leaves staff_tables (exec (\<lambda>w. drop_invitation_mails p r (working w)))"
  by (intro leaves_exec) simp

lemma leaves_code: "leaves staff_tables (allocate_user_code pf name last_name :: string staff_tx)"
  unfolding allocate_user_code_def
  by (auto intro!: leaves_rules leaves_exec_ret simp: staff_tables_def Let_def split: prod.splits)

lemma leaves_staff_user: "leaves staff_tables (insert_staff_user email password name last_name code now)"
  unfolding insert_staff_user_def by (intro leaves_exec_ret) (auto simp: staff_tables_def Let_def split: if_splits)

lemmas leaves_statements = leaves_lift_sum leaves_manager leaves_enqueue leaves_read_invitation leaves_complete leaves_claim leaves_mails
  leaves_code leaves_staff_user

lemma secures_still:
  assumes "leaves staff_tables m" "\<And>a. secures J (standing xs ys d0) (f a) Q"
  shows "secures J (standing xs ys d0) (seq m f) Q"
  by (rule secures_after_leaves [OF assms(1) standing_tables assms(2)])

lemma secures_expire:
  "secures J (standing xs ys d0) (expire_invitations brand now) (\<lambda>_. standing xs ys d0)"
  unfolding expire_invitations_def
proof (rule secures_exec)
  fix w :: "staff_db world"
  assume "standing xs ys d0 (working w)"
  then have "standing xs ys d0 (set_invitations (overdue brand now) (closed_as ''EXPIRADA'') (working w))" by (rule standing_close) simp
  then show "standing xs ys d0 (let d = working w; expired = map iv_id (filter (overdue brand now) (invitaciones d))
     in drop_invitation_mails (\<lambda>i. i \<in> set expired) ''invitation expired'' (set_invitations (overdue brand now) (closed_as ''EXPIRADA'') d))"
    unfolding Let_def by (rule standing_tables [OF staff_tables_mails])
qed

lemma secures_commit_normalized: "(\<And>d. P d \<Longrightarrow> J d) \<Longrightarrow> secures J P commit_normalized (\<lambda>_. P)"
  unfolding commit_normalized_def by (rule secures_rename) (rule secures_commit)

lemma secure_revoke_invitation:
  "secures (standing {} {} d0) (\<lambda>_. True) (revoke_invitation user brand i) (\<lambda>_ _. True)"
  unfolding revoke_invitation_def
proof (intro secures_in_tx secures_still [OF leaves_manager] secures_after_now secures_seq [OF secures_expire])
  show "secures (standing {} {} d0) (standing {} {} d0) (seq (exec_ret (\<lambda>w. let d = working w; p = (\<lambda>x. iv_id x = i \<and> iv_marca x = brand \<and> pending_invitation x) in
            Inr (rows_affected p (invitaciones d), set_invitations p (closed_as ''REVOCADA'') d))) (\<lambda>n.
     seq (reject_if (n \<noteq> 1) invitation_invalid) (\<lambda>_.
     seq (exec (\<lambda>w. drop_invitation_mails (\<lambda>x. x = i) ''invitation revoked'' (working w))) (\<lambda>_.
     commit)))) (\<lambda>_ _. True)"
    by (rule secures_seq [OF secures_exec_ret [where Q = "\<lambda>_. standing {} {} d0"]])
      (auto simp: Let_def intro!: standing_close secures_after_reject secures_still [OF leaves_mails] secures_commit)
qed

lemma secure_list_invitations:
  "secures (standing {} {} d0) (\<lambda>_. True) (list_invitations user brand) (\<lambda>_ _. True)"
  unfolding list_invitations_def
  by (intro secures_in_tx secures_still [OF leaves_manager] secures_after_now secures_seq [OF secures_expire]
      secures_still [OF leaves_query] secures_after_commit secures_ret) simp_all

lemma secure_resend_invitation:
  "secures (standing {} {} d0) (\<lambda>_. True) (resend_invitation cr user brand i oid token hash expires) (\<lambda>_ _. True)"
  unfolding resend_invitation_def
proof (intro secures_in_tx secures_still [OF leaves_manager] secures_after_now secures_seq [OF secures_expire]
    secures_seq [OF secures_exec_ret [where Q = "\<lambda>_. standing {} {} d0"]])
  fix w :: "staff_db world" and row d
  let ?p = "\<lambda>x. iv_id x = i \<and> iv_marca x = brand \<and> pending_invitation x"
  assume s: "standing {} {} d0 (working w)"
    and run: "(let d = working w; p = ?p in
            case List.find p (invitaciones d) of
              None \<Rightarrow> Inr (None, d)
            | Some x \<Rightarrow>
                if list_ex (\<lambda>y. iv_id y \<noteq> i \<and> iv_hash y = hash) (invitaciones d) then Inl (PgErr (Unique_violation ''invitaciones_marca_token_hash_key''))
                else if expires \<le> iv_created x then Inl (PgErr (Other_pg ''23514''))
                else Inr (Some (iv_email x), set_invitations p (resent hash expires) d)) = Inr (row, d)"
  show "standing {} {} d0 d"
  proof (cases "List.find ?p (invitaciones (working w))")
    case None
    with run s show ?thesis by (simp add: Let_def)
  next
    case (Some x)
    with run have free: "\<not> list_ex (\<lambda>y. iv_id y \<noteq> i \<and> iv_hash y = hash) (invitaciones (working w))"
      and d: "d = set_invitations ?p (resent hash expires) (working w)" by (auto simp: Let_def split: if_splits)
    show ?thesis unfolding d by (rule standing_resend [OF s]) (use free in \<open>auto simp: list_ex_iff\<close>)
  qed
qed (intro secures_after_require secures_still [OF leaves_mails] secures_still [OF leaves_enqueue] secures_still [OF leaves_read_invitation]
    secures_after_commit secures_ret, simp_all)

text \<open>The invitation under construction: its role is known, and its first branch is awaited.\<close>

definition role_known :: "string \<Rightarrow> string \<Rightarrow> staff_db \<Rightarrow> bool" where
  "role_known i rol d \<longleftrightarrow> (\<forall>x \<in> set (invitaciones d). iv_id x = i \<longrightarrow> iv_rol x = rol)"

lemma secures_insert_invitation:
  assumes "rol \<noteq> ''PROPIETARIO''"
  shows "secures J (standing {} {} d0) (insert_invitation i brand user email rol hash expires) (\<lambda>_ d. standing {i} {} d0 d \<and> role_known i rol d)"
  unfolding insert_invitation_def
proof (rule secures_exec_ret)
  fix w :: "staff_db world" and a d
  let ?x = "\<lparr>iv_id = i, iv_marca = brand, iv_invited_by = user, iv_email = email,
       iv_rol = rol, iv_hash = hash, iv_estado = ''PENDIENTE'', iv_expires = expires, iv_accepted_by = None, iv_accepted_at = None,
       iv_version = 1, iv_created = db_now w\<rparr>"
  assume s: "standing {} {} d0 (working w)"
    and run: "(let d = working w in
     if list_ex (\<lambda>x. iv_id x = i) (invitaciones d) then Inl (PgErr (Unique_violation ''invitaciones_marca_pkey''))
     else if list_ex (\<lambda>x. iv_hash x = hash) (invitaciones d) then Inl (PgErr (Unique_violation ''invitaciones_marca_token_hash_key''))
     else if list_ex (\<lambda>x. iv_marca x = brand \<and> ci_equal (iv_email x) email \<and> pending_invitation x) (invitaciones d)
       then Inl (PgErr (Unique_violation ''invitaciones_marca_email_pendiente_uk''))
     else if (rol \<noteq> ''ADMINISTRADOR'' \<and> rol \<noteq> ''OPERADOR'') \<or> expires \<le> db_now w then Inl (PgErr (Other_pg ''23514''))
     else Inr ((), d\<lparr>invitaciones := invitaciones d @ [?x]\<rparr>)) = Inr (a, d)"
  then have fresh: "i \<notin> iv_id ` set (invitaciones (working w))" "hash \<notin> iv_hash ` set (invitaciones (working w))"
    and d: "d = (working w)\<lparr>invitaciones := invitaciones (working w) @ [?x]\<rparr>"
    by (auto simp: Let_def list_ex_iff split: if_splits)
  have "standing {iv_id ?x} {} d0 d" unfolding d by (rule standing_insert [OF s]) (use fresh assms in simp_all)
  moreover have "role_known i rol d" using fresh(1) by (auto simp: role_known_def d)
  ultimately show "standing {i} {} d0 d \<and> role_known i rol d" by simp
qed

lemma secures_insert_branches:
  assumes "\<And>d bs. P d \<Longrightarrow> P (d\<lparr>invitaciones_sucursales := invitaciones_sucursales d @ bs\<rparr>)"
  shows "secures J P (insert_invitation_branches i brand bs) (\<lambda>_ d. P d \<and> (bs \<noteq> [] \<longrightarrow> invitation_has_branch i d))"
proof -
  have one: "secures J P (exec_ret (\<lambda>w. let d = working w in
       if list_ex (\<lambda>x. fst x = i \<and> fst (snd x) = b) (invitaciones_sucursales d) then Inl (PgErr (Unique_violation ''invitaciones_sucursales_pkey''))
       else if \<not> list_ex (\<lambda>s. s_id s = b \<and> s_marca s = brand) (sucursales d) then Inl (PgErr (Other_pg ''23503''))
       else Inr ((), d\<lparr>invitaciones_sucursales := invitaciones_sucursales d @ [(i, b, brand)]\<rparr>)))
     (\<lambda>_ d. P d \<and> invitation_has_branch i d)" for b
    by (rule secures_exec_ret) (auto simp: Let_def invitation_has_branch_def split: if_splits intro: assms)
  show ?thesis
  proof (induction bs)
    case Nil
    show ?case by (auto intro: secures_ret)
  next
    case (Cons b bs)
    have rest: "secures J (\<lambda>d. P d \<and> invitation_has_branch i d) (insert_invitation_branches i brand bs) (\<lambda>_ d. P d \<and> invitation_has_branch i d)"
    proof (cases bs)
      case Nil
      then show ?thesis by (auto intro: secures_ret)
    next
      case (Cons c cs)
      with Cons.IH show ?thesis by (intro secures_weaken [OF Cons.IH]) auto
    qed
    show ?case unfolding insert_invitation_branches.simps
      by (rule secures_weaken [OF secures_seq [OF one rest]]) auto
  qed
qed

lemma role_known_tables: "staff_tables d1 = staff_tables d \<Longrightarrow> role_known i rol d \<Longrightarrow> role_known i rol d1"
  by (simp add: role_known_def staff_tables_def)

lemma secures_new_invitation:
  assumes rol: "ir_rol req \<noteq> ''PROPIETARIO''" and operator: "ir_rol req = ''OPERADOR'' \<Longrightarrow> ir_branches req \<noteq> []"
  shows "secures (standing {} {} d0) (standing {} {} d0) (new_invitation cr user brand key i oid req token hash expires build) (\<lambda>_ _. True)"
proof -
  let ?J = "standing {} {} d0"
  let ?P = "\<lambda>d. standing {i} {} d0 d \<and> role_known i (ir_rol req) d"
  have branches: "secures ?J ?P (insert_invitation_branches i brand (ir_branches req)) (\<lambda>_. ?J)"
  proof (rule secures_weaken [OF secures_insert_branches [where P = ?P]])
    fix d bs
    assume P: "?P d"
    then have "role_known i (ir_rol req) (d\<lparr>invitaciones_sucursales := invitaciones_sucursales d @ bs\<rparr>)" by (simp add: role_known_def)
    with P show "?P (d\<lparr>invitaciones_sucursales := invitaciones_sucursales d @ bs\<rparr>)" by (simp add: standing_invitation_branch)
  next
    fix d
    assume P: "?P d \<and> (ir_branches req \<noteq> [] \<longrightarrow> invitation_has_branch i d)"
    show "?J d"
    proof (rule standing_invitation_done)
      show "standing {i} {} d0 d" using P by simp
      fix x
      assume "x \<in> set (invitaciones d)" "iv_id x = i" "iv_rol x = ''OPERADOR''"
      with P have "ir_rol req = ''OPERADOR''" by (auto simp: role_known_def)
      with operator P show "invitation_has_branch i d" by simp
    qed
  qed simp
  have last: "secures ?J ?J (seq commit_normalized (\<lambda>_. ret r)) (\<lambda>_ _. True)" for r :: idempotent_result
    by (rule secures_seq [OF secures_commit_normalized]) (auto intro: secures_ret)
  show ?thesis
    unfolding new_invitation_def validate_invitation_branches_def
    by (intro secures_after_now secures_seq [OF secures_expire] secures_still [OF leaves_seq] leaves_query leaves_leaf secures_still [OF leaves_query]
        secures_after_reject secures_seq [OF secures_rename [OF secures_insert_invitation [OF rol]]] secures_seq [OF branches]
        secures_still [OF leaves_enqueue] secures_still [OF leaves_read_invitation] secures_still [OF leaves_lift_sum]
        secures_still [OF leaves_complete] last)
qed

lemma secure_create_invitation:
  assumes "ir_rol req \<noteq> ''PROPIETARIO''" "ir_rol req = ''OPERADOR'' \<Longrightarrow> ir_branches req \<noteq> []"
  shows "secures (standing {} {} d0) (\<lambda>_. True) (create_invitation cr user brand key fp i oid req token hash expires build) (\<lambda>_ _. True)"
  unfolding create_invitation_def
  by (intro secures_in_tx secures_still [OF leaves_manager] secures_still [OF leaves_claim] secures_split secures_ret
      secures_new_invitation [OF assms]) simp_all

subsection \<open>Joining\<close>

definition invited :: "int set \<Rightarrow> staff_db \<Rightarrow> invitation \<Rightarrow> staff_db \<Rightarrow> bool" where
  "invited ys d0 i d \<longleftrightarrow> standing {} ys d0 d \<and> i \<in> set (invitaciones d) \<and> pending_invitation i"

lemma invited_tables: "staff_tables d1 = staff_tables d \<Longrightarrow> invited ys d0 i d \<Longrightarrow> invited ys d0 i d1"
  using standing_tables [of d1 d] by (auto simp: invited_def staff_tables_def)

definition known_role :: "int \<Rightarrow> string \<Rightarrow> staff_db \<Rightarrow> bool" where
  "known_role i rol d \<longleftrightarrow> (\<forall>m \<in> set (membresias d). mm_id m = i \<longrightarrow> mm_rol m = rol)"

lemma secures_insert_membership:
  "secures J (invited {} d0 i) (insert_membership user (iv_marca i) (iv_rol i))
     (\<lambda>k d. invited {k} d0 i d \<and> known_role k (iv_rol i) d)"
  unfolding insert_membership_def
proof (rule secures_exec_ret)
  fix w :: "staff_db world" and k d
  let ?k = "next_id (map mm_id (membresias (working w)))"
  let ?m = "\<lparr>mm_id = ?k, mm_usuario = user, mm_marca = iv_marca i, mm_rol = iv_rol i, mm_activo = True, mm_version = 1\<rparr>"
  assume inv: "invited {} d0 i (working w)"
    and run: "(let d = working w; i' = next_id (map mm_id (membresias d)) in
     if list_ex (\<lambda>m. mm_usuario m = user \<and> mm_marca m = iv_marca i) (membresias d)
       then Inl (PgErr (Unique_violation ''membresias_marca_usuario_id_marca_id_key''))
     else Inr (i', d\<lparr>membresias := membresias d @ [\<lparr>mm_id = i', mm_usuario = user, mm_marca = iv_marca i, mm_rol = iv_rol i,
       mm_activo = True, mm_version = 1\<rparr>]\<rparr>)) = Inr (k, d)"
  then have k: "k = ?k" and d: "d = (working w)\<lparr>membresias := membresias (working w) @ [?m]\<rparr>" by (auto simp: Let_def split: if_splits)
  have fresh: "?k \<notin> mm_id ` set (membresias (working w))" using next_id_fresh [of "map mm_id (membresias (working w))"] by simp
  have s: "standing {} {} d0 (working w)" and i: "i \<in> set (invitaciones (working w))" "pending_invitation i" using inv by (simp_all add: invited_def)
  have "standing {} {mm_id ?m} d0 d" unfolding d
    by (rule standing_join [OF s]) (use fresh standingD(4) [OF s i(1)] in simp_all)
  with i have "invited {k} d0 i d" by (simp add: invited_def k d)
  moreover have "known_role k (iv_rol i) d" unfolding known_role_def k d using image_eqI [of _ mm_id] fresh by fastforce
  ultimately show "invited {k} d0 i d \<and> known_role k (iv_rol i) d" by simp
qed

lemma secures_copy_branches:
  "secures J (\<lambda>d. invited {k} d0 i d \<and> known_role k (iv_rol i) d) (copy_branches k (iv_id i)) (\<lambda>_. invited {} d0 i)"
  unfolding copy_branches_def
proof (rule secures_exec)
  fix w :: "staff_db world"
  let ?bs = "membresias_sucursales (working w) @ map (assigned k \<circ> snd) (filter (\<lambda>b. fst b = iv_id i) (invitaciones_sucursales (working w)))"
  let ?d = "(working w)\<lparr>membresias_sucursales := ?bs\<rparr>"
  assume P: "invited {k} d0 i (working w) \<and> known_role k (iv_rol i) (working w)"
  then have s: "standing {} {k} d0 (working w)" and i: "i \<in> set (invitaciones (working w))" "pending_invitation i" by (simp_all add: invited_def)
  have "standing {} {k} d0 ?d" by (rule standing_member_branches [OF s]) simp
  then have "standing {} {} d0 ?d"
  proof (rule standing_member_done)
    fix m
    assume "m \<in> set (membresias ?d)" "mm_id m = k" "mm_rol m = ''OPERADOR''"
    with P have "iv_rol i = ''OPERADOR''" by (auto simp: known_role_def)
    from standingD(5) [OF s i this] obtain b where "b \<in> set (invitaciones_sucursales (working w))" "fst b = iv_id i"
      by (auto simp: invitation_has_branch_def)
    then have "assigned k (snd b) \<in> set ?bs" by auto
    then show "member_has_branch k ?d" unfolding member_has_branch_def
      by (intro bexI [of _ "assigned k (snd b)"]) (simp_all add: assigned_def)
  qed
  with i show "invited {} d0 i (let d = working w in d\<lparr>membresias_sucursales := membresias_sucursales d @
       map (assigned k \<circ> snd) (filter (\<lambda>b. fst b = iv_id i) (invitaciones_sucursales d))\<rparr>)"
    by (simp add: invited_def Let_def)
qed

lemma secures_still_invited:
  assumes "leaves staff_tables m" "\<And>a. secures J (invited ys d0 i) (f a) Q"
  shows "secures J (invited ys d0 i) (seq m f) Q"
  by (rule secures_after_leaves [OF assms(1) invited_tables assms(2)])

lemma secures_join_staff: "secures (standing {} {} d0) (invited {} d0 i) (join_staff i u now) (\<lambda>_ _. True)"
  unfolding join_staff_def
proof (intro secures_seq [OF secures_rename [OF secures_insert_membership]] secures_seq [OF secures_copy_branches])
  let ?p = "\<lambda>x. iv_id x = iv_id i"
  have accept: "secures (standing {} {} d0) (invited {} d0 i) (exec (\<lambda>w. set_invitations ?p (accepted_invitation (u_id u) now) (working w))) (\<lambda>_. standing {} {} d0)"
    by (rule secures_exec) (auto simp: invited_def intro: standing_accept)
  show "secures (standing {} {} d0) (invited {} d0 i)
     (seq (exec (\<lambda>w. set_invitations ?p (accepted_invitation (u_id u) now) (working w))) (\<lambda>_.
     seq (exec (\<lambda>w. drop_invitation_mails (\<lambda>x. x = iv_id i) ''invitation accepted'' (working w))) (\<lambda>_.
     commit_normalized))) (\<lambda>_ _. True)"
    by (intro secures_seq [OF accept] secures_still [OF leaves_mails] secures_weaken [OF secures_commit_normalized [where P = "standing {} {} d0"]]) simp_all
qed

lemma secure_register_invitation:
  "secures (standing {} {} d0) (\<lambda>_. True) (register_invitation pf hash now name last_name password) (\<lambda>_ _. True)"
  unfolding register_invitation_def
proof (rule secures_in_tx, rule secures_after_query, rule secures_after_require)
  fix row and i :: invitation
  let ?rows = "\<lambda>d. [i. i \<leftarrow> invitaciones d, m \<leftarrow> marcas d, m_id m = iv_marca i \<and> m_activo m \<and> m_deleted_at m = None \<and> open_invitation hash now i]"
  assume row: "row = Some i"
  have start: "invited {} d0 i d"
    if "standing {} {} d0 d \<and> (\<exists>w. working w = d \<and> (let d = working w in first_row (?rows d)) = row)" for d
    using that row by (auto simp: invited_def Let_def open_invitation_def dest!: first_row_SomeD)
  have rest: "secures (standing {} {} d0) (invited {} d0 i) (seq (query (\<lambda>w. list_ex (\<lambda>u. ci_equal (u_email u) (iv_email i)) (usuarios (working w)))) (\<lambda>exists.
     seq (reject_if exists (Repo ErrEmailExists)) (\<lambda>_.
     seq (allocate_user_code pf name last_name) (\<lambda>code.
     seq (catch (insert_staff_user (iv_email i) password name last_name code now) (\<lambda>e. throw (normalize e))) (\<lambda>u.
     seq (join_staff i u now) (\<lambda>_.
     ret u)))))) (\<lambda>_ _. True)"
    by (intro secures_still_invited [OF leaves_query] secures_after_reject secures_still_invited [OF leaves_code]
        secures_still_invited [OF leaves_catch [OF leaves_staff_user]] leaves_leaf secures_seq [OF secures_join_staff] secures_ret) simp
  show "secures (standing {} {} d0) (\<lambda>d. standing {} {} d0 d \<and> (\<exists>w. working w = d \<and> (let d = working w in first_row (?rows d)) = row))
     (seq (query (\<lambda>w. list_ex (\<lambda>u. ci_equal (u_email u) (iv_email i)) (usuarios (working w)))) (\<lambda>exists.
     seq (reject_if exists (Repo ErrEmailExists)) (\<lambda>_.
     seq (allocate_user_code pf name last_name) (\<lambda>code.
     seq (catch (insert_staff_user (iv_email i) password name last_name code now) (\<lambda>e. throw (normalize e))) (\<lambda>u.
     seq (join_staff i u now) (\<lambda>_.
     ret u)))))) (\<lambda>_ _. True)"
  proof (rule secures_weaken [OF rest])
    fix d
    assume "standing {} {} d0 d \<and> (\<exists>w. working w = d \<and> (let d = working w in first_row (?rows d)) = row)"
    then show "invited {} d0 i d" by (rule start)
  qed simp
qed

subsection \<open>Changing members\<close>

text \<open>The member \<open>k\<close> is under change: \<open>keep\<close> is what the change makes of it.\<close>

definition under_change :: "int \<Rightarrow> (membresia \<Rightarrow> bool) \<Rightarrow> staff_db \<Rightarrow> staff_db \<Rightarrow> bool" where
  "under_change k made d0 d \<longleftrightarrow> standing {} {k} d0 d \<and> (\<forall>m \<in> set (membresias d). mm_id m = k \<longrightarrow> made m)"

lemma secures_still_changing:
  assumes "leaves staff_tables m" "\<And>a. secures J (under_change k made d0) (f a) Q"
  shows "secures J (under_change k made d0) (seq m f) Q"
proof (rule secures_after_leaves [OF assms(1) _ assms(2)])
  fix d d1 :: staff_db
  assume "staff_tables d1 = staff_tables d" "under_change k made d0 d"
  then show "under_change k made d0 d1" using standing_tables [of d1 d] by (auto simp: under_change_def staff_tables_def)
qed

lemma under_change_branches:
  assumes "under_change k made d0 d" "\<And>b. b \<in> set (membresias_sucursales d) \<Longrightarrow> ms_membresia b \<noteq> k \<Longrightarrow> b \<in> set bs"
  shows "under_change k made d0 (d\<lparr>membresias_sucursales := bs\<rparr>)"
  using assms(1) standing_member_branches [OF _ assms(2)] by (simp add: under_change_def)

lemma under_change_rows:
  assumes "under_change k made d0 d" "\<And>b. p b \<Longrightarrow> ms_membresia b = k"
  shows "under_change k made d0 (set_member_branches p f d)"
  unfolding set_member_branches_def
  by (rule under_change_branches [OF assms(1)]) (use assms(2) in \<open>auto simp: set_update_where\<close>)

lemma secures_lock_member:
  assumes "\<And>m. mm_rol m \<noteq> ''PROPIETARIO'' \<Longrightarrow> secures J (\<lambda>d. standing {} {} d0 d \<and> m \<in> set (membresias d) \<and> mm_id m = k) (f m) Q"
  shows "secures J (standing {} {} d0) (seq (lock_member user brand k) f) Q"
proof (rule secures_seq [where R = "\<lambda>m d. standing {} {} d0 d \<and> m \<in> set (membresias d) \<and> mm_id m = k \<and> mm_rol m \<noteq> ''PROPIETARIO''"])
  show "secures J (standing {} {} d0) (lock_member user brand k)
     (\<lambda>m d. standing {} {} d0 d \<and> m \<in> set (membresias d) \<and> mm_id m = k \<and> mm_rol m \<noteq> ''PROPIETARIO'')"
    unfolding lock_member_def
    by (rule secures_after_query, rule secures_after_require, rule secures_after_reject, rule secures_after_reject, rule secures_ret)
      (auto dest!: find_member)
next
  fix m
  show "secures J (\<lambda>d. standing {} {} d0 d \<and> m \<in> set (membresias d) \<and> mm_id m = k \<and> mm_rol m \<noteq> ''PROPIETARIO'') (f m) Q"
  proof (cases "mm_rol m = ''PROPIETARIO''")
    case True
    then show ?thesis by (simp add: secures_def)
  next
    case False
    show ?thesis by (rule secures_weaken [OF assms [OF False]]) simp_all
  qed
qed

lemma secures_update_member:
  assumes p: "\<And>x. p x \<Longrightarrow> mm_id x = k" and f: "\<And>x. mm_id (f x) = mm_id x"
    and rol: "mm_rol m \<noteq> ''PROPIETARIO''" "mm_rol (f m) \<noteq> ''PROPIETARIO''" and made: "made (f m)"
  shows "secures J (\<lambda>d. standing {} {} d0 d \<and> m \<in> set (membresias d) \<and> mm_id m = k) (update_member p f) (\<lambda>_. under_change k made d0)"
  unfolding update_member_def
proof (rule secures_seq [where R = "\<lambda>n d. n = 1 \<longrightarrow> under_change k made d0 d"])
  show "secures J (\<lambda>d. n = 1 \<longrightarrow> under_change k made d0 d) (reject_if (n \<noteq> 1) (Repo ErrPreconditionFailed)) (\<lambda>_. under_change k made d0)" for n :: nat
    by (rule securesI) (auto simp: reject_if_def ret_def throw_def split: if_splits)
next
  show "secures J (\<lambda>d. standing {} {} d0 d \<and> m \<in> set (membresias d) \<and> mm_id m = k) (exec_ret (\<lambda>w. let d = working w in
       if list_ex (\<lambda>m. p m \<and> mm_rol (f m) \<notin> {''PROPIETARIO'', ''ADMINISTRADOR'', ''OPERADOR''}) (membresias d)
         then Inl (PgErr (Other_pg ''23514''))
       else Inr (rows_affected p (membresias d), set_members p f d))) (\<lambda>n d. n = 1 \<longrightarrow> under_change k made d0 d)"
  proof (rule secures_exec_ret, rule impI)
    fix w :: "staff_db world" and n d
    assume P: "standing {} {} d0 (working w) \<and> m \<in> set (membresias (working w)) \<and> mm_id m = k" and "n = 1"
      and run: "(let d = working w in
       if list_ex (\<lambda>m. p m \<and> mm_rol (f m) \<notin> {''PROPIETARIO'', ''ADMINISTRADOR'', ''OPERADOR''}) (membresias d)
         then Inl (PgErr (Other_pg ''23514''))
       else Inr (rows_affected p (membresias d), set_members p f d)) = Inr (n, d)"
    then have d: "d = set_members p f (working w)" and one: "rows_affected p (membresias (working w)) = 1"
      by (auto simp: Let_def split: if_splits)
    have s: "standing {} {} d0 (working w)" and m: "m \<in> set (membresias (working w))" "mm_id m = k" using P by simp_all
    have only: "x = m" if "x \<in> set (membresias (working w))" "mm_id x = k" for x
      using distinct_key_unique [OF standingD(1) [OF s] that(1) m(1)] that(2) m(2) by simp
    have "filter p (membresias (working w)) \<noteq> []" using one by (auto simp: rows_affected_def)
    then obtain x where "x \<in> set (membresias (working w))" "p x" by (auto simp: filter_empty_conv)
    with only p have pm: "p m" by blast
    have "standing {} {k} d0 d" unfolding d
    proof (rule standing_members [OF s])
      fix y
      assume y: "y \<in> set (membresias (working w))" "p y"
      with only [OF y(1) p [OF y(2)]] rol show "mm_rol y \<noteq> ''PROPIETARIO'' \<and> mm_rol (f y) \<noteq> ''PROPIETARIO''" by simp
    qed (use p f in simp_all)
    moreover have "made y" if "y \<in> set (membresias d)" "mm_id y = k" for y
    proof -
      from that(1) obtain z where z: "z \<in> set (membresias (working w))" "y = (if p z then f z else z)" by (auto simp: d set_members_def set_update_where)
      with that(2) f have "mm_id z = k" by (auto split: if_splits)
      with only [OF z(1)] pm z(2) made show "made y" by simp
    qed
    ultimately show "under_change k made d0 d" by (simp add: under_change_def)
  qed
qed

lemma secures_release:
  "secures J (under_change k made d0) (release_branches k) (\<lambda>_. under_change k made d0)"
  unfolding release_branches_def by (rule secures_exec) (auto intro: under_change_rows)

lemma secures_assign:
  "secures J (under_change k made d0) (assign_branches k brand bs) (\<lambda>_. under_change k made d0)"
proof (induction bs)
  case (Cons b bs)
  let ?p = "\<lambda>x. ms_membresia x = k \<and> ms_sucursal x = b"
  have "secures J (under_change k made d0) (exec_ret (\<lambda>w. let d = working w; p = ?p in
       if \<not> list_ex (\<lambda>s. s_id s = b \<and> s_marca s = brand) (sucursales d) then Inl (PgErr (Other_pg ''23503''))
       else if list_ex p (membresias_sucursales d) then Inr ((), set_member_branches p (\<lambda>x. x\<lparr>ms_activo := True, ms_marca := brand\<rparr>) d)
       else Inr ((), d\<lparr>membresias_sucursales := membresias_sucursales d @ [assigned k (b, brand)]\<rparr>))) (\<lambda>_. under_change k made d0)"
    by (rule secures_exec_ret) (auto simp: Let_def split: if_splits intro: under_change_rows under_change_branches)
  from secures_seq [OF this Cons.IH] show ?case by simp
qed (auto intro: secures_ret)

lemma secures_reassign:
  "secures J (under_change k made d0) (reassign_branches k brand rol branches) (\<lambda>_. under_change k made d0)"
  unfolding reassign_branches_def validate_invitation_branches_def
  by (intro secures_split secures_after_reject secures_release secures_ret secures_still_changing [OF leaves_seq] leaves_query leaves_leaf
      secures_seq [OF secures_release secures_assign])

lemma secures_operator:
  "secures J (under_change k (\<lambda>m. mm_rol m = rol) d0) (operator_has_branch k rol) (\<lambda>_. standing {} {} d0)"
  unfolding operator_has_branch_def
proof (rule secures_split)
  show "secures J (under_change k (\<lambda>m. mm_rol m = rol) d0)
     (seq (query (\<lambda>w. rows_affected (\<lambda>b. ms_membresia b = k \<and> ms_activo b) (membresias_sucursales (working w)))) (\<lambda>n.
        reject_if (n = 0) (Repo ErrInvalidRequest))) (\<lambda>_. standing {} {} d0)"
  proof (rule secures_after_query)
    fix n
    have "standing {} {} d0 d" if "under_change k (\<lambda>m. mm_rol m = rol) d0 d"
      "rows_affected (\<lambda>b. ms_membresia b = k \<and> ms_activo b) (membresias_sucursales d) \<noteq> 0" for d
    proof -
      from that(2) have "member_has_branch k d" by (auto simp: rows_affected_def member_has_branch_def filter_empty_conv)
      with that(1) show ?thesis unfolding under_change_def by (blast intro: standing_member_done)
    qed
    then show "secures J (\<lambda>d. under_change k (\<lambda>m. mm_rol m = rol) d0 d \<and> (\<exists>w. working w = d \<and>
        rows_affected (\<lambda>b. ms_membresia b = k \<and> ms_activo b) (membresias_sucursales (working w)) = n))
      (reject_if (n = 0) (Repo ErrInvalidRequest)) (\<lambda>_. standing {} {} d0)"
      by (intro securesI) (auto simp: reject_if_def ret_def throw_def split: if_splits)
  qed
next
  assume "rol \<noteq> ''OPERADOR''"
  then have "standing {} {} d0 d" if "under_change k (\<lambda>m. mm_rol m = rol) d0 d" for d
    using that unfolding under_change_def by (blast intro: standing_member_done)
  then show "secures J (under_change k (\<lambda>m. mm_rol m = rol) d0) (ret ()) (\<lambda>_. standing {} {} d0)" by (rule secures_ret)
qed

lemma secure_change_member:
  assumes "role \<noteq> Some ''PROPIETARIO''"
  shows "secures (standing {} {} d0) (\<lambda>_. True) (change_member user brand k version role branches) (\<lambda>_ _. True)"
  unfolding change_member_def Let_def
proof (intro secures_in_tx secures_still [OF leaves_manager] secures_lock_member)
  fix m :: membresia
  assume m: "mm_rol m \<noteq> ''PROPIETARIO''"
  let ?rol = "coalesce role (mm_rol m)"
  have rol: "?rol \<noteq> ''PROPIETARIO''" using assms m by (cases role) simp_all
  show "secures (standing {} {} d0) (\<lambda>d. standing {} {} d0 d \<and> m \<in> set (membresias d) \<and> mm_id m = k)
     (seq (update_member (\<lambda>x. mm_id x = k \<and> mm_marca x = brand \<and> mm_version x = version \<and> mm_activo x)
            (\<lambda>x. x\<lparr>mm_rol := ?rol, mm_version := mm_version x + 1\<rparr>)) (\<lambda>_.
     seq (reassign_branches k brand ?rol branches) (\<lambda>_.
     seq (operator_has_branch k ?rol) (\<lambda>_.
     commit)))) (\<lambda>_ _. True)"
    by (intro secures_seq [OF secures_update_member [where m = m and made = "\<lambda>m. mm_rol m = ?rol"]] secures_seq [OF secures_reassign]
        secures_seq [OF secures_operator] secures_commit) (use m rol in simp_all)
qed

lemma secure_delete_staff:
  "secures (standing {} {} d0) (\<lambda>_. True) (delete_staff user brand k version) (\<lambda>_ _. True)"
  unfolding delete_staff_def
proof (intro secures_in_tx secures_still [OF leaves_manager] secures_lock_member secures_after_reject)
  fix m :: membresia
  assume m: "mm_rol m \<noteq> ''PROPIETARIO''"
  have kept: "standing {} {} d0 d" if "under_change k (\<lambda>m. \<not> mm_activo m) d0 d" for d
    using that unfolding under_change_def by (blast intro: standing_member_done)
  show "secures (standing {} {} d0) (\<lambda>d. standing {} {} d0 d \<and> m \<in> set (membresias d) \<and> mm_id m = k)
     (seq (update_member (\<lambda>x. mm_id x = k \<and> mm_marca x = brand \<and> mm_version x = version \<and> mm_activo x
              \<and> mm_rol x \<noteq> ''PROPIETARIO'') (\<lambda>x. x\<lparr>mm_activo := False, mm_version := mm_version x + 1\<rparr>)) (\<lambda>_.
     seq (release_branches k) (\<lambda>_.
     commit))) (\<lambda>_ _. True)"
    by (intro secures_seq [OF secures_update_member [where m = m and made = "\<lambda>m. \<not> mm_activo m"]] secures_seq [OF secures_release]
        secures_commit) (use m kept in simp_all)
qed

section \<open>Services and histories\<close>

lemma secures_retry_from:
  assumes "secures J (\<lambda>_. True) m (\<lambda>a _. R a)"
  shows "secures J (\<lambda>_. True) (retry_from cancelled k n m e) (\<lambda>a _. R a)"
proof (induction n arbitrary: k e)
  case 0
  show ?case by (rule securesI) (auto split: sum.split)
next
  case (Suc n)
  show ?case
  proof (rule securesI)
    fix w r w1
    assume w: "J (committed w)" and run: "retry_from cancelled k (Suc n) m e w = (r, w1)"
    obtain r2 w2 where m: "m w = (r2, w2)" by (cases "m w")
    note c = securesD [OF assms w TrueI m]
    show "J (committed w1) \<and> (case r of Inl _ \<Rightarrow> True | Inr a \<Rightarrow> R a)"
    proof (cases r2)
      case (Inr a)
      with run m c show ?thesis by auto
    next
      case (Inl e')
      show ?thesis
      proof (cases "is_retryable e' \<and> \<not> cancelled k")
        case True
        with run m Inl have "retry_from cancelled (Suc k) n m e' w2 = (r, w1)" by simp
        from securesD [OF Suc.IH c(1) TrueI this] show ?thesis by (simp split: sum.split)
      next
        case False
        with run m Inl c(1) show ?thesis by (auto split: if_splits)
      qed
    qed
  qed
qed

lemmas secures_any = secures_after_leaves [where P = "\<lambda>_. True" and k = "\<lambda>_. ()", OF _ TrueI]

lemma secures_retry: "secures J (\<lambda>_. True) m (\<lambda>a _. R a) \<Longrightarrow> secures J (\<lambda>_. True) (retry cancelled m) (\<lambda>a _. R a)"
  "secures J (\<lambda>_. True) m (\<lambda>a _. R a) \<Longrightarrow> secures J (\<lambda>_. True) (retry_registration cancelled m) (\<lambda>a _. R a)"
  unfolding retry_def retry_registration_def by (rule secures_retry_from, assumption)+

lemma secures_renamed: "secures J P m Q \<Longrightarrow> secures J P (renamed es e m) Q"
  unfolding renamed_def by (rule secures_rename)

lemma clean_role_staff: "clean_role r = Some rol \<Longrightarrow> rol \<noteq> ''PROPIETARIO''"
  by (auto simp: clean_role_def Let_def split: if_splits)

lemma clean_invitation_staff:
  assumes "clean_invitation parse_address req = Some c"
  shows "ir_rol c \<noteq> ''PROPIETARIO''" "ir_rol c = ''OPERADOR'' \<Longrightarrow> ir_branches c \<noteq> []"
  using assms by (auto simp: clean_invitation_def dest: clean_role_staff split: option.splits if_splits)

lemma clean_change_staff: "clean_change role branches = Some (r, bs) \<Longrightarrow> r \<noteq> Some ''PROPIETARIO''"
  by (auto simp: clean_change_def dest: clean_role_staff split: if_splits option.splits)

inductive staff_step :: "staff_db \<Rightarrow> staff_db \<Rightarrow> bool" where
  lists_invitations: "step_of (list_invitations user brand) d d1 \<Longrightarrow> staff_step d d1"
| invites: "step_of (create_invitation_service cr parse_address key_ok fingerprint_of cancelled drawn user brand key i oid req build) d d1
    \<Longrightarrow> staff_step d d1"
| revokes: "step_of (revoke_invitation_service cancelled user brand i) d d1 \<Longrightarrow> staff_step d d1"
| resends: "step_of (resend_invitation_service cr cancelled drawn user brand i oid) d d1 \<Longrightarrow> staff_step d d1"
| registers: "step_of (register_invitation_service pf cr captcha cancelled hash_password token name last_name password) d d1 \<Longrightarrow> staff_step d d1"
| changes: "step_of (update_staff_service cancelled user brand membership version role branches) d d1 \<Longrightarrow> staff_step d d1"
| deletes: "step_of (delete_staff_service cancelled user brand membership version) d d1 \<Longrightarrow> staff_step d d1"

lemma secure_create_service:
  "secures (standing {} {} d0) (\<lambda>_. True) (create_invitation_service cr parse_address key_ok fingerprint_of cancelled drawn user brand key i oid req build) (\<lambda>_ _. True)"
  unfolding create_invitation_service_def
proof (rule secures_after_require)
  fix c
  assume c: "clean_invitation parse_address req = Some c"
  show "secures (standing {} {} d0) (\<lambda>_. True) (seq (reject_if (\<not> key_ok key) (Svc InvalidRequest)) (\<lambda>_.
     seq (lift_sum (identity_token cr drawn)) (\<lambda>(token, hash).
     retry cancelled (seq now_app (\<lambda>now.
       create_invitation cr user brand key (fingerprint_of brand c) i oid c token hash (now + three_days) build))))) (\<lambda>_ _. True)"
    by (intro secures_after_reject secures_any [OF leaves_lift_sum] secures_split secures_retry secures_after_now
        secure_create_invitation clean_invitation_staff [OF c])
qed

lemma secure_revoke_service:
  "secures (standing {} {} d0) (\<lambda>_. True) (revoke_invitation_service cancelled user brand i) (\<lambda>_ _. True)"
  unfolding revoke_invitation_service_def by (intro secures_retry secure_revoke_invitation)

lemma secure_resend_service:
  "secures (standing {} {} d0) (\<lambda>_. True) (resend_invitation_service cr cancelled drawn user brand i oid) (\<lambda>_ _. True)"
  unfolding resend_invitation_service_def
  by (intro secures_any [OF leaves_lift_sum] secures_split secures_retry secures_after_now secure_resend_invitation)

lemma leaves_public_service: "leaves k (public_invitation_service cr token)"
  unfolding public_invitation_service_def public_invitation_def renamed_def
  by (auto intro!: leaves_rules split: prod.split)

lemma secure_register_service:
  "secures (standing {} {} d0) (\<lambda>_. True) (register_invitation_service pf cr captcha cancelled hash_password token name last_name password) (\<lambda>_ _. True)"
proof -
  have captcha: "leaves k (captcha_passed captcha)" for k
    unfolding captcha_passed_def by (simp add: leaves_leaf split: option.split)
  show ?thesis
    unfolding register_invitation_service_def
    by (intro secures_after_require secures_split secures_after_reject secures_any [OF leaves_public_service] secures_any [OF captcha]
        secures_any [OF leaves_lift_sum] secures_renamed secures_retry secures_after_now secure_register_invitation)
qed

lemma secure_update_service:
  "secures (standing {} {} d0) (\<lambda>_. True) (update_staff_service cancelled user brand membership version role branches) (\<lambda>_ _. True)"
  unfolding update_staff_service_def
proof (rule secures_after_reject, rule secures_after_require)
  fix x
  assume x: "clean_change role branches = Some x"
  have "leaves k (get_staff_member user brand membership)" for k
    unfolding get_staff_member_def by (intro leaves_rules)
  then have read: "secures J (\<lambda>_. True) (get_staff_member user brand membership) (\<lambda>_ _. True)" for J
    by (rule secures_leaves [where k = "\<lambda>_. ()"]) simp
  show "secures (standing {} {} d0) (\<lambda>_. True) (case x of (r, bs) \<Rightarrow> retry cancelled (update_staff user brand membership version r bs)) (\<lambda>_ _. True)"
    unfolding update_staff_def
    by (intro secures_split secures_retry secures_seq [OF secure_change_member] read) (use x in \<open>auto dest: clean_change_staff\<close>)
qed

lemma secure_delete_service:
  "secures (standing {} {} d0) (\<lambda>_. True) (delete_staff_service cancelled user brand membership version) (\<lambda>_ _. True)"
  unfolding delete_staff_service_def by (intro secures_after_reject secures_retry secure_delete_staff)

lemmas secure_staff_services = secure_list_invitations secure_create_service secure_revoke_service secure_resend_service secure_register_service
  secure_update_service secure_delete_service

lemma staff_step_stands:
  assumes "staff_step d d1" "standing {} {} d0 d"
  shows "standing {} {} d0 d1"
  using assms by (cases rule: staff_step.cases) (blast intro: secures_step secure_staff_services)+

lemma staff_history:
  assumes "staff_step\<^sup>*\<^sup>* d d1" "staff_ok {} {} d"
  shows "standing {} {} d d1"
  using assms(1)
proof (induction rule: rtranclp_induct)
  case base
  show ?case using assms(2) by (simp add: standing_def)
next
  case (step d2 d3)
  then show ?case by (blast intro: staff_step_stands)
qed

end
