(* ===== verification/StaffProperties.thy ===== *)
theory StaffProperties
  imports StaffTheorems
begin

text \<open>
  What staff and invitations come to: the effect of a registration, who may change the staff, and what holds after any
  history of operations.
\<close>

section \<open>The effect of a registration\<close>

definition joined :: "invitation \<Rightarrow> usuario \<Rightarrow> int \<Rightarrow> staff_db \<Rightarrow> staff_db" where
  "joined i u now d = (let k = next_id (map mm_id (membresias d)) in
     drop_invitation_mails (\<lambda>x. x = iv_id i) ''invitation accepted'' (set_invitations (\<lambda>x. iv_id x = iv_id i) (accepted_invitation (u_id u) now)
       (d\<lparr>membresias := membresias d @ [\<lparr>mm_id = k, mm_usuario = u_id u, mm_marca = iv_marca i, mm_rol = iv_rol i, mm_activo = True, mm_version = 1\<rparr>],
          membresias_sucursales := membresias_sucursales d @ map (assigned k \<circ> snd) (filter (\<lambda>b. fst b = iv_id i) (invitaciones_sucursales d))\<rparr>)))"

lemma rethrow_Inr: "catch m (\<lambda>e. throw (f e)) w = (Inr a, w1) \<longleftrightarrow> m w = (Inr a, w1)"
  by (auto simp: catch_Inr throw_Inr)

lemma join_staff_Inr:
  assumes "join_staff i u now w = (Inr a, w1)"
  shows "committed w1 = joined i u now (working w)"
proof -
  from assms obtain k w2 where ins: "insert_membership (u_id u) (iv_marca i) (iv_rol i) w = (Inr k, w2)"
    and rest: "seq (copy_branches k (iv_id i)) (\<lambda>_.
     seq (exec (\<lambda>w. set_invitations (\<lambda>x. iv_id x = iv_id i) (accepted_invitation (u_id u) now) (working w))) (\<lambda>_.
     seq (exec (\<lambda>w. drop_invitation_mails (\<lambda>x. x = iv_id i) ''invitation accepted'' (working w))) (\<lambda>_.
     commit_normalized))) w2 = (Inr a, w1)"
    unfolding join_staff_def by (auto simp: seq_Inr rethrow_Inr)
  have k: "k = next_id (map mm_id (membresias (working w)))"
    "working w2 = (working w)\<lparr>membresias := membresias (working w) @ [\<lparr>mm_id = k, mm_usuario = u_id u, mm_marca = iv_marca i, mm_rol = iv_rol i,
       mm_activo = True, mm_version = 1\<rparr>]\<rparr>"
    using ins unfolding insert_membership_def by (auto simp: exec_ret_Inr Let_def split: if_splits)
  show ?thesis
    using rest unfolding copy_branches_def seq_run commit_normalized_def rethrow_Inr commit_Inr
    by (auto simp: joined_def k Let_def)
qed

text \<open>A first registration is a new row of accounts and its password.\<close>

definition open_invitations :: "string \<Rightarrow> int \<Rightarrow> staff_db \<Rightarrow> invitation list" where
  "open_invitations hash now d = [i. i \<leftarrow> invitaciones d, m \<leftarrow> marcas d,
     m_id m = iv_marca i \<and> m_activo m \<and> m_deleted_at m = None \<and> open_invitation hash now i]"

lemma register_invitation_Inr:
  assumes "register_invitation pf hash now name last_name password w = (Inr u, w1)"
  obtains i d1 where "i \<in> set (open_invitations hash now (committed w))" "u_email u = iv_email i" "u_tipo u = ''PERSONAL_MARCA''"
    "\<And>v. v \<in> set (usuarios (committed w)) \<Longrightarrow> \<not> ci_equal (u_email v) (iv_email i)"
    "u_id u \<notin> u_id ` set (usuarios (committed w))"
    "staff_tables d1 = staff_tables (committed w)" "usuarios d1 = usuarios (committed w) @ [u]"
    "passwords d1 = passwords (committed w) @ [(u_id u, password)]" "committed w1 = joined i u now d1"
proof -
  let ?w = "(ticked w)\<lparr>working := committed w\<rparr>"
  from assms obtain i code w2 w3 w4 where row: "first_row (open_invitations hash now (committed w)) = Some i"
    and free: "\<not> list_ex (\<lambda>u. ci_equal (u_email u) (iv_email i)) (usuarios (committed w))"
    and code: "allocate_user_code pf name last_name (ticked (ticked ?w)) = (Inr code, w2)"
    and user: "insert_staff_user (iv_email i) password name last_name code now w2 = (Inr u, w3)"
    and join: "join_staff i u now w3 = (Inr (), w4)" and w1: "committed w1 = committed w4"
    unfolding register_invitation_def in_tx_Inr seq_run Let_def open_invitations_def
    by (auto simp: seq_Inr rethrow_Inr ret_Inr)
  have w2: "staff_tables (working w2) = staff_tables (committed w)" "usuarios (working w2) = usuarios (committed w)"
    "passwords (working w2) = passwords (committed w)"
    using code unfolding allocate_user_code_def
    by (auto simp: seq_Inr exec_ret_Inr ret_Inr reject_if_Inr staff_tables_def Let_def split: prod.splits)
  have w3: "u_email u = iv_email i" "u_tipo u = ''PERSONAL_MARCA''" "u_id u = next_id (map u_id (usuarios (working w2)))"
    "working w3 = (working w2)\<lparr>usuarios := usuarios (working w2) @ [u], passwords := passwords (working w2) @ [(u_id u, password)]\<rparr>"
    using user unfolding insert_staff_user_def by (auto simp: exec_ret_Inr Let_def split: if_splits)
  show thesis
  proof (rule that [of i "working w3"])
    show "i \<in> set (open_invitations hash now (committed w))" using row by (rule first_row_SomeD)
    show "u_id u \<notin> u_id ` set (usuarios (committed w))" using next_id_fresh [of "map u_id (usuarios (working w2))"] w2(2) w3(3) by simp
    show "staff_tables (working w3) = staff_tables (committed w)" using w2(1) w3(4) by (simp add: staff_tables_def)
    show "committed w1 = joined i u now (working w3)" unfolding w1 by (rule join_staff_Inr [OF join])
  qed (use free w2 w3 in \<open>auto simp: list_ex_iff\<close>)
qed

lemma joined_tables:
  "membresias (joined i u now d) = membresias d @ [\<lparr>mm_id = next_id (map mm_id (membresias d)), mm_usuario = u_id u, mm_marca = iv_marca i,
     mm_rol = iv_rol i, mm_activo = True, mm_version = 1\<rparr>]"
  "membresias_sucursales (joined i u now d) = membresias_sucursales d @
     map (assigned (next_id (map mm_id (membresias d))) \<circ> snd) (filter (\<lambda>b. fst b = iv_id i) (invitaciones_sucursales d))"
  "invitaciones (joined i u now d) = update_where (\<lambda>x. iv_id x = iv_id i) (accepted_invitation (u_id u) now) (invitaciones d)"
  "usuarios (joined i u now d) = usuarios d" "passwords (joined i u now d) = passwords d"
  by (simp_all add: joined_def drop_invitation_mails_def set_invitations_def Let_def)

text \<open>
  C37. A registration takes an open invitation of an active brand, for an address that has no account; it creates the
  account with that address and password, an active membership with the role of the invitation and no other, with exactly
  the branches of the invitation, and marks the invitation accepted by the new account.
\<close>

theorem registration_joins_brand:
  assumes "register_invitation pf hash now name last_name password w = (Inr u, w1)"
  shows "\<exists>i k. i \<in> set (invitaciones (committed w)) \<and> open_invitation hash now i
    \<and> (\<exists>m \<in> set (marcas (committed w)). m_id m = iv_marca i \<and> m_activo m \<and> m_deleted_at m = None)
    \<and> \<not> list_ex (\<lambda>v. ci_equal (u_email v) (iv_email i)) (usuarios (committed w))
    \<and> u_email u = iv_email i \<and> u_tipo u = ''PERSONAL_MARCA'' \<and> u_id u \<notin> u_id ` set (usuarios (committed w))
    \<and> usuarios (committed w1) = usuarios (committed w) @ [u]
    \<and> passwords (committed w1) = passwords (committed w) @ [(u_id u, password)]
    \<and> k \<notin> mm_id ` set (membresias (committed w))
    \<and> membresias (committed w1) = membresias (committed w) @
        [\<lparr>mm_id = k, mm_usuario = u_id u, mm_marca = iv_marca i, mm_rol = iv_rol i, mm_activo = True, mm_version = 1\<rparr>]
    \<and> membresias_sucursales (committed w1) = membresias_sucursales (committed w) @
        map (assigned k \<circ> snd) (filter (\<lambda>b. fst b = iv_id i) (invitaciones_sucursales (committed w)))
    \<and> invitaciones (committed w1) = update_where (\<lambda>x. iv_id x = iv_id i) (accepted_invitation (u_id u) now) (invitaciones (committed w))"
  using assms
proof (cases rule: register_invitation_Inr)
  case (1 i d1)
  let ?k = "next_id (map mm_id (membresias (committed w)))"
  have tables: "membresias d1 = membresias (committed w)" "membresias_sucursales d1 = membresias_sucursales (committed w)"
    "invitaciones d1 = invitaciones (committed w)" "invitaciones_sucursales d1 = invitaciones_sucursales (committed w)"
    using 1(6) by (simp_all add: staff_tables_def)
  have i: "i \<in> set (invitaciones (committed w))" "open_invitation hash now i"
    "\<exists>m \<in> set (marcas (committed w)). m_id m = iv_marca i \<and> m_activo m \<and> m_deleted_at m = None"
    using 1(1) by (auto simp: open_invitations_def)
  have "?k \<notin> mm_id ` set (membresias (committed w))" using next_id_fresh [of "map mm_id (membresias (committed w))"] by simp
  moreover have "\<not> list_ex (\<lambda>v. ci_equal (u_email v) (iv_email i)) (usuarios (committed w))" using 1(4) by (auto simp: list_ex_iff)
  ultimately show ?thesis using i 1 by (intro exI [of _ i] exI [of _ ?k]) (simp add: joined_tables tables)
qed

definition demo_invitation :: invitation where
  "demo_invitation = \<lparr>iv_id = ''I1'', iv_marca = 10, iv_invited_by = 1, iv_email = ''ana@x.com'', iv_rol = ''OPERADOR'', iv_hash = ''H1'',
     iv_estado = ''PENDIENTE'', iv_expires = 900, iv_accepted_by = None, iv_accepted_at = None, iv_version = 1, iv_created = 0\<rparr>"

definition demo_staff_db :: staff_db where
  "demo_staff_db = \<lparr>usuarios = [\<lparr>u_id = 1, u_email = ''own@x.com'', u_nombre = ''Ona'', u_apellido = None, u_tipo = ''PERSONAL_MARCA'',
       u_activo = True, u_deleted_at = None, u_qr_hash = None, u_codigo = None, u_verified_at = None\<rparr>],
     marcas = [\<lparr>m_id = 10, m_nombre = ''Cafe'', m_activo = True, m_deleted_at = None, m_zona = ''UTC'', m_trial_started = None, m_trial_estimated = False\<rparr>],
     membresias = [\<lparr>mm_id = 1, mm_usuario = 1, mm_marca = 10, mm_rol = ''PROPIETARIO'', mm_activo = True, mm_version = 1\<rparr>],
     membresias_sucursales = [],
     sucursales = [\<lparr>s_id = 20, s_marca = 10, s_nombre = ''Centro'', s_activo = True, s_deleted_at = None,
       s_direccion = None, s_localidad = None, s_provincia = None, s_codigo_postal = None,
       s_latitud = None, s_longitud = None, s_principal = True, s_version = 1\<rparr>],
     programas = [], solicitudes = [], contadores = [], invitaciones = [demo_invitation], invitaciones_sucursales = [(''I1'', 20, 10)],
     invitation_mails = [], passwords = []\<rparr>"

definition demo_staff :: "staff_db world" where
  "demo_staff = \<lparr>committed = demo_staff_db, working = demo_staff_db, faults = [], app_now = 100, db_now = 100, sent = []\<rparr>"

definition plain_platform :: platform where
  "plain_platform = \<lparr>sha256 = id, hmac_sha256 = (\<lambda>k m. m), base64url = id, nfd = id, nfc = id, uuid_ok = (\<lambda>_. True)\<rparr>"

definition demo_registered :: "(err + usuario) \<times> staff_db world" where
  "demo_registered = register_invitation plain_platform ''H1'' 100 ''Ana'' ''Paz'' ''pw'' demo_staff"

lemma demo_registered_run: "fst demo_registered = Inr \<lparr>u_id = 2, u_email = ''ana@x.com'', u_nombre = ''Ana'', u_apellido = Some ''Paz'',
   u_tipo = ''PERSONAL_MARCA'', u_activo = True, u_deleted_at = None, u_qr_hash = None, u_codigo = Some ''AP-1'', u_verified_at = Some 100\<rparr>"
  by code_simp

theorem registration_joins_brand_witness:
  "\<exists>i k. i \<in> set (invitaciones demo_staff_db) \<and> membresias (committed (snd demo_registered)) = membresias demo_staff_db @
     [\<lparr>mm_id = k, mm_usuario = 2, mm_marca = iv_marca i, mm_rol = iv_rol i, mm_activo = True, mm_version = 1\<rparr>]"
proof -
  let ?u = "\<lparr>u_id = 2, u_email = ''ana@x.com'', u_nombre = ''Ana'', u_apellido = Some ''Paz'', u_tipo = ''PERSONAL_MARCA'', u_activo = True,
     u_deleted_at = None, u_qr_hash = None, u_codigo = Some ''AP-1'', u_verified_at = Some 100\<rparr>"
  have "register_invitation plain_platform ''H1'' 100 ''Ana'' ''Paz'' ''pw'' demo_staff = (Inr ?u, snd demo_registered)"
    using demo_registered_run by (simp add: demo_registered_def prod_eq_iff)
  from registration_joins_brand [OF this] obtain i k where "i \<in> set (invitaciones (committed demo_staff))"
    "membresias (committed (snd demo_registered)) = membresias (committed demo_staff) @
     [\<lparr>mm_id = k, mm_usuario = u_id ?u, mm_marca = iv_marca i, mm_rol = iv_rol i, mm_activo = True, mm_version = 1\<rparr>]" by (elim exE conjE)
  then show ?thesis by (intro exI [of _ i] exI [of _ k]) (simp add: demo_staff_def)
qed

section \<open>Every history\<close>

text \<open>
  C38. Whatever staff, managers and invited people do, and whatever fails: an owner's membership is never added, changed or
  removed, ids and hashes stay unique, and an active operator, like a pending invitation of one, always has a branch.
\<close>

theorem staff_history_sound:
  assumes "staff_step\<^sup>*\<^sup>* d d1" "staff_ok {} {} d"
  shows "owners_of d1 = owners_of d \<and> distinct (map mm_id (membresias d1)) \<and> distinct (map iv_hash (invitaciones d1))
    \<and> (\<forall>m \<in> set (membresias d1). mm_activo m \<and> mm_rol m = ''OPERADOR'' \<longrightarrow> member_branches (mm_id m) d1 \<noteq> [])
    \<and> (\<forall>i \<in> set (invitaciones d1). iv_rol i \<noteq> ''PROPIETARIO''
         \<and> (pending_invitation i \<and> iv_rol i = ''OPERADOR'' \<longrightarrow> invitation_branches (iv_id i) d1 \<noteq> []))"
proof -
  note s = staff_history [OF assms]
  have "member_branches k d1 \<noteq> []" if "member_has_branch k d1" for k
    using that by (auto simp: member_has_branch_def member_branches_def filter_empty_conv simp flip: set_empty)
  moreover have "invitation_branches i d1 \<noteq> []" if "invitation_has_branch i d1" for i
    using that by (force simp: invitation_has_branch_def invitation_branches_def filter_empty_conv simp flip: set_empty)
  moreover have "owners_of d1 = owners_of d" using s by (simp add: standing_def)
  ultimately show ?thesis using standingD [OF s] by auto
qed

lemma step_of_run: "committed w = d \<Longrightarrow> step_of m d (committed (snd (m w)))"
  unfolding step_of_def by (metis prod.collapse)

lemma demo_staff_ok: "staff_ok {} {} demo_staff_db"
  by (simp add: staff_ok_def demo_staff_db_def demo_invitation_def invitation_has_branch_def)

text \<open>The link of the invitation carries its token, of which the table has the hash.\<close>

definition plain_crypto :: crypto where
  "plain_crypto = \<lparr>cr_mac = (\<lambda>k v. v), cr_sha = (\<lambda>t. ''H1''), cr_b64 = id, cr_seal = (\<lambda>t i. Inr (t, i)), cr_key = replicate 32 (CHR ''k'')\<rparr>"

definition demo_joined :: "(err + usuario) \<times> staff_db world" where
  "demo_joined = register_invitation_service plain_platform plain_crypto None (\<lambda>_. False) Inr (replicate 43 CHR ''t'') ''Ana'' ''Paz'' ''a long password'' demo_staff"

definition demo_promoted :: "(err + staff_view) \<times> staff_db world" where
  "demo_promoted = update_staff_service (\<lambda>_. False) 1 10 2 1 (Some '' administrador'') (Some []) (snd demo_joined)"

lemma demo_roles: "map mm_rol (membresias (committed (snd demo_joined))) = [''PROPIETARIO'', ''OPERADOR'']"
  "map mm_rol (membresias (committed (snd demo_promoted))) = [''PROPIETARIO'', ''ADMINISTRADOR'']"
  by code_simp+

lemma demo_staff_history: "staff_step\<^sup>*\<^sup>* demo_staff_db (committed (snd demo_joined))" "staff_step\<^sup>*\<^sup>* demo_staff_db (committed (snd demo_promoted))"
proof -
  have "staff_step demo_staff_db (committed (snd demo_joined))" unfolding demo_joined_def
    by (rule registers, rule step_of_run) (simp add: demo_staff_def)
  then show joined: "staff_step\<^sup>*\<^sup>* demo_staff_db (committed (snd demo_joined))" by blast
  have "staff_step (committed (snd demo_joined)) (committed (snd demo_promoted))" unfolding demo_promoted_def
    by (rule changes, rule step_of_run) simp
  with joined show "staff_step\<^sup>*\<^sup>* demo_staff_db (committed (snd demo_promoted))" by (rule rtranclp.rtrancl_into_rtrancl)
qed

theorem staff_history_sound_witness:
  "owners_of (committed (snd demo_promoted)) = owners_of demo_staff_db
    \<and> map mm_rol (membresias (committed (snd demo_promoted))) = [''PROPIETARIO'', ''ADMINISTRADOR'']"
  using staff_history_sound [OF demo_staff_history(2) demo_staff_ok] demo_roles(2) by simp

text \<open>What closes an invitation is never undone.\<close>

lemma registration_closes:
  assumes "register_invitation pf hash now name last_name password w = (Inr u, w1)"
  shows "closed_hash hash (committed w1)"
  using assms
proof (cases rule: register_invitation_Inr)
  case (1 i d1)
  from 1(1) have i: "i \<in> set (invitaciones (committed w))" "iv_hash i = hash" by (auto simp: open_invitations_def open_invitation_def)
  have "accepted_invitation (u_id u) now i \<in> set (invitaciones (committed w1))"
    using i(1) 1(6) by (auto simp: 1(9) joined_tables set_update_where staff_tables_def)
  then show ?thesis using i(2) unfolding closed_hash_def by (intro bexI) simp_all
qed

lemma revocation_closes:
  assumes "revoke_invitation user brand i w = (Inr (), w1)" "staff_ok {} {} (committed w)"
    and x: "x \<in> set (invitaciones (committed w))" "iv_id x = i"
  shows "closed_hash (iv_hash x) (committed w1)"
proof -
  let ?p = "\<lambda>x. iv_id x = i \<and> iv_marca x = brand \<and> pending_invitation x"
  from assms(1) obtain w2 w3 w4 where exp: "expire_invitations brand (app_now w) w2 = (Inr (), w3)" "working w2 = committed w"
    and one: "rows_affected ?p (invitaciones (working w3)) = 1"
    and w1: "committed w1 = drop_invitation_mails (\<lambda>x. x = i) ''invitation revoked'' (set_invitations ?p (closed_as ''REVOCADA'') (working w3))"
    unfolding revoke_invitation_def require_staff_manager_def in_tx_Inr
    by (auto simp: seq_Inr query_Inr reject_if_Inr now_app_Inr exec_ret_Inr exec_Inr commit_Inr Let_def)
  have "working w3 = drop_invitation_mails (\<lambda>i. i \<in> set (map iv_id (filter (overdue brand (app_now w)) (invitaciones (committed w))))) ''invitation expired''
      (set_invitations (overdue brand (app_now w)) (closed_as ''EXPIRADA'') (committed w))"
    using exp unfolding expire_invitations_def by (auto simp: exec_Inr Let_def)
  then have "invitaciones (working w3) = update_where (overdue brand (app_now w)) (closed_as ''EXPIRADA'') (invitaciones (committed w))"
    by (simp add: drop_invitation_mails_def set_invitations_def)
  note rows = this
  let ?y = "if overdue brand (app_now w) x then closed_as ''EXPIRADA'' x else x"
  have y: "?y \<in> set (invitaciones (working w3))" "iv_id ?y = iv_id x" "iv_hash ?y = iv_hash x"
    unfolding rows set_update_where using x(1) by auto
  have same: "map iv_id (invitaciones (working w3)) = map iv_id (invitaciones (committed w))"
    unfolding rows by (rule map_update_where) simp
  have ids: "distinct (map iv_id (invitaciones (working w3)))" using assms(2) unfolding same by (simp add: staff_ok_def)
  from one obtain z where z: "z \<in> set (invitaciones (working w3))" "?p z" by (fastforce simp: rows_affected_def length_Suc_conv filter_eq_Cons_iff)
  from distinct_key_unique [OF ids z(1) y(1)] z(2) y(2) x(2) have "z = ?y" by simp
  with z have "closed_as ''REVOCADA'' ?y \<in> set (invitaciones (committed w1))"
     by (auto simp: w1 drop_invitation_mails_def set_invitations_def set_update_where)
  then show ?thesis using y(3) closed_not_pending [of "''REVOCADA''" ?y] unfolding closed_hash_def by (intro bexI) simp_all
qed

text \<open>
  C39. An invitation is used once: after a registration with its token, or its revocation, no registration with that token
  succeeds, in whatever state the operations on staff lead to.
\<close>

theorem invitation_single_use:
  assumes ok: "staff_ok {} {} (committed w)"
    and used: "(\<exists>pf t n l p u. register_invitation pf hash t n l p w = (Inr u, w1))
      \<or> (\<exists>user brand x. x \<in> set (invitaciones (committed w)) \<and> iv_hash x = hash \<and> revoke_invitation user brand (iv_id x) w = (Inr (), w1))"
    and later: "staff_step\<^sup>*\<^sup>* (committed w1) (committed w2)"
    and again: "register_invitation pf hash now name last_name password w2 = (r, w3)"
  shows "\<exists>e. r = Inl e"
proof (cases r)
  case (Inr u)
  have start: "standing {} {} (committed w) (committed w)" using ok by (simp add: standing_def)
  have "closed_hash hash (committed w1) \<and> standing {} {} (committed w) (committed w1)"
    using used
  proof (elim disjE exE conjE)
    fix pf t n l p u
    assume run: "register_invitation pf hash t n l p w = (Inr u, w1)"
    from registration_closes [OF this] securesD(1) [OF secure_register_invitation start TrueI run] show ?thesis by blast
  next
    fix user brand x
    assume x: "x \<in> set (invitaciones (committed w))" "iv_hash x = hash" and run: "revoke_invitation user brand (iv_id x) w = (Inr (), w1)"
    from revocation_closes [OF run ok x(1) refl] x(2) securesD(1) [OF secure_revoke_invitation start TrueI run] show ?thesis by blast
  qed
  then have closed: "closed_hash hash (committed w1)" and ok1: "staff_ok {} {} (committed w1)" by (simp_all add: standing_def)
  note s = staff_history [OF later ok1]
  with closed have "closed_hash hash (committed w2)" by (simp add: standing_def)
  then obtain x where x: "x \<in> set (invitaciones (committed w2))" "iv_hash x = hash" "\<not> pending_invitation x" by (auto simp: closed_hash_def)
  from again Inr obtain i where "i \<in> set (open_invitations hash now (committed w2))" by (auto elim: register_invitation_Inr)
  then have i: "i \<in> set (invitaciones (committed w2))" "iv_hash i = hash" "pending_invitation i"
    by (auto simp: open_invitations_def open_invitation_def)
  from distinct_key_unique [OF standingD(3) [OF s] x(1) i(1)] x(2,3) i(2,3) show ?thesis by simp
qed simp

definition demo_again :: "(err + usuario) \<times> staff_db world" where
  "demo_again = register_invitation plain_platform ''H1'' 100 ''Eva'' ''Paz'' ''pw2'' (snd demo_registered)"

theorem invitation_single_use_witness: "\<exists>e. fst demo_again = Inl e"
proof (rule invitation_single_use [OF _ disjI1 rtranclp.rtrancl_refl])
  show "staff_ok {} {} (committed demo_staff)" using demo_staff_ok by (simp add: demo_staff_def)
  show "\<exists>pf t n l p u. register_invitation pf ''H1'' t n l p demo_staff = (Inr u, snd demo_registered)"
    using demo_registered_run unfolding demo_registered_def by (metis prod.collapse)
  show "register_invitation plain_platform ''H1'' 100 ''Eva'' ''Paz'' ''pw2'' (snd demo_registered) = (fst demo_again, snd demo_again)"
    by (simp add: demo_again_def)
qed

section \<open>Who may change the staff\<close>

definition refused :: "staff_db world \<Rightarrow> 'a staff_tx \<Rightarrow> bool" where
  "refused w m \<longleftrightarrow> isl (fst (m w)) \<and> committed (snd (m w)) = committed w"

lemma refused_secures:
  assumes "secures (\<lambda>d. d = committed w) (\<lambda>_. True) m (\<lambda>_ _. False)"
  shows "refused w m"
proof -
  obtain r w1 where run: "m w = (r, w1)" by (cases "m w")
  from securesD [OF assms refl TrueI run] run show ?thesis by (cases r) (simp_all add: refused_def)
qed

lemma secures_not_manager:
  assumes "\<not> manages user brand d0"
  shows "secures (\<lambda>d. d = d0) (\<lambda>_. True) (in_tx (seq (require_staff_manager user brand) f)) (\<lambda>_ _. False)"
proof (rule secures_in_tx_result, rule secures_seq [where R = "\<lambda>_ _. False"])
  show "secures (\<lambda>d. d = d0) (\<lambda>d. d = d0) (require_staff_manager user brand) (\<lambda>_ _. False)"
    unfolding require_staff_manager_def
    by (rule secures_after_query, rule securesI) (use assms in \<open>auto simp: reject_if_def throw_def ret_def split: if_splits\<close>)
qed (rule secures_never, simp)

text \<open>
  C40. Whoever is not an active owner or administrator of the brand gets nothing out of the operations on its staff and
  invitations, whatever the input, the failures and the retries: an error, and the committed tables as they were.
\<close>

theorem staff_needs_manager:
  assumes "\<not> manages user brand (committed w)"
  shows "refused w (list_invitations user brand)
    \<and> refused w (create_invitation_service cr parse_address key_ok fingerprint_of cancelled drawn user brand key i oid req build)
    \<and> refused w (revoke_invitation_service cancelled user brand i)
    \<and> refused w (resend_invitation_service cr cancelled drawn user brand i oid)
    \<and> refused w (update_staff_service cancelled user brand membership version role branches)
    \<and> refused w (delete_staff_service cancelled user brand membership version)"
proof -
  note no = secures_not_manager [OF assms]
  have change: "secures (\<lambda>d. d = committed w) (\<lambda>_. True) (update_staff user brand membership version r bs) (\<lambda>_ _. False)" for r bs
    unfolding update_staff_def change_member_def by (rule secures_seq [OF no]) (rule secures_never, simp)
  have refusals: "refused w (list_invitations user brand)" "refused w (revoke_invitation_service cancelled user brand i)"
    unfolding list_invitations_def revoke_invitation_service_def revoke_invitation_def by (rule refused_secures, intro secures_retry no)+
  have drawn: "refused w (create_invitation_service cr parse_address key_ok fingerprint_of cancelled drawn user brand key i oid req build)"
    "refused w (resend_invitation_service cr cancelled drawn user brand i oid)"
    unfolding create_invitation_service_def create_invitation_def resend_invitation_service_def resend_invitation_def
    by (rule refused_secures, intro secures_after_require secures_after_reject secures_any [OF leaves_lift_sum] secures_split secures_retry
        secures_after_now no)+
  have members: "refused w (update_staff_service cancelled user brand membership version role branches)"
    "refused w (delete_staff_service cancelled user brand membership version)"
    unfolding update_staff_service_def delete_staff_service_def delete_staff_def
    by (rule refused_secures, intro secures_after_require secures_after_reject secures_split secures_retry change no)+
  from refusals drawn members show ?thesis by blast
qed

theorem staff_needs_manager_witness:
  "refused (snd demo_joined) (delete_staff_service (\<lambda>_. False) 2 10 2 1)"
proof -
  have "\<not> manages 2 10 (committed (snd demo_joined))" by code_simp
  from staff_needs_manager [OF this] show ?thesis by blast
qed

end
