(* ===== verification/Spec2Isabelle.thy ===== *)
theory Spec2Isabelle
  imports MovementService LedgerHistory Challenge Uploads CardEvents AnalyticsPeriod BranchProperties SubscriptionProperties PaymentProperties CheckoutProperties BranchWorker
    PriceTheorems MailProperties StaffProperties
begin

text \<open>
  Verification of the loyalty back end: a Go service (gin, pgx, PostgreSQL, Redis) in which brands
  give customers stamps or points, and pay for it by subscription through Mercado Pago. Modelled
  are the parts where money, balances and one-use credentials change hands, from the service layer
  down to the SQL statements embedded in the Go text.

  How the code is modelled. A database is a record of tables, a table the list of its rows. A
  database operation of the code is a function in the transaction monad of theory Prelude: it
  passes a \<open>world\<close> (committed database, working copy of the open transaction, the clocks of the
  application and of PostgreSQL, the requests sent to other services) and ends in an error value
  or a result. Every statement, the commit included, may fail: the world carries a schedule of
  faults, and a theorem quantifies over all of them. \<open>in_tx\<close> is Begin with the deferred Rollback,
  \<open>pool_exec\<close> a statement of its own, \<open>call_out\<close> a request to another service, whose answer is an
  argument of the operation and which no rollback takes back. Transactions are serialisable (row
  locks and constraints of the migrations are part of the statements), so an interleaving of
  requests is a sequence of operations. An \<open>int64\<close> is an \<open>int\<close> whose operations wrap explicitly;
  text is the list of its bytes; instants are nanoseconds of the Unix epoch.

  Theories, in the order in which they build on each other, and the code they model (paths under
  \<^verbatim>\<open>internal/\<close>):

  \<^item> Prelude (errors of \<^verbatim>\<open>repository/errors.go\<close> and \<^verbatim>\<open>service/service.go\<close>, integers, transactions and
    their rules), Contracts (invariants and request conditions of composed operations), TxLogic (a Hoare logic of
    transactions), Schema (the
    tables all components share, text functions), GoText (\<^verbatim>\<open>strings\<close>, \<^verbatim>\<open>strconv\<close>, \<^verbatim>\<open>hex\<close>),
    Calendar (package \<^verbatim>\<open>time\<close>: civil dates and anchored months).
  \<^item> Movements: Idempotency (\<^verbatim>\<open>repository/idempotency.go\<close>, \<^verbatim>\<open>service/retry.go\<close>), Movement
    (\<^verbatim>\<open>repository/movement.go\<close>, \<^verbatim>\<open>movement_reversal.go\<close>: preview, confirmation, reversal), Ledger,
    LedgerSteps, LedgerTheorems and LedgerEffects (the ledger as a state machine, its invariants,
    what each operation does), Retention (the ledger's rows in the retention job,
    \<^verbatim>\<open>repository/retention.go\<close>, and in the deletion of an account, \<^verbatim>\<open>repository/account.go\<close>) and
    LedgerHistory (the histories that contain them too: balances, answered keys), CustomerIdentity (\<^verbatim>\<open>service/qr.go\<close>, \<^verbatim>\<open>identitycode/code.go\<close>,
    \<^verbatim>\<open>repository/user_code.go\<close>) and MovementService (\<^verbatim>\<open>service/movement.go\<close>, which composes them).
  \<^item> Gates of the HTTP layer: RateLimit (\<^verbatim>\<open>middleware/ratelimit.go\<close>), Challenge
    (\<^verbatim>\<open>challenge/challenge.go\<close>, over the limiter's proof store as an interface), Uploads
    (\<^verbatim>\<open>middleware/upload_semaphore.go\<close>, all interleavings), CardEvents (\<^verbatim>\<open>cardevents/broker.go\<close>).
  \<^item> AnalyticsPeriod (\<^verbatim>\<open>analytics/calendar.go\<close>).
  \<^item> Billing (tables and shared queries of \<^verbatim>\<open>repository/subscription.go\<close> and the billing migrations).
  \<^item> Branch purchases: Proration and BranchQuotes (\<^verbatim>\<open>repository/branch_proration.go\<close> and the
    calculation of \<^verbatim>\<open>service/branch_proration.go\<close>), BranchReconcile (\<^verbatim>\<open>repository/branch_reconcile.go\<close>),
    BranchSegments, BranchInvariant, BranchTheorems, BranchPurchase and BranchProperties (what each
    segment does, the invariant, the abstract purchase and its refinement, the properties),
    BranchService and BranchWorker (the requests, notifications and background loop of the service).
  \<^item> Subscriptions: Subscriptions (\<^verbatim>\<open>repository/subscription.go\<close>, \<^verbatim>\<open>subscription_email.go\<close>,
    \<^verbatim>\<open>branch_cancel.go\<close>), ReferralLedger (the ledger of invoices of \<^verbatim>\<open>subscription.go\<close> and the credits
    of \<^verbatim>\<open>referral_credit.go\<close>), ReferralTheorems, SubscriptionTheorems and SubscriptionProperties (the
    abstract life cycle, the invariants, the properties), SubscriptionService (\<^verbatim>\<open>service/subscription.go\<close>)
    and CheckoutProperties; SubscriptionPrices (\<^verbatim>\<open>repository/subscription_prices.go\<close>,
    \<^verbatim>\<open>subscription_price_history.go\<close>), PriceService (\<^verbatim>\<open>service/subscription_prices.go\<close> and its worker)
    and PriceTheorems (a price follows the provider's confirmation, versions, the worker's pause).
  \<^item> Identity: Identity (tables, sessions: \<^verbatim>\<open>repository/session.go\<close>), EmailTokens (links and codes sent by mail:
    \<^verbatim>\<open>repository/email.go\<close>, \<^verbatim>\<open>email_code.go\<close>, \<^verbatim>\<open>email_change.go\<close>, \<^verbatim>\<open>reauthenticate.go\<close>, \<^verbatim>\<open>emailcode/code.go\<close>),
    Outbox (the queue of mail), AuthService and IdentityRequests (\<^verbatim>\<open>service/auth.go\<close>, \<^verbatim>\<open>reauthenticate.go\<close>,
    \<^verbatim>\<open>email_code.go\<close>, \<^verbatim>\<open>customer.go\<close>, \<^verbatim>\<open>auth/jwt.go\<close>, \<^verbatim>\<open>middleware/auth.go\<close>), MailWorker (\<^verbatim>\<open>mailer/worker.go\<close>);
    IdentityTheorems (the invariant, what never goes back),
    IdentitySteps and IdentityHistory (every operation obeys it, histories), AuthProperties and MailProperties.
  \<^item> Staff: Staff (\<^verbatim>\<open>repository/staff.go\<close>), StaffService (\<^verbatim>\<open>service/staff.go\<close>, \<^verbatim>\<open>registration_profile.go\<close>), StaffTheorems
    (every operation keeps the invariant, owners and closed invitations) and StaffProperties.
  \<^item> MercadoPago (\<^verbatim>\<open>mercadopago/client.go\<close> and \<^verbatim>\<open>branch.go\<close>: the provider is a function from the
    requests it has received to its reply) and PaymentProperties.

  What the groups of lemmas show. Balances are conserved: a card's balance is the sum of its
  unreversed entries, also when accounts and expired rows are deleted; each preview posts once, and
  each idempotency key once until the retention of its row ends; a reversal gives back exactly the
  amount of its entry, once; a live preview can be confirmed. Every operation that ends in an error leaves the committed database alone. A branch opens
  only for the quoted subscription, paid and confirmed, and every operation moves a purchase along
  its abstract state machine. A subscription moves along its life cycle, the provider is asked to
  create it at most once per reservation, charges are numbered without a gap and charged once,
  credits are covered by earned rewards. Refunds are asked only for duplicates or for purchases
  that did not open. A family of sessions has at most one that is live, a refresh token or a link works
  once and what is revoked stays revoked over every history, a reset of the password ends every
  session, at most five codes are compared, a mail is in the hands of one worker at a time. Only owners
  and administrators manage the staff of a brand, none of them touches an owner, an invitation is accepted once, an operator always has a
  branch. Windows, uploads and subscribers are bounded, receipts spent once, signatures
  bound to the resource and request they were made for, and amounts, codes and periods exact.

  Bounds. No fuel is used: loops over rows and search results are structural, the count of
  calendar days carries a measure, the retry loop its attempts, the drain of the price worker is a partial
  function proved to return, and the loops that run for ever (the listener of
  card events, the workers of branch purchases and of prices) are given by the finite list of what happens to
  them. Hypotheses on parameters (the time zone, the hash and the text normalisation of the
  standard library, the provider's answers) name documented behaviour and are witnessed.

  Scope of the histories. A ledger step is one of the three operations of the ledger or a change
  inside the frame of the other requests (\<open>ledger_frame\<close>); the histories of LedgerHistory add the
  retention job and the deletion of accounts. The histories of subscriptions, of identity and of
  staff consist of the modelled operations of those components: there the retention job, the
  deletion of accounts and, for subscriptions, the price worker and the operations on branches are
  no steps.

  Not modelled: sign-up of customers and merchants and the sign-up half of the login with Google, the bcrypt
  gate and the second factor of the back office (\<^verbatim>\<open>password\<close>, \<^verbatim>\<open>backofficeauth\<close>); what the retention job and the
  deletion of an account do to sessions, tokens, mail, subscriptions, reviews and files; the catalogue of brands, menus,
  benefits, media, stores, reviews and profiles; referral campaigns and their registration; statistics
  and listings; the text of mails and the delivery of push messages; storage, configuration, logging and the HTTP
  handlers. JSON, HTTP, cryptography and the drivers are libraries: where the
  modelled code uses them their results are parameters. Timeouts appear as faults. Weaker isolation
  than serialisable and the loss of a commit's acknowledgement are outside the model.
\<close>

end
